(* ===== verification/Prelude.thy ===== *)
theory Prelude
  imports Main "HOL-Library.Word" "HOL-Library.Sublist"
begin

text \<open>
  Shared vocabulary of the development.

  \<^item> Rust's \<open>std::cmp::Ordering\<close> with \<open>reverse\<close> and \<open>then\<close>, the three-way
    comparisons of integers, characters, strings, options and sequences, and the
    locale \<open>total_cmp\<close>: what an \<open>impl Ord\<close> owes to its users on the values that
    can occur.
  \<^item> The string operations of \<open>str\<close> the sources call.
  \<^item> The collections \<open>cmp_laws\<close> (comparison functions known to satisfy the
    locale) and \<open>rust_str\<close> (unfolding of the string operations).

  Strings are lists of bytes: every character class the grammars mention is ASCII or the
  complement of ASCII blanks, so that matching UTF-8 bytes one by one and matching
  Unicode scalar values one by one accept the same slices.
\<close>

named_theorems cmp_laws "comparison functions that satisfy the laws of Ord"
named_theorems rust_str "string operations of the standard library"

section \<open>Ordering\<close>

datatype ordering = Less | Equal | Greater

fun ord_reverse :: "ordering \<Rightarrow> ordering" where
  "ord_reverse Less = Greater"
| "ord_reverse Equal = Equal"
| "ord_reverse Greater = Less"

text \<open>\<open>Ordering::then\<close>; the macro \<open>cmp_not_equal!\<close> of \<open>macros.rs\<close>, which
  returns from the function unless the comparison is \<open>Equal\<close>, is the same operation.\<close>

fun ord_then :: "ordering \<Rightarrow> ordering \<Rightarrow> ordering" where
  "ord_then Equal d = d"
| "ord_then c d = c"

lemma ord_reverse_reverse [simp]: "ord_reverse (ord_reverse c) = c"
  by (cases c) simp_all

lemma ord_reverse_eq [simp]:
  "ord_reverse c = Equal \<longleftrightarrow> c = Equal"
  "ord_reverse c = Less \<longleftrightarrow> c = Greater"
  "ord_reverse c = Greater \<longleftrightarrow> c = Less"
  by (cases c; simp)+

lemma ord_then_Equal_right [simp]: "ord_then c Equal = c"
  by (cases c) simp_all

lemma ord_then_eq_Equal [simp]: "ord_then c d = Equal \<longleftrightarrow> c = Equal \<and> d = Equal"
  by (cases c) simp_all

lemma ord_reverse_then [simp]: "ord_reverse (ord_then c d) = ord_then (ord_reverse c) (ord_reverse d)"
  by (cases c) simp_all

lemma ord_then_assoc [simp]: "ord_then (ord_then a b) c = ord_then a (ord_then b c)"
  by (cases a) simp_all

section \<open>The contract of Ord\<close>

text \<open>
  \<open>wf\<close> is the set of values the program builds: \<open>Ord\<close> has to be a total preorder
  there, and the equivalence \<open>cmp x y = Equal\<close> is the type's \<open>PartialEq\<close>.
\<close>

locale total_cmp =
  fixes wf :: "'a \<Rightarrow> bool" and cmp :: "'a \<Rightarrow> 'a \<Rightarrow> ordering"
  assumes refl: "wf x \<Longrightarrow> cmp x x = Equal"
    and flip: "wf x \<Longrightarrow> wf y \<Longrightarrow> cmp y x = ord_reverse (cmp x y)"
    and trans: "wf x \<Longrightarrow> wf y \<Longrightarrow> wf z \<Longrightarrow>
      cmp x y \<noteq> Greater \<Longrightarrow> cmp y z \<noteq> Greater \<Longrightarrow> cmp x z \<noteq> Greater"
begin

lemma sym_Equal: "wf x \<Longrightarrow> wf y \<Longrightarrow> cmp x y = Equal \<Longrightarrow> cmp y x = Equal"
  by (simp add: flip [of x y])

lemma flip_Less: "wf x \<Longrightarrow> wf y \<Longrightarrow> cmp x y = Less \<longleftrightarrow> cmp y x = Greater"
  by (simp add: flip [of x y])

lemma not_Greater: "wf x \<Longrightarrow> wf y \<Longrightarrow> cmp x y \<noteq> Greater \<longleftrightarrow> cmp y x \<noteq> Less"
  by (simp add: flip [of x y])

lemma Equal_iff: "wf x \<Longrightarrow> wf y \<Longrightarrow>
    cmp x y = Equal \<longleftrightarrow> cmp x y \<noteq> Greater \<and> cmp y x \<noteq> Greater"
  by (cases "cmp x y") (simp_all add: flip [of x y])

text \<open>Composition along a middle element: the first strict step decides.\<close>

lemma compose:
  assumes wf: "wf x" "wf y" "wf z"
    and xy: "cmp x y = a" and yz: "cmp y z = b"
    and ab: "a = b \<or> a = Equal \<or> b = Equal"
  shows "cmp x z = ord_then a b"
proof -
  have zx: "cmp z x = ord_reverse (cmp x z)" using wf by (simp add: flip [of x z])
  have yx: "cmp y x = ord_reverse a" using wf xy by (simp add: flip [of x y])
  have zy: "cmp z y = ord_reverse b" using wf yz by (simp add: flip [of y z])
  have t1: "a \<noteq> Greater \<Longrightarrow> b \<noteq> Greater \<Longrightarrow> cmp x z \<noteq> Greater"
    using trans [of x y z] wf xy yz by simp
  have t2: "b \<noteq> Less \<Longrightarrow> a \<noteq> Less \<Longrightarrow> cmp x z \<noteq> Less"
    using trans [of z y x] wf yx zy zx by simp
  have t3: "cmp x z \<noteq> Less \<Longrightarrow> a \<noteq> Greater \<Longrightarrow> b \<noteq> Less"
    using trans [of z x y] wf xy zx zy by simp
  have t4: "b \<noteq> Greater \<Longrightarrow> cmp x z \<noteq> Less \<Longrightarrow> a \<noteq> Less"
    using trans [of y z x] wf yz zx yx by simp
  have t5: "a \<noteq> Less \<Longrightarrow> cmp x z \<noteq> Greater \<Longrightarrow> b \<noteq> Greater"
    using trans [of y x z] wf yx yz by simp
  have t6: "cmp x z \<noteq> Greater \<Longrightarrow> b \<noteq> Less \<Longrightarrow> a \<noteq> Greater"
    using trans [of x z y] wf zy xy by simp
  show ?thesis
    using ab t1 t2 t3 t4 t5 t6 by (cases a; cases b; cases "cmp x z") simp_all
qed

lemma trans_Equal: "wf x \<Longrightarrow> wf y \<Longrightarrow> wf z \<Longrightarrow>
    cmp x y = Equal \<Longrightarrow> cmp y z = Equal \<Longrightarrow> cmp x z = Equal"
  using compose [of x y z Equal Equal] by simp

lemma trans_Less: "wf x \<Longrightarrow> wf y \<Longrightarrow> wf z \<Longrightarrow>
    cmp x y = Less \<Longrightarrow> cmp y z = Less \<Longrightarrow> cmp x z = Less"
  using compose [of x y z Less Less] by simp

lemma cong_left: "wf x \<Longrightarrow> wf x' \<Longrightarrow> wf y \<Longrightarrow> cmp x x' = Equal \<Longrightarrow> cmp x y = cmp x' y"
  using compose [of x x' y Equal "cmp x' y"] by simp

lemma cong_right: "wf y \<Longrightarrow> wf y' \<Longrightarrow> wf x \<Longrightarrow> cmp y y' = Equal \<Longrightarrow> cmp x y = cmp x y'"
  using compose [of x y y' "cmp x y" Equal] by simp

end

text \<open>Closure of the contract under the ways an \<open>Ord\<close> is put together.\<close>

lemma total_cmp_key:
  assumes "total_cmp P c" and "\<And>x. Q x \<Longrightarrow> P (f x)"
  shows "total_cmp Q (\<lambda>x y. c (f x) (f y))"
proof
  fix x assume "Q x"
  then show "c (f x) (f x) = Equal"
    by (intro total_cmp.refl [OF assms(1)] assms(2))
next
  fix x y assume "Q x" "Q y"
  then show "c (f y) (f x) = ord_reverse (c (f x) (f y))"
    by (intro total_cmp.flip [OF assms(1)] assms(2))
next
  fix x y z assume "Q x" "Q y" "Q z" "c (f x) (f y) \<noteq> Greater" "c (f y) (f z) \<noteq> Greater"
  then show "c (f x) (f z) \<noteq> Greater"
    using total_cmp.trans [OF assms(1), of "f x" "f y" "f z"] assms(2) by simp
qed

lemma total_cmp_mono: "total_cmp P c \<Longrightarrow> (\<And>x. Q x \<Longrightarrow> P x) \<Longrightarrow> total_cmp Q c"
  using total_cmp_key [of P c Q "\<lambda>x. x"] by simp

lemma total_cmp_then:
  assumes c: "total_cmp P c" and d: "total_cmp P d"
  shows "total_cmp P (\<lambda>x y. ord_then (c x y) (d x y))"
proof
  fix x assume "P x"
  then show "ord_then (c x x) (d x x) = Equal"
    using total_cmp.refl [OF c] total_cmp.refl [OF d] by simp
next
  fix x y assume "P x" "P y"
  then show "ord_then (c y x) (d y x) = ord_reverse (ord_then (c x y) (d x y))"
    using total_cmp.flip [OF c, of x y] total_cmp.flip [OF d, of x y] by simp
next
  fix x y z
  assume P: "P x" "P y" "P z"
    and xy: "ord_then (c x y) (d x y) \<noteq> Greater" and yz: "ord_then (c y z) (d y z) \<noteq> Greater"
  have cxz: "c x z = ord_then (c x y) (c y z)" if "c x y = c y z \<or> c x y = Equal \<or> c y z = Equal"
    using total_cmp.compose [OF c P refl refl that] .
  have dxz: "d x z \<noteq> Greater" if "d x y \<noteq> Greater" "d y z \<noteq> Greater"
    using total_cmp.trans [OF d P that] .
  show "ord_then (c x z) (d x z) \<noteq> Greater"
    using xy yz cxz dxz by (cases "c x y"; cases "c y z") auto
qed

section \<open>Comparisons of the standard library\<close>

definition cmp_by :: "('a \<Rightarrow> 'k::linorder) \<Rightarrow> 'a \<Rightarrow> 'a \<Rightarrow> ordering" where
  "cmp_by f x y = (if f x < f y then Less else if f x = f y then Equal else Greater)"

abbreviation cmp_lin :: "'k::linorder \<Rightarrow> 'k \<Rightarrow> ordering" where
  "cmp_lin \<equiv> cmp_by (\<lambda>x. x)"

lemma cmp_by_eq [simp]:
  "cmp_by f x y = Equal \<longleftrightarrow> f x = f y"
  "cmp_by f x y = Less \<longleftrightarrow> f x < f y"
  "cmp_by f x y = Greater \<longleftrightarrow> f y < f x"
  by (auto simp: cmp_by_def)

lemma total_cmp_by [cmp_laws]: "total_cmp P (cmp_by f)"
proof
  fix x y z assume "cmp_by f x y \<noteq> Greater" "cmp_by f y z \<noteq> Greater"
  then show "cmp_by f x z \<noteq> Greater"
    using order_trans [of "f x" "f y" "f z"] by (simp add: not_less)
qed (auto simp: cmp_by_def)

fun cmp_option :: "('a \<Rightarrow> 'a \<Rightarrow> ordering) \<Rightarrow> 'a option \<Rightarrow> 'a option \<Rightarrow> ordering" where
  "cmp_option c None None = Equal"
| "cmp_option c None (Some y) = Less"
| "cmp_option c (Some x) None = Greater"
| "cmp_option c (Some x) (Some y) = c x y"

lemma total_cmp_option [cmp_laws]:
  assumes "total_cmp P c"
  shows "total_cmp (\<lambda>x. \<forall>a \<in> set_option x. P a) (cmp_option c)"
proof
  fix x assume "\<forall>a \<in> set_option x. P a"
  then show "cmp_option c x x = Equal"
    using total_cmp.refl [OF assms] by (cases x) simp_all
next
  fix x y assume "\<forall>a \<in> set_option x. P a" "\<forall>a \<in> set_option y. P a"
  then show "cmp_option c y x = ord_reverse (cmp_option c x y)"
    using total_cmp.flip [OF assms, of "the x" "the y"] by (cases x; cases y) simp_all
next
  fix x y z
  assume "\<forall>a \<in> set_option x. P a" "\<forall>a \<in> set_option y. P a" "\<forall>a \<in> set_option z. P a"
    and "cmp_option c x y \<noteq> Greater" "cmp_option c y z \<noteq> Greater"
  then show "cmp_option c x z \<noteq> Greater"
    using total_cmp.trans [OF assms, of "the x" "the y" "the z"]
    by (cases x; cases y; cases z) simp_all
qed

text \<open>\<open>Iterator::cmp\<close> and the \<open>zip_longest\<close> loops whose leftovers decide
  \<open>Greater\<close> on the left and \<open>Less\<close> on the right.\<close>

fun cmp_list :: "('a \<Rightarrow> 'a \<Rightarrow> ordering) \<Rightarrow> 'a list \<Rightarrow> 'a list \<Rightarrow> ordering" where
  "cmp_list c [] [] = Equal"
| "cmp_list c [] (y # ys) = Less"
| "cmp_list c (x # xs) [] = Greater"
| "cmp_list c (x # xs) (y # ys) = ord_then (c x y) (cmp_list c xs ys)"

lemma cmp_list_trans:
  "total_cmp P c \<Longrightarrow> list_all P xs \<Longrightarrow> list_all P ys \<Longrightarrow> list_all P zs \<Longrightarrow>
    cmp_list c xs ys \<noteq> Greater \<Longrightarrow> cmp_list c ys zs \<noteq> Greater \<Longrightarrow> cmp_list c xs zs \<noteq> Greater"
proof (induction c xs ys arbitrary: zs rule: cmp_list.induct)
  case (4 c x xs y ys)
  show ?case
  proof (cases zs)
    case Nil
    with 4 show ?thesis by simp
  next
    case (Cons z zs')
    have P: "P x" "P y" "P z" using 4 Cons by simp_all
    have cxz: "c x z = ord_then (c x y) (c y z)"
      if "c x y = c y z \<or> c x y = Equal \<or> c y z = Equal"
      using total_cmp.compose [OF \<open>total_cmp P c\<close> P refl refl that] .
    have rest: "cmp_list c xs zs' \<noteq> Greater"
      if "cmp_list c xs ys \<noteq> Greater" "cmp_list c ys zs' \<noteq> Greater"
      using "4.IH" [OF "4.prems"(1) _ _ _ that] "4.prems"(2-4) Cons by simp
    have xy: "ord_then (c x y) (cmp_list c xs ys) \<noteq> Greater"
      and yz: "ord_then (c y z) (cmp_list c ys zs') \<noteq> Greater"
      using "4.prems"(5,6) Cons by simp_all
    have "ord_then (c x z) (cmp_list c xs zs') \<noteq> Greater"
      using xy yz cxz rest by (cases "c x y"; cases "c y z") simp_all
    then show ?thesis using Cons by simp
  qed
next
  case (2 c y ys)
  then show ?case by (cases zs) auto
next
  case (1 c)
  then show ?case by (cases zs) auto
qed simp

lemma total_cmp_list [cmp_laws]:
  assumes c: "total_cmp P c"
  shows "total_cmp (list_all P) (cmp_list c)"
proof
  fix xs assume "list_all P xs"
  then show "cmp_list c xs xs = Equal"
    by (induction xs) (simp_all add: total_cmp.refl [OF c])
next
  fix xs ys assume "list_all P xs" "list_all P ys"
  with c show "cmp_list c ys xs = ord_reverse (cmp_list c xs ys)"
  proof (induction c xs ys rule: cmp_list.induct)
    case (4 c x xs y ys)
    then show ?case using total_cmp.flip [OF \<open>total_cmp P c\<close>, of x y] by simp
  qed simp_all
next
  fix xs ys zs
  assume "list_all P xs" "list_all P ys" "list_all P zs"
    "cmp_list c xs ys \<noteq> Greater" "cmp_list c ys zs \<noteq> Greater"
  then show "cmp_list c xs zs \<noteq> Greater"
    using cmp_list_trans [OF c] by blast
qed

lemma cmp_list_eq_iff:
  assumes "\<And>x y. c x y = Equal \<longleftrightarrow> x = y"
  shows "cmp_list c xs ys = Equal \<longleftrightarrow> xs = ys"
  using assms by (induction c xs ys rule: cmp_list.induct) simp_all

lemma cmp_list_eq_list_all2: "cmp_list c xs ys = Equal \<longleftrightarrow> list_all2 (\<lambda>x y. c x y = Equal) xs ys"
  by (induction c xs ys rule: cmp_list.induct) simp_all

text \<open>\<open>str::cmp\<close>: bytewise lexicographic.\<close>

definition cmp_char :: "char \<Rightarrow> char \<Rightarrow> ordering" where
  "cmp_char = cmp_by (of_char :: char \<Rightarrow> nat)"

definition cmp_str :: "string \<Rightarrow> string \<Rightarrow> ordering" where
  "cmp_str = cmp_list cmp_char"

lemma cmp_char_eq [simp]: "cmp_char a b = Equal \<longleftrightarrow> a = b"
  by (simp add: cmp_char_def)

lemma total_cmp_char [cmp_laws]: "total_cmp P cmp_char"
  unfolding cmp_char_def by (rule total_cmp_by)

lemma cmp_str_eq [simp]: "cmp_str s t = Equal \<longleftrightarrow> s = t"
  unfolding cmp_str_def by (rule cmp_list_eq_iff) simp

lemma cmp_str_refl [simp]: "cmp_str s s = Equal"
  by simp

lemma total_cmp_str [cmp_laws]: "total_cmp P cmp_str"
  unfolding cmp_str_def
  by (rule total_cmp_mono [OF total_cmp_list [OF total_cmp_char [of "\<lambda>_. True"]]])
    (simp add: list_all_iff)

definition cmp_bool :: "bool \<Rightarrow> bool \<Rightarrow> ordering" where
  "cmp_bool = cmp_lin"

lemma cmp_bool_eq [simp]: "cmp_bool a b = Equal \<longleftrightarrow> a = b"
  by (simp add: cmp_bool_def)

lemma total_cmp_bool [cmp_laws]: "total_cmp P cmp_bool"
  unfolding cmp_bool_def by (rule total_cmp_by)

lemma cmp_option_eq_iff:
  assumes "\<And>x y. c x y = Equal \<longleftrightarrow> x = y"
  shows "cmp_option c x y = Equal \<longleftrightarrow> x = y"
  using assms by (cases x; cases y) simp_all

text \<open>The contract holds on every value: used for the derived \<open>Ord\<close> of plain enums.\<close>

interpretation char_ord: total_cmp "\<lambda>_. True" cmp_char by (rule total_cmp_char)

interpretation str_ord: total_cmp "\<lambda>_. True" cmp_str by (rule total_cmp_str)

section \<open>Strings\<close>

text \<open>\<open>str::starts_with\<close> with a string is \<open>prefix\<close> of the library; the others are
  transcribed from their documentation.\<close>

definition starts_with :: "string \<Rightarrow> string \<Rightarrow> bool" where
  "starts_with s p \<longleftrightarrow> take (length p) s = p"

definition ends_with :: "string \<Rightarrow> string \<Rightarrow> bool" where
  "ends_with s p \<longleftrightarrow> starts_with (rev s) (rev p)"

fun str_contains :: "string \<Rightarrow> string \<Rightarrow> bool" where
  "str_contains [] p = (p = [])"
| "str_contains (c # s) p = (starts_with (c # s) p \<or> str_contains s p)"

text \<open>\<open>trim_start_matches(c)\<close>, \<open>trim_end_matches(c)\<close>.\<close>

definition trim_start_char :: "char \<Rightarrow> string \<Rightarrow> string" where
  "trim_start_char c = dropWhile (\<lambda>x. x = c)"

definition trim_end_char :: "char \<Rightarrow> string \<Rightarrow> string" where
  "trim_end_char c s = rev (dropWhile (\<lambda>x. x = c) (rev s))"

text \<open>\<open>split_once(c)\<close>, \<open>rsplit_once(c)\<close>, \<open>split(c)\<close>.\<close>

fun split_once :: "char \<Rightarrow> string \<Rightarrow> (string \<times> string) option" where
  "split_once c [] = None"
| "split_once c (x # s) =
     (if x = c then Some ([], s)
      else map_option (\<lambda>(a, b). (x # a, b)) (split_once c s))"

definition rsplit_once :: "char \<Rightarrow> string \<Rightarrow> (string \<times> string) option" where
  "rsplit_once c s = map_option (\<lambda>(a, b). (rev b, rev a)) (split_once c (rev s))"

fun split_char :: "char \<Rightarrow> string \<Rightarrow> string list" where
  "split_char c [] = [[]]"
| "split_char c (x # s) =
     (if x = c then [] # split_char c s
      else (case split_char c s of [] \<Rightarrow> [[x]] | p # ps \<Rightarrow> (x # p) # ps))"

text \<open>\<open>Itertools::join\<close>: the strings with a separator between them.\<close>

fun join_with :: "string \<Rightarrow> string list \<Rightarrow> string" where
  "join_with sep [] = []"
| "join_with sep [s] = s"
| "join_with sep (s # t # ss) = s @ sep @ join_with sep (t # ss)"

lemma starts_with_prefix: "starts_with s p \<longleftrightarrow> prefix p s"
  unfolding starts_with_def by (metis append_eq_conv_conj append_take_drop_id prefix_def)

lemma starts_with_refl [simp, intro]: "starts_with s s"
  by (simp add: starts_with_def)

lemma starts_with_Nil [simp]: "starts_with s []"
  by (simp add: starts_with_def)

lemma starts_with_trans: "starts_with s t \<Longrightarrow> starts_with t u \<Longrightarrow> starts_with s u"
  by (auto simp: starts_with_prefix)

lemma starts_with_antisym: "starts_with s t \<Longrightarrow> starts_with t s \<Longrightarrow> s = t"
  by (auto simp: starts_with_prefix)

lemma ends_with_suffix: "ends_with s p \<longleftrightarrow> suffix p s"
  by (simp add: ends_with_def starts_with_prefix suffix_to_prefix)

lemma str_contains_sublist: "str_contains s p \<longleftrightarrow> sublist p s"
  by (induction s p rule: str_contains.induct)
    (auto simp: starts_with_prefix sublist_Cons_right)

lemma split_once_None_iff: "split_once c s = None \<longleftrightarrow> c \<notin> set s"
  by (induction c s rule: split_once.induct) auto

lemma split_once_Some: "split_once c s = Some (a, b) \<Longrightarrow> s = a @ c # b \<and> c \<notin> set a"
  by (induction c s arbitrary: a b rule: split_once.induct) (auto split: if_splits)

lemma split_once_append: "c \<notin> set a \<Longrightarrow> split_once c (a @ c # b) = Some (a, b)"
  by (induction a) auto

lemma rsplit_once_Some: "rsplit_once c s = Some (a, b) \<Longrightarrow> s = a @ c # b \<and> c \<notin> set b"
proof -
  assume "rsplit_once c s = Some (a, b)"
  then obtain u v where uv: "split_once c (rev s) = Some (u, v)" "a = rev v" "b = rev u"
    by (auto simp: rsplit_once_def)
  from split_once_Some [OF uv(1)] have "rev s = u @ c # v" "c \<notin> set u" by simp_all
  then have "s = rev v @ c # rev u" by (metis append_Cons append_Nil append_assoc rev.simps(2) rev_append rev_rev_ident)
  with uv \<open>c \<notin> set u\<close> show ?thesis by simp
qed

lemma split_char_not_Nil [simp]: "split_char c s \<noteq> []"
  by (induction c s rule: split_char.induct) (auto split: list.splits)

lemma split_char_append: "c \<notin> set a \<Longrightarrow> split_char c (a @ c # b) = a # split_char c b"
  by (induction a) auto

lemma split_char_no_sep: "c \<notin> set a \<Longrightarrow> split_char c a = [a]"
  by (induction a) auto

lemma join_with_Cons: "join_with sep (s # ss) = s @ (if ss = [] then [] else sep @ join_with sep ss)"
  by (cases ss) simp_all

lemma split_char_join: "ss \<noteq> [] \<Longrightarrow> (\<And>s. s \<in> set ss \<Longrightarrow> c \<notin> set s) \<Longrightarrow>
    split_char c (join_with [c] ss) = ss"
proof (induction ss)
  case (Cons s ss)
  then show ?case
    by (cases "ss = []") (simp_all add: join_with_Cons split_char_append split_char_no_sep)
qed simp

lemma join_with_split_char: "join_with [c] (split_char c s) = s"
  by (induction c s rule: split_char.induct)
    (auto simp: join_with_Cons split: list.splits)

lemma trim_end_char_idem [simp]: "trim_end_char c (trim_end_char c s) = trim_end_char c s"
  by (simp add: trim_end_char_def dropWhile_idem)

section \<open>Character classes\<close>

text \<open>The ranges \<open>'0'..='9'\<close>, \<open>'a'..='z'\<close> and \<open>'A'..='Z'\<close>.\<close>

definition is_digit :: "char \<Rightarrow> bool" where
  "is_digit c \<longleftrightarrow> 48 \<le> (of_char c :: nat) \<and> (of_char c :: nat) \<le> 57"

definition is_lower :: "char \<Rightarrow> bool" where
  "is_lower c \<longleftrightarrow> 97 \<le> (of_char c :: nat) \<and> (of_char c :: nat) \<le> 122"

definition is_upper :: "char \<Rightarrow> bool" where
  "is_upper c \<longleftrightarrow> 65 \<le> (of_char c :: nat) \<and> (of_char c :: nat) \<le> 90"

definition is_alnum :: "char \<Rightarrow> bool" where
  "is_alnum c \<longleftrightarrow> is_lower c \<or> is_upper c \<or> is_digit c"

definition is_blank :: "char \<Rightarrow> bool" where
  "is_blank c \<longleftrightarrow> c \<in> {CHR '' '', CHR 0x0A, CHR 0x09}"

lemmas char_classes = is_digit_def is_lower_def is_upper_def is_alnum_def is_blank_def

section \<open>White space\<close>

text \<open>The white space of ASCII, and \<open>trim_start\<close>, \<open>trim_end\<close> and \<open>trim\<close>. The other characters
  that Unicode counts as white space take several bytes in UTF-8; they are not modelled.\<close>

definition is_whitespace :: "char \<Rightarrow> bool" where
  "is_whitespace c \<longleftrightarrow> (9 \<le> (of_char c :: nat) \<and> (of_char c :: nat) \<le> 13) \<or> (of_char c :: nat) = 32"

definition trim_start :: "string \<Rightarrow> string" where
  "trim_start s = dropWhile is_whitespace s"

definition trim_end :: "string \<Rightarrow> string" where
  "trim_end s = rev (dropWhile is_whitespace (rev s))"

definition trim :: "string \<Rightarrow> string" where
  "trim s = trim_end (trim_start s)"

text \<open>\<open>str::lines\<close>: a carriage return is dropped with the newline after it.\<close>

definition strip_cr :: "string \<Rightarrow> string" where
  "strip_cr l = (if l \<noteq> [] \<and> last l = CHR 0x0D then butlast l else l)"

definition str_lines :: "string \<Rightarrow> string list" where
  "str_lines s = (let ls = split_char (CHR 0x0A) s
     in map strip_cr (butlast ls) @ (if last ls = [] then [] else [last ls]))"

text \<open>\<open>split_whitespace\<close>: the maximal runs of other characters.\<close>

fun split_by :: "(char \<Rightarrow> bool) \<Rightarrow> string \<Rightarrow> string list" where
  "split_by P [] = [[]]"
| "split_by P (c # s) = (if P c then [] # split_by P s
     else (case split_by P s of [] \<Rightarrow> [[c]] | w # ws \<Rightarrow> (c # w) # ws))"

definition split_whitespace :: "string \<Rightarrow> string list" where
  "split_whitespace s = filter (\<lambda>w. w \<noteq> []) (split_by is_whitespace s)"

definition is_word :: "string \<Rightarrow> bool" where
  "is_word w \<longleftrightarrow> w \<noteq> [] \<and> list_all (\<lambda>c. \<not> is_whitespace c) w"

lemma split_by_append: "list_all (\<lambda>c. \<not> P c) w \<Longrightarrow> P c \<Longrightarrow> split_by P (w @ c # s) = w # split_by P s"
  by (induction w) auto

lemma split_by_plain: "list_all (\<lambda>c. \<not> P c) w \<Longrightarrow> split_by P w = [w]"
  by (induction w) auto

lemma split_by_plains: "w \<in> set (split_by P s) \<Longrightarrow> list_all (\<lambda>c. \<not> P c) w"
  by (induction P s arbitrary: w rule: split_by.induct) (auto split: if_splits list.splits)

lemma split_whitespace_words: "list_all is_word (split_whitespace s)"
  by (auto simp: split_whitespace_def is_word_def list_all_iff dest: split_by_plains)

lemma split_whitespace_join:
  "is_whitespace c \<Longrightarrow> list_all is_word ws \<Longrightarrow> split_whitespace (join_with [c] ws) = ws"
proof (induction ws)
  case (Cons w ws)
  then show ?case
    by (auto simp: join_with_Cons split_whitespace_def split_by_append split_by_plain is_word_def)
qed (simp add: split_whitespace_def)

end
