(* ===== verification/Peg.thy ===== *)
theory Peg
  imports Prelude
begin

text \<open>
  The operators of parsing expression grammars, in which \<open>dep/parse.rs\<close>,
  \<open>eapi.rs\<close> and \<open>restrict/parse/dep.rs\<close> write their rules: character classes,
  literals, sequences, ordered choice, options, greedy repetition, separated repetition,
  negative lookahead, slices \<open>$(e)\<close> and fallible actions \<open>{? }\<close>. A rule is a
  function from the rest of the input to its value and what it leaves, \<open>None\<close> where it
  does not match; a repetition never gives back what it has taken. \<open>quiet!\<close> and
  \<open>expected!\<close> only choose error texts; as an alternative of its own, \<open>expected!\<close>
  never matches.

  The lemmas: what a rule leaves is a suffix of its input (\<open>suffix_rest\<close>); and
  \<open>inert p t\<close>, the rule \<open>p\<close> reads the same with \<open>t\<close> put behind its
  input, which lets a round trip of a composite be put together from round trips of its parts.
\<close>

named_theorems peg "unfolding of grammar operators"
named_theorems inert_intros "operators that keep inertness"
named_theorems rest_intros "operators that leave a suffix of their input"

type_synonym 'a parser = "string \<Rightarrow> ('a \<times> string) option"

section \<open>Operators\<close>

definition p_return :: "'a \<Rightarrow> 'a parser" where
  "p_return x s = Some (x, s)"

definition p_fail :: "'a parser" where
  "p_fail s = None"

definition p_class :: "(char \<Rightarrow> bool) \<Rightarrow> char parser" where
  "p_class C s = (case s of [] \<Rightarrow> None | c # r \<Rightarrow> if C c then Some (c, r) else None)"

definition p_lit :: "string \<Rightarrow> string parser" where
  "p_lit w s = (if starts_with s w then Some (w, drop (length w) s) else None)"

definition p_bind :: "'a parser \<Rightarrow> ('a \<Rightarrow> 'b parser) \<Rightarrow> 'b parser" where
  "p_bind p f s = (case p s of None \<Rightarrow> None | Some (x, r) \<Rightarrow> f x r)"

definition p_map :: "('a \<Rightarrow> 'b) \<Rightarrow> 'a parser \<Rightarrow> 'b parser" where
  "p_map f p = p_bind p (\<lambda>x. p_return (f x))"

definition p_then :: "'a parser \<Rightarrow> 'b parser \<Rightarrow> 'b parser" where
  "p_then p q = p_bind p (\<lambda>_. q)"

definition p_before :: "'a parser \<Rightarrow> 'b parser \<Rightarrow> 'a parser" where
  "p_before p q = p_bind p (\<lambda>x. p_bind q (\<lambda>_. p_return x))"

definition p_alt :: "'a parser \<Rightarrow> 'a parser \<Rightarrow> 'a parser" where
  "p_alt p q s = (case p s of None \<Rightarrow> q s | Some z \<Rightarrow> Some z)"

definition p_opt :: "'a parser \<Rightarrow> 'a option parser" where
  "p_opt p s = (case p s of None \<Rightarrow> Some (None, s) | Some (x, r) \<Rightarrow> Some (Some x, r))"

definition p_not :: "'a parser \<Rightarrow> unit parser" where
  "p_not p s = (case p s of None \<Rightarrow> Some ((), s) | Some _ \<Rightarrow> None)"

text \<open>A fallible action: the alternative fails where the action returns an error.\<close>

definition p_try :: "'a parser \<Rightarrow> ('a \<Rightarrow> 'b option) \<Rightarrow> 'b parser" where
  "p_try p f s = (case p s of None \<Rightarrow> None
     | Some (x, r) \<Rightarrow> (case f x of None \<Rightarrow> None | Some y \<Rightarrow> Some (y, r)))"

definition p_slice :: "'a parser \<Rightarrow> string parser" where
  "p_slice p s = (case p s of None \<Rightarrow> None
     | Some (x, r) \<Rightarrow> Some (take (length s - length r) s, r))"

text \<open>\<open>e*\<close>. Every repeated rule of the sources takes at least one character when it
  matches; an iteration that took none would not end, and stops here.\<close>

function p_star :: "'a parser \<Rightarrow> string \<Rightarrow> 'a list \<times> string" where
  "p_star p s = (case p s of None \<Rightarrow> ([], s)
     | Some (x, r) \<Rightarrow>
         if length r < length s then (let (xs, r') = p_star p r in (x # xs, r')) else ([], s))"
  by pat_completeness auto
termination
  by (relation "measure (\<lambda>(p, s). length s)") auto

declare p_star.simps [simp del]

definition p_many :: "'a parser \<Rightarrow> 'a list parser" where
  "p_many p s = Some (p_star p s)"

text \<open>\<open>e+\<close>, \<open>e ++ sep\<close> and \<open>e ** sep\<close>: a separator that no element follows
  is given back.\<close>

definition p_plus :: "'a parser \<Rightarrow> 'a list parser" where
  "p_plus p = p_bind p (\<lambda>x. p_bind (p_many p) (\<lambda>xs. p_return (x # xs)))"

definition p_sep1 :: "'a parser \<Rightarrow> 'b parser \<Rightarrow> 'a list parser" where
  "p_sep1 p sep = p_bind p (\<lambda>x. p_bind (p_many (p_then sep p)) (\<lambda>xs. p_return (x # xs)))"

definition p_sep0 :: "'a parser \<Rightarrow> 'b parser \<Rightarrow> 'a list parser" where
  "p_sep0 p sep = p_alt (p_sep1 p sep) (p_return [])"

text \<open>The function a public rule becomes: the rule has to take the whole input.\<close>

definition p_run :: "'a parser \<Rightarrow> string \<Rightarrow> 'a option" where
  "p_run p s = (case p s of Some (x, []) \<Rightarrow> Some x | _ \<Rightarrow> None)"

lemmas peg_defs [peg] = p_return_def p_fail_def p_class_def p_lit_def p_bind_def p_map_def
  p_then_def p_before_def p_alt_def p_opt_def p_not_def p_try_def p_slice_def p_many_def p_plus_def
  p_sep1_def p_sep0_def p_run_def

lemma p_run_Some [simp]: "p_run p s = Some x \<longleftrightarrow> p s = Some (x, [])"
  by (auto simp: p_run_def split: option.splits list.splits)

lemma p_run_Some_rev: "p s = Some (x, []) \<Longrightarrow> p_run p s = Some x"
  by simp

section \<open>What a rule leaves\<close>

definition suffix_rest :: "'a parser \<Rightarrow> bool" where
  "suffix_rest p \<longleftrightarrow> (\<forall>s x r. p s = Some (x, r) \<longrightarrow> suffix r s)"

definition progress :: "'a parser \<Rightarrow> bool" where
  "progress p \<longleftrightarrow> (\<forall>s x r. p s = Some (x, r) \<longrightarrow> strict_suffix r s)"

lemma suffix_restD: "suffix_rest p \<Longrightarrow> p s = Some (x, r) \<Longrightarrow> suffix r s"
  by (auto simp: suffix_rest_def)

lemma progressD: "progress p \<Longrightarrow> p s = Some (x, r) \<Longrightarrow> strict_suffix r s"
  by (auto simp: progress_def)

lemma progress_suffix_rest [rest_intros]: "progress p \<Longrightarrow> suffix_rest p"
  by (auto simp: progress_def suffix_rest_def strict_suffix_def)

lemma rest_return [rest_intros]: "suffix_rest (p_return x)"
  by (auto simp: suffix_rest_def p_return_def)

lemma rest_fail [rest_intros]: "progress p_fail"
  by (simp add: progress_def p_fail_def)

lemma rest_class [rest_intros]: "progress (p_class C)"
  by (auto simp: progress_def p_class_def strict_suffix_def suffix_def split: list.splits if_splits)

lemma rest_lit [rest_intros]: "suffix_rest (p_lit w)"
  by (auto simp: suffix_rest_def p_lit_def suffix_drop)

lemma progress_lit [rest_intros]:
  assumes "w \<noteq> []"
  shows "progress (p_lit w)"
proof -
  have "strict_suffix (drop (length w) s) s" if "starts_with s w" for s
  proof -
    from that have "s \<noteq> []" using assms by (auto simp: starts_with_def)
    then have "length (drop (length w) s) < length s" using assms by simp
    moreover have "suffix (drop (length w) s) s" by (rule suffix_drop)
    ultimately show ?thesis by (metis less_irrefl strict_suffix_def)
  qed
  then show ?thesis by (auto simp: progress_def p_lit_def)
qed

lemma rest_bind [rest_intros]:
  assumes "suffix_rest p" and "\<And>x. suffix_rest (f x)"
  shows "suffix_rest (p_bind p f)"
  unfolding suffix_rest_def
proof (intro allI impI)
  fix s y r assume "p_bind p f s = Some (y, r)"
  then obtain x r' where "p s = Some (x, r')" "f x r' = Some (y, r)"
    by (auto simp: p_bind_def split: option.splits)
  then show "suffix r s"
    using suffix_restD [OF assms(1)] suffix_restD [OF assms(2)] suffix_order.trans by blast
qed

lemma progress_bind1 [rest_intros]:
  assumes "progress p" and "\<And>x. suffix_rest (f x)"
  shows "progress (p_bind p f)"
  unfolding progress_def
proof (intro allI impI)
  fix s y r assume "p_bind p f s = Some (y, r)"
  then obtain x r' where "p s = Some (x, r')" "f x r' = Some (y, r)"
    by (auto simp: p_bind_def split: option.splits)
  then show "strict_suffix r s"
    using progressD [OF assms(1)] suffix_restD [OF assms(2)] suffix_order.le_less_trans
    by (metis strict_suffix_def)
qed

lemma progress_bind2 [rest_intros]:
  assumes "suffix_rest p" and "\<And>x. progress (f x)"
  shows "progress (p_bind p f)"
  unfolding progress_def
proof (intro allI impI)
  fix s y r assume "p_bind p f s = Some (y, r)"
  then obtain x r' where "p s = Some (x, r')" "f x r' = Some (y, r)"
    by (auto simp: p_bind_def split: option.splits)
  then show "strict_suffix r s"
    using suffix_restD [OF assms(1)] progressD [OF assms(2)] suffix_order.less_le_trans
    by (metis strict_suffix_def)
qed

lemma rest_map [rest_intros]: "suffix_rest p \<Longrightarrow> suffix_rest (p_map f p)"
  unfolding p_map_def by (intro rest_bind rest_return)

lemma progress_map [rest_intros]: "progress p \<Longrightarrow> progress (p_map f p)"
  unfolding p_map_def by (intro progress_bind1 rest_return)

lemma rest_then [rest_intros]: "suffix_rest p \<Longrightarrow> suffix_rest q \<Longrightarrow> suffix_rest (p_then p q)"
  unfolding p_then_def by (intro rest_bind)

lemma progress_then1 [rest_intros]: "progress p \<Longrightarrow> suffix_rest q \<Longrightarrow> progress (p_then p q)"
  unfolding p_then_def by (intro progress_bind1)

lemma progress_then2 [rest_intros]: "suffix_rest p \<Longrightarrow> progress q \<Longrightarrow> progress (p_then p q)"
  unfolding p_then_def by (intro progress_bind2)

lemma progress_before [rest_intros]: "progress p \<Longrightarrow> suffix_rest q \<Longrightarrow> progress (p_before p q)"
  unfolding p_before_def by (intro progress_bind1 rest_bind rest_return)

lemma rest_before [rest_intros]: "suffix_rest p \<Longrightarrow> suffix_rest q \<Longrightarrow> suffix_rest (p_before p q)"
  unfolding p_before_def by (intro rest_bind rest_return)

lemma rest_alt [rest_intros]: "suffix_rest p \<Longrightarrow> suffix_rest q \<Longrightarrow> suffix_rest (p_alt p q)"
  by (auto simp: suffix_rest_def p_alt_def split: option.splits)

lemma progress_alt [rest_intros]: "progress p \<Longrightarrow> progress q \<Longrightarrow> progress (p_alt p q)"
  by (auto simp: progress_def p_alt_def split: option.splits)

lemma rest_opt [rest_intros]: "suffix_rest p \<Longrightarrow> suffix_rest (p_opt p)"
  by (auto simp: suffix_rest_def p_opt_def split: option.splits)

lemma rest_not [rest_intros]: "suffix_rest (p_not p)"
  by (auto simp: suffix_rest_def p_not_def split: option.splits)

lemma rest_try [rest_intros]: "suffix_rest p \<Longrightarrow> suffix_rest (p_try p f)"
  by (auto simp: suffix_rest_def p_try_def split: option.splits)

lemma progress_try [rest_intros]: "progress p \<Longrightarrow> progress (p_try p f)"
  by (auto simp: progress_def p_try_def split: option.splits)

lemma rest_slice [rest_intros]: "suffix_rest p \<Longrightarrow> suffix_rest (p_slice p)"
  by (auto simp: suffix_rest_def p_slice_def split: option.splits)

lemma progress_slice [rest_intros]: "progress p \<Longrightarrow> progress (p_slice p)"
  by (auto simp: progress_def p_slice_def split: option.splits)

lemma p_star_suffix: "suffix_rest p \<Longrightarrow> p_star p s = (xs, r) \<Longrightarrow> suffix r s"
proof (induction p s arbitrary: xs r rule: p_star.induct)
  case (1 p s)
  show ?case
  proof (cases "p s")
    case None
    with 1 show ?thesis by (simp add: p_star.simps [of p s])
  next
    case (Some z)
    obtain x r' where z: "z = (x, r')" by (cases z)
    show ?thesis
    proof (cases "length r' < length s")
      case True
      obtain ys r'' where ys: "p_star p r' = (ys, r'')" by (cases "p_star p r'")
      have "suffix r'' r'" using "1.IH" [OF Some z [symmetric] True "1.prems"(1) ys] .
      moreover have "suffix r' s" using suffix_restD [OF "1.prems"(1)] Some z by simp
      moreover have "r = r''" using "1.prems"(2) Some z True ys by (simp add: p_star.simps [of p s])
      ultimately show ?thesis using suffix_order.trans by blast
    next
      case False
      with 1 Some z show ?thesis by (simp add: p_star.simps [of p s])
    qed
  qed
qed

lemma rest_many [rest_intros]: "suffix_rest p \<Longrightarrow> suffix_rest (p_many p)"
  unfolding suffix_rest_def [of "p_many p"] p_many_def by (auto dest: p_star_suffix)

lemma progress_plus [rest_intros]: "progress p \<Longrightarrow> progress (p_plus p)"
  unfolding p_plus_def by (intro progress_bind1 rest_bind rest_many rest_return progress_suffix_rest)

lemma progress_sep1 [rest_intros]: "progress p \<Longrightarrow> suffix_rest q \<Longrightarrow> progress (p_sep1 p q)"
  unfolding p_sep1_def
  by (rule progress_bind1, assumption)
    (intro rest_bind rest_many rest_return rest_then, auto intro: progress_suffix_rest)

lemma rest_sep0 [rest_intros]: "progress p \<Longrightarrow> suffix_rest q \<Longrightarrow> suffix_rest (p_sep0 p q)"
  unfolding p_sep0_def by (intro rest_alt progress_suffix_rest [OF progress_sep1] rest_return)

lemma p_slice_eq:
  assumes "suffix_rest p" and "p (u @ r) = Some (x, r)"
  shows "p_slice p (u @ r) = Some (u, r)"
  using assms(2) by (simp add: p_slice_def)

lemma p_slice_SomeD:
  assumes "suffix_rest p" and "p_slice p s = Some (u, r)"
  shows "s = u @ r \<and> (\<exists>x. p s = Some (x, r))"
proof -
  from assms(2) obtain x where x: "p s = Some (x, r)" and u: "u = take (length s - length r) s"
    by (auto simp: p_slice_def split: option.splits)
  from suffix_restD [OF assms(1) x] obtain v where "s = v @ r" by (auto simp: suffix_def)
  with u x show ?thesis by simp
qed

section \<open>Reading the same in a longer input\<close>

definition inert :: "'a parser \<Rightarrow> string \<Rightarrow> bool" where
  "inert p t \<longleftrightarrow> (\<forall>s. p (s @ t) = map_option (\<lambda>(x, r). (x, r @ t)) (p s))"

lemma inertD: "inert p t \<Longrightarrow> p (s @ t) = map_option (\<lambda>(x, r). (x, r @ t)) (p s)"
  by (simp add: inert_def)

lemma inert_full: "inert p t \<Longrightarrow> p u = Some (x, []) \<Longrightarrow> p (u @ t) = Some (x, t)"
  by (simp add: inertD)

lemma inert_Nil [simp, inert_intros]: "inert p []"
  by (auto simp: inert_def option.map_ident_strong)

lemma inert_return [inert_intros]: "inert (p_return x) t"
  by (simp add: inert_def p_return_def)

lemma inert_fail [inert_intros]: "inert p_fail t"
  by (simp add: inert_def p_fail_def)

lemma inert_class [inert_intros]: "t = [] \<or> \<not> C (hd t) \<Longrightarrow> inert (p_class C) t"
  by (auto simp: inert_def p_class_def split: list.splits)

lemma inert_lit:
  assumes "\<And>v. suffix v w \<Longrightarrow> v \<noteq> [] \<Longrightarrow> \<not> starts_with t v"
  shows "inert (p_lit w) t"
proof -
  have "starts_with (s @ t) w \<longleftrightarrow> starts_with s w" for s
  proof
    assume "starts_with (s @ t) w"
    then have "prefix w s \<or> (\<exists>v. w = s @ v \<and> prefix v t)"
      by (auto simp: starts_with_prefix prefix_append)
    then show "starts_with s w"
    proof
      assume "\<exists>v. w = s @ v \<and> prefix v t"
      then obtain v where v: "w = s @ v" "prefix v t" by blast
      then have "v = []" using assms [of v] by (auto simp: starts_with_prefix suffix_def)
      with v show ?thesis by (simp add: starts_with_def)
    qed (simp add: starts_with_prefix)
  qed (auto simp: starts_with_prefix)
  then show ?thesis
    by (auto simp: inert_def p_lit_def starts_with_prefix prefix_def)
qed

lemma inert_lit_hd [inert_intros]:
  assumes "t = [] \<or> hd t \<notin> set w"
  shows "inert (p_lit w) t"
proof (rule inert_lit)
  fix v assume "suffix v w" "v \<noteq> []"
  then have "hd v \<in> set w" by (metis hd_in_set set_mono_suffix subsetD)
  with assms \<open>v \<noteq> []\<close> show "\<not> starts_with t v"
    by (cases t; cases v) (auto simp: starts_with_def)
qed

lemma inert_bind [inert_intros]:
  "inert p t \<Longrightarrow> (\<And>x. inert (f x) t) \<Longrightarrow> inert (p_bind p f) t"
  by (auto simp: inert_def p_bind_def split: option.splits)

lemma inert_map [inert_intros]: "inert p t \<Longrightarrow> inert (p_map f p) t"
  unfolding p_map_def by (intro inert_bind inert_return)

lemma inert_then [inert_intros]: "inert p t \<Longrightarrow> inert q t \<Longrightarrow> inert (p_then p q) t"
  unfolding p_then_def by (intro inert_bind)

lemma inert_before [inert_intros]: "inert p t \<Longrightarrow> inert q t \<Longrightarrow> inert (p_before p q) t"
  unfolding p_before_def by (intro inert_bind inert_return)

lemma inert_alt [inert_intros]: "inert p t \<Longrightarrow> inert q t \<Longrightarrow> inert (p_alt p q) t"
  by (auto simp: inert_def p_alt_def split: option.splits)

lemma inert_opt [inert_intros]: "inert p t \<Longrightarrow> inert (p_opt p) t"
  by (auto simp: inert_def p_opt_def split: option.splits)

lemma inert_not [inert_intros]: "inert p t \<Longrightarrow> inert (p_not p) t"
  by (auto simp: inert_def p_not_def split: option.splits)

lemma inert_try [inert_intros]: "inert p t \<Longrightarrow> inert (p_try p f) t"
  by (auto simp: inert_def p_try_def split: option.splits)

lemma inert_slice [inert_intros]: "inert p t \<Longrightarrow> inert (p_slice p) t"
  by (auto simp: inert_def p_slice_def split: option.splits)

lemma p_star_inert:
  "inert p t \<Longrightarrow> p_star p (s @ t) = (fst (p_star p s), snd (p_star p s) @ t)"
proof (induction p s rule: p_star.induct)
  case (1 p s)
  show ?case
  proof (cases "p s")
    case None
    then have "p (s @ t) = None" using "1.prems" by (simp add: inertD)
    with None show ?thesis by (simp add: p_star.simps [of p s] p_star.simps [of p "s @ t"])
  next
    case (Some z)
    obtain x r where z: "z = (x, r)" by (cases z)
    then have st: "p (s @ t) = Some (x, r @ t)" using Some "1.prems" by (simp add: inertD)
    show ?thesis
    proof (cases "length r < length s")
      case True
      have IH: "p_star p (r @ t) = (fst (p_star p r), snd (p_star p r) @ t)"
        using "1.IH" [OF Some z [symmetric] True "1.prems"] .
      show ?thesis
        using Some z st True IH
        by (simp add: p_star.simps [of p s] p_star.simps [of p "s @ t"] split: prod.splits)
    next
      case False
      then show ?thesis using Some z st
        by (simp add: p_star.simps [of p s] p_star.simps [of p "s @ t"])
    qed
  qed
qed

lemma inert_many [inert_intros]: "inert p t \<Longrightarrow> inert (p_many p) t"
  by (simp add: inert_def [of "p_many p"] p_many_def p_star_inert split_beta)

lemma inert_plus [inert_intros]: "inert p t \<Longrightarrow> inert (p_plus p) t"
  unfolding p_plus_def by (intro inert_bind inert_many inert_return)

lemma inert_sep1 [inert_intros]: "inert p t \<Longrightarrow> inert q t \<Longrightarrow> inert (p_sep1 p q) t"
  unfolding p_sep1_def by (intro inert_bind inert_many inert_return inert_then)

section \<open>Repetition of a class\<close>

lemma p_star_class: "p_star (p_class C) s = (takeWhile C s, dropWhile C s)"
proof (induction s)
  case Nil
  have "p_class C [] = None" by (simp add: p_class_def)
  then show ?case by (simp add: p_star.simps [of "p_class C" "[]"])
next
  case (Cons c s)
  have "p_class C (c # s) = (if C c then Some (c, s) else None)" by (simp add: p_class_def)
  with Cons show ?case by (simp add: p_star.simps [of "p_class C" "c # s"])
qed

lemma p_star_progress_all:
  assumes "p s = Some (x, r)" and "length r < length s" and "p_star p r = (xs, r')"
  shows "p_star p s = (x # xs, r')"
  using assms by (simp add: p_star.simps [of p s])

lemma p_star_stop: "p s = None \<Longrightarrow> p_star p s = ([], s)"
  by (simp add: p_star.simps [of p s])

section \<open>Printing and reading back\<close>

text \<open>\<open>prints p d Q\<close>: what the rule \<open>p\<close> reads is the printed form \<open>d\<close> of its
  value, which satisfies \<open>Q\<close>; \<open>reads p d Q t\<close>: in front of \<open>t\<close>, the rule reads the
  printed form of every such value back and stops there.\<close>

definition prints :: "'a parser \<Rightarrow> ('a \<Rightarrow> string) \<Rightarrow> ('a \<Rightarrow> bool) \<Rightarrow> bool" where
  "prints p d Q \<longleftrightarrow> (\<forall>s x r. p s = Some (x, r) \<longrightarrow> s = d x @ r \<and> Q x)"

definition reads :: "'a parser \<Rightarrow> ('a \<Rightarrow> string) \<Rightarrow> ('a \<Rightarrow> bool) \<Rightarrow> string \<Rightarrow> bool" where
  "reads p d Q t \<longleftrightarrow> (\<forall>x. Q x \<longrightarrow> p (d x @ t) = Some (x, t))"

lemma printsI: "(\<And>s x r. p s = Some (x, r) \<Longrightarrow> s = d x @ r \<and> Q x) \<Longrightarrow> prints p d Q"
  by (simp add: prints_def)

lemma printsD: "prints p d Q \<Longrightarrow> p s = Some (x, r) \<Longrightarrow> s = d x @ r \<and> Q x"
  by (simp add: prints_def)

lemma readsI: "(\<And>x. Q x \<Longrightarrow> p (d x @ t) = Some (x, t)) \<Longrightarrow> reads p d Q t"
  by (simp add: reads_def)

lemma readsD: "reads p d Q t \<Longrightarrow> Q x \<Longrightarrow> p (d x @ t) = Some (x, t)"
  by (simp add: reads_def)

lemma prints_rest: "prints p d Q \<Longrightarrow> suffix_rest p"
  by (auto simp: prints_def suffix_rest_def suffix_def)

lemma inert_reads: "inert p t \<Longrightarrow> reads p d Q [] \<Longrightarrow> reads p d Q t"
  by (auto simp: reads_def inert_full)

lemma p_star_prints:
  "prints p d Q \<Longrightarrow> p_star p s = (xs, r) \<Longrightarrow> s = concat (map d xs) @ r \<and> list_all Q xs"
proof (induction p s arbitrary: xs r rule: p_star.induct)
  case (1 p s)
  show ?case
  proof (cases "p s")
    case None
    with 1 show ?thesis by (simp add: p_star.simps [of p s])
  next
    case (Some z)
    obtain x r' where z: "z = (x, r')" by (cases z)
    with Some "1.prems" have sx: "s = d x @ r' \<and> Q x" by (auto dest: printsD)
    show ?thesis
    proof (cases "length r' < length s")
      case True
      obtain ys r'' where ys: "p_star p r' = (ys, r'')" by (cases "p_star p r'")
      have "r' = concat (map d ys) @ r'' \<and> list_all Q ys"
        using "1.IH" [OF Some z [symmetric] True "1.prems"(1) ys] .
      moreover have "xs = x # ys" "r = r''"
        using "1.prems"(2) Some z True ys by (simp_all add: p_star.simps [of p s])
      ultimately show ?thesis using sx by simp
    next
      case False
      with 1 Some z show ?thesis by (simp add: p_star.simps [of p s])
    qed
  qed
qed

lemma concat_sep_join: "xs \<noteq> [] \<Longrightarrow> d (hd xs) @ concat (map (\<lambda>x. sep @ d x) (tl xs)) = join_with sep (map d xs)"
proof (induction xs rule: induct_list012)
  case (3 x y ys)
  then show ?case by simp
qed simp_all

lemma p_lit_Some: "p_lit w s = Some (x, r) \<longleftrightarrow> x = w \<and> s = w @ r"
  by (auto simp: p_lit_def starts_with_prefix prefix_def)

lemma p_lit_append [simp]: "p_lit w (w @ r) = Some (w, r)"
  by (simp add: p_lit_Some)

lemma p_lit_Cons: "p_lit [c] (x # s) = (if x = c then Some ([c], s) else None)"
  by (simp add: p_lit_def starts_with_def)

lemma p_lit_hd: "w \<noteq> [] \<Longrightarrow> s = [] \<or> hd s \<noteq> hd w \<Longrightarrow> p_lit w s = None"
  by (cases w; cases s) (auto simp: p_lit_def starts_with_def)

lemma p_sep1_prints:
  assumes "prints p d Q" and "p_sep1 p (p_lit sep) s = Some (xs, r)"
  shows "s = join_with sep (map d xs) @ r \<and> xs \<noteq> [] \<and> list_all Q xs"
proof -
  have "prints (p_then (p_lit sep) p) (\<lambda>x. sep @ d x) Q"
    using assms(1) by (auto simp: prints_def p_then_def p_bind_def p_lit_Some split: option.splits)
  note star = p_star_prints [OF this]
  from assms(2) obtain x r' ys where x: "p s = Some (x, r')" and ys: "p_star (p_then (p_lit sep) p) r' = (ys, r)"
    and xs: "xs = x # ys"
    by (auto simp: p_sep1_def p_bind_def p_return_def p_many_def split: option.splits prod.splits)
  show ?thesis
    using printsD [OF assms(1) x] star [OF ys] xs concat_sep_join [of xs d sep] by simp
qed

text \<open>A repetition reads the concatenation of printed values if each can be read in front of
  what may follow it.\<close>

lemma p_star_reads:
  assumes step: "\<And>x t. Q x \<Longrightarrow> ok t \<Longrightarrow> p (d x @ t) = Some (x, t)"
    and ok: "\<And>x t. Q x \<Longrightarrow> ok (d x @ t)" and ne: "\<And>x. Q x \<Longrightarrow> d x \<noteq> []"
    and t: "ok t" "p t = None"
  shows "list_all Q xs \<Longrightarrow> p_star p (concat (map d xs) @ t) = (xs, t)"
proof (induction xs)
  case Nil
  then show ?case using t by (simp add: p_star_stop)
next
  case (Cons x xs)
  have "ok (concat (map d xs) @ t)"
    using Cons.prems ok t by (cases xs) auto
  then have "p (d x @ concat (map d xs) @ t) = Some (x, concat (map d xs) @ t)"
    using step Cons.prems by simp
  then show ?case
    using Cons ne [of x] by (simp add: p_star_progress_all)
qed

lemma p_sep1_reads:
  assumes step: "\<And>x t. Q x \<Longrightarrow> ok t \<Longrightarrow> p (d x @ t) = Some (x, t)"
    and ok: "\<And>t. ok (sep @ t)" and sep: "sep \<noteq> []"
    and t: "ok t" "p_then (p_lit sep) p t = None"
    and xs: "xs \<noteq> []" "list_all Q xs"
  shows "p_sep1 p (p_lit sep) (join_with sep (map d xs) @ t) = Some (xs, t)"
proof -
  let ?q = "p_then (p_lit sep) p"
  have step': "?q ((sep @ d x) @ t) = Some (x, t)" if "Q x" "ok t" for x t
    using step that by (simp add: p_then_def p_bind_def)
  have star: "p_star ?q (concat (map (\<lambda>x. sep @ d x) ys) @ t) = (ys, t)" if "list_all Q ys" for ys
    by (rule p_star_reads [where Q = Q and ok = ok, OF step']) (use ok sep t that in simp_all)
  obtain y ys where y: "xs = y # ys" using xs by (cases xs) auto
  have "ok (concat (map (\<lambda>x. sep @ d x) ys) @ t)"
    using ok t by (cases ys) auto
  then have "p (d y @ concat (map (\<lambda>x. sep @ d x) ys) @ t) =
      Some (y, concat (map (\<lambda>x. sep @ d x) ys) @ t)"
    using step xs y by simp
  then show ?thesis
    using star [of ys] xs y concat_sep_join [of xs d sep, symmetric]
    by (simp add: p_sep1_def p_bind_def p_return_def p_many_def)
qed

text \<open>A slice of one character and more of a class: names, flags, numbers.\<close>

definition p_name :: "(char \<Rightarrow> bool) \<Rightarrow> (char \<Rightarrow> bool) \<Rightarrow> string parser" where
  "p_name first more = p_slice (p_then (p_class first) (p_many (p_class more)))"

lemma p_name_eq:
  "p_name first more s = (case s of [] \<Rightarrow> None
     | c # r \<Rightarrow> if first c then Some (c # takeWhile more r, dropWhile more r) else None)"
proof (cases s)
  case (Cons c r)
  have "take (length (c # r) - length (dropWhile more r)) (c # r) = c # takeWhile more r"
    by (metis append_Cons append_eq_conv_conj diff_add_inverse2 length_append takeWhile_dropWhile_id)
  with Cons show ?thesis
    by (simp add: p_name_def p_slice_def p_then_def p_bind_def p_class_def [of first] p_many_def p_star_class)
qed (simp add: p_name_def p_slice_def p_then_def p_bind_def p_class_def)

definition is_name :: "(char \<Rightarrow> bool) \<Rightarrow> (char \<Rightarrow> bool) \<Rightarrow> string \<Rightarrow> bool" where
  "is_name first more s \<longleftrightarrow> s \<noteq> [] \<and> first (hd s) \<and> list_all more (tl s)"

lemma p_name_prints: "prints (p_name first more) (\<lambda>s. s) (is_name first more)"
  by (rule printsI) (auto simp: p_name_eq is_name_def list_all_iff split: list.splits if_splits dest: set_takeWhileD)

lemma p_name_reads: "t = [] \<or> \<not> more (hd t) \<Longrightarrow> reads (p_name first more) (\<lambda>s. s) (is_name first more) t"
proof (rule readsI)
  fix s assume t: "t = [] \<or> \<not> more (hd t)" and "is_name first more s"
  then obtain c u where s: "s = c # u" "first c" "\<forall>x \<in> set u. more x"
    by (cases s) (auto simp: is_name_def list_all_iff)
  then have "takeWhile more (u @ t) = u" "dropWhile more (u @ t) = t"
    using t by (cases t; simp add: takeWhile_append2 dropWhile_append2)+
  with s show "p_name first more (s @ t) = Some (s, t)" by (simp add: p_name_eq)
qed

lemma p_name_full: "p_name first more s = Some (s, []) \<longleftrightarrow> is_name first more s"
  using printsD [OF p_name_prints] readsD [OF p_name_reads [of "[]"]] by fastforce

lemma inert_name [inert_intros]:
  "t = [] \<or> \<not> first (hd t) \<and> \<not> more (hd t) \<Longrightarrow> inert (p_name first more) t"
  unfolding p_name_def by (intro inert_slice inert_then inert_class inert_many) auto

lemma progress_name [rest_intros]: "progress (p_name first more)"
  unfolding p_name_def
  by (intro progress_slice progress_then1 rest_class rest_many progress_suffix_rest)

end
