(* ===== verification/Errors.thy ===== *)
theory Errors
  imports Peg
begin

text \<open>
  The errors of \<open>error.rs\<close> that the modelled operations return. An error holds what was
  wrong and the text it is about; how the two are rendered as one message, and the failing
  position that \<open>peg_error\<close> adds, are not modelled.
\<close>

datatype error =
    PegParse string string
  | InvalidValue string string
  | IOError string string
  | NotARepo string string
  | InvalidRepo string string
  | InvalidFetchable string string

definition peg_result :: "string \<Rightarrow> string \<Rightarrow> 'a option \<Rightarrow> error + 'a" where
  "peg_result msg s res = (case res of Some x \<Rightarrow> Inr x | None \<Rightarrow> Inl (PegParse msg s))"

lemma peg_result_Inr [simp]: "peg_result msg s res = Inr x \<longleftrightarrow> res = Some x"
  by (simp add: peg_result_def split: option.splits)

lemma peg_result_Inl [simp]: "peg_result msg s res = Inl e \<longleftrightarrow> res = None \<and> e = PegParse msg s"
  by (auto simp: peg_result_def split: option.splits)

text \<open>\<open>collect\<close> of an iterator of results: the first error, or all the values.\<close>

fun collect_results :: "('e + 'a) list \<Rightarrow> 'e + 'a list" where
  "collect_results [] = Inr []"
| "collect_results (r # rs) = (case r of
     Inl e \<Rightarrow> Inl e
   | Inr x \<Rightarrow> (case collect_results rs of Inl e \<Rightarrow> Inl e | Inr xs \<Rightarrow> Inr (x # xs)))"

lemma collect_results_map [simp]: "collect_results (map Inr xs) = Inr xs"
  by (induction xs) simp_all

lemma collect_results_Inr: "collect_results rs = Inr xs \<longleftrightarrow> rs = map Inr xs"
  by (induction rs arbitrary: xs) (auto split: sum.splits)

lemma collect_results_Inl: "collect_results rs = Inl e \<longleftrightarrow> (\<exists>xs rs'. rs = map Inr xs @ Inl e # rs')"
proof (induction rs)
  case (Cons r rs)
  show ?case
  proof (cases r)
    case (Inr x)
    have "(\<exists>xs rs'. r # rs = map Inr xs @ Inl e # rs') \<longleftrightarrow> (\<exists>xs rs'. rs = map Inr xs @ Inl e # rs')"
      using Inr by (auto simp: Cons_eq_append_conv Cons_eq_map_conv)
    with Cons Inr show ?thesis by (auto split: sum.splits)
  qed (auto simp: Cons_eq_append_conv Cons_eq_map_conv)
qed simp

end
