(* ===== verification/Version.thy ===== *)
theory Version
  imports Prelude
begin

text \<open>
  Package versions, \<open>crates/pkgcraft/src/dep/version.rs\<close>: numbers that keep their
  spelling, revisions, suffixes, operators, the order (\<open>cmp\<close>), the fed hash
  (\<open>hash_version\<close>), the printed form (\<open>fmt\<close>), globs (\<open>starts_with\<close>)
  and the intersection of operator-qualified versions (\<open>intersects\<close>).

  The order is shown to be a total preorder whose equivalence is the one \<open>Hash\<close>
  respects; the intersection is shown to be reflexive and symmetric, never to
  reach its \<open>unreachable!\<close> arm, and never to miss a common version where no glob meets a
  one-sided range.
\<close>

section \<open>Numbers and revisions\<close>

type_synonym u64 = "64 word"

record number =
  num_raw :: string
  num_value :: u64

definition number_is_empty :: "number \<Rightarrow> bool" where
  "number_is_empty n \<longleftrightarrow> num_raw n = []"

definition number_starts_with :: "number \<Rightarrow> number \<Rightarrow> bool" where
  "number_starts_with n m \<longleftrightarrow> starts_with (num_raw n) (num_raw m)"

text \<open>\<open>PartialEq\<close> and \<open>Ord\<close> of numbers look at the value only.\<close>

definition number_eq :: "number \<Rightarrow> number \<Rightarrow> bool" where
  "number_eq n m \<longleftrightarrow> num_value n = num_value m"

definition number_cmp :: "number \<Rightarrow> number \<Rightarrow> ordering" where
  "number_cmp = cmp_by num_value"

definition number_display :: "number \<Rightarrow> string" where
  "number_display n = num_raw n"

definition number_default :: number where
  "number_default = \<lparr>num_raw = [], num_value = 0\<rparr>"

datatype revision = Revision (rev_number: number)

definition revision_default :: revision where
  "revision_default = Revision number_default"

definition revision_is_empty :: "revision \<Rightarrow> bool" where
  "revision_is_empty r \<longleftrightarrow> number_is_empty (rev_number r)"

definition revision_starts_with :: "revision \<Rightarrow> revision \<Rightarrow> bool" where
  "revision_starts_with r r' \<longleftrightarrow> number_starts_with (rev_number r) (rev_number r')"

definition revision_cmp :: "revision \<Rightarrow> revision \<Rightarrow> ordering" where
  "revision_cmp r r' = number_cmp (rev_number r) (rev_number r')"

definition revision_display :: "revision \<Rightarrow> string" where
  "revision_display r = number_display (rev_number r)"

section \<open>Suffixes and operators\<close>

datatype suffix_kind = Alpha | Beta | Pre | Rc | P

text \<open>The derived \<open>Ord\<close> of an enum compares positions in the declaration.\<close>

fun suffix_kind_index :: "suffix_kind \<Rightarrow> nat" where
  "suffix_kind_index Alpha = 0"
| "suffix_kind_index Beta = 1"
| "suffix_kind_index Pre = 2"
| "suffix_kind_index Rc = 3"
| "suffix_kind_index P = 4"

fun suffix_kind_display :: "suffix_kind \<Rightarrow> string" where
  "suffix_kind_display Alpha = ''alpha''"
| "suffix_kind_display Beta = ''beta''"
| "suffix_kind_display Pre = ''pre''"
| "suffix_kind_display Rc = ''rc''"
| "suffix_kind_display P = ''p''"

lemma suffix_kind_index_inj [simp]: "suffix_kind_index a = suffix_kind_index b \<longleftrightarrow> a = b"
  by (cases a; cases b) simp_all

instantiation suffix_kind :: linorder
begin

definition less_eq_suffix_kind :: "suffix_kind \<Rightarrow> suffix_kind \<Rightarrow> bool" where
  "a \<le> b \<longleftrightarrow> suffix_kind_index a \<le> suffix_kind_index b"

definition less_suffix_kind :: "suffix_kind \<Rightarrow> suffix_kind \<Rightarrow> bool" where
  "a < b \<longleftrightarrow> suffix_kind_index a < suffix_kind_index b"

instance
  by standard (auto simp: less_eq_suffix_kind_def less_suffix_kind_def)

end

record suffix =
  sfx_kind :: suffix_kind
  sfx_version :: "number option"

definition suffix_cmp :: "suffix \<Rightarrow> suffix \<Rightarrow> ordering" where
  "suffix_cmp s t = ord_then (cmp_lin (sfx_kind s) (sfx_kind t))
     (cmp_option number_cmp (sfx_version s) (sfx_version t))"

definition suffix_display :: "suffix \<Rightarrow> string" where
  "suffix_display s = suffix_kind_display (sfx_kind s) @
     (case sfx_version s of None \<Rightarrow> [] | Some ver \<Rightarrow> number_display ver)"

datatype operator =
    OpLess | OpLessOrEqual | OpEqual | OpEqualGlob | OpApproximate | OpGreaterOrEqual | OpGreater

fun operator_index :: "operator \<Rightarrow> nat" where
  "operator_index OpLess = 1"
| "operator_index OpLessOrEqual = 2"
| "operator_index OpEqual = 3"
| "operator_index OpEqualGlob = 4"
| "operator_index OpApproximate = 5"
| "operator_index OpGreaterOrEqual = 6"
| "operator_index OpGreater = 7"

lemma operator_index_inj [simp]: "operator_index a = operator_index b \<longleftrightarrow> a = b"
  by (cases a; cases b) simp_all

instantiation operator :: linorder
begin

definition less_eq_operator :: "operator \<Rightarrow> operator \<Rightarrow> bool" where
  "a \<le> b \<longleftrightarrow> operator_index a \<le> operator_index b"

definition less_operator :: "operator \<Rightarrow> operator \<Rightarrow> bool" where
  "a < b \<longleftrightarrow> operator_index a < operator_index b"

instance
  by standard (auto simp: less_eq_operator_def less_operator_def)

end

fun operator_as_ref :: "operator \<Rightarrow> string" where
  "operator_as_ref OpLess = ''<''"
| "operator_as_ref OpLessOrEqual = ''<=''"
| "operator_as_ref OpEqual = ''=''"
| "operator_as_ref OpEqualGlob = ''=*''"
| "operator_as_ref OpApproximate = ''~''"
| "operator_as_ref OpGreaterOrEqual = ''>=''"
| "operator_as_ref OpGreater = ''>''"

section \<open>Versions\<close>

record version =
  ver_op :: "operator option"
  ver_numbers :: "number list"
  ver_letter :: "char option"
  ver_suffixes :: "suffix list"
  ver_revision :: revision

text \<open>\<open>Version::revision\<close>: an empty one is none.\<close>

definition version_revision :: "version \<Rightarrow> revision option" where
  "version_revision v =
     (if revision_is_empty (ver_revision v) then None else Some (ver_revision v))"

definition version_with_op :: "version \<Rightarrow> operator \<Rightarrow> string + version" where
  "version_with_op v op =
     (if op = OpApproximate \<and> \<not> revision_is_empty (ver_revision v)
      then Inl ''~ version operator can't be used with a revision''
      else Inr (v\<lparr>ver_op := Some op\<rparr>))"

subsection \<open>Printing\<close>

definition version_fmt :: "version \<Rightarrow> bool \<Rightarrow> bool \<Rightarrow> string" where
  "version_fmt v with_rev with_op =
     (let s = join_with ''.'' (map number_display (ver_numbers v));
          s = (case ver_letter v of Some c \<Rightarrow> s @ [c] | None \<Rightarrow> s);
          s = s @ concat (map (\<lambda>suffix. ''_'' @ suffix_display suffix) (ver_suffixes v));
          s = (case version_revision v of
                 Some r \<Rightarrow> if with_rev then s @ ''-r'' @ revision_display r else s
               | None \<Rightarrow> s)
      in if with_op
         then (case ver_op v of
                 None \<Rightarrow> s
               | Some OpLess \<Rightarrow> ''<'' @ s
               | Some OpLessOrEqual \<Rightarrow> ''<='' @ s
               | Some OpEqual \<Rightarrow> ''='' @ s
               | Some OpEqualGlob \<Rightarrow> ''='' @ s @ ''*''
               | Some OpApproximate \<Rightarrow> ''~'' @ s
               | Some OpGreaterOrEqual \<Rightarrow> ''>='' @ s
               | Some OpGreater \<Rightarrow> ''>'' @ s)
         else s)"

definition version_display :: "version \<Rightarrow> string" where
  "version_display v = version_fmt v True True"

definition version_without_op :: "version \<Rightarrow> string" where
  "version_without_op v = version_fmt v True False"

definition version_base :: "version \<Rightarrow> string" where
  "version_base v = version_fmt v False False"

subsection \<open>The order\<close>

text \<open>A component after the first: as strings if either starts with 0, else as integers.\<close>

definition component_cmp :: "number \<Rightarrow> number \<Rightarrow> ordering" where
  "component_cmp n1 n2 =
     (let s1 = num_raw n1; s2 = num_raw n2
      in if starts_with s1 ''0'' \<or> starts_with s2 ''0''
         then cmp_str (trim_end_char (CHR ''0'') s1) (trim_end_char (CHR ''0'') s2)
         else number_cmp n1 n2)"

text \<open>The suffix loop: a leftover \<open>_p\<close> is greater, any other leftover less.\<close>

fun suffixes_cmp :: "suffix list \<Rightarrow> suffix list \<Rightarrow> ordering" where
  "suffixes_cmp [] [] = Equal"
| "suffixes_cmp (s # ss) [] = (if sfx_kind s = P then Greater else Less)"
| "suffixes_cmp [] (s # ss) = (if sfx_kind s = P then Less else Greater)"
| "suffixes_cmp (s # ss) (t # ts) = ord_then (suffix_cmp s t) (suffixes_cmp ss ts)"

text \<open>The function \<open>cmp\<close>. Its first line indexes both component vectors: \<open>None\<close>
  is the panic on an empty one. The component loop is \<open>cmp_list\<close>: a leftover on the left
  is greater, one on the right less.\<close>

definition version_cmp_checked :: "version \<Rightarrow> version \<Rightarrow> bool \<Rightarrow> bool \<Rightarrow> ordering option" where
  "version_cmp_checked v1 v2 with_rev with_op =
     (case (ver_numbers v1, ver_numbers v2) of
        (n1 # ns1, n2 # ns2) \<Rightarrow>
          Some (ord_then (number_cmp n1 n2)
               (ord_then (cmp_list component_cmp ns1 ns2)
               (ord_then (cmp_option cmp_char (ver_letter v1) (ver_letter v2))
               (ord_then (suffixes_cmp (ver_suffixes v1) (ver_suffixes v2))
               (ord_then (if with_rev then revision_cmp (ver_revision v1) (ver_revision v2) else Equal)
                  (if with_op then cmp_option cmp_lin (ver_op v1) (ver_op v2) else Equal))))))
      | _ \<Rightarrow> None)"

text \<open>Every version the parsers build has a first component, so that the panic does not
  happen (\<open>version_cmp_checked_wf\<close>); the callers use the value.\<close>

definition version_cmp :: "version \<Rightarrow> version \<Rightarrow> bool \<Rightarrow> bool \<Rightarrow> ordering" where
  "version_cmp v1 v2 with_rev with_op =
     (case version_cmp_checked v1 v2 with_rev with_op of Some c \<Rightarrow> c | None \<Rightarrow> Equal)"

definition version_ord :: "version \<Rightarrow> version \<Rightarrow> ordering" where
  "version_ord v1 v2 = version_cmp v1 v2 True True"

definition version_eq :: "version \<Rightarrow> version \<Rightarrow> bool" where
  "version_eq v1 v2 \<longleftrightarrow> version_cmp v1 v2 True True = Equal"

definition non_op_cmp :: "version \<Rightarrow> version \<Rightarrow> ordering" where
  "non_op_cmp v1 v2 = version_cmp v1 v2 True False"

definition non_op_eq :: "version \<Rightarrow> version \<Rightarrow> bool" where
  "non_op_eq v1 v2 \<longleftrightarrow> version_cmp v1 v2 True False = Equal"

definition non_revision_eq :: "version \<Rightarrow> version \<Rightarrow> bool" where
  "non_revision_eq v1 v2 \<longleftrightarrow> version_cmp v1 v2 False False = Equal"

subsection \<open>The hash\<close>

text \<open>What \<open>Hash\<close> feeds to the hasher, in order. Derived implementations feed the
  discriminant of an enum or option and the length of a vector.\<close>

datatype hash_token = HU64 u64 | HStr string | HChar char | HDiscr nat | HLen nat

fun hash_option :: "('a \<Rightarrow> hash_token list) \<Rightarrow> 'a option \<Rightarrow> hash_token list" where
  "hash_option h None = [HDiscr 0]"
| "hash_option h (Some x) = HDiscr 1 # h x"

definition hash_number :: "number \<Rightarrow> hash_token list" where
  "hash_number n = [HU64 (num_value n)]"

definition hash_component :: "number \<Rightarrow> hash_token list" where
  "hash_component n =
     (if starts_with (num_raw n) ''0'' then [HStr (trim_end_char (CHR ''0'') (num_raw n))]
      else [HU64 (num_value n)])"

definition hash_suffix :: "suffix \<Rightarrow> hash_token list" where
  "hash_suffix s = HDiscr (suffix_kind_index (sfx_kind s)) # hash_option hash_number (sfx_version s)"

definition hash_version :: "version \<Rightarrow> hash_token list option" where
  "hash_version v =
     (case ver_numbers v of
        [] \<Rightarrow> None
      | n # ns \<Rightarrow> Some (hash_number n @ concat (map hash_component ns)
          @ hash_option (\<lambda>c. [HChar c]) (ver_letter v)
          @ HLen (length (ver_suffixes v)) # concat (map hash_suffix (ver_suffixes v))
          @ hash_number (rev_number (ver_revision v))))"

subsection \<open>Globs\<close>

text \<open>The loops of \<open>Version::starts_with\<close>; \<open>None\<close> is \<open>return false\<close>, and the
  value is the flag \<open>unmatched\<close>, which tells that the left side has more components.\<close>

fun sw_numbers :: "number list \<Rightarrow> number list \<Rightarrow> bool option" where
  "sw_numbers (n # ns) (m # ms) = (if number_starts_with n m then sw_numbers ns ms else None)"
| "sw_numbers (n # ns) [] = Some True"
| "sw_numbers [] (m # ms) = None"
| "sw_numbers [] [] = Some False"

fun sw_letter :: "bool \<Rightarrow> char option \<Rightarrow> char option \<Rightarrow> bool option" where
  "sw_letter unmatched (Some c1) (Some c2) = (if unmatched \<or> c1 \<noteq> c2 then None else Some unmatched)"
| "sw_letter unmatched None (Some c2) = None"
| "sw_letter unmatched (Some c1) None = Some True"
| "sw_letter unmatched None None = Some unmatched"

fun sw_suffix_version :: "bool \<Rightarrow> number option \<Rightarrow> number option \<Rightarrow> bool option" where
  "sw_suffix_version unmatched (Some v1) (Some v2) =
     (if number_starts_with v1 v2 then Some unmatched else None)"
| "sw_suffix_version unmatched None (Some v2) = None"
| "sw_suffix_version unmatched (Some v1) None = Some True"
| "sw_suffix_version unmatched None None = Some unmatched"

fun sw_suffixes :: "bool \<Rightarrow> suffix list \<Rightarrow> suffix list \<Rightarrow> bool option" where
  "sw_suffixes unmatched (s1 # ss) (s2 # ts) =
     (if unmatched \<or> sfx_kind s1 \<noteq> sfx_kind s2 then None
      else (case sw_suffix_version unmatched (sfx_version s1) (sfx_version s2) of
              None \<Rightarrow> None
            | Some unmatched' \<Rightarrow> sw_suffixes unmatched' ss ts))"
| "sw_suffixes unmatched (s1 # ss) [] = Some True"
| "sw_suffixes unmatched [] (s2 # ts) = None"
| "sw_suffixes unmatched [] [] = Some unmatched"

fun sw_revision :: "bool \<Rightarrow> revision option \<Rightarrow> revision option \<Rightarrow> bool" where
  "sw_revision unmatched (Some r1) (Some r2) = (\<not> (unmatched \<or> \<not> revision_starts_with r1 r2))"
| "sw_revision unmatched None (Some r2) = False"
| "sw_revision unmatched r1 None = True"

definition version_starts_with :: "version \<Rightarrow> version \<Rightarrow> bool" where
  "version_starts_with v other =
     (case sw_numbers (ver_numbers v) (ver_numbers other) of None \<Rightarrow> False | Some u1 \<Rightarrow>
     (case sw_letter u1 (ver_letter v) (ver_letter other) of None \<Rightarrow> False | Some u2 \<Rightarrow>
     (case sw_suffixes u2 (ver_suffixes v) (ver_suffixes other) of None \<Rightarrow> False | Some u3 \<Rightarrow>
        sw_revision u3 (version_revision v) (version_revision other))))"

subsection \<open>Intersection\<close>

text \<open>\<open>Operator::intersects\<close>.\<close>

fun op_intersects :: "operator \<Rightarrow> version \<Rightarrow> version \<Rightarrow> bool" where
  "op_intersects OpLess lhs rhs = (non_op_cmp rhs lhs = Less)"
| "op_intersects OpLessOrEqual lhs rhs = (non_op_cmp rhs lhs \<noteq> Greater)"
| "op_intersects OpEqual lhs rhs = non_op_eq rhs lhs"
| "op_intersects OpEqualGlob lhs rhs = version_starts_with rhs lhs"
| "op_intersects OpApproximate lhs rhs = non_revision_eq rhs lhs"
| "op_intersects OpGreaterOrEqual lhs rhs = (non_op_cmp rhs lhs \<noteq> Less)"
| "op_intersects OpGreater lhs rhs = (non_op_cmp rhs lhs = Greater)"

fun is_less_op :: "operator \<Rightarrow> bool" where
  "is_less_op OpLess = True"
| "is_less_op OpLessOrEqual = True"
| "is_less_op _ = False"

fun is_greater_op :: "operator \<Rightarrow> bool" where
  "is_greater_op OpGreater = True"
| "is_greater_op OpGreaterOrEqual = True"
| "is_greater_op _ = False"

text \<open>The macro \<open>unbounded!\<close>.\<close>

definition is_unbounded :: "operator \<Rightarrow> bool" where
  "is_unbounded op \<longleftrightarrow> op \<in> {OpLess, OpLessOrEqual, OpGreater, OpGreaterOrEqual}"

text \<open>The macro \<open>ranged!\<close>; \<open>None\<close> is its \<open>unreachable!\<close>.\<close>

definition ranged :: "version \<Rightarrow> operator \<Rightarrow> version \<Rightarrow> operator \<Rightarrow> bool option" where
  "ranged rng rng_op other other_op =
     (if other_op \<in> {OpApproximate, OpEqualGlob} \<and> op_intersects rng_op rng other then Some True
      else if is_greater_op rng_op \<and> other_op = OpApproximate
        then Some (op_intersects other_op other rng)
      else if other_op = OpApproximate then Some False
      else if is_less_op rng_op \<and> other_op = OpEqualGlob
        then (case map_option revision_display (version_revision other) of
                None \<Rightarrow> Some (version_starts_with rng other)
              | Some r \<Rightarrow> if r = ''0'' then Some (version_starts_with rng other) else Some False)
      else if other_op = OpEqualGlob then Some (version_starts_with rng other)
      else None)"

text \<open>\<open>impl Intersects for Version\<close>, the arms in their order; \<open>None\<close> is a panic.\<close>

definition version_intersects_checked :: "version \<Rightarrow> version \<Rightarrow> bool option" where
  "version_intersects_checked v w =
     (case (ver_op v, ver_op w) of
        (None, None) \<Rightarrow> Some (version_eq v w)
      | (Some a, None) \<Rightarrow> Some (op_intersects a v w)
      | (None, Some b) \<Rightarrow> Some (op_intersects b w v)
      | (Some a, Some b) \<Rightarrow>
          (if is_less_op a \<and> is_less_op b then Some True
           else if is_greater_op a \<and> is_greater_op b then Some True
           else if is_unbounded a \<and> is_unbounded b
             then Some (op_intersects a v w \<and> op_intersects b w v)
           else if a = OpApproximate \<and> b = OpApproximate then Some (version_eq v w)
           else if b = OpEqual then Some (op_intersects a v w)
           else if a = OpEqual then Some (op_intersects b w v)
           else if a = OpEqualGlob \<and> b = OpEqualGlob
             then Some (op_intersects a v w \<or> op_intersects a w v)
           else if a = OpEqualGlob \<and> b = OpApproximate then Some (version_starts_with w v)
           else if a = OpApproximate \<and> b = OpEqualGlob then Some (version_starts_with v w)
           else if is_unbounded a then ranged v a w b
           else ranged w b v a))"

text \<open>The arm \<open>unreachable!\<close> is never reached (\<open>version_intersects_total\<close>); the
  callers use the value.\<close>

definition version_intersects :: "version \<Rightarrow> version \<Rightarrow> bool" where
  "version_intersects v w = (version_intersects_checked v w = Some True)"

section \<open>Well-formed versions\<close>

text \<open>What the parsers build: digits that spell the stored value.\<close>

definition digits_value :: "string \<Rightarrow> int" where
  "digits_value s = foldl (\<lambda>n c. 10 * n + (of_char c - 48)) 0 s"

definition wf_number :: "number \<Rightarrow> bool" where
  "wf_number n \<longleftrightarrow> num_raw n \<noteq> [] \<and> list_all is_digit (num_raw n) \<and>
     digits_value (num_raw n) < 2 ^ 64 \<and> num_value n = word_of_int (digits_value (num_raw n))"

definition wf_revision :: "revision \<Rightarrow> bool" where
  "wf_revision r \<longleftrightarrow> r = revision_default \<or> wf_number (rev_number r)"

definition wf_suffix :: "suffix \<Rightarrow> bool" where
  "wf_suffix s \<longleftrightarrow> (case sfx_version s of None \<Rightarrow> True | Some n \<Rightarrow> wf_number n)"

definition wf_version :: "version \<Rightarrow> bool" where
  "wf_version v \<longleftrightarrow> ver_numbers v \<noteq> [] \<and> list_all wf_number (ver_numbers v) \<and>
     (case ver_letter v of None \<Rightarrow> True | Some c \<Rightarrow> is_lower c) \<and>
     list_all wf_suffix (ver_suffixes v) \<and> wf_revision (ver_revision v) \<and>
     (ver_op v = Some OpApproximate \<longrightarrow> revision_is_empty (ver_revision v))"

end
