(* ===== verification/Version_Order.thy ===== *)
theory Version_Order
  imports Version
begin

text \<open>
  The order of versions satisfies the contract of \<open>Ord\<close>, with any choice of the two
  flags of \<open>cmp\<close>, and equal versions feed the same tokens to the hasher.
\<close>

section \<open>Comparisons of the parts\<close>

lemma total_cmp_number [cmp_laws]: "total_cmp Q number_cmp"
  unfolding number_cmp_def by (rule total_cmp_by)

lemma total_cmp_revision [cmp_laws]: "total_cmp Q revision_cmp"
proof -
  have "total_cmp Q (\<lambda>r r'. number_cmp (rev_number r) (rev_number r'))"
    by (rule total_cmp_key [OF total_cmp_number [of "\<lambda>_. True"]]) simp
  then show ?thesis by (simp add: revision_cmp_def [abs_def])
qed

lemma total_cmp_suffix [cmp_laws]: "total_cmp Q suffix_cmp"
proof -
  have "total_cmp Q (\<lambda>s t. cmp_option number_cmp (sfx_version s) (sfx_version t))"
    by (rule total_cmp_key [OF total_cmp_option [OF total_cmp_number [of "\<lambda>_. True"]]]) simp
  moreover have "total_cmp Q (\<lambda>s t. cmp_lin (sfx_kind s) (sfx_kind t))"
    by (rule total_cmp_key [OF total_cmp_by [of "\<lambda>_. True"]]) simp
  ultimately have "total_cmp Q (\<lambda>s t. ord_then (cmp_lin (sfx_kind s) (sfx_kind t))
      (cmp_option number_cmp (sfx_version s) (sfx_version t)))"
    by (rule total_cmp_then [rotated])
  then show ?thesis by (simp add: suffix_cmp_def [abs_def])
qed

interpretation number_ord: total_cmp "\<lambda>_. True" number_cmp by (rule total_cmp_number)

interpretation suffix_ord: total_cmp "\<lambda>_. True" suffix_cmp by (rule total_cmp_suffix)

lemma suffix_cmp_kind_cases:
  "suffix_cmp s t = Equal \<Longrightarrow> sfx_kind s = sfx_kind t"
  "suffix_cmp s t = Less \<Longrightarrow> sfx_kind s \<le> sfx_kind t"
  "suffix_cmp s t = Greater \<Longrightarrow> sfx_kind t \<le> sfx_kind s"
  by (cases "cmp_lin (sfx_kind s) (sfx_kind t)"; auto simp: suffix_cmp_def)+

lemma le_P [simp]: "k \<le> P" "P \<le> k \<longleftrightarrow> k = P"
  by (cases k; simp add: less_eq_suffix_kind_def)+

lemma suffixes_cmp_trans:
  "suffixes_cmp ss ts \<noteq> Greater \<Longrightarrow> suffixes_cmp ts us \<noteq> Greater \<Longrightarrow> suffixes_cmp ss us \<noteq> Greater"
proof (induction ss ts arbitrary: us rule: suffixes_cmp.induct)
  case 1
  then show ?case by simp
next
  case (2 s ss)
  then show ?case
  proof (cases us)
    case (Cons u us')
    with 2 have "sfx_kind s \<noteq> P" "sfx_kind u = P" by (auto split: if_splits)
    then have "suffix_cmp s u = Less"
      by (cases "sfx_kind s") (simp_all add: suffix_cmp_def cmp_by_def less_suffix_kind_def)
    with Cons show ?thesis by simp
  qed simp
next
  case (3 t ts)
  then show ?case
  proof (cases us)
    case (Cons u us')
    with 3 have t: "sfx_kind t = P" and tu: "suffix_cmp t u \<noteq> Greater"
      by (auto split: if_splits elim: ord_then.elims)
    then have "sfx_kind u = P"
      using suffix_cmp_kind_cases [of t u] by (cases "suffix_cmp t u") auto
    with Cons show ?thesis by simp
  qed simp
next
  case (4 s ss t ts)
  then have st: "suffix_cmp s t \<noteq> Greater" by (cases "suffix_cmp s t") auto
  show ?case
  proof (cases us)
    case Nil
    with 4 have "sfx_kind t \<noteq> P" by (auto split: if_splits)
    with st have "sfx_kind s \<noteq> P"
      using suffix_cmp_kind_cases [of s t] by (cases "suffix_cmp s t") auto
    with Nil show ?thesis by simp
  next
    case (Cons u us')
    have su: "suffix_cmp s u = ord_then (suffix_cmp s t) (suffix_cmp t u)"
      if "suffix_cmp s t = suffix_cmp t u \<or> suffix_cmp s t = Equal \<or> suffix_cmp t u = Equal"
      using suffix_ord.compose [OF _ _ _ refl refl that] by simp
    show ?thesis
      using 4 Cons su by (cases "suffix_cmp s t"; cases "suffix_cmp t u") auto
  qed
qed

lemma suffixes_cmp_flip: "suffixes_cmp ts ss = ord_reverse (suffixes_cmp ss ts)"
proof (induction ss ts rule: suffixes_cmp.induct)
  case (4 s ss t ts)
  then show ?case using suffix_ord.flip [of s t] by simp
qed simp_all

lemma total_cmp_suffixes [cmp_laws]: "total_cmp Q suffixes_cmp"
proof
  fix ss
  show "suffixes_cmp ss ss = Equal"
    by (induction ss) (simp_all add: suffix_ord.refl)
next
  fix ss ts show "suffixes_cmp ts ss = ord_reverse (suffixes_cmp ss ts)"
    by (rule suffixes_cmp_flip)
next
  fix ss ts us assume "suffixes_cmp ss ts \<noteq> Greater" "suffixes_cmp ts us \<noteq> Greater"
  then show "suffixes_cmp ss us \<noteq> Greater" by (rule suffixes_cmp_trans)
qed

section \<open>Components\<close>

abbreviation leading_zero :: "number \<Rightarrow> bool" where
  "leading_zero n \<equiv> starts_with (num_raw n) ''0''"

lemma trim_end_char_prefix: "prefix (trim_end_char c s) s"
  unfolding trim_end_char_def by (metis rev_rev_ident suffix_dropWhile suffix_to_prefix)

lemma trim_end_char_Nil: "trim_end_char c s = [] \<longleftrightarrow> (\<forall>x \<in> set s. x = c)"
  by (simp add: trim_end_char_def)

lemma leading_zero_iff: "leading_zero n \<longleftrightarrow> num_raw n \<noteq> [] \<and> hd (num_raw n) = CHR ''0''"
  by (cases "num_raw n") (auto simp: starts_with_def)

lemma trim_leading_zero:
  assumes "leading_zero n"
  shows "trim_end_char (CHR ''0'') (num_raw n) = [] \<or>
    hd (trim_end_char (CHR ''0'') (num_raw n)) = CHR ''0''"
proof -
  obtain u where "num_raw n = trim_end_char (CHR ''0'') (num_raw n) @ u"
    using trim_end_char_prefix prefix_def by blast
  then show ?thesis using assms by (metis hd_append2 leading_zero_iff)
qed

lemma trim_no_leading_zero:
  assumes "wf_number n" "\<not> leading_zero n"
  shows "trim_end_char (CHR ''0'') (num_raw n) \<noteq> [] \<and>
    48 < (of_char (hd (trim_end_char (CHR ''0'') (num_raw n))) :: nat)"
proof -
  let ?t = "trim_end_char (CHR ''0'') (num_raw n)"
  obtain u where u: "num_raw n = ?t @ u"
    using trim_end_char_prefix prefix_def by blast
  have raw: "num_raw n \<noteq> []" "is_digit (hd (num_raw n))" "hd (num_raw n) \<noteq> CHR ''0''"
    using assms by (auto simp: wf_number_def leading_zero_iff list_all_iff)
  then have t: "?t \<noteq> []" by (metis hd_in_set trim_end_char_Nil)
  then have "hd ?t = hd (num_raw n)" by (metis hd_append2 u)
  moreover have "(of_char (hd (num_raw n)) :: nat) \<noteq> of_char (CHR ''0'')"
    using raw by (simp only: of_char_eq_iff not_False_eq_True)
  ultimately show ?thesis using raw t by (simp add: is_digit_def)
qed

text \<open>On well-formed numbers the component order is lexicographic: zero-led spellings come
  first, among themselves by their trimmed spelling, the others by their value.\<close>

definition component_key_cmp :: "number \<Rightarrow> number \<Rightarrow> ordering" where
  "component_key_cmp n m =
     ord_then (cmp_by (\<lambda>n. \<not> leading_zero n) n m)
    (ord_then (cmp_str (if leading_zero n then trim_end_char (CHR ''0'') (num_raw n) else [])
                       (if leading_zero m then trim_end_char (CHR ''0'') (num_raw m) else []))
              (cmp_by (\<lambda>n. if leading_zero n then 0 else num_value n) n m))"

lemma total_cmp_component_key: "total_cmp Q component_key_cmp"
proof -
  have "total_cmp Q (\<lambda>n m. cmp_str (if leading_zero n then trim_end_char (CHR ''0'') (num_raw n) else [])
      (if leading_zero m then trim_end_char (CHR ''0'') (num_raw m) else []))"
    by (rule total_cmp_key [OF total_cmp_str [of "\<lambda>_. True"],
        where f = "\<lambda>n. if leading_zero n then trim_end_char (CHR ''0'') (num_raw n) else []"]) simp
  from total_cmp_then [OF total_cmp_by total_cmp_then [OF this total_cmp_by]]
  show ?thesis unfolding component_key_cmp_def [abs_def] .
qed

lemma cmp_str_zero_led_less:
  assumes "s = [] \<or> hd s = CHR ''0''" "t \<noteq> []" "48 < (of_char (hd t) :: nat)"
  shows "cmp_str s t = Less" "cmp_str t s = Greater"
proof -
  have "cmp_str s t = Less"
    using assms by (cases s; cases t) (auto simp: cmp_str_def cmp_char_def cmp_by_def)
  then show "cmp_str s t = Less" "cmp_str t s = Greater"
    using str_ord.flip_Less [of s t] by simp_all
qed

lemma component_cmp_key:
  assumes "wf_number n" "wf_number m"
  shows "component_cmp n m = component_key_cmp n m"
proof (cases "leading_zero n"; cases "leading_zero m")
  assume z: "leading_zero n" "\<not> leading_zero m"
  then have "component_cmp n m = Less"
    using cmp_str_zero_led_less(1) [OF trim_leading_zero [OF z(1)]] trim_no_leading_zero [OF assms(2) z(2)]
    by (simp add: component_cmp_def Let_def)
  with z show ?thesis by (simp add: component_key_cmp_def cmp_by_def)
next
  assume z: "\<not> leading_zero n" "leading_zero m"
  then have "component_cmp n m = Greater"
    using cmp_str_zero_led_less(2) [OF trim_leading_zero [OF z(2)]] trim_no_leading_zero [OF assms(1) z(1)]
    by (simp add: component_cmp_def Let_def)
  with z show ?thesis by (simp add: component_key_cmp_def cmp_by_def)
qed (simp_all add: component_cmp_def component_key_cmp_def Let_def number_cmp_def cmp_by_def)

lemma total_cmp_cong:
  assumes "total_cmp Q c" and eq: "\<And>x y. Q x \<Longrightarrow> Q y \<Longrightarrow> d x y = c x y"
  shows "total_cmp Q d"
proof
  fix x assume "Q x"
  then show "d x x = Equal" using eq total_cmp.refl [OF assms(1)] by simp
next
  fix x y assume "Q x" "Q y"
  then show "d y x = ord_reverse (d x y)" using eq total_cmp.flip [OF assms(1), of x y] by simp
next
  fix x y z assume "Q x" "Q y" "Q z" "d x y \<noteq> Greater" "d y z \<noteq> Greater"
  then show "d x z \<noteq> Greater" using eq total_cmp.trans [OF assms(1), of x y z] by simp
qed

lemma total_cmp_component [cmp_laws]: "total_cmp wf_number component_cmp"
  by (rule total_cmp_cong [OF total_cmp_component_key component_cmp_key])

interpretation component_ord: total_cmp wf_number component_cmp by (rule total_cmp_component)

section \<open>Versions\<close>

lemma wf_version_numbers: "wf_version v \<Longrightarrow> \<exists>n ns. ver_numbers v = n # ns \<and> wf_number n \<and> list_all wf_number ns"
  by (cases "ver_numbers v") (auto simp: wf_version_def)

lemma version_cmp_checked_wf:
  "wf_version v \<Longrightarrow> wf_version w \<Longrightarrow> version_cmp_checked v w r p = Some (version_cmp v w r p)"
  by (cases "ver_numbers v"; cases "ver_numbers w")
    (auto simp: wf_version_def version_cmp_def version_cmp_checked_def)

lemma version_cmp_wf:
  assumes "wf_version v" "wf_version w"
  shows "version_cmp v w r p =
    ord_then (number_cmp (hd (ver_numbers v)) (hd (ver_numbers w)))
   (ord_then (cmp_list component_cmp (tl (ver_numbers v)) (tl (ver_numbers w)))
   (ord_then (cmp_option cmp_char (ver_letter v) (ver_letter w))
   (ord_then (suffixes_cmp (ver_suffixes v) (ver_suffixes w))
   (ord_then (if r then revision_cmp (ver_revision v) (ver_revision w) else Equal)
             (if p then cmp_option cmp_lin (ver_op v) (ver_op w) else Equal)))))"
  using assms by (cases "ver_numbers v"; cases "ver_numbers w")
    (auto simp: wf_version_def version_cmp_def version_cmp_checked_def)

lemma total_cmp_const: "total_cmp Q (\<lambda>x y. Equal)"
  by unfold_locales simp_all

lemma total_cmp_if: "total_cmp Q c \<Longrightarrow> total_cmp Q (\<lambda>x y. if b then c x y else Equal)"
  by (cases b) (simp_all add: total_cmp_const)

lemma total_cmp_version [cmp_laws]: "total_cmp wf_version (\<lambda>v w. version_cmp v w r p)"
proof (rule total_cmp_cong [OF _ version_cmp_wf])
  have major: "total_cmp wf_version (\<lambda>v w. number_cmp (hd (ver_numbers v)) (hd (ver_numbers w)))"
    by (rule total_cmp_key [OF total_cmp_number [of "\<lambda>_. True"]]) simp
  have comps: "total_cmp wf_version (\<lambda>v w. cmp_list component_cmp (tl (ver_numbers v)) (tl (ver_numbers w)))"
    by (rule total_cmp_key [OF total_cmp_list [OF total_cmp_component]])
      (auto dest: wf_version_numbers)
  have letter: "total_cmp wf_version (\<lambda>v w. cmp_option cmp_char (ver_letter v) (ver_letter w))"
    by (rule total_cmp_key [OF total_cmp_option [OF total_cmp_char [of "\<lambda>_. True"]]]) simp
  have sfx: "total_cmp wf_version (\<lambda>v w. suffixes_cmp (ver_suffixes v) (ver_suffixes w))"
    by (rule total_cmp_key [OF total_cmp_suffixes [of "\<lambda>_. True"]]) simp
  have revn: "total_cmp wf_version (\<lambda>v w. revision_cmp (ver_revision v) (ver_revision w))"
    by (rule total_cmp_key [OF total_cmp_revision [of "\<lambda>_. True"]]) simp
  have opn: "total_cmp wf_version (\<lambda>v w. cmp_option cmp_lin (ver_op v) (ver_op w))"
    by (rule total_cmp_key [OF total_cmp_option [OF total_cmp_by [of "\<lambda>_. True"]]]) simp
  show "total_cmp wf_version (\<lambda>v w.
    ord_then (number_cmp (hd (ver_numbers v)) (hd (ver_numbers w)))
   (ord_then (cmp_list component_cmp (tl (ver_numbers v)) (tl (ver_numbers w)))
   (ord_then (cmp_option cmp_char (ver_letter v) (ver_letter w))
   (ord_then (suffixes_cmp (ver_suffixes v) (ver_suffixes w))
   (ord_then (if r then revision_cmp (ver_revision v) (ver_revision w) else Equal)
             (if p then cmp_option cmp_lin (ver_op v) (ver_op w) else Equal))))))"
    by (intro total_cmp_then total_cmp_if major comps letter sfx revn opn)
qed

interpretation ver: total_cmp wf_version version_ord
  unfolding version_ord_def [abs_def] by (rule total_cmp_version)

interpretation non_op: total_cmp wf_version non_op_cmp
  unfolding non_op_cmp_def [abs_def] by (rule total_cmp_version)

lemma total_cmp_non_revision: "total_cmp wf_version (\<lambda>v w. version_cmp v w False False)"
  by (rule total_cmp_version)

interpretation non_rev: total_cmp wf_version "\<lambda>v w. version_cmp v w False False"
  by (rule total_cmp_non_revision)

section \<open>The hash\<close>

lemma hash_option_eq: "(\<And>a b. c a b = Equal \<Longrightarrow> h a = h b) \<Longrightarrow> cmp_option c x y = Equal \<Longrightarrow>
    hash_option h x = hash_option h y"
  by (cases x; cases y) auto

lemma number_cmp_hash: "number_cmp n m = Equal \<Longrightarrow> hash_number n = hash_number m"
  by (simp add: number_cmp_def hash_number_def)

lemma component_cmp_hash:
  "wf_number n \<Longrightarrow> wf_number m \<Longrightarrow> component_cmp n m = Equal \<Longrightarrow> hash_component n = hash_component m"
  by (auto simp: component_cmp_key component_key_cmp_def hash_component_def split: if_splits)

lemma components_cmp_hash:
  "list_all wf_number ns \<Longrightarrow> list_all wf_number ms \<Longrightarrow> cmp_list component_cmp ns ms = Equal \<Longrightarrow>
    map hash_component ns = map hash_component ms"
  by (induction component_cmp ns ms rule: cmp_list.induct) (auto intro: component_cmp_hash)

lemma suffix_cmp_hash: "suffix_cmp s t = Equal \<Longrightarrow> hash_suffix s = hash_suffix t"
  using hash_option_eq [OF number_cmp_hash] by (auto simp: suffix_cmp_def hash_suffix_def)

lemma suffixes_cmp_hash: "suffixes_cmp ss ts = Equal \<Longrightarrow> map hash_suffix ss = map hash_suffix ts"
  by (induction ss ts rule: suffixes_cmp.induct) (auto intro: suffix_cmp_hash split: if_splits)

lemma version_eq_hash:
  assumes "wf_version v" "wf_version w" "version_eq v w"
  shows "hash_version v = hash_version w"
proof -
  obtain n ns m ms where nm: "ver_numbers v = n # ns" "ver_numbers w = m # ms"
    and wf: "list_all wf_number ns" "list_all wf_number ms"
    using assms wf_version_numbers by metis
  have eq: "number_cmp n m = Equal" "cmp_list component_cmp ns ms = Equal"
    "cmp_option cmp_char (ver_letter v) (ver_letter w) = Equal"
    "suffixes_cmp (ver_suffixes v) (ver_suffixes w) = Equal"
    "revision_cmp (ver_revision v) (ver_revision w) = Equal"
    using assms(3) nm by (simp_all add: version_eq_def version_cmp_wf [OF assms(1,2)])
  have "map hash_suffix (ver_suffixes v) = map hash_suffix (ver_suffixes w)"
    by (rule suffixes_cmp_hash [OF eq(4)])
  moreover from this have "length (ver_suffixes v) = length (ver_suffixes w)"
    by (rule map_eq_imp_length_eq)
  moreover have "map hash_component ns = map hash_component ms"
    by (rule components_cmp_hash [OF wf eq(2)])
  moreover have "hash_number n = hash_number m" by (rule number_cmp_hash [OF eq(1)])
  moreover have "hash_number (rev_number (ver_revision v)) = hash_number (rev_number (ver_revision w))"
    using eq(5) by (intro number_cmp_hash) (simp add: revision_cmp_def)
  moreover have "ver_letter v = ver_letter w"
    using eq(3) cmp_option_eq_iff [OF cmp_char_eq] by blast
  ultimately show ?thesis using nm by (simp add: hash_version_def)
qed

end
