(* ===== verification/Version_Parse.thy ===== *)
theory Version_Parse
  imports Errors Version_Order
begin

text \<open>
  The version rules of \<open>dep/parse.rs\<close> (\<open>number\<close>, \<open>suffix\<close>,
  \<open>version_suffix\<close>, \<open>version\<close>, \<open>with_op\<close>, \<open>revision\<close>) and the
  constructors of \<open>Version\<close> and \<open>Revision\<close>. Parsing builds well-formed versions
  that print as the text that was read, and every well-formed version is read back from its
  printed form, alone or in front of any text a version cannot run into (\<open>version_end\<close>).
\<close>

section \<open>Rules\<close>

definition p_number :: "number parser" where
  "p_number = p_try (p_name is_digit is_digit)
     (\<lambda>s. if digits_value s < 2 ^ 64
          then Some \<lparr>num_raw = s, num_value = word_of_int (digits_value s)\<rparr> else None)"

definition p_suffix :: "suffix_kind parser" where
  "p_suffix =
     p_alt (p_map (\<lambda>_. Alpha) (p_lit ''alpha''))
    (p_alt (p_map (\<lambda>_. Beta) (p_lit ''beta''))
    (p_alt (p_map (\<lambda>_. Pre) (p_lit ''pre''))
    (p_alt (p_map (\<lambda>_. Rc) (p_lit ''rc''))
           (p_map (\<lambda>_. P) (p_lit ''p'')))))"

definition p_version_suffix :: "suffix parser" where
  "p_version_suffix =
     p_then (p_lit ''_'')
       (p_bind p_suffix (\<lambda>kind. p_bind (p_opt p_number) (\<lambda>version.
          p_return \<lparr>sfx_kind = kind, sfx_version = version\<rparr>)))"

definition p_revision :: "revision parser" where
  "p_revision = p_then (p_lit ''-r'') (p_map Revision p_number)"

definition p_version :: "version parser" where
  "p_version =
     p_bind (p_sep1 p_number (p_lit ''.'')) (\<lambda>numbers.
     p_bind (p_opt (p_class is_lower)) (\<lambda>letter.
     p_bind (p_many p_version_suffix) (\<lambda>suffixes.
     p_bind (p_opt p_revision) (\<lambda>revision.
       p_return \<lparr>ver_op = None, ver_numbers = numbers, ver_letter = letter,
         ver_suffixes = suffixes,
         ver_revision = (case revision of None \<Rightarrow> revision_default | Some r \<Rightarrow> r)\<rparr>))))"

text \<open>\<open>with_op<T>(expr)\<close>, for a type whose \<open>with_op\<close> is \<open>f\<close>.\<close>

definition ok_result :: "'e + 'a \<Rightarrow> 'a option" where
  "ok_result r = (case r of Inl _ \<Rightarrow> None | Inr x \<Rightarrow> Some x)"

definition p_with_op :: "('a \<Rightarrow> operator \<Rightarrow> string + 'b) \<Rightarrow> 'a parser \<Rightarrow> 'b parser" where
  "p_with_op f expr =
     p_alt (p_try (p_then (p_lit ''<='') expr) (\<lambda>v. ok_result (f v OpLessOrEqual)))
    (p_alt (p_try (p_then (p_lit ''<'') expr) (\<lambda>v. ok_result (f v OpLess)))
    (p_alt (p_try (p_then (p_lit ''>='') expr) (\<lambda>v. ok_result (f v OpGreaterOrEqual)))
    (p_alt (p_try (p_then (p_lit ''>'') expr) (\<lambda>v. ok_result (f v OpGreater)))
    (p_alt (p_try (p_then (p_lit ''='')
              (p_bind expr (\<lambda>v. p_bind (p_opt (p_lit ''*'')) (\<lambda>glob. p_return (v, glob)))))
              (\<lambda>(v, glob). if glob = None then ok_result (f v OpEqual) else ok_result (f v OpEqualGlob)))
           (p_try (p_then (p_lit ''~'') expr) (\<lambda>v. ok_result (f v OpApproximate)))))))"

definition p_version_with_op :: "version parser" where
  "p_version_with_op = p_with_op version_with_op p_version"

section \<open>Constructors\<close>

definition parse_version :: "string \<Rightarrow> error + version" where
  "parse_version s = peg_result ''invalid version'' s (p_run p_version s)"

definition parse_version_with_op :: "string \<Rightarrow> error + version" where
  "parse_version_with_op s = peg_result ''invalid version'' s (p_run p_version_with_op s)"

definition parse_revision :: "string \<Rightarrow> error + revision" where
  "parse_revision s = peg_result ''invalid revision'' s (map_option Revision (p_run p_number s))"

definition revision_try_new :: "string \<Rightarrow> error + revision" where
  "revision_try_new s = (if s = [] then Inr revision_default else parse_revision s)"

definition all_operators :: "operator list" where
  "all_operators =
     [OpLess, OpLessOrEqual, OpEqual, OpEqualGlob, OpApproximate, OpGreaterOrEqual, OpGreater]"

definition version_try_new :: "string \<Rightarrow> error + version" where
  "version_try_new s =
     (if s \<noteq> [] \<and> list_ex (\<lambda>op. starts_with (operator_as_ref op) [hd s]) all_operators
      then parse_version_with_op s else parse_version s)"

section \<open>What may follow a version\<close>

definition version_end :: "string \<Rightarrow> bool" where
  "version_end t \<longleftrightarrow> t = [] \<or>
     \<not> is_digit (hd t) \<and> \<not> is_lower (hd t) \<and> hd t \<noteq> CHR ''.'' \<and> hd t \<noteq> CHR ''_'' \<and>
     \<not> starts_with t ''-r''"

definition number_end :: "string \<Rightarrow> bool" where
  "number_end t \<longleftrightarrow> t = [] \<or> \<not> is_digit (hd t)"

definition suffix_end :: "string \<Rightarrow> bool" where
  "suffix_end t \<longleftrightarrow> t = [] \<or> \<not> is_digit (hd t) \<and> \<not> is_lower (hd t)"

lemma version_end_Nil [simp]: "version_end []"
  by (simp add: version_end_def)

lemma version_end_suffix: "version_end t \<Longrightarrow> suffix_end t"
  by (auto simp: version_end_def suffix_end_def)

lemma suffix_end_number: "suffix_end t \<Longrightarrow> number_end t"
  by (auto simp: suffix_end_def number_end_def)

section \<open>Printing what was read\<close>

lemma number_prints: "prints p_number number_display wf_number"
proof (rule printsI)
  fix s n r assume "p_number s = Some (n, r)"
  then obtain w where "p_name is_digit is_digit s = Some (w, r)" "digits_value w < 2 ^ 64"
    "n = \<lparr>num_raw = w, num_value = word_of_int (digits_value w)\<rparr>"
    by (auto simp: p_number_def p_try_def split: option.splits if_splits)
  moreover from printsD [OF p_name_prints this(1)] have "s = w @ r" "w \<noteq> []" "list_all is_digit w"
    by (cases w; simp add: is_name_def)+
  ultimately show "s = number_display n @ r \<and> wf_number n"
    by (simp add: number_display_def wf_number_def)
qed

lemma number_reads: "number_end t \<Longrightarrow> reads p_number number_display wf_number t"
proof (rule readsI)
  fix n assume t: "number_end t" and n: "wf_number n"
  then have "is_name is_digit is_digit (num_raw n)"
    by (cases "num_raw n") (simp_all add: is_name_def wf_number_def)
  with t have "p_name is_digit is_digit (num_raw n @ t) = Some (num_raw n, t)"
    using readsD [OF p_name_reads, of t is_digit is_digit "num_raw n"] by (auto simp: number_end_def)
  with n show "p_number (number_display n @ t) = Some (n, t)"
    by (cases n) (simp add: p_number_def p_try_def number_display_def wf_number_def)
qed

lemma suffix_kind_prints: "prints p_suffix suffix_kind_display (\<lambda>_. True)"
  by (rule printsI)
    (auto simp: p_suffix_def p_alt_def p_map_def p_bind_def p_return_def p_lit_Some split: option.splits)

lemma suffix_kind_reads: "t = [] \<or> hd t \<noteq> CHR ''r'' \<Longrightarrow> reads p_suffix suffix_kind_display (\<lambda>_. True) t"
proof (rule readsI)
  fix k assume "t = [] \<or> hd t \<noteq> CHR ''r''"
  then show "p_suffix (suffix_kind_display k @ t) = Some (k, t)"
    by (cases k; cases t)
      (simp_all add: p_suffix_def p_alt_def p_map_def p_bind_def p_return_def p_lit_def starts_with_def)
qed

definition suffix_text :: "suffix \<Rightarrow> string" where
  "suffix_text s = ''_'' @ suffix_display s"

lemma number_None: "number_end t \<Longrightarrow> p_number t = None"
  by (auto simp: p_number_def p_try_def p_name_eq number_end_def split: list.splits)

lemma version_suffix_prints: "prints p_version_suffix suffix_text wf_suffix"
  by (rule printsI)
    (auto simp: p_version_suffix_def p_then_def p_bind_def p_opt_def p_return_def p_lit_Some suffix_text_def
      suffix_display_def wf_suffix_def split: option.splits
      dest!: printsD [OF suffix_kind_prints] printsD [OF number_prints])

lemma hd_number: "wf_number n \<Longrightarrow> num_raw n \<noteq> [] \<and> is_digit (hd (num_raw n))"
  by (cases "num_raw n") (simp_all add: wf_number_def)

lemma suffix_end_letter: "suffix_end t \<Longrightarrow> p_class is_lower t = None"
  by (auto simp: p_class_def suffix_end_def split: list.splits)

lemma digit_facts [simp]:
  "\<not> is_digit (CHR ''r'')" "\<not> is_digit (CHR ''_'')" "\<not> is_digit (CHR ''.'')" "\<not> is_digit (CHR ''-'')"
  "\<not> is_lower (CHR ''_'')" "\<not> is_lower (CHR ''.'')" "\<not> is_lower (CHR ''-'')"
  by (simp_all add: char_classes)

lemma digit_not_lower: "is_digit c \<Longrightarrow> \<not> is_lower c"
  by (simp add: char_classes)

lemma version_suffix_reads:
  assumes "suffix_end t"
  shows "reads p_version_suffix suffix_text wf_suffix t"
proof (rule readsI)
  fix s assume s: "wf_suffix s"
  obtain k ver where kv: "s = \<lparr>sfx_kind = k, sfx_version = ver\<rparr>" by (cases s)
  let ?t = "(case ver of None \<Rightarrow> [] | Some n \<Rightarrow> number_display n) @ t"
  have "?t = [] \<or> hd ?t \<noteq> CHR ''r''"
  proof (cases ver)
    case None
    with assms show ?thesis by (auto simp: suffix_end_def is_lower_def)
  next
    case (Some n)
    with s kv have "num_raw n \<noteq> []" "is_digit (hd (num_raw n))"
      by (simp_all add: wf_suffix_def hd_number)
    then have "hd (num_raw n) \<noteq> CHR ''r''" by (metis digit_facts(1))
    with Some \<open>num_raw n \<noteq> []\<close> show ?thesis by (simp add: number_display_def)
  qed
  then have kind: "p_suffix (suffix_kind_display k @ ?t) = Some (k, ?t)"
    using readsD [OF suffix_kind_reads] by simp
  have "p_opt p_number ?t = Some (ver, t)"
    using s kv readsD [OF number_reads, of t] number_None [of t] suffix_end_number [OF assms]
    by (auto simp: p_opt_def wf_suffix_def split: option.splits)
  with kind show "p_version_suffix (suffix_text s @ t) = Some (s, t)"
    using kv by (simp add: p_version_suffix_def p_then_def p_bind_def p_return_def suffix_text_def
      suffix_display_def p_lit_Cons)
qed

lemma revision_prints: "prints p_revision (\<lambda>r. ''-r'' @ revision_display r) (\<lambda>r. wf_number (rev_number r))"
  by (rule printsI)
    (auto simp: p_revision_def p_then_def p_map_def p_bind_def p_return_def p_lit_Some
      revision_display_def split: option.splits dest!: printsD [OF number_prints])

lemma revision_reads:
  "number_end t \<Longrightarrow> reads p_revision (\<lambda>r. ''-r'' @ revision_display r) (\<lambda>r. wf_number (rev_number r)) t"
proof (rule readsI)
  fix r assume "number_end t" "wf_number (rev_number r)"
  then have "p_number (number_display (rev_number r) @ t) = Some (rev_number r, t)"
    using readsD [OF number_reads] by blast
  then show "p_revision ((''-r'' @ revision_display r) @ t) = Some (r, t)"
    by (simp add: p_revision_def p_then_def p_map_def p_bind_def p_return_def p_lit_def
      starts_with_def revision_display_def)
qed

text \<open>The parts of the printed form.\<close>

definition letter_text :: "char option \<Rightarrow> string" where
  "letter_text l = (case l of None \<Rightarrow> [] | Some c \<Rightarrow> [c])"

definition revision_text :: "revision \<Rightarrow> string" where
  "revision_text r = (if revision_is_empty r then [] else ''-r'' @ revision_display r)"

lemma version_without_op_text:
  "version_without_op v = join_with ''.'' (map number_display (ver_numbers v)) @
     letter_text (ver_letter v) @ concat (map suffix_text (ver_suffixes v)) @ revision_text (ver_revision v)"
  by (simp add: version_without_op_def version_fmt_def Let_def letter_text_def revision_text_def
      version_revision_def suffix_text_def [abs_def] split: option.splits)

lemma version_base_text:
  "version_base v = join_with ''.'' (map number_display (ver_numbers v)) @
     letter_text (ver_letter v) @ concat (map suffix_text (ver_suffixes v))"
  by (simp add: version_base_def version_fmt_def Let_def letter_text_def
      version_revision_def suffix_text_def [abs_def] split: option.splits)

lemma version_display_no_op: "ver_op v = None \<Longrightarrow> version_display v = version_without_op v"
  by (simp add: version_display_def version_without_op_def version_fmt_def Let_def split: option.splits)

definition plain_version :: "version \<Rightarrow> bool" where
  "plain_version v \<longleftrightarrow> wf_version v \<and> ver_op v = None"

lemma wf_revision_empty: "wf_revision r \<Longrightarrow> revision_is_empty r \<Longrightarrow> r = revision_default"
  by (auto simp: wf_revision_def revision_is_empty_def number_is_empty_def wf_number_def)

lemma revision_default_empty [simp]: "revision_is_empty revision_default"
  by (simp add: revision_is_empty_def revision_default_def number_default_def number_is_empty_def)

lemma wf_number_not_empty: "wf_number (rev_number r) \<Longrightarrow> \<not> revision_is_empty r"
  by (auto simp: wf_number_def revision_is_empty_def number_is_empty_def)

lemma p_version_SomeD:
  assumes "p_version s = Some (v, r)"
  obtains s1 s2 s3 ns l ss rv where
    "p_sep1 p_number (p_lit ''.'') s = Some (ns, s1)" "p_opt (p_class is_lower) s1 = Some (l, s2)"
    "p_star p_version_suffix s2 = (ss, s3)" "p_opt p_revision s3 = Some (rv, r)"
    "v = \<lparr>ver_op = None, ver_numbers = ns, ver_letter = l, ver_suffixes = ss,
       ver_revision = (case rv of None \<Rightarrow> revision_default | Some r \<Rightarrow> r)\<rparr>"
  using assms
  by (auto simp: p_version_def p_bind_def p_many_def p_return_def split: option.splits prod.splits)

lemma version_prints: "prints p_version version_without_op plain_version"
proof (rule printsI)
  fix s v r assume "p_version s = Some (v, r)"
  then obtain s1 s2 s3 ns l ss rv where
    ns: "p_sep1 p_number (p_lit ''.'') s = Some (ns, s1)" and l: "p_opt (p_class is_lower) s1 = Some (l, s2)"
    and ss: "p_star p_version_suffix s2 = (ss, s3)" and rv: "p_opt p_revision s3 = Some (rv, r)"
    and v: "v = \<lparr>ver_op = None, ver_numbers = ns, ver_letter = l, ver_suffixes = ss,
       ver_revision = (case rv of None \<Rightarrow> revision_default | Some r \<Rightarrow> r)\<rparr>"
    by (rule p_version_SomeD)
  have 1: "s = join_with ''.'' (map number_display ns) @ s1 \<and> ns \<noteq> [] \<and> list_all wf_number ns"
    by (rule p_sep1_prints [OF number_prints ns])
  have 2: "s1 = letter_text l @ s2 \<and> (case l of None \<Rightarrow> True | Some c \<Rightarrow> is_lower c)"
    using l by (auto simp: p_opt_def p_class_def letter_text_def split: option.splits list.splits if_splits)
  have 3: "s2 = concat (map suffix_text ss) @ s3 \<and> list_all wf_suffix ss"
    by (rule p_star_prints [OF version_suffix_prints ss])
  have 4: "s3 = revision_text (ver_revision v) @ r \<and> wf_revision (ver_revision v)"
  proof (cases rv)
    case None
    then show ?thesis using rv v
      by (simp add: p_opt_def revision_text_def wf_revision_def split: option.splits prod.splits)
  next
    case (Some x)
    then have "p_revision s3 = Some (x, r)"
      using rv by (simp add: p_opt_def split: option.splits prod.splits)
    from printsD [OF revision_prints this] Some v show ?thesis
      by (simp add: revision_text_def wf_revision_def wf_number_not_empty)
  qed
  show "s = version_without_op v @ r \<and> plain_version v"
    using 1 2 3 4 v by (simp add: version_without_op_text plain_version_def wf_version_def)
qed

lemma suffix_end_text: "suffix_end (suffix_text s @ t)"
  by (simp add: suffix_end_def suffix_text_def)

lemma suffix_end_suffixes: "suffix_end t \<Longrightarrow> suffix_end (concat (map suffix_text ss) @ t)"
  using suffix_end_text by (cases ss) simp_all

lemma version_reads:
  assumes t: "version_end t"
  shows "reads p_version version_without_op plain_version t"
proof (rule readsI)
  fix v assume v: "plain_version v"
  then have wf: "ver_numbers v \<noteq> []" "list_all wf_number (ver_numbers v)"
    "case ver_letter v of None \<Rightarrow> True | Some c \<Rightarrow> is_lower c"
    "list_all wf_suffix (ver_suffixes v)" "wf_revision (ver_revision v)" and op: "ver_op v = None"
    by (simp_all add: plain_version_def wf_version_def)
  let ?t3 = "revision_text (ver_revision v) @ t"
  let ?t2 = "concat (map suffix_text (ver_suffixes v)) @ ?t3"
  let ?t1 = "letter_text (ver_letter v) @ ?t2"
  have e3: "suffix_end ?t3" "p_version_suffix ?t3 = None"
    using t by (auto simp: revision_text_def version_end_def suffix_end_def p_version_suffix_def p_then_def
        p_bind_def p_lit_hd split: option.splits)
  have e2: "suffix_end ?t2" by (rule suffix_end_suffixes [OF e3(1)])
  have dot: "?t1 = [] \<or> hd ?t1 \<noteq> CHR ''.''"
    using t wf(3) by (cases "ver_letter v"; cases "ver_suffixes v")
      (auto simp: letter_text_def revision_text_def version_end_def suffix_text_def)
  have e1: "number_end ?t1" "p_then (p_lit ''.'') p_number ?t1 = None"
  proof -
    show "number_end ?t1"
      using suffix_end_number [OF e2] wf(3) digit_not_lower
      by (auto simp: letter_text_def number_end_def split: option.splits)
    show "p_then (p_lit ''.'') p_number ?t1 = None"
      using dot p_lit_hd [of "''.''" ?t1] by (simp add: p_then_def p_bind_def)
  qed
  have 1: "p_sep1 p_number (p_lit ''.'') (join_with ''.'' (map number_display (ver_numbers v)) @ ?t1)
      = Some (ver_numbers v, ?t1)"
    by (rule p_sep1_reads [where Q = wf_number and ok = number_end])
      (use readsD [OF number_reads] e1 wf in \<open>auto simp: number_end_def\<close>)
  have 2: "p_opt (p_class is_lower) ?t1 = Some (ver_letter v, ?t2)"
    using suffix_end_letter [OF e2] wf(3)
    by (cases "ver_letter v") (simp_all add: p_opt_def letter_text_def p_class_def [of _ "_ # _"])
  have 3: "p_star p_version_suffix ?t2 = (ver_suffixes v, ?t3)"
    by (rule p_star_reads [where Q = wf_suffix and ok = suffix_end])
      (use readsD [OF version_suffix_reads] suffix_end_text e3 wf in \<open>auto simp: suffix_text_def\<close>)
  have 4: "p_opt p_revision ?t3 = Some (if revision_is_empty (ver_revision v) then None
      else Some (ver_revision v), t)"
  proof (cases "revision_is_empty (ver_revision v)")
    case True
    have "p_revision t = None"
      using t by (auto simp: p_revision_def p_then_def p_bind_def p_lit_def version_end_def starts_with_def)
    with True show ?thesis by (simp add: p_opt_def revision_text_def)
  next
    case False
    then have "wf_number (rev_number (ver_revision v))"
      using wf(5) by (auto simp: wf_revision_def)
    with False show ?thesis
      using readsD [OF revision_reads [OF suffix_end_number [OF version_end_suffix [OF t]]]]
      by (simp add: p_opt_def revision_text_def)
  qed
  have "(if revision_is_empty (ver_revision v) then revision_default else ver_revision v) = ver_revision v"
    using wf_revision_empty [OF wf(5)] by (cases "revision_is_empty (ver_revision v)") simp_all
  moreover have "\<lparr>ver_op = None, ver_numbers = ver_numbers v, ver_letter = ver_letter v,
      ver_suffixes = ver_suffixes v, ver_revision = ver_revision v\<rparr> = v"
    using op by (cases v) simp
  ultimately show "p_version (version_without_op v @ t) = Some (v, t)"
    using 1 2 3 4 by (cases "revision_is_empty (ver_revision v)")
      (simp_all add: p_version_def p_bind_def p_many_def p_return_def version_without_op_text)
qed

section \<open>Operators\<close>

definition op_text :: "operator \<Rightarrow> string \<Rightarrow> string" where
  "op_text op s = (case op of OpLess \<Rightarrow> ''<'' @ s | OpLessOrEqual \<Rightarrow> ''<='' @ s | OpEqual \<Rightarrow> ''='' @ s
     | OpEqualGlob \<Rightarrow> ''='' @ s @ ''*'' | OpApproximate \<Rightarrow> ''~'' @ s
     | OpGreaterOrEqual \<Rightarrow> ''>='' @ s | OpGreater \<Rightarrow> ''>'' @ s)"

lemma version_display_op:
  "ver_op v = Some op \<Longrightarrow> version_display v = op_text op (version_without_op v)"
  by (cases op) (simp_all add: version_display_def version_without_op_def version_fmt_def op_text_def Let_def
      split: option.splits)

lemma p_alt_SomeD: "p_alt p q s = Some z \<Longrightarrow> p s = Some z \<or> q s = Some z"
  by (auto simp: p_alt_def split: option.splits)

text \<open>What the rule behind an operator gives is given by \<open>with_op\<close>; \<open>Q\<close> may
  also speak of what is left.\<close>

lemma p_try_lit_SomeD:
  assumes expr: "\<And>s x r. expr s = Some (x, r) \<Longrightarrow> s = d x @ r \<and> Q r x"
    and "p_try (p_then (p_lit w) expr) (\<lambda>v. ok_result (f v op)) s = Some (y, r)"
    and w: "\<And>u. op_text op u = w @ u"
  shows "\<exists>op x r'. f x op = Inr y \<and> s = op_text op (d x) @ r \<and> Q r' x \<and> (r' = r \<or> r' = CHR ''*'' # r)"
proof -
  obtain x s' where "expr s' = Some (x, r)" "s = w @ s'" "f x op = Inr y"
    using assms(2)
    by (auto simp: p_try_def p_then_def p_bind_def p_lit_Some ok_result_def
        split: option.splits sum.splits)
  with expr [of s' x r] w show ?thesis by (intro exI [of _ op] exI [of _ x] exI [of _ r]) simp
qed

lemma p_try_glob_SomeD:
  assumes expr: "\<And>s x r. expr s = Some (x, r) \<Longrightarrow> s = d x @ r \<and> Q r x"
    and "p_try (p_then (p_lit ''='') (p_bind expr (\<lambda>v. p_bind (p_opt (p_lit ''*''))
      (\<lambda>glob. p_return (v, glob))))) (\<lambda>(v, glob). if glob = None then ok_result (f v OpEqual)
      else ok_result (f v OpEqualGlob)) s = Some (y, r)"
  shows "\<exists>op x r'. f x op = Inr y \<and> s = op_text op (d x) @ r \<and> Q r' x \<and> (r' = r \<or> r' = CHR ''*'' # r)"
proof -
  obtain s1 x s2 where e: "expr s1 = Some (x, s2)" "s = CHR ''='' # s1"
    "case p_lit ''*'' s2 of None \<Rightarrow> f x OpEqual = Inr y \<and> r = s2
     | Some (_, s3) \<Rightarrow> f x OpEqualGlob = Inr y \<and> r = s3"
    using assms(2)
    by (auto simp: p_try_def p_then_def p_bind_def p_opt_def p_return_def p_lit_Some ok_result_def
        split: option.splits sum.splits)
  from e(2) expr [OF e(1)] have s: "s = CHR ''='' # d x @ s2" "Q s2 x" by simp_all
  show ?thesis
  proof (cases "p_lit ''*'' s2")
    case None
    with e(3) s show ?thesis
      by (intro exI [of _ OpEqual] exI [of _ x] exI [of _ s2]) (simp add: op_text_def)
  next
    case (Some z)
    then obtain w where "s2 = CHR ''*'' # w" "z = (''*'', w)" by (cases z) (auto simp: p_lit_Some)
    with e(3) s Some show ?thesis
      by (intro exI [of _ OpEqualGlob] exI [of _ x] exI [of _ s2]) (simp add: op_text_def)
  qed
qed

lemma p_with_op_SomeD:
  assumes "\<And>s x r. expr s = Some (x, r) \<Longrightarrow> s = d x @ r \<and> Q r x" and "p_with_op f expr s = Some (y, r)"
  shows "\<exists>op x r'. f x op = Inr y \<and> s = op_text op (d x) @ r \<and> Q r' x \<and> (r' = r \<or> r' = CHR ''*'' # r)"
proof -
  have lit: ?thesis if "p_try (p_then (p_lit w) expr) (\<lambda>v. ok_result (f v op)) s = Some (y, r)"
    "\<And>u. op_text op u = w @ u" for w op
    using p_try_lit_SomeD [of expr d Q w f op s y r, OF assms(1)] that by simp
  have glob: ?thesis if "p_try (p_then (p_lit ''='') (p_bind expr (\<lambda>v. p_bind (p_opt (p_lit ''*''))
      (\<lambda>glob. p_return (v, glob))))) (\<lambda>(v, glob). if glob = None then ok_result (f v OpEqual)
      else ok_result (f v OpEqualGlob)) s = Some (y, r)"
    using p_try_glob_SomeD [of expr d Q f s y r, OF assms(1)] that by simp
  show ?thesis
    using assms(2) unfolding p_with_op_def
    by (elim p_alt_SomeD [THEN disjE]) ((erule lit, simp add: op_text_def) | erule glob)+
qed

lemma p_with_op_prints:
  assumes expr: "prints expr d Q"
    and f: "\<And>x op y. Q x \<Longrightarrow> f x op = Inr y \<Longrightarrow> d' y = op_text op (d x) \<and> Q' y"
  shows "prints (p_with_op f expr) d' Q'"
proof (rule printsI)
  fix s y r assume "p_with_op f expr s = Some (y, r)"
  from p_with_op_SomeD [of expr d "\<lambda>_. Q", OF printsD [OF expr] this]
  obtain op x where "f x op = Inr y" "s = op_text op (d x) @ r" "Q x" by blast
  with f show "s = d' y @ r \<and> Q' y" by simp
qed

lemma p_with_op_reads:
  assumes x: "expr (d x @ t) = Some (x, t)" "expr (d x @ CHR ''*'' # t) = Some (x, CHR ''*'' # t)"
    and t: "t = [] \<or> hd t \<noteq> CHR ''*''" and d: "d x \<noteq> []" "hd (d x) \<noteq> CHR ''=''"
    and f: "f x op = Inr y"
  shows "p_with_op f expr (op_text op (d x) @ t) = Some (y, t)"
proof -
  obtain c u where c: "d x = c # u" "c \<noteq> CHR ''=''" using d by (cases "d x") auto
  have star: "p_lit ''*'' t = None" using t by (simp add: p_lit_hd)
  show ?thesis
    using x c f star
    by (cases op)
      (simp_all add: p_with_op_def op_text_def p_alt_def p_try_def p_then_def p_bind_def p_opt_def
        p_return_def p_lit_def starts_with_def ok_result_def)
qed

definition op_version :: "version \<Rightarrow> bool" where
  "op_version v \<longleftrightarrow> wf_version v \<and> ver_op v \<noteq> None"

lemma version_without_op_update [simp]: "version_without_op (v\<lparr>ver_op := o1\<rparr>) = version_without_op v"
  by (simp add: version_without_op_text)

lemma version_with_op_prints: "prints p_version_with_op version_display op_version"
  unfolding p_version_with_op_def
proof (rule p_with_op_prints [OF version_prints])
  fix v op w assume "plain_version v" "version_with_op v op = Inr w"
  then show "version_display w = op_text op (version_without_op v) \<and> op_version w"
    by (auto simp: version_with_op_def plain_version_def op_version_def wf_version_def version_display_op
        split: if_splits)
qed

lemma number_text_hd: "ns \<noteq> [] \<Longrightarrow> list_all wf_number ns \<Longrightarrow>
    join_with sep (map number_display ns) \<noteq> [] \<and> is_digit (hd (join_with sep (map number_display ns)))"
  using hd_number by (cases ns) (auto simp: join_with_Cons number_display_def)

lemma version_text_hd:
  assumes "wf_version v"
  shows "version_without_op v \<noteq> [] \<and> is_digit (hd (version_without_op v))"
proof -
  have "join_with ''.'' (map number_display (ver_numbers v)) \<noteq> [] \<and>
      is_digit (hd (join_with ''.'' (map number_display (ver_numbers v))))"
    using assms number_text_hd [of "ver_numbers v" "''.''"] by (simp add: wf_version_def)
  then show ?thesis by (simp add: version_without_op_text)
qed

lemma version_end_star: "version_end (CHR ''*'' # t)"
  by (simp add: version_end_def char_classes starts_with_def)

lemma op_version_reads:
  assumes t: "version_end t" "t = [] \<or> hd t \<noteq> CHR ''*''" and v: "op_version v"
  shows "p_version_with_op (version_display v @ t) = Some (v, t)"
proof -
  obtain op where op: "ver_op v = Some op" using v by (auto simp: op_version_def)
  let ?u = "v\<lparr>ver_op := None\<rparr>"
  have u: "plain_version ?u" using v by (auto simp: plain_version_def op_version_def wf_version_def)
  have "version_with_op ?u op = Inr (?u\<lparr>ver_op := Some op\<rparr>)"
    using v op by (auto simp: version_with_op_def op_version_def wf_version_def)
  moreover have "?u\<lparr>ver_op := Some op\<rparr> = v" using op by (cases v) simp
  ultimately have f: "version_with_op ?u op = Inr v" by simp
  have hd: "version_without_op ?u \<noteq> []" "hd (version_without_op ?u) \<noteq> CHR ''=''"
    using version_text_hd [of v] v by (auto simp: op_version_def is_digit_def)
  have "p_with_op version_with_op p_version (op_text op (version_without_op ?u) @ t) = Some (v, t)"
    by (rule p_with_op_reads [where d = version_without_op and x = "?u" and f = version_with_op and
        expr = p_version and op = op and t = t and y = v,
        OF readsD [OF version_reads [OF t(1)] u] readsD [OF version_reads [OF version_end_star] u] t(2) hd f])
  then show ?thesis
    using op by (simp add: p_version_with_op_def version_display_op)
qed

section \<open>Round trips of the constructors\<close>

lemma parse_version_iff: "parse_version s = Inr v \<longleftrightarrow> plain_version v \<and> s = version_display v"
proof
  assume "parse_version s = Inr v"
  then show "plain_version v \<and> s = version_display v"
    using printsD [OF version_prints, of s v "[]"]
    by (simp add: parse_version_def plain_version_def version_display_no_op)
next
  assume "plain_version v \<and> s = version_display v"
  then show "parse_version s = Inr v"
    using readsD [OF version_reads, of "[]" v]
    by (simp add: parse_version_def plain_version_def version_display_no_op)
qed

lemma parse_version_with_op_iff:
  "parse_version_with_op s = Inr v \<longleftrightarrow> op_version v \<and> s = version_display v"
proof
  assume "parse_version_with_op s = Inr v"
  then show "op_version v \<and> s = version_display v"
    using printsD [OF version_with_op_prints, of s v "[]"] by (simp add: parse_version_with_op_def)
next
  assume "op_version v \<and> s = version_display v"
  then show "parse_version_with_op s = Inr v"
    using op_version_reads [of "[]" v] by (simp add: parse_version_with_op_def)
qed

text \<open>\<open>Version::try_new\<close> looks at the first character to tell the two forms apart.\<close>

lemma version_display_hd:
  assumes "wf_version v"
  shows "version_display v \<noteq> [] \<and>
    (list_ex (\<lambda>op. starts_with (operator_as_ref op) [hd (version_display v)]) all_operators \<longleftrightarrow>
      ver_op v \<noteq> None)"
proof (cases "ver_op v")
  case None
  have "is_digit (hd (version_without_op v))" "version_without_op v \<noteq> []"
    using version_text_hd [OF assms] by simp_all
  moreover have "\<not> list_ex (\<lambda>op. starts_with (operator_as_ref op) [c]) all_operators" if "is_digit c" for c
    using that by (auto simp: all_operators_def starts_with_def is_digit_def)
  ultimately show ?thesis using None by (simp add: version_display_no_op)
next
  case (Some op)
  then show ?thesis
    by (cases op) (simp_all add: version_display_op op_text_def all_operators_def starts_with_def)
qed

lemma version_try_new_iff: "version_try_new s = Inr v \<longleftrightarrow> wf_version v \<and> s = version_display v"
proof
  assume "version_try_new s = Inr v"
  then show "wf_version v \<and> s = version_display v"
    by (auto simp: version_try_new_def parse_version_iff parse_version_with_op_iff plain_version_def
        op_version_def split: if_splits)
next
  assume v: "wf_version v \<and> s = version_display v"
  then show "version_try_new s = Inr v"
    using version_display_hd [of v]
    by (cases "ver_op v")
      (auto simp: version_try_new_def parse_version_iff parse_version_with_op_iff plain_version_def op_version_def)
qed

end
