(* ===== verification/Version_Intersect.thy ===== *)
theory Version_Intersect
  imports Version_Order
begin

text \<open>
  Intersection of operator-qualified versions: the match over the operator pairs is
  exhaustive (its \<open>unreachable!\<close> is), reflexive and symmetric; without globs it finds every
  pair of constraints that some version satisfies, and, up to two strict bounds that leave
  a gap, only such pairs. Globs are a preorder.
\<close>

section \<open>Globs\<close>

lemma number_starts_with_refl [simp]: "number_starts_with n n"
  by (simp add: number_starts_with_def)

lemma number_starts_with_trans:
  "number_starts_with n m \<Longrightarrow> number_starts_with m k \<Longrightarrow> number_starts_with n k"
  unfolding number_starts_with_def by (rule starts_with_trans)

lemma sw_numbers_refl [simp]: "sw_numbers ns ns = Some False"
  by (induction ns) simp_all

lemma sw_suffixes_refl [simp]: "sw_suffixes False ss ss = Some False"
proof (induction ss)
  case (Cons s ss)
  then show ?case by (cases "sfx_version s") simp_all
qed simp

lemma version_starts_with_refl: "version_starts_with v v"
proof -
  have "sw_letter False (ver_letter v) (ver_letter v) = Some False"
    by (cases "ver_letter v") simp_all
  moreover have "sw_revision False (version_revision v) (version_revision v)"
    by (cases "version_revision v") (simp_all add: revision_starts_with_def)
  ultimately show ?thesis by (simp add: version_starts_with_def)
qed

lemma sw_numbers_trans:
  "sw_numbers ns ms = Some b \<Longrightarrow> sw_numbers ms ks = Some c \<Longrightarrow> sw_numbers ns ks = Some (b \<or> c)"
proof (induction ns ms arbitrary: ks b c rule: sw_numbers.induct)
  case (1 n ns m ms)
  then show ?case
    by (cases ks) (auto split: if_splits intro: number_starts_with_trans)
next
  case (2 n ns)
  then show ?case by (cases ks) auto
next
  case 4
  then show ?case by (cases ks) auto
qed simp

lemma sw_letter_trans:
  "sw_letter b l m = Some b' \<Longrightarrow> sw_letter c m k = Some c' \<Longrightarrow> sw_letter (b \<or> c) l k = Some (b' \<or> c')"
  by (cases l; cases m; cases k) (auto split: if_splits)

lemma sw_suffix_version_trans:
  "sw_suffix_version b l m = Some b' \<Longrightarrow> sw_suffix_version c m k = Some c' \<Longrightarrow>
    sw_suffix_version (b \<or> c) l k = Some (b' \<or> c')"
  by (cases l; cases m; cases k) (auto split: if_splits intro: number_starts_with_trans)

lemma sw_suffixes_trans:
  "sw_suffixes b ss ts = Some b' \<Longrightarrow> sw_suffixes c ts us = Some c' \<Longrightarrow>
    sw_suffixes (b \<or> c) ss us = Some (b' \<or> c')"
proof (induction b ss ts arbitrary: c us b' c' rule: sw_suffixes.induct)
  case (1 b s ss t ts)
  from "1.prems"(1) obtain b1 where b: "\<not> b" "sfx_kind s = sfx_kind t"
    and b1: "sw_suffix_version b (sfx_version s) (sfx_version t) = Some b1"
    and rest: "sw_suffixes b1 ss ts = Some b'"
    by (auto split: if_splits option.splits)
  show ?case
  proof (cases us)
    case Nil
    with "1.prems"(2) show ?thesis by simp
  next
    case (Cons u us')
    with "1.prems"(2) obtain c1 where c: "\<not> c" "sfx_kind t = sfx_kind u"
      and c1: "sw_suffix_version c (sfx_version t) (sfx_version u) = Some c1"
      and rest': "sw_suffixes c1 ts us' = Some c'"
      by (auto split: if_splits option.splits)
    have "sw_suffix_version (b \<or> c) (sfx_version s) (sfx_version u) = Some (b1 \<or> c1)"
      by (rule sw_suffix_version_trans [OF b1 c1])
    moreover have "sw_suffixes (b1 \<or> c1) ss us' = Some (b' \<or> c')"
      using "1.IH" [OF _ b1 rest rest'] b by simp
    ultimately show ?thesis using b c Cons by simp
  qed
next
  case (2 b s ss)
  then show ?case by (cases us) auto
next
  case (4 b)
  then show ?case by (cases us) auto
qed simp

lemma sw_revision_trans:
  "sw_revision b l m \<Longrightarrow> sw_revision c m k \<Longrightarrow> sw_revision (b \<or> c) l k"
  by (cases l; cases m; cases k)
    (auto simp: revision_starts_with_def intro: number_starts_with_trans)

lemma version_starts_with_trans:
  assumes "version_starts_with u v" "version_starts_with v w"
  shows "version_starts_with u w"
proof -
  from assms(1) obtain b1 b2 b3 where
    u: "sw_numbers (ver_numbers u) (ver_numbers v) = Some b1"
       "sw_letter b1 (ver_letter u) (ver_letter v) = Some b2"
       "sw_suffixes b2 (ver_suffixes u) (ver_suffixes v) = Some b3"
       "sw_revision b3 (version_revision u) (version_revision v)"
    by (auto simp: version_starts_with_def split: option.splits)
  from assms(2) obtain c1 c2 c3 where
    v: "sw_numbers (ver_numbers v) (ver_numbers w) = Some c1"
       "sw_letter c1 (ver_letter v) (ver_letter w) = Some c2"
       "sw_suffixes c2 (ver_suffixes v) (ver_suffixes w) = Some c3"
       "sw_revision c3 (version_revision v) (version_revision w)"
    by (auto simp: version_starts_with_def split: option.splits)
  show ?thesis
    using sw_numbers_trans [OF u(1) v(1)] sw_letter_trans [OF u(2) v(2)]
      sw_suffixes_trans [OF u(3) v(3)] sw_revision_trans [OF u(4) v(4)]
    by (simp add: version_starts_with_def)
qed

section \<open>The match is exhaustive, reflexive and symmetric\<close>

lemma version_intersects_total: "version_intersects_checked v w \<noteq> None"
proof (cases "ver_op v"; cases "ver_op w")
  fix a b assume "ver_op v = Some a" "ver_op w = Some b"
  then show ?thesis
    by (cases a; cases b)
      (auto simp: version_intersects_checked_def ranged_def is_unbounded_def split: option.splits)
qed (simp_all add: version_intersects_checked_def)

lemma version_eq_refl: "wf_version v \<Longrightarrow> version_eq v v"
  using ver.refl by (simp add: version_eq_def version_ord_def)

lemma version_eq_sym: "wf_version v \<Longrightarrow> wf_version w \<Longrightarrow> version_eq v w \<longleftrightarrow> version_eq w v"
  using ver.sym_Equal by (auto simp: version_eq_def version_ord_def)

lemma non_op_eq_iff: "non_op_eq v w \<longleftrightarrow> non_op_cmp v w = Equal"
  by (simp add: non_op_eq_def non_op_cmp_def)

lemma non_op_eq_refl: "wf_version v \<Longrightarrow> non_op_eq v v"
  using non_op.refl by (simp add: non_op_eq_iff)

lemma non_op_eq_sym: "wf_version v \<Longrightarrow> wf_version w \<Longrightarrow> non_op_eq v w \<longleftrightarrow> non_op_eq w v"
  using non_op.sym_Equal by (auto simp: non_op_eq_iff)

lemma version_intersects_refl:
  assumes "wf_version v"
  shows "version_intersects v v"
proof (cases "ver_op v")
  case None
  then show ?thesis
    using assms by (simp add: version_intersects_def version_intersects_checked_def version_eq_refl)
next
  case (Some a)
  then show ?thesis
    using assms by (cases a)
      (simp_all add: version_intersects_def version_intersects_checked_def version_eq_refl
        is_unbounded_def non_op_eq_refl version_starts_with_refl)
qed

lemma version_intersects_sym:
  assumes "wf_version v" "wf_version w"
  shows "version_intersects v w \<longleftrightarrow> version_intersects w v"
proof (cases "ver_op v"; cases "ver_op w")
  fix a b assume "ver_op v = Some a" "ver_op w = Some b"
  then show ?thesis
    using version_eq_sym [OF assms] non_op_eq_sym [OF assms]
    by (cases a; cases b)
      (auto simp: version_intersects_def version_intersects_checked_def is_unbounded_def)
qed (use version_eq_sym [OF assms] in
      \<open>simp_all add: version_intersects_def version_intersects_checked_def\<close>)

section \<open>Versions that satisfy a constraint\<close>

text \<open>The specification: what a package version \<open>u\<close>, which has no operator, has to
  satisfy for the constraint \<open>v\<close>.\<close>

definition satisfies :: "version \<Rightarrow> version \<Rightarrow> bool" where
  "satisfies v u = (case ver_op v of None \<Rightarrow> non_op_eq u v | Some a \<Rightarrow> op_intersects a v u)"

definition base_cmp :: "version \<Rightarrow> version \<Rightarrow> ordering" where
  "base_cmp v w = version_cmp v w False False"

interpretation base: total_cmp wf_version base_cmp
  unfolding base_cmp_def [abs_def] by (rule total_cmp_version)

lemma non_revision_eq_iff: "non_revision_eq v w \<longleftrightarrow> base_cmp v w = Equal"
  by (simp add: non_revision_eq_def base_cmp_def)

lemma non_op_cmp_base:
  "wf_version v \<Longrightarrow> wf_version w \<Longrightarrow>
    non_op_cmp v w = ord_then (base_cmp v w) (revision_cmp (ver_revision v) (ver_revision w))"
  by (simp add: non_op_cmp_def base_cmp_def version_cmp_wf)

lemma version_ord_non_op:
  "wf_version v \<Longrightarrow> wf_version w \<Longrightarrow>
    version_ord v w = ord_then (non_op_cmp v w) (cmp_option cmp_lin (ver_op v) (ver_op w))"
  by (simp add: non_op_cmp_def version_ord_def version_cmp_wf)

lemma non_op_Equal_base: "wf_version v \<Longrightarrow> wf_version w \<Longrightarrow> non_op_cmp v w = Equal \<Longrightarrow> base_cmp v w = Equal"
  by (simp add: non_op_cmp_base)

lemma non_op_not_Greater_base:
  "wf_version v \<Longrightarrow> wf_version w \<Longrightarrow> non_op_cmp v w \<noteq> Greater \<Longrightarrow> base_cmp v w \<noteq> Greater"
  by (auto simp: non_op_cmp_base)

lemma version_eq_iff_same_op:
  "wf_version v \<Longrightarrow> wf_version w \<Longrightarrow> ver_op v = ver_op w \<Longrightarrow> version_eq v w \<longleftrightarrow> non_op_cmp v w = Equal"
  unfolding version_eq_def version_ord_def [symmetric]
  by (cases "ver_op w") (auto simp: version_ord_non_op)

lemma satisfies_intersects:
  "wf_version v \<Longrightarrow> wf_version u \<Longrightarrow> ver_op u = None \<Longrightarrow> satisfies v u \<longleftrightarrow> version_intersects v u"
  using version_eq_iff_same_op [of u v] version_eq_sym [of u v]
  by (cases "ver_op v")
    (auto simp: satisfies_def version_intersects_def version_intersects_checked_def non_op_eq_iff)

lemma op_intersects_cong:
  assumes "wf_version v" "wf_version u" "wf_version w" "non_op_cmp u w = Equal" "a \<noteq> OpEqualGlob"
  shows "op_intersects a v u = op_intersects a v w"
  using assms non_op.cong_left [of u w v] base.cong_left [of u w v] non_op_Equal_base [of u w]
  by (cases a) (simp_all add: non_op_eq_iff non_revision_eq_iff)

lemma approximate_revision:
  assumes "wf_version w" "ver_op w = Some OpApproximate"
  shows "ver_revision w = revision_default"
  using assms by (auto simp: wf_version_def wf_revision_def revision_is_empty_def number_is_empty_def wf_number_def)

lemma approximate_least:
  assumes "wf_version w" "ver_op w = Some OpApproximate" "wf_version u" "base_cmp u w = Equal"
  shows "non_op_cmp w u \<noteq> Greater"
proof -
  have "base_cmp w u = Equal" using assms base.sym_Equal by blast
  then show ?thesis
    using assms approximate_revision [OF assms(1,2)]
    by (simp add: non_op_cmp_base revision_cmp_def number_cmp_def revision_default_def number_default_def)
qed

lemma approximate_eq:
  assumes "wf_version v" "wf_version w" "ver_op v = Some OpApproximate" "ver_op w = Some OpApproximate"
  shows "version_eq v w \<longleftrightarrow> base_cmp v w = Equal"
  using assms approximate_revision [OF assms(1,3)] approximate_revision [OF assms(2,4)]
  by (simp add: version_eq_iff_same_op non_op_cmp_base revision_cmp_def number_cmp_def)

lemma ranged_approximate_complete:
  assumes wf: "wf_version v" "wf_version w" "wf_version u"
    and w: "ver_op w = Some OpApproximate" and a: "is_unbounded a"
    and vu: "op_intersects a v u" and wu: "base_cmp u w = Equal"
  shows "ranged v a w OpApproximate = Some True"
proof (cases "op_intersects a v w")
  case True
  then show ?thesis by (simp add: ranged_def)
next
  case False
  show ?thesis
  proof (cases "is_greater_op a")
    case True
    then have "non_op_cmp u v \<noteq> Less" "non_op_cmp w v \<noteq> Greater"
      using vu False a non_op.compose [OF wf(2) wf(1) wf(1)] by (cases a; auto)+
    then have "base_cmp v u \<noteq> Greater" "base_cmp w v \<noteq> Greater"
      using wf non_op.not_Greater non_op_not_Greater_base by blast+
    then have "base_cmp v w = Equal"
      using wf wu base.cong_right [OF wf(3) wf(2) wf(1)] base.Equal_iff [OF wf(1) wf(2)] by simp
    with True show ?thesis by (simp add: ranged_def non_revision_eq_iff)
  next
    case less: False
    have "non_op_cmp w u \<noteq> Greater" by (rule approximate_least [OF wf(2) w wf(3) wu])
    then have "op_intersects a v w"
      using vu less a non_op.compose [OF wf(2) wf(3) wf(1)] non_op.trans [OF wf(2) wf(3) wf(1)]
      by (cases a; cases "non_op_cmp w u") (auto simp: is_unbounded_def)
    with False show ?thesis by simp
  qed
qed

lemma opposite_bounds_complete:
  assumes wf: "wf_version v" "wf_version w" "wf_version u"
    and ab: "is_less_op a" "is_greater_op b"
    and vu: "op_intersects a v u" and wu: "op_intersects b w u"
  shows "op_intersects a v w \<and> op_intersects b w v"
proof -
  have uv: "non_op_cmp u v \<noteq> Greater" and uv': "a = OpLess \<Longrightarrow> non_op_cmp u v = Less"
    using ab vu by (cases a; simp)+
  have wu: "non_op_cmp w u \<noteq> Greater" and wu': "b = OpGreater \<Longrightarrow> non_op_cmp w u = Less"
    using ab wu non_op.not_Greater [OF wf(2,3)] non_op.flip_Less [OF wf(2,3)] by (cases b; simp)+
  have wv: "non_op_cmp w v \<noteq> Greater" by (rule non_op.trans [OF wf(2,3,1) wu uv])
  have wv': "non_op_cmp w v = Less" if "a = OpLess \<or> b = OpGreater"
    using that uv uv' wu wu' non_op.compose [OF wf(2,3,1) refl refl]
    by (cases "non_op_cmp w u"; cases "non_op_cmp u v") auto
  show ?thesis
    using ab wv wv' non_op.not_Greater [OF wf(2,1)] non_op.flip_Less [OF wf(2,1)]
    by (cases a; cases b) simp_all
qed

lemma version_intersects_complete:
  assumes wf: "wf_version v" "wf_version w" "wf_version u"
    and glob: "ver_op v \<noteq> Some OpEqualGlob" "ver_op w \<noteq> Some OpEqualGlob"
    and v: "satisfies v u" and w: "satisfies w u"
  shows "version_intersects v w"
proof (cases "ver_op v"; cases "ver_op w")
  assume n: "ver_op v = None" "ver_op w = None"
  then have "non_op_cmp v w = Equal"
    using v w wf non_op.trans_Equal [OF wf(1,3,2)] non_op.sym_Equal [OF wf(3,1)]
    by (simp add: satisfies_def non_op_eq_iff)
  with n wf show ?thesis
    by (simp add: version_intersects_def version_intersects_checked_def version_eq_iff_same_op)
next
  fix b assume n: "ver_op v = None" "ver_op w = Some b"
  with v w wf glob op_intersects_cong [OF wf(2,3,1)] show ?thesis
    by (simp add: satisfies_def non_op_eq_iff version_intersects_def version_intersects_checked_def)
next
  fix a assume n: "ver_op v = Some a" "ver_op w = None"
  with v w wf glob op_intersects_cong [OF wf(1,3,2)] show ?thesis
    by (simp add: satisfies_def non_op_eq_iff version_intersects_def version_intersects_checked_def)
next
  fix a b assume n: "ver_op v = Some a" "ver_op w = Some b"
  have ga: "a \<noteq> OpEqualGlob" "b \<noteq> OpEqualGlob" using glob n by auto
  have vu: "op_intersects a v u" and wu: "op_intersects b w u"
    using v w n by (simp_all add: satisfies_def)
  consider (down) "is_less_op a" "is_less_op b" | (up) "is_greater_op a" "is_greater_op b"
    | (du) "is_less_op a" "is_greater_op b" | (ud) "is_greater_op a" "is_less_op b"
    | (beq) "b = OpEqual" | (aeq) "a = OpEqual" | (tt) "a = OpApproximate" "b = OpApproximate"
    | (at) "a = OpApproximate" "is_unbounded b" | (bt) "b = OpApproximate" "is_unbounded a"
    using ga by (cases a; cases b) (auto simp: is_unbounded_def)
  then show ?thesis
  proof cases
    case du
    then show ?thesis using n opposite_bounds_complete [OF wf du vu wu]
      by (cases a; cases b) (simp_all add: version_intersects_def version_intersects_checked_def is_unbounded_def)
  next
    case ud
    then show ?thesis using n opposite_bounds_complete [OF wf(2,1,3) ud(2,1) wu vu]
      by (cases a; cases b) (simp_all add: version_intersects_def version_intersects_checked_def is_unbounded_def)
  next
    case beq
    then have "op_intersects a v w"
      using op_intersects_cong [OF wf(1,3,2) _ ga(1)] vu wu by (simp add: non_op_eq_iff)
    with beq n ga show ?thesis
      by (cases a) (simp_all add: version_intersects_def version_intersects_checked_def is_unbounded_def)
  next
    case aeq
    then have "op_intersects b w v"
      using op_intersects_cong [OF wf(2,3,1) _ ga(2)] vu wu by (simp add: non_op_eq_iff)
    with aeq n ga show ?thesis
      using non_op_eq_sym [OF wf(1,2)] by (cases b)
        (simp_all add: version_intersects_def version_intersects_checked_def is_unbounded_def)
  next
    case tt
    then have "base_cmp v w = Equal"
      using vu wu base.trans_Equal [OF wf(1,3,2)] base.sym_Equal [OF wf(3,1)]
      by (simp add: non_revision_eq_iff)
    with tt n wf approximate_eq [of v w] show ?thesis
      by (simp add: version_intersects_def version_intersects_checked_def is_unbounded_def)
  next
    case at
    then have "ranged w b v OpApproximate = Some True"
      using ranged_approximate_complete [OF wf(2,1,3) _ at(2) wu] n vu by (simp add: non_revision_eq_iff)
    with at n show ?thesis
      by (cases b) (simp_all add: version_intersects_def version_intersects_checked_def is_unbounded_def)
  next
    case bt
    then have "ranged v a w OpApproximate = Some True"
      using ranged_approximate_complete [OF wf _ bt(2) vu] n wu by (simp add: non_revision_eq_iff)
    with bt n show ?thesis
      by (cases a) (simp_all add: version_intersects_def version_intersects_checked_def is_unbounded_def)
  qed (use n in \<open>simp_all add: version_intersects_def version_intersects_checked_def\<close>)
qed

section \<open>Constraints that intersect have a common version\<close>

definition strip_op :: "version \<Rightarrow> version" where
  "strip_op v = v\<lparr>ver_op := None\<rparr>"

text \<open>A version just below and one just above: one more suffix, no revision.\<close>

definition extend_suffix :: "suffix_kind \<Rightarrow> version \<Rightarrow> version" where
  "extend_suffix k v = v\<lparr>ver_op := None,
     ver_suffixes := ver_suffixes v @ [\<lparr>sfx_kind = k, sfx_version = None\<rparr>],
     ver_revision := revision_default\<rparr>"

lemma strip_op_simps [simp]:
  "ver_op (strip_op v) = None" "ver_numbers (strip_op v) = ver_numbers v"
  "ver_letter (strip_op v) = ver_letter v" "ver_suffixes (strip_op v) = ver_suffixes v"
  "ver_revision (strip_op v) = ver_revision v"
  by (simp_all add: strip_op_def)

lemma wf_strip_op [simp]: "wf_version v \<Longrightarrow> wf_version (strip_op v)"
  by (simp add: wf_version_def)

lemma wf_extend_suffix [simp]: "wf_version v \<Longrightarrow> wf_version (extend_suffix k v)"
  by (simp add: wf_version_def extend_suffix_def wf_suffix_def wf_revision_def)

lemma cmp_strip_op [simp]:
  "wf_version v \<Longrightarrow> wf_version w \<Longrightarrow> non_op_cmp (strip_op v) w = non_op_cmp v w"
  "wf_version v \<Longrightarrow> wf_version w \<Longrightarrow> base_cmp (strip_op v) w = base_cmp v w"
  by (simp_all add: non_op_cmp_def base_cmp_def version_cmp_wf)

lemma suffixes_cmp_snoc:
  "suffixes_cmp (ss @ [s]) ss = (if sfx_kind s = P then Greater else Less)"
  by (induction ss) (simp_all add: suffix_ord.refl)

lemma extend_suffix_cmp:
  assumes "wf_version v"
  shows "non_op_cmp (extend_suffix k v) v = (if k = P then Greater else Less)"
proof -
  have "number_cmp (hd (ver_numbers v)) (hd (ver_numbers v)) = Equal"
    by (simp add: number_ord.refl)
  moreover have "cmp_list component_cmp (tl (ver_numbers v)) (tl (ver_numbers v)) = Equal"
    using assms total_cmp.refl [OF total_cmp_list [OF total_cmp_component]]
    by (auto dest: wf_version_numbers)
  moreover have "cmp_option cmp_char (ver_letter v) (ver_letter v) = Equal"
    using cmp_option_eq_iff [OF cmp_char_eq] by blast
  ultimately show ?thesis
    using assms wf_extend_suffix [OF assms, of k] suffixes_cmp_snoc [of "ver_suffixes v"]
    unfolding non_op_cmp_def by (subst version_cmp_wf) (simp_all add: extend_suffix_def)
qed

lemma extend_below:
  "wf_version v \<Longrightarrow> wf_version w \<Longrightarrow> non_op_cmp v w \<noteq> Greater \<Longrightarrow>
    non_op_cmp (extend_suffix Alpha v) w = Less"
  using non_op.compose [OF wf_extend_suffix _ _ extend_suffix_cmp refl, of v w Alpha]
  by (cases "non_op_cmp v w") simp_all

lemma extend_above:
  "wf_version v \<Longrightarrow> wf_version w \<Longrightarrow> non_op_cmp v w \<noteq> Less \<Longrightarrow>
    non_op_cmp (extend_suffix P v) w = Greater"
  using non_op.compose [OF wf_extend_suffix _ _ extend_suffix_cmp refl, of v w P]
  by (cases "non_op_cmp v w") simp_all

lemma less_op_satisfied: "is_less_op a \<Longrightarrow> non_op_cmp u v = Less \<Longrightarrow> op_intersects a v u"
  by (cases a) simp_all

lemma greater_op_satisfied: "is_greater_op a \<Longrightarrow> non_op_cmp u v = Greater \<Longrightarrow> op_intersects a v u"
  by (cases a) simp_all

definition common_version :: "version \<Rightarrow> version \<Rightarrow> version \<Rightarrow> bool" where
  "common_version v w u \<longleftrightarrow> wf_version u \<and> ver_op u = None \<and> satisfies v u \<and> satisfies w u"

lemma one_sided_common:
  assumes wf: "wf_version v" "wf_version w"
    and op: "ver_op v = Some a" "ver_op w = Some b"
    and dir: "is_less_op a \<and> is_less_op b \<or> is_greater_op a \<and> is_greater_op b"
  shows "\<exists>u. common_version v w u"
proof -
  define k where "k = (if is_less_op a then Alpha else P)"
  have vw: "non_op_cmp w v = ord_reverse (non_op_cmp v w)" by (rule non_op.flip [OF wf])
  have refl: "non_op_cmp v v = Equal" "non_op_cmp w w = Equal" by (simp_all add: non_op.refl wf)
  have ops: "ver_op (extend_suffix k x) = None" for x by (simp add: extend_suffix_def)
  define lo where "lo = (if (non_op_cmp v w \<noteq> Greater) = is_less_op a then v else w)"
  have "common_version v w (extend_suffix k lo)"
  proof (cases "is_less_op a")
    case True
    then have "is_less_op b" using dir by (cases a) auto
    with True show ?thesis
      using wf op vw refl extend_below [OF wf] extend_below [OF wf(2,1)] extend_below [OF wf(1,1)]
        extend_below [OF wf(2,2)]
      by (cases "non_op_cmp v w")
        (simp_all add: lo_def k_def common_version_def satisfies_def ops [unfolded k_def] less_op_satisfied
          extend_suffix_def [of Alpha, THEN arg_cong [of _ _ ver_op]])
  next
    case False
    then have "is_greater_op a" "is_greater_op b" using dir by auto
    with False show ?thesis
      using wf op vw refl extend_above [OF wf] extend_above [OF wf(2,1)] extend_above [OF wf(1,1)]
        extend_above [OF wf(2,2)]
      by (cases "non_op_cmp v w")
        (simp_all add: lo_def k_def common_version_def satisfies_def ops [unfolded k_def] greater_op_satisfied
          extend_suffix_def [of P, THEN arg_cong [of _ _ ver_op]])
  qed
  then show ?thesis by blast
qed

lemma op_intersects_strip:
  "wf_version v \<Longrightarrow> wf_version w \<Longrightarrow> a \<noteq> OpEqualGlob \<Longrightarrow> op_intersects a v (strip_op w) = op_intersects a v w"
  by (cases a) (simp_all add: non_op_eq_iff non_revision_eq_iff)

lemma op_intersects_self:
  "wf_version v \<Longrightarrow> a \<notin> {OpLess, OpGreater, OpEqualGlob} \<Longrightarrow> op_intersects a v (strip_op v)"
  using non_op.refl base.refl by (cases a) (simp_all add: non_op_eq_iff non_revision_eq_iff)

lemma strip_common:
  assumes "wf_version v" "wf_version w" "ver_op v = Some a" "ver_op w = Some b"
    and "a \<noteq> OpEqualGlob" "b \<notin> {OpLess, OpGreater, OpEqualGlob}" "op_intersects a v w"
  shows "common_version v w (strip_op w)" "common_version w v (strip_op w)"
  using assms op_intersects_strip [of v w a] op_intersects_self [of w b]
  by (simp_all add: common_version_def satisfies_def)

lemma common_version_sym: "common_version v w u = common_version w v u"
  by (auto simp: common_version_def)

text \<open>Two strict bounds may leave a gap, as \<open>>1-r1\<close> and \<open><1-r2\<close> do, and a strict
  lower bound at the greatest revision leaves no room in \<open>~\<close>; every other pair of
  glob-free constraints that the code lets intersect has a common version.\<close>

definition may_leave_gap :: "operator \<Rightarrow> operator \<Rightarrow> bool" where
  "may_leave_gap a b \<longleftrightarrow> (a, b) \<in> {(OpLess, OpGreater), (OpGreater, OpApproximate)}"

lemma version_intersects_sound:
  assumes wf: "wf_version v" "wf_version w"
    and op: "ver_op v = Some a" "ver_op w = Some b"
    and glob: "a \<noteq> OpEqualGlob" "b \<noteq> OpEqualGlob"
    and gap: "\<not> may_leave_gap a b" "\<not> may_leave_gap b a"
    and int: "version_intersects v w"
  shows "\<exists>u. common_version v w u"
proof -
  consider (same) "is_less_op a \<and> is_less_op b \<or> is_greater_op a \<and> is_greater_op b"
    | (beq) "b \<notin> {OpLess, OpGreater, OpEqualGlob}" "op_intersects a v w"
    | (aeq) "a \<notin> {OpLess, OpGreater, OpEqualGlob}" "op_intersects b w v"
    | (low) "a = OpGreaterOrEqual" "b = OpApproximate" "base_cmp w v = Equal"
    | (low') "b = OpGreaterOrEqual" "a = OpApproximate" "base_cmp v w = Equal"
  proof -
    have sym: "base_cmp w v = Equal \<longleftrightarrow> base_cmp v w = Equal"
      using base.sym_Equal [OF wf] base.sym_Equal [OF wf(2,1)] by blast
    have eq: "a = OpApproximate \<Longrightarrow> b = OpApproximate \<Longrightarrow> version_eq v w \<longleftrightarrow> base_cmp v w = Equal"
      using op wf approximate_eq [of v w] by simp
    have checked: "version_intersects_checked v w = Some True"
      using int by (simp add: version_intersects_def)
    note cases = same beq aeq low low'
    show ?thesis
    proof (rule ccontr)
      assume no: "\<not> thesis"
      have "\<not> (is_less_op a \<and> is_less_op b \<or> is_greater_op a \<and> is_greater_op b)"
        "b \<notin> {OpLess, OpGreater, OpEqualGlob} \<Longrightarrow> \<not> op_intersects a v w"
        "a \<notin> {OpLess, OpGreater, OpEqualGlob} \<Longrightarrow> \<not> op_intersects b w v"
        "a = OpGreaterOrEqual \<Longrightarrow> b = OpApproximate \<Longrightarrow> base_cmp v w \<noteq> Equal"
        "b = OpGreaterOrEqual \<Longrightarrow> a = OpApproximate \<Longrightarrow> base_cmp v w \<noteq> Equal"
        using no cases sym by blast+
      with checked op glob gap eq sym show False
        by (cases a; cases b)
          (simp_all add: version_intersects_checked_def is_unbounded_def ranged_def
            may_leave_gap_def non_revision_eq_iff split: if_splits)
    qed
  qed
  then show ?thesis
  proof cases
    case same
    then show ?thesis by (rule one_sided_common [OF wf op])
  next
    case beq
    then show ?thesis using strip_common [OF wf op glob(1)] by blast
  next
    case aeq
    then show ?thesis using strip_common [OF wf(2,1) op(2,1) glob(2)] by blast
  next
    case low
    then have "common_version v w (strip_op v)"
      using wf op op_intersects_self [of v a] base.sym_Equal [OF wf(2,1)]
      by (simp add: common_version_def satisfies_def non_revision_eq_iff)
    then show ?thesis by blast
  next
    case low'
    then have "common_version v w (strip_op w)"
      using wf op op_intersects_self [of w b] base.sym_Equal [OF wf]
      by (simp add: common_version_def satisfies_def non_revision_eq_iff)
    then show ?thesis by blast
  qed
qed

end
