(* ===== verification/Version_Props.thy ===== *)
theory Version_Props
  imports Version_Parse Version_Intersect
begin

text \<open>
  The properties of versions, over the lemmas of \<open>Version_Order\<close>,
  \<open>Version_Intersect\<close> and \<open>Version_Parse\<close>, each with a witness at parsed versions.
\<close>

text \<open>The version a string parses as, for the concrete inputs of witnesses.\<close>

definition parsed_version :: "string \<Rightarrow> version" where
  "parsed_version s = projr (version_try_new s)"

section \<open>Order and hash\<close>

text \<open>C1: on the versions the parsers build, the comparison of \<open>dep/version.rs\<close>, with or
  without revision and operator, never panics and is a total order: comparing the other way
  round reverses the outcome, and \<open>\<le>\<close> is transitive.\<close>

theorem version_cmp_total_order:
  assumes "wf_version v" "wf_version w" "wf_version x"
  shows "version_cmp_checked v w rv op = Some (version_cmp v w rv op) \<and>
    version_cmp v v rv op = Equal \<and>
    version_cmp w v rv op = ord_reverse (version_cmp v w rv op) \<and>
    \<not> (version_cmp v w rv op \<noteq> Greater \<and> version_cmp w x rv op \<noteq> Greater \<and>
       version_cmp v x rv op = Greater)"
  using assms version_cmp_checked_wf total_cmp.refl [OF total_cmp_version]
    total_cmp.flip [OF total_cmp_version, of v w] total_cmp.trans [OF total_cmp_version, of v w x]
  by blast

lemma version_cmp_total_order_witness:
  "version_cmp (parsed_version ''1.10'') (parsed_version ''1.9'') True True =
     ord_reverse (version_cmp (parsed_version ''1.9'') (parsed_version ''1.10'') True True)"
  using version_cmp_total_order [of "parsed_version ''1.9''" "parsed_version ''1.10''" "parsed_version ''1.1_p2''"]
  by (rule conjunct2 [THEN conjunct2, THEN conjunct1]) code_simp+

text \<open>Versions that compare as equal feed the same data to the hasher, whatever the
  spelling of their numbers.\<close>

lemma version_hash_agrees:
  assumes "wf_version v" "wf_version w" "version_eq v w"
  shows "hash_version v = hash_version w"
  by (rule version_eq_hash [OF assms])

section \<open>Intersection\<close>

text \<open>C2: \<open>Intersects for Version\<close> covers every pair of operators (its
  \<open>unreachable!\<close> is not reached), every constraint intersects itself and the order of the
  two does not matter.\<close>

theorem version_intersects_total_symmetric:
  assumes "wf_version v" "wf_version w"
  shows "version_intersects_checked v w \<noteq> None \<and> version_intersects v v \<and>
    (version_intersects v w \<longleftrightarrow> version_intersects w v)"
  using assms version_intersects_total version_intersects_refl version_intersects_sym by blast

lemma version_intersects_total_symmetric_witness:
  "version_intersects (parsed_version ''<1.2_alpha'') (parsed_version ''=1.2*'') \<longleftrightarrow>
   version_intersects (parsed_version ''=1.2*'') (parsed_version ''<1.2_alpha'')"
  by (rule version_intersects_total_symmetric [THEN conjunct2, THEN conjunct2]) code_simp+

text \<open>C3: intersection misses nothing: constraints other than globs that share a version
  intersect.\<close>

theorem version_intersects_if_common:
  assumes "wf_version v" "wf_version w" "wf_version u"
    and "ver_op v \<noteq> Some OpEqualGlob" "ver_op w \<noteq> Some OpEqualGlob"
    and "satisfies v u" "satisfies w u"
  shows "version_intersects v w"
  by (rule version_intersects_complete [OF assms])

lemma version_intersects_if_common_witness:
  "version_intersects (parsed_version ''>1.2'') (parsed_version ''~1.2.1'')"
  by (rule version_intersects_if_common [of _ _ "parsed_version ''1.2.1-r3''"]) code_simp+

text \<open>C4: intersection of constraints other than globs is tight: unless two strict bounds
  face each other, or a strict lower bound meets \<open>~\<close>, constraints that intersect are
  satisfied together by some version.\<close>

theorem version_intersects_has_common:
  assumes "wf_version v" "wf_version w" "ver_op v = Some a" "ver_op w = Some b"
    and "a \<noteq> OpEqualGlob" "b \<noteq> OpEqualGlob" "\<not> may_leave_gap a b" "\<not> may_leave_gap b a"
    and "version_intersects v w"
  shows "\<exists>u. wf_version u \<and> ver_op u = None \<and> satisfies v u \<and> satisfies w u"
  using version_intersects_sound [OF assms] by (simp add: common_version_def)

lemma version_intersects_has_common_witness:
  "\<exists>u. wf_version u \<and> ver_op u = None \<and>
     satisfies (parsed_version ''>=1.2'') u \<and> satisfies (parsed_version ''<1.3'') u"
  by (rule version_intersects_has_common [of _ _ OpGreaterOrEqual OpLess]) code_simp+

text \<open>The prefix test behind globs is a preorder, so that the glob of a version that
  matches a glob matches fewer versions.\<close>

lemma version_starts_with_preorder:
  assumes "version_starts_with u v" "version_starts_with v w"
  shows "version_starts_with u w \<and> version_starts_with u u"
  using version_starts_with_trans [OF assms] version_starts_with_refl by blast

lemma version_starts_with_preorder_witness:
  "version_starts_with (parsed_version ''1.2.3-r1'') (parsed_version ''1'') \<and>
   version_starts_with (parsed_version ''1.2.3-r1'') (parsed_version ''1.2.3-r1'')"
  by (rule version_starts_with_preorder [of _ "parsed_version ''1.2''"]) code_simp+

text \<open>The prefix test also applies to components that are not the last one: \<open>=1.2*\<close>
  matches \<open>10.2\<close>.\<close>

lemma glob_matches_longer_component:
  "version_intersects (parsed_version ''=1.2*'') (parsed_version ''10.2'')"
  by code_simp

text \<open>\<open>>2\<close> and \<open>=1*\<close> share the version 10 and are said not to intersect.\<close>

lemma glob_misses_longer_component:
  "satisfies (parsed_version ''>2'') (parsed_version ''10'') \<and>
   satisfies (parsed_version ''=1*'') (parsed_version ''10'') \<and>
   \<not> version_intersects (parsed_version ''>2'') (parsed_version ''=1*'')"
  by code_simp

text \<open>Two strict bounds are said to intersect with no version between them.\<close>

lemma strict_bounds_gap:
  "version_intersects (parsed_version ''>1-r1'') (parsed_version ''<1-r2'')"
  by code_simp

section \<open>Parsing\<close>

text \<open>C5: \<open>Version::try_new\<close> succeeds exactly on the printed forms of well-formed
  versions and returns the version printed, so that parsing and printing are inverse and no
  text is lost, operators and numbers of any spelling included.\<close>

theorem version_parse_print: "version_try_new s = Inr v \<longleftrightarrow> wf_version v \<and> s = version_display v"
  by (rule version_try_new_iff)

end
