(* ===== verification/Index_Set.thy ===== *)
theory Index_Set
  imports Prelude
begin

text \<open>
  Insertion-ordered sets. \<open>IndexSet\<close> is a type of the crate \<open>indexmap\<close>: a set is
  observed here as the list of its values in iteration order, the crate's operations are the
  fields of a record the model's definitions take as an argument, and the locale
  \<open>index_set\<close> states what the crate documents of them. \<open>SortedSet\<close>
  (\<open>types/sorted_set.rs\<close>) is modelled over that interface, and a reference
  implementation interprets it.
\<close>

section \<open>Values up to equality\<close>

text \<open>Rust compares set members with \<open>Eq\<close>, which for versions and what holds them is
  coarser than equality of the representation.\<close>

definition mem_by :: "('a \<Rightarrow> 'a \<Rightarrow> bool) \<Rightarrow> 'a \<Rightarrow> 'a list \<Rightarrow> bool" where
  "mem_by eq x xs \<longleftrightarrow> list_ex (\<lambda>y. eq y x) xs"

fun distinct_by :: "('a \<Rightarrow> 'a \<Rightarrow> bool) \<Rightarrow> 'a list \<Rightarrow> bool" where
  "distinct_by eq [] = True"
| "distinct_by eq (x # xs) \<longleftrightarrow> \<not> list_ex (\<lambda>y. eq x y \<or> eq y x) xs \<and> distinct_by eq xs"

lemma mem_by_Nil [simp]: "\<not> mem_by eq x []"
  and mem_by_Cons [simp]: "mem_by eq x (y # ys) \<longleftrightarrow> eq y x \<or> mem_by eq x ys"
  and mem_by_append [simp]: "mem_by eq x (xs @ ys) \<longleftrightarrow> mem_by eq x xs \<or> mem_by eq x ys"
  by (simp_all add: mem_by_def)

lemma mem_by_iff: "mem_by eq x xs \<longleftrightarrow> (\<exists>y \<in> set xs. eq y x)"
  by (auto simp: mem_by_def list_ex_iff)

lemma mem_by_eq [simp]: "mem_by (=) x xs \<longleftrightarrow> x \<in> set xs"
  by (auto simp: mem_by_iff)

lemma distinct_by_eq [simp]: "distinct_by (=) xs \<longleftrightarrow> distinct xs"
  by (induction xs) (auto simp: list_ex_iff)

lemma distinct_by_append:
  "distinct_by eq (xs @ ys) \<longleftrightarrow> distinct_by eq xs \<and> distinct_by eq ys \<and>
    (\<forall>x \<in> set xs. \<forall>y \<in> set ys. \<not> eq x y \<and> \<not> eq y x)"
  by (induction xs) (auto simp: list_ex_iff)

lemma distinct_by_nth:
  "distinct_by eq xs \<Longrightarrow> i < length xs \<Longrightarrow> j < length xs \<Longrightarrow> i \<noteq> j \<Longrightarrow> \<not> eq (xs ! i) (xs ! j)"
proof (induction xs arbitrary: i j)
  case (Cons x xs)
  then show ?case
    by (cases i; cases j) (auto simp: list_ex_iff dest: nth_mem)
qed simp

text \<open>The first of every group of equal values, in order.\<close>

definition add_new :: "('a \<Rightarrow> 'a \<Rightarrow> bool) \<Rightarrow> 'a list \<Rightarrow> 'a \<Rightarrow> 'a list" where
  "add_new eq xs x = (if mem_by eq x xs then xs else xs @ [x])"

definition firsts_by :: "('a \<Rightarrow> 'a \<Rightarrow> bool) \<Rightarrow> 'a list \<Rightarrow> 'a list" where
  "firsts_by eq = foldl (add_new eq) []"

lemma firsts_by_Nil [simp]: "firsts_by eq [] = []"
  and firsts_by_snoc: "firsts_by eq (xs @ [x]) = add_new eq (firsts_by eq xs) x"
  by (simp_all add: firsts_by_def)

lemma firsts_by_subset: "set (firsts_by eq xs) \<subseteq> set xs"
  by (induction xs rule: rev_induct) (auto simp: firsts_by_snoc add_new_def)

lemma list_all_firsts_by: "list_all P xs \<Longrightarrow> list_all P (firsts_by eq xs)"
  using firsts_by_subset by (fastforce simp: list_all_iff)

lemma mem_by_firsts_by:
  assumes "transp eq"
  shows "mem_by eq x (firsts_by eq xs) \<longleftrightarrow> mem_by eq x xs"
proof (induction xs rule: rev_induct)
  case (snoc y ys)
  show ?case
  proof (cases "mem_by eq y (firsts_by eq ys)")
    case True
    then obtain z where "z \<in> set (firsts_by eq ys)" "eq z y" by (auto simp: mem_by_iff)
    then have "eq y x \<Longrightarrow> mem_by eq x (firsts_by eq ys)"
      using transpD [OF assms, of z y x] by (auto simp: mem_by_iff)
    with True snoc show ?thesis by (auto simp: firsts_by_snoc add_new_def)
  qed (use snoc in \<open>simp add: firsts_by_snoc add_new_def\<close>)
qed simp

lemma firsts_by_eq_Nil_iff [simp]: "firsts_by eq xs = [] \<longleftrightarrow> xs = []"
  by (induction xs rule: rev_induct) (auto simp: firsts_by_snoc add_new_def)

lemma distinct_by_firsts_by:
  assumes "symp eq"
  shows "distinct_by eq (firsts_by eq xs)"
proof (induction xs rule: rev_induct)
  case (snoc x xs)
  have "\<not> eq y x \<Longrightarrow> \<not> eq x y" for y using assms by (meson sympD)
  then have "\<not> mem_by eq x ys \<Longrightarrow> distinct_by eq ys \<Longrightarrow> distinct_by eq (ys @ [x])" for ys
    unfolding distinct_by_append mem_by_iff by auto
  with snoc show ?case by (simp add: firsts_by_snoc add_new_def)
qed simp

lemma firsts_by_distinct: "distinct_by eq xs \<Longrightarrow> firsts_by eq xs = xs"
  by (induction xs rule: rev_induct)
    (auto simp: firsts_by_snoc add_new_def distinct_by_append mem_by_iff)

lemma set_firsts_by [simp]: "set (firsts_by (=) xs) = set xs"
  using mem_by_firsts_by [of "(=)" _ xs] by (auto simp: transp_def)

section \<open>The interface\<close>

text \<open>\<open>insert_full\<close>, \<open>get_index_of\<close>, \<open>swap_remove_index\<close> and
  \<open>shift_remove_index\<close>.\<close>

record 'a index_set =
  is_insert :: "'a list \<Rightarrow> 'a \<Rightarrow> 'a list \<times> nat \<times> bool"
  is_index_of :: "'a list \<Rightarrow> 'a \<Rightarrow> nat option"
  is_swap_remove :: "'a list \<Rightarrow> nat \<Rightarrow> 'a list \<times> 'a option"
  is_shift_remove :: "'a list \<Rightarrow> nat \<Rightarrow> 'a list \<times> 'a option"

locale index_set =
  fixes eq :: "'a \<Rightarrow> 'a \<Rightarrow> bool" and ix :: "'a index_set"
  assumes index_None: "is_index_of ix xs x = None \<longleftrightarrow> \<not> mem_by eq x xs"
    and index_Some: "is_index_of ix xs x = Some i \<Longrightarrow> i < length xs \<and> eq (xs ! i) x"
    and insert_new: "is_index_of ix xs x = None \<Longrightarrow> is_insert ix xs x = (xs @ [x], length xs, True)"
    and insert_old: "is_index_of ix xs x = Some i \<Longrightarrow> is_insert ix xs x = (xs, i, False)"
    and swap_remove: "i < length xs \<Longrightarrow> is_swap_remove ix xs i =
      ((if Suc i = length xs then butlast xs else butlast (xs[i := last xs])), Some (xs ! i))"
    and shift_remove: "i < length xs \<Longrightarrow> is_shift_remove ix xs i = (take i xs @ drop (Suc i) xs, Some (xs ! i))"

text \<open>\<open>FromIterator\<close> inserts the values one after the other.\<close>

definition is_collect :: "'a index_set \<Rightarrow> 'a list \<Rightarrow> 'a list" where
  "is_collect ix = foldl (\<lambda>s x. fst (is_insert ix s x)) []"

definition is_contains :: "'a index_set \<Rightarrow> 'a list \<Rightarrow> 'a \<Rightarrow> bool" where
  "is_contains ix xs x \<longleftrightarrow> is_index_of ix xs x \<noteq> None"

text \<open>\<open>intersection\<close>, \<open>difference\<close>, \<open>union\<close> and
  \<open>symmetric_difference\<close> keep the order of the left set, then of the right one.\<close>

definition is_intersection :: "'a index_set \<Rightarrow> 'a list \<Rightarrow> 'a list \<Rightarrow> 'a list" where
  "is_intersection ix xs ys = filter (is_contains ix ys) xs"

definition is_difference :: "'a index_set \<Rightarrow> 'a list \<Rightarrow> 'a list \<Rightarrow> 'a list" where
  "is_difference ix xs ys = filter (\<lambda>x. \<not> is_contains ix ys x) xs"

definition is_union :: "'a index_set \<Rightarrow> 'a list \<Rightarrow> 'a list \<Rightarrow> 'a list" where
  "is_union ix xs ys = xs @ is_difference ix ys xs"

definition is_symmetric_difference :: "'a index_set \<Rightarrow> 'a list \<Rightarrow> 'a list \<Rightarrow> 'a list" where
  "is_symmetric_difference ix xs ys = is_difference ix xs ys @ is_difference ix ys xs"

context index_set begin

lemma insert_add_new: "fst (is_insert ix xs x) = add_new eq xs x"
proof (cases "is_index_of ix xs x")
  case None
  then show ?thesis using index_None [of xs x] by (simp add: insert_new add_new_def)
next
  case (Some i)
  then have "mem_by eq x xs" using index_None [of xs x] by auto
  with Some show ?thesis by (simp add: insert_old add_new_def)
qed

lemma collect: "is_collect ix xs = firsts_by eq xs"
  by (simp add: is_collect_def firsts_by_def insert_add_new)

lemma contains: "is_contains ix xs x \<longleftrightarrow> mem_by eq x xs"
  by (simp add: is_contains_def index_None)

end

section \<open>A reference implementation\<close>

definition ref_index_of :: "('a \<Rightarrow> 'a \<Rightarrow> bool) \<Rightarrow> 'a list \<Rightarrow> 'a \<Rightarrow> nat option" where
  "ref_index_of eq xs x =
     (let i = length (takeWhile (\<lambda>y. \<not> eq y x) xs) in if i < length xs then Some i else None)"

definition ref_index_set :: "('a \<Rightarrow> 'a \<Rightarrow> bool) \<Rightarrow> 'a index_set" where
  "ref_index_set eq = \<lparr>
     is_insert = (\<lambda>xs x. case ref_index_of eq xs x of
        None \<Rightarrow> (xs @ [x], length xs, True) | Some i \<Rightarrow> (xs, i, False)),
     is_index_of = ref_index_of eq,
     is_swap_remove = (\<lambda>xs i. if i < length xs
        then ((if Suc i = length xs then butlast xs else butlast (xs[i := last xs])), Some (xs ! i))
        else (xs, None)),
     is_shift_remove = (\<lambda>xs i. if i < length xs
        then (take i xs @ drop (Suc i) xs, Some (xs ! i)) else (xs, None))\<rparr>"

lemma ref_index_of_Some: "ref_index_of eq xs x = Some i \<Longrightarrow> i < length xs \<and> eq (xs ! i) x"
  using nth_length_takeWhile [of "\<lambda>y. \<not> eq y x" xs]
  by (auto simp: ref_index_of_def Let_def split: if_splits)

lemma ref_index_of_None: "ref_index_of eq xs x = None \<longleftrightarrow> \<not> mem_by eq x xs"
proof -
  have "length (takeWhile (\<lambda>y. \<not> eq y x) xs) < length xs \<longleftrightarrow> (\<exists>y \<in> set xs. eq y x)"
    by (induction xs) auto
  then show ?thesis by (simp add: ref_index_of_def Let_def mem_by_iff)
qed

interpretation ref_set: index_set eq "ref_index_set eq" for eq
  by unfold_locales (auto simp: ref_index_set_def ref_index_of_None dest: ref_index_of_Some
      split: option.splits)

section \<open>SortedSet\<close>

definition shift_replace_index :: "'a index_set \<Rightarrow> 'a list \<Rightarrow> nat \<Rightarrow> 'a \<Rightarrow> 'a list \<times> 'a option" where
  "shift_replace_index ix s index v =
     (if index < length s then
        (case is_insert ix s v of
           (s', _, True) \<Rightarrow> is_swap_remove ix s' index
         | (s', idx, False) \<Rightarrow> if idx \<noteq> index then is_shift_remove ix s' index else (s', None))
      else (s, None))"

definition swap_replace_index :: "'a index_set \<Rightarrow> 'a list \<Rightarrow> nat \<Rightarrow> 'a \<Rightarrow> 'a list \<times> 'a option" where
  "swap_replace_index ix s index v =
     (if index < length s then
        (case is_insert ix s v of
           (s', _, True) \<Rightarrow> is_swap_remove ix s' index
         | (s', idx, False) \<Rightarrow> if idx \<noteq> index then is_swap_remove ix s' index else (s', None))
      else (s, None))"

definition shift_replace :: "'a index_set \<Rightarrow> 'a list \<Rightarrow> 'a \<Rightarrow> 'a \<Rightarrow> 'a list \<times> 'a option" where
  "shift_replace ix s key v =
     (case is_index_of ix s key of None \<Rightarrow> (s, None) | Some i \<Rightarrow> shift_replace_index ix s i v)"

definition swap_replace :: "'a index_set \<Rightarrow> 'a list \<Rightarrow> 'a \<Rightarrow> 'a \<Rightarrow> 'a list \<times> 'a option" where
  "swap_replace ix s key v =
     (case is_index_of ix s key of None \<Rightarrow> (s, None) | Some i \<Rightarrow> swap_replace_index ix s i v)"

context index_set begin

text \<open>A new value takes the place of the old one.\<close>

lemma replace_index_new:
  assumes "index < length s" "\<not> mem_by eq v s"
  shows "shift_replace_index ix s index v = (s[index := v], Some (s ! index))"
    and "swap_replace_index ix s index v = (s[index := v], Some (s ! index))"
  using assms
  by (simp_all add: shift_replace_index_def swap_replace_index_def index_None insert_new swap_remove
      list_update_append nth_append)

text \<open>A value the set already has stays where it is, and the old value leaves the set.\<close>

lemma shift_replace_index_old:
  assumes "index < length s" "is_index_of ix s v = Some idx" "idx \<noteq> index"
  shows "shift_replace_index ix s index v = (take index s @ drop (Suc index) s, Some (s ! index))"
  using assms by (simp add: shift_replace_index_def insert_old shift_remove)

lemma shift_replace_index_same:
  "is_index_of ix s v = Some index \<Longrightarrow> shift_replace_index ix s index v = (s, None)"
  using index_Some by (simp add: shift_replace_index_def insert_old)

lemma shift_replace_index_out: "\<not> index < length s \<Longrightarrow> shift_replace_index ix s index v = (s, None)"
  by (simp add: shift_replace_index_def)

end

end
