(* ===== verification/Shell_Scope.thy ===== *)
theory Shell_Scope
  imports Errors Index_Set
begin

text \<open>
  What an EAPI registers, from \<open>shell/\<close>: phases and their hooks (\<open>phase.rs\<close>,
  \<open>hooks.rs\<close>), operations (\<open>operations.rs\<close>), scopes (\<open>scope.rs\<close>), commands
  (\<open>commands.rs\<close>), build variables (\<open>environment.rs\<close>), \<open>econf\<close> options
  (\<open>commands/econf.rs\<close>) and metadata keys (\<open>pkg/ebuild/metadata.rs\<close>). A shell
  function of the program is represented by its Rust path; running it is not modelled.
\<close>

section \<open>Phases and hooks\<close>

datatype phase_kind =
    PkgConfig | PkgInfo | PkgNofetch | PkgPostinst | PkgPostrm | PkgPreinst | PkgPrerm
  | PkgPretend | PkgSetup | SrcCompile | SrcConfigure | SrcInstall | SrcPrepare | SrcTest
  | SrcUnpack

definition all_phase_kinds :: "phase_kind list" where
  "all_phase_kinds = [PkgConfig, PkgInfo, PkgNofetch, PkgPostinst, PkgPostrm, PkgPreinst, PkgPrerm,
     PkgPretend, PkgSetup, SrcCompile, SrcConfigure, SrcInstall, SrcPrepare, SrcTest, SrcUnpack]"

fun phase_kind_as_ref :: "phase_kind \<Rightarrow> string" where
  "phase_kind_as_ref PkgConfig = ''pkg_config''"
| "phase_kind_as_ref PkgInfo = ''pkg_info''"
| "phase_kind_as_ref PkgNofetch = ''pkg_nofetch''"
| "phase_kind_as_ref PkgPostinst = ''pkg_postinst''"
| "phase_kind_as_ref PkgPostrm = ''pkg_postrm''"
| "phase_kind_as_ref PkgPreinst = ''pkg_preinst''"
| "phase_kind_as_ref PkgPrerm = ''pkg_prerm''"
| "phase_kind_as_ref PkgPretend = ''pkg_pretend''"
| "phase_kind_as_ref PkgSetup = ''pkg_setup''"
| "phase_kind_as_ref SrcCompile = ''src_compile''"
| "phase_kind_as_ref SrcConfigure = ''src_configure''"
| "phase_kind_as_ref SrcInstall = ''src_install''"
| "phase_kind_as_ref SrcPrepare = ''src_prepare''"
| "phase_kind_as_ref SrcTest = ''src_test''"
| "phase_kind_as_ref SrcUnpack = ''src_unpack''"

text \<open>\<open>PhaseKind::name\<close>; \<open>None\<close> is its panic.\<close>

definition phase_kind_name :: "phase_kind \<Rightarrow> string option" where
  "phase_kind_name k = map_option snd (split_once (CHR ''_'') (phase_kind_as_ref k))"

definition phase_kind_eq :: "phase_kind \<Rightarrow> phase_kind \<Rightarrow> bool" where
  "phase_kind_eq k l \<longleftrightarrow> phase_kind_name k = phase_kind_name l"

definition phase_kind_cmp :: "phase_kind \<Rightarrow> phase_kind \<Rightarrow> ordering" where
  "phase_kind_cmp k l = cmp_option cmp_str (phase_kind_name k) (phase_kind_name l)"

datatype hook_kind = HookPre | HookPost

record hook =
  hook_name :: string
  hook_func :: string
  hook_priority :: nat

definition hook_cmp :: "hook \<Rightarrow> hook \<Rightarrow> ordering" where
  "hook_cmp h k = ord_then (cmp_lin (hook_priority h) (hook_priority k)) (cmp_str (hook_name h) (hook_name k))"

record hook_builder =
  hb_phase :: phase_kind
  hb_kind :: hook_kind
  hb_name :: string
  hb_func :: string
  hb_priority :: nat

definition hook_from :: "hook_builder \<Rightarrow> hook" where
  "hook_from b = \<lparr>hook_name = hb_name b, hook_func = hb_func b, hook_priority = hb_priority b\<rparr>"

definition phase_pre :: "phase_kind \<Rightarrow> string \<Rightarrow> string \<Rightarrow> hook_builder" where
  "phase_pre k name func =
     \<lparr>hb_phase = k, hb_kind = HookPre, hb_name = name, hb_func = func, hb_priority = 0\<rparr>"

definition phase_post :: "phase_kind \<Rightarrow> string \<Rightarrow> string \<Rightarrow> hook_builder" where
  "phase_post k name func =
     \<lparr>hb_phase = k, hb_kind = HookPost, hb_name = name, hb_func = func, hb_priority = 0\<rparr>"

text \<open>The hooks of one kind are a set keyed by their name; they are kept sorted.\<close>

record phase =
  ph_kind :: phase_kind
  ph_func :: "string option"
  ph_hooks :: "hook_kind \<rightharpoonup> (string \<rightharpoonup> hook)"

definition phase_func :: "phase_kind \<Rightarrow> string \<Rightarrow> phase" where
  "phase_func k func = \<lparr>ph_kind = k, ph_func = Some func, ph_hooks = Map.empty\<rparr>"

definition phase_from :: "phase_kind \<Rightarrow> phase" where
  "phase_from k = \<lparr>ph_kind = k, ph_func = None, ph_hooks = Map.empty\<rparr>"

section \<open>Operations\<close>

datatype operation_kind = BuildOp | InstallOp | UninstallOp | ReplaceOp

record operation =
  opn_kind :: operation_kind
  opn_phases :: "phase_kind list"

definition operation_phases :: "operation_kind \<Rightarrow> phase_kind list \<Rightarrow> operation" where
  "operation_phases k phases = \<lparr>opn_kind = k, opn_phases = firsts_by (=) phases\<rparr>"

section \<open>Scopes\<close>

text \<open>An eclass scope names the eclass it is in, when there is one.\<close>

datatype scope = Global | Eclass "string option" | Phase phase_kind

fun scope_as_ref :: "scope \<Rightarrow> string" where
  "scope_as_ref (Eclass e) = ''eclass''"
| "scope_as_ref Global = ''global''"
| "scope_as_ref (Phase p) = phase_kind_as_ref p"

datatype ebuild_scope =
  AllScopes | EclassScope | GlobalScope | PhasesScope | PkgScope | SrcScope | PhaseScope phase_kind

fun ebuild_scope_eq :: "ebuild_scope \<Rightarrow> scope \<Rightarrow> bool" where
  "ebuild_scope_eq AllScopes s = True"
| "ebuild_scope_eq EclassScope (Eclass e) = True"
| "ebuild_scope_eq GlobalScope Global = True"
| "ebuild_scope_eq PhasesScope (Phase p) = True"
| "ebuild_scope_eq PkgScope (Phase p) = starts_with (phase_kind_as_ref p) ''pkg_''"
| "ebuild_scope_eq SrcScope (Phase p) = starts_with (phase_kind_as_ref p) ''src_''"
| "ebuild_scope_eq (PhaseScope p) (Phase q) = phase_kind_eq p q"
| "ebuild_scope_eq es s = False"

fun ebuild_scope_iter :: "ebuild_scope \<Rightarrow> scope list" where
  "ebuild_scope_iter AllScopes = [Global] @ [Eclass None] @ map Phase all_phase_kinds"
| "ebuild_scope_iter EclassScope = [Eclass None]"
| "ebuild_scope_iter GlobalScope = [Global]"
| "ebuild_scope_iter PhasesScope = map Phase all_phase_kinds"
| "ebuild_scope_iter PkgScope =
     filter (\<lambda>k. starts_with (scope_as_ref k) ''pkg_'') (map Phase all_phase_kinds)"
| "ebuild_scope_iter SrcScope =
     filter (\<lambda>k. starts_with (scope_as_ref k) ''src_'') (map Phase all_phase_kinds)"
| "ebuild_scope_iter (PhaseScope p) = [Phase p]"

section \<open>Commands\<close>

record command =
  cmd_builtin :: string
  cmd_allowed :: "ebuild_scope set"
  cmd_die_on_failure :: bool

definition command_allowed_in :: "string \<Rightarrow> ebuild_scope list \<Rightarrow> command" where
  "command_allowed_in builtin scopes =
     \<lparr>cmd_builtin = builtin, cmd_allowed = set scopes, cmd_die_on_failure = True\<rparr>"

definition command_die :: "bool \<Rightarrow> command \<Rightarrow> command" where
  "command_die v c = c\<lparr>cmd_die_on_failure := v\<rparr>"

definition command_is_allowed :: "command \<Rightarrow> scope \<Rightarrow> bool" where
  "command_is_allowed c s \<longleftrightarrow> (\<exists>x \<in> cmd_allowed c. ebuild_scope_eq x s)"

definition command_is_phase :: "command \<Rightarrow> bool" where
  "command_is_phase c \<longleftrightarrow> cmd_builtin c \<in> set (map phase_kind_as_ref all_phase_kinds)"

section \<open>Build variables\<close>

datatype variable =
    V_CATEGORY | V_P | V_PF | V_PN | V_PR | V_PV | V_PVR
  | V_A | V_FILESDIR | V_DISTDIR | V_WORKDIR | V_S | V_PORTDIR | V_ECLASSDIR | V_ROOT | V_EROOT
  | V_SYSROOT | V_ESYSROOT | V_BROOT | V_T | V_TMPDIR | V_HOME | V_EPREFIX | V_D | V_ED
  | V_DESTTREE | V_INSDESTTREE | V_USE | V_EBUILD_PHASE | V_EBUILD_PHASE_FUNC | V_MERGE_TYPE
  | V_REPLACING_VERSIONS | V_REPLACED_BY_VERSION | V_DOCDESTTREE | V_EXEDESTTREE

record build_variable =
  bv_var :: variable
  bv_allowed :: "ebuild_scope set"
  bv_is_external :: bool

definition variable_allowed_in :: "variable \<Rightarrow> ebuild_scope list \<Rightarrow> build_variable" where
  "variable_allowed_in v scopes = \<lparr>bv_var = v, bv_allowed = set scopes, bv_is_external = False\<rparr>"

definition variable_from :: "variable \<Rightarrow> build_variable" where
  "variable_from v = \<lparr>bv_var = v, bv_allowed = {}, bv_is_external = False\<rparr>"

definition bv_allowed_in :: "ebuild_scope list \<Rightarrow> build_variable \<Rightarrow> build_variable" where
  "bv_allowed_in scopes b = b\<lparr>bv_allowed := bv_allowed b \<union> set scopes\<rparr>"

definition bv_external :: "build_variable \<Rightarrow> build_variable" where
  "bv_external b = b\<lparr>bv_is_external := True\<rparr>"

definition bv_is_static :: "build_variable \<Rightarrow> bool" where
  "bv_is_static b \<longleftrightarrow> bv_var b \<notin> {V_EBUILD_PHASE, V_EBUILD_PHASE_FUNC}"

definition bv_is_allowed :: "build_variable \<Rightarrow> scope \<Rightarrow> bool" where
  "bv_is_allowed b s \<longleftrightarrow> (\<exists>x \<in> bv_allowed b. ebuild_scope_eq x s)"

section \<open>Configure options and metadata keys\<close>

record econf_option =
  eo_option :: string
  eo_markers :: "string list"
  eo_value :: "string option"

definition econf_new :: "string \<Rightarrow> econf_option" where
  "econf_new opt = \<lparr>eo_option = opt, eo_markers = [opt], eo_value = None\<rparr>"

definition econf_markers :: "string list \<Rightarrow> econf_option \<Rightarrow> econf_option" where
  "econf_markers vals o1 = o1\<lparr>eo_markers := firsts_by (=) (eo_markers o1 @ vals)\<rparr>"

definition econf_value :: "string \<Rightarrow> econf_option \<Rightarrow> econf_option" where
  "econf_value v o1 = o1\<lparr>eo_value := Some v\<rparr>"

datatype key =
    K_BDEPEND | K_DEFINED_PHASES | K_DEPEND | K_DESCRIPTION | K_EAPI | K_HOMEPAGE | K_IDEPEND
  | K_INHERIT | K_IUSE | K_KEYWORDS | K_LICENSE | K_PDEPEND | K_PROPERTIES | K_RDEPEND
  | K_REQUIRED_USE | K_RESTRICT | K_SLOT | K_SRC_URI | K_INHERITED | K_CHKSUM

section \<open>Laws\<close>

lemma set_all_phase_kinds [simp]: "set all_phase_kinds = UNIV"
proof -
  have "k \<in> set all_phase_kinds" for k by (cases k) (simp_all add: all_phase_kinds_def)
  then show ?thesis by blast
qed

lemma phase_kind_name_Some: "phase_kind_name k \<noteq> None"
  by (cases k) (simp_all add: phase_kind_name_def)

text \<open>Phases are compared by the name without \<open>pkg_\<close> or \<open>src_\<close>, and no two
  phases share it.\<close>

lemma phase_kind_eq_iff: "phase_kind_eq k l \<longleftrightarrow> k = l"
  by (cases k; cases l) (simp_all add: phase_kind_eq_def phase_kind_name_def)

lemma ebuild_scope_iter_iff:
  "s \<in> set (ebuild_scope_iter es) \<longleftrightarrow> ebuild_scope_eq es s \<and> (case s of Eclass e \<Rightarrow> e = None | _ \<Rightarrow> True)"
  by (cases es; cases s) (auto simp: phase_kind_eq_iff)

end
