(* ===== verification/Eapi.thy ===== *)
theory Eapi
  imports Shell_Scope
begin

text \<open>
  EAPIs (\<open>eapi.rs\<close>): features, the builder steps of their registration, the tables of
  EAPI 5 to 8 and of the extended EAPI, and how EAPIs are looked up, ordered and ranged over.
  The sets an EAPI keeps sorted are keyed by what their members compare by, and are modelled as
  maps from that key, or as sets; the order in which they iterate is the order of the keys.
\<close>

section \<open>The EAPI object\<close>

datatype feature =
    QueryHostRoot
  | NonfatalDie | GlobalFailglob | UnpackExtendedPath | UnpackCaseInsensitive
  | DomoUsesDesttree | QueryDeps | TrailingSlash
  | ConsistentFileOpts | DosymRelative | SrcUriUnrestrict | UsevTwoArgs
  | RepoIds

record eapi =
  eapi_id :: string
  eapi_features :: "feature set"
  eapi_operations :: "operation_kind \<rightharpoonup> operation"
  eapi_phases :: "phase_kind \<rightharpoonup> phase"
  eapi_dep_keys :: "key set"
  eapi_incremental_keys :: "key set"
  eapi_mandatory_keys :: "key set"
  eapi_metadata_keys :: "key set"
  eapi_econf_options :: "string \<rightharpoonup> econf_option"
  eapi_archives :: "string set"
  eapi_env :: "variable \<rightharpoonup> build_variable"
  eapi_commands :: "string \<rightharpoonup> command"

definition eapi_default :: eapi where
  "eapi_default = \<lparr>eapi_id = [], eapi_features = {}, eapi_operations = Map.empty,
     eapi_phases = Map.empty, eapi_dep_keys = {}, eapi_incremental_keys = {},
     eapi_mandatory_keys = {}, eapi_metadata_keys = {}, eapi_econf_options = Map.empty,
     eapi_archives = {}, eapi_env = Map.empty, eapi_commands = Map.empty\<rparr>"

definition eapi_eq :: "eapi \<Rightarrow> eapi \<Rightarrow> bool" where
  "eapi_eq e f \<longleftrightarrow> eapi_id e = eapi_id f"

definition eapi_new :: "string \<Rightarrow> eapi option \<Rightarrow> eapi" where
  "eapi_new i parent = (case parent of None \<Rightarrow> eapi_default | Some e \<Rightarrow> e)\<lparr>eapi_id := i\<rparr>"

definition eapi_has :: "eapi \<Rightarrow> feature \<Rightarrow> bool" where
  "eapi_has e f \<longleftrightarrow> f \<in> eapi_features e"

text \<open>\<open>Eapi::operation\<close>; \<open>None\<close> is one of its panics.\<close>

definition eapi_operation :: "eapi \<Rightarrow> operation_kind \<Rightarrow> phase list option" where
  "eapi_operation e op =
     (case eapi_operations e op of
        None \<Rightarrow> None
      | Some operation \<Rightarrow> those (map (eapi_phases e) (opn_phases operation)))"

section \<open>Registration\<close>

text \<open>The builder steps; \<open>None\<close> is a panic or an \<open>unreachable!\<close>. A map keeps
  the member it has where the code extends a set, and takes the new one where it replaces.\<close>

type_synonym builder = "eapi \<Rightarrow> eapi option"

definition extend_map :: "('a \<Rightarrow> 'k) \<Rightarrow> ('k \<rightharpoonup> 'a) \<Rightarrow> 'a list \<Rightarrow> ('k \<rightharpoonup> 'a)" where
  "extend_map k m xs = foldl (\<lambda>m x. if m (k x) = None then m(k x \<mapsto> x) else m) m xs"

definition replace_map :: "('a \<Rightarrow> 'k) \<Rightarrow> ('k \<rightharpoonup> 'a) \<Rightarrow> 'a list \<Rightarrow> ('k \<rightharpoonup> 'a)" where
  "replace_map k m xs = foldl (\<lambda>m x. m(k x \<mapsto> x)) m xs"

fun remove_map :: "('k \<rightharpoonup> 'a) \<Rightarrow> 'k list \<Rightarrow> ('k \<rightharpoonup> 'a) option" where
  "remove_map m [] = Some m"
| "remove_map m (k # ks) = (if m k = None then None else remove_map (m(k := None)) ks)"

fun remove_set :: "'a set \<Rightarrow> 'a list \<Rightarrow> 'a set option" where
  "remove_set S [] = Some S"
| "remove_set S (x # xs) = (if x \<in> S then remove_set (S - {x}) xs else None)"

fun insert_set :: "'a set \<Rightarrow> 'a list \<Rightarrow> 'a set option" where
  "insert_set S [] = Some S"
| "insert_set S (x # xs) = (if x \<in> S then None else insert_set (insert x S) xs)"

definition update_commands :: "command list \<Rightarrow> builder" where
  "update_commands commands e =
     Some (e\<lparr>eapi_commands := extend_map cmd_builtin (eapi_commands e) commands\<rparr>)"

definition disable_commands :: "string list \<Rightarrow> builder" where
  "disable_commands commands e =
     map_option (\<lambda>m. e\<lparr>eapi_commands := m\<rparr>) (remove_map (eapi_commands e) commands)"

definition enable_features :: "feature list \<Rightarrow> builder" where
  "enable_features features e =
     map_option (\<lambda>S. e\<lparr>eapi_features := S\<rparr>) (insert_set (eapi_features e) features)"

definition disable_features :: "feature list \<Rightarrow> builder" where
  "disable_features features e =
     map_option (\<lambda>S. e\<lparr>eapi_features := S\<rparr>) (remove_set (eapi_features e) features)"

definition update_operations :: "operation list \<Rightarrow> builder" where
  "update_operations operations e =
     Some (e\<lparr>eapi_operations := replace_map opn_kind (eapi_operations e) operations\<rparr>)"

definition update_phases :: "phase list \<Rightarrow> builder" where
  "update_phases phases e = Some (e\<lparr>eapi_phases := replace_map ph_kind (eapi_phases e) phases\<rparr>)"

definition update_dep_keys :: "key list \<Rightarrow> builder" where
  "update_dep_keys updates e = Some (e\<lparr>eapi_dep_keys := eapi_dep_keys e \<union> set updates,
     eapi_metadata_keys := eapi_metadata_keys e \<union> set updates\<rparr>)"

definition update_incremental_keys :: "key list \<Rightarrow> builder" where
  "update_incremental_keys updates e =
     Some (e\<lparr>eapi_incremental_keys := eapi_incremental_keys e \<union> set updates\<rparr>)"

definition update_mandatory_keys :: "key list \<Rightarrow> builder" where
  "update_mandatory_keys updates e = Some (e\<lparr>eapi_mandatory_keys := eapi_mandatory_keys e \<union> set updates,
     eapi_metadata_keys := eapi_metadata_keys e \<union> set updates\<rparr>)"

definition update_metadata_keys :: "key list \<Rightarrow> builder" where
  "update_metadata_keys updates e =
     Some (e\<lparr>eapi_metadata_keys := eapi_metadata_keys e \<union> set updates\<rparr>)"

definition update_econf :: "econf_option list \<Rightarrow> builder" where
  "update_econf vals e =
     Some (e\<lparr>eapi_econf_options := replace_map eo_option (eapi_econf_options e) vals\<rparr>)"

definition enable_archives :: "string list \<Rightarrow> builder" where
  "enable_archives extensions e = Some (e\<lparr>eapi_archives := eapi_archives e \<union> set extensions\<rparr>)"

definition disable_archives :: "string list \<Rightarrow> builder" where
  "disable_archives extensions e =
     map_option (\<lambda>S. e\<lparr>eapi_archives := S\<rparr>) (remove_set (eapi_archives e) extensions)"

definition update_env :: "build_variable list \<Rightarrow> builder" where
  "update_env variables e = Some (e\<lparr>eapi_env := replace_map bv_var (eapi_env e) variables\<rparr>)"

definition disable_env :: "variable list \<Rightarrow> builder" where
  "disable_env variables e = map_option (\<lambda>m. e\<lparr>eapi_env := m\<rparr>) (remove_map (eapi_env e) variables)"

definition add_hook :: "hook_builder \<Rightarrow> phase \<Rightarrow> phase" where
  "add_hook b p =
     (let hooks = (case ph_hooks p (hb_kind b) of None \<Rightarrow> Map.empty | Some h \<Rightarrow> h)
      in p\<lparr>ph_hooks := (ph_hooks p)(hb_kind b \<mapsto> hooks(hb_name b \<mapsto> hook_from b))\<rparr>)"

fun update_hooks :: "hook_builder list \<Rightarrow> builder" where
  "update_hooks [] e = Some e"
| "update_hooks (b # bs) e =
     (case eapi_phases e (hb_phase b) of
        None \<Rightarrow> None
      | Some p \<Rightarrow> update_hooks bs (e\<lparr>eapi_phases := (eapi_phases e)(hb_phase b \<mapsto> add_hook b p)\<rparr>))"

definition registration :: "builder list \<Rightarrow> eapi \<Rightarrow> eapi option" where
  "registration steps e = foldl Option.bind (Some e) steps"

section \<open>The EAPIs\<close>

definition eapi5_commands :: "command list" where
  "eapi5_commands = [
    command_allowed_in ''adddeny'' [PhasesScope], command_allowed_in ''addpredict'' [PhasesScope],
    command_allowed_in ''addread'' [PhasesScope], command_allowed_in ''addwrite'' [PhasesScope],
    command_allowed_in ''assert'' [AllScopes],
    command_die False (command_allowed_in ''best_version'' [PhasesScope]),
    command_allowed_in ''command_not_found_handle'' [AllScopes],
    command_allowed_in ''debug_print'' [AllScopes],
    command_allowed_in ''debug_print_function'' [AllScopes],
    command_allowed_in ''debug_print_section'' [AllScopes],
    command_allowed_in ''default'' [PhasesScope],
    command_allowed_in ''default_pkg_nofetch'' [PhaseScope PkgNofetch],
    command_allowed_in ''default_src_compile'' [PhaseScope SrcCompile],
    command_allowed_in ''default_src_configure'' [PhaseScope SrcConfigure],
    command_allowed_in ''default_src_install'' [PhaseScope SrcInstall],
    command_allowed_in ''default_src_prepare'' [PhaseScope SrcPrepare],
    command_allowed_in ''default_src_test'' [PhaseScope SrcTest],
    command_allowed_in ''default_src_unpack'' [PhaseScope SrcUnpack],
    command_allowed_in ''die'' [AllScopes], command_allowed_in ''diropts'' [PhaseScope SrcInstall],
    command_allowed_in ''dobin'' [PhaseScope SrcInstall],
    command_allowed_in ''docinto'' [PhaseScope SrcInstall],
    command_allowed_in ''docompress'' [PhaseScope SrcInstall],
    command_allowed_in ''doconfd'' [PhaseScope SrcInstall],
    command_allowed_in ''dodir'' [PhaseScope SrcInstall],
    command_allowed_in ''dodoc'' [PhaseScope SrcInstall],
    command_allowed_in ''doenvd'' [PhaseScope SrcInstall],
    command_allowed_in ''doexe'' [PhaseScope SrcInstall],
    command_allowed_in ''doheader'' [PhaseScope SrcInstall],
    command_allowed_in ''dohtml'' [PhaseScope SrcInstall],
    command_allowed_in ''doinfo'' [PhaseScope SrcInstall],
    command_allowed_in ''doinitd'' [PhaseScope SrcInstall],
    command_allowed_in ''doins'' [PhaseScope SrcInstall],
    command_allowed_in ''dolib'' [PhaseScope SrcInstall],
    command_allowed_in ''dolib_a'' [PhaseScope SrcInstall],
    command_allowed_in ''dolib_so'' [PhaseScope SrcInstall],
    command_allowed_in ''doman'' [PhaseScope SrcInstall],
    command_allowed_in ''domo'' [PhaseScope SrcInstall],
    command_allowed_in ''dosbin'' [PhaseScope SrcInstall],
    command_allowed_in ''dosym'' [PhaseScope SrcInstall],
    command_allowed_in ''ebegin'' [PhasesScope],
    command_allowed_in ''econf'' [PhaseScope SrcConfigure],
    command_die False (command_allowed_in ''eend'' [PhasesScope]),
    command_allowed_in ''eerror'' [AllScopes], command_allowed_in ''einfo'' [AllScopes],
    command_allowed_in ''einfon'' [PhasesScope],
    command_allowed_in ''einstall'' [PhaseScope SrcInstall],
    command_allowed_in ''elog'' [PhasesScope], command_allowed_in ''emake'' [PhasesScope],
    command_allowed_in ''ewarn'' [AllScopes],
    command_allowed_in ''exeinto'' [PhaseScope SrcInstall],
    command_allowed_in ''exeopts'' [PhaseScope SrcInstall],
    command_allowed_in ''export_functions'' [EclassScope],
    command_allowed_in ''fowners'' [PhaseScope SrcInstall, PhaseScope PkgPreinst, PhaseScope PkgPostinst],
    command_allowed_in ''fperms'' [PhaseScope SrcInstall, PhaseScope PkgPreinst, PhaseScope PkgPostinst],
    command_die False (command_allowed_in ''has'' [AllScopes]),
    command_die False (command_allowed_in ''has_version'' [PhasesScope]),
    command_allowed_in ''hasq'' [AllScopes],
    command_die False (command_allowed_in ''hasv'' [AllScopes]),
    command_allowed_in ''inherit'' [GlobalScope, EclassScope],
    command_allowed_in ''insinto'' [PhaseScope SrcInstall],
    command_allowed_in ''insopts'' [PhaseScope SrcInstall],
    command_allowed_in ''into'' [PhaseScope SrcInstall],
    command_allowed_in ''keepdir'' [PhaseScope SrcInstall],
    command_allowed_in ''libopts'' [PhaseScope SrcInstall],
    command_allowed_in ''newbin'' [PhaseScope SrcInstall],
    command_allowed_in ''newconfd'' [PhaseScope SrcInstall],
    command_allowed_in ''newdoc'' [PhaseScope SrcInstall],
    command_allowed_in ''newenvd'' [PhaseScope SrcInstall],
    command_allowed_in ''newexe'' [PhaseScope SrcInstall],
    command_allowed_in ''newheader'' [PhaseScope SrcInstall],
    command_allowed_in ''newinitd'' [PhaseScope SrcInstall],
    command_allowed_in ''newins'' [PhaseScope SrcInstall],
    command_allowed_in ''newlib_a'' [PhaseScope SrcInstall],
    command_allowed_in ''newlib_so'' [PhaseScope SrcInstall],
    command_allowed_in ''newman'' [PhaseScope SrcInstall],
    command_allowed_in ''newsbin'' [PhaseScope SrcInstall],
    command_die False (command_allowed_in ''nonfatal'' [AllScopes]),
    command_allowed_in ''unpack'' [PhasesScope],
    command_die False (command_allowed_in ''use'' [PhasesScope]),
    command_die False (command_allowed_in ''use_enable'' [PhasesScope]),
    command_die False (command_allowed_in ''use_with'' [PhasesScope]),
    command_die False (command_allowed_in ''useq'' [PhasesScope]),
    command_die False (command_allowed_in ''usev'' [PhasesScope]),
    command_die False (command_allowed_in ''usex'' [PhasesScope]),
    command_die False (command_allowed_in ''pkg_config'' [AllScopes]),
    command_die False (command_allowed_in ''pkg_info'' [AllScopes]),
    command_die False (command_allowed_in ''pkg_nofetch'' [AllScopes]),
    command_die False (command_allowed_in ''pkg_postinst'' [AllScopes]),
    command_die False (command_allowed_in ''pkg_postrm'' [AllScopes]),
    command_die False (command_allowed_in ''pkg_preinst'' [AllScopes]),
    command_die False (command_allowed_in ''pkg_prerm'' [AllScopes]),
    command_die False (command_allowed_in ''pkg_pretend'' [AllScopes]),
    command_die False (command_allowed_in ''pkg_setup'' [AllScopes]),
    command_die False (command_allowed_in ''src_compile'' [AllScopes]),
    command_die False (command_allowed_in ''src_configure'' [AllScopes]),
    command_die False (command_allowed_in ''src_install'' [AllScopes]),
    command_die False (command_allowed_in ''src_prepare'' [AllScopes]),
    command_die False (command_allowed_in ''src_test'' [AllScopes]),
    command_die False (command_allowed_in ''src_unpack'' [AllScopes])]"

definition eapi5_variables :: "build_variable list" where
  "eapi5_variables = [
    variable_allowed_in V_A [SrcScope, PhaseScope PkgNofetch],
    variable_allowed_in V_CATEGORY [AllScopes],
    variable_allowed_in V_D [PhaseScope SrcInstall, PhaseScope PkgPreinst, PhaseScope PkgPostinst],
    variable_allowed_in V_DESTTREE [PhaseScope SrcInstall],
    variable_allowed_in V_DISTDIR [SrcScope, GlobalScope],
    variable_allowed_in V_EBUILD_PHASE [PhasesScope],
    variable_allowed_in V_EBUILD_PHASE_FUNC [PhasesScope],
    variable_allowed_in V_ECLASSDIR [SrcScope],
    variable_allowed_in V_ED [PhaseScope SrcInstall, PhaseScope PkgPreinst, PhaseScope PkgPostinst],
    variable_allowed_in V_EPREFIX [AllScopes], variable_allowed_in V_EROOT [PkgScope],
    variable_allowed_in V_FILESDIR [SrcScope, GlobalScope],
    bv_external (variable_allowed_in V_HOME [AllScopes]),
    variable_allowed_in V_INSDESTTREE [PhaseScope SrcInstall],
    variable_allowed_in V_MERGE_TYPE [PkgScope], variable_allowed_in V_P [AllScopes],
    variable_allowed_in V_PF [AllScopes], variable_allowed_in V_PN [AllScopes],
    variable_allowed_in V_PORTDIR [SrcScope], variable_allowed_in V_PR [AllScopes],
    variable_allowed_in V_PV [AllScopes], variable_allowed_in V_PVR [AllScopes],
    variable_allowed_in V_REPLACED_BY_VERSION [PhaseScope PkgPrerm, PhaseScope PkgPostrm],
    variable_allowed_in V_REPLACING_VERSIONS [PkgScope], variable_allowed_in V_ROOT [PkgScope],
    variable_allowed_in V_S [GlobalScope, SrcScope], variable_allowed_in V_T [AllScopes],
    bv_external (variable_allowed_in V_TMPDIR [AllScopes]), variable_allowed_in V_USE [AllScopes],
    variable_allowed_in V_WORKDIR [SrcScope, GlobalScope]]"

definition EAPI5 :: "eapi option" where
  "EAPI5 = registration [
     enable_features [DomoUsesDesttree, QueryHostRoot, TrailingSlash],
     update_commands eapi5_commands,
     update_phases [phase_from PkgConfig, phase_from PkgInfo, phase_func PkgNofetch ''eapi5::pkg_nofetch'',
      phase_from PkgPostinst, phase_from PkgPostrm, phase_from PkgPreinst, phase_from PkgPrerm,
      phase_from PkgPretend, phase_from PkgSetup, phase_func SrcCompile ''eapi5::src_compile'',
      phase_func SrcConfigure ''eapi5::src_configure'',
      phase_func SrcInstall ''eapi5::src_install'', phase_from SrcPrepare,
      phase_func SrcTest ''eapi5::src_test'', phase_func SrcUnpack ''eapi5::src_unpack''],
     update_operations [
      operation_phases BuildOp [PkgSetup, SrcUnpack, SrcPrepare, SrcConfigure, SrcCompile, SrcTest, SrcInstall],
      operation_phases InstallOp [PkgPreinst, PkgPostinst],
      operation_phases UninstallOp [PkgPrerm, PkgPostrm],
      operation_phases ReplaceOp [PkgPreinst, PkgPrerm, PkgPostrm, PkgPostinst]],
     update_dep_keys [K_DEPEND, K_RDEPEND, K_PDEPEND],
     update_incremental_keys [K_IUSE, K_DEPEND, K_RDEPEND, K_PDEPEND, K_REQUIRED_USE],
     update_mandatory_keys [K_DESCRIPTION, K_EAPI, K_SLOT],
     update_metadata_keys [K_CHKSUM, K_DEFINED_PHASES, K_HOMEPAGE, K_INHERIT, K_INHERITED, K_IUSE, K_KEYWORDS,
      K_LICENSE, K_PROPERTIES, K_REQUIRED_USE, K_RESTRICT, K_SRC_URI],
     enable_archives [''tar'', ''gz'', ''Z'', ''tar.gz'', ''tgz'', ''tar.Z'', ''bz2'', ''bz'', ''tar.bz2'',
      ''tbz2'', ''tar.bz'', ''tbz'', ''zip'', ''ZIP'', ''jar'', ''7z'', ''7Z'', ''rar'', ''RAR'',
      ''LHA'', ''LHa'', ''lha'', ''lzh'', ''a'', ''deb'', ''lzma'', ''tar.lzma'', ''tar.xz'', ''xz''],
     update_env eapi5_variables,
     update_env [variable_from V_DOCDESTTREE, variable_from V_EXEDESTTREE],
     update_econf [econf_new ''--disable-dependency-tracking'', econf_new ''--disable-silent-rules''],
     update_hooks [phase_pre SrcInstall ''docompress'' ''hooks::docompress::pre'',
      phase_post SrcInstall ''docompress'' ''hooks::docompress::post'']] (eapi_new ''5'' None)"

definition EAPI6 :: "eapi option" where
  "EAPI6 = Option.bind EAPI5 (\<lambda>parent. registration [
     enable_features [NonfatalDie, GlobalFailglob, UnpackExtendedPath, UnpackCaseInsensitive],
     update_commands [command_allowed_in ''eapply'' [PhaseScope SrcPrepare],
      command_allowed_in ''eapply_user'' [PhaseScope SrcPrepare],
      command_allowed_in ''einstalldocs'' [PhaseScope SrcInstall],
      command_allowed_in ''get_libdir'' [AllScopes],
      command_die False (command_allowed_in ''in_iuse'' [PhasesScope])],
     disable_commands [''einstall''],
     update_phases [phase_func SrcPrepare ''eapi6::src_prepare'', phase_func SrcInstall ''eapi6::src_install''],
     update_econf [econf_value ''${EPREFIX}/usr/share/doc/${PF}'' (econf_new ''--docdir''),
      econf_value ''${EPREFIX}/usr/share/doc/${PF}/html'' (econf_new ''--htmldir'')],
     enable_archives [''txz''],
     update_hooks [phase_post SrcPrepare ''eapply_user'' ''hooks::eapply_user::post'']] (eapi_new ''6'' (Some parent)))"

definition EAPI7 :: "eapi option" where
  "EAPI7 = Option.bind EAPI6 (\<lambda>parent. registration [
     enable_features [QueryDeps],
     disable_features [DomoUsesDesttree, QueryHostRoot, TrailingSlash],
     update_commands [command_allowed_in ''dostrip'' [PhaseScope SrcInstall],
      command_allowed_in ''eqawarn'' [AllScopes],
      command_die False (command_allowed_in ''ver_cut'' [AllScopes]),
      command_die False (command_allowed_in ''ver_rs'' [AllScopes]),
      command_die False (command_allowed_in ''ver_test'' [AllScopes])],
     disable_commands [''dohtml'', ''dolib'', ''libopts''],
     update_dep_keys [K_BDEPEND],
     update_incremental_keys [K_BDEPEND],
     update_econf [econf_value ''${ESYSROOT:-/}'' (econf_new ''--with-sysroot'')],
     update_env [
      bv_allowed_in [PhaseScope PkgSetup, PhaseScope PkgPreinst, PhaseScope PkgPostinst, PhaseScope PkgPrerm, PhaseScope PkgPostrm] (variable_allowed_in V_BROOT [SrcScope]),
      variable_allowed_in V_ESYSROOT [SrcScope, PhaseScope PkgSetup],
      variable_allowed_in V_SYSROOT [SrcScope, PhaseScope PkgSetup]],
     update_env [variable_from V_DESTTREE, variable_from V_INSDESTTREE],
     disable_env [V_PORTDIR, V_ECLASSDIR],
     update_hooks [phase_pre SrcInstall ''dostrip'' ''hooks::dostrip::pre'',
      phase_post SrcInstall ''dostrip'' ''hooks::dostrip::post'']] (eapi_new ''7'' (Some parent)))"

definition EAPI8 :: "eapi option" where
  "EAPI8 = Option.bind EAPI7 (\<lambda>parent. registration [
     enable_features [ConsistentFileOpts, DosymRelative, SrcUriUnrestrict, UsevTwoArgs],
     disable_commands [''hasq'', ''hasv'', ''useq''],
     update_dep_keys [K_IDEPEND],
     update_incremental_keys [K_IDEPEND, K_PROPERTIES, K_RESTRICT],
     update_econf [econf_value ''${EPREFIX}/usr/share'' (econf_new ''--datarootdir''),
      econf_markers [''--enable-static''] (econf_new ''--disable-static'')],
     disable_archives [''7z'', ''7Z'', ''rar'', ''RAR'', ''LHA'', ''LHa'', ''lha'', ''lzh'']] (eapi_new ''8'' (Some parent)))"

definition EAPI_PKGCRAFT :: "eapi option" where
  "EAPI_PKGCRAFT = Option.bind EAPI8 (\<lambda>parent. registration [
     enable_features [RepoIds]] (eapi_new ''pkgcraft'' (Some parent)))"

definition OLD_EAPIS :: "string list" where
  "OLD_EAPIS = [''0'', ''1'', ''2'', ''3'', ''4'']"

text \<open>The statics are forced when they are first used; registration does not panic
  (\<open>registration_succeeds\<close>).\<close>

definition EAPIS_OFFICIAL :: "eapi list" where
  "EAPIS_OFFICIAL = map the [EAPI5, EAPI6, EAPI7, EAPI8]"

definition EAPIS_UNOFFICIAL :: "eapi list" where
  "EAPIS_UNOFFICIAL = [the EAPI_PKGCRAFT]"

definition EAPIS :: "eapi list" where
  "EAPIS = EAPIS_OFFICIAL @ EAPIS_UNOFFICIAL"

definition default_eapi :: eapi where
  "default_eapi = the EAPI_PKGCRAFT"

text \<open>\<open>EAPIS.get_index_of\<close> by identifier.\<close>

fun id_index :: "eapi list \<Rightarrow> string \<Rightarrow> nat option" where
  "id_index [] s = None"
| "id_index (e # es) s = (if eapi_id e = s then Some 0 else map_option Suc (id_index es s))"

definition eapis_index_of :: "string \<Rightarrow> nat option" where
  "eapis_index_of = id_index EAPIS"

text \<open>\<open>Ord for Eapi\<close>; \<open>None\<close> is the panic of an EAPI that is not registered.\<close>

definition eapi_cmp :: "eapi \<Rightarrow> eapi \<Rightarrow> ordering option" where
  "eapi_cmp e f = (case (eapis_index_of (eapi_id e), eapis_index_of (eapi_id f)) of
     (Some i, Some j) \<Rightarrow> Some (cmp_lin i j) | _ \<Rightarrow> None)"

section \<open>Identifiers\<close>

definition id_first :: "char \<Rightarrow> bool" where
  "id_first c \<longleftrightarrow> is_lower c \<or> is_upper c \<or> is_digit c \<or> c = CHR ''_''"

definition id_more :: "char \<Rightarrow> bool" where
  "id_more c \<longleftrightarrow> id_first c \<or> c \<in> set ''+_.-''"

definition p_eapi :: "string parser" where
  "p_eapi = p_name id_first id_more"

definition p_single_quotes :: "'a parser \<Rightarrow> 'a parser" where
  "p_single_quotes expr = p_then (p_lit [CHR 39]) (p_before expr (p_lit [CHR 39]))"

definition p_double_quotes :: "'a parser \<Rightarrow> 'a parser" where
  "p_double_quotes expr = p_then (p_lit [CHR 34]) (p_before expr (p_lit [CHR 34]))"

definition p_optionally_quoted :: "'a parser \<Rightarrow> 'a parser" where
  "p_optionally_quoted expr = p_alt expr (p_alt (p_double_quotes expr) (p_single_quotes expr))"

definition p_eapi_value :: "string parser" where
  "p_eapi_value = p_optionally_quoted p_eapi"

definition parse_value :: "string \<Rightarrow> error + string" where
  "parse_value s = (case p_run p_eapi_value s of None \<Rightarrow> Inl (InvalidValue ''invalid EAPI'' s) | Some x \<Rightarrow> Inr x)"

definition eapi_parse :: "string \<Rightarrow> error + unit" where
  "eapi_parse s = (case p_run p_eapi s of None \<Rightarrow> Inl (InvalidValue ''invalid EAPI'' s) | Some x \<Rightarrow> Inr ())"

definition eapi_from_str :: "string \<Rightarrow> error + eapi" where
  "eapi_from_str s =
     (case eapis_index_of s of
        Some i \<Rightarrow> Inr (EAPIS ! i)
      | None \<Rightarrow>
          (case eapi_parse s of
             Inr _ \<Rightarrow> Inl (InvalidValue ''unsupported EAPI'' s)
           | Inl _ \<Rightarrow> Inl (InvalidValue ''invalid EAPI'' s)))"

definition eapi_try_from_option :: "string option \<Rightarrow> error + eapi" where
  "eapi_try_from_option v = (case v of None \<Rightarrow> Inr default_eapi | Some s \<Rightarrow> eapi_from_str s)"

text \<open>Reading a file is an effect of the system; its outcome is an argument.\<close>

datatype read_result = ReadOk string | ReadNotFound | ReadFailed string

definition eapi_try_from_path :: "string \<Rightarrow> read_result \<Rightarrow> error + eapi" where
  "eapi_try_from_path path r =
     (case r of
        ReadOk s \<Rightarrow> eapi_from_str (trim_end s)
      | ReadNotFound \<Rightarrow> Inl (InvalidValue ''unsupported EAPI'' ''0'')
      | ReadFailed e \<Rightarrow> Inl (IOError ''failed reading EAPI'' path))"

section \<open>Ranges\<close>

definition range_index :: "string \<Rightarrow> string \<Rightarrow> error + nat" where
  "range_index rng s =
     (if s = ''U'' then
        Inr (the (eapis_index_of (eapi_id (hd EAPIS_UNOFFICIAL))))
      else (case eapis_index_of s of
          Some i \<Rightarrow> Inr i
        | None \<Rightarrow> if s \<in> set OLD_EAPIS then Inr 0 else Inl (InvalidValue ''invalid EAPI range'' rng)))"

text \<open>\<open>split_once\<close> with a string.\<close>

fun split_once_str :: "string \<Rightarrow> string \<Rightarrow> (string \<times> string) option" where
  "split_once_str p [] = (if p = [] then Some ([], []) else None)"
| "split_once_str p (x # s) =
     (if starts_with (x # s) p then Some ([], drop (length p) (x # s))
      else map_option (\<lambda>(a, b). (x # a, b)) (split_once_str p s))"

definition range_bounds :: "string \<Rightarrow> error + (bool \<times> nat \<times> nat)" where
  "range_bounds s =
     (let err = Inl (InvalidValue ''invalid EAPI range'' s);
          parts = (case split_once_str ''..='' s of
                     Some (a, b) \<Rightarrow> Some (True, a, b)
                   | None \<Rightarrow> map_option (\<lambda>(a, b). (False, a, b)) (split_once_str ''..'' s))
      in case parts of
           None \<Rightarrow> err
         | Some (inclusive, start, end) \<Rightarrow>
             if start = [] \<and> end = [] \<and> \<not> inclusive then Inr (inclusive, 0, length EAPIS)
             else if start = [] \<and> end \<noteq> [] then
               (case range_index s end of Inl e \<Rightarrow> Inl e | Inr j \<Rightarrow> Inr (inclusive, 0, j))
             else if start \<noteq> [] \<and> end = [] \<and> \<not> inclusive then
               (case range_index s start of Inl e \<Rightarrow> Inl e | Inr i \<Rightarrow> Inr (inclusive, i, length EAPIS))
             else if start \<noteq> [] \<and> end \<noteq> [] then
               (case range_index s start of Inl e \<Rightarrow> Inl e | Inr i \<Rightarrow>
                 (case range_index s end of Inl e \<Rightarrow> Inl e | Inr j \<Rightarrow> Inr (inclusive, i, j)))
             else err)"

definition eapi_range :: "string \<Rightarrow> error + eapi list" where
  "eapi_range s =
     (case range_bounds s of
        Inl e \<Rightarrow> Inl e
      | Inr (inclusive, i, j) \<Rightarrow>
          Inr (map ((!) EAPIS) (if inclusive then [i..<Suc j] else [i..<j])))"

end
