(* ===== verification/Eapi_Props.thy ===== *)
theory Eapi_Props
  imports Eapi
begin

text \<open>
  The properties of EAPI registration, lookup and ranges. The tables are evaluated once per
  EAPI; what holds of every EAPI follows from them.
\<close>

section \<open>Frames of the builder steps\<close>

named_theorems builder_id "steps that keep the identifier"

definition keeps_id :: "builder \<Rightarrow> bool" where
  "keeps_id b \<longleftrightarrow> (\<forall>e e'. b e = Some e' \<longrightarrow> eapi_id e' = eapi_id e)"

lemma keeps_id_updates [builder_id]:
  "keeps_id (update_commands cs)" "keeps_id (disable_commands ns)" "keeps_id (enable_features fs)"
  "keeps_id (disable_features fs)" "keeps_id (update_operations ops)" "keeps_id (update_phases ps)"
  "keeps_id (update_dep_keys ks)" "keeps_id (update_incremental_keys ks)"
  "keeps_id (update_mandatory_keys ks)" "keeps_id (update_metadata_keys ks)"
  "keeps_id (update_econf os)" "keeps_id (enable_archives xs)" "keeps_id (disable_archives xs)"
  "keeps_id (update_env vs)" "keeps_id (disable_env ws)"
  by (auto simp: keeps_id_def update_commands_def disable_commands_def enable_features_def
      disable_features_def update_operations_def update_phases_def update_dep_keys_def
      update_incremental_keys_def update_mandatory_keys_def update_metadata_keys_def update_econf_def
      enable_archives_def disable_archives_def update_env_def disable_env_def)

lemma keeps_id_hooks [builder_id]: "keeps_id (update_hooks bs)"
proof -
  have "update_hooks bs e = Some e' \<Longrightarrow> eapi_id e' = eapi_id e" for e e'
    by (induction bs e rule: update_hooks.induct) (auto split: option.splits)
  then show ?thesis by (simp add: keeps_id_def)
qed

lemma foldl_bind_None [simp]: "foldl Option.bind None steps = None"
  by (induction steps) simp_all

lemma registration_id: "registration steps e = Some e' \<Longrightarrow> list_all keeps_id steps \<Longrightarrow> eapi_id e' = eapi_id e"
proof (induction steps arbitrary: e)
  case (Cons b bs)
  then obtain e1 where "b e = Some e1" by (cases "b e") (simp_all add: registration_def)
  with Cons show ?case by (auto simp: registration_def keeps_id_def)
qed (simp add: registration_def)

lemma eapi_ids:
  "EAPI5 = Some e \<Longrightarrow> eapi_id e = ''5''"
  "EAPI6 = Some e \<Longrightarrow> eapi_id e = ''6''"
  "EAPI7 = Some e \<Longrightarrow> eapi_id e = ''7''"
  "EAPI8 = Some e \<Longrightarrow> eapi_id e = ''8''"
  "EAPI_PKGCRAFT = Some e \<Longrightarrow> eapi_id e = ''pkgcraft''"
  unfolding EAPI5_def EAPI6_def EAPI7_def EAPI8_def EAPI_PKGCRAFT_def bind_eq_Some_conv
  by (auto dest!: registration_id simp: builder_id eapi_new_def)

section \<open>The tables\<close>

lemma EAPI_PKGCRAFT_registered: "EAPI_PKGCRAFT \<noteq> None"
  by code_simp

lemma registered:
  "\<exists>e. EAPI5 = Some e" "\<exists>e. EAPI6 = Some e" "\<exists>e. EAPI7 = Some e" "\<exists>e. EAPI8 = Some e"
  "\<exists>e. EAPI_PKGCRAFT = Some e"
  using EAPI_PKGCRAFT_registered
  by (auto simp: EAPI_PKGCRAFT_def EAPI8_def [unfolded bind_eq_Some_conv]
      EAPI7_def EAPI6_def bind_eq_Some_conv split: Option.bind_splits)

lemma features_table:
  "map_option eapi_features EAPI5 = Some {DomoUsesDesttree, QueryHostRoot, TrailingSlash}"
  "map_option eapi_features EAPI6 = Some {DomoUsesDesttree, QueryHostRoot, TrailingSlash, NonfatalDie,
     GlobalFailglob, UnpackExtendedPath, UnpackCaseInsensitive}"
  "map_option eapi_features EAPI7 = Some {QueryDeps, NonfatalDie, GlobalFailglob, UnpackExtendedPath,
     UnpackCaseInsensitive}"
  "map_option eapi_features EAPI8 = Some {QueryDeps, NonfatalDie, GlobalFailglob, UnpackExtendedPath,
     UnpackCaseInsensitive, ConsistentFileOpts, DosymRelative, SrcUriUnrestrict, UsevTwoArgs}"
  "map_option eapi_features EAPI_PKGCRAFT = Some {QueryDeps, NonfatalDie, GlobalFailglob,
     UnpackExtendedPath, UnpackCaseInsensitive, ConsistentFileOpts, DosymRelative, SrcUriUnrestrict,
     UsevTwoArgs, RepoIds}"
  by code_simp+

definition hook_names_present :: "eapi option \<Rightarrow> phase_kind \<Rightarrow> hook_kind \<Rightarrow> string list \<Rightarrow> bool list" where
  "hook_names_present e k hk names =
     (case Option.bind e (\<lambda>e. eapi_phases e k) of
        None \<Rightarrow> []
      | Some p \<Rightarrow> map (\<lambda>n. case ph_hooks p hk of None \<Rightarrow> False | Some m \<Rightarrow> m n \<noteq> None) names)"

lemma hooks_table:
  "hook_names_present EAPI5 SrcInstall HookPre [''docompress'', ''dostrip''] = [True, False]"
  "hook_names_present EAPI6 SrcInstall HookPre [''docompress'', ''dostrip''] = [False, False]"
  "hook_names_present EAPI7 SrcInstall HookPre [''docompress'', ''dostrip''] = [False, True]"
  "hook_names_present EAPI8 SrcInstall HookPre [''docompress'', ''dostrip''] = [False, True]"
  by code_simp+

definition operations_defined :: "eapi option \<Rightarrow> bool" where
  "operations_defined e = (case e of None \<Rightarrow> False | Some e \<Rightarrow>
     list_all (\<lambda>op. eapi_operation e op \<noteq> None) [BuildOp, InstallOp, UninstallOp, ReplaceOp])"

lemma operations_table:
  "operations_defined EAPI5" "operations_defined EAPI6" "operations_defined EAPI7"
  "operations_defined EAPI8" "operations_defined EAPI_PKGCRAFT"
  by code_simp+

section \<open>The registered EAPIs\<close>

lemma EAPIS_ids: "map eapi_id EAPIS = [''5'', ''6'', ''7'', ''8'', ''pkgcraft'']"
  using registered eapi_ids by (auto simp: EAPIS_def EAPIS_OFFICIAL_def EAPIS_UNOFFICIAL_def)

lemma id_index_Some: "id_index es s = Some i \<Longrightarrow> i < length es \<and> eapi_id (es ! i) = s"
  by (induction es arbitrary: i) (auto split: if_splits)

lemma id_index_nth: "distinct (map eapi_id es) \<Longrightarrow> i < length es \<Longrightarrow> id_index es (eapi_id (es ! i)) = Some i"
proof (induction es arbitrary: i)
  case (Cons e es)
  then have "j < length es \<Longrightarrow> eapi_id e \<noteq> eapi_id (es ! j)" for j
    using nth_mem [of j es] by auto
  with Cons show ?case by (cases i) auto
qed simp

lemma length_EAPIS: "length EAPIS = 5"
  using EAPIS_ids length_map [of eapi_id EAPIS] by simp

lemma distinct_EAPIS: "distinct (map eapi_id EAPIS)"
  by (simp add: EAPIS_ids)

lemma eapis_index_bound: "eapis_index_of s = Some i \<Longrightarrow> i < length EAPIS \<and> eapi_id (EAPIS ! i) = s"
  unfolding eapis_index_of_def by (rule id_index_Some)

lemma eapis_index_nth: "i < length EAPIS \<Longrightarrow> eapis_index_of (eapi_id (EAPIS ! i)) = Some i"
  unfolding eapis_index_of_def by (rule id_index_nth [OF distinct_EAPIS])

lemma eapis_index_ids: "i < 5 \<Longrightarrow> eapis_index_of ([''5'', ''6'', ''7'', ''8'', ''pkgcraft''] ! i) = Some i"
  using eapis_index_nth [of i] nth_map [of i EAPIS eapi_id] by (simp add: length_EAPIS EAPIS_ids)

lemma eapis_index_None: "eapis_index_of s = None \<longleftrightarrow> s \<notin> set (map eapi_id EAPIS)"
proof -
  have "id_index es s = None \<longleftrightarrow> s \<notin> set (map eapi_id es)" for es
    by (induction es) auto
  then show ?thesis by (simp add: eapis_index_of_def)
qed

lemma range_index_bound: "range_index rng s = Inr i \<Longrightarrow> i < length EAPIS"
proof (cases "s = ''U''")
  case True
  have "eapi_id (hd EAPIS_UNOFFICIAL) = ''pkgcraft''"
    using registered eapi_ids by (auto simp: EAPIS_UNOFFICIAL_def)
  moreover have "''pkgcraft'' = eapi_id (EAPIS ! 4)"
    using EAPIS_ids nth_map [of 4 EAPIS eapi_id] length_EAPIS by simp
  ultimately have "eapis_index_of (eapi_id (hd EAPIS_UNOFFICIAL)) = Some 4"
    using eapis_index_nth [of 4] length_EAPIS by simp
  moreover assume "range_index rng s = Inr i"
  ultimately show ?thesis using True length_EAPIS by (simp add: range_index_def)
next
  case False
  moreover assume "range_index rng s = Inr i"
  ultimately show ?thesis using eapis_index_bound length_EAPIS
    by (auto simp: range_index_def split: option.splits if_splits)
qed

lemma range_bounds_bound:
  "range_bounds s = Inr (incl, i, j) \<Longrightarrow> i \<le> length EAPIS \<and> (if incl then j < length EAPIS else j \<le> length EAPIS)"
  by (auto simp: range_bounds_def Let_def length_EAPIS split: option.splits if_splits sum.splits
      dest!: range_index_bound)

lemma map_nth_upt: "j \<le> length xs \<Longrightarrow> map ((!) xs) [i..<j] = take (j - i) (drop i xs)"
  by (rule nth_equalityI) auto

lemma eapi_range_slice:
  assumes "eapi_range s = Inr es"
  shows "\<exists>i j. es = take (j - i) (drop i EAPIS) \<and> j \<le> length EAPIS"
proof -
  obtain incl i j where b: "range_bounds s = Inr (incl, i, j)"
    and es: "es = map ((!) EAPIS) (if incl then [i..<Suc j] else [i..<j])"
    using assms by (auto simp: eapi_range_def split: sum.splits)
  define k where "k = (if incl then Suc j else j)"
  have "k \<le> length EAPIS" using range_bounds_bound [OF b] by (simp add: k_def split: if_splits)
  moreover have "es = map ((!) EAPIS) [i..<k]" using es by (simp add: k_def)
  ultimately show ?thesis using map_nth_upt [of k EAPIS i] by auto
qed

section \<open>Identifiers\<close>

definition valid_eapi_id :: "string \<Rightarrow> bool" where
  "valid_eapi_id = is_name id_first id_more"

lemma p_run_eapi: "p_run p_eapi s = Some x \<longleftrightarrow> x = s \<and> valid_eapi_id s"
proof
  assume "p_run p_eapi s = Some x"
  then show "x = s \<and> valid_eapi_id s"
    using printsD [OF p_name_prints [of id_first id_more], of s x "[]"] by (simp add: p_eapi_def valid_eapi_id_def)
next
  assume "x = s \<and> valid_eapi_id s"
  then show "p_run p_eapi s = Some x"
    using readsD [OF p_name_reads [of "[]" id_more id_first], of s] by (simp add: p_eapi_def valid_eapi_id_def)
qed

lemma quote_chars: "\<not> id_first (CHR 34)" "\<not> id_first (CHR 39)" "\<not> id_more (CHR 34)" "\<not> id_more (CHR 39)"
  by (simp_all add: id_first_def id_more_def char_classes)

lemma p_quoted:
  assumes "q = CHR 34 \<or> q = CHR 39"
  shows "p_then (p_lit [q]) (p_before p_eapi (p_lit [q])) s = Some (x, []) \<longleftrightarrow>
    valid_eapi_id x \<and> s = q # x @ [q]"
proof
  assume "p_then (p_lit [q]) (p_before p_eapi (p_lit [q])) s = Some (x, [])"
  then obtain r where "s = q # r" "p_eapi r = Some (x, [q])"
    by (auto simp: p_then_def p_before_def p_bind_def p_return_def p_lit_Some split: option.splits)
  with printsD [OF p_name_prints [of id_first id_more], of r x "[q]"]
  show "valid_eapi_id x \<and> s = q # x @ [q]" by (simp add: p_eapi_def valid_eapi_id_def)
next
  assume a: "valid_eapi_id x \<and> s = q # x @ [q]"
  then have "p_eapi (x @ [q]) = Some (x, [q])"
    using readsD [OF p_name_reads [of "[q]" id_more id_first], of x] assms quote_chars
    by (auto simp: p_eapi_def valid_eapi_id_def)
  with a show "p_then (p_lit [q]) (p_before p_eapi (p_lit [q])) s = Some (x, [])"
    by (simp add: p_then_def p_before_def p_bind_def p_return_def p_lit_Cons)
qed

lemma p_eapi_first: "p_eapi s = Some (x, r) \<Longrightarrow> s \<noteq> [] \<and> id_first (hd s)"
  by (auto simp: p_eapi_def p_name_eq split: list.splits if_splits)

lemma p_eapi_quote: "p_eapi (CHR 34 # s) = None" "p_eapi (CHR 39 # s) = None"
  by (simp_all add: p_eapi_def p_name_eq quote_chars)

lemma parse_value_iff:
  "parse_value s = Inr x \<longleftrightarrow>
    valid_eapi_id x \<and> (s = x \<or> s = CHR 34 # x @ [CHR 34] \<or> s = CHR 39 # x @ [CHR 39])"
proof -
  have run: "parse_value s = Inr x \<longleftrightarrow> p_eapi_value s = Some (x, [])"
    unfolding p_run_Some [symmetric] by (auto simp: parse_value_def simp del: p_run_Some split: option.splits)
  show ?thesis
  proof (cases s)
    case (Cons c r)
    consider "c = CHR 34" | "c = CHR 39" | "c \<noteq> CHR 34" "c \<noteq> CHR 39" by blast
    then show ?thesis
    proof cases
      case 1
      have "p_single_quotes p_eapi s = None"
        using Cons 1 by (simp add: p_single_quotes_def p_then_def p_bind_def p_lit_hd)
      then have "p_eapi_value s = p_double_quotes p_eapi s"
        using Cons 1 by (simp add: p_eapi_value_def p_optionally_quoted_def p_alt_def p_eapi_quote split: option.splits)
      then show ?thesis
        using p_quoted [of "CHR 34" s x] Cons 1 quote_chars unfolding run p_double_quotes_def
        by (auto simp: valid_eapi_id_def is_name_def)
    next
      case 2
      have "p_double_quotes p_eapi s = None"
        using Cons 2 by (simp add: p_double_quotes_def p_then_def p_bind_def p_lit_hd)
      then have "p_eapi_value s = p_single_quotes p_eapi s"
        using Cons 2 by (simp add: p_eapi_value_def p_optionally_quoted_def p_alt_def p_eapi_quote)
      then show ?thesis
        using p_quoted [of "CHR 39" s x] Cons 2 quote_chars unfolding run p_single_quotes_def
        by (auto simp: valid_eapi_id_def is_name_def)
    next
      case 3
      have "p_single_quotes p_eapi s = None" "p_double_quotes p_eapi s = None"
        using Cons 3 by (simp_all add: p_single_quotes_def p_double_quotes_def p_then_def p_bind_def p_lit_hd)
      then have "p_eapi_value s = p_eapi s"
        by (simp add: p_eapi_value_def p_optionally_quoted_def p_alt_def split: option.splits)
      then show ?thesis using p_run_eapi [of s x] Cons 3 unfolding run by auto
    qed
  next
    case Nil
    then have "p_eapi_value s = None"
      by (simp add: p_eapi_value_def p_optionally_quoted_def p_alt_def p_single_quotes_def
          p_double_quotes_def p_then_def p_bind_def p_lit_def p_eapi_def p_name_eq starts_with_def)
    then show ?thesis using Nil run by (auto simp: valid_eapi_id_def is_name_def)
  qed
qed

lemma eapi_from_str_cases:
  "eapi_from_str s = (if s \<in> set (map eapi_id EAPIS) then Inr (EAPIS ! the (eapis_index_of s))
     else if valid_eapi_id s then Inl (InvalidValue ''unsupported EAPI'' s)
     else Inl (InvalidValue ''invalid EAPI'' s))"
proof (cases "eapis_index_of s")
  case None
  then have "s \<notin> set (map eapi_id EAPIS)" using eapis_index_None by blast
  moreover have "p_run p_eapi s = (if valid_eapi_id s then Some s else None)"
    using p_run_eapi [of s] by (cases "p_run p_eapi s") auto
  ultimately show ?thesis using None by (simp add: eapi_from_str_def eapi_parse_def)
next
  case (Some i)
  then have "s \<in> set (map eapi_id EAPIS)" using eapis_index_bound [of s i] nth_mem by fastforce
  with Some show ?thesis by (simp add: eapi_from_str_def)
qed

section \<open>Properties\<close>

text \<open>The registration of every EAPI goes through without reaching a panic, and registers
  the identifiers 5, 6, 7, 8 and pkgcraft in this order.\<close>

lemma registration_succeeds:
  "EAPI5 \<noteq> None \<and> EAPI6 \<noteq> None \<and> EAPI7 \<noteq> None \<and> EAPI8 \<noteq> None \<and> EAPI_PKGCRAFT \<noteq> None \<and>
    map eapi_id EAPIS = [''5'', ''6'', ''7'', ''8'', ''pkgcraft'']"
  using registered EAPIS_ids by blast

text \<open>After registration, EAPI 6 has lost the \<open>docompress\<close> hooks of
  \<open>src_install\<close> that EAPI 5 registers, because it replaces the phase together with its
  hooks, and EAPIs 7 and 8 do not get them back.\<close>

lemma docompress_hooks_lost:
  "hook_names_present EAPI5 SrcInstall HookPre [''docompress'', ''dostrip''] = [True, False] \<and>
   hook_names_present EAPI6 SrcInstall HookPre [''docompress'', ''dostrip''] = [False, False] \<and>
   hook_names_present EAPI7 SrcInstall HookPre [''docompress'', ''dostrip''] = [False, True] \<and>
   hook_names_present EAPI8 SrcInstall HookPre [''docompress'', ''dostrip''] = [False, True]"
  using hooks_table by blast

text \<open>Every EAPI defines every operation, over phases it registers, so that
  \<open>Eapi::operation\<close> does not panic; and the features of the EAPIs are those of the
  specification.\<close>

lemma operations_and_features:
  "operations_defined EAPI5 \<and> operations_defined EAPI6 \<and> operations_defined EAPI7 \<and>
   operations_defined EAPI8 \<and> operations_defined EAPI_PKGCRAFT \<and>
   map_option eapi_features EAPI5 = Some {DomoUsesDesttree, QueryHostRoot, TrailingSlash} \<and>
   map_option eapi_features EAPI8 = Some {QueryDeps, NonfatalDie, GlobalFailglob, UnpackExtendedPath,
     UnpackCaseInsensitive, ConsistentFileOpts, DosymRelative, SrcUriUnrestrict, UsevTwoArgs} \<and>
   (\<exists>e. EAPI_PKGCRAFT = Some e \<and> eapi_has e RepoIds)"
  using operations_table features_table by (auto simp: eapi_has_def)

text \<open>A range of EAPIs is a contiguous piece of the list of EAPIs, in its order; the
  indices it is computed from are never out of bounds.\<close>

lemma range_is_slice:
  assumes "eapi_range s = Inr es"
  shows "\<exists>i j. es = take (j - i) (drop i EAPIS) \<and> j \<le> length EAPIS"
  by (rule eapi_range_slice [OF assms])

text \<open>The value of an EAPI assignment is accepted exactly when it is an EAPI name, bare or
  in matching quotes, and the quotes are dropped.\<close>

lemma parse_value_quotes:
  "parse_value s = Inr x \<longleftrightarrow>
    valid_eapi_id x \<and> (s = x \<or> s = CHR 34 # x @ [CHR 34] \<or> s = CHR 39 # x @ [CHR 39])"
  by (rule parse_value_iff)

text \<open>Looking up an EAPI by name finds the registered ones, tells the other well-formed
  names apart from malformed ones, and never fails otherwise.\<close>

lemma from_str_cases:
  "eapi_from_str s = (if s \<in> set (map eapi_id EAPIS) then Inr (EAPIS ! the (eapis_index_of s))
     else if valid_eapi_id s then Inl (InvalidValue ''unsupported EAPI'' s)
     else Inl (InvalidValue ''invalid EAPI'' s))"
  by (rule eapi_from_str_cases)

text \<open>A scope set iterates over exactly the scopes it is equal to, eclass scopes without
  a name standing for all of them.\<close>

lemma scope_iter_agrees:
  "s \<in> set (ebuild_scope_iter es) \<longleftrightarrow>
    ebuild_scope_eq es s \<and> (case s of Eclass e \<Rightarrow> e = None | _ \<Rightarrow> True)"
  by (rule ebuild_scope_iter_iff)

end
