(* ===== verification/Sorted_Set.thy ===== *)
theory Sorted_Set
  imports Index_Set
begin

text \<open>
  \<open>SortedSet\<close> compares, hashes and displays through the sorted sequence of its values.
  The laws of its \<open>Ord\<close> follow from those of the values, and for sets without
  duplicates its \<open>Eq\<close> is equality of sets.
\<close>

section \<open>Sorting\<close>

text \<open>\<open>itertools::sorted\<close>: the stable sort of the standard library.\<close>

fun insert_cmp :: "('a \<Rightarrow> 'a \<Rightarrow> ordering) \<Rightarrow> 'a \<Rightarrow> 'a list \<Rightarrow> 'a list" where
  "insert_cmp cmp x [] = [x]"
| "insert_cmp cmp x (y # ys) = (if cmp x y = Greater then y # insert_cmp cmp x ys else x # y # ys)"

definition sort_cmp :: "('a \<Rightarrow> 'a \<Rightarrow> ordering) \<Rightarrow> 'a list \<Rightarrow> 'a list" where
  "sort_cmp cmp xs = foldr (insert_cmp cmp) xs []"

lemma sort_cmp_Nil [simp]: "sort_cmp cmp [] = []"
  and sort_cmp_Cons: "sort_cmp cmp (x # xs) = insert_cmp cmp x (sort_cmp cmp xs)"
  by (simp_all add: sort_cmp_def)

lemma set_insert_cmp [simp]: "set (insert_cmp cmp x xs) = insert x (set xs)"
  by (induction xs) auto

lemma set_sort_cmp [simp]: "set (sort_cmp cmp xs) = set xs"
  by (induction xs) (simp_all add: sort_cmp_Cons)

lemma list_all_sort_cmp [simp]: "list_all P (sort_cmp cmp xs) = list_all P xs"
  by (simp add: list_all_iff)

lemma length_insert_cmp [simp]: "length (insert_cmp cmp x xs) = Suc (length xs)"
  by (induction xs) auto

lemma length_sort_cmp [simp]: "length (sort_cmp cmp xs) = length xs"
  by (induction xs) (simp_all add: sort_cmp_Cons)

definition sorted_cmp :: "('a \<Rightarrow> 'a \<Rightarrow> ordering) \<Rightarrow> 'a list \<Rightarrow> bool" where
  "sorted_cmp cmp = sorted_wrt (\<lambda>x y. cmp x y \<noteq> Greater)"

definition strict_sorted_cmp :: "('a \<Rightarrow> 'a \<Rightarrow> ordering) \<Rightarrow> 'a list \<Rightarrow> bool" where
  "strict_sorted_cmp cmp = sorted_wrt (\<lambda>x y. cmp x y = Less)"

abbreviation eq_cmp :: "('a \<Rightarrow> 'a \<Rightarrow> ordering) \<Rightarrow> 'a \<Rightarrow> 'a \<Rightarrow> bool" where
  "eq_cmp cmp x y \<equiv> cmp x y = Equal"

lemma strict_sorted_cmp_simps [simp]:
  "strict_sorted_cmp cmp []"
  "strict_sorted_cmp cmp (x # xs) \<longleftrightarrow> (\<forall>y \<in> set xs. cmp x y = Less) \<and> strict_sorted_cmp cmp xs"
  by (auto simp: strict_sorted_cmp_def)

lemma sorted_cmp_simps [simp]:
  "sorted_cmp cmp []"
  "sorted_cmp cmp (x # xs) \<longleftrightarrow> (\<forall>y \<in> set xs. cmp x y \<noteq> Greater) \<and> sorted_cmp cmp xs"
  by (auto simp: sorted_cmp_def)

context total_cmp begin

lemma insert_cmp_sorted:
  "wf x \<Longrightarrow> list_all wf xs \<Longrightarrow> sorted_cmp cmp xs \<Longrightarrow> sorted_cmp cmp (insert_cmp cmp x xs)"
proof (induction xs)
  case (Cons y ys)
  then have wfs: "\<And>z. z \<in> set ys \<Longrightarrow> wf z" "wf y" by (auto simp: list_all_iff)
  show ?case
  proof (cases "cmp x y = Greater")
    case True
    then have "cmp y x \<noteq> Greater" using flip [of x y] Cons.prems(1) wfs by simp
    with True Cons show ?thesis by auto
  next
    case False
    then have "cmp x z \<noteq> Greater" if "z \<in> set ys" for z
      using trans [of x y z] Cons.prems that wfs by simp
    with False Cons show ?thesis by simp
  qed
qed simp

lemma sort_cmp_sorted: "list_all wf xs \<Longrightarrow> sorted_cmp cmp (sort_cmp cmp xs)"
  by (induction xs) (simp_all add: sort_cmp_Cons insert_cmp_sorted)

lemma insert_cmp_strict:
  "wf x \<Longrightarrow> list_all wf xs \<Longrightarrow> strict_sorted_cmp cmp xs \<Longrightarrow> \<not> mem_by (eq_cmp cmp) x xs \<Longrightarrow>
    strict_sorted_cmp cmp (insert_cmp cmp x xs)"
proof (induction xs)
  case (Cons y ys)
  then have wfs: "\<And>z. z \<in> set ys \<Longrightarrow> wf z" "wf y" by (auto simp: list_all_iff)
  have ne: "cmp x y \<noteq> Equal" using sym_Equal [of x y] Cons.prems wfs by auto
  show ?case
  proof (cases "cmp x y = Greater")
    case True
    then have "cmp y x = Less" using flip_Less [of y x] Cons.prems(1) wfs by simp
    with True Cons show ?thesis by auto
  next
    case False
    with ne have less: "cmp x y = Less" by (cases "cmp x y") simp_all
    then have "cmp x z = Less" if "z \<in> set ys" for z
      using trans_Less [of x y z] Cons.prems that wfs by simp
    with less Cons show ?thesis by simp
  qed
qed simp

lemma distinct_cmp: "list_all wf xs \<Longrightarrow> wf x \<Longrightarrow> distinct_by (eq_cmp cmp) (x # xs) \<longleftrightarrow>
    \<not> mem_by (eq_cmp cmp) x xs \<and> distinct_by (eq_cmp cmp) xs"
  using sym_Equal by (auto simp: list_ex_iff mem_by_iff list_all_iff)

lemma mem_by_sort_cmp [simp]: "mem_by eq x (sort_cmp c xs) = mem_by eq x xs"
  by (simp add: mem_by_iff)

lemma sort_cmp_strict:
  "list_all wf xs \<Longrightarrow> distinct_by (eq_cmp cmp) xs \<Longrightarrow> strict_sorted_cmp cmp (sort_cmp cmp xs)"
proof (induction xs)
  case (Cons x xs)
  then show ?case
    using distinct_cmp [of xs x] by (simp del: distinct_by.simps add: sort_cmp_Cons insert_cmp_strict)
qed simp

text \<open>Sorting something sorted changes nothing.\<close>

lemma sort_cmp_id: "sorted_cmp cmp xs \<Longrightarrow> sort_cmp cmp xs = xs"
proof (induction xs)
  case (Cons x xs)
  then show ?case by (cases xs) (simp_all add: sort_cmp_Cons)
qed simp

lemma strict_sorted_ext:
  assumes "list_all wf xs" "list_all wf ys" "strict_sorted_cmp cmp xs" "strict_sorted_cmp cmp ys"
    and "\<And>x. x \<in> set xs \<Longrightarrow> mem_by (eq_cmp cmp) x ys" "\<And>y. y \<in> set ys \<Longrightarrow> mem_by (eq_cmp cmp) y xs"
  shows "cmp_list cmp xs ys = Equal"
  using assms
proof (induction xs arbitrary: ys)
  case Nil
  then show ?case by (cases ys) auto
next
  case (Cons x xs)
  then obtain y ys' where ys: "ys = y # ys'" by (cases ys) auto
  have wx: "wf x" "\<And>z. z \<in> set xs \<Longrightarrow> wf z" and wy: "wf y" "\<And>z. z \<in> set ys' \<Longrightarrow> wf z"
    using Cons.prems ys by (auto simp: list_all_iff)
  have lx: "\<And>z. z \<in> set xs \<Longrightarrow> cmp x z = Less" and ly: "\<And>z. z \<in> set ys' \<Longrightarrow> cmp y z = Less"
    using Cons.prems ys by simp_all
  have "cmp x y \<noteq> Less"
  proof
    assume less: "cmp x y = Less"
    have "mem_by (eq_cmp cmp) x ys" using Cons.prems by simp
    then obtain z where z: "z \<in> set ys" "cmp z x = Equal" by (auto simp: mem_by_iff)
    with less sym_Equal [of z x] ys wx wy have "z \<in> set ys'" by auto
    with z wx wy ly compose [of y z x Less Equal] have "cmp y x = Less" by simp
    with less flip [of x y] wx wy show False by simp
  qed
  moreover have "cmp x y \<noteq> Greater"
  proof
    assume "cmp x y = Greater"
    then have less: "cmp y x = Less" using flip [of x y] wx wy by simp
    have "mem_by (eq_cmp cmp) y (x # xs)" using Cons.prems ys by simp
    then obtain z where z: "z \<in> set (x # xs)" "cmp z y = Equal" by (auto simp: mem_by_iff)
    with \<open>cmp x y = Greater\<close> have "z \<in> set xs" by auto
    with z wx wy lx compose [of x z y Less Equal] have "cmp x y = Less" by simp
    with \<open>cmp x y = Greater\<close> show False by simp
  qed
  ultimately have xy: "cmp x y = Equal" by (cases "cmp x y") simp_all
  have "mem_by (eq_cmp cmp) z ys'" if "z \<in> set xs" for z
  proof -
    have "cmp y z = Less" using compose [of y x z Equal Less] sym_Equal [OF _ _ xy] lx that wx wy by simp
    moreover have "mem_by (eq_cmp cmp) z ys" using Cons.prems(5) that by simp
    ultimately show ?thesis using ys by simp
  qed
  moreover have "mem_by (eq_cmp cmp) z xs" if "z \<in> set ys'" for z
  proof -
    have "cmp x z = Less" using compose [of x y z Equal Less] xy ly that wx wy by simp
    moreover have "mem_by (eq_cmp cmp) z (x # xs)" using Cons.prems(6) that ys by simp
    ultimately show ?thesis by simp
  qed
  ultimately have "cmp_list cmp xs ys' = Equal"
    using Cons.prems ys by (intro Cons.IH) auto
  with xy ys show ?case by simp
qed

lemma cmp_list_Equal_mem:
  "cmp_list cmp xs ys = Equal \<Longrightarrow> x \<in> set xs \<Longrightarrow> \<exists>y \<in> set ys. cmp x y = Equal"
proof (induction xs arbitrary: ys)
  case (Cons z zs)
  then show ?case by (cases ys) auto
qed simp

lemma cmp_list_sym_Equal:
  "list_all wf xs \<Longrightarrow> list_all wf ys \<Longrightarrow> cmp_list cmp xs ys = Equal \<Longrightarrow> cmp_list cmp ys xs = Equal"
  using total_cmp.sym_Equal [OF total_cmp_list [OF total_cmp_axioms]] by blast

end

section \<open>Comparison of sorted sets\<close>

definition sorted_set_cmp :: "('a \<Rightarrow> 'a \<Rightarrow> ordering) \<Rightarrow> 'a list \<Rightarrow> 'a list \<Rightarrow> ordering" where
  "sorted_set_cmp cmp s t = cmp_list cmp (sort_cmp cmp s) (sort_cmp cmp t)"

definition sorted_set_eq :: "('a \<Rightarrow> 'a \<Rightarrow> ordering) \<Rightarrow> 'a list \<Rightarrow> 'a list \<Rightarrow> bool" where
  "sorted_set_eq cmp s t \<longleftrightarrow> sorted_set_cmp cmp s t = Equal"

lemma total_cmp_sorted_set [cmp_laws]:
  assumes "total_cmp Q cmp"
  shows "total_cmp (list_all Q) (sorted_set_cmp cmp)"
  unfolding sorted_set_cmp_def [abs_def]
  by (rule total_cmp_key [OF total_cmp_list [OF assms]]) simp

context total_cmp begin

lemma sorted_set_eq_iff:
  assumes wf: "list_all wf s" "list_all wf t"
    and "distinct_by (eq_cmp cmp) s" "distinct_by (eq_cmp cmp) t"
  shows "sorted_set_eq cmp s t \<longleftrightarrow>
    (\<forall>x. wf x \<longrightarrow> mem_by (eq_cmp cmp) x s = mem_by (eq_cmp cmp) x t)"
proof
  assume eq: "sorted_set_eq cmp s t"
  have step: "mem_by (eq_cmp cmp) x b" if h: "cmp_list cmp (sort_cmp cmp a) (sort_cmp cmp b) = Equal"
    "list_all wf a" "list_all wf b" "wf x" "mem_by (eq_cmp cmp) x a" for a b x
  proof -
    obtain z where z: "z \<in> set a" "cmp z x = Equal" using h by (auto simp: mem_by_iff)
    then obtain y where y: "y \<in> set b" "cmp z y = Equal"
      using cmp_list_Equal_mem [OF h(1), of z] by auto
    have w: "wf z" "wf y" using z y h by (auto simp: list_all_iff)
    have "cmp y x = Equal"
      using trans_Equal [of y z x] sym_Equal [of z y] z y w h by simp
    with y show ?thesis by (auto simp: mem_by_iff)
  qed
  have "cmp_list cmp (sort_cmp cmp t) (sort_cmp cmp s) = Equal"
    using eq cmp_list_sym_Equal [of "sort_cmp cmp s" "sort_cmp cmp t"] wf
    by (simp add: sorted_set_eq_def sorted_set_cmp_def)
  with eq step [of s t] step [of t s] wf
  show "\<forall>x. wf x \<longrightarrow> mem_by (eq_cmp cmp) x s = mem_by (eq_cmp cmp) x t"
    by (auto simp: sorted_set_eq_def sorted_set_cmp_def)
next
  assume mem: "\<forall>x. wf x \<longrightarrow> mem_by (eq_cmp cmp) x s = mem_by (eq_cmp cmp) x t"
  have self: "mem_by (eq_cmp cmp) x a" if "x \<in> set a" "list_all wf a" for x a
    using that refl by (auto simp: mem_by_iff list_all_iff)
  have "cmp_list cmp (sort_cmp cmp s) (sort_cmp cmp t) = Equal"
    using assms mem self by (intro strict_sorted_ext) (auto simp: sort_cmp_strict list_all_iff)
  then show "sorted_set_eq cmp s t" by (simp add: sorted_set_eq_def sorted_set_cmp_def)
qed

end

end
