(* ===== verification/Dep.thy ===== *)
theory Dep
  imports Version_Props Sorted_Set
begin

text \<open>
  Package names and dependencies: \<open>dep/cpn.rs\<close>, \<open>dep/cpv.rs\<close>,
  \<open>dep/use_dep.rs\<close>, \<open>dep/uri.rs\<close> and the data of \<open>dep/pkg.rs\<close>, with their
  order, display and intersection. Parsing and the operations that parse are in
  \<open>Dep_Parse\<close> and \<open>Dep_Ops\<close>.
\<close>

section \<open>Cpn\<close>

record cpn =
  cpn_category :: string
  cpn_package :: string

definition cpn_cmp :: "cpn \<Rightarrow> cpn \<Rightarrow> ordering" where
  "cpn_cmp a b = ord_then (cmp_str (cpn_category a) (cpn_category b))
     (cmp_str (cpn_package a) (cpn_package b))"

definition cpn_display :: "cpn \<Rightarrow> string" where
  "cpn_display a = cpn_category a @ ''/'' @ cpn_package a"

definition cpn_eq_str :: "cpn \<Rightarrow> string \<Rightarrow> bool" where
  "cpn_eq_str a s = (case split_once (CHR ''/'') s of
     None \<Rightarrow> False | Some (cat, pkg) \<Rightarrow> cpn_category a = cat \<and> cpn_package a = pkg)"

definition cpn_intersects :: "cpn \<Rightarrow> cpn \<Rightarrow> bool" where
  "cpn_intersects a b \<longleftrightarrow> a = b"

section \<open>Cpv\<close>

record cpv =
  cpv_cpn :: cpn
  cpv_version :: version

definition cpv_cmp :: "cpv \<Rightarrow> cpv \<Rightarrow> ordering" where
  "cpv_cmp a b = ord_then (cpn_cmp (cpv_cpn a) (cpv_cpn b)) (version_ord (cpv_version a) (cpv_version b))"

definition cpv_eq :: "cpv \<Rightarrow> cpv \<Rightarrow> bool" where
  "cpv_eq a b \<longleftrightarrow> cpv_cpn a = cpv_cpn b \<and> version_eq (cpv_version a) (cpv_version b)"

definition cpv_revision :: "cpv \<Rightarrow> revision option" where
  "cpv_revision a = version_revision (cpv_version a)"

definition cpv_pvr :: "cpv \<Rightarrow> string" where
  "cpv_pvr a = version_display (cpv_version a)"

definition cpv_pv :: "cpv \<Rightarrow> string" where
  "cpv_pv a = version_base (cpv_version a)"

definition cpv_p :: "cpv \<Rightarrow> string" where
  "cpv_p a = cpn_package (cpv_cpn a) @ ''-'' @ version_base (cpv_version a)"

definition cpv_pf :: "cpv \<Rightarrow> string" where
  "cpv_pf a = cpn_package (cpv_cpn a) @ ''-'' @ cpv_pvr a"

definition cpv_pr :: "cpv \<Rightarrow> string" where
  "cpv_pr a = ''r'' @ (case cpv_revision a of None \<Rightarrow> ''0'' | Some r \<Rightarrow> num_raw (rev_number r))"

definition cpv_relpath :: "cpv \<Rightarrow> string" where
  "cpv_relpath a = cpn_display (cpv_cpn a) @ ''/'' @ cpv_pf a @ ''.ebuild''"

definition cpv_display :: "cpv \<Rightarrow> string" where
  "cpv_display a = cpn_display (cpv_cpn a) @ ''-'' @ version_display (cpv_version a)"

definition cpv_intersects :: "cpv \<Rightarrow> cpv \<Rightarrow> bool" where
  "cpv_intersects a b \<longleftrightarrow> cpv_eq a b"

definition cpv_intersects_cpn :: "cpv \<Rightarrow> cpn \<Rightarrow> bool" where
  "cpv_intersects_cpn a b \<longleftrightarrow> cpv_cpn a = b"

section \<open>USE dependencies\<close>

datatype use_dep_kind = UseEnabled | UseEqual | UseConditional

fun use_dep_kind_index :: "use_dep_kind \<Rightarrow> nat" where
  "use_dep_kind_index UseEnabled = 0"
| "use_dep_kind_index UseEqual = 1"
| "use_dep_kind_index UseConditional = 2"

record use_dep =
  ud_flag :: string
  ud_kind :: use_dep_kind
  ud_enabled :: bool
  ud_default :: "bool option"

definition use_dep_cmp :: "use_dep \<Rightarrow> use_dep \<Rightarrow> ordering" where
  "use_dep_cmp a b =
     ord_then (cmp_str (ud_flag a) (ud_flag b))
    (ord_then (cmp_by use_dep_kind_index (ud_kind a) (ud_kind b))
    (ord_then (cmp_bool (ud_enabled a) (ud_enabled b))
              (cmp_option cmp_bool (ud_default a) (ud_default b))))"

definition use_dep_display :: "use_dep \<Rightarrow> string" where
  "use_dep_display u =
     (let default = (case ud_default u of Some True \<Rightarrow> ''(+)'' | Some False \<Rightarrow> ''(-)'' | None \<Rightarrow> []);
          flag = ud_flag u
      in case (ud_kind u, ud_enabled u) of
           (UseEnabled, True) \<Rightarrow> flag @ default
         | (UseEnabled, False) \<Rightarrow> ''-'' @ flag @ default
         | (UseEqual, True) \<Rightarrow> flag @ default @ ''=''
         | (UseEqual, False) \<Rightarrow> ''!'' @ flag @ default @ ''=''
         | (UseConditional, True) \<Rightarrow> flag @ default @ ''?''
         | (UseConditional, False) \<Rightarrow> ''!'' @ flag @ default @ ''?'')"

text \<open>\<open>UseDep::matches\<close>; \<open>None\<close> is its \<open>todo!\<close>, reached for kinds other
  than conditional.\<close>

definition use_dep_matches :: "use_dep \<Rightarrow> string set \<Rightarrow> bool option" where
  "use_dep_matches u options =
     (if ud_kind u = UseConditional
      then Some (\<not> (ud_enabled u \<noteq> (ud_flag u \<in> options))) else None)"

section \<open>Uri\<close>

record uri =
  uri_uri :: string
  uri_rename :: "string option"

definition uri_new :: "string \<Rightarrow> string option \<Rightarrow> uri" where
  "uri_new s rename = \<lparr>uri_uri = trim s, uri_rename = rename\<rparr>"

definition uri_filename :: "uri \<Rightarrow> string" where
  "uri_filename u =
     (case uri_rename u of
        Some r \<Rightarrow> r
      | None \<Rightarrow> (case rsplit_once (CHR ''/'') (uri_uri u) of Some (_, s) \<Rightarrow> s | None \<Rightarrow> uri_uri u))"

definition uri_display :: "uri \<Rightarrow> string" where
  "uri_display u = uri_uri u @ (case uri_rename u of None \<Rightarrow> [] | Some v \<Rightarrow> '' -> '' @ v)"

definition uri_cmp :: "uri \<Rightarrow> uri \<Rightarrow> ordering" where
  "uri_cmp a b = ord_then (cmp_str (uri_uri a) (uri_uri b)) (cmp_option cmp_str (uri_rename a) (uri_rename b))"

section \<open>Blockers and slots\<close>

datatype blocker = BlockerStrong | BlockerWeak

fun blocker_index :: "blocker \<Rightarrow> nat" where
  "blocker_index BlockerStrong = 1"
| "blocker_index BlockerWeak = 2"

fun blocker_display :: "blocker \<Rightarrow> string" where
  "blocker_display BlockerStrong = ''!!''"
| "blocker_display BlockerWeak = ''!''"

definition blocker_from_str :: "string \<Rightarrow> blocker option" where
  "blocker_from_str s =
     (if s = ''!!'' then Some BlockerStrong else if s = ''!'' then Some BlockerWeak else None)"

datatype slot_operator = SlotEqual | SlotStar

fun slot_operator_index :: "slot_operator \<Rightarrow> nat" where
  "slot_operator_index SlotEqual = 1"
| "slot_operator_index SlotStar = 2"

fun slot_operator_display :: "slot_operator \<Rightarrow> string" where
  "slot_operator_display SlotEqual = ''=''"
| "slot_operator_display SlotStar = ''*''"

datatype slot = Slot (slot_name: string)

definition slot_default :: slot where
  "slot_default = Slot ''0''"

definition slot_main :: "slot \<Rightarrow> string" where
  "slot_main s = (case split_once (CHR ''/'') (slot_name s) of None \<Rightarrow> slot_name s | Some x \<Rightarrow> fst x)"

definition slot_sub :: "slot \<Rightarrow> string option" where
  "slot_sub s = map_option snd (split_once (CHR ''/'') (slot_name s))"

definition slot_eq_str :: "slot \<Rightarrow> string \<Rightarrow> bool" where
  "slot_eq_str s t \<longleftrightarrow> slot_name s = t"

datatype slot_dep = SlotDepOp slot_operator | SlotDepSlot slot | SlotDepSlotOp slot slot_operator

fun slot_dep_display :: "slot_dep \<Rightarrow> string" where
  "slot_dep_display (SlotDepOp op) = slot_operator_display op"
| "slot_dep_display (SlotDepSlot slot) = slot_name slot"
| "slot_dep_display (SlotDepSlotOp slot op) = slot_name slot @ slot_operator_display op"

fun slot_dep_slot :: "slot_dep \<Rightarrow> slot option" where
  "slot_dep_slot (SlotDepOp op) = None"
| "slot_dep_slot (SlotDepSlot slot) = Some slot"
| "slot_dep_slot (SlotDepSlotOp slot op) = Some slot"

fun slot_dep_op :: "slot_dep \<Rightarrow> slot_operator option" where
  "slot_dep_op (SlotDepOp op) = Some op"
| "slot_dep_op (SlotDepSlot slot) = None"
| "slot_dep_op (SlotDepSlotOp slot op) = Some op"

text \<open>The derived order: first the variant, then its fields.\<close>

fun slot_dep_index :: "slot_dep \<Rightarrow> nat" where
  "slot_dep_index (SlotDepOp op) = 0"
| "slot_dep_index (SlotDepSlot slot) = 1"
| "slot_dep_index (SlotDepSlotOp slot op) = 2"

definition slot_dep_cmp :: "slot_dep \<Rightarrow> slot_dep \<Rightarrow> ordering" where
  "slot_dep_cmp a b =
     ord_then (cmp_by slot_dep_index a b)
    (ord_then (cmp_option cmp_str (map_option slot_name (slot_dep_slot a)) (map_option slot_name (slot_dep_slot b)))
              (cmp_option (cmp_by slot_operator_index) (slot_dep_op a) (slot_dep_op b)))"

section \<open>Dep\<close>

record dep =
  dep_cpn :: cpn
  dep_blocker :: "blocker option"
  dep_version :: "version option"
  dep_slot_dep :: "slot_dep option"
  dep_use_deps :: "use_dep list option"
  dep_repo :: "string option"

definition dep_from_cpn :: "cpn \<Rightarrow> dep" where
  "dep_from_cpn a = \<lparr>dep_cpn = a, dep_blocker = None, dep_version = None, dep_slot_dep = None,
     dep_use_deps = None, dep_repo = None\<rparr>"

definition cpv_with_op :: "cpv \<Rightarrow> operator \<Rightarrow> string + dep" where
  "cpv_with_op a op = (case version_with_op (cpv_version a) op of
     Inl e \<Rightarrow> Inl e
   | Inr v \<Rightarrow> Inr \<lparr>dep_cpn = cpv_cpn a, dep_blocker = None, dep_version = Some v,
       dep_slot_dep = None, dep_use_deps = None, dep_repo = None\<rparr>)"

text \<open>\<open>Dep::with\<close>: the parser injects attributes; USE dependencies are collected into
  an insertion-ordered set.\<close>

definition dep_with :: "use_dep index_set \<Rightarrow> dep \<Rightarrow> blocker option \<Rightarrow> slot_dep option \<Rightarrow>
    use_dep list option \<Rightarrow> string option \<Rightarrow> dep" where
  "dep_with ix d b s u r = d\<lparr>dep_blocker := b, dep_slot_dep := s,
     dep_use_deps := map_option (is_collect ix) u, dep_repo := r\<rparr>"

definition dep_revision :: "dep \<Rightarrow> revision option" where
  "dep_revision d = Option.bind (dep_version d) version_revision"

definition dep_op :: "dep \<Rightarrow> operator option" where
  "dep_op d = Option.bind (dep_version d) ver_op"

definition dep_cpv :: "dep \<Rightarrow> cpv option" where
  "dep_cpv d = map_option (\<lambda>v. \<lparr>cpv_cpn = dep_cpn d, cpv_version = v\<lparr>ver_op := None\<rparr>\<rparr>) (dep_version d)"

definition dep_slot :: "dep \<Rightarrow> string option" where
  "dep_slot d = map_option slot_main (Option.bind (dep_slot_dep d) slot_dep_slot)"

definition dep_subslot :: "dep \<Rightarrow> string option" where
  "dep_subslot d = Option.bind (Option.bind (dep_slot_dep d) slot_dep_slot) slot_sub"

definition dep_slot_op :: "dep \<Rightarrow> slot_operator option" where
  "dep_slot_op d = Option.bind (dep_slot_dep d) slot_dep_op"

text \<open>The tuple \<open>Dep::key\<close>, compared lexicographically.\<close>

definition dep_cmp :: "dep \<Rightarrow> dep \<Rightarrow> ordering" where
  "dep_cmp a b =
     ord_then (cpn_cmp (dep_cpn a) (dep_cpn b))
    (ord_then (cmp_option version_ord (dep_version a) (dep_version b))
    (ord_then (cmp_option (cmp_by blocker_index) (dep_blocker a) (dep_blocker b))
    (ord_then (cmp_option slot_dep_cmp (dep_slot_dep a) (dep_slot_dep b))
    (ord_then (cmp_option (sorted_set_cmp use_dep_cmp) (dep_use_deps a) (dep_use_deps b))
              (cmp_option cmp_str (dep_repo a) (dep_repo b))))))"

text \<open>\<open>PartialEq\<close> compares the same keys for equality.\<close>

definition dep_eq :: "dep \<Rightarrow> dep \<Rightarrow> bool" where
  "dep_eq a b \<longleftrightarrow>
     dep_cpn a = dep_cpn b \<and>
     rel_option version_eq (dep_version a) (dep_version b) \<and>
     dep_blocker a = dep_blocker b \<and>
     dep_slot_dep a = dep_slot_dep b \<and>
     rel_option (sorted_set_eq use_dep_cmp) (dep_use_deps a) (dep_use_deps b) \<and>
     dep_repo a = dep_repo b"

text \<open>\<open>Display for Dep\<close>; \<open>None\<close> is its panic on a version without an operator.\<close>

definition dep_display :: "dep \<Rightarrow> string option" where
  "dep_display d =
     (let blocker = (case dep_blocker d of None \<Rightarrow> [] | Some b \<Rightarrow> blocker_display b);
          cpn = cpn_display (dep_cpn d);
          base = (case dep_version d of
              None \<Rightarrow> Some cpn
            | Some v \<Rightarrow>
                (let ver = version_without_op v in
                 case ver_op v of
                   None \<Rightarrow> None
                 | Some OpLess \<Rightarrow> Some (''<'' @ cpn @ ''-'' @ ver)
                 | Some OpLessOrEqual \<Rightarrow> Some (''<='' @ cpn @ ''-'' @ ver)
                 | Some OpEqual \<Rightarrow> Some (''='' @ cpn @ ''-'' @ ver)
                 | Some OpEqualGlob \<Rightarrow> Some (''='' @ cpn @ ''-'' @ ver @ ''*'')
                 | Some OpApproximate \<Rightarrow> Some (''~'' @ cpn @ ''-'' @ ver)
                 | Some OpGreaterOrEqual \<Rightarrow> Some (''>='' @ cpn @ ''-'' @ ver)
                 | Some OpGreater \<Rightarrow> Some (''>'' @ cpn @ ''-'' @ ver)));
          slot = (case dep_slot_dep d of None \<Rightarrow> [] | Some s \<Rightarrow> '':'' @ slot_dep_display s);
          repo = (case dep_repo d of None \<Rightarrow> [] | Some r \<Rightarrow> ''::'' @ r);
          uses = (case dep_use_deps d of None \<Rightarrow> []
            | Some us \<Rightarrow> ''['' @ join_with '','' (map use_dep_display us) @ '']'')
      in map_option (\<lambda>b. blocker @ b @ slot @ repo @ uses) base)"

section \<open>Intersection\<close>

definition cpv_intersects_dep :: "cpv \<Rightarrow> dep \<Rightarrow> bool" where
  "cpv_intersects_dep c d =
     (if cpv_cpn c \<noteq> dep_cpn d then False
      else (case dep_version d of None \<Rightarrow> True | Some v \<Rightarrow> version_intersects v (cpv_version c)))"

definition dep_intersects_cpn :: "dep \<Rightarrow> cpn \<Rightarrow> bool" where
  "dep_intersects_cpn d a \<longleftrightarrow> dep_cpn d = a"

text \<open>\<open>FromIterator\<close> for a map of sets (\<open>types/ordered_map.rs\<close>): the values of a
  key are gathered in its entry, entries in the order of their first key.\<close>

fun entry_insert :: "'k \<Rightarrow> 'v \<Rightarrow> ('k \<times> 'v list) list \<Rightarrow> ('k \<times> 'v list) list" where
  "entry_insert k v [] = [(k, [v])]"
| "entry_insert k v ((k', vs) # m) =
     (if k' = k then (k', if v \<in> set vs then vs else vs @ [v]) # m else (k', vs) # entry_insert k v m)"

definition collect_sets :: "('k \<times> 'v) list \<Rightarrow> ('k \<times> 'v list) list" where
  "collect_sets kvs = foldl (\<lambda>m (k, v). entry_insert k v m) [] kvs"

definition use_deps_intersects :: "use_dep index_set \<Rightarrow> use_dep list \<Rightarrow> use_dep list \<Rightarrow> bool" where
  "use_deps_intersects ix s t =
     (\<not> list_ex (\<lambda>vals. length vals = 2)
        (map snd (collect_sets
          (map (\<lambda>u. (ud_flag u, ud_enabled u))
            (filter (\<lambda>u. ud_kind u = UseEnabled) (is_symmetric_difference ix s t))))))"

text \<open>\<open>bool_not_equal!\<close> on two optional values: a difference decides.\<close>

definition both_differ :: "('a \<Rightarrow> 'a \<Rightarrow> bool) \<Rightarrow> 'a option \<Rightarrow> 'a option \<Rightarrow> bool" where
  "both_differ eq x y = (case (x, y) of (Some a, Some b) \<Rightarrow> \<not> eq a b | _ \<Rightarrow> False)"

definition dep_intersects :: "use_dep index_set \<Rightarrow> dep \<Rightarrow> dep \<Rightarrow> bool" where
  "dep_intersects ix a b =
     (if dep_cpn a \<noteq> dep_cpn b then False
      else if both_differ (=) (dep_slot a) (dep_slot b) then False
      else if both_differ (=) (dep_subslot a) (dep_subslot b) then False
      else if both_differ (use_deps_intersects ix) (dep_use_deps a) (dep_use_deps b) then False
      else if both_differ (=) (dep_repo a) (dep_repo b) then False
      else (case (dep_version a, dep_version b) of
              (Some v, Some w) \<Rightarrow> version_intersects v w
            | _ \<Rightarrow> True))"

section \<open>CpvOrDep\<close>

datatype cpv_or_dep = CdCpv cpv | CdDep dep

fun cpv_or_dep_cpn :: "cpv_or_dep \<Rightarrow> cpn" where
  "cpv_or_dep_cpn (CdCpv c) = cpv_cpn c"
| "cpv_or_dep_cpn (CdDep d) = dep_cpn d"

fun cpv_or_dep_display :: "cpv_or_dep \<Rightarrow> string option" where
  "cpv_or_dep_display (CdCpv c) = Some (cpv_display c)"
| "cpv_or_dep_display (CdDep d) = dep_display d"

fun cpv_or_dep_intersects :: "use_dep index_set \<Rightarrow> cpv_or_dep \<Rightarrow> cpv_or_dep \<Rightarrow> bool" where
  "cpv_or_dep_intersects ix (CdCpv a) (CdCpv b) = cpv_intersects a b"
| "cpv_or_dep_intersects ix (CdCpv a) (CdDep b) = cpv_intersects_dep a b"
| "cpv_or_dep_intersects ix (CdDep a) (CdCpv b) = cpv_intersects_dep b a"
| "cpv_or_dep_intersects ix (CdDep a) (CdDep b) = dep_intersects ix a b"

end
