(* ===== verification/Dep_Laws.thy ===== *)
theory Dep_Laws
  imports Dep
begin

text \<open>
  The laws of packages and dependencies: \<open>Ord\<close> is a total order that agrees with
  \<open>Eq\<close>, and intersection is reflexive, symmetric and misses no version that two
  dependencies share.
\<close>

section \<open>Order\<close>

lemma total_cmp_option_any: "total_cmp (\<lambda>_. True) c \<Longrightarrow> total_cmp Q (cmp_option c)"
  by (rule total_cmp_mono [OF total_cmp_option]) auto

lemma total_cmp_cpn [cmp_laws]: "total_cmp Q cpn_cmp"
  unfolding cpn_cmp_def [abs_def]
  by (intro total_cmp_then total_cmp_key [OF total_cmp_str [of "\<lambda>_. True"]] TrueI)

lemma total_cmp_use_dep [cmp_laws]: "total_cmp Q use_dep_cmp"
  unfolding use_dep_cmp_def [abs_def]
  by (intro total_cmp_then total_cmp_key [OF total_cmp_str [of "\<lambda>_. True"]]
      total_cmp_key [OF total_cmp_by [of "\<lambda>_. True"]] total_cmp_key [OF total_cmp_bool [of "\<lambda>_. True"]]
      total_cmp_key [OF total_cmp_option_any [OF total_cmp_bool, of "\<lambda>_. True"]] TrueI)

lemma total_cmp_slot_dep [cmp_laws]: "total_cmp Q slot_dep_cmp"
  unfolding slot_dep_cmp_def [abs_def]
  by (intro total_cmp_then total_cmp_by
      total_cmp_key [OF total_cmp_option_any [OF total_cmp_str, of "\<lambda>_. True"]]
      total_cmp_key [OF total_cmp_option_any [OF total_cmp_by, of "\<lambda>_. True"]] TrueI)

lemma total_cmp_uri [cmp_laws]: "total_cmp Q uri_cmp"
  unfolding uri_cmp_def [abs_def]
  by (intro total_cmp_then total_cmp_key [OF total_cmp_str [of "\<lambda>_. True"]]
      total_cmp_key [OF total_cmp_option_any [OF total_cmp_str, of "\<lambda>_. True"]] TrueI)

definition wf_cpv :: "cpv \<Rightarrow> bool" where
  "wf_cpv c \<longleftrightarrow> wf_version (cpv_version c) \<and> ver_op (cpv_version c) = None"

definition wf_dep :: "dep \<Rightarrow> bool" where
  "wf_dep d \<longleftrightarrow> (\<forall>v \<in> set_option (dep_version d). wf_version v \<and> ver_op v \<noteq> None)"

lemma total_cmp_cpv [cmp_laws]: "total_cmp wf_cpv cpv_cmp"
  unfolding cpv_cmp_def [abs_def]
  by (intro total_cmp_then total_cmp_key [OF total_cmp_cpn [of "\<lambda>_. True"]]
      total_cmp_key [OF ver.total_cmp_axioms] TrueI) (simp add: wf_cpv_def)

lemma total_cmp_dep [cmp_laws]: "total_cmp wf_dep dep_cmp"
  unfolding dep_cmp_def [abs_def]
proof (intro total_cmp_then)
  show "total_cmp wf_dep (\<lambda>x y. cmp_option version_ord (dep_version x) (dep_version y))"
    by (rule total_cmp_key [OF total_cmp_option [OF ver.total_cmp_axioms]]) (simp add: wf_dep_def)
  show "total_cmp wf_dep (\<lambda>x y. cmp_option (sorted_set_cmp use_dep_cmp) (dep_use_deps x) (dep_use_deps y))"
    by (rule total_cmp_key [OF total_cmp_option [OF total_cmp_sorted_set [OF total_cmp_use_dep [of "\<lambda>_. True"]]]])
      (simp add: list_all_iff)
qed (intro TrueI total_cmp_key [OF total_cmp_cpn [of "\<lambda>_. True"]]
      total_cmp_key [OF total_cmp_option_any [OF total_cmp_by, of "\<lambda>_. True"]]
      total_cmp_key [OF total_cmp_option_any [OF total_cmp_slot_dep, of "\<lambda>_. True"]]
      total_cmp_key [OF total_cmp_option_any [OF total_cmp_str, of "\<lambda>_. True"]])+

interpretation cpv_ord: total_cmp wf_cpv cpv_cmp by (rule total_cmp_cpv)

interpretation dep_ord: total_cmp wf_dep dep_cmp by (rule total_cmp_dep)

interpretation use_dep_ord: total_cmp "\<lambda>_. True" use_dep_cmp by (rule total_cmp_use_dep)

lemma cpn_cmp_eq [simp]: "cpn_cmp a b = Equal \<longleftrightarrow> a = b"
  by (cases a; cases b) (simp add: cpn_cmp_def)

lemma use_dep_kind_index_eq [simp]: "use_dep_kind_index k = use_dep_kind_index l \<longleftrightarrow> k = l"
  by (cases k; cases l) simp_all

lemma blocker_index_eq [simp]: "blocker_index k = blocker_index l \<longleftrightarrow> k = l"
  by (cases k; cases l) simp_all

lemma slot_operator_index_eq [simp]: "slot_operator_index k = slot_operator_index l \<longleftrightarrow> k = l"
  by (cases k; cases l) simp_all

lemma cmp_option_Equal: "cmp_option c x y = Equal \<longleftrightarrow> rel_option (\<lambda>a b. c a b = Equal) x y"
  by (cases x; cases y) simp_all

lemma rel_option_eq_iff [simp]: "rel_option (\<lambda>a b. a = b) x y \<longleftrightarrow> x = y"
  by (cases x; cases y) simp_all

lemma use_dep_cmp_eq [simp]: "use_dep_cmp a b = Equal \<longleftrightarrow> a = b"
  by (cases a; cases b) (simp add: use_dep_cmp_def cmp_option_Equal)

lemma slot_dep_cmp_eq [simp]: "slot_dep_cmp a b = Equal \<longleftrightarrow> a = b"
proof (cases a; cases b)
  fix s t assume "a = SlotDepSlot s" "b = SlotDepSlot t"
  then show ?thesis by (cases s; cases t) (simp add: slot_dep_cmp_def)
next
  fix s t op1 op2 assume "a = SlotDepSlotOp s op1" "b = SlotDepSlotOp t op2"
  then show ?thesis by (cases s; cases t) (simp add: slot_dep_cmp_def)
qed (simp_all add: slot_dep_cmp_def)

lemma dep_eq_iff: "dep_eq a b \<longleftrightarrow> dep_cmp a b = Equal"
  by (auto simp: dep_eq_def dep_cmp_def cmp_option_Equal sorted_set_eq_def [abs_def]
      version_ord_def version_eq_def [abs_def])

lemma cpv_eq_iff: "cpv_eq a b \<longleftrightarrow> cpv_cmp a b = Equal"
  by (auto simp: cpv_eq_def cpv_cmp_def version_ord_def version_eq_def)

section \<open>USE dependencies\<close>

lemma entry_insert_keys: "distinct (map fst m) \<Longrightarrow> distinct (map fst (entry_insert k v m)) \<and>
    set (map fst (entry_insert k v m)) = insert k (set (map fst m))"
  by (induction k v m rule: entry_insert.induct) auto

lemma map_of_entry_insert:
  "map_of (entry_insert k v m) =
    (map_of m)(k \<mapsto> add_new (=) (case map_of m k of None \<Rightarrow> [] | Some vs \<Rightarrow> vs) v)"
  by (induction k v m rule: entry_insert.induct) (auto simp: add_new_def fun_eq_iff)

lemma collect_sets_snoc: "collect_sets (kvs @ [(k, v)]) = entry_insert k v (collect_sets kvs)"
  by (simp add: collect_sets_def)

lemma distinct_collect_sets: "distinct (map fst (collect_sets kvs))"
proof (induction kvs rule: rev_induct)
  case (snoc kv kvs)
  then show ?case by (cases kv) (simp add: collect_sets_snoc entry_insert_keys)
qed (simp add: collect_sets_def)

lemma map_of_collect_sets:
  "map_of (collect_sets kvs) k =
    (let vs = map snd (filter (\<lambda>kv. fst kv = k) kvs) in if vs = [] then None else Some (firsts_by (=) vs))"
proof (induction kvs rule: rev_induct)
  case (snoc kv kvs)
  obtain k' v where kv: "kv = (k', v)" by (cases kv)
  show ?case
  proof (cases "k' = k")
    case True
    then show ?thesis
      using snoc kv by (auto simp: collect_sets_snoc map_of_entry_insert Let_def firsts_by_snoc
          firsts_by_def split: if_splits)
  next
    case False
    then show ?thesis using snoc kv by (simp add: collect_sets_snoc map_of_entry_insert)
  qed
qed (simp add: collect_sets_def)

lemma length_firsts_by_bool: "length (firsts_by (=) bs) = 2 \<longleftrightarrow> True \<in> set bs \<and> False \<in> set bs"
proof -
  have "distinct (firsts_by (=) bs)"
    using distinct_by_firsts_by [of "(=)" bs] by (simp add: symp_def)
  then have "length (firsts_by (=) bs) = card (set bs)"
    using distinct_card by fastforce
  moreover have "card (set bs) = 2 \<longleftrightarrow> True \<in> set bs \<and> False \<in> set bs"
  proof -
    have "card (set bs) = 2 \<longleftrightarrow> set bs = UNIV"
      using card_eq_UNIV_imp_eq_UNIV [of "set bs"] by auto
    also have "\<dots> \<longleftrightarrow> True \<in> set bs \<and> False \<in> set bs"
      by (auto simp: UNIV_bool)
    finally show ?thesis .
  qed
  ultimately show ?thesis by simp
qed

lemma both_bools: "(\<exists>vs. (if ws = [] then None else Some (firsts_by (=) ws)) = Some vs \<and> length vs = 2) \<longleftrightarrow>
    True \<in> set ws \<and> False \<in> set ws"
  using length_firsts_by_bool [of ws] by auto

lemma common_key:
  "(\<exists>k. (\<exists>u \<in> S. A u \<and> f u = k \<and> e u = True) \<and> (\<exists>u \<in> S. A u \<and> f u = k \<and> e u = False)) \<longleftrightarrow>
   (\<exists>u \<in> S. \<exists>w \<in> S. A u \<and> A w \<and> f u = f w \<and> e u \<and> \<not> e w)"
  by simp metis

lemma list_ex_map_of: "distinct (map fst m) \<Longrightarrow>
    list_ex f (map snd m) \<longleftrightarrow> (\<exists>k vs. map_of m k = Some vs \<and> f vs)"
  by (force simp: list_ex_iff)

text \<open>Two sets conflict when a flag of one kind is asked for both ways among the USE
  dependencies that only one of them has.\<close>

definition use_deps_conflict :: "use_dep list \<Rightarrow> use_dep list \<Rightarrow> bool" where
  "use_deps_conflict s t \<longleftrightarrow>
     (\<exists>u \<in> (set s - set t) \<union> (set t - set s). \<exists>w \<in> (set s - set t) \<union> (set t - set s).
        ud_kind u = UseEnabled \<and> ud_kind w = UseEnabled \<and> ud_flag u = ud_flag w \<and>
        ud_enabled u \<and> \<not> ud_enabled w)"

lemma use_deps_intersects_iff:
  assumes "index_set (=) ix"
  shows "use_deps_intersects ix s t \<longleftrightarrow> \<not> use_deps_conflict s t"
proof -
  let ?us = "filter (\<lambda>u. ud_kind u = UseEnabled) (is_symmetric_difference ix s t)"
  let ?kvs = "map (\<lambda>u. (ud_flag u, ud_enabled u)) ?us"
  have sym: "set (is_symmetric_difference ix s t) = (set s - set t) \<union> (set t - set s)"
    by (auto simp: is_symmetric_difference_def is_difference_def index_set.contains [OF assms])
  have "list_ex (\<lambda>vals. length vals = 2) (map snd (collect_sets ?kvs)) \<longleftrightarrow>
      (\<exists>k vs. map_of (collect_sets ?kvs) k = Some vs \<and> length vs = 2)"
    by (rule list_ex_map_of [OF distinct_collect_sets])
  also have "\<dots> \<longleftrightarrow> (\<exists>k. let vs = map snd (filter (\<lambda>kv. fst kv = k) ?kvs) in True \<in> set vs \<and> False \<in> set vs)"
    unfolding map_of_collect_sets Let_def by (intro ex_cong1 both_bools)
  also have "\<dots> \<longleftrightarrow> use_deps_conflict s t"
  proof -
    have mem: "e \<in> set (map snd (filter (\<lambda>kv. fst kv = k) ?kvs)) \<longleftrightarrow>
        (\<exists>u \<in> (set s - set t) \<union> (set t - set s). ud_kind u = UseEnabled \<and> ud_flag u = k \<and> ud_enabled u = e)"
      for e k unfolding sym [symmetric] by (auto simp: image_iff)
    show ?thesis unfolding Let_def mem use_deps_conflict_def by (rule common_key)
  qed
  finally show ?thesis by (simp add: use_deps_intersects_def)
qed

lemma use_deps_conflict_sym: "use_deps_conflict s t = use_deps_conflict t s"
  by (simp add: use_deps_conflict_def Un_commute)

lemma use_deps_conflict_refl [simp]: "\<not> use_deps_conflict s s"
  by (simp add: use_deps_conflict_def)

section \<open>Intersection\<close>

lemma both_differ_cases: "both_differ eq x y \<longleftrightarrow> (\<exists>a b. x = Some a \<and> y = Some b \<and> \<not> eq a b)"
  by (auto simp: both_differ_def split: option.splits)

lemma dep_intersects_iff:
  "dep_intersects ix a b \<longleftrightarrow>
     dep_cpn a = dep_cpn b \<and> \<not> both_differ (=) (dep_slot a) (dep_slot b) \<and>
     \<not> both_differ (=) (dep_subslot a) (dep_subslot b) \<and>
     \<not> both_differ (use_deps_intersects ix) (dep_use_deps a) (dep_use_deps b) \<and>
     \<not> both_differ (=) (dep_repo a) (dep_repo b) \<and>
     \<not> both_differ version_intersects (dep_version a) (dep_version b)"
  by (auto simp: dep_intersects_def both_differ_def split: option.splits)

lemma dep_intersects_sym:
  assumes ix: "index_set (=) ix" and "wf_dep a" "wf_dep b"
  shows "dep_intersects ix a b = dep_intersects ix b a"
proof -
  have "both_differ version_intersects (dep_version a) (dep_version b) =
      both_differ version_intersects (dep_version b) (dep_version a)"
    using assms(2,3) version_intersects_sym by (auto simp: both_differ_cases wf_dep_def)
  moreover have "both_differ (use_deps_intersects ix) x y = both_differ (use_deps_intersects ix) y x" for x y
    using use_deps_conflict_sym by (auto simp: both_differ_cases use_deps_intersects_iff [OF ix])
  moreover have "both_differ (=) x y = both_differ (=) y x" for x y :: "string option"
    by (auto simp: both_differ_cases)
  ultimately show ?thesis unfolding dep_intersects_iff by metis
qed

lemma dep_intersects_refl:
  assumes ix: "index_set (=) ix" and "wf_dep a"
  shows "dep_intersects ix a a"
  using assms(2) version_intersects_refl
  by (auto simp: dep_intersects_iff both_differ_cases use_deps_intersects_iff [OF ix] wf_dep_def)

text \<open>Dependencies that one package version satisfies, and that do not disagree on slot,
  repository or USE flags, intersect.\<close>

definition no_glob :: "dep \<Rightarrow> bool" where
  "no_glob d \<longleftrightarrow> dep_op d \<noteq> Some OpEqualGlob"

lemma dep_intersects_if_common:
  assumes "wf_dep a" "wf_dep b" "no_glob a" "no_glob b" "wf_cpv c"
    and "cpv_intersects_dep c a" "cpv_intersects_dep c b"
    and rest: "\<not> both_differ (=) (dep_slot a) (dep_slot b)"
      "\<not> both_differ (=) (dep_subslot a) (dep_subslot b)"
      "\<not> both_differ (use_deps_intersects ix) (dep_use_deps a) (dep_use_deps b)"
      "\<not> both_differ (=) (dep_repo a) (dep_repo b)"
  shows "dep_intersects ix a b"
proof -
  have sat: "satisfies v (cpv_version c) \<and> ver_op v \<noteq> Some OpEqualGlob \<and> wf_version v"
    if "dep_version d = Some v" "d = a \<or> d = b" for d v
    using that assms satisfies_intersects [of v "cpv_version c"]
    by (auto simp: cpv_intersects_dep_def wf_dep_def wf_cpv_def no_glob_def dep_op_def split: if_splits)
  have "\<not> both_differ version_intersects (dep_version a) (dep_version b)"
    using sat [of a] sat [of b] version_intersects_complete [of _ _ "cpv_version c"] assms(5)
    by (auto simp: both_differ_cases wf_cpv_def)
  moreover have "dep_cpn a = dep_cpn b"
    using assms(6,7) by (auto simp: cpv_intersects_dep_def split: if_splits)
  ultimately show ?thesis using rest by (simp add: dep_intersects_iff)
qed

section \<open>Names\<close>

lemma cpv_pf_revision:
  assumes "wf_cpv c"
  shows "cpv_pf c = cpv_p c @ (if cpv_revision c = None then [] else ''-'' @ cpv_pr c)"
  using assms
  by (simp add: cpv_pf_def cpv_p_def cpv_pvr_def cpv_pr_def cpv_revision_def wf_cpv_def
      version_display_no_op version_base_text version_without_op_text revision_text_def
      version_revision_def revision_display_def number_display_def)

end
