(* ===== verification/Dep_Parse.thy ===== *)
theory Dep_Parse
  imports Dep_Laws Eapi
begin

text \<open>
  The package rules of \<open>dep/parse.rs\<close>: categories, packages, slots, USE dependencies,
  repositories, \<open>cpn\<close>, \<open>cpv\<close>, \<open>dep\<close> and \<open>cpv_or_dep\<close>, and the
  constructors that run them. A package name may hold hyphens as long as what follows none of
  them is a version up to the end of the name, which the rule decides by looking ahead beyond
  the name; the lemmas settle what may follow.
\<close>

section \<open>Characters\<close>

definition word_char :: "char \<Rightarrow> bool" where
  "word_char c \<longleftrightarrow> is_lower c \<or> is_upper c \<or> is_digit c \<or> c = CHR ''_''"

definition name_char :: "char \<Rightarrow> bool" where
  "name_char c \<longleftrightarrow> word_char c \<or> c = CHR ''+'' \<or> c = CHR ''.'' \<or> c = CHR ''-''"

definition package_char :: "char \<Rightarrow> bool" where
  "package_char c \<longleftrightarrow> word_char c \<or> c = CHR ''+''"

definition flag_first :: "char \<Rightarrow> bool" where
  "flag_first c \<longleftrightarrow> is_lower c \<or> is_upper c \<or> is_digit c"

definition flag_char :: "char \<Rightarrow> bool" where
  "flag_char c \<longleftrightarrow> flag_first c \<or> c = CHR ''+'' \<or> c = CHR ''_'' \<or> c = CHR ''@'' \<or> c = CHR ''-''"

section \<open>Rules\<close>

definition p_category :: "string parser" where
  "p_category = p_name word_char name_char"

text \<open>The rule \<open>__\<close>: white space between the tokens of a dependency.\<close>

definition p_blanks :: "string parser" where
  "p_blanks = p_plus (p_class is_blank)"

definition p_eof :: "unit parser" where
  "p_eof = p_not (p_class (\<lambda>_. True))"

definition p_atom_stop :: "unit parser" where
  "p_atom_stop =
     p_alt (p_map (\<lambda>_. ()) p_blanks)
    (p_alt (p_map (\<lambda>_. ()) (p_lit ''*''))
    (p_alt (p_map (\<lambda>_. ()) (p_lit '':''))
    (p_alt (p_map (\<lambda>_. ()) (p_lit ''['')) p_eof)))"

definition p_version_ahead :: "unit parser" where
  "p_version_ahead =
     p_then p_version (p_then (p_opt (p_then (p_lit ''-'') p_version)) p_atom_stop)"

definition p_package_step :: "unit parser" where
  "p_package_step = p_alt (p_map (\<lambda>_. ()) (p_class package_char))
     (p_then (p_lit ''-'') (p_not p_version_ahead))"

definition p_package :: "string parser" where
  "p_package = p_slice (p_then (p_class word_char) (p_many p_package_step))"

definition p_slot_name :: "string parser" where
  "p_slot_name = p_name word_char name_char"

definition p_slot :: "slot parser" where
  "p_slot = p_map Slot (p_slice (p_then p_slot_name (p_opt (p_then (p_lit ''/'') p_slot_name))))"

definition p_slot_dep :: "slot_dep parser" where
  "p_slot_dep =
     p_alt (p_map (\<lambda>_. SlotDepOp SlotEqual) (p_lit ''=''))
    (p_alt (p_map (\<lambda>_. SlotDepOp SlotStar) (p_lit ''*''))
    (p_alt (p_map (\<lambda>slot. SlotDepSlotOp slot SlotEqual) (p_before p_slot (p_lit ''='')))
           (p_map SlotDepSlot p_slot)))"

definition p_slot_dep_str :: "slot_dep parser" where
  "p_slot_dep_str = p_then (p_lit '':'') p_slot_dep"

definition p_blocker :: "blocker parser" where
  "p_blocker = p_try (p_slice (p_then (p_lit ''!'') (p_opt (p_lit ''!'')))) blocker_from_str"

definition p_use_flag :: "string parser" where
  "p_use_flag = p_name flag_first flag_char"

definition p_use_dep_default :: "bool parser" where
  "p_use_dep_default = p_alt (p_map (\<lambda>_. True) (p_lit ''(+)'')) (p_map (\<lambda>_. False) (p_lit ''(-)''))"

text \<open>The \<open>unreachable!\<close> on another kind cannot be reached: the class has the two
  characters only.\<close>

definition p_use_dep :: "use_dep parser" where
  "p_use_dep =
     p_alt
       (p_bind (p_opt (p_lit ''!'')) (\<lambda>disabled.
        p_bind p_use_flag (\<lambda>flag.
        p_bind (p_opt p_use_dep_default) (\<lambda>default.
        p_bind (p_class (\<lambda>c. c = CHR ''='' \<or> c = CHR ''?'')) (\<lambda>kind.
          p_return \<lparr>ud_flag = flag, ud_kind = (if kind = CHR ''='' then UseEqual else UseConditional),
            ud_enabled = (disabled = None), ud_default = default\<rparr>)))))
       (p_bind (p_opt (p_lit ''-'')) (\<lambda>disabled.
        p_bind p_use_flag (\<lambda>flag.
        p_bind (p_opt p_use_dep_default) (\<lambda>default.
          p_return \<lparr>ud_flag = flag, ud_kind = UseEnabled,
            ud_enabled = (disabled = None), ud_default = default\<rparr>))))"

definition p_use_deps :: "use_dep list parser" where
  "p_use_deps = p_then (p_lit ''['') (p_before (p_sep1 p_use_dep (p_lit '','')) (p_lit '']''))"

definition p_repo_step :: "unit parser" where
  "p_repo_step = p_alt (p_map (\<lambda>_. ()) (p_class word_char)) (p_then (p_lit ''-'') (p_not p_version))"

definition p_repo :: "string parser" where
  "p_repo = p_slice (p_then (p_class word_char) (p_many p_repo_step))"

definition p_repo_dep :: "eapi \<Rightarrow> string parser" where
  "p_repo_dep e = p_try (p_then (p_lit ''::'') p_repo) (\<lambda>repo. if eapi_has e RepoIds then Some repo else None)"

definition p_cpn :: "cpn parser" where
  "p_cpn = p_bind p_category (\<lambda>category. p_then (p_lit ''/'')
     (p_bind p_package (\<lambda>package. p_return \<lparr>cpn_category = category, cpn_package = package\<rparr>)))"

definition p_cpv :: "cpv parser" where
  "p_cpv = p_bind p_cpn (\<lambda>cpn. p_then (p_lit ''-'')
     (p_bind p_version (\<lambda>version. p_return \<lparr>cpv_cpn = cpn, cpv_version = version\<rparr>)))"

definition p_dep_pkg :: "dep parser" where
  "p_dep_pkg = p_alt (p_map dep_from_cpn p_cpn) (p_with_op cpv_with_op p_cpv)"

definition p_dep :: "use_dep index_set \<Rightarrow> eapi \<Rightarrow> dep parser" where
  "p_dep ix e =
     p_bind (p_opt p_blocker) (\<lambda>blocker.
     p_bind p_dep_pkg (\<lambda>dep.
     p_bind (p_opt p_slot_dep_str) (\<lambda>slot.
     p_bind (p_opt (p_repo_dep e)) (\<lambda>repo.
     p_bind (p_opt p_use_deps) (\<lambda>use_deps.
       p_return (dep_with ix dep blocker slot use_deps repo))))))"

definition p_cpv_or_dep :: "use_dep index_set \<Rightarrow> cpv_or_dep parser" where
  "p_cpv_or_dep ix = p_alt (p_map CdCpv p_cpv) (p_map CdDep (p_dep ix default_eapi))"

section \<open>Constructors\<close>

definition parse_category :: "string \<Rightarrow> error + string" where
  "parse_category s = peg_result ''invalid category name'' s (p_run p_category s)"

definition parse_package :: "string \<Rightarrow> error + string" where
  "parse_package s = peg_result ''invalid package name'' s (p_run p_package s)"

definition parse_slot :: "string \<Rightarrow> error + slot" where
  "parse_slot s = peg_result ''invalid slot'' s (p_run p_slot s)"

definition parse_use_dep :: "string \<Rightarrow> error + use_dep" where
  "parse_use_dep s = peg_result ''invalid use dep'' s (p_run p_use_dep s)"

definition parse_slot_dep :: "string \<Rightarrow> error + slot_dep" where
  "parse_slot_dep s = peg_result ''invalid slot'' s (p_run p_slot_dep s)"

definition parse_use_flag :: "string \<Rightarrow> error + string" where
  "parse_use_flag s = peg_result ''invalid USE flag'' s (p_run p_use_flag s)"

definition parse_repo :: "string \<Rightarrow> error + string" where
  "parse_repo s = peg_result ''invalid repo name'' s (p_run p_repo s)"

definition parse_cpn :: "string \<Rightarrow> error + cpn" where
  "parse_cpn s = peg_result ''invalid cpn'' s (p_run p_cpn s)"

definition parse_cpv :: "string \<Rightarrow> error + cpv" where
  "parse_cpv s = peg_result ''invalid cpv'' s (p_run p_cpv s)"

definition parse_cpv_or_dep :: "use_dep index_set \<Rightarrow> string \<Rightarrow> error + cpv_or_dep" where
  "parse_cpv_or_dep ix s = peg_result ''invalid cpv or dep'' s (p_run (p_cpv_or_dep ix) s)"

text \<open>The cache around \<open>parse::dep\<close> returns what the function returned before.\<close>

definition parse_dep :: "use_dep index_set \<Rightarrow> eapi \<Rightarrow> string \<Rightarrow> error + dep" where
  "parse_dep ix e s = peg_result ''invalid dep'' s (p_run (p_dep ix e) s)"

definition cpn_try_from :: "string \<Rightarrow> string \<Rightarrow> error + cpn" where
  "cpn_try_from category package =
     (case parse_category category of Inl e \<Rightarrow> Inl e | Inr c \<Rightarrow>
     (case parse_package package of Inl e \<Rightarrow> Inl e | Inr p \<Rightarrow>
        Inr \<lparr>cpn_category = c, cpn_package = p\<rparr>))"

definition cpv_try_from :: "string \<Rightarrow> string \<Rightarrow> string \<Rightarrow> error + cpv" where
  "cpv_try_from category package version =
     (case cpn_try_from category package of Inl e \<Rightarrow> Inl e | Inr cpn \<Rightarrow>
     (case version_try_new version of Inl e \<Rightarrow> Inl e | Inr v \<Rightarrow>
        Inr \<lparr>cpv_cpn = cpn, cpv_version = v\<rparr>))"

definition dep_try_new :: "use_dep index_set \<Rightarrow> string \<Rightarrow> error + dep" where
  "dep_try_new ix s = parse_dep ix default_eapi s"

end
