(* ===== verification/Dep_Round.thy ===== *)
theory Dep_Round
  imports Dep_Parse
begin

text \<open>
  Round trips of package names and dependencies. The hard part is the package name: its rule
  looks ahead beyond the name, so that what a name may be depends on what follows. The
  contexts it occurs in (the end of the input, a slot, a repository, USE dependencies, or a
  version in front of one of these) make the decision local (\<open>package_context\<close>).
\<close>

section \<open>Versions and what follows them\<close>

lemma inert_number: "number_end t \<Longrightarrow> inert p_number t"
  unfolding p_number_def number_end_def by (intro inert_intros) auto

lemma suffix_dash_r: "suffix v ''-r'' \<Longrightarrow> v \<noteq> [] \<Longrightarrow> v = ''-r'' \<or> v = ''r''"
  by (auto simp: suffix_def append_eq_Cons_conv Cons_eq_append_conv)

lemma inert_version:
  assumes t: "version_end t"
  shows "inert p_version t"
proof -
  have n: "number_end t" by (rule suffix_end_number [OF version_end_suffix [OF t]])
  have hd: "t = [] \<or> hd t \<notin> set ''.''" "t = [] \<or> hd t \<notin> set ''_''" "t = [] \<or> \<not> is_lower (hd t)"
    using t by (auto simp: version_end_def)
  have lit: "t = [] \<or> hd t \<notin> set w" if "list_all is_lower w" for w
    using t that by (auto simp: version_end_def list_all_iff)
  have "inert (p_lit ''-r'') t"
  proof (rule inert_lit)
    fix v assume "suffix v ''-r''" "v \<noteq> []"
    then show "\<not> starts_with t v"
      using suffix_dash_r [of v] t by (cases t) (auto simp: version_end_def starts_with_def char_classes)
  qed
  moreover have "inert p_suffix t"
    unfolding p_suffix_def by (intro inert_alt inert_map inert_lit_hd lit) (simp_all add: char_classes)
  moreover have "inert p_revision t" if "inert (p_lit ''-r'') t"
    unfolding p_revision_def by (intro inert_then that inert_map inert_number [OF n])
  moreover have "inert p_version_suffix t" if "inert p_suffix t"
    unfolding p_version_suffix_def
    by (intro inert_then inert_lit_hd hd inert_bind that inert_opt inert_number [OF n] inert_return)
  ultimately show ?thesis
    unfolding p_version_def
    by (intro inert_bind inert_sep1 inert_number [OF n] inert_lit_hd hd inert_opt inert_class inert_many
        inert_return) simp_all
qed

lemma version_None_hd: "s = [] \<or> \<not> is_digit (hd s) \<Longrightarrow> p_version s = None"
  by (cases s) (auto simp: p_version_def p_bind_def p_sep1_def p_number_def p_try_def p_name_eq split: list.splits)

section \<open>The lookahead\<close>

definition stop_char :: "char \<Rightarrow> bool" where
  "stop_char c \<longleftrightarrow> is_blank c \<or> c = CHR ''*'' \<or> c = CHR '':'' \<or> c = CHR ''[''"

text \<open>What may follow a complete package or version.\<close>

definition atom_end :: "string \<Rightarrow> bool" where
  "atom_end t \<longleftrightarrow> t = [] \<or> stop_char (hd t)"

lemma atom_end_version: "atom_end t \<Longrightarrow> version_end t"
  by (cases t) (auto simp: atom_end_def version_end_def stop_char_def char_classes starts_with_def)

definition p_dash_version :: "version option parser" where
  "p_dash_version = p_opt (p_then (p_lit ''-'') p_version)"

lemma p_class_simps [simp]:
  "p_class C [] = None" "p_class C (c # s) = (if C c then Some (c, s) else None)"
  by (simp_all add: p_class_def)

lemma p_plus_class: "(p_plus (p_class C) s = None) = (s = [] \<or> \<not> C (hd s))"
  by (cases s) (auto simp: p_plus_def p_bind_def p_many_def p_return_def p_star_class)

lemma p_atom_stop_None: "p_atom_stop r = None \<longleftrightarrow> \<not> atom_end r"
proof (cases r)
  case Nil
  then have "p_blanks r = None" using p_plus_class [of is_blank r] by (simp add: p_blanks_def)
  with Nil show ?thesis
    by (simp add: p_atom_stop_def p_alt_def p_map_def p_bind_def p_lit_hd p_eof_def p_not_def p_class_def atom_end_def)
next
  case (Cons c u)
  have "p_blanks r = None \<longleftrightarrow> \<not> is_blank c"
    using p_plus_class [of is_blank r] Cons by (simp add: p_blanks_def)
  with Cons show ?thesis
    by (auto simp: p_atom_stop_def p_alt_def p_map_def p_bind_def p_return_def p_lit_Cons p_eof_def p_not_def
        p_class_def atom_end_def stop_char_def split: option.splits)
qed

lemma ahead_None: "p_version_ahead s = None \<longleftrightarrow>
    (case p_version s of None \<Rightarrow> True
     | Some (v, r) \<Rightarrow> (case p_dash_version r of None \<Rightarrow> True | Some (w, r') \<Rightarrow> \<not> atom_end r'))"
  unfolding p_version_ahead_def p_dash_version_def [symmetric]
  by (auto simp: p_then_def p_bind_def p_atom_stop_None split: option.splits)

lemma p_dash_version_Nil [simp]: "p_dash_version [] = Some (None, [])"
  by (simp add: p_dash_version_def p_opt_def p_then_def p_bind_def p_lit_hd)

lemma p_dash_version_Cons: "p_dash_version (c # s) =
    (if c = CHR ''-'' then (case p_version s of None \<Rightarrow> Some (None, c # s) | Some (w, r) \<Rightarrow> Some (Some w, r))
     else Some (None, c # s))"
  by (auto simp: p_dash_version_def p_opt_def p_then_def p_bind_def p_lit_Cons split: option.splits)

lemma p_dash_version_append:
  assumes "version_end t" "r \<noteq> []"
  shows "p_dash_version (r @ t) = map_option (\<lambda>(w, u). (w, u @ t)) (p_dash_version r)"
  using assms(2) inertD [OF inert_version [OF assms(1)]]
  by (cases r) (auto simp: p_dash_version_Cons split: option.splits)

lemma ahead_full: "p_version s = Some (v, []) \<Longrightarrow> p_version_ahead s \<noteq> None"
  by (simp add: ahead_None atom_end_def)

section \<open>Names read one character at a time\<close>

text \<open>A repetition that takes one character at a step, by what the character is and what
  follows it.\<close>

definition stepper :: "(string \<Rightarrow> char \<Rightarrow> bool) \<Rightarrow> unit parser \<Rightarrow> bool" where
  "stepper st p \<longleftrightarrow> (\<forall>s. p s = (case s of [] \<Rightarrow> None | c # u \<Rightarrow> if st u c then Some ((), u) else None))"

fun step_body :: "(string \<Rightarrow> char \<Rightarrow> bool) \<Rightarrow> string \<Rightarrow> string \<Rightarrow> bool" where
  "step_body st r [] = True"
| "step_body st r (c # u) \<longleftrightarrow> st (u @ r) c \<and> step_body st r u"

definition step_stop :: "(string \<Rightarrow> char \<Rightarrow> bool) \<Rightarrow> string \<Rightarrow> bool" where
  "step_stop st r \<longleftrightarrow> (case r of [] \<Rightarrow> True | c # u \<Rightarrow> \<not> st u c)"

lemma stepper_star:
  assumes "stepper st p"
  shows "snd (p_star p s) = r \<longleftrightarrow> (\<exists>u. s = u @ r \<and> step_body st r u \<and> step_stop st r)"
proof (induction s)
  case Nil
  have "p_star p [] = ([], [])" by (rule p_star_stop) (use assms in \<open>simp add: stepper_def\<close>)
  then show ?case by (auto simp: step_stop_def)
next
  case (Cons c s)
  show ?case
  proof (cases "st s c")
    case True
    then have "p (c # s) = Some ((), s)" using assms by (simp add: stepper_def)
    then have "snd (p_star p (c # s)) = snd (p_star p s)"
      by (simp add: p_star.simps [of p "c # s"] split_beta)
    moreover have "(\<exists>u. c # s = u @ r \<and> step_body st r u \<and> step_stop st r) \<longleftrightarrow>
        (\<exists>u. s = u @ r \<and> step_body st r u \<and> step_stop st r)"
    proof
      assume "\<exists>u. c # s = u @ r \<and> step_body st r u \<and> step_stop st r"
      then obtain u where u: "c # s = u @ r" "step_body st r u" "step_stop st r" by blast
      with True have "u \<noteq> []" by (auto simp: step_stop_def)
      with u show "\<exists>u. s = u @ r \<and> step_body st r u \<and> step_stop st r" by (cases u) auto
    next
      assume "\<exists>u. s = u @ r \<and> step_body st r u \<and> step_stop st r"
      then obtain u where "s = u @ r" "step_body st r u" "step_stop st r" by blast
      with True show "\<exists>u. c # s = u @ r \<and> step_body st r u \<and> step_stop st r"
        by (intro exI [of _ "c # u"]) simp
    qed
    ultimately show ?thesis using Cons.IH by simp
  next
    case False
    then have "p_star p (c # s) = ([], c # s)"
      using assms by (intro p_star_stop) (simp add: stepper_def)
    moreover have "u = []" if "c # s = u @ r" "step_body st r u" for u
      using that False by (cases u) auto
    ultimately show ?thesis using False by (fastforce simp: step_stop_def)
  qed
qed

text \<open>The slice of a first character and such a repetition.\<close>

lemma stepper_name:
  assumes "stepper st p"
  shows "p_slice (p_then (p_class C) (p_many p)) s = Some (x, r) \<longleftrightarrow>
    (\<exists>c u. x = c # u \<and> s = x @ r \<and> C c \<and> step_body st r u \<and> step_stop st r)"
proof (cases s)
  case Nil
  then show ?thesis by (auto simp: p_slice_def p_then_def p_bind_def)
next
  case (Cons c s')
  obtain xs r' where star: "p_star p s' = (xs, r')" by (cases "p_star p s'")
  obtain u where u: "s' = u @ r'" "step_body st r' u" "step_stop st r'"
    using stepper_star [OF assms, of s' r'] star by auto
  have eq: "p_slice (p_then (p_class C) (p_many p)) s = (if C c then Some (c # u, r') else None)"
    using Cons star u by (simp add: p_slice_def p_then_def p_bind_def p_many_def Suc_diff_le)
  show ?thesis
  proof
    assume "p_slice (p_then (p_class C) (p_many p)) s = Some (x, r)"
    then show "\<exists>c u. x = c # u \<and> s = x @ r \<and> C c \<and> step_body st r u \<and> step_stop st r"
      using eq u Cons by (auto split: if_splits)
  next
    assume "\<exists>c u. x = c # u \<and> s = x @ r \<and> C c \<and> step_body st r u \<and> step_stop st r"
    then obtain d w where x: "x = d # w" "s = x @ r" "C d" "step_body st r w" "step_stop st r" by blast
    then have "snd (p_star p s') = r" using stepper_star [OF assms, of s' r] Cons by auto
    then show "p_slice (p_then (p_class C) (p_many p)) s = Some (x, r)" using eq star x u Cons by auto
  qed
qed

section \<open>Package names\<close>

definition package_step :: "string \<Rightarrow> char \<Rightarrow> bool" where
  "package_step u c \<longleftrightarrow> package_char c \<or> c = CHR ''-'' \<and> p_version_ahead u = None"

abbreviation package_body :: "string \<Rightarrow> string \<Rightarrow> bool" where
  "package_body \<equiv> step_body package_step"

abbreviation package_stop :: "string \<Rightarrow> bool" where
  "package_stop \<equiv> step_stop package_step"

definition valid_package :: "string \<Rightarrow> bool" where
  "valid_package x \<longleftrightarrow> (case x of [] \<Rightarrow> False | c # u \<Rightarrow> word_char c \<and> package_body [] u)"

lemma dash_not_package [simp]: "\<not> package_char (CHR ''-'')"
  by (simp add: package_char_def word_char_def char_classes)

lemma stepper_package: "stepper package_step p_package_step"
  by (auto simp: stepper_def p_package_step_def package_step_def p_alt_def p_map_def p_bind_def p_return_def
      p_then_def p_not_def p_lit_Cons p_lit_hd split: option.splits list.splits)

lemma p_package_iff: "p_package s = Some (x, r) \<longleftrightarrow>
    (\<exists>c u. x = c # u \<and> s = x @ r \<and> word_char c \<and> package_body r u \<and> package_stop r)"
  unfolding p_package_def by (rule stepper_name [OF stepper_package])

text \<open>What may follow a package: the end of the atom, or a version that ends it.\<close>

definition package_follow :: "string \<Rightarrow> bool" where
  "package_follow r \<longleftrightarrow> atom_end r \<or>
     (\<exists>w v t. r = CHR ''-'' # w \<and> p_version w = Some (v, t) \<and> atom_end t)"

lemma version_hd_digit: "p_version w = Some z \<Longrightarrow> w \<noteq> [] \<and> is_digit (hd w)"
  using version_None_hd [of w] by auto

lemma atom_end_dash: "atom_end t \<Longrightarrow> p_dash_version t = Some (None, t)"
  by (cases t) (auto simp: p_dash_version_Cons atom_end_def stop_char_def char_classes)

lemma package_follow_version_end: "package_follow r \<Longrightarrow> version_end r"
  unfolding package_follow_def
proof (elim disjE exE conjE)
  fix w v t assume "r = CHR ''-'' # w" "p_version w = Some (v, t)"
  with version_hd_digit [of w "(v, t)"] show "version_end r"
    by (cases w) (auto simp: version_end_def starts_with_def char_classes)
qed (rule atom_end_version)

lemma package_follow_stop: "package_follow r \<Longrightarrow> package_stop r"
proof -
  have "\<not> package_char c" if "stop_char c" for c
    using that by (auto simp: stop_char_def package_char_def word_char_def char_classes)
  moreover have "\<not> stop_char (CHR ''-'')" by (simp add: stop_char_def char_classes)
  moreover have "p_version_ahead w \<noteq> None" if "p_version w = Some (v, t)" "atom_end t" for w v t
    using that by (simp add: ahead_None atom_end_dash)
  ultimately show "package_follow r \<Longrightarrow> package_stop r"
    by (auto simp: package_follow_def step_stop_def package_step_def atom_end_def split: list.splits)
qed

lemma package_body_dash: "package_body r (a @ CHR ''-'' # w) \<Longrightarrow> p_version_ahead (w @ r) = None"
  by (induction a) (simp_all add: package_step_def)

lemma package_body_chars: "package_body r u \<Longrightarrow> c \<in> set u \<Longrightarrow> package_char c \<or> c = CHR ''-''"
  by (induction u) (auto simp: package_step_def)

lemma stop_char_not_package: "stop_char c \<Longrightarrow> \<not> (package_char c \<or> c = CHR ''-'')"
  by (auto simp: stop_char_def package_char_def word_char_def char_classes)

lemma version_rest: "p_version s = Some (v, r) \<Longrightarrow> \<exists>a. s = a @ r"
  using printsD [OF version_prints] by blast

text \<open>A lookahead that fails within the name also fails in the context.\<close>

lemma ahead_extend:
  assumes t: "version_end t" and none: "p_version_ahead u = None"
  shows "p_version_ahead (u @ t) = None"
proof (cases "p_version u")
  case None
  then show ?thesis using inertD [OF inert_version [OF t], of u] by (simp add: ahead_None)
next
  case (Some z)
  obtain v r where z: "z = (v, r)" by (cases z)
  have "r \<noteq> []" using none Some z ahead_full [of u v] by auto
  then have d: "p_dash_version (r @ t) = map_option (\<lambda>(w, u). (w, u @ t)) (p_dash_version r)"
    by (rule p_dash_version_append [OF t])
  have "\<not> atom_end r' \<Longrightarrow> \<not> atom_end (r' @ t)" for r'
    by (cases r') (auto simp: atom_end_def)
  then show ?thesis
    using none Some z d inertD [OF inert_version [OF t], of u]
    by (auto simp: ahead_None split: option.splits)
qed

text \<open>A lookahead that fails in the context fails within the name, if the rest of the name
  stands.\<close>

lemma ahead_restrict:
  assumes follow: "package_follow r" and none: "p_version_ahead (u @ r) = None" and body: "package_body [] u"
  shows "p_version_ahead u = None"
proof (rule ccontr)
  assume "p_version_ahead u \<noteq> None"
  then obtain v r1 w r2 where v: "p_version u = Some (v, r1)" and d: "p_dash_version r1 = Some (w, r2)"
    and e: "atom_end r2"
    by (auto simp: ahead_None split: option.splits)
  have vr: "p_version (u @ r) = Some (v, r1 @ r)"
    using inertD [OF inert_version [OF package_follow_version_end [OF follow]], of u] v by simp
  show False
  proof (cases r1)
    case Nil
    have "\<exists>w' t. p_dash_version r = Some (w', t) \<and> atom_end t"
      using follow unfolding package_follow_def
      by (auto simp: atom_end_dash p_dash_version_Cons)
    with vr Nil none show False by (auto simp: ahead_None)
  next
    case (Cons c s)
    obtain a where a: "u = a @ r1" using version_rest [OF v] by blast
    then have chars: "\<And>x. x \<in> set r1 \<Longrightarrow> \<not> stop_char x"
      using package_body_chars [OF body] stop_char_not_package by fastforce
    have "c = CHR ''-'' \<and> (\<exists>w'. p_version s = Some (w', r2))"
      using d e Cons chars [of c] by (auto simp: p_dash_version_Cons atom_end_def split: if_splits option.splits)
    then obtain w' where c: "c = CHR ''-''" "p_version s = Some (w', r2)" by blast
    obtain b where "s = b @ r2" using version_rest [OF c(2)] by blast
    then have "r2 = []" using e chars Cons by (cases r2) (auto simp: atom_end_def)
    then have "p_version_ahead s \<noteq> None" using ahead_full c(2) by blast
    moreover have "p_version_ahead s = None"
      using package_body_dash [of "[]" a s] body a Cons c by simp
    ultimately show False by simp
  qed
qed

lemma package_context:
  assumes "package_follow r"
  shows "package_body r u = package_body [] u"
proof (induction u)
  case (Cons c u)
  have v: "version_end r" by (rule package_follow_version_end [OF assms])
  have "package_body [] u \<Longrightarrow> p_version_ahead (u @ r) = None \<longleftrightarrow> p_version_ahead u = None"
    using ahead_extend [OF v] ahead_restrict [OF assms] by blast
  then have "package_body [] u \<Longrightarrow> package_step (u @ r) c = package_step (u @ []) c"
    by (simp add: package_step_def)
  with Cons show ?case by auto
qed simp

lemma p_package_reads: "package_follow t \<Longrightarrow> reads p_package (\<lambda>x. x) valid_package t"
  by (rule readsI) (auto simp: p_package_iff valid_package_def package_context package_follow_stop split: list.splits)

lemma p_package_SomeD:
  "p_package s = Some (x, r) \<Longrightarrow> s = x @ r \<and> (package_follow r \<longrightarrow> valid_package x)"
  by (auto simp: p_package_iff valid_package_def package_context)

section \<open>Cpn and Cpv\<close>

definition valid_category :: "string \<Rightarrow> bool" where
  "valid_category = is_name word_char name_char"

definition valid_cpn :: "cpn \<Rightarrow> bool" where
  "valid_cpn a \<longleftrightarrow> valid_category (cpn_category a) \<and> valid_package (cpn_package a)"

definition valid_cpv :: "cpv \<Rightarrow> bool" where
  "valid_cpv c \<longleftrightarrow> valid_cpn (cpv_cpn c) \<and> plain_version (cpv_version c)"

lemma slash_not_name [simp]: "\<not> name_char (CHR ''/'')" "\<not> word_char (CHR ''/'')"
  by (simp_all add: name_char_def word_char_def char_classes)

lemma p_cpn_SomeD:
  assumes "p_cpn s = Some (a, r)"
  shows "s = cpn_display a @ r \<and> (package_follow r \<longrightarrow> valid_cpn a)"
proof -
  obtain cat s1 pkg where cat: "p_category s = Some (cat, CHR ''/'' # s1)" and pkg: "p_package s1 = Some (pkg, r)"
    and a: "a = \<lparr>cpn_category = cat, cpn_package = pkg\<rparr>"
    using assms by (auto simp: p_cpn_def p_bind_def p_then_def p_return_def p_lit_Some split: option.splits)
  show ?thesis
    using printsD [OF p_name_prints cat [unfolded p_category_def]] p_package_SomeD [OF pkg] a
    by (simp add: cpn_display_def valid_cpn_def valid_category_def)
qed

lemma p_cpn_reads: "package_follow t \<Longrightarrow> reads p_cpn cpn_display valid_cpn t"
proof (rule readsI)
  fix a assume t: "package_follow t" and a: "valid_cpn a"
  have "p_category (cpn_category a @ CHR ''/'' # cpn_package a @ t) = Some (cpn_category a, CHR ''/'' # cpn_package a @ t)"
    using readsD [OF p_name_reads] a by (simp add: p_category_def valid_cpn_def valid_category_def)
  moreover have "p_package (cpn_package a @ t) = Some (cpn_package a, t)"
    using readsD [OF p_package_reads [OF t]] a by (simp add: valid_cpn_def)
  ultimately show "p_cpn (cpn_display a @ t) = Some (a, t)"
    by (cases a) (simp add: p_cpn_def p_bind_def p_then_def p_return_def p_lit_Cons cpn_display_def)
qed

lemma p_cpv_SomeD:
  assumes "p_cpv s = Some (c, r)"
  shows "s = cpv_display c @ r \<and> (atom_end r \<longrightarrow> valid_cpv c)"
proof -
  obtain a s1 v where a: "p_cpn s = Some (a, CHR ''-'' # s1)" and v: "p_version s1 = Some (v, r)"
    and c: "c = \<lparr>cpv_cpn = a, cpv_version = v\<rparr>"
    using assms by (auto simp: p_cpv_def p_bind_def p_then_def p_return_def p_lit_Some split: option.splits)
  have "s1 = version_without_op v @ r" "plain_version v" using printsD [OF version_prints v] by simp_all
  moreover have "atom_end r \<Longrightarrow> package_follow (CHR ''-'' # s1)"
    using v by (auto simp: package_follow_def)
  ultimately show ?thesis
    using p_cpn_SomeD [OF a] c
    by (simp add: cpv_display_def valid_cpv_def plain_version_def version_display_no_op)
qed

lemma p_cpv_reads: "atom_end t \<Longrightarrow> reads p_cpv cpv_display valid_cpv t"
proof (rule readsI)
  fix c assume t: "atom_end t" and c: "valid_cpv c"
  have plain: "plain_version (cpv_version c)" using c by (simp add: valid_cpv_def)
  then have v: "p_version (version_display (cpv_version c) @ t) = Some (cpv_version c, t)"
    using readsD [OF version_reads [OF atom_end_version [OF t]]]
    by (simp add: plain_version_def version_display_no_op)
  with t have "package_follow (CHR ''-'' # version_display (cpv_version c) @ t)"
    by (auto simp: package_follow_def)
  then have "p_cpn (cpn_display (cpv_cpn c) @ CHR ''-'' # version_display (cpv_version c) @ t) =
      Some (cpv_cpn c, CHR ''-'' # version_display (cpv_version c) @ t)"
    using readsD [OF p_cpn_reads] c by (simp add: valid_cpv_def)
  with v show "p_cpv (cpv_display c @ t) = Some (c, t)"
    by (cases c) (simp add: p_cpv_def p_bind_def p_then_def p_return_def p_lit_Cons cpv_display_def)
qed

lemma atom_end_Nil [simp]: "atom_end []"
  by (simp add: atom_end_def)

lemma parse_cpn_iff: "parse_cpn s = Inr a \<longleftrightarrow> valid_cpn a \<and> s = cpn_display a"
  using p_cpn_SomeD [of s a "[]"] readsD [OF p_cpn_reads [of "[]"], of a]
  by (auto simp: parse_cpn_def package_follow_def)

lemma parse_cpv_iff: "parse_cpv s = Inr c \<longleftrightarrow> valid_cpv c \<and> s = cpv_display c"
  using p_cpv_SomeD [of s c "[]"] readsD [OF p_cpv_reads [of "[]"], of c]
  by (auto simp: parse_cpv_def)

end
