(* ===== verification/Dep_Text.thy ===== *)
theory Dep_Text
  imports Dep_Round
begin

text \<open>
  Round trips of slots, USE dependencies, repositories and whole dependencies.
\<close>

section \<open>Slots\<close>

definition valid_slot_name :: "string \<Rightarrow> bool" where
  "valid_slot_name = is_name word_char name_char"

definition valid_slot :: "slot \<Rightarrow> bool" where
  "valid_slot s \<longleftrightarrow> (case split_once (CHR ''/'') (slot_name s) of
     None \<Rightarrow> valid_slot_name (slot_name s)
   | Some (a, b) \<Rightarrow> valid_slot_name a \<and> valid_slot_name b)"

lemma valid_slot_name_slash: "valid_slot_name a \<Longrightarrow> CHR ''/'' \<notin> set a"
proof
  assume "valid_slot_name a" "CHR ''/'' \<in> set a"
  then show False
    by (cases a) (auto simp: valid_slot_name_def is_name_def list_all_iff)
qed

lemma valid_slot_iff: "valid_slot s \<longleftrightarrow> valid_slot_name (slot_name s) \<or>
    (\<exists>a b. slot_name s = a @ CHR ''/'' # b \<and> valid_slot_name a \<and> valid_slot_name b)"
proof (cases "split_once (CHR ''/'') (slot_name s)")
  case None
  then have "CHR ''/'' \<notin> set (slot_name s)" by (simp add: split_once_None_iff)
  then show ?thesis using None by (auto simp: valid_slot_def)
next
  case (Some z)
  obtain a b where z: "z = (a, b)" by (cases z)
  from split_once_Some [OF Some [unfolded z]] have ab: "slot_name s = a @ CHR ''/'' # b" "CHR ''/'' \<notin> set a" by simp_all
  have "a = a' \<and> b = b'" if "slot_name s = a' @ CHR ''/'' # b'" "valid_slot_name a'" for a' b'
    using that split_once_append [OF valid_slot_name_slash [OF that(2)], of b'] Some z by simp
  moreover have "\<not> valid_slot_name (slot_name s)" using valid_slot_name_slash [of "slot_name s"] ab by auto
  ultimately show ?thesis using Some z ab by (auto simp: valid_slot_def)
qed

definition slot_end :: "string \<Rightarrow> bool" where
  "slot_end t \<longleftrightarrow> t = [] \<or> \<not> name_char (hd t) \<and> hd t \<noteq> CHR ''/''"

lemma word_name [simp]: "word_char c \<Longrightarrow> name_char c"
  by (simp add: name_char_def)

lemma slot_name_reads: "t = [] \<or> \<not> name_char (hd t) \<Longrightarrow> reads p_slot_name (\<lambda>s. s) valid_slot_name t"
  unfolding p_slot_name_def valid_slot_name_def by (rule p_name_reads)

lemma p_slot_prints: "prints p_slot slot_name valid_slot"
proof (rule printsI)
  fix s sl r assume "p_slot s = Some (sl, r)"
  then obtain z w where z: "p_then p_slot_name (p_opt (p_then (p_lit ''/'') p_slot_name)) s = Some (z, r)"
    and sl: "sl = Slot w" and w: "p_slice (p_then p_slot_name (p_opt (p_then (p_lit ''/'') p_slot_name))) s = Some (w, r)"
    by (auto simp: p_slot_def p_map_def p_bind_def p_return_def p_slice_def split: option.splits)
  obtain a s1 where a: "p_slot_name s = Some (a, s1)"
    and o1: "p_opt (p_then (p_lit ''/'') p_slot_name) s1 = Some (z, r)"
    using z by (auto simp: p_then_def p_bind_def split: option.splits)
  have sa: "s = a @ s1" "valid_slot_name a"
    using printsD [OF p_name_prints a [unfolded p_slot_name_def]] by (simp_all add: valid_slot_name_def)
  have "\<exists>x. s = x @ r \<and> valid_slot (Slot x)"
  proof (cases z)
    case None
    then have "s1 = r" using o1 by (auto simp: p_opt_def split: option.splits)
    with sa show ?thesis by (auto simp: valid_slot_iff)
  next
    case (Some b)
    then obtain s2 where s2: "s1 = CHR ''/'' # s2" "p_slot_name s2 = Some (b, r)"
      using o1 by (auto simp: p_opt_def p_then_def p_bind_def p_lit_Some split: option.splits)
    have "s2 = b @ r" "valid_slot_name b"
      using printsD [OF p_name_prints s2(2) [unfolded p_slot_name_def]] by (simp_all add: valid_slot_name_def)
    with sa s2 have "s = (a @ CHR ''/'' # b) @ r" "valid_slot (Slot (a @ CHR ''/'' # b))"
      by (auto simp: valid_slot_iff)
    then show ?thesis by blast
  qed
  then obtain x where x: "s = x @ r" "valid_slot (Slot x)" by blast
  moreover have "w = x" using w z x by (simp add: p_slice_def)
  ultimately show "s = slot_name sl @ r \<and> valid_slot sl" using sl by simp
qed

lemma p_slot_reads: "slot_end t \<Longrightarrow> reads p_slot slot_name valid_slot t"
proof (rule readsI)
  fix sl assume t: "slot_end t" and sl: "valid_slot sl"
  let ?p = "p_then p_slot_name (p_opt (p_then (p_lit ''/'') p_slot_name))"
  have none: "p_then (p_lit ''/'') p_slot_name t = None"
    using t by (auto simp: p_then_def p_bind_def p_lit_hd slot_end_def)
  have tn: "t = [] \<or> \<not> name_char (hd t)" using t by (auto simp: slot_end_def)
  have "\<exists>z. ?p (slot_name sl @ t) = Some (z, t)"
    using sl unfolding valid_slot_iff
  proof (elim disjE exE conjE)
    assume v: "valid_slot_name (slot_name sl)"
    then show ?thesis
      using readsD [OF slot_name_reads [OF tn] v] none by (simp add: p_then_def p_bind_def p_opt_def)
  next
    fix a b assume ab: "slot_name sl = a @ CHR ''/'' # b" "valid_slot_name a" "valid_slot_name b"
    have "p_slot_name (a @ CHR ''/'' # b @ t) = Some (a, CHR ''/'' # b @ t)"
      using readsD [OF slot_name_reads ab(2)] by simp
    then show ?thesis
      using ab readsD [OF slot_name_reads [OF tn] ab(3)]
      by (simp add: p_then_def p_bind_def p_opt_def p_lit_Cons)
  qed
  then show "p_slot (slot_name sl @ t) = Some (sl, t)"
    by (cases sl) (auto simp: p_slot_def p_map_def p_bind_def p_return_def p_slice_def)
qed

fun valid_slot_dep :: "slot_dep \<Rightarrow> bool" where
  "valid_slot_dep (SlotDepOp op) = True"
| "valid_slot_dep (SlotDepSlot s) = valid_slot s"
| "valid_slot_dep (SlotDepSlotOp s op) = (valid_slot s \<and> op = SlotEqual)"

lemma p_slot_dep_prints: "prints p_slot_dep slot_dep_display valid_slot_dep"
  by (rule printsI)
    (auto simp: p_slot_dep_def p_alt_def p_map_def p_bind_def p_return_def p_before_def p_lit_Some
      split: option.splits dest!: printsD [OF p_slot_prints])

definition slot_dep_end :: "string \<Rightarrow> bool" where
  "slot_dep_end t \<longleftrightarrow> slot_end t \<and> (t = [] \<or> hd t \<noteq> CHR ''='')"

lemma valid_slot_hd: "valid_slot s \<Longrightarrow> slot_name s \<noteq> [] \<and> word_char (hd (slot_name s))"
  by (auto simp: valid_slot_iff valid_slot_name_def is_name_def hd_append)

lemma word_char_facts [simp]:
  "\<not> word_char (CHR ''='')" "\<not> word_char (CHR ''*'')" "\<not> word_char (CHR '':'')" "\<not> word_char (CHR ''['')"
  "\<not> word_char (CHR ''!'')" "\<not> word_char (CHR ''-'')" "\<not> word_char (CHR ''<'')" "\<not> word_char (CHR ''>'')"
  "\<not> word_char (CHR ''~'')" "\<not> name_char (CHR ''='')" "\<not> name_char (CHR '':'')" "\<not> name_char (CHR ''['')"
  by (simp_all add: word_char_def name_char_def char_classes)

lemma p_lit_word: "s \<noteq> [] \<Longrightarrow> word_char (hd s) \<Longrightarrow> \<not> word_char c \<Longrightarrow> p_lit [c] (s @ u) = None"
  by (cases s) (auto simp: p_lit_Cons)

lemma p_slot_dep_reads: "slot_dep_end t \<Longrightarrow> reads p_slot_dep slot_dep_display valid_slot_dep t"
proof (rule readsI)
  fix sd assume t: "slot_dep_end t" and sd: "valid_slot_dep sd"
  have lits: "p_lit ''='' (slot_name s @ u) = None" "p_lit ''*'' (slot_name s @ u) = None" if "valid_slot s" for s u
    using valid_slot_hd [OF that] by (simp_all add: p_lit_word)
  show "p_slot_dep (slot_dep_display sd @ t) = Some (sd, t)"
  proof (cases sd)
    case (SlotDepOp op)
    then show ?thesis
      by (cases op) (simp_all add: p_slot_dep_def p_alt_def p_map_def p_bind_def p_return_def p_lit_Cons)
  next
    case (SlotDepSlot s)
    have "p_slot (slot_name s @ t) = Some (s, t)"
      using readsD [OF p_slot_reads] t sd SlotDepSlot by (simp add: slot_dep_end_def)
    moreover have "p_lit ''='' t = None" using t by (simp add: slot_dep_end_def p_lit_hd)
    ultimately show ?thesis
      using SlotDepSlot sd lits by (simp add: p_slot_dep_def p_alt_def p_map_def p_bind_def p_return_def p_before_def)
  next
    case (SlotDepSlotOp s op)
    have "p_slot (slot_name s @ CHR ''='' # t) = Some (s, CHR ''='' # t)"
      using readsD [OF p_slot_reads] sd SlotDepSlotOp by (simp add: slot_end_def)
    then show ?thesis
      using SlotDepSlotOp sd lits
      by (simp add: p_slot_dep_def p_alt_def p_map_def p_bind_def p_return_def p_before_def p_lit_Cons)
  qed
qed

section \<open>USE dependencies\<close>

definition valid_use_dep :: "use_dep \<Rightarrow> bool" where
  "valid_use_dep u \<longleftrightarrow> is_name flag_first flag_char (ud_flag u)"

definition default_text :: "bool option \<Rightarrow> string" where
  "default_text d = (case d of Some True \<Rightarrow> ''(+)'' | Some False \<Rightarrow> ''(-)'' | None \<Rightarrow> [])"

definition use_dep_end :: "string \<Rightarrow> bool" where
  "use_dep_end t \<longleftrightarrow> t = [] \<or> hd t = CHR '','' \<or> hd t = CHR '']''"

lemma flag_char_facts [simp]:
  "\<not> flag_char (CHR '','')" "\<not> flag_char (CHR '']'')" "\<not> flag_char (CHR ''('')" "\<not> flag_char (CHR ''='')"
  "\<not> flag_char (CHR ''?'')" "\<not> flag_first (CHR ''!'')" "\<not> flag_first (CHR ''-'')" "\<not> flag_first (CHR '')'')"
  by (simp_all add: flag_char_def flag_first_def char_classes)

lemma p_default_opt: "p_opt p_use_dep_default s = Some (d, r) \<Longrightarrow> s = default_text d @ r"
  by (auto simp: p_opt_def p_use_dep_default_def p_alt_def p_map_def p_bind_def p_return_def p_lit_Some
      default_text_def split: option.splits)

lemma p_default_opt_reads:
  "t = [] \<or> hd t \<noteq> CHR ''('' \<Longrightarrow> p_opt p_use_dep_default (default_text d @ t) = Some (d, t)"
  by (cases t) (auto simp: p_opt_def p_use_dep_default_def p_alt_def p_map_def p_bind_def p_return_def
      p_lit_def starts_with_def default_text_def split: option.splits bool.splits)

lemma p_opt_lit_SomeD: "p_opt (p_lit w) s = Some (x, r) \<Longrightarrow> s = (if x = None then [] else w) @ r"
  by (auto simp: p_opt_def p_lit_Some split: option.splits)

lemma use_dep_display_text: "use_dep_display u =
    (if ud_enabled u then [] else if ud_kind u = UseEnabled then ''-'' else ''!'') @ ud_flag u @
    default_text (ud_default u) @
    (case ud_kind u of UseEnabled \<Rightarrow> [] | UseEqual \<Rightarrow> ''='' | UseConditional \<Rightarrow> ''?'')"
  by (simp add: use_dep_display_def default_text_def Let_def split: use_dep_kind.splits bool.splits)

lemma p_use_dep_prints: "prints p_use_dep use_dep_display valid_use_dep"
proof (rule printsI)
  fix s u r assume "p_use_dep s = Some (u, r)"
  then consider
    (kind) dis s1 flag s2 d k where "p_opt (p_lit ''!'') s = Some (dis, s1)" "p_use_flag s1 = Some (flag, s2)"
      "p_opt p_use_dep_default s2 = Some (d, k # r)" "k = CHR ''='' \<or> k = CHR ''?''"
      "u = \<lparr>ud_flag = flag, ud_kind = (if k = CHR ''='' then UseEqual else UseConditional),
        ud_enabled = (dis = None), ud_default = d\<rparr>"
  | (plain) dis s1 flag s2 d where "p_opt (p_lit ''-'') s = Some (dis, s1)" "p_use_flag s1 = Some (flag, s2)"
      "p_opt p_use_dep_default s2 = Some (d, r)"
      "u = \<lparr>ud_flag = flag, ud_kind = UseEnabled, ud_enabled = (dis = None), ud_default = d\<rparr>"
    unfolding p_use_dep_def
    by (elim p_alt_SomeD [THEN disjE])
      (auto simp: p_bind_def p_return_def p_class_def split: option.splits list.splits if_splits)
  then show "s = use_dep_display u @ r \<and> valid_use_dep u"
  proof cases
    case kind
    show ?thesis
      using kind p_opt_lit_SomeD [OF kind(1)] p_default_opt [OF kind(3)]
        printsD [OF p_name_prints kind(2) [unfolded p_use_flag_def]]
      by (auto simp: use_dep_display_text valid_use_dep_def)
  next
    case plain
    show ?thesis
      using plain p_opt_lit_SomeD [OF plain(1)] p_default_opt [OF plain(3)]
        printsD [OF p_name_prints plain(2) [unfolded p_use_flag_def]]
      by (auto simp: use_dep_display_text valid_use_dep_def)
  qed
qed

lemma flag_reads: "t = [] \<or> \<not> flag_char (hd t) \<Longrightarrow> is_name flag_first flag_char f \<Longrightarrow> p_use_flag (f @ t) = Some (f, t)"
  unfolding p_use_flag_def using readsD [OF p_name_reads] by blast

lemma flag_hd: "is_name flag_first flag_char f \<Longrightarrow> f \<noteq> [] \<and> flag_first (hd f)"
  by (simp add: is_name_def)

lemma p_lit_flag: "is_name flag_first flag_char f \<Longrightarrow> \<not> flag_first c \<Longrightarrow> p_lit [c] (f @ u) = None"
  by (cases f) (auto simp: p_lit_Cons is_name_def)

lemma p_use_dep_reads:
  assumes t: "use_dep_end t"
  shows "reads p_use_dep use_dep_display valid_use_dep t"
proof (rule readsI)
  fix u assume u: "valid_use_dep u"
  let ?f = "ud_flag u" and ?d = "default_text (ud_default u)"
  have f: "is_name flag_first flag_char ?f" using u by (simp add: valid_use_dep_def)
  have hd: "hd (?d @ k) = (if ud_default u = None then hd k else CHR ''('')" for k
    by (simp add: default_text_def split: option.splits bool.splits)
  have ne: "\<not> flag_char (hd (?d @ k))" if "k \<noteq> []" "\<not> flag_char (hd k)" for k
    using that by (simp add: hd)
  have flag: "p_use_flag (?f @ ?d @ k) = Some (?f, ?d @ k)" if "k = [] \<or> \<not> flag_char (hd k)" for k
  proof (rule flag_reads [OF _ f])
    show "?d @ k = [] \<or> \<not> flag_char (hd (?d @ k))"
      using that by (auto simp: default_text_def split: option.splits bool.splits)
  qed
  have tk: "t = [] \<or> \<not> flag_char (hd t)" "t = [] \<or> hd t \<noteq> CHR ''(''"
    using t by (auto simp: use_dep_end_def)
  show "p_use_dep (use_dep_display u @ t) = Some (u, t)"
  proof (cases "ud_kind u = UseEnabled")
    case True
    have nokind: "p_class (\<lambda>c. c = CHR ''='' \<or> c = CHR ''?'') t = None"
      using t by (cases t) (auto simp: use_dep_end_def)
    have "p_use_flag (CHR ''-'' # k) = None" for k
      by (simp add: p_use_flag_def p_name_eq)
    then show ?thesis
      using True flag [OF tk(1)] p_default_opt_reads [OF tk(2)] nokind p_lit_flag [OF f]
      by (cases u) (auto simp: p_use_dep_def p_alt_def p_bind_def p_return_def use_dep_display_text
          p_opt_def [of "p_lit _"] p_lit_Cons)
  next
    case False
    let ?k = "if ud_kind u = UseEqual then CHR ''='' else CHR ''?''"
    have "use_dep_display u = (if ud_enabled u then [] else ''!'') @ ?f @ ?d @ [?k]"
      using False by (cases "ud_kind u") (simp_all add: use_dep_display_text)
    moreover have "p_use_flag (?f @ ?d @ ?k # t) = Some (?f, ?d @ ?k # t)"
      by (rule flag) simp
    moreover have "p_opt p_use_dep_default (?d @ ?k # t) = Some (ud_default u, ?k # t)"
      by (rule p_default_opt_reads) simp
    moreover have "(if ?k = CHR ''='' then UseEqual else UseConditional) = ud_kind u"
      using False by (cases "ud_kind u") simp_all
    ultimately show ?thesis
      using p_lit_flag [OF f]
      by (cases u) (auto simp: p_use_dep_def p_alt_def p_bind_def p_return_def
          p_opt_def [of "p_lit _"] p_lit_Cons)
  qed
qed

lemma p_use_deps_prints:
  "prints p_use_deps (\<lambda>us. ''['' @ join_with '','' (map use_dep_display us) @ '']'')
    (\<lambda>us. us \<noteq> [] \<and> list_all valid_use_dep us)"
proof (rule printsI)
  fix s us r assume "p_use_deps s = Some (us, r)"
  then obtain s1 where "s = CHR ''['' # s1" "p_sep1 p_use_dep (p_lit '','') s1 = Some (us, CHR '']'' # r)"
    by (auto simp: p_use_deps_def p_then_def p_before_def p_bind_def p_return_def p_lit_Some split: option.splits)
  with p_sep1_prints [OF p_use_dep_prints this(2)]
  show "s = (''['' @ join_with '','' (map use_dep_display us) @ '']'') @ r \<and>
      (us \<noteq> [] \<and> list_all valid_use_dep us)" by simp
qed

lemma p_use_deps_reads:
  "us \<noteq> [] \<Longrightarrow> list_all valid_use_dep us \<Longrightarrow>
    p_use_deps ((''['' @ join_with '','' (map use_dep_display us) @ '']'') @ t) = Some (us, t)"
proof -
  assume us: "us \<noteq> []" "list_all valid_use_dep us"
  have "p_sep1 p_use_dep (p_lit '','') (join_with '','' (map use_dep_display us) @ CHR '']'' # t) = Some (us, CHR '']'' # t)"
    by (rule p_sep1_reads [where Q = valid_use_dep and ok = use_dep_end])
      (use us readsD [OF p_use_dep_reads] in \<open>auto simp: use_dep_end_def p_then_def p_bind_def p_lit_Cons\<close>)
  then show ?thesis
    by (simp add: p_use_deps_def p_then_def p_before_def p_bind_def p_return_def p_lit_Cons)
qed

section \<open>Repositories\<close>

definition repo_step :: "string \<Rightarrow> char \<Rightarrow> bool" where
  "repo_step u c \<longleftrightarrow> word_char c \<or> c = CHR ''-'' \<and> p_version u = None"

definition valid_repo :: "string \<Rightarrow> bool" where
  "valid_repo x \<longleftrightarrow> (case x of [] \<Rightarrow> False | c # u \<Rightarrow> word_char c \<and> step_body repo_step [] u)"

lemma stepper_repo: "stepper repo_step p_repo_step"
  by (auto simp: stepper_def p_repo_step_def repo_step_def p_alt_def p_map_def p_bind_def p_return_def
      p_then_def p_not_def p_lit_Cons p_lit_hd split: option.splits list.splits)

definition repo_end :: "string \<Rightarrow> bool" where
  "repo_end t \<longleftrightarrow> t = [] \<or> stop_char (hd t)"

lemma repo_context: "repo_end t \<Longrightarrow> step_body repo_step t u = step_body repo_step [] u"
proof (induction u)
  case (Cons c u)
  have "version_end t" using Cons.prems atom_end_version by (simp add: repo_end_def atom_end_def)
  then have "repo_step (u @ t) c = repo_step (u @ []) c"
    using inertD [OF inert_version, of t u] by (simp add: repo_step_def)
  with Cons show ?case by simp
qed simp

lemma repo_end_stop: "repo_end t \<Longrightarrow> step_stop repo_step t"
  by (auto simp: repo_end_def step_stop_def repo_step_def stop_char_def word_char_def char_classes split: list.splits)

lemma p_repo_iff: "p_repo s = Some (x, r) \<longleftrightarrow>
    (\<exists>c u. x = c # u \<and> s = x @ r \<and> word_char c \<and> step_body repo_step r u \<and> step_stop repo_step r)"
  unfolding p_repo_def by (rule stepper_name [OF stepper_repo])

lemma p_repo_reads: "repo_end t \<Longrightarrow> reads p_repo (\<lambda>x. x) valid_repo t"
  by (rule readsI) (auto simp: p_repo_iff valid_repo_def repo_context repo_end_stop split: list.splits)

lemma p_repo_SomeD: "p_repo s = Some (x, r) \<Longrightarrow> s = x @ r \<and> (repo_end r \<longrightarrow> valid_repo x)"
  by (auto simp: p_repo_iff valid_repo_def repo_context)

section \<open>Dependencies\<close>

text \<open>The package part of a dependency: a name, or an operator on a name and version.\<close>

definition valid_pkg :: "dep \<Rightarrow> bool" where
  "valid_pkg d \<longleftrightarrow> valid_cpn (dep_cpn d) \<and> (\<forall>v \<in> set_option (dep_version d). op_version v)"

definition pkg_text :: "dep \<Rightarrow> string" where
  "pkg_text d = (case dep_version d of None \<Rightarrow> cpn_display (dep_cpn d)
     | Some v \<Rightarrow> op_text (the (ver_op v)) (cpn_display (dep_cpn d) @ ''-'' @ version_without_op v))"

definition bare_pkg :: "dep \<Rightarrow> dep" where
  "bare_pkg d = \<lparr>dep_cpn = dep_cpn d, dep_blocker = None, dep_version = dep_version d,
     dep_slot_dep = None, dep_use_deps = None, dep_repo = None\<rparr>"

lemma pkg_text_update [simp]: "pkg_text (d\<lparr>dep_blocker := b\<rparr>) = pkg_text d" "pkg_text (d\<lparr>dep_slot_dep := sl\<rparr>) = pkg_text d"
  "pkg_text (d\<lparr>dep_use_deps := us\<rparr>) = pkg_text d" "pkg_text (d\<lparr>dep_repo := r\<rparr>) = pkg_text d"
  by (cases "dep_version d"; simp add: pkg_text_def)+

lemma cpv_display_no_op: "ver_op (cpv_version c) = None \<Longrightarrow>
    cpv_display c = cpn_display (cpv_cpn c) @ ''-'' @ version_without_op (cpv_version c)"
  by (simp add: cpv_display_def version_display_no_op)

lemma cpv_with_op_valid:
  assumes "valid_cpv c" "cpv_with_op c op = Inr d"
  shows "pkg_text d = op_text op (cpv_display c) \<and> valid_pkg d \<and> bare_pkg d = d"
proof -
  obtain v where v: "version_with_op (cpv_version c) op = Inr v"
    and d: "d = \<lparr>dep_cpn = cpv_cpn c, dep_blocker = None, dep_version = Some v, dep_slot_dep = None,
      dep_use_deps = None, dep_repo = None\<rparr>"
    using assms(2) by (auto simp: cpv_with_op_def split: sum.splits)
  have plain: "plain_version (cpv_version c)" using assms(1) by (simp add: valid_cpv_def)
  have "v = (cpv_version c)\<lparr>ver_op := Some op\<rparr>" using v by (auto simp: version_with_op_def split: if_splits)
  then have "version_without_op v = version_without_op (cpv_version c)" "ver_op v = Some op" by simp_all
  moreover have "op_version v"
    using v plain by (auto simp: version_with_op_def plain_version_def op_version_def wf_version_def split: if_splits)
  ultimately show ?thesis
    using d assms(1) plain
    by (simp add: pkg_text_def valid_pkg_def bare_pkg_def valid_cpv_def cpv_display_no_op plain_version_def)
qed

lemma p_dep_pkg_SomeD:
  assumes "p_dep_pkg s = Some (d, r)" "atom_end r"
  shows "s = pkg_text d @ r \<and> valid_pkg d \<and> bare_pkg d = d"
  using assms(1) unfolding p_dep_pkg_def
proof (elim p_alt_SomeD [THEN disjE])
  assume "p_map dep_from_cpn p_cpn s = Some (d, r)"
  then obtain a where "p_cpn s = Some (a, r)" "d = dep_from_cpn a"
    by (auto simp: p_map_def p_bind_def p_return_def split: option.splits)
  with p_cpn_SomeD [of s a r] assms(2) show ?thesis
    by (simp add: pkg_text_def valid_pkg_def bare_pkg_def dep_from_cpn_def package_follow_def)
next
  assume w: "p_with_op cpv_with_op p_cpv s = Some (d, r)"
  have "\<exists>op c r'. cpv_with_op c op = Inr d \<and> s = op_text op (cpv_display c) @ r \<and>
      (atom_end r' \<longrightarrow> valid_cpv c) \<and> (r' = r \<or> r' = CHR ''*'' # r)"
    by (rule p_with_op_SomeD [where expr = p_cpv and Q = "\<lambda>r c. atom_end r \<longrightarrow> valid_cpv c", OF p_cpv_SomeD w])
  then obtain op c r' where c: "cpv_with_op c op = Inr d" "s = op_text op (cpv_display c) @ r"
    "atom_end r' \<longrightarrow> valid_cpv c" "r' = r \<or> r' = CHR ''*'' # r" by blast
  have "atom_end r'" using c(4) assms(2) by (auto simp: atom_end_def stop_char_def)
  with c cpv_with_op_valid [of c op d] show ?thesis by simp
qed

lemma valid_cpn_hd: "valid_cpn a \<Longrightarrow> cpn_display a \<noteq> [] \<and> word_char (hd (cpn_display a))"
  by (auto simp: valid_cpn_def valid_category_def is_name_def cpn_display_def hd_append)

lemma op_text_hd: "op_text op u \<noteq> [] \<and> \<not> word_char (hd (op_text op u))"
  by (cases op) (simp_all add: op_text_def)

lemma p_category_None: "s = [] \<or> \<not> word_char (hd s) \<Longrightarrow> p_category s = None"
  by (auto simp: p_category_def p_name_eq split: list.splits)

lemma p_cpn_None: "s = [] \<or> \<not> word_char (hd s) \<Longrightarrow> p_cpn s = None"
  using p_category_None [of s] by (simp add: p_cpn_def p_bind_def)

lemma p_dep_pkg_reads:
  assumes t: "atom_end t" "t = [] \<or> hd t \<noteq> CHR ''*''" and d: "valid_pkg d"
  shows "p_dep_pkg (pkg_text d @ t) = Some (bare_pkg d, t)"
proof (cases "dep_version d")
  case None
  have "p_cpn (cpn_display (dep_cpn d) @ t) = Some (dep_cpn d, t)"
    using readsD [OF p_cpn_reads] t d by (simp add: package_follow_def valid_pkg_def)
  with None show ?thesis
    by (simp add: p_dep_pkg_def p_alt_def p_map_def p_bind_def p_return_def pkg_text_def bare_pkg_def dep_from_cpn_def)
next
  case (Some v)
  then have v: "op_version v" using d by (simp add: valid_pkg_def)
  then obtain op where op: "ver_op v = Some op" by (auto simp: op_version_def)
  define c where "c = \<lparr>cpv_cpn = dep_cpn d, cpv_version = v\<lparr>ver_op := None\<rparr>\<rparr>"
  have c: "valid_cpv c"
    using d v by (auto simp: c_def valid_cpv_def valid_pkg_def plain_version_def op_version_def wf_version_def)
  have "v\<lparr>ver_op := Some op\<rparr> = v" using op by (cases v) simp
  then have f: "cpv_with_op c op = Inr (bare_pkg d)"
    using v op Some by (auto simp: cpv_with_op_def c_def version_with_op_def op_version_def wf_version_def bare_pkg_def)
  have txt_eq: "pkg_text d = op_text op (cpv_display c)"
    using Some op by (simp add: pkg_text_def c_def cpv_display_no_op)
  have hd: "cpv_display c \<noteq> []" "hd (cpv_display c) \<noteq> CHR ''=''"
    using valid_cpn_hd [of "cpv_cpn c"] c by (auto simp: cpv_display_def valid_cpv_def hd_append)
  have star: "atom_end (CHR ''*'' # t)" by (simp add: atom_end_def stop_char_def)
  have "p_with_op cpv_with_op p_cpv (op_text op (cpv_display c) @ t) = Some (bare_pkg d, t)"
    by (rule p_with_op_reads [where d = cpv_display and x = c and f = cpv_with_op and expr = p_cpv,
          OF readsD [OF p_cpv_reads [OF t(1)] c] readsD [OF p_cpv_reads [OF star] c] t(2) hd f])
  moreover have "p_cpn (op_text op (cpv_display c) @ t) = None"
    using op_text_hd [of op "cpv_display c"] by (intro p_cpn_None) (simp add: hd_append)
  ultimately show ?thesis
    using txt_eq by (simp add: p_dep_pkg_def p_alt_def p_map_def p_bind_def)
qed

section \<open>Whole dependencies\<close>

definition opt_text :: "('a \<Rightarrow> string) \<Rightarrow> 'a option \<Rightarrow> string" where
  "opt_text f x = (case x of None \<Rightarrow> [] | Some a \<Rightarrow> f a)"

lemma opt_text_simps [simp]: "opt_text f None = []" "opt_text f (Some a) = f a"
  by (simp_all add: opt_text_def)

lemma p_opt_prints: "prints p d Q \<Longrightarrow> p_opt p s = Some (x, r) \<Longrightarrow> s = opt_text d x @ r \<and> pred_option Q x"
  by (auto simp: p_opt_def dest: printsD split: option.splits)

lemma p_opt_reads:
  "reads p d Q t \<Longrightarrow> pred_option Q x \<Longrightarrow> (x = None \<Longrightarrow> p t = None) \<Longrightarrow> p_opt p (opt_text d x @ t) = Some (x, t)"
  by (cases x) (auto simp: p_opt_def dest: readsD)

abbreviation slot_text :: "slot_dep \<Rightarrow> string" where
  "slot_text s \<equiv> '':'' @ slot_dep_display s"

abbreviation repo_text :: "string \<Rightarrow> string" where
  "repo_text x \<equiv> ''::'' @ x"

abbreviation uses_text :: "use_dep list \<Rightarrow> string" where
  "uses_text us \<equiv> ''['' @ join_with '','' (map use_dep_display us) @ '']''"

definition dep_text :: "dep \<Rightarrow> string" where
  "dep_text d = opt_text blocker_display (dep_blocker d) @ pkg_text d @
     opt_text slot_text (dep_slot_dep d) @ opt_text repo_text (dep_repo d) @ opt_text uses_text (dep_use_deps d)"

definition valid_dep :: "eapi \<Rightarrow> dep \<Rightarrow> bool" where
  "valid_dep e d \<longleftrightarrow> valid_pkg d \<and> pred_option valid_slot_dep (dep_slot_dep d) \<and>
     pred_option (\<lambda>r. valid_repo r \<and> eapi_has e RepoIds) (dep_repo d) \<and>
     pred_option (\<lambda>us. us \<noteq> [] \<and> list_all valid_use_dep us \<and> distinct us) (dep_use_deps d)"

lemma dep_display_text: "valid_pkg d \<Longrightarrow> dep_display d = Some (dep_text d)"
  by (auto simp: dep_display_def dep_text_def pkg_text_def opt_text_def op_text_def valid_pkg_def op_version_def
      Let_def split: option.splits operator.splits)

lemma p_blocker_prints: "prints p_blocker blocker_display (\<lambda>_. True)"
  by (rule printsI) (auto simp: p_blocker_def p_try_def p_slice_def p_then_def p_bind_def p_opt_def
      p_lit_Some blocker_from_str_def split: option.splits if_splits)

lemma p_blocker_reads: "t = [] \<or> hd t \<noteq> CHR ''!'' \<Longrightarrow> reads p_blocker blocker_display (\<lambda>_. True) t"
proof (rule readsI)
  fix b assume "t = [] \<or> hd t \<noteq> CHR ''!''"
  then have "p_lit ''!'' t = None" by (auto simp: p_lit_hd)
  then show "p_blocker (blocker_display b @ t) = Some (b, t)"
    by (cases b) (simp_all add: p_blocker_def p_try_def p_slice_def p_then_def p_bind_def p_opt_def
        p_lit_Cons blocker_from_str_def)
qed

lemma p_slot_dep_str_prints: "prints p_slot_dep_str slot_text valid_slot_dep"
  by (rule printsI)
    (auto simp: p_slot_dep_str_def p_then_def p_bind_def p_lit_Some split: option.splits dest!: printsD [OF p_slot_dep_prints])

lemma p_slot_dep_str_reads: "slot_dep_end t \<Longrightarrow> reads p_slot_dep_str slot_text valid_slot_dep t"
  by (rule readsI)
    (simp add: p_slot_dep_str_def p_then_def p_bind_def p_lit_Cons readsD [OF p_slot_dep_reads])

lemma p_repo_dep_SomeD: "p_repo_dep e s = Some (x, r) \<Longrightarrow> repo_end r \<Longrightarrow>
    s = repo_text x @ r \<and> valid_repo x \<and> eapi_has e RepoIds"
  by (auto simp: p_repo_dep_def p_try_def p_then_def p_bind_def p_lit_Some
      dest: p_repo_SomeD split: option.splits if_splits)

lemma p_repo_dep_reads: "repo_end t \<Longrightarrow> reads (p_repo_dep e) repo_text (\<lambda>x. valid_repo x \<and> eapi_has e RepoIds) t"
  using readsD [OF p_repo_reads, of t]
  by (intro readsI) (auto simp: p_repo_dep_def p_try_def p_then_def p_bind_def p_lit_def starts_with_def)

text \<open>In the grammars a dependency is followed by white space or by the end of the input.\<close>

definition dep_end :: "string \<Rightarrow> bool" where
  "dep_end t \<longleftrightarrow> t = [] \<or> is_blank (hd t)"

text \<open>What may follow each part of a dependency, given what may follow the whole.\<close>

lemma dep_tail_ends:
  assumes "dep_end t"
  shows "repo_end (opt_text uses_text u @ t)"
    and "slot_dep_end (opt_text repo_text x @ opt_text uses_text u @ t)"
    and "atom_end (opt_text slot_text s @ opt_text repo_text x @ opt_text uses_text u @ t)"
    and "(opt_text slot_text s @ opt_text repo_text x @ opt_text uses_text u @ t) = [] \<or>
      hd (opt_text slot_text s @ opt_text repo_text x @ opt_text uses_text u @ t) \<noteq> CHR ''*''"
  using assms
proof -
  have t: "t = [] \<or> stop_char (hd t) \<and> \<not> name_char (hd t) \<and> hd t \<noteq> CHR ''/'' \<and> hd t \<noteq> CHR ''='' \<and> hd t \<noteq> CHR ''*''"
    using assms by (auto simp: dep_end_def stop_char_def name_char_def word_char_def char_classes)
  have s: "stop_char (CHR ''['')" "stop_char (CHR '':'')" by (simp_all add: stop_char_def)
  show "repo_end (opt_text uses_text u @ t)"
    using t s by (cases u) (auto simp: repo_end_def)
  show "slot_dep_end (opt_text repo_text x @ opt_text uses_text u @ t)"
    using t s by (cases x; cases u) (auto simp: slot_dep_end_def slot_end_def)
  show "atom_end (opt_text slot_text s @ opt_text repo_text x @ opt_text uses_text u @ t)"
    using t s by (cases s; cases x; cases u) (auto simp: atom_end_def)
  show "(opt_text slot_text s @ opt_text repo_text x @ opt_text uses_text u @ t) = [] \<or>
      hd (opt_text slot_text s @ opt_text repo_text x @ opt_text uses_text u @ t) \<noteq> CHR ''*''"
    using t by (cases s; cases x; cases u) auto
qed

lemma p_dep_SomeD:
  assumes p: "p_dep ix e s = Some (d, r)" and r: "dep_end r"
  shows "\<exists>us. s = dep_text (d\<lparr>dep_use_deps := us\<rparr>) @ r \<and> dep_use_deps d = map_option (is_collect ix) us \<and>
      valid_pkg d \<and> pred_option valid_slot_dep (dep_slot_dep d) \<and>
      pred_option (\<lambda>r. valid_repo r \<and> eapi_has e RepoIds) (dep_repo d) \<and>
      pred_option (\<lambda>us. us \<noteq> [] \<and> list_all valid_use_dep us) us"
proof -
  from p obtain b s1 k s2 sl s3 x s4 us where
    b: "p_opt p_blocker s = Some (b, s1)" and k: "p_dep_pkg s1 = Some (k, s2)"
    and sl: "p_opt p_slot_dep_str s2 = Some (sl, s3)" and x: "p_opt (p_repo_dep e) s3 = Some (x, s4)"
    and us: "p_opt p_use_deps s4 = Some (us, r)" and d: "d = dep_with ix k b sl us x"
    by (auto simp: p_dep_def p_bind_def p_return_def split: option.splits)
  have 4: "s4 = opt_text uses_text us @ r" "pred_option (\<lambda>us. us \<noteq> [] \<and> list_all valid_use_dep us) us"
    using p_opt_prints [OF p_use_deps_prints us] by simp_all
  have 3: "s3 = opt_text repo_text x @ s4 \<and> pred_option (\<lambda>r. valid_repo r \<and> eapi_has e RepoIds) x"
    using x p_repo_dep_SomeD [of e s3 "the x" s4] dep_tail_ends(1) [OF r, of us] 4(1)
    by (cases "p_repo_dep e s3") (auto simp: p_opt_def simp del: append_assoc)
  have 2: "s2 = opt_text slot_text sl @ s3" "pred_option valid_slot_dep sl"
    using p_opt_prints [OF p_slot_dep_str_prints sl] by simp_all
  have 1: "s1 = pkg_text k @ s2 \<and> valid_pkg k \<and> bare_pkg k = k"
    using p_dep_pkg_SomeD [OF k] dep_tail_ends(3) [OF r, of sl x us] 2 3 4 by simp
  have 0: "s = opt_text blocker_display b @ s1"
    using p_opt_prints [OF p_blocker_prints b] by simp
  have "s = dep_text (d\<lparr>dep_use_deps := us\<rparr>) @ r" using 0 1 2 3 4 d by (simp add: dep_text_def dep_with_def)
  moreover have "valid_pkg d" using 1 d by (simp add: valid_pkg_def dep_with_def)
  ultimately show ?thesis using 2 3 4 d by (intro exI [of _ us]) (simp add: dep_with_def)
qed

lemma pkg_text_hd: "valid_pkg d \<Longrightarrow> hd (pkg_text d @ t) \<noteq> CHR ''!''"
  using valid_cpn_hd [of "dep_cpn d"]
  by (auto simp: pkg_text_def valid_pkg_def op_text_def hd_append split: option.splits operator.splits)

lemma p_dep_reads:
  assumes t: "dep_end t" and d: "valid_pkg d" "pred_option valid_slot_dep (dep_slot_dep d)"
    "pred_option (\<lambda>r. valid_repo r \<and> eapi_has e RepoIds) (dep_repo d)"
    "pred_option (\<lambda>us. us \<noteq> [] \<and> list_all valid_use_dep us) (dep_use_deps d)"
  shows "p_dep ix e (dep_text d @ t) = Some (d\<lparr>dep_use_deps := map_option (is_collect ix) (dep_use_deps d)\<rparr>, t)"
proof -
  let ?u = "opt_text uses_text (dep_use_deps d) @ t"
  let ?r = "opt_text repo_text (dep_repo d) @ ?u"
  let ?s = "opt_text slot_text (dep_slot_dep d) @ ?r"
  have us: "p_opt p_use_deps ?u = Some (dep_use_deps d, t)"
  proof (rule p_opt_reads [OF readsI d(4)])
    fix us assume "us \<noteq> [] \<and> list_all valid_use_dep us"
    then show "p_use_deps (uses_text us @ t) = Some (us, t)" by (intro p_use_deps_reads) simp_all
  next
    show "p_use_deps t = None"
      using t by (cases t) (auto simp: p_use_deps_def p_then_def p_bind_def p_lit_def starts_with_def dep_end_def char_classes)
  qed
  have rp: "p_opt (p_repo_dep e) ?r = Some (dep_repo d, ?u)"
  proof (rule p_opt_reads [OF p_repo_dep_reads [OF dep_tail_ends(1) [OF t]] d(3)])
    show "p_repo_dep e ?u = None"
      using t by (cases t) (auto simp: p_repo_dep_def p_try_def p_then_def p_bind_def p_lit_def starts_with_def
          dep_end_def char_classes opt_text_def split: option.splits)
  qed
  have sl: "p_opt p_slot_dep_str ?s = Some (dep_slot_dep d, ?r)"
  proof (rule p_opt_reads [OF p_slot_dep_str_reads [OF dep_tail_ends(2) [OF t]] d(2)])
    have "p_slot_dep (CHR '':'' # w) = None" for w
      by (simp add: p_slot_dep_def p_slot_def p_alt_def p_map_def p_bind_def p_before_def p_slice_def p_then_def
          p_slot_name_def p_name_eq p_lit_Cons)
    then show "p_slot_dep_str ?r = None"
      using t by (cases t) (auto simp: p_slot_dep_str_def p_then_def p_bind_def p_lit_def starts_with_def
          dep_end_def char_classes opt_text_def split: option.splits)
  qed
  have pk: "p_dep_pkg (pkg_text d @ ?s) = Some (bare_pkg d, ?s)"
    by (rule p_dep_pkg_reads [OF dep_tail_ends(3,4) [OF t] d(1)])
  have "p_lit ''!'' (pkg_text d @ ?s) = None"
    using pkg_text_hd [OF d(1), of ?s] by (cases "pkg_text d @ ?s") (auto simp: p_lit_Cons p_lit_hd)
  then have "p_blocker (pkg_text d @ ?s) = None"
    by (simp add: p_blocker_def p_try_def p_slice_def p_then_def p_bind_def)
  then have bl: "p_opt p_blocker (opt_text blocker_display (dep_blocker d) @ pkg_text d @ ?s) =
      Some (dep_blocker d, pkg_text d @ ?s)"
    using pkg_text_hd [OF d(1), of ?s]
    by (intro p_opt_reads [OF p_blocker_reads]) (auto simp: option.pred_True)
  show ?thesis
    using bl pk sl rp us
    by (simp add: p_dep_def p_bind_def p_return_def dep_text_def dep_with_def bare_pkg_def)
qed

lemma collect_use_deps_distinct: "index_set (=) ix \<Longrightarrow> distinct us \<Longrightarrow> is_collect ix us = us"
  by (simp add: index_set.collect firsts_by_distinct)

lemma valid_dep_reads: "index_set (=) ix \<Longrightarrow> valid_dep e d \<Longrightarrow> dep_end t \<Longrightarrow> p_dep ix e (dep_text d @ t) = Some (d, t)"
  using p_dep_reads [of t d e ix]
  by (auto simp: valid_dep_def collect_use_deps_distinct pred_option_def split: option.splits)
     (cases "dep_use_deps d"; cases d; simp add: collect_use_deps_distinct)

lemma firsts_by_valid: "us \<noteq> [] \<and> list_all Q us \<Longrightarrow> firsts_by (=) us \<noteq> [] \<and> list_all Q (firsts_by (=) us) \<and> distinct (firsts_by (=) us)"
  using distinct_by_firsts_by [of "(=)" us] by (simp add: list_all_firsts_by symp_def)

lemma p_dep_valid:
  assumes ix: "index_set (=) ix" and p: "p_dep ix e s = Some (d, r)" "dep_end r"
  shows "valid_dep e d"
proof -
  obtain us where us: "dep_use_deps d = map_option (is_collect ix) us"
      "pred_option (\<lambda>us. us \<noteq> [] \<and> list_all valid_use_dep us) us"
    and d: "valid_pkg d" "pred_option valid_slot_dep (dep_slot_dep d)"
      "pred_option (\<lambda>r. valid_repo r \<and> eapi_has e RepoIds) (dep_repo d)"
    using p_dep_SomeD [OF p] by blast
  have "pred_option (\<lambda>us. us \<noteq> [] \<and> list_all valid_use_dep us \<and> distinct us) (dep_use_deps d)"
    using us firsts_by_valid [of _ valid_use_dep] by (cases us) (simp_all add: index_set.collect [OF ix])
  with d show ?thesis by (simp add: valid_dep_def)
qed

lemma parse_dep_text:
  assumes "parse_dep ix e s = Inr d"
  shows "\<exists>us. s = dep_text (d\<lparr>dep_use_deps := us\<rparr>) \<and> dep_use_deps d = map_option (is_collect ix) us"
  using assms p_dep_SomeD [of ix e s d "[]"] by (auto simp: parse_dep_def dep_end_def)

lemma parse_dep_display_iff:
  assumes ix: "index_set (=) ix"
  shows "(\<exists>s. dep_display d = Some s \<and> parse_dep ix e s = Inr d) \<longleftrightarrow> valid_dep e d"
proof
  assume "\<exists>s. dep_display d = Some s \<and> parse_dep ix e s = Inr d"
  then show "valid_dep e d" using p_dep_valid [OF ix, of e _ d "[]"] by (auto simp: parse_dep_def dep_end_def)
next
  assume v: "valid_dep e d"
  then have "parse_dep ix e (dep_text d) = Inr d"
    using valid_dep_reads [OF ix v, of "[]"] by (simp add: parse_dep_def dep_end_def)
  then show "\<exists>s. dep_display d = Some s \<and> parse_dep ix e s = Inr d"
    using v by (simp add: dep_display_text valid_dep_def)
qed

lemma parse_dep_valid: "index_set (=) ix \<Longrightarrow> parse_dep ix e s = Inr d \<Longrightarrow> valid_dep e d"
  using p_dep_valid [of ix e s d "[]"] by (simp add: parse_dep_def dep_end_def)

section \<open>Values of strings\<close>

text \<open>Values that strings parse as, over the reference set.\<close>

abbreviation ref_ix :: "use_dep index_set" where
  "ref_ix \<equiv> ref_index_set (=)"

definition ids_eapi :: eapi where
  "ids_eapi = (eapi_new ''ids'' None)\<lparr>eapi_features := {RepoIds}\<rparr>"

definition parsed_dep :: "string \<Rightarrow> dep" where
  "parsed_dep s = projr (parse_dep ref_ix ids_eapi s)"

definition parsed_cpv :: "string \<Rightarrow> cpv" where
  "parsed_cpv s = projr (parse_cpv s)"

end
