(* ===== verification/Dep_Ops.thy ===== *)
theory Dep_Ops
  imports Dep_Text
begin

text \<open>
  The operations of \<open>dep/pkg.rs\<close> that derive a dependency from another: \<open>modify\<close>,
  \<open>without\<close>, \<open>unversioned\<close>, \<open>versioned\<close> and \<open>no_use_deps\<close>, with the
  copy-on-write result the code returns, and \<open>FromStr\<close> for a set of USE dependencies.
\<close>

section \<open>Fields\<close>

datatype dep_field =
    FieldCategory | FieldPackage | FieldBlocker | FieldVersion | FieldSlotDep | FieldUseDeps | FieldRepo

definition dep_field_optional :: "dep_field list" where
  "dep_field_optional = [FieldBlocker, FieldVersion, FieldSlotDep, FieldUseDeps, FieldRepo]"

text \<open>\<open>Cow\<close>: borrowed until the first write.\<close>

datatype 'a cow = Borrowed 'a | Owned 'a

fun cow_ref :: "'a cow \<Rightarrow> 'a" where
  "cow_ref (Borrowed x) = x"
| "cow_ref (Owned x) = x"

definition to_mut :: "('a \<Rightarrow> 'a) \<Rightarrow> 'a cow \<Rightarrow> 'a cow" where
  "to_mut f c = Owned (f (cow_ref c))"

lemma cow_ref_to_mut [simp]: "cow_ref (to_mut f c) = f (cow_ref c)"
  by (simp add: to_mut_def)

section \<open>Operations\<close>

definition unwrap_or_default :: "('a \<Rightarrow> bool) \<Rightarrow> 'a option \<Rightarrow> bool" where
  "unwrap_or_default f x = (case x of None \<Rightarrow> False | Some a \<Rightarrow> f a)"

definition use_deps_from_str :: "use_dep index_set \<Rightarrow> string \<Rightarrow> error + use_dep list" where
  "use_deps_from_str ix s = (case collect_results (map parse_use_dep (split_char (CHR '','') s)) of
     Inl e \<Rightarrow> Inl e | Inr us \<Rightarrow> Inr (is_collect ix us))"

definition blocker_parse :: "string \<Rightarrow> error + blocker" where
  "blocker_parse s = (case blocker_from_str s of None \<Rightarrow> Inl (InvalidValue ''invalid blocker'' s) | Some b \<Rightarrow> Inr b)"

text \<open>One iteration of the loop of \<open>modify\<close>: \<open>self\<close> is the dependency the method was
  called on, \<open>dep\<close> the copy-on-write value of the loop.\<close>

fun modify_field :: "use_dep index_set \<Rightarrow> dep \<Rightarrow> dep cow \<Rightarrow> dep_field \<times> string option \<Rightarrow> error + dep cow" where
  "modify_field ix self dep (FieldCategory, Some s) = (case parse_category s of
     Inl e \<Rightarrow> Inl e
   | Inr v \<Rightarrow> Inr (if cpn_category (dep_cpn (cow_ref dep)) \<noteq> v
       then to_mut (\<lambda>d. d\<lparr>dep_cpn := (dep_cpn d)\<lparr>cpn_category := v\<rparr>\<rparr>) dep else dep))"
| "modify_field ix self dep (FieldCategory, None) = Inl (InvalidValue ''category cannot be unset'' [])"
| "modify_field ix self dep (FieldPackage, Some s) = (case parse_package s of
     Inl e \<Rightarrow> Inl e
   | Inr v \<Rightarrow> Inr (if cpn_package (dep_cpn (cow_ref dep)) \<noteq> v
       then to_mut (\<lambda>d. d\<lparr>dep_cpn := (dep_cpn d)\<lparr>cpn_package := v\<rparr>\<rparr>) dep else dep))"
| "modify_field ix self dep (FieldPackage, None) = Inl (InvalidValue ''package cannot be unset'' [])"
| "modify_field ix self dep (FieldBlocker, Some s) = (case blocker_parse s of
     Inl e \<Rightarrow> Inl e
   | Inr v \<Rightarrow> Inr (if \<not> unwrap_or_default (\<lambda>b. b = v) (dep_blocker (cow_ref dep))
       then to_mut (\<lambda>d. d\<lparr>dep_blocker := Some v\<rparr>) dep else dep))"
| "modify_field ix self dep (FieldBlocker, None) = Inr (if dep_blocker self \<noteq> None
       then to_mut (\<lambda>d. d\<lparr>dep_blocker := None\<rparr>) dep else dep)"
| "modify_field ix self dep (FieldVersion, Some s) = (case parse_version_with_op s of
     Inl e \<Rightarrow> Inl e
   | Inr v \<Rightarrow> Inr (if \<not> unwrap_or_default (\<lambda>w. version_eq w v) (dep_version (cow_ref dep))
       then to_mut (\<lambda>d. d\<lparr>dep_version := Some v\<rparr>) dep else dep))"
| "modify_field ix self dep (FieldVersion, None) = Inr (if dep_version self \<noteq> None
       then to_mut (\<lambda>d. d\<lparr>dep_version := None\<rparr>) dep else dep)"
| "modify_field ix self dep (FieldSlotDep, Some s) = (case parse_slot_dep s of
     Inl e \<Rightarrow> Inl e
   | Inr v \<Rightarrow> Inr (if \<not> unwrap_or_default (\<lambda>w. w = v) (dep_slot_dep (cow_ref dep))
       then to_mut (\<lambda>d. d\<lparr>dep_slot_dep := Some v\<rparr>) dep else dep))"
| "modify_field ix self dep (FieldSlotDep, None) = Inr (if dep_slot_dep self \<noteq> None
       then to_mut (\<lambda>d. d\<lparr>dep_slot_dep := None\<rparr>) dep else dep)"
| "modify_field ix self dep (FieldUseDeps, Some s) = (case use_deps_from_str ix s of
     Inl e \<Rightarrow> Inl e
   | Inr v \<Rightarrow> Inr (if \<not> unwrap_or_default (\<lambda>w. sorted_set_eq use_dep_cmp w v) (dep_use_deps (cow_ref dep))
       then to_mut (\<lambda>d. d\<lparr>dep_use_deps := Some v\<rparr>) dep else dep))"
| "modify_field ix self dep (FieldUseDeps, None) = Inr (if dep_use_deps self \<noteq> None
       then to_mut (\<lambda>d. d\<lparr>dep_use_deps := None\<rparr>) dep else dep)"
| "modify_field ix self dep (FieldRepo, Some s) = (case parse_repo s of
     Inl e \<Rightarrow> Inl e
   | Inr v \<Rightarrow> Inr (if \<not> unwrap_or_default (\<lambda>w. w = v) (dep_repo (cow_ref dep))
       then to_mut (\<lambda>d. d\<lparr>dep_repo := Some v\<rparr>) dep else dep))"
| "modify_field ix self dep (FieldRepo, None) = Inr (if dep_repo self \<noteq> None
       then to_mut (\<lambda>d. d\<lparr>dep_repo := None\<rparr>) dep else dep)"

fun modify_fields :: "use_dep index_set \<Rightarrow> dep \<Rightarrow> dep cow \<Rightarrow> (dep_field \<times> string option) list \<Rightarrow> error + dep cow" where
  "modify_fields ix self dep [] = Inr dep"
| "modify_fields ix self dep (v # vs) = (case modify_field ix self dep v of
     Inl e \<Rightarrow> Inl e | Inr dep' \<Rightarrow> modify_fields ix self dep' vs)"

definition dep_modify :: "use_dep index_set \<Rightarrow> dep \<Rightarrow> (dep_field \<times> string option) list \<Rightarrow> error + dep cow" where
  "dep_modify ix self values = modify_fields ix self (Borrowed self) values"

definition dep_without :: "use_dep index_set \<Rightarrow> dep \<Rightarrow> dep_field list \<Rightarrow> error + dep cow" where
  "dep_without ix self fs = dep_modify ix self (map (\<lambda>f. (f, None)) fs)"

text \<open>\<open>unwrap_or_else\<close> with a panic: \<open>None\<close> is the panic.\<close>

definition unwrap :: "error + 'a \<Rightarrow> 'a option" where
  "unwrap r = (case r of Inl e \<Rightarrow> None | Inr x \<Rightarrow> Some x)"

definition dep_unversioned :: "use_dep index_set \<Rightarrow> dep \<Rightarrow> dep cow option" where
  "dep_unversioned ix self = unwrap (dep_modify ix self (map (\<lambda>f. (f, None)) dep_field_optional))"

definition dep_versioned :: "use_dep index_set \<Rightarrow> dep \<Rightarrow> dep cow option" where
  "dep_versioned ix self =
     (case unwrap (dep_modify ix self (map (\<lambda>f. (f, None)) (filter (\<lambda>f. f \<noteq> FieldVersion) dep_field_optional))) of
        None \<Rightarrow> None
      | Some dep \<Rightarrow> Some (case dep_op (cow_ref dep) of
            Some op \<Rightarrow> if op \<noteq> OpEqual
              then to_mut (\<lambda>d. d\<lparr>dep_version := map_option (\<lambda>v. v\<lparr>ver_op := Some OpEqual\<rparr>) (dep_version d)\<rparr>) dep
              else dep
          | None \<Rightarrow> dep))"

definition dep_no_use_deps :: "use_dep index_set \<Rightarrow> dep \<Rightarrow> dep cow option" where
  "dep_no_use_deps ix self = unwrap (dep_without ix self [FieldUseDeps])"

section \<open>Modified dependencies are valid\<close>

lemma use_deps_from_str_valid:
  assumes "index_set (=) ix" "use_deps_from_str ix s = Inr us"
  shows "us \<noteq> [] \<and> list_all valid_use_dep us \<and> distinct us"
proof -
  obtain vs where vs: "map parse_use_dep (split_char (CHR '','') s) = map Inr vs" "us = firsts_by (=) vs"
    using assms by (auto simp: use_deps_from_str_def collect_results_Inr index_set.collect [OF assms(1)] split: sum.splits)
  have "vs \<noteq> []" using vs(1) by (metis list.map_disc_iff split_char_not_Nil)
  moreover have "valid_use_dep v" if "v \<in> set vs" for v
  proof -
    have "Inr v \<in> set (map parse_use_dep (split_char (CHR '','') s))" using that vs(1) by simp
    then obtain t where "parse_use_dep t = Inr v" by auto
    then show ?thesis using printsD [OF p_use_dep_prints, of t v "[]"] by (simp add: parse_use_dep_def)
  qed
  ultimately show ?thesis using vs(2) firsts_by_valid [of vs valid_use_dep] by (simp add: list_all_iff)
qed

lemma parse_category_valid: "parse_category s = Inr v \<Longrightarrow> valid_category v"
  using printsD [OF p_name_prints, of word_char name_char s v "[]"]
  by (simp add: parse_category_def valid_category_def p_category_def)

lemma parse_package_valid: "parse_package s = Inr v \<Longrightarrow> valid_package v"
  using p_package_SomeD [of s v "[]"] by (simp add: parse_package_def package_follow_def)

lemma parse_slot_dep_valid: "parse_slot_dep s = Inr v \<Longrightarrow> valid_slot_dep v"
  using printsD [OF p_slot_dep_prints, of s v "[]"] by (simp add: parse_slot_dep_def)

lemma parse_repo_valid: "parse_repo s = Inr v \<Longrightarrow> valid_repo v"
  using p_repo_SomeD [of s v "[]"] by (simp add: parse_repo_def repo_end_def)

lemmas field_valid = parse_category_valid parse_package_valid parse_slot_dep_valid parse_repo_valid

lemma modify_field_valid:
  assumes ix: "index_set (=) ix" and e: "eapi_has e RepoIds"
    and d: "valid_dep e (cow_ref dep)" and m: "modify_field ix self dep v = Inr dep'"
  shows "valid_dep e (cow_ref dep')"
proof (cases v)
  case (Pair f s)
  show ?thesis
    using m d e use_deps_from_str_valid [OF ix, of "the s"]
    by (cases f; cases s)
      (auto simp: Pair valid_dep_def valid_pkg_def valid_cpn_def parse_version_with_op_iff
        split: sum.splits if_splits dest: field_valid)
qed

lemma modify_fields_valid:
  assumes "index_set (=) ix" "eapi_has e RepoIds"
  shows "valid_dep e (cow_ref dep) \<Longrightarrow> modify_fields ix self dep vs = Inr dep' \<Longrightarrow> valid_dep e (cow_ref dep')"
  by (induction vs arbitrary: dep) (auto split: sum.splits dest: modify_field_valid [OF assms])

lemma dep_modify_valid:
  "index_set (=) ix \<Longrightarrow> eapi_has e RepoIds \<Longrightarrow> valid_dep e d \<Longrightarrow> dep_modify ix d vs = Inr d' \<Longrightarrow> valid_dep e (cow_ref d')"
  by (rule modify_fields_valid [of ix e "Borrowed d" d vs d']) (simp_all add: dep_modify_def)

section \<open>Unset fields\<close>

fun unset_field :: "dep_field \<Rightarrow> dep \<Rightarrow> dep" where
  "unset_field FieldBlocker d = d\<lparr>dep_blocker := None\<rparr>"
| "unset_field FieldVersion d = d\<lparr>dep_version := None\<rparr>"
| "unset_field FieldSlotDep d = d\<lparr>dep_slot_dep := None\<rparr>"
| "unset_field FieldUseDeps d = d\<lparr>dep_use_deps := None\<rparr>"
| "unset_field FieldRepo d = d\<lparr>dep_repo := None\<rparr>"
| "unset_field f d = d"

fun field_is_set :: "dep \<Rightarrow> dep_field \<Rightarrow> bool" where
  "field_is_set d FieldBlocker \<longleftrightarrow> dep_blocker d \<noteq> None"
| "field_is_set d FieldVersion \<longleftrightarrow> dep_version d \<noteq> None"
| "field_is_set d FieldSlotDep \<longleftrightarrow> dep_slot_dep d \<noteq> None"
| "field_is_set d FieldUseDeps \<longleftrightarrow> dep_use_deps d \<noteq> None"
| "field_is_set d FieldRepo \<longleftrightarrow> dep_repo d \<noteq> None"
| "field_is_set d f \<longleftrightarrow> True"

definition optional_field :: "dep_field \<Rightarrow> bool" where
  "optional_field f \<longleftrightarrow> f \<in> set dep_field_optional"

lemma optional_field_simps [simp]:
  "optional_field f \<longleftrightarrow> f \<noteq> FieldCategory \<and> f \<noteq> FieldPackage"
  by (cases f) (simp_all add: optional_field_def dep_field_optional_def)

lemma field_is_set_unset [simp]: "field_is_set (unset_field f d) g \<longleftrightarrow> field_is_set d g \<and> (f = g \<longrightarrow> \<not> optional_field f)"
  by (cases f; cases g) simp_all

lemma unset_field_unset: "\<not> field_is_set d f \<Longrightarrow> unset_field f d = d"
  by (cases f) simp_all

lemma modify_field_unset:
  assumes "optional_field f" "\<And>g. field_is_set (cow_ref dep) g \<Longrightarrow> field_is_set self g"
  shows "modify_field ix self dep (f, None) =
    Inr (if field_is_set self f then to_mut (unset_field f) dep else dep)"
  using assms by (cases f) (simp_all add: to_mut_def)

lemma fold_unset: "(\<And>f. f \<in> set fs \<Longrightarrow> \<not> field_is_set d f) \<Longrightarrow> fold unset_field fs d = d"
  by (induction fs) (simp_all add: unset_field_unset)

text \<open>Unsetting fields from a value that has no field set that \<open>self\<close> has not.\<close>

lemma modify_fields_unset:
  assumes "list_all optional_field fs" "\<And>g. field_is_set (cow_ref dep) g \<Longrightarrow> field_is_set self g"
  shows "modify_fields ix self dep (map (\<lambda>f. (f, None)) fs) =
    Inr (if list_ex (field_is_set self) fs then Owned (fold unset_field fs (cow_ref dep)) else dep)"
  using assms
proof (induction fs arbitrary: dep)
  case (Cons f fs)
  let ?dep = "if field_is_set self f then to_mut (unset_field f) dep else dep"
  have ref: "cow_ref ?dep = unset_field f (cow_ref dep)"
    using Cons.prems(2) [of f] unset_field_unset [of "cow_ref dep" f] by (metis cow_ref_to_mut)
  have "fold unset_field fs (cow_ref ?dep) = cow_ref ?dep" if "\<not> list_ex (field_is_set self) fs"
    using that Cons.prems(2) ref by (intro fold_unset) (auto simp: list_ex_iff)
  moreover have "modify_fields ix self ?dep (map (\<lambda>f. (f, None)) fs) =
      Inr (if list_ex (field_is_set self) fs then Owned (fold unset_field fs (cow_ref ?dep)) else ?dep)"
    using Cons.prems by (intro Cons.IH) (auto simp: ref)
  ultimately show ?case
    using Cons.prems ref by (auto simp: modify_field_unset to_mut_def)
qed simp

lemma dep_without_optional:
  assumes "list_all optional_field fs"
  shows "dep_without ix d fs =
    Inr (if list_ex (field_is_set d) fs then Owned (fold unset_field fs d) else Borrowed d)"
  using modify_fields_unset [OF assms, of "Borrowed d" d ix] by (simp add: dep_without_def dep_modify_def)

lemma dep_without_required:
  assumes "\<not> list_all optional_field fs"
  shows "dep_without ix d fs = Inl (InvalidValue
    (if hd (dropWhile optional_field fs) = FieldCategory then ''category cannot be unset'' else ''package cannot be unset'') [])"
proof -
  have "modify_fields ix d dep (map (\<lambda>f. (f, None)) fs) = Inl (InvalidValue
    (if hd (dropWhile optional_field fs) = FieldCategory then ''category cannot be unset'' else ''package cannot be unset'') [])"
    for dep
    using assms
  proof (induction fs arbitrary: dep)
    case (Cons f fs)
    then show ?case by (cases f) auto
  qed simp
  then show ?thesis by (simp add: dep_without_def dep_modify_def)
qed

lemma dep_unversioned_eq:
  "dep_unversioned ix d = Some (if d = dep_from_cpn (dep_cpn d) then Borrowed d else Owned (dep_from_cpn (dep_cpn d)))"
proof -
  have "fold unset_field dep_field_optional d = dep_from_cpn (dep_cpn d)"
    by (cases d) (simp add: dep_field_optional_def dep_from_cpn_def)
  moreover have "list_ex (field_is_set d) dep_field_optional \<longleftrightarrow> d \<noteq> dep_from_cpn (dep_cpn d)"
    by (cases d) (auto simp: dep_field_optional_def dep_from_cpn_def)
  ultimately show ?thesis
    using dep_without_optional [of dep_field_optional ix d]
    by (simp add: dep_unversioned_def dep_without_def unwrap_def dep_field_optional_def)
qed

definition versioned_dep :: "dep \<Rightarrow> dep" where
  "versioned_dep d = (dep_from_cpn (dep_cpn d))\<lparr>dep_version :=
     map_option (\<lambda>v. if ver_op v = None then v else v\<lparr>ver_op := Some OpEqual\<rparr>) (dep_version d)\<rparr>"

lemma dep_versioned_eq: "\<exists>c. dep_versioned ix d = Some c \<and> cow_ref c = versioned_dep d"
proof -
  let ?fs = "filter (\<lambda>f. f \<noteq> FieldVersion) dep_field_optional"
  have fs: "?fs = [FieldBlocker, FieldSlotDep, FieldUseDeps, FieldRepo]"
    by (simp add: dep_field_optional_def)
  let ?r = "(dep_from_cpn (dep_cpn d))\<lparr>dep_version := dep_version d\<rparr>"
  have r: "fold unset_field ?fs d = ?r" by (cases d) (simp add: fs dep_from_cpn_def)
  have "list_ex (field_is_set d) ?fs \<or> d = ?r" by (cases d) (auto simp: fs dep_from_cpn_def)
  then obtain c where c: "dep_modify ix d (map (\<lambda>f. (f, None)) ?fs) = Inr c" "cow_ref c = ?r"
    using dep_without_optional [of ?fs ix d] r by (auto simp: fs dep_without_def split: if_splits)
  have op: "v = v\<lparr>ver_op := Some OpEqual\<rparr>" if "ver_op v = Some OpEqual" for v :: version
    using that by (cases v) simp
  show ?thesis
    using c by (auto simp: dep_versioned_def unwrap_def versioned_dep_def dep_op_def dep_from_cpn_def
        split: option.splits bind_splits dest: op)
qed

lemma dep_no_use_deps_eq: "\<exists>c. dep_no_use_deps ix d = Some c \<and> cow_ref c = d\<lparr>dep_use_deps := None\<rparr>"
  using dep_without_optional [of "[FieldUseDeps]" ix d]
  by (cases d) (auto simp: dep_no_use_deps_def unwrap_def)

lemma versioned_dep_valid: "valid_dep e d \<Longrightarrow> valid_dep e (versioned_dep d)"
  by (cases "dep_version d")
    (auto simp: valid_dep_def valid_pkg_def versioned_dep_def dep_from_cpn_def op_version_def wf_version_def)

section \<open>A field set and unset in one call\<close>

text \<open>The branches that unset a field ask whether \<open>self\<close> has it, not whether the value
  built so far has it.\<close>

lemma modify_set_then_unset:
  assumes "dep_version d = None" "parse_version_with_op s = Inr v"
  shows "dep_modify ix d [(FieldVersion, Some s), (FieldVersion, None)] = Inr (Owned (d\<lparr>dep_version := Some v\<rparr>))"
  using assms by (simp add: dep_modify_def unwrap_or_default_def to_mut_def)

end
