(* ===== verification/Dependency.thy ===== *)
theory Dependency
  imports Dep_Laws
begin

text \<open>
  Dependency expressions: the data of \<open>dep/dependency.rs\<close> and its order, display, sort
  and membership, the worklist iterators of \<open>dep/dependency_iter.rs\<close> over
  \<open>types/deque.rs\<close>, evaluation, and the set operations of \<open>dep/dependency_set.rs\<close>.
  The members of a group are the list in insertion order; borrowed and owned values, and the
  conversions between them, are the same values here.
\<close>

section \<open>Data\<close>

datatype 'a dependency =
    Enabled 'a
  | Disabled 'a
  | AllOf "'a dependency list"
  | AnyOf "'a dependency list"
  | ExactlyOneOf "'a dependency list"
  | AtMostOneOf "'a dependency list"
  | Conditional use_dep "'a dependency list"

fun dependency_index :: "'a dependency \<Rightarrow> nat" where
  "dependency_index (Enabled v) = 0"
| "dependency_index (Disabled v) = 1"
| "dependency_index (AllOf vs) = 2"
| "dependency_index (AnyOf vs) = 3"
| "dependency_index (ExactlyOneOf vs) = 4"
| "dependency_index (AtMostOneOf vs) = 5"
| "dependency_index (Conditional u vs) = 6"

text \<open>The members of a group, what \<open>IntoIterator\<close> iterates over.\<close>

fun dependency_iter :: "'a dependency \<Rightarrow> 'a dependency list" where
  "dependency_iter (Enabled v) = []"
| "dependency_iter (Disabled v) = []"
| "dependency_iter (AllOf vs) = vs"
| "dependency_iter (AnyOf vs) = vs"
| "dependency_iter (ExactlyOneOf vs) = vs"
| "dependency_iter (AtMostOneOf vs) = vs"
| "dependency_iter (Conditional u vs) = vs"

fun dependency_len :: "'a dependency \<Rightarrow> nat" where
  "dependency_len (Enabled v) = 1"
| "dependency_len (Disabled v) = 1"
| "dependency_len (AllOf vs) = length vs"
| "dependency_len (AnyOf vs) = length vs"
| "dependency_len (ExactlyOneOf vs) = length vs"
| "dependency_len (AtMostOneOf vs) = length vs"
| "dependency_len (Conditional u vs) = length vs"

fun dependency_is_empty :: "'a dependency \<Rightarrow> bool" where
  "dependency_is_empty (Enabled v) = False"
| "dependency_is_empty (Disabled v) = False"
| "dependency_is_empty (AllOf vs) = (vs = [])"
| "dependency_is_empty (AnyOf vs) = (vs = [])"
| "dependency_is_empty (ExactlyOneOf vs) = (vs = [])"
| "dependency_is_empty (AtMostOneOf vs) = (vs = [])"
| "dependency_is_empty (Conditional u vs) = (vs = [])"

definition get_index :: "'a list \<Rightarrow> nat \<Rightarrow> 'a option" where
  "get_index xs i = (if i < length xs then Some (xs ! i) else None)"

fun dependency_get_index :: "'a dependency \<Rightarrow> nat \<Rightarrow> 'a dependency option" where
  "dependency_get_index (Enabled v) i = (if i = 0 then Some (Enabled v) else None)"
| "dependency_get_index (Disabled v) i = (if i = 0 then Some (Disabled v) else None)"
| "dependency_get_index (AllOf vs) i = get_index vs i"
| "dependency_get_index (AnyOf vs) i = get_index vs i"
| "dependency_get_index (ExactlyOneOf vs) i = get_index vs i"
| "dependency_get_index (AtMostOneOf vs) i = get_index vs i"
| "dependency_get_index (Conditional u vs) i = get_index vs i"

lemma member_size: "x \<in> set xs \<Longrightarrow> size x < Suc (size_list size xs)"
  by (induction xs) auto

section \<open>Order\<close>

text \<open>Sorting and comparing lists ask for comparisons of their members only.\<close>

lemma insert_cmp_cong:
  "(\<And>x y. x \<in> insert a (set xs) \<Longrightarrow> y \<in> insert a (set xs) \<Longrightarrow> c x y = d x y) \<Longrightarrow> insert_cmp c a xs = insert_cmp d a xs"
  by (induction xs) auto

lemma sort_cmp_cong [fundef_cong]:
  "xs = ys \<Longrightarrow> (\<And>x y. x \<in> set ys \<Longrightarrow> y \<in> set ys \<Longrightarrow> c x y = d x y) \<Longrightarrow> sort_cmp c xs = sort_cmp d ys"
proof (induction xs arbitrary: ys)
  case (Cons x xs)
  then have "sort_cmp c xs = sort_cmp d xs" by (intro Cons.IH) auto
  then show ?case
    using Cons.prems(2) insert_cmp_cong [of x "sort_cmp d xs" c d]
    unfolding Cons.prems(1) [symmetric] by (simp add: sort_cmp_Cons)
qed simp

lemma cmp_list_cong [fundef_cong]:
  "xs = xs' \<Longrightarrow> ys = ys' \<Longrightarrow> (\<And>x y. x \<in> set xs' \<Longrightarrow> y \<in> set ys' \<Longrightarrow> c x y = d x y) \<Longrightarrow>
    cmp_list c xs ys = cmp_list d xs' ys'"
proof (induction xs arbitrary: ys xs' ys')
  case (Cons x xs)
  have "cmp_list c xs zs = cmp_list d xs zs" if "\<And>z. z \<in> set zs \<Longrightarrow> z \<in> set ys" for zs
    using Cons.prems that by (intro Cons.IH) auto
  then show ?case using Cons.prems by (cases ys) auto
next
  case Nil
  then show ?case by (cases ys) auto
qed

text \<open>The comparison of two sorted sets, \<open>sorted_set_cmp\<close> written so that recursion
  through the members is seen.\<close>

lemma sorted_set_cmp_cong [fundef_cong]:
  "xs = xs' \<Longrightarrow> ys = ys' \<Longrightarrow> (\<And>x y. x \<in> set xs' \<union> set ys' \<Longrightarrow> y \<in> set xs' \<union> set ys' \<Longrightarrow> c x y = d x y) \<Longrightarrow>
    sorted_set_cmp c xs ys = sorted_set_cmp d xs' ys'"
  unfolding sorted_set_cmp_def
  by (intro cmp_list_cong sort_cmp_cong) auto

text \<open>The derived \<open>Ord\<close>: the variant, then its fields; \<open>SortedDeps\<close> compare as
  sets, \<open>OrderedDeps\<close> in insertion order.\<close>

function (sequential) dependency_cmp :: "('a \<Rightarrow> 'a \<Rightarrow> ordering) \<Rightarrow> 'a dependency \<Rightarrow> 'a dependency \<Rightarrow> ordering" where
  "dependency_cmp c (Enabled x) (Enabled y) = c x y"
| "dependency_cmp c (Disabled x) (Disabled y) = c x y"
| "dependency_cmp c (AllOf s) (AllOf t) = sorted_set_cmp (dependency_cmp c) s t"
| "dependency_cmp c (AnyOf s) (AnyOf t) = cmp_list (dependency_cmp c) s t"
| "dependency_cmp c (ExactlyOneOf s) (ExactlyOneOf t) = cmp_list (dependency_cmp c) s t"
| "dependency_cmp c (AtMostOneOf s) (AtMostOneOf t) = cmp_list (dependency_cmp c) s t"
| "dependency_cmp c (Conditional u s) (Conditional v t) =
     ord_then (use_dep_cmp u v) (sorted_set_cmp (dependency_cmp c) s t)"
| "dependency_cmp c a b = cmp_by dependency_index a b"
  by pat_completeness auto
termination
proof (relation "measure (\<lambda>(c, a, b). max (size a) (size b))", goal_cases)
qed (auto simp: less_max_iff_disj dest: member_size)

text \<open>The fields of a dependency by how they are compared.\<close>

fun dependency_value :: "'a dependency \<Rightarrow> 'a option" where
  "dependency_value (Enabled v) = Some v"
| "dependency_value (Disabled v) = Some v"
| "dependency_value d = None"

fun dependency_use_dep :: "'a dependency \<Rightarrow> use_dep option" where
  "dependency_use_dep (Conditional u vs) = Some u"
| "dependency_use_dep d = None"

fun sorted_members :: "'a dependency \<Rightarrow> 'a dependency list" where
  "sorted_members (AllOf vs) = vs"
| "sorted_members (Conditional u vs) = vs"
| "sorted_members d = []"

fun ordered_members :: "'a dependency \<Rightarrow> 'a dependency list" where
  "ordered_members (AnyOf vs) = vs"
| "ordered_members (ExactlyOneOf vs) = vs"
| "ordered_members (AtMostOneOf vs) = vs"
| "ordered_members d = []"

lemma sorted_set_cmp_Nil [simp]: "sorted_set_cmp c [] [] = Equal"
  by (simp add: sorted_set_cmp_def)

lemma dependency_cmp_fields: "dependency_cmp c a b =
     ord_then (cmp_by dependency_index a b)
    (ord_then (cmp_option c (dependency_value a) (dependency_value b))
    (ord_then (cmp_option use_dep_cmp (dependency_use_dep a) (dependency_use_dep b))
    (ord_then (sorted_set_cmp (dependency_cmp c) (sorted_members a) (sorted_members b))
              (cmp_list (dependency_cmp c) (ordered_members a) (ordered_members b)))))"
  by (cases a; cases b) (simp_all add: cmp_by_def)

lemma size_members: "x \<in> set (sorted_members d) \<union> set (ordered_members d) \<Longrightarrow> size x < size d"
  by (cases d) (auto dest: member_size)

fun wf_dependency :: "('a \<Rightarrow> bool) \<Rightarrow> 'a dependency \<Rightarrow> bool" where
  "wf_dependency Q (Enabled v) = Q v"
| "wf_dependency Q (Disabled v) = Q v"
| "wf_dependency Q (AllOf vs) = list_all (wf_dependency Q) vs"
| "wf_dependency Q (AnyOf vs) = list_all (wf_dependency Q) vs"
| "wf_dependency Q (ExactlyOneOf vs) = list_all (wf_dependency Q) vs"
| "wf_dependency Q (AtMostOneOf vs) = list_all (wf_dependency Q) vs"
| "wf_dependency Q (Conditional u vs) = list_all (wf_dependency Q) vs"

lemma total_cmp_bounded:
  assumes n: "\<And>n. total_cmp (\<lambda>d. Q d \<and> size d < n) c"
  shows "total_cmp Q c"
proof
  fix x assume "Q x"
  then show "c x x = Equal" using total_cmp.refl [OF n [of "Suc (size x)"]] by simp
next
  fix x y assume "Q x" "Q y"
  then show "c y x = ord_reverse (c x y)"
    using total_cmp.flip [OF n [of "Suc (size x + size y)"], of x y] by simp
next
  fix x y z assume "Q x" "Q y" "Q z" "c x y \<noteq> Greater" "c y z \<noteq> Greater"
  then show "c x z \<noteq> Greater"
    using total_cmp.trans [OF n [of "Suc (size x + size y + size z)"], of x y z] by simp
qed

lemma total_cmp_dependency [cmp_laws]:
  assumes "total_cmp Q c"
  shows "total_cmp (wf_dependency Q) (dependency_cmp c)"
proof -
  have "total_cmp (\<lambda>d. wf_dependency Q d \<and> size d < n) (dependency_cmp c)" for n
  proof (induction n)
    case (Suc n)
    let ?Q = "\<lambda>d. wf_dependency Q d \<and> size d < Suc n" and ?q = "\<lambda>d. wf_dependency Q d \<and> size d < n"
    have kids: "list_all ?q (sorted_members d)" "list_all ?q (ordered_members d)" if "?Q d" for d
      using that size_members [of _ d] by (cases d; fastforce simp: list_all_iff)+
    have "total_cmp ?Q (\<lambda>a b. cmp_option c (dependency_value a) (dependency_value b))"
      by (rule total_cmp_key [OF total_cmp_option [OF assms]]) (auto elim!: dependency_value.elims)
    moreover have "total_cmp ?Q (\<lambda>a b. cmp_option use_dep_cmp (dependency_use_dep a) (dependency_use_dep b))"
      by (rule total_cmp_key [OF total_cmp_option_any [OF total_cmp_use_dep]]) simp
    moreover have "total_cmp ?Q (\<lambda>a b. sorted_set_cmp (dependency_cmp c) (sorted_members a) (sorted_members b))"
      by (rule total_cmp_key [OF total_cmp_sorted_set [OF Suc]]) (use kids in auto)
    moreover have "total_cmp ?Q (\<lambda>a b. cmp_list (dependency_cmp c) (ordered_members a) (ordered_members b))"
      by (rule total_cmp_key [OF total_cmp_list [OF Suc]]) (use kids in auto)
    ultimately have "total_cmp ?Q (\<lambda>a b.
       ord_then (cmp_by dependency_index a b)
      (ord_then (cmp_option c (dependency_value a) (dependency_value b))
      (ord_then (cmp_option use_dep_cmp (dependency_use_dep a) (dependency_use_dep b))
      (ord_then (sorted_set_cmp (dependency_cmp c) (sorted_members a) (sorted_members b))
                (cmp_list (dependency_cmp c) (ordered_members a) (ordered_members b))))))"
      by (intro total_cmp_then total_cmp_by)
    then show ?case by (simp only: dependency_cmp_fields [of c, symmetric])
  qed (simp add: total_cmp_def)
  then show ?thesis by (rule total_cmp_bounded)
qed

text \<open>The derived \<open>PartialEq\<close> compares the same fields, sorted sets through their
  sorted sequence.\<close>

definition dependency_eq :: "('a \<Rightarrow> 'a \<Rightarrow> ordering) \<Rightarrow> 'a dependency \<Rightarrow> 'a dependency \<Rightarrow> bool" where
  "dependency_eq c a b \<longleftrightarrow> dependency_cmp c a b = Equal"

section \<open>Display and sort\<close>

text \<open>The macro \<open>p!\<close> joins with spaces; \<open>f\<close> displays a value.\<close>

fun dependency_display :: "('a \<Rightarrow> string) \<Rightarrow> 'a dependency \<Rightarrow> string" where
  "dependency_display f (Enabled v) = f v"
| "dependency_display f (Disabled v) = ''!'' @ f v"
| "dependency_display f (AllOf vs) = ''( '' @ join_with '' '' (map (dependency_display f) vs) @ '' )''"
| "dependency_display f (AnyOf vs) = ''|| ( '' @ join_with '' '' (map (dependency_display f) vs) @ '' )''"
| "dependency_display f (ExactlyOneOf vs) = ''^^ ( '' @ join_with '' '' (map (dependency_display f) vs) @ '' )''"
| "dependency_display f (AtMostOneOf vs) = ''?? ( '' @ join_with '' '' (map (dependency_display f) vs) @ '' )''"
| "dependency_display f (Conditional u vs) =
     use_dep_display u @ '' ( '' @ join_with '' '' (map (dependency_display f) vs) @ '' )''"

definition dependency_set_display :: "('a \<Rightarrow> string) \<Rightarrow> 'a dependency list \<Rightarrow> string" where
  "dependency_set_display f vs = join_with '' '' (map (dependency_display f) vs)"

text \<open>\<open>Dependency::sort\<close> and the macro \<open>sort_set!\<close>: the members are sorted
  themselves, put in order and collected again.\<close>

fun dependency_sort :: "('a \<Rightarrow> 'a \<Rightarrow> ordering) \<Rightarrow> 'a dependency index_set \<Rightarrow> 'a dependency \<Rightarrow> 'a dependency" where
  "dependency_sort c ix (AllOf vs) =
     AllOf (is_collect ix (sort_cmp (dependency_cmp c) (map (dependency_sort c ix) vs)))"
| "dependency_sort c ix (Conditional u vs) =
     Conditional u (is_collect ix (sort_cmp (dependency_cmp c) (map (dependency_sort c ix) vs)))"
| "dependency_sort c ix d = d"

definition sort_recursive :: "('a \<Rightarrow> 'a \<Rightarrow> ordering) \<Rightarrow> 'a dependency index_set \<Rightarrow> 'a dependency list \<Rightarrow> 'a dependency list" where
  "sort_recursive c ix vs = is_collect ix (sort_cmp (dependency_cmp c) (map (dependency_sort c ix) vs))"

section \<open>The deque\<close>

definition extend_left :: "'a list \<Rightarrow> 'a list \<Rightarrow> 'a list" where
  "extend_left q xs = fold (\<lambda>x q. x # q) (rev xs) q"

lemma extend_left_append [simp]: "extend_left q xs = xs @ q"
  by (simp add: extend_left_def fold_Cons_rev)

text \<open>An iterator run to its end: \<open>None\<close> when \<open>next\<close> never returns \<open>None\<close>.\<close>

partial_function (option) drain :: "('s \<Rightarrow> ('x \<times> 's) option) \<Rightarrow> 's \<Rightarrow> 'x list option" where
  "drain next s = (case next s of None \<Rightarrow> Some []
     | Some (x, s') \<Rightarrow> Option.bind (drain next s') (\<lambda>xs. Some (x # xs)))"

lemma drain_None: "next s = None \<Longrightarrow> drain next s = Some []"
  and drain_Some: "next s = Some (x, s') \<Longrightarrow> drain next s' = Some xs \<Longrightarrow> drain next s = Some (x # xs)"
  by (subst drain.simps; simp)+

text \<open>An iterator whose \<open>next\<close> takes the first element off a view of its state
  runs through that view.\<close>

lemma drain_view:
  assumes "\<And>s. case next s of None \<Rightarrow> view s = [] | Some (x, s') \<Rightarrow> view s = x # view s'"
  shows "drain next s = Some (view s)"
proof (induction "length (view s)" arbitrary: s rule: less_induct)
  case less
  show ?case
  proof (cases "next s")
    case None
    then show ?thesis using assms [of s] by (simp add: drain_None)
  next
    case (Some z)
    obtain x s' where z: "z = (x, s')" by (cases z)
    have v: "view s = x # view s'" using assms [of s] Some z by simp
    then have "drain next s' = Some (view s')" using less [of s'] by simp
    then show ?thesis using drain_Some Some z v by metis
  qed
qed

section \<open>Iterators\<close>

text \<open>\<open>IterFlatten\<close>: the loop of \<open>next\<close> takes from the front of the queue and puts
  the members of a group back there; \<open>next_back\<close> works at the back.\<close>

lemma queue_smaller:
  "size_list size (extend_left q vs) < size_list size (AllOf vs # q)"
  "size_list size (extend_left q vs) < size_list size (AnyOf vs # q)"
  "size_list size (extend_left q vs) < size_list size (ExactlyOneOf vs # q)"
  "size_list size (extend_left q vs) < size_list size (AtMostOneOf vs # q)"
  "size_list size (extend_left q vs) < size_list size (Conditional u vs # q)"
  by simp_all

function flatten_next :: "'a dependency list \<Rightarrow> ('a \<times> 'a dependency list) option" where
  "flatten_next [] = None"
| "flatten_next (Enabled v # q) = Some (v, q)"
| "flatten_next (Disabled v # q) = Some (v, q)"
| "flatten_next (AllOf vs # q) = flatten_next (extend_left q vs)"
| "flatten_next (AnyOf vs # q) = flatten_next (extend_left q vs)"
| "flatten_next (ExactlyOneOf vs # q) = flatten_next (extend_left q vs)"
| "flatten_next (AtMostOneOf vs # q) = flatten_next (extend_left q vs)"
| "flatten_next (Conditional u vs # q) = flatten_next (extend_left q vs)"
  by pat_completeness auto
termination
  by (relation "measure (size_list size)") (simp_all only: queue_smaller in_measure wf_measure)

function flatten_next_back :: "'a dependency list \<Rightarrow> ('a \<times> 'a dependency list) option" where
  "flatten_next_back q =
     (if q = [] then None else (case last q of
        Enabled v \<Rightarrow> Some (v, butlast q)
      | Disabled v \<Rightarrow> Some (v, butlast q)
      | AllOf vs \<Rightarrow> flatten_next_back (butlast q @ vs)
      | AnyOf vs \<Rightarrow> flatten_next_back (butlast q @ vs)
      | ExactlyOneOf vs \<Rightarrow> flatten_next_back (butlast q @ vs)
      | AtMostOneOf vs \<Rightarrow> flatten_next_back (butlast q @ vs)
      | Conditional u vs \<Rightarrow> flatten_next_back (butlast q @ vs)))"
  by pat_completeness auto
termination
proof (relation "measure (size_list size)", goal_cases)
  fix q vs :: "'a dependency list" and u
  have s: "size_list size q = size_list size (butlast q) + Suc (size (last q))" if "q \<noteq> []"
    using that append_butlast_last_id [of q] size_list_append [of size "butlast q" "[last q]"] by simp
  show "(butlast q @ vs, q) \<in> measure (size_list size)" if "q \<noteq> []" "last q = AllOf vs"
    using that s by simp
  show "(butlast q @ vs, q) \<in> measure (size_list size)" if "q \<noteq> []" "last q = AnyOf vs"
    using that s by simp
  show "(butlast q @ vs, q) \<in> measure (size_list size)" if "q \<noteq> []" "last q = ExactlyOneOf vs"
    using that s by simp
  show "(butlast q @ vs, q) \<in> measure (size_list size)" if "q \<noteq> []" "last q = AtMostOneOf vs"
    using that s by simp
  show "(butlast q @ vs, q) \<in> measure (size_list size)" if "q \<noteq> []" "last q = Conditional u vs"
    using that s by simp
qed simp_all

declare flatten_next_back.simps [simp del]

text \<open>\<open>IterRecursive\<close> returns every group before its members.\<close>

fun recursive_next :: "'a dependency list \<Rightarrow> ('a dependency \<times> 'a dependency list) option" where
  "recursive_next [] = None"
| "recursive_next (d # q) = Some (d, case d of
     Enabled v \<Rightarrow> q
   | Disabled v \<Rightarrow> q
   | AllOf vs \<Rightarrow> extend_left q vs
   | AnyOf vs \<Rightarrow> extend_left q vs
   | ExactlyOneOf vs \<Rightarrow> extend_left q vs
   | AtMostOneOf vs \<Rightarrow> extend_left q vs
   | Conditional u vs \<Rightarrow> extend_left q vs)"

text \<open>\<open>IterConditionals\<close> returns the conditions of conditional groups.\<close>

function conditionals_next :: "'a dependency list \<Rightarrow> (use_dep \<times> 'a dependency list) option" where
  "conditionals_next [] = None"
| "conditionals_next (Enabled v # q) = conditionals_next q"
| "conditionals_next (Disabled v # q) = conditionals_next q"
| "conditionals_next (AllOf vs # q) = conditionals_next (extend_left q vs)"
| "conditionals_next (AnyOf vs # q) = conditionals_next (extend_left q vs)"
| "conditionals_next (ExactlyOneOf vs # q) = conditionals_next (extend_left q vs)"
| "conditionals_next (AtMostOneOf vs # q) = conditionals_next (extend_left q vs)"
| "conditionals_next (Conditional u vs # q) = Some (u, extend_left q vs)"
  by pat_completeness auto
termination
  by (relation "measure (size_list size)") simp_all

text \<open>\<open>IterConditionalFlatten\<close> returns every value with the conditions above it; its
  queue holds dependencies with the conditions met on the way.\<close>

function conditional_flatten_next ::
    "(use_dep list \<times> 'a dependency) list \<Rightarrow> ((use_dep list \<times> 'a) \<times> (use_dep list \<times> 'a dependency) list) option" where
  "conditional_flatten_next [] = None"
| "conditional_flatten_next ((us, Enabled v) # q) = Some ((us, v), q)"
| "conditional_flatten_next ((us, Disabled v) # q) = Some ((us, v), q)"
| "conditional_flatten_next ((us, AllOf vs) # q) = conditional_flatten_next (extend_left q (map (\<lambda>d. (us, d)) vs))"
| "conditional_flatten_next ((us, AnyOf vs) # q) = conditional_flatten_next (extend_left q (map (\<lambda>d. (us, d)) vs))"
| "conditional_flatten_next ((us, ExactlyOneOf vs) # q) = conditional_flatten_next (extend_left q (map (\<lambda>d. (us, d)) vs))"
| "conditional_flatten_next ((us, AtMostOneOf vs) # q) = conditional_flatten_next (extend_left q (map (\<lambda>d. (us, d)) vs))"
| "conditional_flatten_next ((us, Conditional u vs) # q) =
     conditional_flatten_next (extend_left q (map (\<lambda>d. (us @ [u], d)) vs))"
  by pat_completeness auto
termination
  by (relation "measure (size_list (\<lambda>x. size (snd x)))") (simp_all add: size_list_map comp_def)

definition conditional_flatten_queue :: "'a dependency list \<Rightarrow> (use_dep list \<times> 'a dependency) list" where
  "conditional_flatten_queue ds = map (\<lambda>d. ([], d)) ds"

section \<open>What the iterators return\<close>

text \<open>The recursive functions the iterators compute.\<close>

fun flat :: "'a dependency \<Rightarrow> 'a list" where
  "flat (Enabled v) = [v]"
| "flat (Disabled v) = [v]"
| "flat (AllOf vs) = concat (map flat vs)"
| "flat (AnyOf vs) = concat (map flat vs)"
| "flat (ExactlyOneOf vs) = concat (map flat vs)"
| "flat (AtMostOneOf vs) = concat (map flat vs)"
| "flat (Conditional u vs) = concat (map flat vs)"

fun preorder :: "'a dependency \<Rightarrow> 'a dependency list" where
  "preorder (Enabled v) = [Enabled v]"
| "preorder (Disabled v) = [Disabled v]"
| "preorder (AllOf vs) = AllOf vs # concat (map preorder vs)"
| "preorder (AnyOf vs) = AnyOf vs # concat (map preorder vs)"
| "preorder (ExactlyOneOf vs) = ExactlyOneOf vs # concat (map preorder vs)"
| "preorder (AtMostOneOf vs) = AtMostOneOf vs # concat (map preorder vs)"
| "preorder (Conditional u vs) = Conditional u vs # concat (map preorder vs)"

fun conditions :: "'a dependency \<Rightarrow> use_dep list" where
  "conditions (Enabled v) = []"
| "conditions (Disabled v) = []"
| "conditions (AllOf vs) = concat (map conditions vs)"
| "conditions (AnyOf vs) = concat (map conditions vs)"
| "conditions (ExactlyOneOf vs) = concat (map conditions vs)"
| "conditions (AtMostOneOf vs) = concat (map conditions vs)"
| "conditions (Conditional u vs) = u # concat (map conditions vs)"

fun guarded :: "use_dep list \<Rightarrow> 'a dependency \<Rightarrow> (use_dep list \<times> 'a) list" where
  "guarded us (Enabled v) = [(us, v)]"
| "guarded us (Disabled v) = [(us, v)]"
| "guarded us (AllOf vs) = concat (map (guarded us) vs)"
| "guarded us (AnyOf vs) = concat (map (guarded us) vs)"
| "guarded us (ExactlyOneOf vs) = concat (map (guarded us) vs)"
| "guarded us (AtMostOneOf vs) = concat (map (guarded us) vs)"
| "guarded us (Conditional u vs) = concat (map (guarded (us @ [u])) vs)"

abbreviation flats :: "'a dependency list \<Rightarrow> 'a list" where
  "flats q \<equiv> concat (map flat q)"

lemma flatten_next_cases:
  "case flatten_next q of None \<Rightarrow> flats q = [] | Some (x, q') \<Rightarrow> flats q = x # flats q'"
  by (induction q rule: flatten_next.induct) (simp_all split: option.splits prod.splits)

lemma flats_last: "q \<noteq> [] \<Longrightarrow> flats q = flats (butlast q) @ flat (last q)"
  by (cases q rule: rev_cases) simp_all

lemma flatten_next_back_cases:
  "case flatten_next_back q of None \<Rightarrow> flats q = [] | Some (x, q') \<Rightarrow> flats q = flats q' @ [x]"
proof (induction q rule: flatten_next_back.induct)
  case (1 q)
  show ?case
  proof (cases "q = []")
    case False
    have l: "flats q = flats (butlast q) @ flat (last q)" by (rule flats_last [OF False])
    have f: "flatten_next_back q = (case last q of
        Enabled v \<Rightarrow> Some (v, butlast q) | Disabled v \<Rightarrow> Some (v, butlast q)
      | d \<Rightarrow> flatten_next_back (butlast q @ dependency_iter d))"
      using False by (subst flatten_next_back.simps) (cases "last q"; simp)
    show ?thesis
      unfolding f l using 1 [OF False] by (cases "last q") (simp_all split: option.splits prod.splits)
  qed (simp add: flatten_next_back.simps)
qed

lemma drain_flatten: "drain flatten_next q = Some (flats q)"
  by (rule drain_view [OF flatten_next_cases])

lemma drain_flatten_back: "drain flatten_next_back q = Some (rev (flats q))"
proof (rule drain_view)
  fix q :: "'a dependency list"
  show "case flatten_next_back q of None \<Rightarrow> rev (flats q) = [] | Some (x, q') \<Rightarrow> rev (flats q) = x # rev (flats q')"
    using flatten_next_back_cases [of q] by (cases "flatten_next_back q") (simp_all split: prod.splits)
qed

lemma drain_recursive: "drain recursive_next q = Some (concat (map preorder q))"
proof (rule drain_view)
  fix q :: "'a dependency list"
  show "case recursive_next q of None \<Rightarrow> concat (map preorder q) = []
    | Some (x, q') \<Rightarrow> concat (map preorder q) = x # concat (map preorder q')"
  proof (cases q)
    case (Cons d p)
    then show ?thesis by (cases d) simp_all
  qed simp
qed

lemma conditionals_next_cases: "case conditionals_next q of None \<Rightarrow> concat (map conditions q) = []
    | Some (u, q') \<Rightarrow> concat (map conditions q) = u # concat (map conditions q')"
  by (induction q rule: conditionals_next.induct) (simp_all split: option.splits prod.splits)

lemma drain_conditionals: "drain conditionals_next q = Some (concat (map conditions q))"
  by (rule drain_view [OF conditionals_next_cases])

abbreviation guards :: "(use_dep list \<times> 'a dependency) list \<Rightarrow> (use_dep list \<times> 'a) list" where
  "guards q \<equiv> concat (map (\<lambda>(us, d). guarded us d) q)"

lemma conditional_flatten_next_cases: "case conditional_flatten_next q of None \<Rightarrow> guards q = []
    | Some (x, q') \<Rightarrow> guards q = x # guards q'"
  by (induction q rule: conditional_flatten_next.induct) (simp_all add: comp_def split: option.splits prod.splits)

lemma drain_conditional_flatten: "drain conditional_flatten_next q = Some (guards q)"
  by (rule drain_view [OF conditional_flatten_next_cases])

text \<open>A client that takes from both ends: \<open>True\<close> calls \<open>next\<close>, \<open>False\<close>
  calls \<open>next_back\<close>. The values from the front, those from the back and the queue left.\<close>

fun take_ends :: "bool list \<Rightarrow> 'a dependency list \<Rightarrow> 'a list \<times> 'a list \<times> 'a dependency list" where
  "take_ends [] q = ([], [], q)"
| "take_ends (b # bs) q = (case (if b then flatten_next q else flatten_next_back q) of
     None \<Rightarrow> take_ends bs q
   | Some (x, q') \<Rightarrow> (case take_ends bs q' of (front, back, r) \<Rightarrow>
       if b then (x # front, back, r) else (front, x # back, r)))"

lemma take_ends_flats:
  "case take_ends bs q of (front, back, r) \<Rightarrow> flats q = front @ flats r @ rev back \<and>
     length front + length back = min (length bs) (length (flats q))"
proof (induction bs arbitrary: q)
  case (Cons b bs)
  show ?case
  proof (cases "if b then flatten_next q else flatten_next_back q")
    case None
    then have "flats q = []"
      using flatten_next_cases [of q] flatten_next_back_cases [of q] by (cases b) simp_all
    then show ?thesis using Cons.IH [of q] None by (auto split: prod.splits simp del: concat_eq_Nil_conv)
  next
    case (Some z)
    obtain x q' where z: "z = (x, q')" by (cases z)
    have "flats q = (if b then x # flats q' else flats q' @ [x])"
      using flatten_next_cases [of q] flatten_next_back_cases [of q] Some z by (cases b) simp_all
    then show ?thesis using Cons.IH [of q'] Some z by (auto split: prod.splits)
  qed
qed simp

end
