(* ===== verification/Dependency_Eval.thy ===== *)
theory Dependency_Eval
  imports Dependency
begin

text \<open>
  Evaluation of dependency expressions against USE flags (\<open>IterEvaluate\<close> and
  \<open>IterEvaluateForce\<close> of \<open>dep/dependency_iter.rs\<close>), membership, and the set operations of
  \<open>dep/dependency_set.rs\<close>.
\<close>

section \<open>The evaluating iterators\<close>

text \<open>The items an evaluating iterator with the given queue returns, turn by turn of its
  loop; \<open>m\<close> is the outcome of the condition of a group, \<open>None\<close> where it panics. The
  members of a group are evaluated by iterators of their own and collected.\<close>

definition eval_group :: "('a dependency list \<Rightarrow> 'a dependency) \<Rightarrow> 'a dependency list \<Rightarrow>
    'a dependency list option \<Rightarrow> 'a dependency list option" where
  "eval_group variant vals rest = (if vals \<noteq> [] then map_option (Cons (variant vals)) rest else rest)"

function eval_queue :: "'a dependency index_set \<Rightarrow> (use_dep \<Rightarrow> bool option) \<Rightarrow> 'a dependency list \<Rightarrow>
    'a dependency list option" where
  "eval_queue ix m [] = Some []"
| "eval_queue ix m (Enabled v # q) = map_option (Cons (Enabled v)) (eval_queue ix m q)"
| "eval_queue ix m (Disabled v # q) = map_option (Cons (Disabled v)) (eval_queue ix m q)"
| "eval_queue ix m (AllOf vs # q) = (case those (map (\<lambda>d. eval_queue ix m [d]) vs) of
     None \<Rightarrow> None | Some es \<Rightarrow> eval_group AllOf (is_collect ix (concat es)) (eval_queue ix m q))"
| "eval_queue ix m (AnyOf vs # q) = (case those (map (\<lambda>d. eval_queue ix m [d]) vs) of
     None \<Rightarrow> None | Some es \<Rightarrow> eval_group AnyOf (is_collect ix (concat es)) (eval_queue ix m q))"
| "eval_queue ix m (ExactlyOneOf vs # q) = (case those (map (\<lambda>d. eval_queue ix m [d]) vs) of
     None \<Rightarrow> None | Some es \<Rightarrow> eval_group ExactlyOneOf (is_collect ix (concat es)) (eval_queue ix m q))"
| "eval_queue ix m (AtMostOneOf vs # q) = (case those (map (\<lambda>d. eval_queue ix m [d]) vs) of
     None \<Rightarrow> None | Some es \<Rightarrow> eval_group AtMostOneOf (is_collect ix (concat es)) (eval_queue ix m q))"
| "eval_queue ix m (Conditional u vs # q) = (case m u of
     None \<Rightarrow> None
   | Some holds \<Rightarrow> if holds then eval_queue ix m (extend_left q vs) else eval_queue ix m q)"
  by pat_completeness auto
termination
  by (relation "measure (\<lambda>(ix, m, q). size_list size q)") (auto dest: member_size)

text \<open>\<open>IterEvaluateForce\<close> runs the same loop; its conditions all have the outcome
  \<open>force\<close>.\<close>

definition eval_force_queue :: "'a dependency index_set \<Rightarrow> bool \<Rightarrow> 'a dependency list \<Rightarrow> 'a dependency list option" where
  "eval_force_queue ix force q = eval_queue ix (\<lambda>u. Some force) q"

definition dependency_evaluate :: "'a dependency index_set \<Rightarrow> string set \<Rightarrow> 'a dependency \<Rightarrow> 'a dependency list option" where
  "dependency_evaluate ix options d = map_option (is_collect ix) (eval_queue ix (\<lambda>u. use_dep_matches u options) [d])"

definition dependency_evaluate_force :: "'a dependency index_set \<Rightarrow> bool \<Rightarrow> 'a dependency \<Rightarrow> 'a dependency list option" where
  "dependency_evaluate_force ix force d = map_option (is_collect ix) (eval_force_queue ix force [d])"

definition dependency_set_evaluate :: "'a dependency index_set \<Rightarrow> string set \<Rightarrow> 'a dependency list \<Rightarrow> 'a dependency list option" where
  "dependency_set_evaluate ix options ds = map_option (is_collect ix) (eval_queue ix (\<lambda>u. use_dep_matches u options) ds)"

definition dependency_set_evaluate_force :: "'a dependency index_set \<Rightarrow> bool \<Rightarrow> 'a dependency list \<Rightarrow> 'a dependency list option" where
  "dependency_set_evaluate_force ix force ds = map_option (is_collect ix) (eval_force_queue ix force ds)"

section \<open>Evaluation as a recursive function\<close>

definition group_of :: "('a dependency list \<Rightarrow> 'a dependency) \<Rightarrow> 'a dependency list \<Rightarrow> 'a dependency list" where
  "group_of variant vals = (if vals \<noteq> [] then [variant vals] else [])"

fun evaluated :: "'a dependency index_set \<Rightarrow> (use_dep \<Rightarrow> bool) \<Rightarrow> 'a dependency \<Rightarrow> 'a dependency list" where
  "evaluated ix b (Enabled v) = [Enabled v]"
| "evaluated ix b (Disabled v) = [Disabled v]"
| "evaluated ix b (AllOf vs) = group_of AllOf (is_collect ix (concat (map (evaluated ix b) vs)))"
| "evaluated ix b (AnyOf vs) = group_of AnyOf (is_collect ix (concat (map (evaluated ix b) vs)))"
| "evaluated ix b (ExactlyOneOf vs) = group_of ExactlyOneOf (is_collect ix (concat (map (evaluated ix b) vs)))"
| "evaluated ix b (AtMostOneOf vs) = group_of AtMostOneOf (is_collect ix (concat (map (evaluated ix b) vs)))"
| "evaluated ix b (Conditional u vs) = (if b u then concat (map (evaluated ix b) vs) else [])"

abbreviation evaluateds :: "'a dependency index_set \<Rightarrow> (use_dep \<Rightarrow> bool) \<Rightarrow> 'a dependency list \<Rightarrow> 'a dependency list" where
  "evaluateds ix b q \<equiv> concat (map (evaluated ix b) q)"

lemma those_map_Some: "(\<And>x. x \<in> set xs \<Longrightarrow> f x = Some (g x)) \<Longrightarrow> those (map f xs) = Some (map g xs)"
  by (induction xs) auto

lemma eval_group_of: "eval_group variant vals (Some rest) = Some (group_of variant vals @ rest)"
  by (simp add: eval_group_def group_of_def)

lemma eval_queue_evaluated:
  "(\<And>u. u \<in> set (concat (map conditions q)) \<Longrightarrow> m u = Some (b u)) \<Longrightarrow> eval_queue ix m q = Some (evaluateds ix b q)"
proof (induction ix m q rule: eval_queue.induct)
  case (4 ix m vs q)
  have "those (map (\<lambda>d. eval_queue ix m [d]) vs) = Some (map (evaluated ix b) vs)"
    by (rule those_map_Some) (use 4 in auto)
  with 4 show ?case by (simp add: eval_group_of)
next
  case (5 ix m vs q)
  have "those (map (\<lambda>d. eval_queue ix m [d]) vs) = Some (map (evaluated ix b) vs)"
    by (rule those_map_Some) (use 5 in auto)
  with 5 show ?case by (simp add: eval_group_of)
next
  case (6 ix m vs q)
  have "those (map (\<lambda>d. eval_queue ix m [d]) vs) = Some (map (evaluated ix b) vs)"
    by (rule those_map_Some) (use 6 in auto)
  with 6 show ?case by (simp add: eval_group_of)
next
  case (7 ix m vs q)
  have "those (map (\<lambda>d. eval_queue ix m [d]) vs) = Some (map (evaluated ix b) vs)"
    by (rule those_map_Some) (use 7 in auto)
  with 7 show ?case by (simp add: eval_group_of)
qed auto

text \<open>Conditions the parsers build are of the kind \<open>matches\<close> covers.\<close>

definition parsed_conditions :: "'a dependency list \<Rightarrow> bool" where
  "parsed_conditions q \<longleftrightarrow> list_all (\<lambda>u. ud_kind u = UseConditional) (concat (map conditions q))"

definition active :: "string set \<Rightarrow> use_dep \<Rightarrow> bool" where
  "active options u \<longleftrightarrow> (ud_enabled u \<longleftrightarrow> ud_flag u \<in> options)"

lemma set_evaluate_eq:
  "parsed_conditions q \<Longrightarrow> dependency_set_evaluate ix options q = Some (is_collect ix (evaluateds ix (active options) q))"
  unfolding dependency_set_evaluate_def
  by (subst eval_queue_evaluated [where b = "active options"])
    (auto simp: parsed_conditions_def list_all_iff use_dep_matches_def active_def)

lemma set_evaluate_force_eq:
  "dependency_set_evaluate_force ix force q = Some (is_collect ix (evaluateds ix (\<lambda>u. force) q))"
  unfolding dependency_set_evaluate_force_def eval_force_queue_def
  by (subst eval_queue_evaluated [where b = "\<lambda>u. force"]) auto

section \<open>Evaluated expressions\<close>

text \<open>No condition and no empty group is left, and the members of a group differ.\<close>

fun evaluated_form :: "('a dependency \<Rightarrow> 'a dependency \<Rightarrow> bool) \<Rightarrow> 'a dependency \<Rightarrow> bool" where
  "evaluated_form eq (Enabled v) = True"
| "evaluated_form eq (Disabled v) = True"
| "evaluated_form eq (AllOf vs) = (vs \<noteq> [] \<and> distinct_by eq vs \<and> list_all (evaluated_form eq) vs)"
| "evaluated_form eq (AnyOf vs) = (vs \<noteq> [] \<and> distinct_by eq vs \<and> list_all (evaluated_form eq) vs)"
| "evaluated_form eq (ExactlyOneOf vs) = (vs \<noteq> [] \<and> distinct_by eq vs \<and> list_all (evaluated_form eq) vs)"
| "evaluated_form eq (AtMostOneOf vs) = (vs \<noteq> [] \<and> distinct_by eq vs \<and> list_all (evaluated_form eq) vs)"
| "evaluated_form eq (Conditional u vs) = False"

lemma wf_evaluated: "wf_dependency Q d \<Longrightarrow> (\<And>es. set (is_collect ix es) \<subseteq> set es) \<Longrightarrow> list_all (wf_dependency Q) (evaluated ix b d)"
  by (induction d) (fastforce simp: list_all_iff group_of_def)+

lemma distinct_by_firsts_on:
  assumes "\<And>x y. x \<in> set xs \<Longrightarrow> y \<in> set xs \<Longrightarrow> eq x y \<Longrightarrow> eq y x"
  shows "distinct_by eq (firsts_by eq xs)"
  using assms
proof (induction xs rule: rev_induct)
  case (snoc x xs)
  have "distinct_by eq (firsts_by eq xs)" using snoc by auto
  moreover have "\<not> eq y x \<and> \<not> eq x y" if "y \<in> set (firsts_by eq xs)" "\<not> mem_by eq x (firsts_by eq xs)" for y
    using that snoc.prems [of y x] snoc.prems [of x y] firsts_by_subset [of eq xs] by (auto simp: mem_by_iff)
  ultimately show ?case
    by (auto simp: firsts_by_snoc add_new_def distinct_by_append)
qed simp

text \<open>Every value has an equal one among the values that are kept.\<close>

lemma firsts_by_covers:
  assumes "\<And>x. x \<in> set xs \<Longrightarrow> eq x x" "x \<in> set xs"
  shows "\<exists>y \<in> set (firsts_by eq xs). eq y x"
  using assms
  by (induction xs rule: rev_induct) (auto simp: firsts_by_snoc add_new_def mem_by_iff)

text \<open>The values whose conditions hold, as the iterator of conditional values gives them.\<close>

fun held :: "(use_dep \<Rightarrow> bool) \<Rightarrow> 'a dependency \<Rightarrow> 'a list" where
  "held b (Enabled v) = [v]"
| "held b (Disabled v) = [v]"
| "held b (AllOf vs) = concat (map (held b) vs)"
| "held b (AnyOf vs) = concat (map (held b) vs)"
| "held b (ExactlyOneOf vs) = concat (map (held b) vs)"
| "held b (AtMostOneOf vs) = concat (map (held b) vs)"
| "held b (Conditional u vs) = (if b u then concat (map (held b) vs) else [])"

lemma held_concat:
  "(\<And>d. d \<in> set vs \<Longrightarrow> map snd (filter (\<lambda>(us, v). list_all b us) (g d)) = h d) \<Longrightarrow>
    map snd (filter (\<lambda>(us, v). list_all b us) (concat (map g vs))) = concat (map h vs)"
  by (induction vs) auto

lemma held_guarded: "map snd (filter (\<lambda>(us, v). list_all b us) (guarded us d)) = (if list_all b us then held b d else [])"
proof (induction d arbitrary: us)
  case (Conditional u vs)
  have "map snd (filter (\<lambda>(us, v). list_all b us) (concat (map (guarded (us @ [u])) vs))) =
      concat (map (\<lambda>d. if list_all b (us @ [u]) then held b d else []) vs)"
    by (rule held_concat) (rule Conditional)
  then show ?case by simp
qed (simp_all add: held_concat [where h = "\<lambda>d. if list_all b us then held b d else []" for us b])

lemma wf_flat: "wf_dependency Q d \<Longrightarrow> v \<in> set (flat d) \<Longrightarrow> Q v"
  by (induction d) (auto simp: list_all_iff)

lemma held_flat: "set (held b d) \<subseteq> set (flat d)"
  by (induction d) fastforce+

text \<open>Equal dependencies hold equal values.\<close>

lemma cmp_list_Equal_nth: "cmp_list c xs ys = Equal \<Longrightarrow> y \<in> set ys \<Longrightarrow> \<exists>x \<in> set xs. c x y = Equal"
  unfolding cmp_list_eq_list_all2 by (auto simp: list_all2_conv_all_nth in_set_conv_nth) (metis nth_mem)

lemma flat_Equal:
  "dependency_cmp c a b = Equal \<Longrightarrow> y \<in> set (flat b) \<Longrightarrow> \<exists>x \<in> set (flat a). c x y = Equal"
proof (induction "size a + size b" arbitrary: a b rule: less_induct)
  case less
  have ord: "\<exists>x \<in> set (concat (map flat s)). c x y = Equal"
    if h: "cmp_list (dependency_cmp c) s t = Equal" "y \<in> set (concat (map flat t))"
      "size_list size s < size a" "size_list size t < size b" for s t
  proof -
    obtain e where e: "e \<in> set t" "y \<in> set (flat e)" using h(2) by auto
    obtain d where d: "d \<in> set s" "dependency_cmp c d e = Equal"
      using cmp_list_Equal_nth [OF h(1) e(1)] by blast
    have "size d + size e < size a + size b" using member_size [OF d(1)] member_size [OF e(1)] h(3,4) by linarith
    from less.hyps [OF this d(2) e(2)] d(1) show ?thesis by auto
  qed
  have sorted: "\<exists>x \<in> set (concat (map flat s)). c x y = Equal"
    if h: "sorted_set_cmp (dependency_cmp c) s t = Equal" "y \<in> set (concat (map flat t))"
      "size_list size s < size a" "size_list size t < size b" for s t
  proof -
    obtain e where e: "e \<in> set t" "y \<in> set (flat e)" using h(2) by auto
    obtain d where d: "d \<in> set s" "dependency_cmp c d e = Equal"
      using cmp_list_Equal_nth [OF h(1) [unfolded sorted_set_cmp_def], of e] e(1) by auto
    have "size d + size e < size a + size b" using member_size [OF d(1)] member_size [OF e(1)] h(3,4) by linarith
    from less.hyps [OF this d(2) e(2)] d(1) show ?thesis by auto
  qed
  show ?case
    using less.prems ord sorted by (cases a; cases b) (simp_all add: cmp_by_def del: set_concat)
qed

section \<open>The laws of evaluation\<close>

lemma concat_map_single: "(\<And>x. x \<in> set xs \<Longrightarrow> f x = [x]) \<Longrightarrow> concat (map f xs) = xs"
  by (induction xs) auto

text \<open>Values with a total order, and sets of dependencies that hold each once.\<close>

locale dependency_sets =
  fixes Q :: "'a \<Rightarrow> bool" and c :: "'a \<Rightarrow> 'a \<Rightarrow> ordering" and ix :: "'a dependency index_set"
  assumes order: "total_cmp Q c" and sets: "index_set (dependency_eq c) ix"
begin

lemma collect: "is_collect ix es = firsts_by (dependency_eq c) es"
  by (rule index_set.collect [OF sets])

lemma collect_subset: "set (is_collect ix es) \<subseteq> set es"
  by (simp add: collect firsts_by_subset)

lemma wf_evaluateds: "list_all (wf_dependency Q) q \<Longrightarrow> list_all (wf_dependency Q) (evaluateds ix b q)"
  using wf_evaluated [OF _ collect_subset] by (fastforce simp: list_all_iff)

lemma eq_laws:
  "wf_dependency Q x \<Longrightarrow> dependency_eq c x x"
  "wf_dependency Q x \<Longrightarrow> wf_dependency Q y \<Longrightarrow> dependency_eq c x y \<Longrightarrow> dependency_eq c y x"
  using total_cmp.refl [OF total_cmp_dependency [OF order]] total_cmp.sym_Equal [OF total_cmp_dependency [OF order]]
  by (auto simp: dependency_eq_def)

lemma collect_distinct: "list_all (wf_dependency Q) es \<Longrightarrow> distinct_by (dependency_eq c) (is_collect ix es)"
  unfolding collect by (rule distinct_by_firsts_on) (auto simp: list_all_iff intro: eq_laws)

lemma evaluated_is_form: "wf_dependency Q d \<Longrightarrow> list_all (evaluated_form (dependency_eq c)) (evaluated ix b d)"
proof (induction d)
  case (AllOf vs)
  then show ?case
    using collect_distinct [OF wf_evaluateds, of vs b] collect_subset [of "evaluateds ix b vs"]
    by (fastforce simp: group_of_def list_all_iff)
next
  case (AnyOf vs)
  then show ?case
    using collect_distinct [OF wf_evaluateds, of vs b] collect_subset [of "evaluateds ix b vs"]
    by (fastforce simp: group_of_def list_all_iff)
next
  case (ExactlyOneOf vs)
  then show ?case
    using collect_distinct [OF wf_evaluateds, of vs b] collect_subset [of "evaluateds ix b vs"]
    by (fastforce simp: group_of_def list_all_iff)
next
  case (AtMostOneOf vs)
  then show ?case
    using collect_distinct [OF wf_evaluateds, of vs b] collect_subset [of "evaluateds ix b vs"]
    by (fastforce simp: group_of_def list_all_iff)
qed (auto simp: list_all_iff)

lemma evaluated_form_id: "evaluated_form (dependency_eq c) d \<Longrightarrow> evaluated ix b d = [d]"
proof (induction d)
  case (AllOf vs)
  then have "evaluateds ix b vs = vs" by (intro concat_map_single) (simp add: list_all_iff)
  with AllOf show ?case by (simp add: group_of_def collect firsts_by_distinct)
next
  case (AnyOf vs)
  then have "evaluateds ix b vs = vs" by (intro concat_map_single) (simp add: list_all_iff)
  with AnyOf show ?case by (simp add: group_of_def collect firsts_by_distinct)
next
  case (ExactlyOneOf vs)
  then have "evaluateds ix b vs = vs" by (intro concat_map_single) (simp add: list_all_iff)
  with ExactlyOneOf show ?case by (simp add: group_of_def collect firsts_by_distinct)
next
  case (AtMostOneOf vs)
  then have "evaluateds ix b vs = vs" by (intro concat_map_single) (simp add: list_all_iff)
  with AtMostOneOf show ?case by (simp add: group_of_def collect firsts_by_distinct)
qed simp_all

lemma group_flats:
  assumes vs: "\<And>d. d \<in> set vs \<Longrightarrow> set (flats (evaluated ix b d)) \<subseteq> set (held b d)"
    and variant: "\<And>es. flat (variant es) = flats es"
  shows "set (flats (group_of variant (is_collect ix (evaluateds ix b vs)))) \<subseteq> set (concat (map (held b) vs))"
proof
  fix v assume "v \<in> set (flats (group_of variant (is_collect ix (evaluateds ix b vs))))"
  then obtain e where e: "e \<in> set (is_collect ix (evaluateds ix b vs))" "v \<in> set (flat e)"
    by (auto simp: group_of_def variant split: if_splits)
  then have "e \<in> set (evaluateds ix b vs)" using collect_subset by blast
  then obtain d where "d \<in> set vs" "e \<in> set (evaluated ix b d)" by auto
  with vs [of d] e(2) show "v \<in> set (concat (map (held b) vs))" by auto
qed

lemma flats_evaluated: "set (flats (evaluated ix b d)) \<subseteq> set (held b d)"
proof (induction d)
  case (AllOf vs)
  then show ?case using group_flats [of vs b AllOf] by simp
next
  case (AnyOf vs)
  then show ?case using group_flats [of vs b AnyOf] by simp
next
  case (ExactlyOneOf vs)
  then show ?case using group_flats [of vs b ExactlyOneOf] by simp
next
  case (AtMostOneOf vs)
  then show ?case using group_flats [of vs b AtMostOneOf] by simp
next
  case (Conditional u vs)
  then show ?case by (simp add: UN_least) blast
qed simp_all

text \<open>A value held by some expressions is, up to equality, held by the expressions that are
  kept when equal ones are dropped.\<close>

lemma collect_covers:
  assumes "list_all (wf_dependency Q) es" "e \<in> set es" "w \<in> set (flat e)" "c w v = Equal" "Q v"
  shows "\<exists>x \<in> set (flats (is_collect ix es)). c x v = Equal"
proof -
  have "\<exists>e' \<in> set (firsts_by (dependency_eq c) es). dependency_eq c e' e"
    using assms(1,2) by (intro firsts_by_covers) (simp_all add: list_all_iff eq_laws(1))
  then obtain e' where e': "e' \<in> set (is_collect ix es)" "dependency_eq c e' e" unfolding collect by blast
  obtain x where x: "x \<in> set (flat e')" "c x w = Equal"
    using flat_Equal [of c e' e w] e'(2) assms(3) unfolding dependency_eq_def by blast
  have "wf_dependency Q e'" "wf_dependency Q e"
    using assms(1,2) e'(1) collect_subset unfolding list_all_iff by blast+
  then have "Q x" "Q w" using wf_flat [of Q e' x] wf_flat [of Q e w] x(1) assms(3) by simp_all
  then have "c x v = Equal" using total_cmp.trans_Equal [OF order _ _ assms(5) x(2) assms(4)] by simp
  with x(1) e'(1) show ?thesis by auto
qed

lemma group_covers:
  assumes "\<And>d. d \<in> set vs \<Longrightarrow> wf_dependency Q d \<Longrightarrow> v \<in> set (held b d) \<Longrightarrow>
      \<exists>w \<in> set (flats (evaluated ix b d)). c w v = Equal"
    and "list_all (wf_dependency Q) vs" "v \<in> set (concat (map (held b) vs))"
    and "\<And>es. flat (variant es) = flats es"
  shows "\<exists>w \<in> set (flats (group_of variant (is_collect ix (evaluateds ix b vs)))). c w v = Equal"
proof -
  obtain d where d: "d \<in> set vs" "v \<in> set (held b d)" using assms(3) by auto
  then have wd: "wf_dependency Q d" using assms(2) by (simp add: list_all_iff)
  have "Q v" using wf_flat [OF wd, of v] held_flat [of b d] d(2) by blast
  obtain e w where e: "e \<in> set (evaluated ix b d)" "w \<in> set (flat e)" "c w v = Equal"
    using assms(1) [OF d(1) wd d(2)] by auto
  have "e \<in> set (evaluateds ix b vs)" using d(1) e(1) by auto
  from collect_covers [OF wf_evaluateds [OF assms(2)] this e(2,3) \<open>Q v\<close>]
  show ?thesis by (auto simp: group_of_def assms(4))
qed

lemma evaluated_covers: "wf_dependency Q d \<Longrightarrow> v \<in> set (held b d) \<Longrightarrow> \<exists>w \<in> set (flats (evaluated ix b d)). c w v = Equal"
proof (induction d)
  case (Enabled x)
  then show ?case using total_cmp.refl [OF order] by simp
next
  case (Disabled x)
  then show ?case using total_cmp.refl [OF order] by simp
next
  case (Conditional u vs)
  then obtain d where d: "d \<in> set vs" "v \<in> set (held b d)" "b u" by (auto split: if_splits)
  with Conditional obtain w where "w \<in> set (flats (evaluated ix b d))" "c w v = Equal"
    unfolding wf_dependency.simps list_all_iff by blast
  with d show ?case by auto
next
  case (AllOf vs)
  then show ?case using group_covers [of vs v b AllOf] by simp
next
  case (AnyOf vs)
  then show ?case using group_covers [of vs v b AnyOf] by simp
next
  case (ExactlyOneOf vs)
  then show ?case using group_covers [of vs v b ExactlyOneOf] by simp
next
  case (AtMostOneOf vs)
  then show ?case using group_covers [of vs v b AtMostOneOf] by simp
qed

end

section \<open>Membership\<close>

text \<open>\<open>Iterator::any\<close>: stops at the first match.\<close>

partial_function (option) any_iter :: "('s \<Rightarrow> ('x \<times> 's) option) \<Rightarrow> ('x \<Rightarrow> bool) \<Rightarrow> 's \<Rightarrow> bool option" where
  "any_iter next f s = (case next s of None \<Rightarrow> Some False
     | Some (x, s') \<Rightarrow> if f x then Some True else any_iter next f s')"

lemma any_view:
  assumes "\<And>s. case next s of None \<Rightarrow> view s = [] | Some (x, s') \<Rightarrow> view s = x # view s'"
  shows "any_iter next f s = Some (list_ex f (view s))"
proof (induction "length (view s)" arbitrary: s rule: less_induct)
  case less
  show ?case
  proof (cases "next s")
    case None
    then show ?thesis using assms [of s] by (subst any_iter.simps) simp
  next
    case (Some z)
    obtain x s' where z: "z = (x, s')" by (cases z)
    have v: "view s = x # view s'" using assms [of s] Some z by simp
    then have "any_iter next f s' = Some (list_ex f (view s'))" using less [of s'] by simp
    then show ?thesis using Some z v by (subst any_iter.simps) simp
  qed
qed

text \<open>\<open>Contains\<close> for sets; a single dependency is searched as a queue of its own.\<close>

definition set_contains :: "('a \<Rightarrow> 'a \<Rightarrow> ordering) \<Rightarrow> 'a dependency list \<Rightarrow> 'a dependency \<Rightarrow> bool" where
  "set_contains c s d \<longleftrightarrow> any_iter recursive_next (\<lambda>x. dependency_eq c x d) s = Some True"

definition set_contains_use_dep :: "'a dependency list \<Rightarrow> use_dep \<Rightarrow> bool" where
  "set_contains_use_dep s u \<longleftrightarrow> any_iter conditionals_next (\<lambda>x. x = u) s = Some True"

definition set_contains_value :: "('a \<Rightarrow> bool) \<Rightarrow> 'a dependency list \<Rightarrow> bool" where
  "set_contains_value f s \<longleftrightarrow> any_iter flatten_next f s = Some True"

definition dependency_contains :: "('a \<Rightarrow> 'a \<Rightarrow> ordering) \<Rightarrow> 'a dependency \<Rightarrow> 'a dependency \<Rightarrow> bool" where
  "dependency_contains c s d \<longleftrightarrow> any_iter recursive_next (\<lambda>x. dependency_eq c x d) [s] = Some True"

definition dependency_contains_use_dep :: "'a dependency \<Rightarrow> use_dep \<Rightarrow> bool" where
  "dependency_contains_use_dep s u \<longleftrightarrow> any_iter conditionals_next (\<lambda>x. x = u) [s] = Some True"

definition dependency_contains_value :: "('a \<Rightarrow> bool) \<Rightarrow> 'a dependency \<Rightarrow> bool" where
  "dependency_contains_value f s \<longleftrightarrow> any_iter flatten_next f [s] = Some True"

lemma recursive_next_cases: "case recursive_next q of None \<Rightarrow> concat (map preorder q) = []
    | Some (x, q') \<Rightarrow> concat (map preorder q) = x # concat (map preorder q')"
proof (cases q)
  case (Cons d p)
  then show ?thesis by (cases d) simp_all
qed simp

lemma set_contains_iff: "set_contains c s d \<longleftrightarrow> (\<exists>x \<in> set (concat (map preorder s)). dependency_eq c x d)"
  unfolding set_contains_def by (subst any_view [OF recursive_next_cases]) (auto simp: list_ex_iff)

lemma set_contains_use_dep_iff: "set_contains_use_dep s u \<longleftrightarrow> u \<in> set (concat (map conditions s))"
  unfolding set_contains_use_dep_def by (subst any_view [OF conditionals_next_cases]) (auto simp: list_ex_iff)

lemma set_contains_value_iff: "set_contains_value f s \<longleftrightarrow> (\<exists>v \<in> set (flats s). f v)"
  unfolding set_contains_value_def by (subst any_view [OF flatten_next_cases]) (auto simp: list_ex_iff)

section \<open>Set operations\<close>

text \<open>By value, by reference (on borrowed members), and in place.\<close>

definition set_and :: "('a \<Rightarrow> 'a \<Rightarrow> ordering) \<Rightarrow> 'a dependency index_set \<Rightarrow> 'a dependency list \<Rightarrow> 'a dependency list \<Rightarrow> 'a dependency list" where
  "set_and c ix s t = is_collect ix (filter (set_contains c t) s)"

definition set_and_ref :: "'a dependency index_set \<Rightarrow> 'a dependency list \<Rightarrow> 'a dependency list \<Rightarrow> 'a dependency list" where
  "set_and_ref ix s t = is_collect ix (is_intersection ix s t)"

definition set_and_assign :: "('a \<Rightarrow> 'a \<Rightarrow> ordering) \<Rightarrow> 'a dependency list \<Rightarrow> 'a dependency list \<Rightarrow> 'a dependency list" where
  "set_and_assign c s t = filter (set_contains c t) s"

definition set_or :: "'a dependency index_set \<Rightarrow> 'a dependency list \<Rightarrow> 'a dependency list \<Rightarrow> 'a dependency list" where
  "set_or ix s t = is_collect ix (s @ t)"

definition set_or_ref :: "'a dependency index_set \<Rightarrow> 'a dependency list \<Rightarrow> 'a dependency list \<Rightarrow> 'a dependency list" where
  "set_or_ref ix s t = is_collect ix (is_union ix s t)"

definition set_or_assign :: "'a dependency index_set \<Rightarrow> 'a dependency list \<Rightarrow> 'a dependency list \<Rightarrow> 'a dependency list" where
  "set_or_assign ix s t = foldl (\<lambda>s x. fst (is_insert ix s x)) s t"

definition set_xor :: "'a dependency index_set \<Rightarrow> 'a dependency list \<Rightarrow> 'a dependency list \<Rightarrow> 'a dependency list" where
  "set_xor ix s t = is_collect ix (is_difference ix s t @ is_difference ix t s)"

definition set_xor_ref :: "'a dependency index_set \<Rightarrow> 'a dependency list \<Rightarrow> 'a dependency list \<Rightarrow> 'a dependency list" where
  "set_xor_ref ix s t = is_collect ix (is_symmetric_difference ix s t)"

definition set_sub :: "('a \<Rightarrow> 'a \<Rightarrow> ordering) \<Rightarrow> 'a dependency index_set \<Rightarrow> 'a dependency list \<Rightarrow> 'a dependency list \<Rightarrow> 'a dependency list" where
  "set_sub c ix s t = is_collect ix (filter (\<lambda>x. \<not> set_contains c t x) s)"

definition set_sub_ref :: "'a dependency index_set \<Rightarrow> 'a dependency list \<Rightarrow> 'a dependency list \<Rightarrow> 'a dependency list" where
  "set_sub_ref ix s t = is_collect ix (is_difference ix s t)"

definition set_sub_assign :: "('a \<Rightarrow> 'a \<Rightarrow> ordering) \<Rightarrow> 'a dependency list \<Rightarrow> 'a dependency list \<Rightarrow> 'a dependency list" where
  "set_sub_assign c s t = filter (\<lambda>x. \<not> set_contains c t x) s"

lemma preorder_self: "d \<in> set (preorder d)"
  by (cases d) simp_all

lemma distinct_by_filter: "distinct_by eq xs \<Longrightarrow> distinct_by eq (filter f xs)"
  by (induction xs) (auto simp: list_ex_iff)

context dependency_sets begin

lemma contains: "is_contains ix s d \<longleftrightarrow> (\<exists>x \<in> set s. dependency_eq c x d)"
  by (simp add: index_set.contains [OF sets] mem_by_iff)

lemma members_contained: "is_contains ix s d \<Longrightarrow> set_contains c s d"
  using preorder_self by (fastforce simp: contains set_contains_iff)

lemma collect_id: "distinct_by (dependency_eq c) s \<Longrightarrow> is_collect ix s = s"
  by (simp add: collect firsts_by_distinct)

text \<open>A set without groups contains its members only.\<close>

lemma flat_contains:
  assumes "list_all (\<lambda>d. dependency_iter d = []) t" "list_all (\<lambda>d. \<not> dependency_is_empty d) t"
  shows "set_contains c t d = is_contains ix t d"
proof -
  have "concat (map preorder t) = t"
    using assms by (intro concat_map_single) (auto simp: list_all_iff elim!: dependency_iter.elims)
  then show ?thesis by (simp add: set_contains_iff contains)
qed

lemma set_and_eq: "distinct_by (dependency_eq c) s \<Longrightarrow> set_and c ix s t = filter (set_contains c t) s"
  and set_and_ref_eq: "distinct_by (dependency_eq c) s \<Longrightarrow> set_and_ref ix s t = filter (is_contains ix t) s"
  and set_sub_eq: "distinct_by (dependency_eq c) s \<Longrightarrow> set_sub c ix s t = filter (\<lambda>x. \<not> set_contains c t x) s"
  and set_sub_ref_eq: "distinct_by (dependency_eq c) s \<Longrightarrow> set_sub_ref ix s t = filter (\<lambda>x. \<not> is_contains ix t x) s"
  by (simp_all add: set_and_def set_and_ref_def set_sub_def set_sub_ref_def is_intersection_def is_difference_def
      collect_id distinct_by_filter)

lemma collect_append: "is_collect ix (s @ t) = foldl (add_new (dependency_eq c)) (is_collect ix s) t"
  by (simp add: collect firsts_by_def)

lemma insert_add_new: "fst (is_insert ix s x) = add_new (dependency_eq c) s x"
  by (rule index_set.insert_add_new [OF sets])

lemma add_new_skips:
  "set s \<subseteq> set acc \<Longrightarrow> foldl (add_new (dependency_eq c)) acc (filter (\<lambda>x. \<not> mem_by (dependency_eq c) x s) t) =
    foldl (add_new (dependency_eq c)) acc t"
proof (induction t arbitrary: acc)
  case (Cons x t)
  have "set s \<subseteq> set (add_new (dependency_eq c) acc x)" using Cons.prems by (auto simp: add_new_def)
  moreover have "mem_by (dependency_eq c) x s \<Longrightarrow> add_new (dependency_eq c) acc x = acc"
    using Cons.prems by (auto simp: add_new_def mem_by_iff)
  ultimately show ?case using Cons.IH Cons.prems by auto
qed simp

lemma set_or_agree:
  assumes "distinct_by (dependency_eq c) s"
  shows "set_or ix s t = set_or_assign ix s t" "set_or_ref ix s t = set_or_assign ix s t"
  by (simp_all add: set_or_def set_or_ref_def set_or_assign_def is_union_def is_difference_def collect_append
      insert_add_new collect_id [OF assms] contains mem_by_iff [symmetric] add_new_skips)

end

section \<open>Evaluation of sets\<close>

lemma form_unconditional: "evaluated_form eq d \<Longrightarrow> conditions d = []"
  by (induction d) (auto simp: list_all_iff)

context dependency_sets begin

lemma evaluateds_form:
  assumes "list_all (wf_dependency Q) ds"
  shows "list_all (evaluated_form (dependency_eq c)) (is_collect ix (evaluateds ix b ds))"
proof -
  have "list_all (evaluated_form (dependency_eq c)) (evaluateds ix b ds)"
    using assms evaluated_is_form by (fastforce simp: list_all_iff)
  then show ?thesis using collect_subset [of "evaluateds ix b ds"] by (auto simp: list_all_iff)
qed

lemma evaluateds_id:
  assumes "list_all (evaluated_form (dependency_eq c)) es" "distinct_by (dependency_eq c) es"
  shows "is_collect ix (evaluateds ix b es) = es"
proof -
  have "evaluateds ix b es = es"
    using assms(1) by (intro concat_map_single) (simp add: list_all_iff evaluated_form_id)
  then show ?thesis by (simp add: collect_id [OF assms(2)])
qed

lemma set_evaluate_form:
  assumes wf: "list_all (wf_dependency Q) ds" and parsed: "parsed_conditions ds"
  shows "\<exists>es. dependency_set_evaluate ix options ds = Some es \<and>
    distinct_by (dependency_eq c) es \<and> list_all (evaluated_form (dependency_eq c)) es \<and>
    dependency_set_evaluate ix options' es = Some es"
proof -
  define es where "es = is_collect ix (evaluateds ix (active options) ds)"
  have form: "list_all (evaluated_form (dependency_eq c)) es" and dist: "distinct_by (dependency_eq c) es"
    using evaluateds_form [OF wf] collect_distinct [OF wf_evaluateds [OF wf]] by (simp_all add: es_def)
  have "parsed_conditions es"
    using form form_unconditional by (fastforce simp: parsed_conditions_def list_all_iff)
  then have "dependency_set_evaluate ix options' es = Some es"
    using set_evaluate_eq evaluateds_id [OF form dist] by metis
  with form dist set_evaluate_eq [OF parsed, of ix options] show ?thesis unfolding es_def by blast
qed

lemma evaluateds_flats:
  assumes "list_all (wf_dependency Q) ds"
  shows "set (flats (is_collect ix (evaluateds ix b ds))) \<subseteq> set (concat (map (held b) ds))"
    and "v \<in> set (concat (map (held b) ds)) \<Longrightarrow> \<exists>w \<in> set (flats (is_collect ix (evaluateds ix b ds))). c w v = Equal"
proof
  fix v assume "v \<in> set (flats (is_collect ix (evaluateds ix b ds)))"
  then obtain e where e: "e \<in> set (evaluateds ix b ds)" "v \<in> set (flat e)" using collect_subset by fastforce
  then obtain d where "d \<in> set ds" "e \<in> set (evaluated ix b d)" by auto
  with e(2) flats_evaluated [of b d] show "v \<in> set (concat (map (held b) ds))" by auto
next
  assume "v \<in> set (concat (map (held b) ds))"
  then obtain d where d: "d \<in> set ds" "v \<in> set (held b d)" by auto
  then have wd: "wf_dependency Q d" using assms by (simp add: list_all_iff)
  obtain e w where e: "e \<in> set (evaluated ix b d)" "w \<in> set (flat e)" "c w v = Equal"
    using evaluated_covers [OF wd d(2)] by auto
  have "Q v" using wf_flat [OF wd, of v] held_flat [of b d] d(2) by blast
  moreover have "e \<in> set (evaluateds ix b ds)" using d(1) e(1) by auto
  ultimately show "\<exists>w \<in> set (flats (is_collect ix (evaluateds ix b ds))). c w v = Equal"
    using collect_covers [OF wf_evaluateds [OF assms] _ e(2,3)] by blast
qed

text \<open>The values of an evaluated set are those whose conditions hold.\<close>

lemma set_evaluate_flats:
  assumes wf: "list_all (wf_dependency Q) ds" and parsed: "parsed_conditions ds"
    and es: "dependency_set_evaluate ix options ds = Some es"
    and vs: "drain conditional_flatten_next (conditional_flatten_queue ds) = Some vs"
  shows "v \<in> set (flats es) \<Longrightarrow> \<exists>us. (us, v) \<in> set vs \<and> list_all (active options) us"
    and "(us, v) \<in> set vs \<Longrightarrow> list_all (active options) us \<Longrightarrow> \<exists>w \<in> set (flats es). c w v = Equal"
proof -
  have vs': "vs = concat (map (guarded []) ds)"
    using vs by (simp add: drain_conditional_flatten conditional_flatten_queue_def comp_def)
  have "map snd (filter (\<lambda>(us, v). list_all (active options) us) vs) = concat (map (held (active options)) ds)"
    unfolding vs' by (rule held_concat) (simp add: held_guarded)
  from arg_cong [OF this, of set]
  have held: "set (concat (map (held (active options)) ds)) = {v. \<exists>us. (us, v) \<in> set vs \<and> list_all (active options) us}"
    by (simp only: set_map set_filter) force
  have es': "es = is_collect ix (evaluateds ix (active options) ds)"
    using es set_evaluate_eq [OF parsed] by simp
  show "\<exists>us. (us, v) \<in> set vs \<and> list_all (active options) us" if "v \<in> set (flats es)"
    using evaluateds_flats(1) [OF wf] that held unfolding es' by blast
  show "\<exists>w \<in> set (flats es). c w v = Equal" if "(us, v) \<in> set vs" "list_all (active options) us"
    using evaluateds_flats(2) [OF wf] that held unfolding es' by blast
qed

end

section \<open>Instances\<close>

text \<open>Expressions over strings, over packages and over URIs.\<close>

interpretation string_deps: dependency_sets "\<lambda>_. True" cmp_str "ref_index_set (dependency_eq cmp_str)"
  by (rule dependency_sets.intro [OF total_cmp_str ref_set.index_set_axioms])

interpretation package_deps: dependency_sets wf_dep dep_cmp "ref_index_set (dependency_eq dep_cmp)"
  by (rule dependency_sets.intro [OF total_cmp_dep ref_set.index_set_axioms])

interpretation uri_deps: dependency_sets "\<lambda>_. True" uri_cmp "ref_index_set (dependency_eq uri_cmp)"
  by (rule dependency_sets.intro [OF total_cmp_uri ref_set.index_set_axioms])

end
