(* ===== verification/Restrict.thy ===== *)
theory Restrict
  imports Dep_Ops Dependency_Eval Eapi
begin

text \<open>
  Restrictions, the predicates that select packages: the boolean variants and combinators of
  \<open>restrict/boolean.rs\<close>, string restrictions (\<open>restrict/str.rs\<close>), restrictions on
  the parts of a dependency (\<open>restrict/dep.rs\<close>), on ordered values, sets and dependency
  sets (\<open>restrict/ordered.rs\<close>, \<open>set.rs\<close>, \<open>depset.rs\<close>), on the metadata of
  ebuild packages (\<open>pkg/ebuild/restrict.rs\<close>), and the top-level type with its scope
  (\<open>restrict.rs\<close>). Matching of regular expressions is the argument \<open>re\<close>: the
  pattern, then the string.
\<close>

section \<open>Boolean restrictions\<close>

text \<open>The macro \<open>restrict_with_boolean\<close> adds the boolean variants to the variants of a
  type, here the values under \<open>Var\<close>.\<close>

datatype 'v restrict =
    Var 'v
  | RAnd "'v restrict list"
  | ROr "'v restrict list"
  | RXor "'v restrict list"
  | RNot "'v restrict"

text \<open>The loop over the members of \<open>Xor\<close>: it stops at the first that differs from the
  one before.\<close>

fun xor_scan :: "bool option \<Rightarrow> bool list \<Rightarrow> bool" where
  "xor_scan prev [] = False"
| "xor_scan prev (b # bs) = (if prev \<noteq> None \<and> Some b \<noteq> prev then True else xor_scan (Some b) bs)"

fun boolean_matches :: "('v \<Rightarrow> bool) \<Rightarrow> 'v restrict \<Rightarrow> bool" where
  "boolean_matches m (Var v) = m v"
| "boolean_matches m (RAnd vals) = list_all (boolean_matches m) vals"
| "boolean_matches m (ROr vals) = list_ex (boolean_matches m) vals"
| "boolean_matches m (RXor vals) = xor_scan None (map (boolean_matches m) vals)"
| "boolean_matches m (RNot r) = (\<not> boolean_matches m r)"

text \<open>The combinators merge members of their own variant, and drop the variant around a
  single restriction.\<close>

definition unwrap_single :: "('v restrict list \<Rightarrow> 'v restrict) \<Rightarrow> 'v restrict list \<Rightarrow> 'v restrict" where
  "unwrap_single variant rs = (if length rs = 1 then last rs else variant rs)"

definition restrict_and :: "'v restrict list \<Rightarrow> 'v restrict" where
  "restrict_and rs = unwrap_single RAnd (concat (map (\<lambda>r. case r of RAnd vals \<Rightarrow> vals | _ \<Rightarrow> [r]) rs))"

definition restrict_or :: "'v restrict list \<Rightarrow> 'v restrict" where
  "restrict_or rs = unwrap_single ROr (concat (map (\<lambda>r. case r of ROr vals \<Rightarrow> vals | _ \<Rightarrow> [r]) rs))"

definition restrict_xor :: "'v restrict list \<Rightarrow> 'v restrict" where
  "restrict_xor rs = unwrap_single RXor (concat (map (\<lambda>r. case r of RXor vals \<Rightarrow> vals | _ \<Rightarrow> [r]) rs))"

lemma matches_members:
  "list_all (boolean_matches m) (concat (map f rs)) = list_all (\<lambda>r. list_all (boolean_matches m) (f r)) rs"
  "list_ex (boolean_matches m) (concat (map f rs)) = list_ex (\<lambda>r. list_ex (boolean_matches m) (f r)) rs"
  by (induction rs) (simp_all add: list_all_append list_ex_append)

lemma matches_unwrap_single:
  "boolean_matches m (unwrap_single RAnd rs) = list_all (boolean_matches m) rs"
  "boolean_matches m (unwrap_single ROr rs) = list_ex (boolean_matches m) rs"
  by (cases rs; simp add: unwrap_single_def)+

lemma matches_and [simp]: "boolean_matches m (restrict_and rs) = list_all (boolean_matches m) rs"
  unfolding restrict_and_def matches_unwrap_single matches_members
  by (rule list.pred_cong) (auto split: restrict.splits)

lemma matches_or [simp]: "boolean_matches m (restrict_or rs) = list_ex (boolean_matches m) rs"
proof -
  have "list_ex (boolean_matches m) (case r of ROr vals \<Rightarrow> vals | _ \<Rightarrow> [r]) = boolean_matches m r" for r
    by (cases r) simp_all
  then show ?thesis unfolding restrict_or_def matches_unwrap_single matches_members by simp
qed

lemma xor_scan_Some: "xor_scan (Some b) bs \<longleftrightarrow> (\<not> b) \<in> set bs"
  by (induction bs arbitrary: b) auto

lemma xor_scan_None: "xor_scan None bs \<longleftrightarrow> True \<in> set bs \<and> False \<in> set bs"
proof (cases bs)
  case (Cons b bs')
  then show ?thesis by (cases b) (simp_all add: xor_scan_Some)
qed simp

text \<open>What a combination of exclusive members comes to: one member alone stands for itself, several have to
  disagree.\<close>

definition xor_result :: "bool list \<Rightarrow> bool" where
  "xor_result bs = (if length bs = 1 then hd bs else True \<in> set bs \<and> False \<in> set bs)"

section \<open>Strings\<close>

datatype str_variant =
    StrEqual string
  | StrPrefix string
  | StrRegex string
  | StrSubstr string
  | StrSuffix string
  | StrLength "ordering list" nat

type_synonym str_restrict = "str_variant restrict"

fun str_variant_matches :: "(string \<Rightarrow> string \<Rightarrow> bool) \<Rightarrow> string \<Rightarrow> str_variant \<Rightarrow> bool" where
  "str_variant_matches re val (StrEqual s) = (val = s)"
| "str_variant_matches re val (StrPrefix s) = starts_with val s"
| "str_variant_matches re val (StrRegex s) = re s val"
| "str_variant_matches re val (StrSubstr s) = str_contains val s"
| "str_variant_matches re val (StrSuffix s) = ends_with val s"
| "str_variant_matches re val (StrLength cmps n) = (cmp_by id (length val) n \<in> set cmps)"

definition str_matches :: "(string \<Rightarrow> string \<Rightarrow> bool) \<Rightarrow> str_restrict \<Rightarrow> string \<Rightarrow> bool" where
  "str_matches re r val = boolean_matches (str_variant_matches re val) r"

lemma str_matches_equal [simp]: "str_matches re (Var (StrEqual s)) val \<longleftrightarrow> val = s"
  by (simp add: str_matches_def)

section \<open>Parts of dependencies\<close>

datatype dep_restrict =
    DepCategory str_restrict
  | DepPackage str_restrict
  | DepBlocker "blocker option"
  | DepVersion "version option"
  | DepSlot "str_restrict option"
  | DepSubslot "str_restrict option"
  | DepUseDeps "use_dep list option"
  | DepRepo "str_restrict option"

definition dep_restrict_category :: "string \<Rightarrow> dep_restrict" where
  "dep_restrict_category s = DepCategory (Var (StrEqual s))"

definition dep_restrict_package :: "string \<Rightarrow> dep_restrict" where
  "dep_restrict_package s = DepPackage (Var (StrEqual s))"

definition dep_restrict_slot :: "string option \<Rightarrow> dep_restrict" where
  "dep_restrict_slot s = DepSlot (map_option (\<lambda>s. Var (StrEqual s)) s)"

definition dep_restrict_subslot :: "string option \<Rightarrow> dep_restrict" where
  "dep_restrict_subslot s = DepSubslot (map_option (\<lambda>s. Var (StrEqual s)) s)"

definition dep_restrict_repo :: "string option \<Rightarrow> dep_restrict" where
  "dep_restrict_repo s = DepRepo (map_option (\<lambda>s. Var (StrEqual s)) s)"

fun dep_restrict_matches_cpn :: "(string \<Rightarrow> string \<Rightarrow> bool) \<Rightarrow> cpn \<Rightarrow> dep_restrict \<Rightarrow> bool" where
  "dep_restrict_matches_cpn re a (DepCategory r) = str_matches re r (cpn_category a)"
| "dep_restrict_matches_cpn re a (DepPackage r) = str_matches re r (cpn_package a)"
| "dep_restrict_matches_cpn re a (DepVersion None) = True"
| "dep_restrict_matches_cpn re a (DepBlocker None) = True"
| "dep_restrict_matches_cpn re a (DepSlot None) = True"
| "dep_restrict_matches_cpn re a (DepSubslot None) = True"
| "dep_restrict_matches_cpn re a (DepUseDeps None) = True"
| "dep_restrict_matches_cpn re a (DepRepo None) = True"
| "dep_restrict_matches_cpn re a _ = False"

fun dep_restrict_matches_cpv :: "(string \<Rightarrow> string \<Rightarrow> bool) \<Rightarrow> cpv \<Rightarrow> dep_restrict \<Rightarrow> bool" where
  "dep_restrict_matches_cpv re c (DepCategory r) = str_matches re r (cpn_category (cpv_cpn c))"
| "dep_restrict_matches_cpv re c (DepPackage r) = str_matches re r (cpn_package (cpv_cpn c))"
| "dep_restrict_matches_cpv re c (DepVersion (Some v)) = version_intersects v (cpv_version c)"
| "dep_restrict_matches_cpv re c (DepBlocker None) = True"
| "dep_restrict_matches_cpv re c (DepSlot None) = True"
| "dep_restrict_matches_cpv re c (DepSubslot None) = True"
| "dep_restrict_matches_cpv re c (DepUseDeps None) = True"
| "dep_restrict_matches_cpv re c (DepRepo None) = True"
| "dep_restrict_matches_cpv re c _ = False"

text \<open>The match of an optional restriction and an optional value that is written out for
  every attribute.\<close>

definition both_match :: "('r \<Rightarrow> 'a \<Rightarrow> bool) \<Rightarrow> 'r option \<Rightarrow> 'a option \<Rightarrow> bool" where
  "both_match m r x = (case (r, x) of (Some r, Some x) \<Rightarrow> m r x | (None, None) \<Rightarrow> True | _ \<Rightarrow> False)"

definition is_subset :: "'a index_set \<Rightarrow> 'a list \<Rightarrow> 'a list \<Rightarrow> bool" where
  "is_subset ix s t = list_all (is_contains ix t) s"

fun dep_restrict_matches_dep :: "(string \<Rightarrow> string \<Rightarrow> bool) \<Rightarrow> use_dep index_set \<Rightarrow> dep \<Rightarrow> dep_restrict \<Rightarrow> bool" where
  "dep_restrict_matches_dep re ux d (DepCategory r) = str_matches re r (cpn_category (dep_cpn d))"
| "dep_restrict_matches_dep re ux d (DepPackage r) = str_matches re r (cpn_package (dep_cpn d))"
| "dep_restrict_matches_dep re ux d (DepBlocker b) = both_match (=) b (dep_blocker d)"
| "dep_restrict_matches_dep re ux d (DepVersion v) = both_match version_intersects v (dep_version d)"
| "dep_restrict_matches_dep re ux d (DepSlot r) = both_match (str_matches re) r (dep_slot d)"
| "dep_restrict_matches_dep re ux d (DepSubslot r) = both_match (str_matches re) r (dep_subslot d)"
| "dep_restrict_matches_dep re ux d (DepUseDeps u) = both_match (is_subset ux) u (dep_use_deps d)"
| "dep_restrict_matches_dep re ux d (DepRepo r) = both_match (str_matches re) r (dep_repo d)"

fun dep_restrict_matches_str :: "(string \<Rightarrow> string \<Rightarrow> bool) \<Rightarrow> string \<Rightarrow> dep_restrict \<Rightarrow> bool" where
  "dep_restrict_matches_str re s (DepCategory r) = str_matches re r s"
| "dep_restrict_matches_str re s (DepPackage r) = str_matches re r s"
| "dep_restrict_matches_str re s (DepSlot (Some r)) = str_matches re r s"
| "dep_restrict_matches_str re s (DepSubslot (Some r)) = str_matches re r s"
| "dep_restrict_matches_str re s (DepRepo (Some r)) = str_matches re r s"
| "dep_restrict_matches_str re s _ = False"

text \<open>A repository by its id, and a package by its repository and its \<open>Cpv\<close>.\<close>

fun dep_restrict_matches_repo :: "(string \<Rightarrow> string \<Rightarrow> bool) \<Rightarrow> string \<Rightarrow> dep_restrict \<Rightarrow> bool" where
  "dep_restrict_matches_repo re name (DepRepo (Some r)) = str_matches re r name"
| "dep_restrict_matches_repo re name _ = False"

fun dep_restrict_matches_pkg :: "(string \<Rightarrow> string \<Rightarrow> bool) \<Rightarrow> string \<Rightarrow> cpv \<Rightarrow> dep_restrict \<Rightarrow> bool" where
  "dep_restrict_matches_pkg re name c (DepRepo (Some r)) = str_matches re r name"
| "dep_restrict_matches_pkg re name c r = dep_restrict_matches_cpv re c r"

section \<open>Ordered values and sets\<close>

datatype 'r ordered_restrict =
    OrdAny 'r
  | OrdAll 'r
  | OrdFirst 'r
  | OrdLast 'r
  | OrdCount "ordering list" nat

fun ordered_matches :: "('r \<Rightarrow> 'a \<Rightarrow> bool) \<Rightarrow> 'a list \<Rightarrow> 'r ordered_restrict \<Rightarrow> bool" where
  "ordered_matches m val (OrdAny r) = list_ex (m r) val"
| "ordered_matches m val (OrdAll r) = (val \<noteq> [] \<and> list_all (m r) val)"
| "ordered_matches m val (OrdFirst r) = (case val of [] \<Rightarrow> False | v # _ \<Rightarrow> m r v)"
| "ordered_matches m val (OrdLast r) = (if val = [] then False else m r (last val))"
| "ordered_matches m val (OrdCount cmps n) = (cmp_by id (length val) n \<in> set cmps)"

datatype ('a, 'r) set_restrict =
    SetEmpty
  | SetContains 'a
  | SetDisjoint "'a list"
  | SetEqual "'a list"
  | SetSubset "'a list"
  | SetProperSubset "'a list"
  | SetSuperset "'a list"
  | SetProperSuperset "'a list"
  | SetOrdered "'r ordered_restrict"

text \<open>Ordered sets are equal when they hold the same elements in the same order.\<close>

fun set_restrict_matches :: "'a index_set \<Rightarrow> ('r \<Rightarrow> 'a \<Rightarrow> bool) \<Rightarrow> 'a list \<Rightarrow> ('a, 'r) set_restrict \<Rightarrow> bool" where
  "set_restrict_matches ix m val SetEmpty = (val = [])"
| "set_restrict_matches ix m val (SetContains x) = is_contains ix val x"
| "set_restrict_matches ix m val (SetDisjoint s) = list_all (\<lambda>x. \<not> is_contains ix s x) val"
| "set_restrict_matches ix m val (SetEqual s) = (val = s)"
| "set_restrict_matches ix m val (SetSubset s) = is_subset ix val s"
| "set_restrict_matches ix m val (SetProperSubset s) = (is_subset ix val s \<and> val \<noteq> s)"
| "set_restrict_matches ix m val (SetSuperset s) = is_subset ix s val"
| "set_restrict_matches ix m val (SetProperSuperset s) = (is_subset ix s val \<and> val \<noteq> s)"
| "set_restrict_matches ix m val (SetOrdered r) = ordered_matches m val r"

datatype 't depset_restrict = DepsetAny 't | DepsetContains str_restrict

text \<open>\<open>m\<close> matches a value, \<open>f\<close> displays one.\<close>

fun depset_matches :: "(string \<Rightarrow> string \<Rightarrow> bool) \<Rightarrow> ('t \<Rightarrow> 'a \<Rightarrow> bool) \<Rightarrow> ('a \<Rightarrow> string) \<Rightarrow>
    'a dependency list \<Rightarrow> 't depset_restrict \<Rightarrow> bool" where
  "depset_matches re m f ds (DepsetAny r) = (any_iter flatten_next (m r) ds = Some True)"
| "depset_matches re m f ds (DepsetContains r) =
     (any_iter recursive_next (\<lambda>d. str_matches re r (dependency_display f d)) ds = Some True)"

lemma depset_matches_iff:
  "depset_matches re m f ds (DepsetAny r) \<longleftrightarrow> (\<exists>v \<in> set (flats ds). m r v)"
  "depset_matches re m f ds (DepsetContains s) \<longleftrightarrow>
     (\<exists>d \<in> set (concat (map preorder ds)). str_matches re s (dependency_display f d))"
  by (simp_all add: any_view [OF flatten_next_cases] any_view [OF recursive_next_cases] list_ex_iff)

section \<open>Ebuild packages\<close>

datatype maintainer_variant =
    MaintEmail str_restrict
  | MaintName "str_restrict option"
  | MaintDescription "str_restrict option"
  | MaintType str_restrict
  | MaintProxied str_restrict

text \<open>A maintainer of \<open>metadata.xml\<close>; its type and proxy state by their names.\<close>

record maintainer =
  maint_email :: string
  maint_name :: "string option"
  maint_description :: "string option"
  maint_type :: string
  maint_proxied :: string

fun maintainer_variant_matches :: "(string \<Rightarrow> string \<Rightarrow> bool) \<Rightarrow> maintainer \<Rightarrow> maintainer_variant \<Rightarrow> bool" where
  "maintainer_variant_matches re x (MaintEmail r) = str_matches re r (maint_email x)"
| "maintainer_variant_matches re x (MaintName r) = both_match (str_matches re) r (maint_name x)"
| "maintainer_variant_matches re x (MaintDescription r) = both_match (str_matches re) r (maint_description x)"
| "maintainer_variant_matches re x (MaintType r) = str_matches re r (maint_type x)"
| "maintainer_variant_matches re x (MaintProxied r) = str_matches re r (maint_proxied x)"

definition maintainer_matches :: "(string \<Rightarrow> string \<Rightarrow> bool) \<Rightarrow> maintainer_variant restrict \<Rightarrow> maintainer \<Rightarrow> bool" where
  "maintainer_matches re r x = boolean_matches (maintainer_variant_matches re x) r"

type_synonym string_set_restrict = "(string, str_restrict) set_restrict"

datatype ebuild_restrict =
    EbuildData str_restrict
  | EbuildDescription str_restrict
  | EbuildSlot str_restrict
  | EbuildSubslot str_restrict
  | EbuildRawSubslot "str_restrict option"
  | EbuildDependencies "dep_restrict depset_restrict option"
  | EbuildDepend "dep_restrict depset_restrict option"
  | EbuildBdepend "dep_restrict depset_restrict option"
  | EbuildIdepend "dep_restrict depset_restrict option"
  | EbuildPdepend "dep_restrict depset_restrict option"
  | EbuildRdepend "dep_restrict depset_restrict option"
  | EbuildLicense "str_restrict depset_restrict option"
  | EbuildProperties "str_restrict depset_restrict option"
  | EbuildRequiredUse "str_restrict depset_restrict option"
  | EbuildRestrict "str_restrict depset_restrict option"
  | EbuildSrcUri "str_restrict depset_restrict option"
  | EbuildHomepage "string_set_restrict option"
  | EbuildIuse "string_set_restrict option"
  | EbuildInherit "string_set_restrict option"
  | EbuildInherited "string_set_restrict option"
  | EbuildKeywords "string_set_restrict option"
  | EbuildLongDescription "str_restrict option"
  | EbuildMaintainers "maintainer_variant restrict ordered_restrict option"

text \<open>The attributes of a package that its restrictions read.\<close>

record ebuild_pkg =
  pkg_repo_id :: string
  pkg_cpv :: cpv
  pkg_eapi :: eapi
  pkg_data :: string
  pkg_description :: string
  pkg_slot :: string
  pkg_subslot :: string
  pkg_raw_subslot :: "string option"
  pkg_dependencies :: "dep dependency list"
  pkg_depend :: "dep dependency list"
  pkg_bdepend :: "dep dependency list"
  pkg_idepend :: "dep dependency list"
  pkg_pdepend :: "dep dependency list"
  pkg_rdepend :: "dep dependency list"
  pkg_license :: "string dependency list"
  pkg_properties :: "string dependency list"
  pkg_required_use :: "string dependency list"
  pkg_restrict :: "string dependency list"
  pkg_src_uri :: "uri dependency list"
  pkg_homepage :: "string list"
  pkg_iuse_effective :: "string list"
  pkg_inherit :: "string list"
  pkg_inherited :: "string list"
  pkg_keywords :: "string list"
  pkg_long_description :: "string option"
  pkg_maintainers :: "maintainer list"

text \<open>The match of an optional restriction and a value that is always there: a missing
  restriction asks for an empty value.\<close>

definition match_or_empty :: "('a list \<Rightarrow> 'r \<Rightarrow> bool) \<Rightarrow> 'r option \<Rightarrow> 'a list \<Rightarrow> bool" where
  "match_or_empty m r val = (case r of Some r \<Rightarrow> m val r | None \<Rightarrow> val = [])"

definition dep_to_string :: "dep \<Rightarrow> string" where
  "dep_to_string d = (case dep_display d of Some s \<Rightarrow> s | None \<Rightarrow> [])"

definition dep_depset_matches :: "(string \<Rightarrow> string \<Rightarrow> bool) \<Rightarrow> use_dep index_set \<Rightarrow> dep dependency list \<Rightarrow>
    dep_restrict depset_restrict \<Rightarrow> bool" where
  "dep_depset_matches re ux = depset_matches re (\<lambda>r d. dep_restrict_matches_dep re ux d r) dep_to_string"

definition string_depset_matches :: "(string \<Rightarrow> string \<Rightarrow> bool) \<Rightarrow> string dependency list \<Rightarrow>
    str_restrict depset_restrict \<Rightarrow> bool" where
  "string_depset_matches re = depset_matches re (str_matches re) (\<lambda>s. s)"

definition uri_depset_matches :: "(string \<Rightarrow> string \<Rightarrow> bool) \<Rightarrow> uri dependency list \<Rightarrow>
    str_restrict depset_restrict \<Rightarrow> bool" where
  "uri_depset_matches re = depset_matches re (\<lambda>r u. str_matches re r (uri_uri u)) uri_display"

definition string_set_matches :: "(string \<Rightarrow> string \<Rightarrow> bool) \<Rightarrow> string index_set \<Rightarrow> string list \<Rightarrow>
    string_set_restrict \<Rightarrow> bool" where
  "string_set_matches re sx = set_restrict_matches sx (str_matches re)"

fun ebuild_matches :: "(string \<Rightarrow> string \<Rightarrow> bool) \<Rightarrow> use_dep index_set \<Rightarrow> string index_set \<Rightarrow> ebuild_pkg \<Rightarrow>
    ebuild_restrict \<Rightarrow> bool" where
  "ebuild_matches re ux sx p (EbuildData r) = str_matches re r (pkg_data p)"
| "ebuild_matches re ux sx p (EbuildDescription r) = str_matches re r (pkg_description p)"
| "ebuild_matches re ux sx p (EbuildSlot r) = str_matches re r (pkg_slot p)"
| "ebuild_matches re ux sx p (EbuildSubslot r) = str_matches re r (pkg_subslot p)"
| "ebuild_matches re ux sx p (EbuildRawSubslot r) = both_match (str_matches re) r (pkg_raw_subslot p)"
| "ebuild_matches re ux sx p (EbuildDependencies r) = match_or_empty (dep_depset_matches re ux) r (pkg_dependencies p)"
| "ebuild_matches re ux sx p (EbuildDepend r) = match_or_empty (dep_depset_matches re ux) r (pkg_depend p)"
| "ebuild_matches re ux sx p (EbuildBdepend r) = match_or_empty (dep_depset_matches re ux) r (pkg_bdepend p)"
| "ebuild_matches re ux sx p (EbuildIdepend r) = match_or_empty (dep_depset_matches re ux) r (pkg_idepend p)"
| "ebuild_matches re ux sx p (EbuildPdepend r) = match_or_empty (dep_depset_matches re ux) r (pkg_pdepend p)"
| "ebuild_matches re ux sx p (EbuildRdepend r) = match_or_empty (dep_depset_matches re ux) r (pkg_rdepend p)"
| "ebuild_matches re ux sx p (EbuildLicense r) = match_or_empty (string_depset_matches re) r (pkg_license p)"
| "ebuild_matches re ux sx p (EbuildProperties r) = match_or_empty (string_depset_matches re) r (pkg_properties p)"
| "ebuild_matches re ux sx p (EbuildRequiredUse r) = match_or_empty (string_depset_matches re) r (pkg_required_use p)"
| "ebuild_matches re ux sx p (EbuildRestrict r) = match_or_empty (string_depset_matches re) r (pkg_restrict p)"
| "ebuild_matches re ux sx p (EbuildSrcUri r) = match_or_empty (uri_depset_matches re) r (pkg_src_uri p)"
| "ebuild_matches re ux sx p (EbuildHomepage r) = match_or_empty (string_set_matches re sx) r (pkg_homepage p)"
| "ebuild_matches re ux sx p (EbuildIuse r) = match_or_empty (string_set_matches re sx) r (pkg_iuse_effective p)"
| "ebuild_matches re ux sx p (EbuildInherit r) = match_or_empty (string_set_matches re sx) r (pkg_inherit p)"
| "ebuild_matches re ux sx p (EbuildInherited r) = match_or_empty (string_set_matches re sx) r (pkg_inherited p)"
| "ebuild_matches re ux sx p (EbuildKeywords r) = match_or_empty (string_set_matches re sx) r (pkg_keywords p)"
| "ebuild_matches re ux sx p (EbuildLongDescription r) = both_match (str_matches re) r (pkg_long_description p)"
| "ebuild_matches re ux sx p (EbuildMaintainers r) =
     match_or_empty (ordered_matches (maintainer_matches re)) r (pkg_maintainers p)"

section \<open>Restrictions\<close>

datatype eapi_restrict = EapiId str_restrict | EapiHas feature

fun eapi_restrict_matches :: "(string \<Rightarrow> string \<Rightarrow> bool) \<Rightarrow> eapi \<Rightarrow> eapi_restrict \<Rightarrow> bool" where
  "eapi_restrict_matches re e (EapiId r) = str_matches re r (eapi_id e)"
| "eapi_restrict_matches re e (EapiHas f) = eapi_has e f"

datatype pkg_restrict = PkgEapi eapi_restrict | PkgEbuild ebuild_restrict | PkgRepo str_restrict

datatype base_variant = BTrue | BFalse | BDep dep_restrict | BPkg pkg_restrict | BStr str_restrict

type_synonym base_restrict = "base_variant restrict"

text \<open>The macro \<open>restrict_match\<close>: \<open>fd\<close>, \<open>fp\<close> and \<open>fs\<close> match the
  variants a type of object supports; the others are reported and do not match.\<close>

fun restrict_match :: "(dep_restrict \<Rightarrow> bool) option \<Rightarrow> (pkg_restrict \<Rightarrow> bool) option \<Rightarrow>
    (str_restrict \<Rightarrow> bool) option \<Rightarrow> base_variant \<Rightarrow> bool" where
  "restrict_match fd fp fs BTrue = True"
| "restrict_match fd fp fs BFalse = False"
| "restrict_match fd fp fs (BDep r) = (case fd of Some f \<Rightarrow> f r | None \<Rightarrow> False)"
| "restrict_match fd fp fs (BPkg r) = (case fp of Some f \<Rightarrow> f r | None \<Rightarrow> False)"
| "restrict_match fd fp fs (BStr r) = (case fs of Some f \<Rightarrow> f r | None \<Rightarrow> False)"

definition matches_string :: "(string \<Rightarrow> string \<Rightarrow> bool) \<Rightarrow> base_restrict \<Rightarrow> string \<Rightarrow> bool" where
  "matches_string re r s = boolean_matches
     (restrict_match (Some (dep_restrict_matches_str re s)) None (Some (\<lambda>r. str_matches re r s))) r"

definition matches_cpn :: "(string \<Rightarrow> string \<Rightarrow> bool) \<Rightarrow> base_restrict \<Rightarrow> cpn \<Rightarrow> bool" where
  "matches_cpn re r a = boolean_matches (restrict_match (Some (dep_restrict_matches_cpn re a)) None None) r"

definition matches_cpv :: "(string \<Rightarrow> string \<Rightarrow> bool) \<Rightarrow> base_restrict \<Rightarrow> cpv \<Rightarrow> bool" where
  "matches_cpv re r c = boolean_matches (restrict_match (Some (dep_restrict_matches_cpv re c)) None None) r"

definition matches_dep :: "(string \<Rightarrow> string \<Rightarrow> bool) \<Rightarrow> use_dep index_set \<Rightarrow> base_restrict \<Rightarrow> dep \<Rightarrow> bool" where
  "matches_dep re ux r d = boolean_matches (restrict_match (Some (dep_restrict_matches_dep re ux d)) None None) r"

fun pkg_restrict_matches_ebuild :: "(string \<Rightarrow> string \<Rightarrow> bool) \<Rightarrow> use_dep index_set \<Rightarrow> string index_set \<Rightarrow>
    ebuild_pkg \<Rightarrow> pkg_restrict \<Rightarrow> bool" where
  "pkg_restrict_matches_ebuild re ux sx p (PkgEbuild r) = ebuild_matches re ux sx p r"
| "pkg_restrict_matches_ebuild re ux sx p (PkgEapi r) = eapi_restrict_matches re (pkg_eapi p) r"
| "pkg_restrict_matches_ebuild re ux sx p (PkgRepo r) = str_matches re r (pkg_repo_id p)"

fun dep_restrict_matches_ebuild :: "(string \<Rightarrow> string \<Rightarrow> bool) \<Rightarrow> ebuild_pkg \<Rightarrow> dep_restrict \<Rightarrow> bool" where
  "dep_restrict_matches_ebuild re p (DepSlot (Some r)) = str_matches re r (pkg_slot p)"
| "dep_restrict_matches_ebuild re p (DepSubslot (Some r)) = str_matches re r (pkg_subslot p)"
| "dep_restrict_matches_ebuild re p (DepRepo (Some r)) = str_matches re r (pkg_repo_id p)"
| "dep_restrict_matches_ebuild re p r = dep_restrict_matches_cpv re (pkg_cpv p) r"

definition matches_ebuild :: "(string \<Rightarrow> string \<Rightarrow> bool) \<Rightarrow> use_dep index_set \<Rightarrow> string index_set \<Rightarrow>
    base_restrict \<Rightarrow> ebuild_pkg \<Rightarrow> bool" where
  "matches_ebuild re ux sx r p = boolean_matches (restrict_match (Some (dep_restrict_matches_ebuild re p))
     (Some (pkg_restrict_matches_ebuild re ux sx p)) None) r"

text \<open>Sets of dependencies match when one of their values does.\<close>

definition matches_depset :: "(string \<Rightarrow> string \<Rightarrow> bool) \<Rightarrow> use_dep index_set \<Rightarrow> base_restrict \<Rightarrow>
    dep dependency list \<Rightarrow> bool" where
  "matches_depset re ux r ds = boolean_matches (restrict_match
     (Some (\<lambda>r. any_iter flatten_next (\<lambda>d. dep_restrict_matches_dep re ux d r) ds = Some True)) None None) r"

section \<open>Conversions\<close>

abbreviation of_dep_restricts :: "dep_restrict list \<Rightarrow> base_restrict" where
  "of_dep_restricts rs \<equiv> restrict_and (map (\<lambda>r. Var (BDep r)) rs)"

definition restrict_of_cpn :: "cpn \<Rightarrow> base_restrict" where
  "restrict_of_cpn a = of_dep_restricts
     [dep_restrict_category (cpn_category a), dep_restrict_package (cpn_package a)]"

definition restrict_of_cpv :: "cpv \<Rightarrow> base_restrict" where
  "restrict_of_cpv c = of_dep_restricts
     [dep_restrict_category (cpn_category (cpv_cpn c)), dep_restrict_package (cpn_package (cpv_cpn c)),
      DepVersion (Some (cpv_version c))]"

definition dep_restricts :: "dep \<Rightarrow> dep_restrict list" where
  "dep_restricts d =
     [dep_restrict_category (cpn_category (dep_cpn d)), dep_restrict_package (cpn_package (dep_cpn d)),
      DepBlocker (dep_blocker d)]
     @ (case dep_version d of Some v \<Rightarrow> [DepVersion (Some v)] | None \<Rightarrow> [])
     @ (case dep_slot d of Some s \<Rightarrow> [dep_restrict_slot (Some s)] | None \<Rightarrow> [])
     @ (case dep_subslot d of Some s \<Rightarrow> [dep_restrict_subslot (Some s)] | None \<Rightarrow> [])
     @ (case dep_use_deps d of Some u \<Rightarrow> [DepUseDeps (Some u)] | None \<Rightarrow> [])
     @ (case dep_repo d of Some s \<Rightarrow> [dep_restrict_repo (Some s)] | None \<Rightarrow> [])"

definition restrict_of_dep :: "dep \<Rightarrow> base_restrict" where
  "restrict_of_dep d = of_dep_restricts (dep_restricts d)"

section \<open>Scopes\<close>

datatype match_scope = ScopeVersion | ScopePackage | ScopeCategory | ScopeRepo

fun scope_index :: "match_scope \<Rightarrow> nat" where
  "scope_index ScopeVersion = 0"
| "scope_index ScopePackage = 1"
| "scope_index ScopeCategory = 2"
| "scope_index ScopeRepo = 3"

text \<open>\<open>IterFlatten\<close> of restrictions; negations are not opened.\<close>

function restrict_flatten_next :: "'v restrict list \<Rightarrow> ('v restrict \<times> 'v restrict list) option" where
  "restrict_flatten_next [] = None"
| "restrict_flatten_next (RAnd vals # q) = restrict_flatten_next (extend_left q vals)"
| "restrict_flatten_next (ROr vals # q) = restrict_flatten_next (extend_left q vals)"
| "restrict_flatten_next (RXor vals # q) = restrict_flatten_next (extend_left q vals)"
| "restrict_flatten_next (Var v # q) = Some (Var v, q)"
| "restrict_flatten_next (RNot r # q) = Some (RNot r, q)"
  by pat_completeness auto
termination
  by (relation "measure (size_list size)") simp_all

text \<open>\<open>Iterator::min\<close> and \<open>max\<close> over what the iterator returns.\<close>

fun least_scope :: "match_scope list \<Rightarrow> match_scope option" where
  "least_scope [] = None"
| "least_scope (x # xs) = (case least_scope xs of None \<Rightarrow> Some x
     | Some y \<Rightarrow> Some (if scope_index x \<le> scope_index y then x else y))"

fun greatest_scope :: "match_scope list \<Rightarrow> match_scope option" where
  "greatest_scope [] = None"
| "greatest_scope (x # xs) = (case greatest_scope xs of None \<Rightarrow> Some x
     | Some y \<Rightarrow> Some (if scope_index x > scope_index y then x else y))"

fun variant_scope :: "base_restrict \<Rightarrow> match_scope" where
  "variant_scope (Var (BDep (DepVersion (Some v)))) = ScopeVersion"
| "variant_scope (Var (BDep (DepPackage (Var (StrEqual s))))) = ScopePackage"
| "variant_scope (Var (BDep (DepPackage r))) = ScopeCategory"
| "variant_scope (Var (BDep (DepCategory r))) = ScopeCategory"
| "variant_scope r = ScopeRepo"

definition flattened_scopes :: "base_restrict \<Rightarrow> match_scope list" where
  "flattened_scopes r = (case drain restrict_flatten_next [r] of
     Some rs \<Rightarrow> map variant_scope rs | None \<Rightarrow> [])"

fun restrict_scope :: "base_restrict \<Rightarrow> match_scope" where
  "restrict_scope (RAnd vals) = (case least_scope (flattened_scopes (RAnd vals)) of Some s \<Rightarrow> s | None \<Rightarrow> ScopeRepo)"
| "restrict_scope (ROr vals) = (case greatest_scope (flattened_scopes (ROr vals)) of Some s \<Rightarrow> s | None \<Rightarrow> ScopeRepo)"
| "restrict_scope r = variant_scope r"

fun restrict_flat :: "'v restrict \<Rightarrow> 'v restrict list" where
  "restrict_flat (Var v) = [Var v]"
| "restrict_flat (RAnd vals) = concat (map restrict_flat vals)"
| "restrict_flat (ROr vals) = concat (map restrict_flat vals)"
| "restrict_flat (RXor vals) = concat (map restrict_flat vals)"
| "restrict_flat (RNot r) = [RNot r]"

lemma drain_restrict_flatten: "drain restrict_flatten_next q = Some (concat (map restrict_flat q))"
proof (rule drain_view)
  fix q :: "'a restrict list"
  show "case restrict_flatten_next q of None \<Rightarrow> concat (map restrict_flat q) = []
    | Some (x, q') \<Rightarrow> concat (map restrict_flat q) = x # concat (map restrict_flat q')"
    by (induction q rule: restrict_flatten_next.induct) (simp_all split: option.splits prod.splits)
qed

lemma flattened_scopes_eq: "flattened_scopes r = map variant_scope (restrict_flat r)"
  by (simp add: flattened_scopes_def drain_restrict_flatten)

end
