(* ===== verification/Restrict_Laws.thy ===== *)
theory Restrict_Laws
  imports Restrict
begin

text \<open>
  What the restrictions built from package names, versions and dependencies match, and what
  the scope of a restriction says of its matches.
\<close>

section \<open>Restrictions of names and dependencies\<close>

lemma matches_restrict_of_cpn [simp]:
  "matches_cpn re (restrict_of_cpn a) b \<longleftrightarrow> a = b"
  "matches_cpv re (restrict_of_cpn a) c \<longleftrightarrow> a = cpv_cpn c"
  by (auto simp: matches_cpn_def matches_cpv_def restrict_of_cpn_def dep_restrict_category_def dep_restrict_package_def)

lemma matches_restrict_of_cpv [simp]:
  "matches_cpv re (restrict_of_cpv a) c \<longleftrightarrow> cpv_cpn a = cpv_cpn c \<and> version_intersects (cpv_version a) (cpv_version c)"
  by (auto simp: matches_cpv_def restrict_of_cpv_def dep_restrict_category_def dep_restrict_package_def)

text \<open>A dependency stands for those that have what it asks for.\<close>

definition provides :: "('a \<Rightarrow> 'a \<Rightarrow> bool) \<Rightarrow> 'a option \<Rightarrow> 'a option \<Rightarrow> bool" where
  "provides m x y = (case x of None \<Rightarrow> True | Some a \<Rightarrow> (case y of None \<Rightarrow> False | Some b \<Rightarrow> m a b))"

lemma both_match_Some: "both_match m (Some a) y \<longleftrightarrow> (\<exists>b. y = Some b \<and> m a b)"
  by (auto simp: both_match_def split: option.splits)

lemma matches_restrict_of_dep:
  "matches_dep re ux (restrict_of_dep d) x \<longleftrightarrow>
     dep_cpn x = dep_cpn d \<and> dep_blocker x = dep_blocker d \<and>
     provides version_intersects (dep_version d) (dep_version x) \<and>
     provides (=) (dep_slot d) (dep_slot x) \<and> provides (=) (dep_subslot d) (dep_subslot x) \<and>
     provides (is_subset ux) (dep_use_deps d) (dep_use_deps x) \<and> provides (=) (dep_repo d) (dep_repo x)"
proof -
  have blocker: "both_match (=) b c \<longleftrightarrow> c = b" for b c :: "blocker option"
    by (auto simp: both_match_def split: option.splits)
  have cpn: "dep_cpn x = dep_cpn d \<longleftrightarrow> cpn_category (dep_cpn x) = cpn_category (dep_cpn d) \<and>
      cpn_package (dep_cpn x) = cpn_package (dep_cpn d)" by auto
  show ?thesis
    unfolding cpn
    by (auto simp: matches_dep_def restrict_of_dep_def dep_restricts_def list_all_append list.pred_map comp_def
        dep_restrict_category_def dep_restrict_package_def dep_restrict_slot_def dep_restrict_subslot_def
        dep_restrict_repo_def blocker both_match_Some provides_def split: option.splits)
qed

lemma is_subset_iff: "index_set (=) ux \<Longrightarrow> is_subset ux s t \<longleftrightarrow> set s \<subseteq> set t"
  by (auto simp: is_subset_def list_all_iff index_set.contains)

lemma dep_matches_itself:
  assumes "index_set (=) ux" "wf_dep d"
  shows "matches_dep re ux (restrict_of_dep d) d"
  using assms version_intersects_refl
  by (auto simp: matches_restrict_of_dep provides_def is_subset_iff wf_dep_def split: option.splits)

text \<open>USE dependencies that do not ask for a flag both on and off.\<close>

definition consistent_uses :: "use_dep list \<Rightarrow> bool" where
  "consistent_uses us \<longleftrightarrow> \<not> use_deps_conflict [] us"

lemma consistent_subset: "consistent_uses t \<Longrightarrow> set s \<subseteq> set t \<Longrightarrow> \<not> use_deps_conflict s t"
  unfolding consistent_uses_def use_deps_conflict_def by auto

lemma dep_match_intersects:
  assumes "index_set (=) ux" "matches_dep re ux (restrict_of_dep d) x"
    "pred_option consistent_uses (dep_use_deps x)"
  shows "dep_intersects ux d x"
proof -
  have eq: "\<not> both_differ (=) a b" if "provides (=) a b" for a b :: "'x option"
    using that by (auto simp: provides_def both_differ_def split: option.splits)
  have ver: "\<not> both_differ version_intersects (dep_version d) (dep_version x)"
    using assms(2) by (auto simp: matches_restrict_of_dep provides_def both_differ_def split: option.splits)
  have "\<not> both_differ (use_deps_intersects ux) (dep_use_deps d) (dep_use_deps x)"
    using assms consistent_subset
    by (auto simp: matches_restrict_of_dep provides_def both_differ_def use_deps_intersects_iff is_subset_iff
        split: option.splits)
  then show ?thesis
    using assms(2) ver by (auto simp: dep_intersects_iff matches_restrict_of_dep eq)
qed

section \<open>Scopes\<close>

lemma least_scope_in: "least_scope xs = Some s \<Longrightarrow> s \<in> set xs"
  by (induction xs arbitrary: s) (auto split: option.splits if_splits)

lemma scope_of_vars:
  assumes "length rs \<noteq> 1"
  shows "restrict_scope (of_dep_restricts rs) =
    (case least_scope (map (\<lambda>r. variant_scope (Var (BDep r))) rs) of Some s \<Rightarrow> s | None \<Rightarrow> ScopeRepo)"
proof -
  let ?vs = "map (\<lambda>r. Var (BDep r)) rs"
  have "concat (map (\<lambda>r. case r of RAnd vals \<Rightarrow> vals | _ \<Rightarrow> [r]) ?vs) = ?vs"
    by (induction rs) simp_all
  then have "of_dep_restricts rs = RAnd ?vs" using assms by (simp add: restrict_and_def unwrap_single_def)
  moreover have "restrict_flat (RAnd ?vs) = ?vs" by (induction rs) simp_all
  ultimately show ?thesis by (simp add: flattened_scopes_eq comp_def)
qed

lemma restrict_scope_of:
  "restrict_scope (restrict_of_cpn a) = ScopePackage"
  "restrict_scope (restrict_of_cpv c) = ScopeVersion"
  "restrict_scope (restrict_of_dep d) = (if dep_version d = None then ScopePackage else ScopeVersion)"
proof -
  note defs = dep_restrict_category_def dep_restrict_package_def dep_restrict_slot_def
    dep_restrict_subslot_def dep_restrict_repo_def
  show "restrict_scope (restrict_of_cpn a) = ScopePackage"
    unfolding restrict_of_cpn_def by (subst scope_of_vars) (simp_all add: defs)
  show "restrict_scope (restrict_of_cpv c) = ScopeVersion"
    unfolding restrict_of_cpv_def by (subst scope_of_vars) (simp_all add: defs)
  show "restrict_scope (restrict_of_dep d) = (if dep_version d = None then ScopePackage else ScopeVersion)"
    unfolding restrict_of_dep_def dep_restricts_def
    by (subst scope_of_vars; cases "dep_version d"; cases "dep_slot d"; cases "dep_subslot d";
        cases "dep_use_deps d"; cases "dep_repo d"; simp add: defs)
qed

text \<open>A conjunction of restrictions that are no combinations themselves: package scope means
  one package name.\<close>

fun plain_restrict :: "base_restrict \<Rightarrow> bool" where
  "plain_restrict (Var v) = True"
| "plain_restrict (RNot r) = True"
| "plain_restrict r = False"

lemma plain_flat: "list_all plain_restrict vals \<Longrightarrow> restrict_flat (RAnd vals) = vals"
proof (induction vals)
  case (Cons r rs)
  then show ?case by (cases r) simp_all
qed simp

lemma variant_scope_Package: "variant_scope r = ScopePackage \<longleftrightarrow> (\<exists>s. r = Var (BDep (DepPackage (Var (StrEqual s)))))"
  by (cases r rule: variant_scope.cases) auto

lemma package_scope_name:
  assumes "restrict_scope (RAnd vals) = ScopePackage" "list_all plain_restrict vals"
  shows "\<exists>name. \<forall>a. matches_cpn re (RAnd vals) a \<longrightarrow> cpn_package a = name"
proof -
  have "least_scope (map variant_scope vals) = Some ScopePackage"
    using assms(1) plain_flat [OF assms(2)] by (simp add: flattened_scopes_eq split: option.splits)
  from least_scope_in [OF this] obtain s where "Var (BDep (DepPackage (Var (StrEqual s)))) \<in> set vals"
    by (auto simp: variant_scope_Package dest!: variant_scope_Package [THEN iffD1, OF sym])
  then show ?thesis by (intro exI [of _ s]) (auto simp: matches_cpn_def list_all_iff dest!: bspec)
qed

end
