(* ===== verification/Dep_Candidates.thy ===== *)
theory Dep_Candidates
  imports Restrict_Laws Dep_Ops
begin

text \<open>
  What dependencies ask of a package, without reference to \<open>Intersects\<close>: its name, version, slot,
  subslot, repository and the flags that it is built with.
\<close>

record candidate =
  cd_cpn :: cpn
  cd_version :: version
  cd_slot :: string
  cd_subslot :: string
  cd_repo :: string
  cd_flags :: "string set"

text \<open>An attribute that a dependency leaves out is met by any value. Of the USE dependencies those without a
  condition count; the package is taken to have the flags that they name.\<close>

definition flag_as_asked :: "string set \<Rightarrow> use_dep \<Rightarrow> bool" where
  "flag_as_asked flags u \<longleftrightarrow> (ud_kind u = UseEnabled \<longrightarrow> (ud_flag u \<in> flags) = ud_enabled u)"

definition candidate_meets :: "candidate \<Rightarrow> dep \<Rightarrow> bool" where
  "candidate_meets p d \<longleftrightarrow> cd_cpn p = dep_cpn d \<and>
     pred_option (\<lambda>v. satisfies v (cd_version p)) (dep_version d) \<and>
     pred_option ((=) (cd_slot p)) (dep_slot d) \<and>
     pred_option ((=) (cd_subslot p)) (dep_subslot d) \<and>
     pred_option ((=) (cd_repo p)) (dep_repo d) \<and>
     pred_option (list_all (flag_as_asked (cd_flags p))) (dep_use_deps d)"

definition wf_candidate :: "candidate \<Rightarrow> bool" where
  "wf_candidate p \<longleftrightarrow> wf_version (cd_version p) \<and> ver_op (cd_version p) = None"

text \<open>Dependencies for which intersection of their versions is exact: no globs, and no two bounds between
  which there may be nothing.\<close>

definition exact_versions :: "dep \<Rightarrow> dep \<Rightarrow> bool" where
  "exact_versions a b \<longleftrightarrow> no_glob a \<and> no_glob b \<and>
     \<not> both_differ (\<lambda>v w. \<not> may_leave_gap v w \<and> \<not> may_leave_gap w v) (dep_op a) (dep_op b)"

section \<open>A package for two dependencies\<close>

definition common_value :: "string option \<Rightarrow> string option \<Rightarrow> string" where
  "common_value x y = (case x of Some a \<Rightarrow> a | None \<Rightarrow> (case y of Some b \<Rightarrow> b | None \<Rightarrow> ''0''))"

lemma common_value_meets:
  "\<not> both_differ (=) x y \<Longrightarrow> pred_option ((=) (common_value x y)) x \<and> pred_option ((=) (common_value x y)) y"
  by (cases x; cases y) (simp_all add: common_value_def both_differ_def)

lemma meets_not_differ: "pred_option ((=) z) x \<Longrightarrow> pred_option ((=) z) y \<Longrightarrow> \<not> both_differ (=) x y"
  by (cases x; cases y) (simp_all add: both_differ_def)

definition asked_flags :: "use_dep list option \<Rightarrow> use_dep list" where
  "asked_flags us = (case us of None \<Rightarrow> [] | Some us \<Rightarrow> us)"

definition common_flags :: "use_dep list \<Rightarrow> use_dep list \<Rightarrow> string set" where
  "common_flags s t = ud_flag ` {u \<in> set s \<union> set t. ud_kind u = UseEnabled \<and> ud_enabled u}"

lemma common_flags_meet:
  assumes "consistent_uses s" "consistent_uses t" "\<not> use_deps_conflict s t"
  shows "list_all (flag_as_asked (common_flags s t)) (s @ t)"
  unfolding list_all_iff
proof
  fix w assume w: "w \<in> set (s @ t)"
  show "flag_as_asked (common_flags s t) w"
    unfolding flag_as_asked_def
  proof
    assume k: "ud_kind w = UseEnabled"
    have "ud_enabled w" if "ud_flag w \<in> common_flags s t"
    proof (rule ccontr)
      assume off: "\<not> ud_enabled w"
      obtain u where "ud_flag w = ud_flag u" "u \<in> {u \<in> set s \<union> set t. ud_kind u = UseEnabled \<and> ud_enabled u}"
        using \<open>ud_flag w \<in> common_flags s t\<close> unfolding common_flags_def by (rule imageE)
      then have u: "u \<in> set s \<union> set t" "ud_kind u = UseEnabled" "ud_enabled u" "ud_flag u = ud_flag w" by simp_all
      have apart: False if "u \<in> set x" "w \<in> set x" "consistent_uses x" for x
      proof -
        have "u \<in> (set [] - set x) \<union> (set x - set [])" "w \<in> (set [] - set x) \<union> (set x - set [])" using that by simp_all
        then have "use_deps_conflict [] x" unfolding use_deps_conflict_def using u(2-4) k off by blast
        then show False using that(3) by (simp add: consistent_uses_def)
      qed
      have "\<not> (u \<in> set s \<and> w \<in> set s)" "\<not> (u \<in> set t \<and> w \<in> set t)" using apart assms(1,2) by blast+
      then have "u \<in> (set s - set t) \<union> (set t - set s)" "w \<in> (set s - set t) \<union> (set t - set s)"
        using u(1) w by auto
      with assms(3) u k off show False unfolding use_deps_conflict_def by blast
    qed
    moreover have "ud_flag w \<in> common_flags s t" if "ud_enabled w" using that k w by (auto simp: common_flags_def)
    ultimately show "(ud_flag w \<in> common_flags s t) = ud_enabled w" by blast
  qed
qed

lemma meet_no_conflict:
  assumes "list_all (flag_as_asked flags) s" "list_all (flag_as_asked flags) t"
  shows "\<not> use_deps_conflict s t"
  using assms unfolding use_deps_conflict_def list_all_iff flag_as_asked_def by auto metis+

text \<open>A version for two constraints.\<close>

lemma common_version_exists:
  assumes wf: "wf_dep a" "wf_dep b" and exact: "exact_versions a b"
    and int: "\<not> both_differ version_intersects (dep_version a) (dep_version b)"
  shows "\<exists>u. wf_version u \<and> ver_op u = None \<and> pred_option (\<lambda>v. satisfies v u) (dep_version a) \<and>
    pred_option (\<lambda>v. satisfies v u) (dep_version b)"
proof -
  have pair: "\<exists>u. wf_version u \<and> ver_op u = None \<and> satisfies v u \<and> satisfies w u"
    if v: "wf_version v" "ver_op v = Some x" "x \<noteq> OpEqualGlob" and w: "wf_version w" "ver_op w = Some y" "y \<noteq> OpEqualGlob"
      and "\<not> may_leave_gap x y" "\<not> may_leave_gap y x" "version_intersects v w" for v w x y
    using version_intersects_sound [of v w x y] that by (simp add: common_version_def)
  have single: "\<exists>u. wf_version u \<and> ver_op u = None \<and> satisfies v u" if "wf_version v" "ver_op v = Some x" "x \<noteq> OpEqualGlob" for v x
    using pair [of v x v x] that version_intersects_refl [of v] by (auto simp: may_leave_gap_def)
  have op: "\<exists>x. ver_op v = Some x \<and> x \<noteq> OpEqualGlob \<and> wf_version v" if "dep_version d = Some v" "wf_dep d" "no_glob d" for d v
    using that by (auto simp: wf_dep_def no_glob_def dep_op_def)
  have ng: "no_glob a" "no_glob b" using exact by (simp_all add: exact_versions_def)
  show ?thesis
  proof (cases "dep_version a")
    case None
    show ?thesis
    proof (cases "dep_version b")
      case None
      have "wf_version (projr (version_try_new ''1''))" "ver_op (projr (version_try_new ''1'')) = None" by code_simp+
      then show ?thesis using None \<open>dep_version a = None\<close> by (intro exI [of _ "projr (version_try_new ''1'')"]) simp
    next
      case (Some w)
      then show ?thesis using op [OF Some wf(2) ng(2)] single \<open>dep_version a = None\<close> by auto
    qed
  next
    case a: (Some v)
    show ?thesis
    proof (cases "dep_version b")
      case None
      then show ?thesis using op [OF a wf(1) ng(1)] single a by auto
    next
      case b: (Some w)
      obtain x where x: "ver_op v = Some x" "x \<noteq> OpEqualGlob" "wf_version v" using op [OF a wf(1) ng(1)] by blast
      obtain y where y: "ver_op w = Some y" "y \<noteq> OpEqualGlob" "wf_version w" using op [OF b wf(2) ng(2)] by blast
      have "version_intersects v w" using int a b by (simp add: both_differ_def)
      moreover have "\<not> may_leave_gap x y" "\<not> may_leave_gap y x"
        using exact a b x y by (auto simp: exact_versions_def both_differ_def dep_op_def)
      ultimately show ?thesis using pair x y a b by simp
    qed
  qed
qed

section \<open>Intersection finds a package\<close>

lemma meets_intersects:
  assumes ix: "index_set (=) ix" and wf: "wf_dep a" "wf_dep b" "wf_candidate p" and ng: "no_glob a" "no_glob b"
    and m: "candidate_meets p a" "candidate_meets p b"
  shows "dep_intersects ix a b"
proof -
  have "\<not> both_differ version_intersects (dep_version a) (dep_version b)"
  proof
    assume "both_differ version_intersects (dep_version a) (dep_version b)"
    then obtain v w where v: "dep_version a = Some v" "dep_version b = Some w" "\<not> version_intersects v w"
      by (auto simp: both_differ_cases)
    have "satisfies v (cd_version p)" "satisfies w (cd_version p)" using m v by (simp_all add: candidate_meets_def)
    moreover have "ver_op v \<noteq> Some OpEqualGlob" "ver_op w \<noteq> Some OpEqualGlob" "wf_version v" "wf_version w"
      using ng wf v by (auto simp: no_glob_def dep_op_def wf_dep_def)
    ultimately show False using version_intersects_complete [of v w "cd_version p"] wf(3) v(3) by (simp add: wf_candidate_def)
  qed
  moreover have "\<not> both_differ (use_deps_intersects ix) (dep_use_deps a) (dep_use_deps b)"
    using m meet_no_conflict by (auto simp: both_differ_cases use_deps_intersects_iff [OF ix] candidate_meets_def)
  ultimately show ?thesis
    using m meets_not_differ [of "cd_slot p"] meets_not_differ [of "cd_subslot p"] meets_not_differ [of "cd_repo p"]
    by (simp add: dep_intersects_iff candidate_meets_def)
qed

lemma intersects_meets:
  assumes ix: "index_set (=) ix" and wf: "wf_dep a" "wf_dep b" and exact: "exact_versions a b"
    and uses: "pred_option consistent_uses (dep_use_deps a)" "pred_option consistent_uses (dep_use_deps b)"
    and int: "dep_intersects ix a b"
  shows "\<exists>p. wf_candidate p \<and> candidate_meets p a \<and> candidate_meets p b"
proof -
  note i = int [unfolded dep_intersects_iff]
  obtain u where u: "wf_version u" "ver_op u = None" "pred_option (\<lambda>v. satisfies v u) (dep_version a)"
      "pred_option (\<lambda>v. satisfies v u) (dep_version b)"
    using common_version_exists [OF wf exact] i by blast
  let ?s = "asked_flags (dep_use_deps a)" and ?t = "asked_flags (dep_use_deps b)"
  have "consistent_uses ?s" "consistent_uses ?t"
    using uses by (auto simp: asked_flags_def consistent_uses_def split: option.splits)
  moreover have "\<not> use_deps_conflict ?s ?t"
    using i calculation use_deps_conflict_sym
    by (auto simp: asked_flags_def both_differ_def use_deps_intersects_iff [OF ix] consistent_uses_def split: option.splits)
  ultimately have f: "list_all (flag_as_asked (common_flags ?s ?t)) (?s @ ?t)" by (rule common_flags_meet)
  let ?p = "\<lparr>cd_cpn = dep_cpn a, cd_version = u, cd_slot = common_value (dep_slot a) (dep_slot b),
    cd_subslot = common_value (dep_subslot a) (dep_subslot b), cd_repo = common_value (dep_repo a) (dep_repo b),
    cd_flags = common_flags ?s ?t\<rparr>"
  have "candidate_meets ?p a \<and> candidate_meets ?p b"
    using i u f common_value_meets
    by (auto simp: candidate_meets_def asked_flags_def pred_option_def list_all_append split: option.splits)
  then show ?thesis using u by (intro exI [of _ ?p]) (simp add: wf_candidate_def)
qed

end
