(* ===== verification/Dep_Props.thy ===== *)
theory Dep_Props
  imports Dep_Candidates
begin

text \<open>
  The properties of package names and dependencies, over the lemmas of \<open>Dep_Laws\<close>,
  \<open>Dep_Round\<close>, \<open>Dep_Text\<close> and \<open>Dep_Ops\<close>, each with a witness at parsed values.
\<close>

lemma default_repo_ids: "eapi_has default_eapi RepoIds"
  by code_simp

section \<open>Order\<close>

text \<open>C6: dependencies are totally ordered by the key of \<open>Dep\<close>, and the equality the
  code defines is the equality of that order.\<close>

theorem dep_order:
  assumes "wf_dep a" "wf_dep b" "wf_dep c"
  shows "dep_cmp a a = Equal \<and> dep_cmp b a = ord_reverse (dep_cmp a b) \<and>
    \<not> (dep_cmp a b \<noteq> Greater \<and> dep_cmp b c \<noteq> Greater \<and> dep_cmp a c = Greater) \<and>
    (dep_eq a b \<longleftrightarrow> dep_cmp a b = Equal)"
  using assms total_cmp.refl [OF total_cmp_dep] total_cmp.flip [OF total_cmp_dep, of a b]
    total_cmp.trans [OF total_cmp_dep, of a b c] dep_eq_iff by blast

lemma dep_order_witness:
  "dep_cmp (parsed_dep ''=a/b-1.10[y,x]'') (parsed_dep ''=a/b-1.9'') =
     ord_reverse (dep_cmp (parsed_dep ''=a/b-1.9'') (parsed_dep ''=a/b-1.10[y,x]''))"
  using dep_order [of "parsed_dep ''=a/b-1.9''" "parsed_dep ''=a/b-1.10[y,x]''" "parsed_dep ''!!a/c:0''"]
  by (rule conjunct2 [THEN conjunct1]) code_simp+

text \<open>Two insertion-ordered sets of USE dependencies compare as equal exactly when they
  have the same members, whatever the order of insertion.\<close>

lemma use_deps_eq_set_eq:
  assumes "distinct s" "distinct t"
  shows "sorted_set_eq use_dep_cmp s t \<longleftrightarrow> set s = set t"
proof -
  have eq: "eq_cmp use_dep_cmp = (=)" by (intro ext) simp
  show ?thesis
    using assms total_cmp.sorted_set_eq_iff [OF total_cmp_use_dep, of "\<lambda>_. True" s t]
    unfolding eq by (auto simp: list_all_iff)
qed

lemma use_deps_eq_set_eq_witness:
  "sorted_set_eq use_dep_cmp (the (dep_use_deps (parsed_dep ''a/b[x,-y]''))) (the (dep_use_deps (parsed_dep ''a/b[-y,x]'')))"
  by (rule use_deps_eq_set_eq [THEN iffD2]) code_simp+

section \<open>Intersection\<close>

text \<open>C7: every dependency intersects itself and the order of the two does not matter.\<close>

theorem dep_intersects_reflexive_symmetric:
  assumes "index_set (=) ix" "wf_dep a" "wf_dep b"
  shows "dep_intersects ix a a \<and> (dep_intersects ix a b \<longleftrightarrow> dep_intersects ix b a)"
  using assms dep_intersects_refl dep_intersects_sym by blast

lemma dep_intersects_reflexive_symmetric_witness:
  "dep_intersects ref_ix (parsed_dep ''>=a/b-1:0'') (parsed_dep ''=a/b-2*:0[x]'') \<longleftrightarrow>
   dep_intersects ref_ix (parsed_dep ''=a/b-2*:0[x]'') (parsed_dep ''>=a/b-1:0'')"
  by (rule dep_intersects_reflexive_symmetric [THEN conjunct2], rule ref_set.index_set_axioms) code_simp+

text \<open>C8: two dependencies intersect exactly when some package meets both: its name, version, slot, subslot
  and repository and the flags that it is built with are what each asks for (\<open>candidate_meets\<close>). Blockers,
  slot operators, the defaults of flags and USE dependencies under a condition play no part. Left out are
  globs, the pairs of bounds between which \<open>version_intersects_has_common\<close> may find nothing, and
  dependencies that themselves ask for a flag both on and off.\<close>

theorem dep_intersects_candidate:
  assumes "index_set (=) ix" "wf_dep a" "wf_dep b" "exact_versions a b"
    and "pred_option consistent_uses (dep_use_deps a)" "pred_option consistent_uses (dep_use_deps b)"
  shows "dep_intersects ix a b \<longleftrightarrow> (\<exists>p. wf_candidate p \<and> candidate_meets p a \<and> candidate_meets p b)"
  using intersects_meets [OF assms] meets_intersects [OF assms(1-3)] assms(4) unfolding exact_versions_def by blast

lemma dep_intersects_candidate_witness:
  "(\<exists>p. wf_candidate p \<and> candidate_meets p (parsed_dep ''>=a/b-1:0[x]'') \<and> candidate_meets p (parsed_dep ''<a/b-2:0/3[-y]''))"
proof (rule dep_intersects_candidate [THEN iffD1, OF ref_set.index_set_axioms])
  have "dep_use_deps (parsed_dep ''>=a/b-1:0[x]'') = Some [\<lparr>ud_flag = ''x'', ud_kind = UseEnabled, ud_enabled = True, ud_default = None\<rparr>]"
      "dep_use_deps (parsed_dep ''<a/b-2:0/3[-y]'') = Some [\<lparr>ud_flag = ''y'', ud_kind = UseEnabled, ud_enabled = False, ud_default = None\<rparr>]"
    by code_simp+
  then show "pred_option consistent_uses (dep_use_deps (parsed_dep ''>=a/b-1:0[x]''))"
      "pred_option consistent_uses (dep_use_deps (parsed_dep ''<a/b-2:0/3[-y]''))"
    by (simp_all add: consistent_uses_def use_deps_conflict_def)
qed (code_simp; fail)+

text \<open>Dependencies on the same versions that disagree on a slot, a subslot, a repository or a flag have no
  common package.\<close>

lemma dep_disagreements:
  "\<not> dep_intersects ref_ix (parsed_dep ''a/b:0'') (parsed_dep ''a/b:1'') \<and>
   \<not> dep_intersects ref_ix (parsed_dep ''a/b:0/1'') (parsed_dep ''a/b:0/2'') \<and>
   \<not> dep_intersects ref_ix (parsed_dep ''a/b::r'') (parsed_dep ''a/b::s'') \<and>
   \<not> dep_intersects ref_ix (parsed_dep ''a/b[x]'') (parsed_dep ''a/b[-x]'')"
  by code_simp

text \<open>Two sets of USE dependencies are incompatible exactly when a flag of their
  symmetric difference is required on by one plain USE dependency and off by another.\<close>

lemma use_deps_intersection:
  assumes "index_set (=) ix"
  shows "use_deps_intersects ix s t \<longleftrightarrow>
    \<not> (\<exists>u \<in> (set s - set t) \<union> (set t - set s). \<exists>w \<in> (set s - set t) \<union> (set t - set s).
        ud_kind u = UseEnabled \<and> ud_kind w = UseEnabled \<and> ud_flag u = ud_flag w \<and>
        ud_enabled u \<and> \<not> ud_enabled w)"
  using use_deps_intersects_iff [OF assms] by (simp add: use_deps_conflict_def)

section \<open>Parsing\<close>

text \<open>\<open>parse::cpv\<close> succeeds exactly on the printed forms of valid values and returns
  the value printed; the package name of such a value cannot be confused with the version,
  for all hyphens a name may hold.\<close>

lemma cpv_parse_print: "parse_cpv s = Inr c \<longleftrightarrow> valid_cpv c \<and> s = cpv_display c"
  by (rule parse_cpv_iff)

text \<open>C9: a dependency that parses prints as a string that parses as the same dependency in
  the same EAPI, and \<open>Display\<close> does not panic on it: blocker, operator and glob, slot,
  repository and USE dependencies are all kept.\<close>

theorem dep_parse_print:
  assumes "index_set (=) ix" "parse_dep ix e s = Inr d"
  shows "\<exists>t. dep_display d = Some t \<and> parse_dep ix e t = Inr d"
  using parse_dep_display_iff [OF assms(1)] parse_dep_valid [OF assms] by blast

lemma dep_parse_print_witness:
  "\<exists>t. dep_display (parsed_dep ''!!>=cat/pkg-1.2-r3:4/5=::repo[a,!b(+)?,a]'') = Some t \<and>
     parse_dep ref_ix ids_eapi t = Inr (parsed_dep ''!!>=cat/pkg-1.2-r3:4/5=::repo[a,!b(+)?,a]'')"
  by (rule dep_parse_print [of _ _ "''!!>=cat/pkg-1.2-r3:4/5=::repo[a,!b(+)?,a]''"], rule ref_set.index_set_axioms) code_simp

section \<open>Derived dependencies\<close>

text \<open>C10: whatever fields \<open>modify\<close> sets or unsets on a parsed dependency, when it
  succeeds its result prints as a string that parses as that result, in the same EAPI and through \<open>Dep::try_new\<close>.\<close>

theorem dep_modify_parses:
  assumes "index_set (=) ix" "eapi_has e RepoIds" "parse_dep ix e s = Inr d" "dep_modify ix d values = Inr d'"
  shows "\<exists>t. dep_display (cow_ref d') = Some t \<and> parse_dep ix e t = Inr (cow_ref d') \<and> dep_try_new ix t = Inr (cow_ref d')"
proof -
  have v: "valid_dep e (cow_ref d')"
    using dep_modify_valid [OF assms(1,2) parse_dep_valid [OF assms(1,3)] assms(4)] .
  then have w: "valid_dep default_eapi (cow_ref d')"
    using default_repo_ids by (cases "dep_repo (cow_ref d')") (simp_all add: valid_dep_def)
  have "dep_display (cow_ref d') = Some (dep_text (cow_ref d'))"
    using v by (simp add: valid_dep_def dep_display_text)
  then show ?thesis
    using valid_dep_reads [OF assms(1) v, of "[]"] valid_dep_reads [OF assms(1) w, of "[]"]
    by (simp add: dep_try_new_def parse_dep_def dep_end_def)
qed

lemma dep_modify_parses_witness:
  "\<exists>t. dep_display (cow_ref (projr (dep_modify ref_ix (parsed_dep ''a/b::c'') [(FieldVersion, Some ''~1.2'')]))) = Some t \<and>
     parse_dep ref_ix ids_eapi t = Inr (cow_ref (projr (dep_modify ref_ix (parsed_dep ''a/b::c'') [(FieldVersion, Some ''~1.2'')]))) \<and>
     dep_try_new ref_ix t = Inr (cow_ref (projr (dep_modify ref_ix (parsed_dep ''a/b::c'') [(FieldVersion, Some ''~1.2'')])))"
  by (rule dep_modify_parses [of _ _ "''a/b::c''" "parsed_dep ''a/b::c''" "[(FieldVersion, Some ''~1.2'')]"],
      rule ref_set.index_set_axioms) code_simp+

text \<open>\<open>without\<close> unsets exactly the given fields, borrows when none of them is set,
  and fails on a field that cannot be unset, with the message of the first such field.\<close>

lemma dep_without_fields:
  "dep_without ix d fs =
    (if list_all optional_field fs
     then Inr (if list_ex (field_is_set d) fs then Owned (fold unset_field fs d) else Borrowed d)
     else Inl (InvalidValue (if hd (dropWhile optional_field fs) = FieldCategory
       then ''category cannot be unset'' else ''package cannot be unset'') []))"
  by (simp add: dep_without_optional dep_without_required)

text \<open>The derived forms never panic: \<open>unversioned\<close> is the bare name and borrows when
  there is nothing to remove, \<open>versioned\<close> is the name with the version under \<open>=\<close>,
  \<open>no_use_deps\<close> drops the USE dependencies only.\<close>

lemma dep_derived_forms:
  "dep_unversioned ix d = Some (if d = dep_from_cpn (dep_cpn d) then Borrowed d else Owned (dep_from_cpn (dep_cpn d))) \<and>
   map_option cow_ref (dep_versioned ix d) = Some (versioned_dep d) \<and>
   map_option cow_ref (dep_no_use_deps ix d) = Some (d\<lparr>dep_use_deps := None\<rparr>)"
  using dep_unversioned_eq dep_versioned_eq [of ix d] dep_no_use_deps_eq [of ix d] by auto

text \<open>\<open>modify\<close> asks the dependency it was called on, not the value built so far,
  whether a field is set: a version set and then unset in one call stays set.\<close>

lemma modify_unset_ignored:
  assumes "dep_version d = None" "parse_version_with_op s = Inr v"
  shows "dep_modify ix d [(FieldVersion, Some s), (FieldVersion, None)] = Inr (Owned (d\<lparr>dep_version := Some v\<rparr>))"
  by (rule modify_set_then_unset [OF assms])

lemma modify_unset_ignored_witness:
  "dep_modify ref_ix (parsed_dep ''a/b'') [(FieldVersion, Some ''=1''), (FieldVersion, None)] =
     Inr (Owned ((parsed_dep ''a/b'')\<lparr>dep_version := Some (parsed_version ''=1'')\<rparr>))"
  by (rule modify_unset_ignored) code_simp+

end
