(* ===== verification/Dependency_Parse.thy ===== *)
theory Dependency_Parse
  imports Dependency_Eval Dep_Text
begin

text \<open>
  The grammar of dependency expressions in \<open>dep/parse.rs\<close>. Its rules are recursive: they
  are modelled with a bound on the nesting, one more than the length of the input, and
  shown to satisfy the equations of the grammar, so that the bound is never met. For the kinds
  of expression whose values cannot be taken for a group, what parses prints as a string that
  parses as the same expression.
\<close>

section \<open>Groups\<close>

definition p_parens :: "'a parser \<Rightarrow> 'a list parser" where
  "p_parens expr = p_then (p_lit ''('') (p_then p_blanks
     (p_before (p_before (p_sep1 expr p_blanks) p_blanks) (p_lit '')'')))"

definition p_all_of :: "'a dependency index_set \<Rightarrow> 'a dependency parser \<Rightarrow> 'a dependency parser" where
  "p_all_of ix expr = p_map (\<lambda>vals. AllOf (is_collect ix vals)) (p_parens expr)"

definition p_any_of :: "'a dependency index_set \<Rightarrow> 'a dependency parser \<Rightarrow> 'a dependency parser" where
  "p_any_of ix expr = p_then (p_lit ''||'') (p_then p_blanks
     (p_map (\<lambda>vals. AnyOf (is_collect ix vals)) (p_parens expr)))"

definition p_exactly_one_of :: "'a dependency index_set \<Rightarrow> 'a dependency parser \<Rightarrow> 'a dependency parser" where
  "p_exactly_one_of ix expr = p_then (p_lit ''^^'') (p_then p_blanks
     (p_map (\<lambda>vals. ExactlyOneOf (is_collect ix vals)) (p_parens expr)))"

definition p_at_most_one_of :: "'a dependency index_set \<Rightarrow> 'a dependency parser \<Rightarrow> 'a dependency parser" where
  "p_at_most_one_of ix expr = p_then (p_lit ''??'') (p_then p_blanks
     (p_map (\<lambda>vals. AtMostOneOf (is_collect ix vals)) (p_parens expr)))"

definition condition :: "bool \<Rightarrow> string \<Rightarrow> use_dep" where
  "condition enabled flag = \<lparr>ud_flag = flag, ud_kind = UseConditional, ud_enabled = enabled, ud_default = None\<rparr>"

definition p_conditional :: "'a dependency index_set \<Rightarrow> 'a dependency parser \<Rightarrow> 'a dependency parser" where
  "p_conditional ix expr =
     p_bind (p_opt (p_lit ''!'')) (\<lambda>disabled.
     p_bind p_use_flag (\<lambda>flag.
     p_then (p_lit ''?'') (p_then p_blanks
       (p_map (\<lambda>vals. Conditional (condition (disabled = None) flag) (is_collect ix vals)) (p_parens expr)))))"

datatype group_kind = GConditional | GAnyOf | GAllOf | GExactlyOneOf | GAtMostOneOf

fun p_group :: "'a dependency index_set \<Rightarrow> group_kind \<Rightarrow> 'a dependency parser \<Rightarrow> 'a dependency parser" where
  "p_group ix GConditional = p_conditional ix"
| "p_group ix GAnyOf = p_any_of ix"
| "p_group ix GAllOf = p_all_of ix"
| "p_group ix GExactlyOneOf = p_exactly_one_of ix"
| "p_group ix GAtMostOneOf = p_at_most_one_of ix"

section \<open>Recursive rules\<close>

text \<open>A rule that tries its kinds of group in order, then a value; the groups hold
  expressions of the rule itself, up to a depth.\<close>

fun p_first :: "'a parser list \<Rightarrow> 'a parser" where
  "p_first [] = p_fail"
| "p_first (p # ps) = p_alt p (p_first ps)"

primrec p_nested :: "'a dependency index_set \<Rightarrow> group_kind list \<Rightarrow> 'a dependency parser \<Rightarrow> nat \<Rightarrow> 'a dependency parser" where
  "p_nested ix kinds leaf 0 s = None"
| "p_nested ix kinds leaf (Suc n) s = p_first (map (\<lambda>k. p_group ix k (p_nested ix kinds leaf n)) kinds @ [leaf]) s"

lemma p_nested_0: "p_nested ix kinds leaf 0 = p_fail"
  by (rule ext) (simp add: p_fail_def)

lemma p_nested_Suc: "p_nested ix kinds leaf (Suc n) = p_first (map (\<lambda>k. p_group ix k (p_nested ix kinds leaf n)) kinds @ [leaf])"
  by (rule ext) simp

definition p_dependency :: "'a dependency index_set \<Rightarrow> group_kind list \<Rightarrow> 'a dependency parser \<Rightarrow> 'a dependency parser" where
  "p_dependency ix kinds leaf s = p_nested ix kinds leaf (Suc (length s)) s"

definition p_dependency_set :: "'a dependency index_set \<Rightarrow> 'a dependency parser \<Rightarrow> 'a dependency list parser" where
  "p_dependency_set ix expr = p_map (is_collect ix) (p_sep0 expr p_blanks)"

section \<open>The rules of the grammar\<close>

definition p_license_name :: "string parser" where
  "p_license_name = p_name word_char name_char"

definition p_license_dependency :: "string dependency index_set \<Rightarrow> string dependency parser" where
  "p_license_dependency ix = p_dependency ix [GConditional, GAnyOf, GAllOf] (p_map Enabled p_license_name)"

definition p_nonblanks :: "string parser" where
  "p_nonblanks = p_plus (p_class (\<lambda>c. \<not> is_blank c))"

definition p_uri :: "uri parser" where
  "p_uri = p_bind (p_slice (p_then (p_not (p_lit '')'')) (p_plus p_nonblanks))) (\<lambda>s.
     p_bind (p_opt (p_then p_blanks (p_then (p_lit ''->'') (p_then p_blanks (p_slice (p_plus p_nonblanks)))))) (\<lambda>rename.
       p_return (uri_new s rename)))"

definition p_src_uri_dependency :: "uri dependency index_set \<Rightarrow> uri dependency parser" where
  "p_src_uri_dependency ix = p_dependency ix [GConditional, GAllOf] (p_map Enabled p_uri)"

definition p_properties_dependency :: "string dependency index_set \<Rightarrow> string dependency parser" where
  "p_properties_dependency ix = p_dependency ix [GConditional, GAllOf] (p_map Enabled p_license_name)"

definition p_required_use_dependency :: "string dependency index_set \<Rightarrow> string dependency parser" where
  "p_required_use_dependency ix = p_dependency ix
     [GConditional, GAnyOf, GAllOf, GExactlyOneOf, GAtMostOneOf]
     (p_alt (p_then (p_lit ''!'') (p_map Disabled p_use_flag)) (p_map Enabled p_use_flag))"

definition p_restrict_dependency :: "string dependency index_set \<Rightarrow> string dependency parser" where
  "p_restrict_dependency ix = p_dependency ix [GConditional, GAllOf] (p_map Enabled p_license_name)"

definition p_package_dependency :: "use_dep index_set \<Rightarrow> dep dependency index_set \<Rightarrow> eapi \<Rightarrow> dep dependency parser" where
  "p_package_dependency ux ix e = p_dependency ix [GConditional, GAnyOf, GAllOf] (p_map Enabled (p_dep ux e))"

section \<open>Entry points\<close>

definition parse_license_dependency :: "string dependency index_set \<Rightarrow> string \<Rightarrow> error + string dependency" where
  "parse_license_dependency ix s = peg_result ''invalid LICENSE dependency'' s (p_run (p_license_dependency ix) s)"

definition parse_license_dependency_set :: "string dependency index_set \<Rightarrow> string \<Rightarrow> error + string dependency list" where
  "parse_license_dependency_set ix s =
     peg_result ''invalid LICENSE'' s (p_run (p_dependency_set ix (p_license_dependency ix)) s)"

definition parse_src_uri_dependency :: "uri dependency index_set \<Rightarrow> string \<Rightarrow> error + uri dependency" where
  "parse_src_uri_dependency ix s = peg_result ''invalid SRC_URI dependency'' s (p_run (p_src_uri_dependency ix) s)"

definition parse_src_uri_dependency_set :: "uri dependency index_set \<Rightarrow> string \<Rightarrow> error + uri dependency list" where
  "parse_src_uri_dependency_set ix s =
     peg_result ''invalid SRC_URI'' s (p_run (p_dependency_set ix (p_src_uri_dependency ix)) s)"

definition parse_properties_dependency :: "string dependency index_set \<Rightarrow> string \<Rightarrow> error + string dependency" where
  "parse_properties_dependency ix s = peg_result ''invalid PROPERTIES dependency'' s (p_run (p_properties_dependency ix) s)"

definition parse_properties_dependency_set :: "string dependency index_set \<Rightarrow> string \<Rightarrow> error + string dependency list" where
  "parse_properties_dependency_set ix s =
     peg_result ''invalid PROPERTIES'' s (p_run (p_dependency_set ix (p_properties_dependency ix)) s)"

definition parse_required_use_dependency :: "string dependency index_set \<Rightarrow> string \<Rightarrow> error + string dependency" where
  "parse_required_use_dependency ix s =
     peg_result ''invalid REQUIRED_USE dependency'' s (p_run (p_required_use_dependency ix) s)"

definition parse_required_use_dependency_set :: "string dependency index_set \<Rightarrow> string \<Rightarrow> error + string dependency list" where
  "parse_required_use_dependency_set ix s =
     peg_result ''invalid REQUIRED_USE'' s (p_run (p_dependency_set ix (p_required_use_dependency ix)) s)"

definition parse_restrict_dependency :: "string dependency index_set \<Rightarrow> string \<Rightarrow> error + string dependency" where
  "parse_restrict_dependency ix s = peg_result ''invalid RESTRICT dependency'' s (p_run (p_restrict_dependency ix) s)"

definition parse_restrict_dependency_set :: "string dependency index_set \<Rightarrow> string \<Rightarrow> error + string dependency list" where
  "parse_restrict_dependency_set ix s =
     peg_result ''invalid RESTRICT'' s (p_run (p_dependency_set ix (p_restrict_dependency ix)) s)"

definition parse_package_dependency ::
    "use_dep index_set \<Rightarrow> dep dependency index_set \<Rightarrow> string \<Rightarrow> eapi \<Rightarrow> error + dep dependency" where
  "parse_package_dependency ux ix s e =
     peg_result ''invalid package dependency'' s (p_run (p_package_dependency ux ix e) s)"

definition parse_package_dependency_set ::
    "use_dep index_set \<Rightarrow> dep dependency index_set \<Rightarrow> string \<Rightarrow> eapi \<Rightarrow> error + dep dependency list" where
  "parse_package_dependency_set ux ix s e =
     peg_result ''invalid dependency'' s (p_run (p_dependency_set ix (p_package_dependency ux ix e)) s)"

section \<open>The bound is never met\<close>

definition same_below :: "nat \<Rightarrow> 'a parser \<Rightarrow> 'a parser \<Rightarrow> bool" where
  "same_below n p q \<longleftrightarrow> (\<forall>s. length s < n \<longrightarrow> p s = q s)"

lemma same_belowD: "same_below n p q \<Longrightarrow> length s < n \<Longrightarrow> p s = q s"
  by (simp add: same_below_def)

lemma same_below_refl [simp]: "same_below n p p"
  by (simp add: same_below_def)

lemma suffix_rest_length: "suffix_rest p \<Longrightarrow> p s = Some (x, r) \<Longrightarrow> length r \<le> length s"
  by (rule suffix_length_le [OF suffix_restD])

lemma same_below_bind:
  assumes "same_below n p q" "suffix_rest q" "\<And>x. same_below n (f x) (g x)"
  shows "same_below n (p_bind p f) (p_bind q g)"
  unfolding same_below_def
proof (intro allI impI)
  fix s :: string assume s: "length s < n"
  show "p_bind p f s = p_bind q g s"
  proof (cases "q s")
    case (Some z)
    obtain x r where z: "z = (x, r)" by (cases z)
    then have "length r < n" using suffix_rest_length [OF assms(2)] Some s by fastforce
    then show ?thesis using same_belowD [OF assms(1) s] same_belowD [OF assms(3)] Some z by (simp add: p_bind_def)
  qed (use same_belowD [OF assms(1) s] in \<open>simp add: p_bind_def\<close>)
qed

lemma same_below_star:
  assumes "same_below n p q"
  shows "length s < n \<Longrightarrow> p_star p s = p_star q s"
proof (induction "length s" arbitrary: s rule: less_induct)
  case less
  have "p s = q s" using assms less.prems by (rule same_belowD)
  moreover have "p_star p r = p_star q r" if "length r < length s" for r
    using less that by simp
  ultimately show ?case
    by (subst (1 2) p_star.simps) (auto split: option.splits)
qed

lemma rest_sep1: "suffix_rest p \<Longrightarrow> suffix_rest q \<Longrightarrow> suffix_rest (p_sep1 p q)"
  unfolding p_sep1_def by (intro rest_bind rest_many rest_then rest_return)

lemma same_below_sep1:
  assumes "same_below n p q" "suffix_rest q" "suffix_rest sep"
  shows "same_below n (p_sep1 p sep) (p_sep1 q sep)"
proof -
  have "same_below n (p_then sep p) (p_then sep q)"
    unfolding p_then_def by (rule same_below_bind) (use assms in simp_all)
  then have "same_below n (p_many (p_then sep p)) (p_many (p_then sep q))"
    using same_below_star unfolding same_below_def p_many_def by blast
  then show ?thesis
    unfolding p_sep1_def
    by (intro same_below_bind assms rest_many rest_then) simp_all
qed

text \<open>What comes after a literal is read from a shorter input.\<close>

lemma same_below_lit:
  assumes "same_below n p q" "w \<noteq> []"
  shows "same_below (Suc n) (p_then (p_lit w) p) (p_then (p_lit w) q)"
  unfolding same_below_def
proof (intro allI impI)
  fix s :: string assume s: "length s < Suc n"
  show "p_then (p_lit w) p s = p_then (p_lit w) q s"
  proof (cases "p_lit w s")
    case (Some z)
    then obtain r where r: "z = (w, r)" "s = w @ r" by (cases z) (simp add: p_lit_Some)
    then have "length r < n" using s assms(2) by (cases w) simp_all
    then show ?thesis using same_belowD [OF assms(1)] Some r(1) by (simp add: p_then_def p_bind_def)
  qed (simp add: p_then_def p_bind_def)
qed

lemma same_below_mono: "same_below n p q \<Longrightarrow> m \<le> n \<Longrightarrow> same_below m p q"
  by (simp add: same_below_def)

lemma suffix_blanks [rest_intros]: "suffix_rest p_blanks"
  unfolding p_blanks_def by (intro progress_suffix_rest progress_plus rest_class)

lemma same_below_parens:
  assumes "same_below n p q" "suffix_rest q"
  shows "same_below (Suc n) (p_parens p) (p_parens q)"
proof -
  have "same_below n (p_before (p_before (p_sep1 p p_blanks) p_blanks) (p_lit '')''))
      (p_before (p_before (p_sep1 q p_blanks) p_blanks) (p_lit '')''))"
    unfolding p_before_def
    by (intro same_below_bind same_below_sep1 assms suffix_blanks rest_bind rest_sep1 rest_lit rest_return) simp_all
  then show ?thesis
    unfolding p_parens_def
    by (intro same_below_lit) (simp_all add: p_then_def same_below_bind suffix_blanks)
qed

lemma rest_parens [rest_intros]: "suffix_rest p \<Longrightarrow> suffix_rest (p_parens p)"
  by (simp add: p_parens_def rest_then rest_before rest_sep1 rest_lit suffix_blanks)

lemma rest_use_flag [rest_intros]: "suffix_rest p_use_flag"
  unfolding p_use_flag_def by (intro progress_suffix_rest progress_name)

lemma rest_group [rest_intros]: "suffix_rest p \<Longrightarrow> suffix_rest (p_group ix k p)"
  by (cases k)
    (simp_all add: p_conditional_def p_any_of_def p_all_of_def p_exactly_one_of_def p_at_most_one_of_def
      rest_bind rest_opt rest_lit rest_use_flag rest_then suffix_blanks rest_map rest_parens)

lemma same_below_map: "same_below n p q \<Longrightarrow> same_below n (p_map f p) (p_map f q)"
  by (simp add: same_below_def p_map_def p_bind_def)

lemma same_below_then: "same_below n p q \<Longrightarrow> suffix_rest w \<Longrightarrow> same_below n (p_then w p) (p_then w q)"
  unfolding p_then_def by (intro same_below_bind) simp_all

lemma same_below_group:
  assumes "same_below n p q" "suffix_rest q"
  shows "same_below (Suc n) (p_group ix k p) (p_group ix k q)"
proof -
  note parens = same_below_map [OF same_below_parens [OF assms]]
  show ?thesis
    by (cases k)
      (simp_all add: p_conditional_def p_any_of_def p_all_of_def p_exactly_one_of_def p_at_most_one_of_def
        parens same_below_then suffix_blanks rest_lit same_below_bind rest_opt rest_use_flag)
qed

lemma p_first_append: "p_first (ps @ [q]) s = (case p_first ps s of None \<Rightarrow> q s | Some z \<Rightarrow> Some z)"
  by (induction ps) (simp_all add: p_alt_def p_fail_def split: option.splits)

lemma rest_first: "list_all suffix_rest ps \<Longrightarrow> suffix_rest (p_first ps)"
  by (induction ps) (simp_all add: rest_alt progress_suffix_rest rest_fail)

lemma rest_nested: "suffix_rest leaf \<Longrightarrow> suffix_rest (p_nested ix kinds leaf n)"
proof (induction n)
  case (Suc n)
  then show ?case
    unfolding p_nested_Suc by (intro rest_first) (simp add: list_all_iff rest_group)
qed (simp add: p_nested_0 progress_suffix_rest rest_fail)

lemma same_below_first: "list_all2 (same_below n) ps qs \<Longrightarrow> same_below n (p_first ps) (p_first qs)"
proof (induction rule: list_all2_induct)
  case (Cons p ps q qs)
  show ?case unfolding same_below_def
  proof (intro allI impI)
    fix s :: string assume s: "length s < n"
    show "p_first (p # ps) s = p_first (q # qs) s"
      using same_belowD [OF Cons(1) s] same_belowD [OF Cons(3) s] by (simp add: p_alt_def split: option.split)
  qed
qed simp

lemma list_all2_maps: "(\<And>x. R (f x) (g x)) \<Longrightarrow> R y y \<Longrightarrow> list_all2 R (map f xs @ [y]) (map g xs @ [y])"
  by (induction xs) simp_all

lemma same_below_nested:
  "suffix_rest leaf \<Longrightarrow> k \<le> n \<Longrightarrow> k \<le> m \<Longrightarrow> same_below k (p_nested ix kinds leaf n) (p_nested ix kinds leaf m)"
proof (induction k arbitrary: n m)
  case (Suc k)
  obtain n' m' where n: "n = Suc n'" "m = Suc m'" using Suc.prems by (cases n; cases m) auto
  have "same_below k (p_nested ix kinds leaf n') (p_nested ix kinds leaf m')"
    using Suc n by simp
  then have "same_below (Suc k) (p_group ix g (p_nested ix kinds leaf n')) (p_group ix g (p_nested ix kinds leaf m'))" for g
    using same_below_group rest_nested [OF Suc.prems(1)] by blast
  then have "list_all2 (same_below (Suc k))
      (map (\<lambda>g. p_group ix g (p_nested ix kinds leaf n')) kinds @ [leaf])
      (map (\<lambda>g. p_group ix g (p_nested ix kinds leaf m')) kinds @ [leaf])"
    by (intro list_all2_maps) simp_all
  then show ?case unfolding n p_nested_Suc by (rule same_below_first)
qed (simp add: same_below_def)

lemma p_nested_enough:
  "suffix_rest leaf \<Longrightarrow> length s < n \<Longrightarrow> p_nested ix kinds leaf n s = p_dependency ix kinds leaf s"
  using same_belowD [OF same_below_nested [of leaf "Suc (length s)" n "Suc (length s)"], of s]
  by (simp add: p_dependency_def)

text \<open>The equation of the grammar.\<close>

lemma p_dependency_unfold:
  assumes "suffix_rest leaf"
  shows "p_dependency ix kinds leaf s =
    p_first (map (\<lambda>k. p_group ix k (p_dependency ix kinds leaf)) kinds @ [leaf]) s"
proof -
  have "same_below (length s) (p_nested ix kinds leaf (length s)) (p_dependency ix kinds leaf)"
    unfolding same_below_def using p_nested_enough [OF assms] by blast
  moreover have rest: "suffix_rest (p_dependency ix kinds leaf)"
    using suffix_restD [OF rest_nested [OF assms]] by (auto simp only: suffix_rest_def p_dependency_def)
  ultimately have "same_below (Suc (length s)) (p_group ix g (p_nested ix kinds leaf (length s)))
      (p_group ix g (p_dependency ix kinds leaf))" for g
    using same_below_group by blast
  then have "list_all2 (same_below (Suc (length s)))
      (map (\<lambda>g. p_group ix g (p_nested ix kinds leaf (length s))) kinds @ [leaf])
      (map (\<lambda>g. p_group ix g (p_dependency ix kinds leaf)) kinds @ [leaf])"
    by (intro list_all2_maps) simp_all
  from same_belowD [OF same_below_first [OF this], of s] show ?thesis
    by (simp add: p_dependency_def)
qed

section \<open>What a rule reads\<close>

fun kind_of :: "'a dependency \<Rightarrow> group_kind option" where
  "kind_of (Enabled v) = None"
| "kind_of (Disabled v) = None"
| "kind_of (AllOf vs) = Some GAllOf"
| "kind_of (AnyOf vs) = Some GAnyOf"
| "kind_of (ExactlyOneOf vs) = Some GExactlyOneOf"
| "kind_of (AtMostOneOf vs) = Some GAtMostOneOf"
| "kind_of (Conditional u vs) = Some GConditional"

definition valid_condition :: "use_dep \<Rightarrow> bool" where
  "valid_condition u \<longleftrightarrow> u = condition (ud_enabled u) (ud_flag u) \<and> is_name flag_first flag_char (ud_flag u)"

text \<open>Expressions of the given kinds of group over valid values \<open>L\<close>: groups are not empty
  and hold every member once.\<close>

fun valid_expr :: "('a dependency \<Rightarrow> 'a dependency \<Rightarrow> bool) \<Rightarrow> group_kind set \<Rightarrow> ('a dependency \<Rightarrow> bool) \<Rightarrow> 'a dependency \<Rightarrow> bool" where
  "valid_expr eq K L (Enabled v) = L (Enabled v)"
| "valid_expr eq K L (Disabled v) = L (Disabled v)"
| "valid_expr eq K L (AllOf vs) = (GAllOf \<in> K \<and> vs \<noteq> [] \<and> distinct_by eq vs \<and> list_all (valid_expr eq K L) vs)"
| "valid_expr eq K L (AnyOf vs) = (GAnyOf \<in> K \<and> vs \<noteq> [] \<and> distinct_by eq vs \<and> list_all (valid_expr eq K L) vs)"
| "valid_expr eq K L (ExactlyOneOf vs) = (GExactlyOneOf \<in> K \<and> vs \<noteq> [] \<and> distinct_by eq vs \<and> list_all (valid_expr eq K L) vs)"
| "valid_expr eq K L (AtMostOneOf vs) = (GAtMostOneOf \<in> K \<and> vs \<noteq> [] \<and> distinct_by eq vs \<and> list_all (valid_expr eq K L) vs)"
| "valid_expr eq K L (Conditional u vs) = (GConditional \<in> K \<and> valid_condition u \<and> vs \<noteq> [] \<and>
     distinct_by eq vs \<and> list_all (valid_expr eq K L) vs)"

definition valid_set :: "('a dependency \<Rightarrow> 'a dependency \<Rightarrow> bool) \<Rightarrow> group_kind set \<Rightarrow> ('a dependency \<Rightarrow> bool) \<Rightarrow> 'a dependency list \<Rightarrow> bool" where
  "valid_set eq K L vs \<longleftrightarrow> distinct_by eq vs \<and> list_all (valid_expr eq K L) vs"

lemma valid_flats: "valid_set eq K L vs \<Longrightarrow> v \<in> set (concat (map flat vs)) \<Longrightarrow> \<exists>d. L d \<and> flat d = [v]"
proof -
  have "valid_expr eq K L d \<Longrightarrow> v \<in> set (flat d) \<Longrightarrow> \<exists>d. L d \<and> flat d = [v]" for d
    by (induction d) (auto simp: list_all_iff intro: exI [of _ "Enabled v"] exI [of _ "Disabled v"])
  then show "valid_set eq K L vs \<Longrightarrow> v \<in> set (concat (map flat vs)) \<Longrightarrow> ?thesis"
    by (auto simp: valid_set_def list_all_iff)
qed

text \<open>A list of elements, each followed by white space or by what may end the list:
  \<open>E\<close> holds of a text a separator reads, and \<open>Q\<close> of a value read in front of
  such a text, from an input no longer than \<open>n\<close>.\<close>

definition marks :: "'b parser \<Rightarrow> (string \<Rightarrow> bool) \<Rightarrow> bool" where
  "marks sep E \<longleftrightarrow> (\<forall>u z r. sep u = Some (z, r) \<longrightarrow> E u)"

definition in_context :: "'a parser \<Rightarrow> (string \<Rightarrow> bool) \<Rightarrow> ('a \<Rightarrow> bool) \<Rightarrow> nat \<Rightarrow> bool" where
  "in_context p E Q n \<longleftrightarrow> (\<forall>s x r. length s \<le> n \<longrightarrow> p s = Some (x, r) \<longrightarrow> E r \<longrightarrow> Q x)"

lemma marksD: "marks sep E \<Longrightarrow> sep u = Some (z, r) \<Longrightarrow> E u"
  by (auto simp: marks_def)

lemma in_contextD: "in_context p E Q n \<Longrightarrow> length s \<le> n \<Longrightarrow> p s = Some (x, r) \<Longrightarrow> E r \<Longrightarrow> Q x"
  by (auto simp: in_context_def)

lemma in_context_mono: "in_context p E Q n \<Longrightarrow> m \<le> n \<Longrightarrow> in_context p E Q m"
  unfolding in_context_def
proof (intro allI impI)
  fix s x r assume h: "\<forall>s x r. length s \<le> n \<longrightarrow> p s = Some (x, r) \<longrightarrow> E r \<longrightarrow> Q x"
    "m \<le> n" "length s \<le> m" "p s = Some (x, r)" "E r"
  then have "length s \<le> n" by simp
  with h show "Q x" by blast
qed

lemma star_context:
  assumes "marks sep E" "suffix_rest sep" "in_context p E Q n" "E r"
  shows "p_star (p_then sep p) s = (xs, r) \<Longrightarrow> length s \<le> n \<Longrightarrow> list_all Q xs \<and> E s"
proof (induction "length s" arbitrary: s xs rule: less_induct)
  case less
  show ?case
  proof (cases "p_then sep p s")
    case None
    then show ?thesis using less.prems assms(4) by (simp add: p_star_stop)
  next
    case (Some z)
    obtain x s' where z: "z = (x, s')" by (cases z)
    obtain w u where w: "sep s = Some (w, u)" "p u = Some (x, s')"
      using Some z by (auto simp: p_then_def p_bind_def split: option.splits)
    have E: "E s" by (rule marksD [OF assms(1) w(1)])
    show ?thesis
    proof (cases "length s' < length s")
      case True
      obtain ys where ys: "p_star (p_then sep p) s' = (ys, r)" "xs = x # ys"
        using less.prems(1) Some z True by (subst (asm) p_star.simps) (auto split: prod.splits)
      have "length s' \<le> n" using True less.prems(2) by simp
      from less.hyps [OF True ys(1) this] have ih: "list_all Q ys" "E s'" by simp_all
      have "length u \<le> n" using suffix_rest_length [OF assms(2) w(1)] less.prems(2) by simp
      from in_contextD [OF assms(3) this w(2) ih(2)] ih ys(2) E show ?thesis by simp
    next
      case False
      then have "xs = []" using less.prems(1) Some z by (subst (asm) p_star.simps) auto
      then show ?thesis using E by simp
    qed
  qed
qed

lemma sep1_context:
  assumes "marks sep E" "suffix_rest sep" "in_context p E Q (length s)" "E r" "suffix_rest p"
    and "p_sep1 p sep s = Some (xs, r)"
  shows "xs \<noteq> [] \<and> list_all Q xs"
proof -
  obtain x s1 ys where x: "p s = Some (x, s1)" and ys: "p_star (p_then sep p) s1 = (ys, r)" and xs: "xs = x # ys"
    using assms(6) by (auto simp: p_sep1_def p_bind_def p_return_def p_many_def split: option.splits prod.splits)
  have "length s1 \<le> length s" using suffix_rest_length [OF assms(5) x] .
  from star_context [OF assms(1-4) ys this] have "list_all Q ys" "E s1" by simp_all
  with in_contextD [OF assms(3) _ x] xs show ?thesis by simp
qed

lemma marks_blanks: "marks p_blanks dep_end"
  using p_plus_class [of is_blank] unfolding marks_def dep_end_def p_blanks_def by (metis option.distinct(1))

lemma p_parens_context:
  assumes "p_parens p s = Some (xs, r)" "suffix_rest p" "length s \<le> Suc n" "in_context p dep_end Q n"
  shows "xs \<noteq> [] \<and> list_all Q xs"
proof -
  obtain s1 w s2 s3 w2 s4 where s: "s = CHR ''('' # s1" "p_blanks s1 = Some (w, s2)"
    "p_sep1 p p_blanks s2 = Some (xs, s3)" "p_blanks s3 = Some (w2, s4)"
    using assms(1) by (auto simp: p_parens_def p_then_def p_before_def p_bind_def p_return_def p_lit_Some split: option.splits)
  have "length s2 \<le> n" using suffix_rest_length [OF suffix_blanks s(2)] s(1) assms(3) by simp
  then have "in_context p dep_end Q (length s2)" by (rule in_context_mono [OF assms(4)])
  from sep1_context [OF marks_blanks suffix_blanks this marksD [OF marks_blanks s(4)] assms(2) s(3)]
  show ?thesis .
qed

text \<open>The group of a kind.\<close>

fun mk_group :: "group_kind \<Rightarrow> use_dep \<Rightarrow> 'a dependency list \<Rightarrow> 'a dependency" where
  "mk_group GConditional u = Conditional u"
| "mk_group GAnyOf u = AnyOf"
| "mk_group GAllOf u = AllOf"
| "mk_group GExactlyOneOf u = ExactlyOneOf"
| "mk_group GAtMostOneOf u = AtMostOneOf"

lemma valid_expr_group: "valid_expr eq K L (mk_group k u vs) \<longleftrightarrow>
    k \<in> K \<and> (k = GConditional \<longrightarrow> valid_condition u) \<and> vs \<noteq> [] \<and> distinct_by eq vs \<and> list_all (valid_expr eq K L) vs"
  by (cases k) auto

lemma group_cases: "kind_of d = Some k \<Longrightarrow> \<exists>u. d = mk_group k u (dependency_iter d)"
  by (cases d) auto

lemma condition_valid: "is_name flag_first flag_char flag \<Longrightarrow> valid_condition (condition enabled flag)"
  by (simp add: valid_condition_def condition_def)

lemma condition_display: "use_dep_display (condition enabled flag) = (if enabled then [] else ''!'') @ flag @ ''?''"
  by (simp add: use_dep_display_text condition_def default_text_def)

lemma p_then_SomeD: "p_then w p s = Some (z, r) \<Longrightarrow> suffix_rest w \<Longrightarrow> \<exists>s'. length s' \<le> length s \<and> p s' = Some (z, r)"
  by (auto simp: p_then_def p_bind_def split: option.splits dest: suffix_rest_length)

lemma p_map_SomeD: "p_map f p s = Some (z, r) \<Longrightarrow> \<exists>x. p s = Some (x, r) \<and> z = f x"
  by (auto simp: p_map_def p_bind_def p_return_def split: option.splits)

lemma p_group_SomeD:
  assumes "p_group ix k p s = Some (d, r)"
  shows "\<exists>s' vs u. length s' \<le> length s \<and> p_parens p s' = Some (vs, r) \<and> d = mk_group k u (is_collect ix vs) \<and> valid_condition u"
proof -
  have any: "valid_condition (condition True ''a'')"
    by (rule condition_valid) (simp add: is_name_def flag_first_def is_lower_def)
  have lit: "\<exists>s' vs u. length s' \<le> length s \<and> p_parens p s' = Some (vs, r) \<and> d = g (is_collect ix vs) \<and> valid_condition u"
    if h: "p_then (p_lit w) (p_then p_blanks (p_map (\<lambda>vals. g (is_collect ix vals)) (p_parens p))) s = Some (d, r)" for w g
  proof -
    obtain s1 where s1: "length s1 \<le> length s" "p_then p_blanks (p_map (\<lambda>vals. g (is_collect ix vals)) (p_parens p)) s1 = Some (d, r)"
      using p_then_SomeD [OF h rest_lit] by blast
    obtain s2 where s2: "length s2 \<le> length s1" "p_map (\<lambda>vals. g (is_collect ix vals)) (p_parens p) s2 = Some (d, r)"
      using p_then_SomeD [OF s1(2) suffix_blanks] by blast
    obtain vs where "p_parens p s2 = Some (vs, r)" "d = g (is_collect ix vs)" using p_map_SomeD [OF s2(2)] by blast
    moreover have "length s2 \<le> length s" using s1(1) s2(1) by simp
    ultimately show ?thesis using any by blast
  qed
  show ?thesis
  proof (cases k)
    case GConditional
    then have c: "p_conditional ix p s = Some (d, r)" using assms by simp
    obtain dis s1 flag s2 where s1: "p_opt (p_lit ''!'') s = Some (dis, s1)" "p_use_flag s1 = Some (flag, s2)"
      "p_then (p_lit ''?'') (p_then p_blanks (p_map (\<lambda>vals. Conditional (condition (dis = None) flag) (is_collect ix vals)) (p_parens p))) s2 = Some (d, r)"
      using c by (auto simp: p_conditional_def p_bind_def split: option.splits)
    have len: "length s2 \<le> length s"
      using suffix_rest_length [OF rest_opt [OF rest_lit] s1(1)] suffix_rest_length [OF rest_use_flag s1(2)] by simp
    obtain s3 where s3: "length s3 \<le> length s2"
      "p_then p_blanks (p_map (\<lambda>vals. Conditional (condition (dis = None) flag) (is_collect ix vals)) (p_parens p)) s3 = Some (d, r)"
      using p_then_SomeD [OF s1(3) rest_lit] by blast
    obtain s4 where s4: "length s4 \<le> length s3"
      "p_map (\<lambda>vals. Conditional (condition (dis = None) flag) (is_collect ix vals)) (p_parens p) s4 = Some (d, r)"
      using p_then_SomeD [OF s3(2) suffix_blanks] by blast
    have "valid_condition (condition (dis = None) flag)"
      using printsD [OF p_name_prints s1(2) [unfolded p_use_flag_def]] by (intro condition_valid) simp
    moreover obtain vs where "p_parens p s4 = Some (vs, r)"
      "d = mk_group k (condition (dis = None) flag) (is_collect ix vs)"
      using p_map_SomeD [OF s4(2)] GConditional by auto
    moreover have "length s4 \<le> length s" using s4(1) s3(1) len by simp
    ultimately show ?thesis by blast
  next
    case GAllOf
    then obtain vs where "p_parens p s = Some (vs, r)" "d = mk_group k (condition True ''a'') (is_collect ix vs)"
      using assms p_map_SomeD [of _ "p_parens p" s d r] by (auto simp: p_all_of_def)
    with any show ?thesis by blast
  next
    case GAnyOf
    then show ?thesis using assms lit [of "''||''" AnyOf] by (simp add: p_any_of_def)
  next
    case GExactlyOneOf
    then show ?thesis using assms lit [of "''^^''" ExactlyOneOf] by (simp add: p_exactly_one_of_def)
  next
    case GAtMostOneOf
    then show ?thesis using assms lit [of "''??''" AtMostOneOf] by (simp add: p_at_most_one_of_def)
  qed
qed

text \<open>The first character of a group.\<close>

fun starts :: "group_kind \<Rightarrow> char \<Rightarrow> bool" where
  "starts GConditional c = (c = CHR ''!'' \<or> flag_first c)"
| "starts GAnyOf c = (c = CHR ''|'')"
| "starts GAllOf c = (c = CHR ''('')"
| "starts GExactlyOneOf c = (c = CHR ''^'')"
| "starts GAtMostOneOf c = (c = CHR ''?'')"

lemma starts_unique: "starts k c \<Longrightarrow> starts k' c \<Longrightarrow> k = k'"
  by (cases k; cases k') (auto simp: flag_first_def char_classes)

lemma p_group_None: "s = [] \<or> \<not> starts k (hd s) \<Longrightarrow> p_group ix k p s = None"
proof (cases k)
  case GConditional
  assume "s = [] \<or> \<not> starts k (hd s)"
  then have "p_lit ''!'' s = None" "p_use_flag s = None"
    using GConditional by (auto simp: p_lit_hd p_use_flag_def p_name_eq split: list.splits)
  then show ?thesis using GConditional by (simp add: p_conditional_def p_bind_def p_opt_def)
qed (simp_all add: p_any_of_def p_all_of_def p_exactly_one_of_def p_at_most_one_of_def p_parens_def
    p_then_def p_map_def p_bind_def p_lit_hd)

text \<open>A conditional starts like a condition.\<close>

definition p_condition :: "string parser" where
  "p_condition = p_then (p_opt (p_lit ''!'')) (p_then p_use_flag (p_lit ''?''))"

lemma p_conditional_None: "p_condition s = None \<Longrightarrow> p_conditional ix p s = None"
  by (auto simp: p_condition_def p_conditional_def p_then_def p_bind_def split: option.splits)

lemma p_first_SomeD: "p_first ps s = Some z \<Longrightarrow> \<exists>p \<in> set ps. p s = Some z"
  by (induction ps) (auto simp: p_alt_def p_fail_def split: option.splits)

lemma p_first_unique:
  "k \<in> set kinds \<Longrightarrow> g k s = Some z \<Longrightarrow> (\<And>k'. k' \<in> set kinds \<Longrightarrow> k' \<noteq> k \<Longrightarrow> g k' s = None) \<Longrightarrow>
    p_first (map g kinds) s = Some z"
proof (induction kinds)
  case (Cons k' kinds)
  show ?case
  proof (cases "k' = k")
    case False
    then have "g k' s = None" using Cons.prems(3) by simp
    moreover have "p_first (map g kinds) s = Some z" using Cons False by simp
    ultimately show ?thesis by (simp add: p_alt_def)
  qed (use Cons in \<open>simp add: p_alt_def\<close>)
qed simp

lemma p_first_None: "(\<And>k. k \<in> set kinds \<Longrightarrow> g k s = None) \<Longrightarrow> p_first (map g kinds) s = None"
  by (induction kinds) (simp_all add: p_alt_def p_fail_def)

section \<open>Round trips of a rule\<close>

text \<open>What the parser of values of a rule has to satisfy for the shape of what the rule reads.\<close>

locale dependency_leaf = dependency_sets +
  fixes kinds :: "group_kind list" and leaf :: "'a dependency parser" and L :: "'a dependency \<Rightarrow> bool"
  assumes leaf_rest: "suffix_rest leaf"
    and leaf_kind: "L d \<Longrightarrow> kind_of d = None"
    and leaf_wf: "L d \<Longrightarrow> wf_dependency Q d"
begin

abbreviation rule :: "'a dependency parser" where
  "rule \<equiv> p_dependency ix kinds leaf"

abbreviation valid :: "'a dependency \<Rightarrow> bool" where
  "valid \<equiv> valid_expr (dependency_eq c) (set kinds) L"

lemma rest_rule: "suffix_rest rule"
  using suffix_restD [OF rest_nested [OF leaf_rest]] by (auto simp only: suffix_rest_def p_dependency_def)

lemma unfolded: "rule s = (case p_first (map (\<lambda>k. p_group ix k rule) kinds) s of None \<Rightarrow> leaf s | Some z \<Rightarrow> Some z)"
  using p_dependency_unfold [OF leaf_rest, of ix kinds s] by (simp only: p_first_append)

lemma valid_wf: "valid d \<Longrightarrow> wf_dependency Q d"
  by (induction d) (auto simp: list_all_iff dest: leaf_wf)

lemma valid_leaf: "L d \<Longrightarrow> valid d"
  using leaf_kind [of d] by (cases d) auto

end

text \<open>What a rule reads.\<close>

locale dependency_rule = dependency_leaf +
  assumes leaf_valid: "leaf s = Some (d, r) \<Longrightarrow> dep_end r \<Longrightarrow> L d"
begin

lemma rule_valid: "rule s = Some (d, r) \<Longrightarrow> dep_end r \<Longrightarrow> valid d"
proof (induction "length s" arbitrary: s d r rule: less_induct)
  case less
  consider "leaf s = Some (d, r)" | k where "k \<in> set kinds" "p_group ix k rule s = Some (d, r)"
    using less.prems(1) unfolded [of s] p_first_SomeD [of "map (\<lambda>k. p_group ix k rule) kinds" s "(d, r)"]
    by (cases "p_first (map (\<lambda>k. p_group ix k rule) kinds) s") auto
  then show ?case
  proof cases
    case 1
    then show ?thesis using leaf_valid less.prems(2) valid_leaf by blast
  next
    case 2
    obtain s' vs u where g: "length s' \<le> length s" "p_parens rule s' = Some (vs, r)"
      "d = mk_group k u (is_collect ix vs)" "valid_condition u"
      using p_group_SomeD [OF 2(2)] by blast
    have "s \<noteq> []" using 2(2) p_group_None [of s k ix rule] by auto
    then obtain n where n: "length s = Suc n" by (cases s) simp_all
    have "in_context rule dep_end valid n"
      unfolding in_context_def using less.hyps n by (simp add: less_Suc_eq_le)
    from p_parens_context [OF g(2) rest_rule _ this] g(1) n have vs: "vs \<noteq> []" "list_all valid vs" by simp_all
    have "list_all (wf_dependency Q) vs" using vs(2) valid_wf by (simp add: list_all_iff)
    from collect_distinct [OF this] show ?thesis
      using vs list_all_firsts_by [OF vs(2)] g(3,4) 2(1) by (simp add: valid_expr_group collect)
  qed
qed

lemma set_valid:
  assumes "p_run (p_dependency_set ix rule) s = Some vs"
  shows "valid_set (dependency_eq c) (set kinds) L vs"
proof -
  obtain ws where ws: "p_sep0 rule p_blanks s = Some (ws, [])" "vs = is_collect ix ws"
    using assms by (auto simp: p_dependency_set_def p_map_def p_bind_def p_return_def split: option.splits)
  have "list_all valid ws"
  proof (cases "p_sep1 rule p_blanks s")
    case None
    then show ?thesis using ws(1) by (simp add: p_sep0_def p_alt_def p_return_def)
  next
    case (Some z)
    then have "p_sep1 rule p_blanks s = Some (ws, [])" using ws(1) by (simp add: p_sep0_def p_alt_def)
    moreover have "in_context rule dep_end valid (length s)" using rule_valid by (simp add: in_context_def)
    ultimately show ?thesis
      using sep1_context [OF marks_blanks suffix_blanks _ _ rest_rule] by (fastforce simp: dep_end_def)
  qed
  moreover from this have "list_all (wf_dependency Q) ws" using valid_wf by (simp add: list_all_iff)
  ultimately show ?thesis
    using collect_distinct [of ws] list_all_firsts_by [of valid ws] ws(2) by (simp add: valid_set_def collect)
qed

end

text \<open>What a rule reads back: the values print as \<open>f\<close> displays, read back what they print in front of what
  satisfies \<open>ok\<close>, and cannot be taken for a group.\<close>

locale dependency_reader = dependency_leaf +
  fixes f :: "'a \<Rightarrow> string" and ok :: "string \<Rightarrow> bool"
  assumes leaf_reads: "L d \<Longrightarrow> ok t \<Longrightarrow> leaf (dependency_display f d @ t) = Some (d, t)"
    and leaf_text: "L d \<Longrightarrow> dependency_display f d \<noteq> [] \<and> \<not> is_blank (hd (dependency_display f d)) \<and>
      hd (dependency_display f d) \<notin> {CHR ''('', CHR ''|'', CHR ''^'', CHR ''?''}"
    and leaf_apart: "L d \<Longrightarrow> ok t \<Longrightarrow> p_conditional ix p (dependency_display f d @ t) = None"
    and leaf_stop: "leaf (CHR '')'' # s) = None"
    and leaf_empty: "leaf [] = None"
    and ok_end: "ok t \<Longrightarrow> dep_end t"
    and ok_empty: "ok []"
    and ok_close: "ok ('' )'' @ t)"
    and ok_leaf: "L d \<Longrightarrow> ok ('' '' @ dependency_display f d @ t)"
    and ok_group: "starts k (hd s) \<Longrightarrow> s \<noteq> [] \<Longrightarrow> ok ('' '' @ s)"
begin

abbreviation disp :: "'a dependency \<Rightarrow> string" where
  "disp \<equiv> dependency_display f"

lemma starts_text: "L d \<Longrightarrow> k \<noteq> GConditional \<Longrightarrow> \<not> starts k (hd (disp d))"
  using leaf_text [of d] by (cases k) auto

lemma group_text: "kind_of d = Some k \<Longrightarrow> valid d \<Longrightarrow> disp d \<noteq> [] \<and> starts k (hd (disp d)) \<and> \<not> is_blank (hd (disp d))"
proof (cases d)
  case (Conditional u vs)
  assume k: "kind_of d = Some k" "valid d"
  then have u: "u = condition (ud_enabled u) (ud_flag u)" "is_name flag_first flag_char (ud_flag u)"
    using Conditional by (simp_all add: valid_condition_def)
  have "use_dep_display u = (if ud_enabled u then [] else ''!'') @ ud_flag u @ ''?''"
    using condition_display [of "ud_enabled u" "ud_flag u"] u(1) by simp
  then show ?thesis
    using k Conditional flag_hd [OF u(2)] by (auto simp: hd_append flag_first_def char_classes)
qed (auto simp: char_classes)

lemma valid_text: "valid d \<Longrightarrow> disp d \<noteq> [] \<and> \<not> is_blank (hd (disp d))"
  using leaf_text [of d] group_text [of d] by (cases "kind_of d"; cases d) auto

lemma rule_stop: "rule (CHR '')'' # s) = None" and rule_empty: "rule [] = None"
proof -
  have "p_group ix k rule (CHR '')'' # s) = None" "p_group ix k rule [] = None" for k
    by (rule p_group_None, cases k, auto simp: flag_first_def char_classes)+
  then show "rule (CHR '')'' # s) = None" "rule [] = None"
    using unfolded [of "CHR '')'' # s"] unfolded [of "[]"] p_first_None [of kinds "\<lambda>k. p_group ix k rule"]
      leaf_stop leaf_empty by simp_all
qed

lemma blank_step: "s \<noteq> [] \<Longrightarrow> \<not> is_blank (hd s) \<Longrightarrow> p_blanks (CHR '' '' # s) = Some ('' '', s)"
proof -
  assume s: "s \<noteq> []" "\<not> is_blank (hd s)"
  then have "takeWhile is_blank s = [] \<and> dropWhile is_blank s = s" by (cases s) auto
  then show ?thesis
    using p_star_class [of is_blank s]
    by (simp add: p_blanks_def p_plus_def p_bind_def p_return_def p_many_def is_blank_def)
qed

lemma ok_valid: "valid v \<Longrightarrow> ok ('' '' @ disp v @ t)"
proof (cases "kind_of v")
  case None
  assume "valid v"
  then have "L v" using None by (cases v) simp_all
  then show ?thesis by (rule ok_leaf)
next
  case (Some k)
  assume "valid v"
  then have "disp v \<noteq> []" "starts k (hd (disp v))" using group_text [OF Some] by simp_all
  then show ?thesis by (intro ok_group [of k]) simp_all
qed

lemma list_reads:
  assumes vs: "vs \<noteq> []" "list_all valid vs"
    and reads: "\<And>v t. v \<in> set vs \<Longrightarrow> ok t \<Longrightarrow> rule (disp v @ t) = Some (v, t)"
    and t: "ok t" "p_then p_blanks rule t = None"
  shows "p_sep1 rule p_blanks (join_with '' '' (map disp vs) @ t) = Some (vs, t)"
proof -
  let ?d = "\<lambda>v. '' '' @ disp v" and ?q = "p_then p_blanks rule"
  have step: "?q (?d v @ t) = Some (v, t)" if "valid v \<and> v \<in> set vs" "ok t" for v t
    using that valid_text [of v] blank_step [of "disp v @ t"] reads [of v t]
    by (simp add: p_then_def p_bind_def)
  have star: "p_star ?q (concat (map ?d ws) @ t) = (ws, t)" if "list_all (\<lambda>v. valid v \<and> v \<in> set vs) ws" for ws
    by (rule p_star_reads [where Q = "\<lambda>v. valid v \<and> v \<in> set vs" and ok = ok, OF step])
      (use that t ok_valid in simp_all)
  obtain v ws where v: "vs = v # ws" using vs(1) by (cases vs) auto
  have "ok (concat (map ?d ws) @ t)" using t(1) ok_valid vs(2) v by (cases ws) auto
  then have "rule (disp v @ concat (map ?d ws) @ t) = Some (v, concat (map ?d ws) @ t)"
    using reads [of v] v by simp
  moreover have "p_star ?q (concat (map ?d ws) @ t) = (ws, t)"
    by (rule star) (use vs(2) v in \<open>auto simp: list_all_iff\<close>)
  ultimately show ?thesis
    using v concat_sep_join [OF vs(1), of disp "'' ''", symmetric]
    by (simp add: p_sep1_def p_bind_def p_return_def p_many_def)
qed

lemma parens_reads:
  assumes vs: "vs \<noteq> []" "list_all valid vs"
    and reads: "\<And>v t. v \<in> set vs \<Longrightarrow> ok t \<Longrightarrow> rule (disp v @ t) = Some (v, t)"
  shows "p_parens rule (''( '' @ join_with '' '' (map disp vs) @ '' )'' @ t) = Some (vs, t)"
proof -
  let ?tail = "'' )'' @ t" and ?list = "join_with '' '' (map disp vs)"
  have stop: "p_blanks ?tail = Some ('' '', CHR '')'' # t)"
    using blank_step [of "CHR '')'' # t"] by (simp add: is_blank_def)
  then have "p_then p_blanks rule ?tail = None" by (simp add: p_then_def p_bind_def rule_stop)
  then have list: "p_sep1 rule p_blanks (?list @ ?tail) = Some (vs, ?tail)"
    using list_reads [OF vs reads, of ?tail] ok_close by simp
  obtain v ws where v: "vs = v # ws" using vs(1) by (cases vs) auto
  then have vv: "valid v" using vs(2) by simp
  obtain w where w: "?list = disp v @ w" unfolding v list.map join_with_Cons by blast
  have "?list @ ?tail \<noteq> []" "\<not> is_blank (hd (?list @ ?tail))"
    using valid_text [OF vv] by (simp_all add: w)
  then have "p_blanks (CHR '' '' # ?list @ ?tail) = Some ('' '', ?list @ ?tail)" by (rule blank_step)
  then show ?thesis
    using list stop unfolding p_parens_def p_then_def p_before_def p_bind_def p_return_def
    by (simp add: p_lit_Cons)
qed

lemma leaf_rule:
  assumes "L d" "ok t"
  shows "rule (disp d @ t) = Some (d, t)"
proof -
  have "p_group ix k rule (disp d @ t) = None" for k
  proof (cases "k = GConditional")
    case True
    then show ?thesis using leaf_apart [OF assms] by simp
  next
    case False
    then show ?thesis
      using p_group_None [of "disp d @ t" k ix rule] starts_text [OF assms(1) False] leaf_text [OF assms(1)] by simp
  qed
  then have "p_first (map (\<lambda>k. p_group ix k rule) kinds) (disp d @ t) = None" by (rule p_first_None)
  then show ?thesis using unfolded [of "disp d @ t"] leaf_reads [OF assms] by simp
qed

lemma group_reads:
  assumes d: "kind_of d = Some k" "valid d" and t: "ok t"
    and members: "\<And>v t. v \<in> set (dependency_iter d) \<Longrightarrow> ok t \<Longrightarrow> rule (disp v @ t) = Some (v, t)"
  shows "p_group ix k rule (disp d @ t) = Some (d, t)"
proof -
  obtain u where u: "d = mk_group k u (dependency_iter d)" using group_cases [OF d(1)] by blast
  let ?vs = "dependency_iter d"
  have vs: "k = GConditional \<longrightarrow> valid_condition u" "?vs \<noteq> []" "distinct_by (dependency_eq c) ?vs" "list_all valid ?vs"
    using d(2) valid_expr_group [of "dependency_eq c" "set kinds" L k u ?vs] u by simp_all
  let ?list = "''( '' @ join_with '' '' (map disp ?vs) @ '' )'' @ t"
  have parens: "p_parens rule ?list = Some (?vs, t)"
    by (rule parens_reads [OF vs(2,4) members])
  have vals: "is_collect ix ?vs = ?vs" by (rule collect_id [OF vs(3)])
  have mapped: "p_map (\<lambda>vals. g (is_collect ix vals)) (p_parens rule) ?list = Some (g ?vs, t)" for g :: "'a dependency list \<Rightarrow> 'a dependency"
    using parens by (simp add: p_map_def p_bind_def p_return_def vals)
  have blanks: "p_blanks (CHR '' '' # ?list) = Some ('' '', ?list)"
    using blank_step [of ?list] by (simp add: is_blank_def)
  show ?thesis
  proof (cases k)
    case GConditional
    let ?flag = "ud_flag u" and ?dis = "if ud_enabled u then None else Some ''!''"
    have c: "u = condition (ud_enabled u) ?flag" "is_name flag_first flag_char ?flag"
      using vs(1) GConditional by (simp_all add: valid_condition_def)
    have disp: "disp d @ t = (if ud_enabled u then [] else ''!'') @ ?flag @ ''?'' @ CHR '' '' # ?list"
      using arg_cong [OF u, of disp] condition_display [of "ud_enabled u" ?flag] c(1) GConditional by simp
    have "p_opt (p_lit ''!'') (disp d @ t) = Some (?dis, ?flag @ ''?'' @ CHR '' '' # ?list)"
      using p_lit_flag [OF c(2), of "CHR ''!''"] unfolding disp by (simp add: p_opt_def p_lit_Cons)
    moreover have "p_use_flag (?flag @ ''?'' @ CHR '' '' # ?list) = Some (?flag, ''?'' @ CHR '' '' # ?list)"
      by (rule flag_reads [OF _ c(2)]) simp
    moreover have "condition (?dis = None) ?flag = u" using c(1) [symmetric] by (cases "ud_enabled u") simp_all
    ultimately have "p_conditional ix rule (disp d @ t) = Some (Conditional u ?vs, t)"
      using blanks mapped [of "Conditional u"]
      unfolding p_conditional_def p_then_def p_bind_def by (simp add: p_lit_Cons)
    then show ?thesis using u GConditional by simp
  next
    case GAllOf
    have "disp d @ t = ?list" using arg_cong [OF u, of disp] GAllOf by simp
    then have "p_group ix k rule (disp d @ t) = Some (AllOf ?vs, t)"
      using mapped [of AllOf] GAllOf by (simp only: p_group.simps p_all_of_def)
    then show ?thesis using u GAllOf by simp
  next
    case GAnyOf
    have "disp d @ t = ''||'' @ CHR '' '' # ?list" using arg_cong [OF u, of disp] GAnyOf by simp
    then have "p_group ix k rule (disp d @ t) = Some (AnyOf ?vs, t)"
      using mapped [of AnyOf] blanks GAnyOf
      by (simp only: p_group.simps p_any_of_def p_then_def p_bind_def p_lit_append option.case prod.case)
    then show ?thesis using u GAnyOf by simp
  next
    case GExactlyOneOf
    have "disp d @ t = ''^^'' @ CHR '' '' # ?list" using arg_cong [OF u, of disp] GExactlyOneOf by simp
    then have "p_group ix k rule (disp d @ t) = Some (ExactlyOneOf ?vs, t)"
      using mapped [of ExactlyOneOf] blanks GExactlyOneOf
      by (simp only: p_group.simps p_exactly_one_of_def p_then_def p_bind_def p_lit_append option.case prod.case)
    then show ?thesis using u GExactlyOneOf by simp
  next
    case GAtMostOneOf
    have "disp d @ t = ''??'' @ CHR '' '' # ?list" using arg_cong [OF u, of disp] GAtMostOneOf by simp
    then have "p_group ix k rule (disp d @ t) = Some (AtMostOneOf ?vs, t)"
      using mapped [of AtMostOneOf] blanks GAtMostOneOf
      by (simp only: p_group.simps p_at_most_one_of_def p_then_def p_bind_def p_lit_append option.case prod.case)
    then show ?thesis using u GAtMostOneOf by simp
  qed
qed

lemma members_valid: "valid d \<Longrightarrow> v \<in> set (dependency_iter d) \<Longrightarrow> valid v \<and> size v < size d"
  by (cases d) (auto simp: list_all_iff dest: member_size)

lemma rule_reads: "valid d \<Longrightarrow> ok t \<Longrightarrow> rule (disp d @ t) = Some (d, t)"
proof (induction "size d" arbitrary: d t rule: less_induct)
  case less
  show ?case
  proof (cases "kind_of d")
    case None
    then have "L d" using less.prems(1) by (cases d) simp_all
    then show ?thesis using leaf_rule less.prems(2) by blast
  next
    case (Some k)
    have "k \<in> set kinds" using less.prems(1) Some by (cases d) auto
    have own: "p_group ix k rule (disp d @ t) = Some (d, t)"
      using members_valid [OF less.prems(1)] by (intro group_reads [OF Some less.prems] less.hyps) auto
    have "p_group ix k' rule (disp d @ t) = None" if "k' \<noteq> k" for k'
      using that group_text [OF Some less.prems(1)] starts_unique [of k "hd (disp d)" k'] by (intro p_group_None) auto
    from p_first_unique [of k kinds "\<lambda>k. p_group ix k rule", OF \<open>k \<in> set kinds\<close> own this]
    show ?thesis using unfolded [of "disp d @ t"] by simp
  qed
qed

lemma set_reads:
  assumes "valid_set (dependency_eq c) (set kinds) L vs"
  shows "p_run (p_dependency_set ix rule) (dependency_set_display f vs) = Some vs"
proof (cases "vs = []")
  case True
  then show ?thesis
    by (simp add: p_dependency_set_def dependency_set_display_def p_map_def p_bind_def p_return_def
        p_sep0_def p_sep1_def p_alt_def rule_empty collect)
next
  case False
  have vs: "list_all valid vs" "distinct_by (dependency_eq c) vs" using assms by (simp_all add: valid_set_def)
  have "p_then p_blanks rule [] = None"
    using p_plus_class [of is_blank "[]"] by (simp add: p_then_def p_bind_def p_blanks_def)
  then have "p_sep1 rule p_blanks (join_with '' '' (map disp vs) @ []) = Some (vs, [])"
    using vs(1) rule_reads by (intro list_reads [OF False]) (auto simp: list_all_iff ok_empty)
  then show ?thesis
    by (simp add: p_dependency_set_def dependency_set_display_def p_map_def p_bind_def p_return_def
        p_sep0_def p_alt_def collect_id [OF vs(2)])
qed

end

text \<open>Both, for values that can be read back in front of white space or the end.\<close>

locale dependency_grammar = dependency_sets +
  fixes kinds :: "group_kind list" and leaf :: "'a dependency parser"
    and f :: "'a \<Rightarrow> string" and L :: "'a dependency \<Rightarrow> bool"
  assumes leaf_rest: "suffix_rest leaf"
    and leaf_valid: "leaf s = Some (d, r) \<Longrightarrow> dep_end r \<Longrightarrow> L d"
    and leaf_kind: "L d \<Longrightarrow> kind_of d = None"
    and leaf_wf: "L d \<Longrightarrow> wf_dependency Q d"
    and leaf_reads: "L d \<Longrightarrow> dep_end t \<Longrightarrow> leaf (dependency_display f d @ t) = Some (d, t)"
    and leaf_text: "L d \<Longrightarrow> dependency_display f d \<noteq> [] \<and> \<not> is_blank (hd (dependency_display f d)) \<and>
      hd (dependency_display f d) \<notin> {CHR ''('', CHR ''|'', CHR ''^'', CHR ''?''}"
    and leaf_plain: "L d \<Longrightarrow> dep_end t \<Longrightarrow> p_condition (dependency_display f d @ t) = None"
    and leaf_stop: "leaf (CHR '')'' # s) = None"
    and leaf_empty: "leaf [] = None"
begin

end

sublocale dependency_grammar < parts: dependency_rule Q c ix kinds leaf L
  by unfold_locales (fact leaf_rest leaf_kind leaf_wf leaf_valid)+

sublocale dependency_grammar < texts: dependency_reader Q c ix kinds leaf L f dep_end
proof unfold_locales
  show "L d \<Longrightarrow> dep_end t \<Longrightarrow> p_conditional ix p (dependency_display f d @ t) = None" for d t p
    by (intro p_conditional_None leaf_plain)
qed (fact leaf_reads leaf_text leaf_stop leaf_empty | simp add: dep_end_def is_blank_def)+

context dependency_grammar
begin

lemma run_iff_valid: "(\<exists>s. p_run parts.rule s = Some d) \<longleftrightarrow> parts.valid d"
  using parts.rule_valid [of _ d "[]"] texts.rule_reads [of d "[]"] by (auto simp: dep_end_def)

lemma run_display: "p_run parts.rule s = Some d \<Longrightarrow> p_run parts.rule (texts.disp d) = Some d"
  using parts.rule_valid [of s d "[]"] texts.rule_reads [of d "[]"] by (simp add: dep_end_def)

lemma set_valid: "p_run (p_dependency_set ix parts.rule) s = Some vs \<Longrightarrow> valid_set (dependency_eq c) (set kinds) L vs"
  by (rule parts.set_valid)

lemma set_reads: "valid_set (dependency_eq c) (set kinds) L vs \<Longrightarrow> p_run (p_dependency_set ix parts.rule) (dependency_set_display f vs) = Some vs"
  by (rule texts.set_reads)

end

section \<open>The rules\<close>

lemma license_facts [simp]:
  "\<not> word_char (CHR ''('')" "\<not> word_char (CHR '')'')" "\<not> word_char (CHR ''|'')" "\<not> word_char (CHR ''^'')" "\<not> word_char (CHR ''?'')"
  by (simp_all add: word_char_def char_classes)

lemma word_not_blank: "word_char c \<Longrightarrow> \<not> is_blank c"
  by (auto simp: word_char_def char_classes)

lemma dep_end_names: "dep_end t \<Longrightarrow> t = [] \<or> \<not> name_char (hd t) \<and> \<not> flag_char (hd t) \<and> hd t \<noteq> CHR ''?''"
  by (auto simp: dep_end_def name_char_def word_char_def flag_char_def flag_first_def char_classes)

lemma p_condition_Some: "p_condition s = Some (z, r) \<Longrightarrow>
    \<exists>f. is_name flag_first flag_char f \<and> (s = f @ ''?'' @ r \<or> s = ''!'' @ f @ ''?'' @ r)"
  using printsD [OF p_name_prints, of flag_first flag_char]
  by (fastforce simp: p_condition_def p_then_def p_bind_def p_opt_def p_lit_Some p_use_flag_def split: option.splits)

text \<open>A name of characters without question mark, followed by white space or the end, does
  not start a condition.\<close>

lemma plain_text:
  assumes "CHR ''?'' \<notin> set x" "dep_end t"
  shows "p_condition (x @ t) = None"
proof (rule ccontr)
  assume "p_condition (x @ t) \<noteq> None"
  then obtain z r where "p_condition (x @ t) = Some (z, r)" by auto
  from p_condition_Some [OF this] obtain f where
    f: "is_name flag_first flag_char f" "x @ t = (f @ ''?'') @ r \<or> x @ t = (''!'' @ f @ ''?'') @ r"
    by fastforce
  have chars: "\<not> is_blank c" if "c \<in> set (''!'' @ f @ ''?'')" for c
    using that f(1) by (cases f) (auto simp: is_name_def list_all_iff flag_first_def flag_char_def char_classes)
  have "\<exists>w. CHR ''?'' \<in> set w \<and> (\<forall>c \<in> set w. \<not> is_blank c) \<and> x @ t = w @ r"
    using f(2)
  proof
    assume "x @ t = (f @ ''?'') @ r"
    then show ?thesis using chars by (intro exI [of _ "f @ ''?''"]) auto
  next
    assume "x @ t = (''!'' @ f @ ''?'') @ r"
    then show ?thesis using chars by (intro exI [of _ "''!'' @ f @ ''?''"]) auto
  qed
  then obtain w where w: "CHR ''?'' \<in> set w" "\<forall>c \<in> set w. \<not> is_blank c" "x @ t = w @ r" by blast
  from w(3) obtain u where "x = w @ u \<or> w = x @ u \<and> t = u @ r" by (auto simp: append_eq_append_conv2)
  then show False
  proof
    assume "w = x @ u \<and> t = u @ r"
    then show False using w assms by (cases u) (auto simp: dep_end_def)
  qed (use w(1) assms(1) in auto)
qed

lemma license_name_Some: "p_license_name s = Some (x, r) \<Longrightarrow> s = x @ r \<and> is_name word_char name_char x"
  using printsD [OF p_name_prints] by (fastforce simp: p_license_name_def)

lemma license_name_reads: "is_name word_char name_char x \<Longrightarrow> dep_end t \<Longrightarrow> p_license_name (x @ t) = Some (x, t)"
  unfolding p_license_name_def using readsD [OF p_name_reads] dep_end_names [of t] by blast

definition valid_license :: "string dependency \<Rightarrow> bool" where
  "valid_license d \<longleftrightarrow> (\<exists>x. d = Enabled x \<and> is_name word_char name_char x)"

lemma license_name_chars: "is_name word_char name_char x \<Longrightarrow> x \<noteq> [] \<and> word_char (hd x) \<and> CHR ''?'' \<notin> set x"
  by (cases x) (auto simp: is_name_def list_all_iff name_char_def)

lemma license_grammar:
  assumes "dependency_sets (\<lambda>_. True) cmp_str ix"
  shows "dependency_grammar (\<lambda>_. True) cmp_str ix (p_map Enabled p_license_name) (\<lambda>x. x) valid_license"
proof (rule dependency_grammar.intro [OF assms], unfold_locales)
  show "suffix_rest (p_map Enabled p_license_name)"
    unfolding p_license_name_def by (intro rest_map progress_suffix_rest progress_name)
next
  fix s d r assume "p_map Enabled p_license_name s = Some (d, r)"
  from p_map_SomeD [OF this] show "valid_license d"
    using license_name_Some by (auto simp: valid_license_def)
next
  fix d t assume "valid_license d" and t: "dep_end t"
  then obtain x where x: "d = Enabled x" "is_name word_char name_char x" by (auto simp: valid_license_def)
  show "p_map Enabled p_license_name (dependency_display (\<lambda>x. x) d @ t) = Some (d, t)"
    using license_name_reads [OF x(2) t] x(1) by (simp add: p_map_def p_bind_def p_return_def)
  show "p_condition (dependency_display (\<lambda>x. x) d @ t) = None"
    using plain_text [OF _ t] license_name_chars [OF x(2)] x(1) by simp
next
  fix d assume "valid_license d"
  then obtain x where x: "d = Enabled x" "is_name word_char name_char x" by (auto simp: valid_license_def)
  show "kind_of d = None" "wf_dependency (\<lambda>_. True) d" using x(1) by simp_all
  show "dependency_display (\<lambda>x. x) d \<noteq> [] \<and> \<not> is_blank (hd (dependency_display (\<lambda>x. x) d)) \<and>
      hd (dependency_display (\<lambda>x. x) d) \<notin> {CHR ''('', CHR ''|'', CHR ''^'', CHR ''?''}"
    using license_name_chars [OF x(2)] word_not_blank [of "hd x"] x(1) by auto
next
  fix s show "p_map Enabled p_license_name (CHR '')'' # s) = None" "p_map Enabled p_license_name [] = None"
    by (simp_all add: p_map_def p_bind_def p_license_name_def p_name_eq)
qed

definition valid_required :: "string dependency \<Rightarrow> bool" where
  "valid_required d \<longleftrightarrow> (\<exists>x. (d = Enabled x \<or> d = Disabled x) \<and> is_name flag_first flag_char x)"

abbreviation p_required_value :: "string dependency parser" where
  "p_required_value \<equiv> p_alt (p_then (p_lit ''!'') (p_map Disabled p_use_flag)) (p_map Enabled p_use_flag)"

lemma flag_name_chars: "is_name flag_first flag_char x \<Longrightarrow> x \<noteq> [] \<and> flag_first (hd x) \<and> CHR ''?'' \<notin> set x"
  by (cases x) (auto simp: is_name_def list_all_iff flag_first_def flag_char_def char_classes)

lemma required_Some:
  assumes "p_required_value s = Some (d, r)"
  shows "valid_required d"
proof -
  have flag: "is_name flag_first flag_char x" if "p_use_flag u = Some (x, r)" for x u
    using printsD [OF p_name_prints that [unfolded p_use_flag_def]] by simp
  from p_alt_SomeD [OF assms] show ?thesis
  proof
    assume "p_then (p_lit ''!'') (p_map Disabled p_use_flag) s = Some (d, r)"
    from p_then_SomeD [OF this rest_lit] obtain u where "p_map Disabled p_use_flag u = Some (d, r)" by blast
    from p_map_SomeD [OF this] flag show ?thesis by (auto simp: valid_required_def)
  next
    assume "p_map Enabled p_use_flag s = Some (d, r)"
    from p_map_SomeD [OF this] flag show ?thesis by (auto simp: valid_required_def)
  qed
qed

lemma required_use_grammar:
  assumes "dependency_sets (\<lambda>_. True) cmp_str ix"
  shows "dependency_grammar (\<lambda>_. True) cmp_str ix p_required_value (\<lambda>x. x) valid_required"
proof (rule dependency_grammar.intro [OF assms], unfold_locales)
  show "suffix_rest p_required_value"
    by (intro rest_alt rest_then rest_lit rest_map rest_use_flag)
next
  fix s d r assume "p_required_value s = Some (d, r)"
  then show "valid_required d" by (rule required_Some)
next
  fix d t assume "valid_required d" and t: "dep_end t"
  then obtain x where x: "d = Enabled x \<or> d = Disabled x" "is_name flag_first flag_char x" by (auto simp: valid_required_def)
  have flag: "p_use_flag (x @ t) = Some (x, t)" by (rule flag_reads [OF _ x(2)]) (use dep_end_names [OF t] in auto)
  have "p_lit ''!'' (x @ t) = None" by (rule p_lit_flag [OF x(2)]) simp
  then show "p_required_value (dependency_display (\<lambda>x. x) d @ t) = Some (d, t)"
    using x(1) flag by (auto simp: p_alt_def p_then_def p_map_def p_bind_def p_return_def p_lit_Cons)
  have "CHR ''?'' \<notin> set (dependency_display (\<lambda>x. x) d)" using x(1) flag_name_chars [OF x(2)] by auto
  then show "p_condition (dependency_display (\<lambda>x. x) d @ t) = None" using plain_text t by blast
next
  fix d assume "valid_required d"
  then obtain x where x: "d = Enabled x \<or> d = Disabled x" "is_name flag_first flag_char x" by (auto simp: valid_required_def)
  show "kind_of d = None" "wf_dependency (\<lambda>_. True) d" using x(1) by auto
  show "dependency_display (\<lambda>x. x) d \<noteq> [] \<and> \<not> is_blank (hd (dependency_display (\<lambda>x. x) d)) \<and>
      hd (dependency_display (\<lambda>x. x) d) \<notin> {CHR ''('', CHR ''|'', CHR ''^'', CHR ''?''}"
    using flag_name_chars [OF x(2)] x(1) by (auto simp: flag_first_def char_classes)
next
  fix s show "p_required_value (CHR '')'' # s) = None" "p_required_value [] = None"
    by (simp_all add: p_alt_def p_then_def p_map_def p_bind_def p_use_flag_def p_name_eq p_lit_Cons p_lit_hd)
qed

lemma rest_package [rest_intros]: "suffix_rest p_package" "suffix_rest p_category" "suffix_rest p_version"
proof -
  show v: "suffix_rest p_version" by (rule prints_rest [OF version_prints])
  show "suffix_rest p_category" unfolding p_category_def by (intro progress_suffix_rest progress_name)
  have "suffix_rest p_package_step"
    unfolding p_package_step_def by (intro rest_alt rest_map progress_suffix_rest rest_class rest_then rest_lit rest_not)
  then show "suffix_rest p_package"
    unfolding p_package_def by (intro rest_slice rest_then rest_many progress_suffix_rest [OF rest_class])
qed

lemma rest_cpn: "suffix_rest p_cpn" and rest_cpv: "suffix_rest p_cpv"
  unfolding p_cpv_def p_cpn_def by (intro rest_bind rest_then rest_lit rest_package rest_return)+

lemma rest_with_op: "suffix_rest p \<Longrightarrow> suffix_rest (p_with_op f p)"
  unfolding p_with_op_def
  by (intro rest_alt rest_try rest_then rest_lit rest_bind rest_opt rest_return)

lemma rest_dep: "suffix_rest (p_dep ux e)"
proof -
  have "suffix_rest p_blocker" by (rule prints_rest [OF p_blocker_prints])
  moreover have "suffix_rest p_slot_dep_str" by (rule prints_rest [OF p_slot_dep_str_prints])
  moreover have "suffix_rest p_use_deps" by (rule prints_rest [OF p_use_deps_prints])
  moreover have "suffix_rest p_dep_pkg"
    unfolding p_dep_pkg_def by (intro rest_alt rest_map rest_with_op rest_cpn rest_cpv)
  moreover have "suffix_rest p_repo"
    unfolding p_repo_def p_repo_step_def
    by (intro rest_slice rest_then rest_many rest_alt rest_map progress_suffix_rest [OF rest_class] rest_lit rest_not)
  then have "suffix_rest (p_repo_dep e)" unfolding p_repo_dep_def by (intro rest_try rest_then rest_lit)
  ultimately show ?thesis unfolding p_dep_def by (intro rest_bind rest_opt rest_return)
qed

definition valid_package_value :: "eapi \<Rightarrow> dep dependency \<Rightarrow> bool" where
  "valid_package_value e d \<longleftrightarrow> (\<exists>x. d = Enabled x \<and> valid_dep e x)"

lemma op_text_start: "\<exists>c w. op_text op u = c # w \<and> c \<in> {CHR ''<'', CHR ''>'', CHR ''='', CHR ''~''}"
  by (cases op) (auto simp: op_text_def)

lemma flag_slash:
  assumes "is_name flag_first flag_char f" "f @ CHR ''?'' # r = a @ CHR ''/'' # w" "CHR ''?'' \<notin> set a"
  shows False
proof -
  have "CHR ''/'' \<notin> set f" using assms(1) by (cases f) (auto simp: is_name_def list_all_iff flag_first_def flag_char_def char_classes)
  with assms(2,3) show False by (auto simp: append_eq_append_conv2 Cons_eq_append_conv append_eq_Cons_conv)
qed

lemma pkg_not_condition:
  assumes "valid_pkg x" "is_name flag_first flag_char f" "pkg_text x @ t = f @ CHR ''?'' # r"
  shows False
proof (cases "dep_version x")
  case None
  have "is_name word_char name_char (cpn_category (dep_cpn x))"
    using assms(1) by (simp add: valid_pkg_def valid_cpn_def valid_category_def)
  then have "CHR ''?'' \<notin> set (cpn_category (dep_cpn x))" using license_name_chars by blast
  then show False
    using flag_slash [OF assms(2), of r "cpn_category (dep_cpn x)" "cpn_package (dep_cpn x) @ t"] assms(3) None
    by (simp add: pkg_text_def cpn_display_def)
next
  case (Some v)
  obtain c w where "pkg_text x = c # w" "c \<in> {CHR ''<'', CHR ''>'', CHR ''='', CHR ''~''}"
    using op_text_start Some by (fastforce simp: pkg_text_def)
  then have "hd (f @ CHR ''?'' # r) \<in> {CHR ''<'', CHR ''>'', CHR ''='', CHR ''~''}" using assms(3) by (metis append_Cons list.sel(1))
  then show False using flag_hd [OF assms(2)] by (auto simp: flag_first_def char_classes)
qed

lemma dep_not_condition:
  assumes "valid_dep e x"
  shows "p_condition (dep_text x @ t) = None"
proof (rule ccontr)
  have pkg: "valid_pkg x" using assms by (simp add: valid_dep_def)
  obtain u where u: "dep_text x @ t = opt_text blocker_display (dep_blocker x) @ pkg_text x @ u"
    by (simp add: dep_text_def)
  assume "p_condition (dep_text x @ t) \<noteq> None"
  then obtain z r where "p_condition (dep_text x @ t) = Some (z, r)" by auto
  from p_condition_Some [OF this] obtain f where f: "is_name flag_first flag_char f"
    "opt_text blocker_display (dep_blocker x) @ pkg_text x @ u = f @ CHR ''?'' # r \<or>
     opt_text blocker_display (dep_blocker x) @ pkg_text x @ u = CHR ''!'' # f @ CHR ''?'' # r"
    unfolding u by auto
  obtain c g where g: "f = c # g" "flag_first c" using flag_hd [OF f(1)] by (cases f) auto
  have hd: "pkg_text x @ u \<noteq> []" "hd (pkg_text x @ u) \<noteq> CHR ''!''" "pkg_text x @ u \<noteq> f @ CHR ''?'' # r"
    using pkg_text_hd [OF pkg, of u] pkg_not_condition [OF pkg f(1), of u r] valid_cpn_hd [of "dep_cpn x"] pkg op_text_hd
    by (auto simp: pkg_text_def valid_pkg_def split: option.splits)
  have "c \<noteq> CHR ''!''" using g(2) by auto
  show False
  proof (cases "dep_blocker x")
    case None
    then show False using f(2) hd by auto
  next
    case (Some b)
    then show False using f(2) hd g(1) \<open>c \<noteq> CHR ''!''\<close> by (cases b) auto
  qed
qed

lemma dep_text_start: "valid_dep e x \<Longrightarrow> \<exists>c w. dep_text x = c # w \<and>
    (c \<in> {CHR ''!'', CHR ''<'', CHR ''>'', CHR ''='', CHR ''~''} \<or> word_char c)"
proof -
  assume "valid_dep e x"
  then have pkg: "valid_pkg x" by (simp add: valid_dep_def)
  have "\<exists>c w. pkg_text x = c # w \<and> (c \<in> {CHR ''<'', CHR ''>'', CHR ''='', CHR ''~''} \<or> word_char c)"
  proof (cases "dep_version x")
    case None
    then show ?thesis using valid_cpn_hd [of "dep_cpn x"] pkg by (cases "pkg_text x") (auto simp: pkg_text_def valid_pkg_def)
  next
    case (Some v)
    then show ?thesis using op_text_start by (fastforce simp: pkg_text_def)
  qed
  then obtain c w where "pkg_text x = c # w" "c \<in> {CHR ''<'', CHR ''>'', CHR ''='', CHR ''~''} \<or> word_char c" by blast
  then show ?thesis
  proof (cases "dep_blocker x")
    case (Some b)
    then show ?thesis by (cases b) (auto simp: dep_text_def)
  qed (auto simp: dep_text_def)
qed

lemma p_dep_None:
  assumes "s = [] \<or> \<not> word_char (hd s) \<and> hd s \<notin> {CHR ''!'', CHR ''<'', CHR ''>'', CHR ''='', CHR ''~''}"
  shows "p_dep ux e s = None"
proof -
  have lits: "p_lit (c # w) s = None" if "c \<in> {CHR ''!'', CHR ''<'', CHR ''>'', CHR ''='', CHR ''~''}" for c w
    using assms that by (auto intro: p_lit_hd)
  have "p_cpn s = None" using assms by (intro p_cpn_None) auto
  moreover have "p_with_op cpv_with_op p_cpv s = None"
    by (simp add: p_with_op_def p_alt_def p_try_def p_then_def p_bind_def lits)
  ultimately have "p_dep_pkg s = None" by (simp add: p_dep_pkg_def p_alt_def p_map_def p_bind_def)
  moreover have "p_blocker s = None" by (simp add: p_blocker_def p_try_def p_slice_def p_then_def p_bind_def lits)
  ultimately show ?thesis by (simp add: p_dep_def p_bind_def p_opt_def)
qed

lemma package_grammar:
  assumes "dependency_sets wf_dep dep_cmp ix" "index_set (=) ux"
  shows "dependency_grammar wf_dep dep_cmp ix (p_map Enabled (p_dep ux e)) dep_text (valid_package_value e)"
proof (rule dependency_grammar.intro [OF assms(1)], unfold_locales)
  show "suffix_rest (p_map Enabled (p_dep ux e))" by (intro rest_map rest_dep)
next
  fix s d r assume "p_map Enabled (p_dep ux e) s = Some (d, r)" and r: "dep_end r"
  from p_map_SomeD [OF this(1)] p_dep_valid [OF assms(2) _ r] show "valid_package_value e d"
    by (auto simp: valid_package_value_def)
next
  fix d t assume "valid_package_value e d" and t: "dep_end t"
  then obtain x where x: "d = Enabled x" "valid_dep e x" by (auto simp: valid_package_value_def)
  show "p_map Enabled (p_dep ux e) (dependency_display dep_text d @ t) = Some (d, t)"
    using valid_dep_reads [OF assms(2) x(2) t] x(1) by (simp add: p_map_def p_bind_def p_return_def)
  show "p_condition (dependency_display dep_text d @ t) = None"
    using dep_not_condition [OF x(2)] x(1) by simp
next
  fix d assume "valid_package_value e d"
  then obtain x where x: "d = Enabled x" "valid_dep e x" by (auto simp: valid_package_value_def)
  show "kind_of d = None" using x(1) by simp
  have "\<forall>v \<in> set_option (dep_version x). wf_version v \<and> ver_op v \<noteq> None"
    using x(2) by (auto simp: valid_dep_def valid_pkg_def op_version_def)
  then show "wf_dependency wf_dep d" using x(1) by (cases "dep_version x") (auto simp: wf_dep_def)
  obtain c w where "dep_text x = c # w" "c \<in> {CHR ''!'', CHR ''<'', CHR ''>'', CHR ''='', CHR ''~''} \<or> word_char c"
    using dep_text_start [OF x(2)] by blast
  then show "dependency_display dep_text d \<noteq> [] \<and> \<not> is_blank (hd (dependency_display dep_text d)) \<and>
      hd (dependency_display dep_text d) \<notin> {CHR ''('', CHR ''|'', CHR ''^'', CHR ''?''}"
    using x(1) word_not_blank [of c] by (auto simp: is_blank_def)
next
  fix s show "p_map Enabled (p_dep ux e) (CHR '')'' # s) = None" "p_map Enabled (p_dep ux e) [] = None"
    using p_dep_None [of "CHR '')'' # s" ux e] p_dep_None [of "[]" ux e] by (simp_all add: p_map_def p_bind_def)
qed

section \<open>Interpretations\<close>

interpretation license_rule: dependency_grammar "\<lambda>_. True" cmp_str "ref_index_set (dependency_eq cmp_str)"
    "[GConditional, GAnyOf, GAllOf]" "p_map Enabled p_license_name" "\<lambda>x. x" valid_license
  by (rule license_grammar [OF string_deps.dependency_sets_axioms])

interpretation properties_rule: dependency_grammar "\<lambda>_. True" cmp_str "ref_index_set (dependency_eq cmp_str)"
    "[GConditional, GAllOf]" "p_map Enabled p_license_name" "\<lambda>x. x" valid_license
  by (rule license_grammar [OF string_deps.dependency_sets_axioms])

interpretation required_use_rule: dependency_grammar "\<lambda>_. True" cmp_str "ref_index_set (dependency_eq cmp_str)"
    "[GConditional, GAnyOf, GAllOf, GExactlyOneOf, GAtMostOneOf]" p_required_value "\<lambda>x. x" valid_required
  by (rule required_use_grammar [OF string_deps.dependency_sets_axioms])

interpretation package_rule: dependency_grammar wf_dep dep_cmp "ref_index_set (dependency_eq dep_cmp)"
    "[GConditional, GAnyOf, GAllOf]" "p_map Enabled (p_dep (ref_index_set (=)) e)" dep_text "valid_package_value e" for e
  by (rule package_grammar [OF package_deps.dependency_sets_axioms ref_set.index_set_axioms])

text \<open>The grammar equation of every rule: the bound of the model is never met.\<close>

lemma package_dependency_unfold:
  "p_package_dependency ux ix e s =
    p_alt (p_conditional ix (p_package_dependency ux ix e))
   (p_alt (p_any_of ix (p_package_dependency ux ix e))
   (p_alt (p_all_of ix (p_package_dependency ux ix e))
          (p_map Enabled (p_dep ux e)))) s"
  using p_dependency_unfold [OF rest_map [OF rest_dep], of ix "[GConditional, GAnyOf, GAllOf]" Enabled ux e s]
  by (simp add: p_package_dependency_def p_alt_def p_fail_def split: option.splits)

end
