(* ===== verification/Dependency_Props.thy ===== *)
theory Dependency_Props
  imports Dependency_Parse
begin

text \<open>
  The properties of dependency expressions and of sets of them, over the lemmas of
  \<open>Dependency\<close>, \<open>Dependency_Eval\<close> and \<open>Dependency_Parse\<close>, each with a witness
  at parsed values.
\<close>

text \<open>Sets and expressions that strings parse as, over the reference sets.\<close>

abbreviation str_ix :: "string dependency index_set" where
  "str_ix \<equiv> ref_index_set (dependency_eq cmp_str)"

abbreviation pkg_ix :: "dep dependency index_set" where
  "pkg_ix \<equiv> ref_index_set (dependency_eq dep_cmp)"

definition license_set :: "string \<Rightarrow> string dependency list" where
  "license_set s = projr (parse_license_dependency_set str_ix s)"

definition required_set :: "string \<Rightarrow> string dependency list" where
  "required_set s = projr (parse_required_use_dependency_set str_ix s)"

definition package_set :: "string \<Rightarrow> dep dependency list" where
  "package_set s = projr (parse_package_dependency_set ref_ix pkg_ix s ids_eapi)"

section \<open>Order\<close>

text \<open>Whatever total order the values have, dependency expressions are totally ordered,
  and the equality of the code is the equality of that order.\<close>

lemma dependency_order:
  assumes "total_cmp Q c" "wf_dependency Q x" "wf_dependency Q y" "wf_dependency Q z"
  shows "dependency_cmp c x x = Equal \<and> dependency_cmp c y x = ord_reverse (dependency_cmp c x y) \<and>
    \<not> (dependency_cmp c x y \<noteq> Greater \<and> dependency_cmp c y z \<noteq> Greater \<and> dependency_cmp c x z = Greater) \<and>
    (dependency_eq c x y \<longleftrightarrow> dependency_eq c y x)"
  using total_cmp.refl [OF total_cmp_dependency [OF assms(1)] assms(2)]
    total_cmp.flip [OF total_cmp_dependency [OF assms(1)] assms(2,3)]
    total_cmp.trans [OF total_cmp_dependency [OF assms(1)] assms(2-4)]
    total_cmp.sym_Equal [OF total_cmp_dependency [OF assms(1)] assms(2,3)]
    total_cmp.sym_Equal [OF total_cmp_dependency [OF assms(1)] assms(3,2)]
  unfolding dependency_eq_def by blast

lemma dependency_order_witness:
  "dependency_eq cmp_str (hd (required_set ''u? ( a b )'')) (hd (required_set ''u? ( b a )'')) \<longleftrightarrow>
   dependency_eq cmp_str (hd (required_set ''u? ( b a )'')) (hd (required_set ''u? ( a b )''))"
  using dependency_order [OF total_cmp_str [of "\<lambda>_. True"], where x = "hd (required_set ''u? ( a b )'')"
      and y = "hd (required_set ''u? ( b a )'')" and z = "hd (required_set ''u? ( b a )'')"]
  by (rule conjunct2 [THEN conjunct2, THEN conjunct2]) code_simp+

section \<open>Iterators\<close>

text \<open>C14: a client that takes values from both ends of \<open>IterFlatten\<close> in any order gets
  every value of the expressions once, in order from the front and in reverse from the back,
  and gets one at every call until none is left.\<close>

theorem flatten_from_both_ends:
  "take_ends calls q = (front, rear, r) \<Longrightarrow>
    flats q = front @ flats r @ rev rear \<and> length front + length rear = min (length calls) (length (flats q))"
  using take_ends_flats [where bs = calls and q = q] by simp

lemma flatten_from_both_ends_witness:
  "flats (required_set ''a || ( b !c ) d'') = [''a''] @ flats (required_set ''|| ( b !c )'') @ rev [''d'']"
  using flatten_from_both_ends [where calls = "[True, False]" and q = "required_set ''a || ( b !c ) d''"
      and front = "[''a'']" and rear = "[''d'']" and r = "required_set ''|| ( b !c )''"]
  by (rule conjunct1) code_simp

text \<open>C15: every iterator ends, whatever the nesting: the values, all groups and values before
  their members, the conditions, and each value with the conditions above it.\<close>

theorem iterators_end:
  "drain flatten_next q = Some (flats q) \<and>
   drain flatten_next_back q = Some (rev (flats q)) \<and>
   drain recursive_next q = Some (concat (map preorder q)) \<and>
   drain conditionals_next q = Some (concat (map conditions q)) \<and>
   drain conditional_flatten_next (conditional_flatten_queue q) = Some (concat (map (guarded []) q))"
  by (simp add: drain_flatten drain_flatten_back drain_recursive drain_conditionals drain_conditional_flatten
      conditional_flatten_queue_def comp_def)

section \<open>Evaluation\<close>

text \<open>C12: evaluating a set of parsed expressions does not panic, leaves no condition, no empty
  group and no repeated member, and evaluating the result, with whatever options, changes nothing.\<close>

theorem evaluation_form:
  assumes "dependency_sets Q c ix" "list_all (wf_dependency Q) ds" "parsed_conditions ds"
  shows "\<exists>es. dependency_set_evaluate ix options ds = Some es \<and>
    distinct_by (dependency_eq c) es \<and> list_all (evaluated_form (dependency_eq c)) es \<and>
    dependency_set_evaluate ix options' es = Some es"
  by (rule dependency_sets.set_evaluate_form [OF assms])

lemma evaluation_form_witness:
  "\<exists>es. dependency_set_evaluate str_ix {''u''} (required_set ''u? ( a || ( !v? ( b ) c ) ) ( w? ( d ) )'') = Some es \<and>
    distinct_by (dependency_eq cmp_str) es \<and> list_all (evaluated_form (dependency_eq cmp_str)) es \<and>
    dependency_set_evaluate str_ix {} es = Some es"
  by (rule evaluation_form, rule string_deps.dependency_sets_axioms) code_simp+

text \<open>C13: the values an evaluated set holds are, up to equality, those that the iterator of
  conditional values returns with conditions that all hold.\<close>

theorem evaluation_values:
  assumes "dependency_sets Q c ix" "list_all (wf_dependency Q) ds" "parsed_conditions ds"
    "dependency_set_evaluate ix options ds = Some es"
    "drain conditional_flatten_next (conditional_flatten_queue ds) = Some vs"
  shows "(\<forall>v \<in> set (flats es). \<exists>us. (us, v) \<in> set vs \<and> list_all (active options) us) \<and>
    (\<forall>(us, v) \<in> set vs. list_all (active options) us \<longrightarrow> (\<exists>w \<in> set (flats es). c w v = Equal))"
  using dependency_sets.set_evaluate_flats [OF assms] by blast

lemma evaluation_values_witness:
  "\<exists>us. (us, ''b'') \<in> set [([condition True ''u''], ''a''), ([condition True ''u'', condition False ''v''], ''b''),
      ([condition True ''u''], ''c''), ([condition True ''w''], ''d'')] \<and> list_all (active {''u''}) us"
  by (rule evaluation_values [THEN conjunct1, THEN bspec, of "\<lambda>_. True" cmp_str str_ix
        "required_set ''u? ( a || ( !v? ( b ) c ) ) ( w? ( d ) )''" _ "required_set ''a || ( b c )''"],
      rule string_deps.dependency_sets_axioms, code_simp, code_simp, code_simp)
    (simp only: drain_conditional_flatten, code_simp, code_simp)

section \<open>Parsing\<close>

text \<open>The grammar of package dependencies: a conditional group, an any-of group, an all-of
  group or a dependency, in this order, with expressions of the same grammar in the groups; no
  nesting is too deep.\<close>

lemma package_dependency_grammar:
  "p_package_dependency ux ix e s =
    p_alt (p_conditional ix (p_package_dependency ux ix e))
   (p_alt (p_any_of ix (p_package_dependency ux ix e))
   (p_alt (p_all_of ix (p_package_dependency ux ix e))
          (p_map Enabled (p_dep ux e)))) s"
  by (rule package_dependency_unfold)

text \<open>C11: a set of package dependencies that parses prints, every dependency in it without panic, as
  a string that parses as the same set.\<close>

theorem package_set_parse_print:
  assumes "dependency_sets wf_dep dep_cmp ix" "index_set (=) ux" "parse_package_dependency_set ux ix s e = Inr ds"
  shows "parse_package_dependency_set ux ix (dependency_set_display dep_text ds) e = Inr ds \<and>
    list_all (\<lambda>d. dep_display d = Some (dep_text d)) (flats ds)"
proof
  note g = package_grammar [OF assms(1,2), of e]
  have valid: "valid_set (dependency_eq dep_cmp) (set [GConditional, GAnyOf, GAllOf]) (valid_package_value e) ds"
    using dependency_grammar.set_valid [OF g, of "[GConditional, GAnyOf, GAllOf]"] assms(3) unfolding parse_package_dependency_set_def p_package_dependency_def
    by (simp del: list.set)
  then show "parse_package_dependency_set ux ix (dependency_set_display dep_text ds) e = Inr ds"
    using dependency_grammar.set_reads [OF g, of "[GConditional, GAnyOf, GAllOf]"] unfolding parse_package_dependency_set_def p_package_dependency_def
    by (simp del: list.set)
  show "list_all (\<lambda>d. dep_display d = Some (dep_text d)) (flats ds)"
    using valid_flats [OF valid] by (fastforce simp: list_all_iff valid_package_value_def valid_dep_def dep_display_text)
qed

lemma package_set_parse_print_witness:
  "parse_package_dependency_set ref_ix pkg_ix (dependency_set_display dep_text
     (package_set ''u? ( || ( >=a/b-1[x]  c/d:0 ) ) ( a/b  a/b ) !!e/f'')) ids_eapi =
   Inr (package_set ''u? ( || ( >=a/b-1[x]  c/d:0 ) ) ( a/b  a/b ) !!e/f'')"
  by (rule package_set_parse_print [THEN conjunct1,
        of _ _ "''u? ( || ( >=a/b-1[x]  c/d:0 ) ) ( a/b  a/b ) !!e/f''"],
      rule package_deps.dependency_sets_axioms, rule ref_set.index_set_axioms) code_simp

text \<open>Sets of REQUIRED_USE expressions that parse, and likewise those of LICENSE, print as
  strings that parse as the same set.\<close>

lemma string_set_parse_print:
  assumes "dependency_sets (\<lambda>_. True) cmp_str ix"
  shows "(parse_required_use_dependency_set ix s = Inr ds \<longrightarrow>
      parse_required_use_dependency_set ix (dependency_set_display (\<lambda>x. x) ds) = Inr ds) \<and>
    (parse_license_dependency_set ix s = Inr ds \<longrightarrow>
      parse_license_dependency_set ix (dependency_set_display (\<lambda>x. x) ds) = Inr ds)"
  using dependency_grammar.set_valid [OF required_use_grammar [OF assms], of "[GConditional, GAnyOf, GAllOf, GExactlyOneOf, GAtMostOneOf]"]
    dependency_grammar.set_reads [OF required_use_grammar [OF assms], of "[GConditional, GAnyOf, GAllOf, GExactlyOneOf, GAtMostOneOf]"]
    dependency_grammar.set_valid [OF license_grammar [OF assms], of "[GConditional, GAnyOf, GAllOf]"]
    dependency_grammar.set_reads [OF license_grammar [OF assms], of "[GConditional, GAnyOf, GAllOf]"]
  unfolding parse_required_use_dependency_set_def p_required_use_dependency_def
    parse_license_dependency_set_def p_license_dependency_def
  by (simp del: list.set)

text \<open>SRC_URI reads a group that is not closed, or has no members, as URIs: its URIs are any
  characters that are not white space, and only a leading closing parenthesis is excluded. The other
  grammars reject it.\<close>

lemma src_uri_unclosed_group:
  "map_sum (\<lambda>_. ()) (map (dependency_display uri_display))
     (parse_src_uri_dependency_set (ref_index_set (dependency_eq uri_cmp)) ''u? ( a'') = Inr [''u?'', ''('', ''a''] \<and>
   parse_license_dependency_set str_ix ''u? ( a'' = Inl (PegParse ''invalid LICENSE'' ''u? ( a'') \<and>
   parse_properties_dependency_set str_ix ''u? ( a'' = Inl (PegParse ''invalid PROPERTIES'' ''u? ( a'') \<and>
   parse_restrict_dependency_set str_ix ''u? ( a'' = Inl (PegParse ''invalid RESTRICT'' ''u? ( a'') \<and>
   parse_required_use_dependency_set str_ix ''u? ( a'' = Inl (PegParse ''invalid REQUIRED_USE'' ''u? ( a'')"
  by code_simp

section \<open>Sets\<close>

text \<open>The union by value, by reference and in place are the same set.\<close>

lemma set_union_agree:
  assumes "dependency_sets Q c ix" "distinct_by (dependency_eq c) s"
  shows "set_or ix s t = set_or_assign ix s t \<and> set_or_ref ix s t = set_or_assign ix s t"
  using dependency_sets.set_or_agree [OF assms] by blast

lemma set_union_agree_witness:
  "set_or_ref str_ix (required_set ''a ( b c )'') (required_set ''( c b ) d a'') = required_set ''a ( b c ) d''"
  by (subst set_union_agree [THEN conjunct2, OF string_deps.dependency_sets_axioms]) code_simp+

text \<open>Intersection and difference by value keep what occurs in the other set at any depth, or
  not at all, where those by reference ask for members; they agree on sets without
  groups on the right, and differ on \<open>{a}\<close> and \<open>{( a )}\<close>.\<close>

lemma set_operations_differ:
  assumes "dependency_sets Q c ix" "distinct_by (dependency_eq c) s"
  shows "set_and c ix s t = filter (\<lambda>d. \<exists>x \<in> set (concat (map preorder t)). dependency_eq c x d) s \<and>
    set_sub c ix s t = filter (\<lambda>d. \<not> (\<exists>x \<in> set (concat (map preorder t)). dependency_eq c x d)) s \<and>
    set_and_ref ix s t = filter (\<lambda>d. \<exists>x \<in> set t. dependency_eq c x d) s \<and>
    set_sub_ref ix s t = filter (\<lambda>d. \<not> (\<exists>x \<in> set t. dependency_eq c x d)) s"
  using dependency_sets.set_and_eq [OF assms] dependency_sets.set_and_ref_eq [OF assms]
    dependency_sets.set_sub_eq [OF assms] dependency_sets.set_sub_ref_eq [OF assms]
  by (simp only: dependency_sets.contains [OF assms(1), abs_def] set_contains_iff [abs_def] simp_thms)

end
