(* ===== verification/Restrict_Props.thy ===== *)
theory Restrict_Props
  imports Restrict_Laws Dep_Text
begin

text \<open>
  The properties of restrictions, over the lemmas of \<open>Restrict\<close> and \<open>Restrict_Laws\<close>.
\<close>

section \<open>Combinators\<close>

text \<open>What a restriction adds to an exclusive combination that it is merged into: its members if it is one
  itself, which the code takes out of it, or itself.\<close>

definition xor_values :: "('v \<Rightarrow> bool) \<Rightarrow> 'v restrict \<Rightarrow> bool list" where
  "xor_values m r = (case r of RXor vals \<Rightarrow> map (boolean_matches m) vals | _ \<Rightarrow> [boolean_matches m r])"

lemma xor_members_values:
  "map (boolean_matches m) (concat (map (\<lambda>r. case r of RXor vals \<Rightarrow> vals | _ \<Rightarrow> [r]) rs)) = concat (map (xor_values m) rs)"
proof (induction rs)
  case (Cons r rs)
  then show ?case by (cases r) (simp_all add: xor_values_def)
qed simp

lemma unwrapped_xor: "boolean_matches m (unwrap_single RXor vals) = xor_result (map (boolean_matches m) vals)"
  by (auto simp: unwrap_single_def xor_result_def xor_scan_None length_Suc_conv)

text \<open>C23: however nested restrictions are merged, a conjunction matches when all of its members
  do and a disjunction when one of them does. An exclusive combination takes the members out of those that
  it combines and matches when what it then has do not all agree, and as its only member where it has one.\<close>

theorem restrict_combinators_meaning:
  "boolean_matches m (restrict_and rs) = list_all (boolean_matches m) rs \<and>
   boolean_matches m (restrict_or rs) = list_ex (boolean_matches m) rs \<and>
   boolean_matches m (restrict_xor rs) = xor_result (concat (map (xor_values m) rs))"
  using xor_members_values [of m rs] by (simp add: restrict_xor_def unwrapped_xor)

text \<open>Merging the members of a nested exclusive combination changes what it matches.\<close>

lemma xor_merge_differs:
  "boolean_matches (\<lambda>b. b) (RXor [RXor [Var True, Var False], Var True]) = False \<and>
   boolean_matches (\<lambda>b. b) (restrict_xor [RXor [Var True, Var False], Var True]) = True \<and>
   boolean_matches (\<lambda>b. b) (RXor [Var True]) = False \<and> boolean_matches (\<lambda>b. b) (restrict_xor [Var True]) = True"
  by (simp add: restrict_xor_def unwrap_single_def)

section \<open>Dependencies\<close>

text \<open>C22: the restriction made from a dependency matches that dependency, and a dependency it
  matches, unless that one asks for a flag both on and off, intersects it.\<close>

theorem dep_restriction_matches:
  assumes "index_set (=) ux" "wf_dep d" "matches_dep re ux (restrict_of_dep d) x"
    "pred_option consistent_uses (dep_use_deps x)"
  shows "matches_dep re ux (restrict_of_dep d) d \<and> dep_intersects ux d x"
  using dep_matches_itself [OF assms(1,2)] dep_match_intersects [OF assms(1,3,4)] by blast

lemma dep_restriction_matches_witness:
  "dep_intersects ref_ix (parsed_dep ''>=a/b-1:2[u]'') (parsed_dep ''=a/b-1.5:2/3::r[x,u]'')"
  using dep_restriction_matches [of ref_ix "parsed_dep ''>=a/b-1:2[u]''" "\<lambda>p s. False"
      "parsed_dep ''=a/b-1.5:2/3::r[x,u]''"]
  by (rule conjunct2)
    (rule ref_set.index_set_axioms | code_simp | simp add: consistent_uses_def use_deps_conflict_def)+

section \<open>Scopes\<close>

text \<open>What a conjunction of package scope matches has one package name, when its members
  are not combinations themselves.\<close>

lemma package_scope_one_name:
  assumes "restrict_scope (RAnd vals) = ScopePackage" "list_all plain_restrict vals"
    "matches_cpn re (RAnd vals) a" "matches_cpn re (RAnd vals) b"
  shows "cpn_package a = cpn_package b"
  using package_scope_name [OF assms(1,2)] assms(3,4) by blast

text \<open>With a disjunction as a member, the least scope is that of one of its alternatives.\<close>

lemma package_scope_two_names:
  "restrict_scope (RAnd [ROr [Var (BDep (DepPackage (Var (StrEqual ''p'')))), Var (BDep (DepCategory (Var (StrEqual ''a''))))]]) =
     ScopePackage \<and>
   list_all (\<lambda>pn. matches_cpn (\<lambda>p s. False)
       (RAnd [ROr [Var (BDep (DepPackage (Var (StrEqual ''p'')))), Var (BDep (DepCategory (Var (StrEqual ''a''))))]])
       \<lparr>cpn_category = ''a'', cpn_package = pn\<rparr>) [''p'', ''q'']"
  by (simp add: flattened_scopes_eq matches_cpn_def)

end
