(* ===== verification/Fake_Repo.thy ===== *)
theory Fake_Repo
  imports Restrict_Laws Dep_Text Sorted_Set
begin

text \<open>
  Repositories without ebuilds (\<open>repo/fake.rs\<close>) and their packages (\<open>pkg/fake.rs\<close>):
  a sorted set of \<open>Cpv\<close>s, and the map of categories to packages to versions that is built
  from it. Logged errors are left out.
\<close>

section \<open>Maps in insertion order\<close>

text \<open>\<open>entry(k).or_default()\<close> of an \<open>IndexMap\<close>, and a change of the value.\<close>

fun map_entry :: "'k \<Rightarrow> 'v \<Rightarrow> ('v \<Rightarrow> 'v) \<Rightarrow> ('k \<times> 'v) list \<Rightarrow> ('k \<times> 'v) list" where
  "map_entry k d f [] = [(k, f d)]"
| "map_entry k d f ((k', v) # m) = (if k' = k then (k', f v) # m else (k', v) # map_entry k d f m)"

lemma map_of_map_entry [simp]:
  "map_of (map_entry k d f m) k' = (if k' = k then Some (f (case map_of m k of None \<Rightarrow> d | Some v \<Rightarrow> v)) else map_of m k')"
  by (induction k d f m rule: map_entry.induct) auto

lemma keys_map_entry: "map fst (map_entry k d f m) = add_new (=) (map fst m) k"
  by (induction k d f m rule: map_entry.induct) (auto simp: add_new_def mem_by_def)

section \<open>The repository\<close>

type_synonym version_map = "(string \<times> version list) list"
type_synonym pkg_map = "(string \<times> version_map) list"

record fake_repo =
  fr_id :: string
  fr_priority :: int
  fr_pkgmap :: pkg_map
  fr_cpvs :: "cpv list"

definition fake_new :: "string \<Rightarrow> int \<Rightarrow> fake_repo" where
  "fake_new rid priority = \<lparr>fr_id = rid, fr_priority = priority, fr_pkgmap = [], fr_cpvs = []\<rparr>"

definition pkgmap_insert :: "version index_set \<Rightarrow> pkg_map \<Rightarrow> cpv \<Rightarrow> pkg_map" where
  "pkgmap_insert vx m c = map_entry (cpn_category (cpv_cpn c)) []
     (map_entry (cpn_package (cpv_cpn c)) [] (\<lambda>vs. fst (is_insert vx vs (cpv_version c)))) m"

text \<open>The values are what \<open>try_into\<close> made of the items; failures are logged.\<close>

definition fake_extend :: "cpv index_set \<Rightarrow> version index_set \<Rightarrow> fake_repo \<Rightarrow> (error + cpv) list \<Rightarrow> fake_repo" where
  "fake_extend cx vx r items =
    (let cpvs = foldl (\<lambda>s item. case item of Inl e \<Rightarrow> s | Inr c \<Rightarrow> fst (is_insert cx s c)) (fr_cpvs r) items
     in if length (fr_cpvs r) \<noteq> length cpvs
        then (let sorted = sort_cmp cpv_cmp cpvs
          in r\<lparr>fr_cpvs := sorted, fr_pkgmap := foldl (pkgmap_insert vx) [] sorted\<rparr>)
        else r\<lparr>fr_cpvs := cpvs\<rparr>)"

text \<open>The file of a repository, if it can be read.\<close>

definition fake_from_path :: "cpv index_set \<Rightarrow> version index_set \<Rightarrow> string \<Rightarrow> int \<Rightarrow> string \<Rightarrow> string option \<Rightarrow>
    error + fake_repo" where
  "fake_from_path cx vx rid priority path contents = (case contents of
     None \<Rightarrow> Inl (NotARepo rid path)
   | Some data \<Rightarrow> Inr (fake_extend cx vx (fake_new rid priority) (map parse_cpv (str_lines data))))"

definition fake_categories :: "fake_repo \<Rightarrow> string list" where
  "fake_categories r = map fst (fr_pkgmap r)"

definition fake_packages :: "fake_repo \<Rightarrow> string \<Rightarrow> string list" where
  "fake_packages r cat = (case map_of (fr_pkgmap r) cat of None \<Rightarrow> [] | Some pkgs \<Rightarrow> map fst pkgs)"

definition fake_versions :: "fake_repo \<Rightarrow> string \<Rightarrow> string \<Rightarrow> version list" where
  "fake_versions r cat pkg = (case Option.bind (map_of (fr_pkgmap r) cat) (\<lambda>pkgs. map_of pkgs pkg) of
     None \<Rightarrow> [] | Some vs \<Rightarrow> vs)"

definition fake_len :: "fake_repo \<Rightarrow> nat" where
  "fake_len r = length (fr_cpvs r)"

definition fake_is_empty :: "fake_repo \<Rightarrow> bool" where
  "fake_is_empty r \<longleftrightarrow> fr_cpvs r = []"

definition fake_iter_cpn :: "cpn index_set \<Rightarrow> fake_repo \<Rightarrow> cpn list" where
  "fake_iter_cpn nx r = is_collect nx (map cpv_cpn (fr_cpvs r))"

definition fake_iter_cpn_restrict :: "(string \<Rightarrow> string \<Rightarrow> bool) \<Rightarrow> cpn index_set \<Rightarrow> fake_repo \<Rightarrow> base_restrict \<Rightarrow> cpn list" where
  "fake_iter_cpn_restrict re nx r restrict = filter (matches_cpn re restrict) (fake_iter_cpn nx r)"

definition fake_iter_cpv :: "fake_repo \<Rightarrow> cpv list" where
  "fake_iter_cpv r = fr_cpvs r"

definition fake_iter_cpv_restrict :: "(string \<Rightarrow> string \<Rightarrow> bool) \<Rightarrow> fake_repo \<Rightarrow> base_restrict \<Rightarrow> cpv list" where
  "fake_iter_cpv_restrict re r restrict = filter (matches_cpv re restrict) (fake_iter_cpv r)"

section \<open>Packages\<close>

record fake_pkg =
  fp_cpv :: cpv
  fp_repo :: fake_repo

text \<open>\<open>EAPI_LATEST_OFFICIAL\<close>.\<close>

definition eapi_latest_official :: eapi where
  "eapi_latest_official = the EAPI8"

fun pkg_restrict_matches_fake :: "(string \<Rightarrow> string \<Rightarrow> bool) \<Rightarrow> fake_pkg \<Rightarrow> pkg_restrict \<Rightarrow> bool" where
  "pkg_restrict_matches_fake re p (PkgEapi r) = eapi_restrict_matches re eapi_latest_official r"
| "pkg_restrict_matches_fake re p (PkgRepo r) = str_matches re r (fr_id (fp_repo p))"
| "pkg_restrict_matches_fake re p (PkgEbuild r) = False"

definition matches_fake :: "(string \<Rightarrow> string \<Rightarrow> bool) \<Rightarrow> base_restrict \<Rightarrow> fake_pkg \<Rightarrow> bool" where
  "matches_fake re r p = boolean_matches (restrict_match
     (Some (dep_restrict_matches_pkg re (fr_id (fp_repo p)) (fp_cpv p))) (Some (pkg_restrict_matches_fake re p)) None) r"

definition fake_pkg_intersects :: "fake_pkg \<Rightarrow> dep \<Rightarrow> bool" where
  "fake_pkg_intersects p d =
    (if cpv_cpn (fp_cpv p) \<noteq> dep_cpn d then False
     else if dep_slot_dep d \<noteq> None then False
     else if dep_use_deps d \<noteq> None then False
     else if (case dep_repo d of Some val \<Rightarrow> fr_id (fp_repo p) \<noteq> val | None \<Rightarrow> False) then False
     else (case dep_version d of Some val \<Rightarrow> version_intersects (cpv_version (fp_cpv p)) val | None \<Rightarrow> True))"

definition fake_iter :: "fake_repo \<Rightarrow> fake_pkg list" where
  "fake_iter r = map (\<lambda>c. \<lparr>fp_cpv = c, fp_repo = r\<rparr>) (fr_cpvs r)"

definition fake_iter_restrict :: "(string \<Rightarrow> string \<Rightarrow> bool) \<Rightarrow> fake_repo \<Rightarrow> base_restrict \<Rightarrow> fake_pkg list" where
  "fake_iter_restrict re r restrict = filter (matches_fake re restrict) (fake_iter r)"

definition fake_contains_cpn :: "(string \<Rightarrow> string \<Rightarrow> bool) \<Rightarrow> fake_repo \<Rightarrow> cpn \<Rightarrow> bool" where
  "fake_contains_cpn re r a \<longleftrightarrow> fake_iter_restrict re r (restrict_of_cpn a) \<noteq> []"

definition fake_contains_cpv :: "cpv index_set \<Rightarrow> fake_repo \<Rightarrow> cpv \<Rightarrow> bool" where
  "fake_contains_cpv cx r c \<longleftrightarrow> is_contains cx (fr_cpvs r) c"

definition fake_contains_dep :: "(string \<Rightarrow> string \<Rightarrow> bool) \<Rightarrow> fake_repo \<Rightarrow> dep \<Rightarrow> bool" where
  "fake_contains_dep re r d \<longleftrightarrow> fake_iter_restrict re r (restrict_of_dep d) \<noteq> []"

definition fake_get_pkg :: "cpv index_set \<Rightarrow> fake_repo \<Rightarrow> error + cpv \<Rightarrow> error + fake_pkg" where
  "fake_get_pkg cx r value = (case value of Inl e \<Rightarrow> Inl e
   | Inr c \<Rightarrow> if fake_contains_cpv cx r c then Inr \<lparr>fp_cpv = c, fp_repo = r\<rparr>
      else Inl (InvalidValue ''not in repo'' (cpv_display c)))"

section \<open>The state\<close>

text \<open>The \<open>Cpv\<close>s are sorted without duplicates, and the map holds what they say.\<close>

definition wf_fake :: "version index_set \<Rightarrow> fake_repo \<Rightarrow> bool" where
  "wf_fake vx r \<longleftrightarrow> list_all wf_cpv (fr_cpvs r) \<and> strict_sorted_cmp cpv_cmp (fr_cpvs r) \<and>
     fr_pkgmap r = foldl (pkgmap_insert vx) [] (fr_cpvs r)"

lemma wf_fake_new: "wf_fake vx (fake_new rid priority)"
  by (simp add: wf_fake_def fake_new_def)

end
