(* ===== verification/Ebuild_Repo.thy ===== *)
theory Ebuild_Repo
  imports Restrict_Laws Dep_Text
begin

text \<open>
  Ebuild repositories (\<open>repo/ebuild.rs\<close>) as trees of categories, packages and ebuild
  files: listing, the iterators over \<open>Cpn\<close> and \<open>Cpv\<close> with their fast paths for
  restrictions, and restrictions for paths. The file system is a function from paths relative
  to the repository to what is there, if anything; what is read from a directory comes in any
  order. Iteration in parallel, caching and warnings do not change what is returned and are
  left out.
\<close>

section \<open>The file system\<close>

datatype fs_node = FsFile | FsDir "string list"

type_synonym file_system = "string \<Rightarrow> fs_node option"

definition path_join :: "string \<Rightarrow> string \<Rightarrow> string" where
  "path_join p q = p @ ''/'' @ q"

definition is_dir :: "file_system \<Rightarrow> string \<Rightarrow> bool" where
  "is_dir fs p = (case fs p of Some (FsDir _) \<Rightarrow> True | _ \<Rightarrow> False)"

definition is_file :: "file_system \<Rightarrow> string \<Rightarrow> bool" where
  "is_file fs p = (fs p = Some FsFile)"

definition path_exists :: "file_system \<Rightarrow> string \<Rightarrow> bool" where
  "path_exists fs p = (fs p \<noteq> None)"

definition read_dir :: "file_system \<Rightarrow> string \<Rightarrow> string list option" where
  "read_dir fs p = (case fs p of Some (FsDir es) \<Rightarrow> Some es | _ \<Rightarrow> None)"

definition is_hidden :: "string \<Rightarrow> bool" where
  "is_hidden name = starts_with name ''.''"

text \<open>\<open>Path::extension\<close> and \<open>file_stem\<close> of a file name.\<close>

definition extension :: "string \<Rightarrow> string option" where
  "extension name = (case rsplit_once (CHR ''.'') name of
     Some (stem, ext) \<Rightarrow> if stem = [] then None else Some ext | None \<Rightarrow> None)"

definition file_stem :: "string \<Rightarrow> string" where
  "file_stem name = (case rsplit_once (CHR ''.'') name of
     Some (stem, ext) \<Rightarrow> if stem = [] then name else stem | None \<Rightarrow> name)"

definition is_ebuild :: "file_system \<Rightarrow> string \<Rightarrow> string \<Rightarrow> bool" where
  "is_ebuild fs dir name \<longleftrightarrow> is_file fs (path_join dir name) \<and> \<not> is_hidden name \<and> extension name = Some ''ebuild''"

definition sorted_dir_list :: "file_system \<Rightarrow> string \<Rightarrow> error + string list" where
  "sorted_dir_list fs p = (case read_dir fs p of
     None \<Rightarrow> Inl (IOError ''failed reading dir'' p) | Some es \<Rightarrow> Inr (sort_cmp cmp_str es))"

definition strip_prefix :: "string \<Rightarrow> string \<Rightarrow> string option" where
  "strip_prefix s p = (if starts_with s p then Some (drop (length p) s) else None)"

definition strip_suffix :: "string \<Rightarrow> string \<Rightarrow> string option" where
  "strip_suffix s p = (if ends_with s p then Some (take (length s - length p) s) else None)"

text \<open>The components of a relative path.\<close>

definition path_components :: "string \<Rightarrow> string list" where
  "path_components p = filter (\<lambda>c. c \<noteq> [] \<and> c \<noteq> ''.'') (split_char (CHR ''/'') p)"

section \<open>Repositories\<close>

text \<open>The categories listed in the metadata of every tree, of its masters and of the
  repository itself, and the files.\<close>

record ebuild_repo =
  er_trees :: "string list list"
  er_fs :: file_system

definition categories :: "string index_set \<Rightarrow> ebuild_repo \<Rightarrow> string list" where
  "categories sx r = sort_cmp cmp_str (is_collect sx (filter (is_dir (er_fs r)) (concat (er_trees r))))"

definition packages :: "string index_set \<Rightarrow> ebuild_repo \<Rightarrow> string \<Rightarrow> string list" where
  "packages sx r cat = (case sorted_dir_list (er_fs r) cat of
     Inl e \<Rightarrow> []
   | Inr es \<Rightarrow> is_collect sx (filter (\<lambda>e. is_dir (er_fs r) (path_join cat e) \<and> \<not> is_hidden e \<and>
       (case parse_package e of Inl _ \<Rightarrow> False | Inr _ \<Rightarrow> True)) es))"

definition versions :: "version index_set \<Rightarrow> ebuild_repo \<Rightarrow> string \<Rightarrow> string \<Rightarrow> version list" where
  "versions vx r cat pkg = (case sorted_dir_list (er_fs r) (path_join cat pkg) of
     Inl e \<Rightarrow> []
   | Inr es \<Rightarrow> sort_cmp version_ord (is_collect vx (List.map_filter
       (\<lambda>e. case Option.bind (strip_prefix (file_stem e) pkg) (\<lambda>s. strip_prefix s ''-'') of
          None \<Rightarrow> None
        | Some s \<Rightarrow> (case version_try_new s of Inl _ \<Rightarrow> None | Inr v \<Rightarrow> Some v))
       (filter (is_ebuild (er_fs r) (path_join cat pkg)) es))))"

text \<open>The first two components name the package; a path outside the categories is meant to be
  ignored, but the error for it is dropped.\<close>

definition cpn_from_path :: "string \<Rightarrow> error + cpn" where
  "cpn_from_path path =
    (case take 2 (path_components path) of
       [cat, pkg] \<Rightarrow> cpn_try_from cat pkg
     | _ \<Rightarrow> Inl (InvalidValue ''invalid package path: mismatched path components'' path))"

definition cpv_from_path :: "string \<Rightarrow> error + cpv" where
  "cpv_from_path path =
    (case path_components path of
       [cat, pkg, file] \<Rightarrow>
         (case cpn_try_from cat pkg of Inl e \<Rightarrow> Inl e | Inr cpn \<Rightarrow>
         (case strip_suffix file ''.ebuild'' of
            None \<Rightarrow> Inl (InvalidValue ''invalid ebuild path: non-ebuild file'' path)
          | Some p \<Rightarrow>
            (case Option.bind (strip_prefix p (cpn_package cpn)) (\<lambda>s. strip_prefix s ''-'') of
               None \<Rightarrow> if str_contains p ''-'' then Inl (InvalidValue ''mismatched package name'' file)
                 else Inl (InvalidValue ''missing version'' file)
             | Some version \<Rightarrow>
               (case version_try_new version of
                  Inl _ \<Rightarrow> Inl (InvalidValue (file @ '': invalid version'') version)
                | Inr v \<Rightarrow> Inr \<lparr>cpv_cpn = cpn, cpv_version = v\<rparr>))))
     | _ \<Rightarrow> Inl (InvalidValue ''invalid ebuild path: mismatched path components'' path))"

text \<open>\<open>Result\<close> values are ordered as their variants are declared, successes first;
  \<open>ec\<close> is the order of errors.\<close>

fun result_cmp :: "('e \<Rightarrow> 'e \<Rightarrow> ordering) \<Rightarrow> ('a \<Rightarrow> 'a \<Rightarrow> ordering) \<Rightarrow> 'e + 'a \<Rightarrow> 'e + 'a \<Rightarrow> ordering" where
  "result_cmp ec c (Inr x) (Inr y) = c x y"
| "result_cmp ec c (Inr x) (Inl e) = Less"
| "result_cmp ec c (Inl e) (Inr x) = Greater"
| "result_cmp ec c (Inl d) (Inl e) = ec d e"

definition oks :: "('e + 'a) list \<Rightarrow> 'a list" where
  "oks rs = List.map_filter (\<lambda>r. case r of Inl _ \<Rightarrow> None | Inr x \<Rightarrow> Some x) rs"

definition cpvs_from_package :: "(error \<Rightarrow> error \<Rightarrow> ordering) \<Rightarrow> ebuild_repo \<Rightarrow> string \<Rightarrow> string \<Rightarrow> (error + cpv) list" where
  "cpvs_from_package ec r cat pkg = (let path = path_join cat pkg in case read_dir (er_fs r) path of
     Some es \<Rightarrow> sort_cmp (result_cmp ec cpv_cmp)
       (map (\<lambda>e. cpv_from_path (path_join path e)) (filter (is_ebuild (er_fs r) path) es))
   | None \<Rightarrow> [])"

definition cpvs_from_category :: "(error \<Rightarrow> error \<Rightarrow> ordering) \<Rightarrow> cpv index_set \<Rightarrow> ebuild_repo \<Rightarrow> string \<Rightarrow> cpv list" where
  "cpvs_from_category ec cx r cat = (case read_dir (er_fs r) cat of
     Some es \<Rightarrow> sort_cmp cpv_cmp (is_collect cx (concat (map (\<lambda>e. oks (cpvs_from_package ec r cat e)) es)))
   | None \<Rightarrow> [])"

definition contains_cpn :: "ebuild_repo \<Rightarrow> cpn \<Rightarrow> bool" where
  "contains_cpn r a = path_exists (er_fs r) (cpn_display a)"

definition contains_cpv :: "ebuild_repo \<Rightarrow> cpv \<Rightarrow> bool" where
  "contains_cpv r c = path_exists (er_fs r) (cpv_relpath c)"

section \<open>Deprecated packages\<close>

text \<open>The first entry of the list of deprecated packages that a dependency intersects, unless
  its slots ask for something else.\<close>

definition deprecated :: "use_dep index_set \<Rightarrow> dep list \<Rightarrow> dep \<Rightarrow> dep option" where
  "deprecated ux pkg_deprecated d =
    (if dep_blocker d \<noteq> None then None
     else (case find (\<lambda>x. dep_intersects ux x d) pkg_deprecated of
       None \<Rightarrow> None
     | Some pkg \<Rightarrow> (case (dep_slot_dep pkg, dep_slot_dep d) of
           (None, _) \<Rightarrow> Some pkg
         | (Some s1, Some s2) \<Rightarrow> if slot_dep_slot s1 = slot_dep_slot s2 then Some pkg else None
         | _ \<Rightarrow> None)))"

section \<open>Iterators\<close>

text \<open>The restrictions on categories, packages and versions that decide how to iterate: a
  conjunction at the top, or the restriction itself.\<close>

definition conjuncts :: "base_restrict \<Rightarrow> base_restrict list" where
  "conjuncts r = (case r of RAnd vals \<Rightarrow> vals | _ \<Rightarrow> [r])"

definition category_restricts :: "base_restrict list \<Rightarrow> str_restrict list" where
  "category_restricts rs = List.map_filter (\<lambda>r. case r of Var (BDep (DepCategory q)) \<Rightarrow> Some q | _ \<Rightarrow> None) rs"

definition package_restricts :: "base_restrict list \<Rightarrow> str_restrict list" where
  "package_restricts rs = List.map_filter (\<lambda>r. case r of Var (BDep (DepPackage q)) \<Rightarrow> Some q | _ \<Rightarrow> None) rs"

definition version_restricts :: "base_restrict list \<Rightarrow> version option list" where
  "version_restricts rs = List.map_filter (\<lambda>r. case r of Var (BDep (DepVersion v)) \<Rightarrow> Some v | _ \<Rightarrow> None) rs"

text \<open>The value of an equality restriction.\<close>

fun equal_value :: "str_restrict list \<Rightarrow> string option" where
  "equal_value [Var (StrEqual s)] = Some s"
| "equal_value _ = None"

fun exact_version :: "version option list \<Rightarrow> version option" where
  "exact_version [Some v] = (if ver_op v = None \<or> ver_op v = Some OpEqual then Some v else None)"
| "exact_version _ = None"

abbreviation str_and :: "str_restrict list \<Rightarrow> base_restrict" where
  "str_and rs \<equiv> restrict_and (map (\<lambda>r. Var (BStr r)) rs)"

definition iter_cpn :: "(string \<Rightarrow> string \<Rightarrow> bool) \<Rightarrow> string index_set \<Rightarrow> ebuild_repo \<Rightarrow> base_restrict option \<Rightarrow> cpn list" where
  "iter_cpn re sx r restrict =
    (let rs = (case restrict of None \<Rightarrow> [] | Some q \<Rightarrow> conjuncts q);
         cats = category_restricts rs; pkgs = package_restricts rs;
         cpn = (\<lambda>cat pn. \<lparr>cpn_category = cat, cpn_package = pn\<rparr>)
     in if cats = [] \<and> pkgs = []
        then sort_cmp cpn_cmp (concat (map (\<lambda>cat. map (cpn cat) (packages sx r cat)) (categories sx r)))
        else (case (equal_value cats, equal_value pkgs) of
          (Some cat, Some pn) \<Rightarrow>
            (case cpn_try_from cat pn of
               Inr a \<Rightarrow> if contains_cpn r a then [a] else []
             | Inl _ \<Rightarrow> [])
        | (Some cat, None) \<Rightarrow> map (cpn cat) (filter (matches_string re (str_and pkgs)) (packages sx r cat))
        | (None, Some pn) \<Rightarrow>
            filter (contains_cpn r)
              (map (\<lambda>cat. cpn cat pn) (filter (matches_string re (str_and cats)) (categories sx r)))
        | (None, None) \<Rightarrow>
            concat (map (\<lambda>cat. map (cpn cat) (filter (matches_string re (str_and pkgs)) (packages sx r cat)))
              (filter (matches_string re (str_and cats)) (categories sx r)))))"

definition iter_cpv :: "(string \<Rightarrow> string \<Rightarrow> bool) \<Rightarrow> (error \<Rightarrow> error \<Rightarrow> ordering) \<Rightarrow> string index_set \<Rightarrow> cpv index_set \<Rightarrow>
    ebuild_repo \<Rightarrow> base_restrict option \<Rightarrow> cpv list" where
  "iter_cpv re ec sx cx r restrict =
    (let rs = (case restrict of None \<Rightarrow> [] | Some q \<Rightarrow> conjuncts q);
         cats = category_restricts rs; pkgs = package_restricts rs; vers = version_restricts rs;
         ver_restrict = of_dep_restricts (map DepVersion vers)
     in if cats = [] \<and> pkgs = [] \<and> vers = []
        then sort_cmp cpv_cmp (concat (map (cpvs_from_category ec cx r) (categories sx r)))
        else (case (equal_value cats, equal_value pkgs, exact_version vers) of
          (Some cat, Some pn, Some ver) \<Rightarrow>
            (case cpv_try_from cat pn (version_without_op ver) of
               Inr c \<Rightarrow> if contains_cpv r c then [c] else []
             | Inl _ \<Rightarrow> [])
        | (Some cat, Some pn, None) \<Rightarrow>
            filter (matches_cpv re ver_restrict) (oks (cpvs_from_package ec r cat pn))
        | (cat, pn, _) \<Rightarrow>
            if cats = [] \<and> pn \<noteq> None
            then concat (map (\<lambda>cat. filter (matches_cpv re ver_restrict) (oks (cpvs_from_package ec r cat (the pn))))
              (categories sx r))
            else filter (matches_cpv re ver_restrict)
              (filter (matches_cpv re (of_dep_restricts (map DepPackage pkgs)))
                (concat (map (cpvs_from_category ec cx r)
                  (filter (matches_string re (of_dep_restricts (map DepCategory cats))) (categories sx r)))))))"

text \<open>\<open>IterCpnRestrict\<close> and \<open>IterCpvRestrict\<close>.\<close>

definition iter_cpn_restrict :: "(string \<Rightarrow> string \<Rightarrow> bool) \<Rightarrow> string index_set \<Rightarrow> ebuild_repo \<Rightarrow> base_restrict \<Rightarrow> cpn list" where
  "iter_cpn_restrict re sx r restrict = filter (matches_cpn re restrict)
     (if restrict = Var BFalse then [] else iter_cpn re sx r (Some restrict))"

definition iter_cpv_restrict :: "(string \<Rightarrow> string \<Rightarrow> bool) \<Rightarrow> (error \<Rightarrow> error \<Rightarrow> ordering) \<Rightarrow> string index_set \<Rightarrow> cpv index_set \<Rightarrow>
    ebuild_repo \<Rightarrow> base_restrict \<Rightarrow> cpv list" where
  "iter_cpv_restrict re ec sx cx r restrict = filter (matches_cpv re restrict)
     (if restrict = Var BFalse then [] else iter_cpv re ec sx cx r (Some restrict))"

text \<open>The packages themselves: \<open>load\<close> reads and parses the ebuild of a \<open>Cpv\<close>
  (\<open>EbuildRawPkg::try_new\<close>, and the metadata of the package), \<open>m\<close> matches a
  package with a restriction; errors are returned. \<open>IterRaw\<close>, \<open>Iter\<close>, their
  ordered variants and \<open>IterRestrict\<close> and the like.\<close>

definition iter_pkg :: "(cpv \<Rightarrow> error + 'p) \<Rightarrow> (string \<Rightarrow> string \<Rightarrow> bool) \<Rightarrow> (error \<Rightarrow> error \<Rightarrow> ordering) \<Rightarrow>
    string index_set \<Rightarrow> cpv index_set \<Rightarrow> ebuild_repo \<Rightarrow> base_restrict option \<Rightarrow> (error + 'p) list" where
  "iter_pkg load re ec sx cx r restrict = map load (iter_cpv re ec sx cx r restrict)"

definition iter_pkg_restrict :: "(cpv \<Rightarrow> error + 'p) \<Rightarrow> (base_restrict \<Rightarrow> 'p \<Rightarrow> bool) \<Rightarrow> (string \<Rightarrow> string \<Rightarrow> bool) \<Rightarrow>
    (error \<Rightarrow> error \<Rightarrow> ordering) \<Rightarrow> string index_set \<Rightarrow> cpv index_set \<Rightarrow> ebuild_repo \<Rightarrow> base_restrict \<Rightarrow>
    (error + 'p) list" where
  "iter_pkg_restrict load m re ec sx cx r restrict = filter (\<lambda>x. case x of Inr pkg \<Rightarrow> m restrict pkg | Inl e \<Rightarrow> True)
     (if restrict = Var BFalse then [] else iter_pkg load re ec sx cx r (Some restrict))"

definition ebuild_contains_dep :: "(cpv \<Rightarrow> error + ebuild_pkg) \<Rightarrow> (string \<Rightarrow> string \<Rightarrow> bool) \<Rightarrow>
    (error \<Rightarrow> error \<Rightarrow> ordering) \<Rightarrow> use_dep index_set \<Rightarrow> string index_set \<Rightarrow> cpv index_set \<Rightarrow> ebuild_repo \<Rightarrow> dep \<Rightarrow> bool" where
  "ebuild_contains_dep load re ec ux sx cx r d \<longleftrightarrow>
     iter_pkg_restrict load (matches_ebuild re ux sx) re ec sx cx r (restrict_of_dep d) \<noteq> []"

section \<open>Restrictions of paths\<close>

text \<open>The loop over the components of the path: the category, the package and the restrictions
  gathered so far; none are left when the path is not the path of a package.\<close>

fun path_restricts :: "string index_set \<Rightarrow> ebuild_repo \<Rightarrow> string \<Rightarrow> string \<Rightarrow> dep_restrict list \<Rightarrow> string list \<Rightarrow> dep_restrict list" where
  "path_restricts sx r cat pn rs [] = rs"
| "path_restricts sx r cat pn rs (s # ss) =
    (case rs of
       [] \<Rightarrow> if is_contains sx (categories sx r) s
         then path_restricts sx r s pn [dep_restrict_category s] ss else []
     | [a] \<Rightarrow> if is_contains sx (packages sx r cat) s
         then path_restricts sx r cat s [a, dep_restrict_package s] ss else []
     | [a, b] \<Rightarrow>
         (case strip_suffix s ''.ebuild'' of
            None \<Rightarrow> []
          | Some p \<Rightarrow> (case parse_cpv (path_join cat p) of
              Inl _ \<Rightarrow> []
            | Inr c \<Rightarrow> if pn = cpn_package (cpv_cpn c)
                then path_restricts sx r cat pn [a, b, DepVersion (Some (cpv_version c))] ss else []))
     | _ \<Rightarrow> [])"

text \<open>For a path relative to the repository, \<open>None\<close> when nothing exists there.\<close>

definition restrict_from_path :: "string index_set \<Rightarrow> ebuild_repo \<Rightarrow> string \<Rightarrow> base_restrict option" where
  "restrict_from_path sx r relpath =
    (if \<not> path_exists (er_fs r) relpath then None
     else (let restricts = path_restricts sx r [] [] [] (path_components relpath)
       in if restricts \<noteq> [] then Some (of_dep_restricts restricts)
          else if relpath = [] then Some (Var BTrue)
          else Some (Var BFalse)))"

end
