(* ===== verification/Ebuild_Repo_Laws.thy ===== *)
theory Ebuild_Repo_Laws
  imports Ebuild_Repo
begin

text \<open>
  Paths and names of ebuilds, repositories whose files are as they should be, and what their
  directories list.
\<close>

section \<open>File names and paths\<close>

definition file_name_ok :: "string \<Rightarrow> bool" where
  "file_name_ok e \<longleftrightarrow> e \<noteq> [] \<and> CHR ''/'' \<notin> set e \<and> e \<noteq> ''.''"

lemma is_name_no_slash: "valid_category s \<Longrightarrow> CHR ''/'' \<notin> set s"
  by (cases s) (auto simp: valid_category_def is_name_def list_all_iff)

lemma valid_category_file [intro]: "valid_category s \<Longrightarrow> file_name_ok s"
  using is_name_no_slash [of s]
  by (auto simp: file_name_ok_def valid_category_def is_name_def word_char_def char_classes)

lemma valid_package_no_slash: "valid_package s \<Longrightarrow> CHR ''/'' \<notin> set s"
  using package_body_chars [of "[]" "tl s" "CHR ''/''"]
  by (cases s) (auto simp: valid_package_def package_char_def)

lemma valid_package_file [intro]: "valid_package s \<Longrightarrow> file_name_ok s"
  using valid_package_no_slash [of s]
  by (auto simp: file_name_ok_def valid_package_def word_char_def char_classes)

lemma path_components_Cons: "file_name_ok a \<Longrightarrow> path_components (path_join a p) = a # path_components p"
  by (simp add: path_components_def path_join_def file_name_ok_def split_char_append)

lemma path_components_one: "file_name_ok a \<Longrightarrow> path_components a = [a]"
  by (simp add: path_components_def file_name_ok_def split_char_no_sep)

lemma path_join_assoc: "path_join (path_join a b) c = path_join a (path_join b c)"
  by (simp add: path_join_def)

lemmas path_components_simps = path_components_Cons path_components_one path_join_assoc

lemma strip_prefix_Some [simp]: "strip_prefix s p = Some t \<longleftrightarrow> s = p @ t"
  by (auto simp: strip_prefix_def starts_with_prefix prefix_def)

lemma strip_suffix_Some [simp]: "strip_suffix s p = Some t \<longleftrightarrow> s = t @ p"
  by (auto simp: strip_suffix_def ends_with_suffix suffix_def)

lemma strip_append [simp]: "strip_prefix (p @ t) p = Some t" "strip_suffix (t @ q) q = Some t"
  by simp_all

lemma extension_ebuild: "x \<noteq> [] \<Longrightarrow> extension (x @ ''.ebuild'') = Some ''ebuild''"
proof -
  assume "x \<noteq> []"
  have "rsplit_once (CHR ''.'') (x @ ''.ebuild'') = Some (x, ''ebuild'')"
    by (simp add: rsplit_once_def)
  with \<open>x \<noteq> []\<close> show ?thesis by (simp add: extension_def)
qed

section \<open>Names of ebuilds\<close>

lemma parse_category_iff: "parse_category s = Inr c \<longleftrightarrow> valid_category s \<and> c = s"
  using printsD [OF p_name_prints, of word_char name_char s c "[]"]
    readsD [OF p_name_reads, of "[]" name_char word_char s]
  by (auto simp: parse_category_def valid_category_def p_category_def)

lemma parse_package_iff: "parse_package s = Inr c \<longleftrightarrow> valid_package s \<and> c = s"
  using p_package_SomeD [of s c "[]"] readsD [OF p_package_reads [of "[]"], of s]
  by (auto simp: parse_package_def package_follow_def)

lemma cpn_try_from_iff: "cpn_try_from cat pkg = Inr a \<longleftrightarrow>
    valid_cpn a \<and> cpn_category a = cat \<and> cpn_package a = pkg"
proof -
  have "cpn_try_from cat pkg = Inr a \<longleftrightarrow> (\<exists>c p. parse_category cat = Inr c \<and> parse_package pkg = Inr p \<and>
      a = \<lparr>cpn_category = c, cpn_package = p\<rparr>)"
    by (auto simp: cpn_try_from_def split: sum.splits)
  then show ?thesis by (cases a) (auto simp: parse_category_iff parse_package_iff valid_cpn_def)
qed

text \<open>A package name of a repository and a version, perhaps with an operator.\<close>

definition ebuild_cpv :: "cpv \<Rightarrow> bool" where
  "ebuild_cpv c \<longleftrightarrow> valid_cpn (cpv_cpn c) \<and> wf_version (cpv_version c)"

definition ebuild_name :: "cpv \<Rightarrow> string" where
  "ebuild_name c = cpv_pf c @ ''.ebuild''"

lemma cpv_try_from_iff: "cpv_try_from cat pkg ver = Inr c \<longleftrightarrow> ebuild_cpv c \<and>
    cpn_category (cpv_cpn c) = cat \<and> cpn_package (cpv_cpn c) = pkg \<and> version_display (cpv_version c) = ver"
proof -
  have "cpv_try_from cat pkg ver = Inr c \<longleftrightarrow>
      (\<exists>a v. cpn_try_from cat pkg = Inr a \<and> version_try_new ver = Inr v \<and> c = \<lparr>cpv_cpn = a, cpv_version = v\<rparr>)"
    by (auto simp: cpv_try_from_def split: sum.splits)
  then show ?thesis
    by (cases c) (auto simp: cpn_try_from_iff version_try_new_iff ebuild_cpv_def)
qed

lemma cpv_from_path_Inr:
  assumes "path_components path = [cat, pkg, file]"
  shows "cpv_from_path path = Inr c \<longleftrightarrow> ebuild_cpv c \<and> cpn_category (cpv_cpn c) = cat \<and>
    cpn_package (cpv_cpn c) = pkg \<and> file = ebuild_name c"
proof -
  have "cpv_from_path path = Inr c \<longleftrightarrow> (\<exists>a p s v. cpn_try_from cat pkg = Inr a \<and> strip_suffix file ''.ebuild'' = Some p \<and>
      Option.bind (strip_prefix p (cpn_package a)) (\<lambda>s. strip_prefix s ''-'') = Some s \<and>
      version_try_new s = Inr v \<and> c = \<lparr>cpv_cpn = a, cpv_version = v\<rparr>)"
    using assms by (auto simp: cpv_from_path_def split: sum.splits option.splits if_splits)
  then show ?thesis
    by (cases c) (auto simp: cpn_try_from_iff version_try_new_iff ebuild_cpv_def ebuild_name_def cpv_pf_def cpv_pvr_def
        bind_eq_Some_conv)
qed

lemma cpv_from_path_components:
  "cpv_from_path path = Inr c \<Longrightarrow> \<exists>cat pkg file. path_components path = [cat, pkg, file]"
  by (auto simp: cpv_from_path_def split: list.splits)

lemma cpv_from_path_iff:
  "file_name_ok cat \<Longrightarrow> file_name_ok pkg \<Longrightarrow> file_name_ok file \<Longrightarrow>
    cpv_from_path (path_join (path_join cat pkg) file) = Inr c \<longleftrightarrow> ebuild_cpv c \<and>
      cpn_category (cpv_cpn c) = cat \<and> cpn_package (cpv_cpn c) = pkg \<and> file = ebuild_name c"
  by (rule cpv_from_path_Inr) (simp add: path_components_simps)

lemma cpv_from_path_category:
  assumes "file_name_ok cat" "cpv_from_path (path_join cat p) = Inr c"
  shows "cpn_category (cpv_cpn c) = cat \<and> ebuild_cpv c"
proof -
  obtain a b f where "path_components (path_join cat p) = [a, b, f]"
    using cpv_from_path_components [OF assms(2)] by blast
  with cpv_from_path_Inr [OF this, of c] assms show ?thesis by (simp add: path_components_simps)
qed

text \<open>Versions have no slash, so a \<open>Cpv\<close> names a file.\<close>

lemma digits_no_slash: "list_all is_digit s \<Longrightarrow> CHR ''/'' \<notin> set s"
  by (auto simp: list_all_iff is_digit_def)

lemma number_no_slash: "wf_number n \<Longrightarrow> CHR ''/'' \<notin> set (number_display n)"
  by (simp add: wf_number_def number_display_def digits_no_slash)

lemma suffix_no_slash: "wf_suffix s \<Longrightarrow> CHR ''/'' \<notin> set (suffix_text s)"
  by (cases "sfx_kind s")
    (auto simp: suffix_text_def suffix_display_def wf_suffix_def number_no_slash split: option.splits)

lemma join_no_slash: "list_all (\<lambda>s. c \<notin> set s) ss \<Longrightarrow> c \<notin> set sep \<Longrightarrow> c \<notin> set (join_with sep ss)"
  by (induction ss) (simp_all add: join_with_Cons)

lemma version_no_slash: "wf_version v \<Longrightarrow> CHR ''/'' \<notin> set (version_without_op v)"
proof -
  assume v: "wf_version v"
  have "CHR ''/'' \<notin> set (join_with ''.'' (map number_display (ver_numbers v)))"
    using v by (intro join_no_slash) (auto simp: wf_version_def list_all_iff number_no_slash)
  moreover have "CHR ''/'' \<notin> set (letter_text (ver_letter v))"
    using v by (auto simp: wf_version_def letter_text_def is_lower_def split: option.splits)
  moreover have "CHR ''/'' \<notin> set (concat (map suffix_text (ver_suffixes v)))"
    using v suffix_no_slash by (auto simp: wf_version_def list_all_iff)
  moreover have "CHR ''/'' \<notin> set (revision_text (ver_revision v))"
    using v by (auto simp: wf_version_def wf_revision_def revision_text_def revision_display_def number_no_slash)
  ultimately show ?thesis by (simp add: version_without_op_text)
qed

lemma version_display_no_slash: "wf_version v \<Longrightarrow> CHR ''/'' \<notin> set (version_display v)"
  using version_no_slash [of v]
  by (cases "ver_op v"; cases "the (ver_op v)")
    (auto simp: version_display_no_op version_display_op op_text_def)

lemma ebuild_name_file [intro]: "ebuild_cpv c \<Longrightarrow> file_name_ok (ebuild_name c)"
  using version_display_no_slash [of "cpv_version c"] valid_package_no_slash [of "cpn_package (cpv_cpn c)"]
  by (auto simp: file_name_ok_def ebuild_name_def cpv_pf_def cpv_pvr_def ebuild_cpv_def valid_cpn_def)

lemma cpv_relpath_join: "cpv_relpath c =
    path_join (path_join (cpn_category (cpv_cpn c)) (cpn_package (cpv_cpn c))) (ebuild_name c)"
  by (simp add: cpv_relpath_def cpn_display_def path_join_def ebuild_name_def)

lemma cpv_from_relpath: "ebuild_cpv c \<Longrightarrow> cpv_from_path (cpv_relpath c) = Inr c"
  unfolding cpv_relpath_join
  by (subst cpv_from_path_iff) (auto simp: ebuild_cpv_def valid_cpn_def ebuild_name_file)

lemma cpv_from_path_iff_relpath:
  assumes "path_components path = [cat, pkg, file]" "path = path_join (path_join cat pkg) file"
  shows "cpv_from_path path = Inr c \<longleftrightarrow> ebuild_cpv c \<and> path = cpv_relpath c"
proof
  assume "cpv_from_path path = Inr c"
  then show "ebuild_cpv c \<and> path = cpv_relpath c"
    using cpv_from_path_Inr [OF assms(1), of c] assms(2) by (simp add: cpv_relpath_join)
next
  assume "ebuild_cpv c \<and> path = cpv_relpath c"
  then show "cpv_from_path path = Inr c" using cpv_from_relpath by simp
qed

section \<open>Regular repositories\<close>

text \<open>A directory lists what is in it, once; every category named by the metadata could be one, and
  what is named like a package or an ebuild is a directory or a file.\<close>

definition fs_ok :: "file_system \<Rightarrow> bool" where
  "fs_ok fs \<longleftrightarrow>
    (\<forall>p es. fs p = Some (FsDir es) \<longrightarrow> distinct es \<and> list_all file_name_ok es) \<and>
    (\<forall>p e. file_name_ok e \<longrightarrow> fs (path_join p e) \<noteq> None \<longrightarrow> (\<exists>es. fs p = Some (FsDir es) \<and> e \<in> set es))"

text \<open>The \<open>Cpv\<close>s of the ebuilds in a directory.\<close>

definition dir_cpvs :: "file_system \<Rightarrow> string \<Rightarrow> cpv list" where
  "dir_cpvs fs path = (case read_dir fs path of None \<Rightarrow> []
     | Some es \<Rightarrow> oks (map (\<lambda>e. cpv_from_path (path_join path e)) (filter (is_ebuild fs path) es)))"

definition regular_repo :: "ebuild_repo \<Rightarrow> bool" where
  "regular_repo r \<longleftrightarrow> fs_ok (er_fs r) \<and> list_all valid_category (concat (er_trees r)) \<and>
    (\<forall>p. ends_with p ''.ebuild'' \<longrightarrow> er_fs r p \<noteq> None \<longrightarrow> is_file (er_fs r) p) \<and>
    (\<forall>cat e. cat \<in> set (concat (er_trees r)) \<longrightarrow> valid_package e \<longrightarrow> er_fs r (path_join cat e) \<noteq> None \<longrightarrow>
      is_dir (er_fs r) (path_join cat e)) \<and>
    (\<forall>p. distinct_by cpv_eq (dir_cpvs (er_fs r) p))"

text \<open>The same on a list of paths.\<close>

definition fs_check :: "(string \<times> fs_node) list \<Rightarrow> bool" where
  "fs_check l \<longleftrightarrow> list_all (\<lambda>(q, n).
     (case n of FsFile \<Rightarrow> True | FsDir es \<Rightarrow> distinct es \<and> list_all file_name_ok es) \<and>
     (case rsplit_once (CHR ''/'') q of None \<Rightarrow> True
      | Some (p, e) \<Rightarrow> file_name_ok e \<longrightarrow> (case map_of l p of Some (FsDir es) \<Rightarrow> e \<in> set es | _ \<Rightarrow> False))) l"

definition repo_check :: "string list list \<Rightarrow> (string \<times> fs_node) list \<Rightarrow> bool" where
  "repo_check trees l \<longleftrightarrow> fs_check l \<and> list_all valid_category (concat trees) \<and>
     list_all (\<lambda>(p, n). (ends_with p ''.ebuild'' \<longrightarrow> n = FsFile) \<and> distinct_by cpv_eq (dir_cpvs (map_of l) p) \<and>
       (case split_once (CHR ''/'') p of None \<Rightarrow> True
        | Some (cat, e) \<Rightarrow> cat \<in> set (concat trees) \<longrightarrow> n = FsFile \<longrightarrow> \<not> valid_package e)) l"

lemma rsplit_once_append: "c \<notin> set b \<Longrightarrow> rsplit_once c (a @ c # b) = Some (a, b)"
  by (simp add: rsplit_once_def split_once_append)

lemma fs_check_ok: "fs_check l \<Longrightarrow> fs_ok (map_of l)"
  unfolding fs_ok_def
proof (intro conjI allI impI)
  fix p es assume l: "fs_check l" "map_of l p = Some (FsDir es)"
  then show "distinct es" "list_all file_name_ok es"
    by (auto simp: fs_check_def list_all_iff dest!: map_of_SomeD)
next
  fix p e assume l: "fs_check l" and e: "file_name_ok e" "map_of l (path_join p e) \<noteq> None"
  then obtain n where "(path_join p e, n) \<in> set l" by (auto dest!: map_of_SomeD)
  moreover have "rsplit_once (CHR ''/'') (path_join p e) = Some (p, e)"
    using e by (simp add: path_join_def file_name_ok_def rsplit_once_append)
  ultimately have "case map_of l p of Some (FsDir es) \<Rightarrow> e \<in> set es | _ \<Rightarrow> False"
    using l e by (fastforce simp: fs_check_def list_all_iff)
  then show "\<exists>es. map_of l p = Some (FsDir es) \<and> e \<in> set es"
    by (auto split: option.splits fs_node.splits)
qed

lemma repo_check_regular:
  assumes "repo_check trees l"
  shows "regular_repo \<lparr>er_trees = trees, er_fs = map_of l\<rparr>"
proof -
  have l: "\<And>p n. map_of l p = Some n \<Longrightarrow> (ends_with p ''.ebuild'' \<longrightarrow> n = FsFile) \<and>
       distinct_by cpv_eq (dir_cpvs (map_of l) p) \<and> (case split_once (CHR ''/'') p of None \<Rightarrow> True
        | Some (cat, e) \<Rightarrow> cat \<in> set (concat trees) \<longrightarrow> n = FsFile \<longrightarrow> \<not> valid_package e)"
    and cats: "list_all valid_category (concat trees)"
    using assms by (force simp: repo_check_def list_all_iff dest!: map_of_SomeD)+
  have "distinct_by cpv_eq (dir_cpvs (map_of l) p)" for p
    using l [of p] by (cases "map_of l p") (simp_all add: dir_cpvs_def read_dir_def)
  moreover have "is_dir (map_of l) (path_join cat e)"
    if "cat \<in> set (concat trees)" "valid_package e" "map_of l (path_join cat e) \<noteq> None" for cat e
  proof -
    have "valid_category cat" using that(1) cats by (simp only: list_all_iff)
    then have "split_once (CHR ''/'') (path_join cat e) = Some (cat, e)"
      by (simp add: path_join_def split_once_append is_name_no_slash)
    with that l [of "path_join cat e"] show ?thesis by (auto simp: is_dir_def split: fs_node.splits)
  qed
  moreover have "is_file (map_of l) p" if "ends_with p ''.ebuild''" "map_of l p \<noteq> None" for p
    using l [of p] that by (auto simp: is_file_def)
  ultimately show ?thesis
    using assms cats fs_check_ok by (auto simp: regular_repo_def repo_check_def)
qed

section \<open>Sorted lists\<close>

lemma oks_simps [simp]:
  "oks [] = []" "oks (Inr x # rs) = x # oks rs" "oks (Inl e # rs) = oks rs"
  by (simp_all add: oks_def)

lemma oks_append [simp]: "oks (rs @ ss) = oks rs @ oks ss"
  by (simp add: oks_def map_filter_def)

lemma set_oks [simp]: "x \<in> set (oks rs) \<longleftrightarrow> Inr x \<in> set rs"
  by (induction rs) (auto simp: oks_def split: sum.splits)

text \<open>Sorting results sorts the successes.\<close>

lemma insert_result:
  "insert_cmp (result_cmp ec c) (Inr x) (map Inr xs @ map Inl es) = map Inr (insert_cmp c x xs) @ map Inl es"
  "insert_cmp (result_cmp ec c) (Inl e) (map Inr xs @ map Inl es) = map Inr xs @ map Inl (insert_cmp ec e es)"
proof -
  have tail: "insert_cmp (result_cmp ec c) (Inl e) (map Inl es) = map Inl (insert_cmp ec e es)"
    by (induction es) simp_all
  show "insert_cmp (result_cmp ec c) (Inr x) (map Inr xs @ map Inl es) = map Inr (insert_cmp c x xs) @ map Inl es"
    by (induction xs; cases es) simp_all
  show "insert_cmp (result_cmp ec c) (Inl e) (map Inr xs @ map Inl es) = map Inr xs @ map Inl (insert_cmp ec e es)"
    by (induction xs) (simp_all add: tail)
qed

lemma sort_results: "\<exists>es. sort_cmp (result_cmp ec c) rs = map Inr (sort_cmp c (oks rs)) @ map Inl es"
proof (induction rs)
  case (Cons r rs)
  then obtain es where es: "sort_cmp (result_cmp ec c) rs = map Inr (sort_cmp c (oks rs)) @ map Inl es" by blast
  show ?case
  proof (cases r)
    case (Inl e)
    with es show ?thesis by (intro exI [of _ "insert_cmp ec e es"]) (simp add: sort_cmp_Cons insert_result)
  next
    case (Inr x)
    with es show ?thesis by (intro exI [of _ es]) (simp add: sort_cmp_Cons insert_result)
  qed
qed simp

lemma oks_sort: "oks (sort_cmp (result_cmp ec c) rs) = sort_cmp c (oks rs)"
proof -
  obtain es where "sort_cmp (result_cmp ec c) rs = map Inr (sort_cmp c (oks rs)) @ map Inl es"
    using sort_results by blast
  moreover have "oks (map Inr xs @ map Inl es) = xs" for xs
  proof -
    have "oks (map Inl es) = []" by (induction es) simp_all
    then show ?thesis by (induction xs) simp_all
  qed
  ultimately show ?thesis by simp
qed

context total_cmp begin

lemma strict_filter: "strict_sorted_cmp cmp xs \<Longrightarrow> strict_sorted_cmp cmp (filter Q xs)"
  by (simp add: strict_sorted_cmp_def sorted_wrt_filter)

lemma strict_sorted: "strict_sorted_cmp cmp xs \<Longrightarrow> sorted_cmp cmp xs"
  by (induction xs) auto

text \<open>A strictly sorted list is what its set says.\<close>

lemma strict_unique:
  "list_all wf xs \<Longrightarrow> strict_sorted_cmp cmp xs \<Longrightarrow> strict_sorted_cmp cmp ys \<Longrightarrow> set xs = set ys \<Longrightarrow> xs = ys"
proof (induction xs arbitrary: ys)
  case (Cons x xs)
  have wfs: "\<And>z. z \<in> set ys \<Longrightarrow> wf z"
    using Cons.prems(1) by (simp add: list_all_iff flip: Cons.prems(4)) blast
  obtain y ys' where ys: "ys = y # ys'" using Cons.prems(4) by (cases ys) auto
  have irrefl: "\<not> (cmp a b = Less \<and> cmp b a = Less)" if "a \<in> set ys" "b \<in> set ys" for a b
    using flip [of a b] wfs that by auto
  have self: "cmp a a \<noteq> Less" if "a \<in> set ys" for a using refl wfs that by auto
  have "x = y"
  proof (rule ccontr)
    assume "x \<noteq> y"
    with Cons.prems(4) ys have "x \<in> set ys'" "y \<in> set xs" by auto
    with Cons.prems ys irrefl [of x y] show False by auto
  qed
  moreover have "x \<notin> set xs" "y \<notin> set ys'"
    using Cons.prems ys self [of x] self [of y] by auto
  ultimately have "set xs = set ys'" using Cons.prems(4) ys by auto
  with Cons ys \<open>x = y\<close> show ?case by simp
qed simp

lemma strict_Equal:
  "list_all wf xs \<Longrightarrow> strict_sorted_cmp cmp xs \<Longrightarrow> x \<in> set xs \<Longrightarrow> y \<in> set xs \<Longrightarrow> cmp x y = Equal \<Longrightarrow> x = y"
proof (induction xs)
  case (Cons z zs)
  have "cmp y x = Equal" using sym_Equal [of x y] Cons.prems by (auto simp: list_all_iff)
  with Cons show ?case by auto
qed simp

lemma strict_concat:
  assumes "sorted_wrt lt ks" "\<And>k. k \<in> set ks \<Longrightarrow> strict_sorted_cmp cmp (f k)"
    and "\<And>k l x y. k \<in> set ks \<Longrightarrow> l \<in> set ks \<Longrightarrow> lt k l \<Longrightarrow> x \<in> set (f k) \<Longrightarrow> y \<in> set (f l) \<Longrightarrow> cmp x y = Less"
  shows "strict_sorted_cmp cmp (concat (map f ks))"
  using assms
proof (induction ks)
  case (Cons k ks)
  have "strict_sorted_cmp cmp (concat (map f ks))"
  proof (rule Cons.IH)
    show "cmp x y = Less" if "i \<in> set ks" "j \<in> set ks" "lt i j" "x \<in> set (f i)" "y \<in> set (f j)" for i j x y
      by (rule Cons.prems(3) [of i j]) (use that in simp_all)
  qed (use Cons.prems(1,2) in simp_all)
  moreover have "cmp x y = Less" if "x \<in> set (f k)" "l \<in> set ks" "y \<in> set (f l)" for x y l
    by (rule Cons.prems(3) [of k l]) (use that Cons.prems(1) in simp_all)
  moreover have "strict_sorted_cmp cmp (f k)" by (rule Cons.prems(2)) simp
  ultimately show ?case by (auto simp: strict_sorted_cmp_def sorted_wrt_append)
qed simp

text \<open>Collected into a set and sorted.\<close>

lemma distinct_firsts: "list_all wf xs \<Longrightarrow> distinct_by (eq_cmp cmp) (firsts_by (eq_cmp cmp) xs)"
proof (induction xs rule: rev_induct)
  case (snoc x xs)
  have "wf y" if "y \<in> set (firsts_by (eq_cmp cmp) xs)" for y
    using list_all_firsts_by [of wf xs "eq_cmp cmp"] snoc.prems that by (simp add: list_all_iff)
  then have "\<not> mem_by (eq_cmp cmp) x (firsts_by (eq_cmp cmp) xs) \<Longrightarrow>
      y \<in> set (firsts_by (eq_cmp cmp) xs) \<Longrightarrow> cmp x y \<noteq> Equal \<and> cmp y x \<noteq> Equal" for y
    using sym_Equal [of x y] snoc.prems by (auto simp: mem_by_iff)
  with snoc show ?case by (auto simp: firsts_by_snoc add_new_def distinct_by_append mem_by_iff)
qed simp

lemma collect_sort_strict:
  assumes "index_set (eq_cmp cmp) ix" "list_all wf xs"
  shows "strict_sorted_cmp cmp (sort_cmp cmp (is_collect ix xs))"
proof (rule sort_cmp_strict)
  have "is_collect ix xs = firsts_by (eq_cmp cmp) xs" by (rule index_set.collect [OF assms(1)])
  then show "list_all wf (is_collect ix xs)" "distinct_by (eq_cmp cmp) (is_collect ix xs)"
    using assms(2) by (simp_all add: list_all_firsts_by distinct_firsts)
qed

end

lemma distinct_by_same:
  "distinct_by eq xs \<Longrightarrow> x \<in> set xs \<Longrightarrow> y \<in> set xs \<Longrightarrow> eq x y \<Longrightarrow> x = y"
  by (induction xs) (auto simp: list_ex_iff)

text \<open>Nothing is lost when equal values are the same.\<close>

lemma set_firsts_canonical:
  assumes "\<And>x y. x \<in> set xs \<Longrightarrow> y \<in> set xs \<Longrightarrow> eq x y \<Longrightarrow> x = y" "\<And>x. x \<in> set xs \<Longrightarrow> eq x x"
  shows "set (firsts_by eq xs) = set xs"
  using assms
proof (induction xs rule: rev_induct)
  case (snoc x xs)
  have "set (firsts_by eq xs) = set xs" by (rule snoc.IH) (use snoc.prems in auto)
  moreover have "mem_by eq x (firsts_by eq xs) \<Longrightarrow> x \<in> set xs"
    using snoc.prems(1) calculation by (auto simp: mem_by_iff)
  ultimately show ?case by (auto simp: firsts_by_snoc add_new_def)
qed simp

section \<open>Listings\<close>

lemma total_cmp_ebuild_cpv: "total_cmp ebuild_cpv cpv_cmp"
  unfolding cpv_cmp_def [abs_def]
  by (intro total_cmp_then total_cmp_key [OF total_cmp_cpn [of "\<lambda>_. True"]]
      total_cmp_key [OF ver.total_cmp_axioms] TrueI) (simp add: ebuild_cpv_def)

interpretation ebuild_ord: total_cmp ebuild_cpv cpv_cmp by (rule total_cmp_ebuild_cpv)

interpretation cpn_ord: total_cmp "\<lambda>_. True" cpn_cmp by (rule total_cmp_cpn)

lemma cpv_eq_cmp: "cpv_eq = eq_cmp cpv_cmp"
  by (intro ext) (simp add: cpv_eq_iff)

lemma eq_cmp_str: "eq_cmp cmp_str = (=)" and eq_cmp_cpn: "eq_cmp cpn_cmp = (=)"
  by (intro ext, simp)+

lemma fs_ok_dir: "fs_ok fs \<Longrightarrow> read_dir fs p = Some es \<Longrightarrow> distinct es \<and> list_all file_name_ok es"
  by (auto simp: fs_ok_def read_dir_def split: option.splits fs_node.splits)

lemma fs_ok_mem: "fs_ok fs \<Longrightarrow> file_name_ok e \<Longrightarrow> path_exists fs (path_join p e) \<Longrightarrow>
    \<exists>es. read_dir fs p = Some es \<and> e \<in> set es"
  by (fastforce simp: fs_ok_def read_dir_def path_exists_def)

lemma regular_repoD:
  assumes "regular_repo r"
  shows "fs_ok (er_fs r)" "list_all valid_category (concat (er_trees r))"
    "ends_with p ''.ebuild'' \<Longrightarrow> path_exists (er_fs r) p \<Longrightarrow> is_file (er_fs r) p"
    "cat \<in> set (concat (er_trees r)) \<Longrightarrow> valid_package e \<Longrightarrow> path_exists (er_fs r) (path_join cat e) \<Longrightarrow>
      is_dir (er_fs r) (path_join cat e)"
    "distinct_by cpv_eq (dir_cpvs (er_fs r) p)"
  using assms unfolding regular_repo_def path_exists_def by blast+

lemma categories_strict: "index_set (=) sx \<Longrightarrow> strict_sorted_cmp cmp_str (categories sx r)"
  unfolding categories_def by (rule str_ord.collect_sort_strict) (simp_all add: eq_cmp_str list_all_iff)

lemma set_categories: "index_set (=) sx \<Longrightarrow>
    cat \<in> set (categories sx r) \<longleftrightarrow> cat \<in> set (concat (er_trees r)) \<and> is_dir (er_fs r) cat"
  by (auto simp: categories_def index_set.collect)

lemma category_valid: "regular_repo r \<Longrightarrow> index_set (=) sx \<Longrightarrow> cat \<in> set (categories sx r) \<Longrightarrow> valid_category cat"
  using regular_repoD(2) [of r] by (auto simp: set_categories list_all_iff)

lemma dir_cpvs_category:
  assumes "file_name_ok cat" "c \<in> set (dir_cpvs fs (path_join cat p))"
  shows "cpn_category (cpv_cpn c) = cat \<and> ebuild_cpv c"
  using assms by (auto simp: dir_cpvs_def path_join_assoc split: option.splits dest!: cpv_from_path_category)

lemma ebuild_name_ebuild:
  "ebuild_cpv c \<Longrightarrow> is_ebuild fs p (ebuild_name c) \<longleftrightarrow> is_file fs (path_join p (ebuild_name c))"
proof -
  assume "ebuild_cpv c"
  then have "cpv_pf c \<noteq> []" "\<not> is_hidden (ebuild_name c)"
    by (auto simp: ebuild_cpv_def valid_cpn_def valid_package_def cpv_pf_def is_hidden_def ebuild_name_def
        starts_with_def word_char_def char_classes split: list.splits)
  with extension_ebuild show ?thesis by (simp add: is_ebuild_def ebuild_name_def)
qed

lemma dir_cpvs_iff:
  assumes r: "regular_repo r" and "file_name_ok cat" "file_name_ok pkg"
  shows "c \<in> set (dir_cpvs (er_fs r) (path_join cat pkg)) \<longleftrightarrow>
    ebuild_cpv c \<and> cpn_category (cpv_cpn c) = cat \<and> cpn_package (cpv_cpn c) = pkg \<and> contains_cpv r c"
proof
  let ?p = "path_join cat pkg"
  assume "c \<in> set (dir_cpvs (er_fs r) ?p)"
  then obtain es e where e: "read_dir (er_fs r) ?p = Some es" "e \<in> set es" "is_ebuild (er_fs r) ?p e"
    "cpv_from_path (path_join ?p e) = Inr c"
    by (cases "read_dir (er_fs r) ?p") (auto simp: dir_cpvs_def)
  then have "file_name_ok e" using fs_ok_dir [OF regular_repoD(1) [OF r]] by (auto simp: list_all_iff)
  with e(4) cpv_from_path_iff assms have "ebuild_cpv c \<and> cpn_category (cpv_cpn c) = cat \<and>
    cpn_package (cpv_cpn c) = pkg \<and> e = ebuild_name c" by blast
  with e(3) show "ebuild_cpv c \<and> cpn_category (cpv_cpn c) = cat \<and> cpn_package (cpv_cpn c) = pkg \<and> contains_cpv r c"
    by (auto simp: contains_cpv_def cpv_relpath_join is_ebuild_def path_exists_def is_file_def)
next
  let ?p = "path_join cat pkg"
  assume c: "ebuild_cpv c \<and> cpn_category (cpv_cpn c) = cat \<and> cpn_package (cpv_cpn c) = pkg \<and> contains_cpv r c"
  then have ex: "path_exists (er_fs r) (path_join ?p (ebuild_name c))"
    by (auto simp: contains_cpv_def cpv_relpath_join)
  moreover have "ends_with (path_join ?p (ebuild_name c)) ''.ebuild''"
    by (simp add: ends_with_suffix path_join_def ebuild_name_def suffix_def)
  ultimately have "is_ebuild (er_fs r) ?p (ebuild_name c)"
    using regular_repoD(3) [OF r] c by (simp add: ebuild_name_ebuild)
  moreover obtain es where "read_dir (er_fs r) ?p = Some es" "ebuild_name c \<in> set es"
    using fs_ok_mem [OF regular_repoD(1) [OF r] _ ex] ebuild_name_file c by blast
  moreover have "cpv_from_path (path_join ?p (ebuild_name c)) = Inr c"
    using c cpv_from_relpath [of c] by (auto simp: cpv_relpath_join)
  ultimately show "c \<in> set (dir_cpvs (er_fs r) ?p)"
    by (auto simp: dir_cpvs_def intro: rev_image_eqI)
qed

lemma cpvs_from_package_eq:
  "oks (cpvs_from_package ec r cat pkg) = sort_cmp cpv_cmp (dir_cpvs (er_fs r) (path_join cat pkg))"
  by (simp add: cpvs_from_package_def dir_cpvs_def Let_def oks_sort split: option.splits)

lemma cpvs_from_package_strict:
  assumes "regular_repo r" "file_name_ok cat"
  shows "strict_sorted_cmp cpv_cmp (oks (cpvs_from_package ec r cat pkg))"
  unfolding cpvs_from_package_eq
  using dir_cpvs_category [OF assms(2)] regular_repoD(5) [OF assms(1)]
  by (intro ebuild_ord.sort_cmp_strict) (auto simp: list_all_iff cpv_eq_cmp)

end
