(* ===== verification/Fake_Repo_Laws.thy ===== *)
theory Fake_Repo_Laws
  imports Fake_Repo Ebuild_Repo_Laws
begin

text \<open>
  Extending a fake repository keeps its state consistent and adds what it is given, and its
  queries are views of its sorted \<open>Cpv\<close>s.
\<close>

section \<open>Adding to a set\<close>

lemma foldl_add_new_append: "\<exists>ts. foldl (add_new eq) s xs = s @ ts"
proof (induction xs arbitrary: s)
  case (Cons x xs)
  obtain ts where "foldl (add_new eq) (add_new eq s x) xs = add_new eq s x @ ts" using Cons by blast
  moreover obtain us where "add_new eq s x = s @ us" by (cases "mem_by eq x s") (simp_all add: add_new_def)
  ultimately show ?case by simp
qed simp

lemma set_add_new: "set (add_new eq s x) \<subseteq> insert x (set s)"
  by (auto simp: add_new_def)

lemma foldl_add_new_same: "length (foldl (add_new eq) s xs) = length s \<Longrightarrow> foldl (add_new eq) s xs = s"
  using foldl_add_new_append [of eq s xs] by auto

lemma set_foldl_add_new: "set (foldl (add_new eq) s xs) \<subseteq> set s \<union> set xs"
proof (induction xs arbitrary: s)
  case (Cons x xs)
  then show ?case using set_add_new [of eq s x] Cons [of "add_new eq s x"] by auto
qed simp

context total_cmp begin

lemma distinct_add_new:
  assumes "wf x" "list_all wf s" "distinct_by (eq_cmp cmp) s"
  shows "distinct_by (eq_cmp cmp) (add_new (eq_cmp cmp) s x)"
proof -
  have "\<not> mem_by (eq_cmp cmp) x s \<Longrightarrow> y \<in> set s \<Longrightarrow> cmp x y \<noteq> Equal \<and> cmp y x \<noteq> Equal" for y
    using assms sym_Equal [of x y] by (auto simp: mem_by_iff list_all_iff)
  with assms(3) show ?thesis by (auto simp: add_new_def distinct_by_append)
qed

lemma distinct_foldl:
  "list_all wf xs \<Longrightarrow> list_all wf s \<Longrightarrow> distinct_by (eq_cmp cmp) s \<Longrightarrow>
    distinct_by (eq_cmp cmp) (foldl (add_new (eq_cmp cmp)) s xs)"
proof (induction xs arbitrary: s)
  case (Cons x xs)
  have "list_all wf (add_new (eq_cmp cmp) s x)" using Cons.prems by (simp add: add_new_def)
  with Cons distinct_add_new show ?case by simp
qed simp

lemma mem_foldl:
  "list_all wf xs \<Longrightarrow> list_all wf s \<Longrightarrow> wf y \<Longrightarrow>
    mem_by (eq_cmp cmp) y (foldl (add_new (eq_cmp cmp)) s xs) \<longleftrightarrow> mem_by (eq_cmp cmp) y s \<or> mem_by (eq_cmp cmp) y xs"
proof (induction xs arbitrary: s)
  case (Cons x xs)
  have "mem_by (eq_cmp cmp) x s \<Longrightarrow> cmp x y = Equal \<Longrightarrow> mem_by (eq_cmp cmp) y s"
    using trans_Equal [of _ x y] Cons.prems by (fastforce simp: mem_by_iff list_all_iff)
  then have "mem_by (eq_cmp cmp) y (add_new (eq_cmp cmp) s x) \<longleftrightarrow> mem_by (eq_cmp cmp) y s \<or> cmp x y = Equal"
    by (auto simp: add_new_def)
  moreover have "list_all wf (add_new (eq_cmp cmp) s x)" using Cons.prems by (simp add: add_new_def)
  ultimately show ?case using Cons by auto
qed simp

lemma strict_distinct: "list_all wf xs \<Longrightarrow> strict_sorted_cmp cmp xs \<Longrightarrow> distinct_by (eq_cmp cmp) xs"
proof (induction xs)
  case (Cons x xs)
  have "cmp y x = Greater" if "y \<in> set xs" for y
    using flip [of x y] Cons.prems that by (auto simp: list_all_iff)
  with Cons show ?case by (auto simp: list_ex_iff)
qed simp

end

lemma firsts_sorted:
  assumes "sorted_cmp cmp_str xs"
  shows "strict_sorted_cmp cmp_str (firsts_by (=) xs)"
  using assms
proof (induction xs rule: rev_induct)
  case (snoc x xs)
  have "cmp_str y x = Less" if "y \<in> set xs" "x \<notin> set xs" for y
    using snoc.prems that by (cases "cmp_str y x") (auto simp: sorted_cmp_def sorted_wrt_append)
  with snoc show ?case
    by (auto simp: firsts_by_snoc add_new_def sorted_cmp_def strict_sorted_cmp_def sorted_wrt_append)
qed simp

section \<open>Extension\<close>

lemma extend_fold:
  assumes "index_set cpv_eq cx"
  shows "foldl (\<lambda>s item. case item of Inl e \<Rightarrow> s | Inr c \<Rightarrow> fst (is_insert cx s c)) s items =
    foldl (add_new cpv_eq) s (oks items)"
  by (induction items arbitrary: s) (simp_all add: index_set.insert_add_new [OF assms] split: sum.split)

lemma extend_wf:
  assumes cx: "index_set cpv_eq cx" and r: "wf_fake vx r" and items: "list_all wf_cpv (oks items)"
  shows "wf_fake vx (fake_extend cx vx r items)"
proof -
  let ?s = "foldl (add_new cpv_eq) (fr_cpvs r) (oks items)"
  have old: "list_all wf_cpv (fr_cpvs r)" "strict_sorted_cmp cpv_cmp (fr_cpvs r)"
    using r by (simp_all add: wf_fake_def)
  have "list_all wf_cpv ?s" using set_foldl_add_new [of cpv_eq] old items by (fastforce simp: list_all_iff)
  moreover have "strict_sorted_cmp cpv_cmp (sort_cmp cpv_cmp ?s)"
    using calculation cpv_ord.distinct_foldl [OF items old(1)] cpv_ord.strict_distinct [OF old]
    by (intro cpv_ord.sort_cmp_strict) (simp_all add: cpv_eq_cmp)
  ultimately show ?thesis
    using r foldl_add_new_same [of cpv_eq "fr_cpvs r" "oks items"]
    by (auto simp: fake_extend_def extend_fold [OF cx] Let_def wf_fake_def)
qed

lemma extend_mem:
  assumes cx: "index_set cpv_eq cx" and r: "wf_fake vx r" and items: "list_all wf_cpv (oks items)" and c: "wf_cpv c"
  shows "fake_contains_cpv cx (fake_extend cx vx r items) c \<longleftrightarrow>
    fake_contains_cpv cx r c \<or> mem_by cpv_eq c (oks items)"
proof -
  let ?s = "foldl (add_new cpv_eq) (fr_cpvs r) (oks items)"
  have "mem_by cpv_eq c (fr_cpvs (fake_extend cx vx r items)) = mem_by cpv_eq c ?s"
    by (simp add: fake_extend_def extend_fold [OF cx] Let_def)
  also have "\<dots> \<longleftrightarrow> mem_by cpv_eq c (fr_cpvs r) \<or> mem_by cpv_eq c (oks items)"
    using cpv_ord.mem_foldl [OF items _ c] r by (simp add: wf_fake_def cpv_eq_cmp)
  finally show ?thesis by (simp add: fake_contains_cpv_def index_set.contains [OF cx])
qed

section \<open>Views\<close>

definition in_category :: "string \<Rightarrow> cpv \<Rightarrow> bool" where
  "in_category cat c \<longleftrightarrow> cpn_category (cpv_cpn c) = cat"

lemma build_lookup:
  assumes vx: "index_set version_eq vx" and "distinct_by cpv_eq cs"
  shows "(case Option.bind (map_of (foldl (pkgmap_insert vx) [] cs) cat) (\<lambda>pkgs. map_of pkgs pkg) of
     None \<Rightarrow> [] | Some vs \<Rightarrow> vs) = map cpv_version (filter (\<lambda>c. cpv_cpn c = \<lparr>cpn_category = cat, cpn_package = pkg\<rparr>) cs)"
  using assms(2)
proof (induction cs rule: rev_induct)
  case (snoc c cs)
  have new: "\<not> mem_by version_eq (cpv_version c)
      (map cpv_version (filter (\<lambda>d. cpv_cpn d = cpv_cpn c) cs))"
    using snoc.prems by (auto simp: distinct_by_append mem_by_iff cpv_eq_def)
  have cpn: "cpv_cpn c = \<lparr>cpn_category = cat, cpn_package = pkg\<rparr> \<longleftrightarrow>
      cpn_category (cpv_cpn c) = cat \<and> cpn_package (cpv_cpn c) = pkg"
    by (cases "cpv_cpn c") auto
  have "distinct_by cpv_eq cs" using snoc.prems by (simp add: distinct_by_append)
  note IH = snoc.IH [OF this]
  show ?case
  proof (cases "cpv_cpn c = \<lparr>cpn_category = cat, cpn_package = pkg\<rparr>")
    case True
    with IH new show ?thesis
      by (auto simp: pkgmap_insert_def index_set.insert_add_new [OF vx] add_new_def split: option.splits)
  next
    case False
    with IH cpn show ?thesis by (auto simp: pkgmap_insert_def split: option.splits)
  qed
qed simp

lemma fake_versions_eq:
  assumes "index_set version_eq vx" "wf_fake vx r"
  shows "fake_versions r cat pkg =
    map cpv_version (filter (\<lambda>c. cpv_cpn c = \<lparr>cpn_category = cat, cpn_package = pkg\<rparr>) (fr_cpvs r))"
  using build_lookup [OF assms(1), of "fr_cpvs r"] cpv_ord.strict_distinct [of "fr_cpvs r"] assms(2)
  by (simp add: fake_versions_def wf_fake_def cpv_eq_cmp)

lemma build_categories:
  "map fst (foldl (pkgmap_insert vx) [] cs) = firsts_by (=) (map (\<lambda>c. cpn_category (cpv_cpn c)) cs)"
  by (induction cs rule: rev_induct) (simp_all add: pkgmap_insert_def keys_map_entry firsts_by_snoc)

lemma build_packages:
  "(case map_of (foldl (pkgmap_insert vx) [] cs) cat of None \<Rightarrow> [] | Some pkgs \<Rightarrow> map fst pkgs) =
    firsts_by (=) (map (\<lambda>c. cpn_package (cpv_cpn c)) (filter (in_category cat) cs))"
  by (induction cs rule: rev_induct)
    (auto simp: pkgmap_insert_def keys_map_entry firsts_by_snoc in_category_def split: option.splits)

lemma cpv_Less_category:
  "cpv_cmp x y = Less \<Longrightarrow> cmp_str (cpn_category (cpv_cpn x)) (cpn_category (cpv_cpn y)) \<noteq> Greater \<and>
    (cpn_category (cpv_cpn x) = cpn_category (cpv_cpn y) \<longrightarrow>
      cmp_str (cpn_package (cpv_cpn x)) (cpn_package (cpv_cpn y)) \<noteq> Greater)"
  by (auto simp: cpv_cmp_def cpn_cmp_def)

lemma sorted_parts:
  "strict_sorted_cmp cpv_cmp cs \<Longrightarrow> sorted_cmp cmp_str (map (\<lambda>c. cpn_category (cpv_cpn c)) cs)"
  "strict_sorted_cmp cpv_cmp cs \<Longrightarrow>
    sorted_cmp cmp_str (map (\<lambda>c. cpn_package (cpv_cpn c)) (filter (in_category cat) cs))"
proof -
  assume "strict_sorted_cmp cpv_cmp cs"
  then have cs: "sorted_wrt (\<lambda>x y. cpv_cmp x y = Less) cs" "sorted_wrt (\<lambda>x y. cpv_cmp x y = Less) (filter (in_category cat) cs)"
    by (simp_all add: strict_sorted_cmp_def sorted_wrt_filter)
  show "sorted_cmp cmp_str (map (\<lambda>c. cpn_category (cpv_cpn c)) cs)"
    unfolding sorted_cmp_def sorted_wrt_map by (rule sorted_wrt_mono_rel [OF _ cs(1)]) (blast dest: cpv_Less_category)
  show "sorted_cmp cmp_str (map (\<lambda>c. cpn_package (cpv_cpn c)) (filter (in_category cat) cs))"
    unfolding sorted_cmp_def sorted_wrt_map
    by (rule sorted_wrt_mono_rel [OF _ cs(2)]) (auto simp: in_category_def dest: cpv_Less_category)
qed

lemma fake_listings:
  assumes "wf_fake vx r"
  shows "strict_sorted_cmp cmp_str (fake_categories r)"
    and "cat \<in> set (fake_categories r) \<longleftrightarrow> (\<exists>c \<in> set (fr_cpvs r). cpn_category (cpv_cpn c) = cat)"
    and "strict_sorted_cmp cmp_str (fake_packages r cat)"
    and "pkg \<in> set (fake_packages r cat) \<longleftrightarrow>
      (\<exists>c \<in> set (fr_cpvs r). cpn_category (cpv_cpn c) = cat \<and> cpn_package (cpv_cpn c) = pkg)"
proof -
  have m: "fr_pkgmap r = foldl (pkgmap_insert vx) [] (fr_cpvs r)" and s: "strict_sorted_cmp cpv_cmp (fr_cpvs r)"
    using assms by (simp_all add: wf_fake_def)
  have cats: "fake_categories r = firsts_by (=) (map (\<lambda>c. cpn_category (cpv_cpn c)) (fr_cpvs r))"
    by (simp add: fake_categories_def m build_categories)
  have pkgs: "fake_packages r cat = firsts_by (=) (map (\<lambda>c. cpn_package (cpv_cpn c)) (filter (in_category cat) (fr_cpvs r)))"
    by (simp add: fake_packages_def m build_packages)
  show "strict_sorted_cmp cmp_str (fake_categories r)" "strict_sorted_cmp cmp_str (fake_packages r cat)"
    unfolding cats pkgs using sorted_parts [OF s] by (simp_all add: firsts_sorted)
  show "cat \<in> set (fake_categories r) \<longleftrightarrow> (\<exists>c \<in> set (fr_cpvs r). cpn_category (cpv_cpn c) = cat)"
    unfolding cats by auto
  show "pkg \<in> set (fake_packages r cat) \<longleftrightarrow>
      (\<exists>c \<in> set (fr_cpvs r). cpn_category (cpv_cpn c) = cat \<and> cpn_package (cpv_cpn c) = pkg)"
    unfolding pkgs by (auto simp: in_category_def)
qed

section \<open>Membership\<close>

lemma matches_fake_cpn: "matches_fake re (restrict_of_cpn a) p \<longleftrightarrow> cpv_cpn (fp_cpv p) = a"
  by (auto simp: matches_fake_def restrict_of_cpn_def dep_restrict_category_def dep_restrict_package_def)

lemma fake_contains_cpn_iff: "fake_contains_cpn re r a \<longleftrightarrow> a \<in> cpv_cpn ` set (fr_cpvs r)"
  by (auto simp: fake_contains_cpn_def fake_iter_restrict_def filter_empty_conv fake_iter_def matches_fake_cpn)

text \<open>A dependency on a package without blocker, slot and USE dependencies.\<close>

definition plain_dep :: "dep \<Rightarrow> bool" where
  "plain_dep d \<longleftrightarrow> dep_blocker d = None \<and> dep_slot_dep d = None \<and> dep_use_deps d = None"

lemma matches_fake_dep:
  assumes "plain_dep d"
  shows "matches_fake re (restrict_of_dep d) p \<longleftrightarrow> cpv_cpn (fp_cpv p) = dep_cpn d \<and>
      pred_option (\<lambda>n. fr_id (fp_repo p) = n) (dep_repo d) \<and>
      pred_option (\<lambda>v. version_intersects v (cpv_version (fp_cpv p))) (dep_version d)"
proof -
  have "cpv_cpn (fp_cpv p) = dep_cpn d \<longleftrightarrow> cpn_category (cpv_cpn (fp_cpv p)) = cpn_category (dep_cpn d) \<and>
      cpn_package (cpv_cpn (fp_cpv p)) = cpn_package (dep_cpn d)" by auto
  with assms show ?thesis
    by (simp add: plain_dep_def matches_fake_def restrict_of_dep_def dep_restricts_def list_all_append
        dep_restrict_category_def dep_restrict_package_def dep_restrict_repo_def dep_slot_def dep_subslot_def
        split: option.splits) blast
qed

lemma fake_contains_dep_iff:
  assumes "plain_dep d" "wf_dep d" "list_all wf_cpv (fr_cpvs r)"
  shows "fake_contains_dep re r d \<longleftrightarrow> (\<exists>p \<in> set (fake_iter r). fake_pkg_intersects p d)"
proof -
  have "matches_fake re (restrict_of_dep d) p \<longleftrightarrow> fake_pkg_intersects p d" if "p \<in> set (fake_iter r)" for p
  proof -
    have "wf_version (cpv_version (fp_cpv p))"
      using that assms(3) by (auto simp: fake_iter_def list_all_iff wf_cpv_def)
    moreover have "\<And>v. dep_version d = Some v \<Longrightarrow> wf_version v" using assms(2) by (simp add: wf_dep_def)
    ultimately show ?thesis
      using assms(1) version_intersects_sym
      by (auto simp: matches_fake_dep [OF assms(1)] fake_pkg_intersects_def plain_dep_def split: option.splits)
  qed
  then show ?thesis
    by (auto simp: fake_contains_dep_def fake_iter_restrict_def filter_empty_conv)
qed

end
