(* ===== verification/Ebuild_Repo_Iter.thy ===== *)
theory Ebuild_Repo_Iter
  imports Ebuild_Repo_Laws
begin

text \<open>
  The iterators over an ebuild repository return, in order, what is there, and with their fast
  paths for restrictions what filtering everything returns; the restriction of a path finds
  the ebuild of the path.
\<close>

section \<open>Everything\<close>

text \<open>The \<open>Cpv\<close>s of a repository are those whose ebuilds are in a category.\<close>

lemma contains_listed:
  assumes r: "regular_repo r" and c: "ebuild_cpv c" "contains_cpv r c"
  shows "\<exists>es. read_dir (er_fs r) (cpn_category (cpv_cpn c)) = Some es \<and> cpn_package (cpv_cpn c) \<in> set es"
proof -
  note mem = fs_ok_mem [OF regular_repoD(1) [OF r]]
  let ?p = "path_join (cpn_category (cpv_cpn c)) (cpn_package (cpv_cpn c))"
  have "path_exists (er_fs r) (path_join ?p (ebuild_name c))"
    using c by (simp add: contains_cpv_def cpv_relpath_join)
  from mem [OF ebuild_name_file [OF c(1)] this] have "path_exists (er_fs r) ?p"
    by (auto simp: read_dir_def path_exists_def split: option.splits)
  moreover have "file_name_ok (cpn_package (cpv_cpn c))" using c by (auto simp: ebuild_cpv_def valid_cpn_def)
  ultimately show ?thesis using mem by blast
qed

lemma cpvs_from_category_facts:
  assumes r: "regular_repo r" and cx: "index_set cpv_eq cx" and cat: "file_name_ok cat"
  shows "c \<in> set (cpvs_from_category ec cx r cat) \<longleftrightarrow>
      ebuild_cpv c \<and> cpn_category (cpv_cpn c) = cat \<and> contains_cpv r c"
    and "strict_sorted_cmp cpv_cmp (cpvs_from_category ec cx r cat)"
proof -
  let ?fs = "er_fs r"
  show strict: "strict_sorted_cmp cpv_cmp (cpvs_from_category ec cx r cat)"
    using cx dir_cpvs_category [OF cat]
    by (auto simp: cpvs_from_category_def cpvs_from_package_eq cpv_eq_cmp list_all_iff
        intro!: ebuild_ord.collect_sort_strict split: option.splits)
  show "c \<in> set (cpvs_from_category ec cx r cat) \<longleftrightarrow>
      ebuild_cpv c \<and> cpn_category (cpv_cpn c) = cat \<and> contains_cpv r c"
  proof (cases "read_dir ?fs cat")
    case None
    with contains_listed [OF r, of c] show ?thesis by (auto simp: cpvs_from_category_def)
  next
    case (Some es)
    let ?all = "concat (map (\<lambda>e. oks (cpvs_from_package ec r cat e)) es)"
    have ok: "e \<in> set es \<Longrightarrow> file_name_ok e" for e
      using fs_ok_dir [OF regular_repoD(1) [OF r] Some] by (simp add: list_all_iff)
    have all: "x \<in> set ?all \<longleftrightarrow> ebuild_cpv x \<and> cpn_category (cpv_cpn x) = cat \<and> contains_cpv r x" for x
    proof -
      have "cpn_package (cpv_cpn x) \<in> set es"
        if "ebuild_cpv x" "cpn_category (cpv_cpn x) = cat" "contains_cpv r x"
        using contains_listed [OF r, of x] that Some by auto
      then show ?thesis using dir_cpvs_iff [OF r cat ok]
        by (auto simp: cpvs_from_package_eq simp del: set_oks)
    qed
    have same: "x = y" if "x \<in> set ?all" "y \<in> set ?all" "cpv_eq x y" for x y
    proof -
      let ?p = "path_join cat (cpn_package (cpv_cpn x))"
      have pkg: "file_name_ok (cpn_package (cpv_cpn x))"
        using that(1) by (auto simp: all ebuild_cpv_def valid_cpn_def simp del: set_concat)
      have "x \<in> set (dir_cpvs ?fs ?p)" "y \<in> set (dir_cpvs ?fs ?p)"
        unfolding dir_cpvs_iff [OF r cat pkg] using that by (auto simp: all cpv_eq_def simp del: set_concat)
      then show ?thesis by (rule distinct_by_same [OF regular_repoD(5) [OF r] _ _ that(3)])
    qed
    have "set (firsts_by cpv_eq ?all) = set ?all"
      by (rule set_firsts_canonical) (use same all ebuild_ord.refl in \<open>auto simp: cpv_eq_iff\<close>)
    with Some all cx show ?thesis
      by (simp add: cpvs_from_category_def index_set.collect del: set_concat)
  qed
qed

lemma cpv_cmp_category:
  "cmp_str (cpn_category (cpv_cpn x)) (cpn_category (cpv_cpn y)) = Less \<Longrightarrow> cpv_cmp x y = Less"
  by (simp add: cpv_cmp_def cpn_cmp_def)

text \<open>Lists of the \<open>Cpv\<close>s of some categories, one category after the other.\<close>

lemma categories_concat_strict:
  assumes "index_set (=) sx"
    and "\<And>cat. cat \<in> set (categories sx r) \<Longrightarrow> strict_sorted_cmp cpv_cmp (f cat) \<and>
      (\<forall>c \<in> set (f cat). cpn_category (cpv_cpn c) = cat)"
  shows "strict_sorted_cmp cpv_cmp (concat (map f (filter Q (categories sx r))))"
proof (rule ebuild_ord.strict_concat)
  show "sorted_wrt (\<lambda>a b. cmp_str a b = Less) (filter Q (categories sx r))"
    using categories_strict [OF assms(1), of r] by (simp add: strict_sorted_cmp_def sorted_wrt_filter)
next
  fix a b x y
  assume h: "a \<in> set (filter Q (categories sx r))" "b \<in> set (filter Q (categories sx r))" "cmp_str a b = Less"
    "x \<in> set (f a)" "y \<in> set (f b)"
  then have "cpn_category (cpv_cpn x) = a" "cpn_category (cpv_cpn y) = b" using assms(2) by auto
  with h show "cpv_cmp x y = Less" by (intro cpv_cmp_category) simp
qed (use assms(2) in simp)

lemma iter_cpv_all:
  assumes r: "regular_repo r" and sx: "index_set (=) sx" and cx: "index_set cpv_eq cx"
  shows "iter_cpv re ec sx cx r None = concat (map (cpvs_from_category ec cx r) (categories sx r))"
    and "strict_sorted_cmp cpv_cmp (iter_cpv re ec sx cx r None)"
    and "c \<in> set (iter_cpv re ec sx cx r None) \<longleftrightarrow>
      ebuild_cpv c \<and> cpn_category (cpv_cpn c) \<in> set (categories sx r) \<and> contains_cpv r c"
proof -
  have ok: "cat \<in> set (categories sx r) \<Longrightarrow> file_name_ok cat" for cat
    using category_valid [OF r sx] by blast
  have "strict_sorted_cmp cpv_cmp (concat (map (cpvs_from_category ec cx r) (filter (\<lambda>_. True) (categories sx r))))"
    using cpvs_from_category_facts [OF r cx ok] by (intro categories_concat_strict [OF sx]) blast
  then have strict: "strict_sorted_cmp cpv_cmp (concat (map (cpvs_from_category ec cx r) (categories sx r)))" by simp
  then show eq: "iter_cpv re ec sx cx r None = concat (map (cpvs_from_category ec cx r) (categories sx r))"
    by (simp add: iter_cpv_def category_restricts_def package_restricts_def version_restricts_def
        ebuild_ord.sort_cmp_id ebuild_ord.strict_sorted)
  show "strict_sorted_cmp cpv_cmp (iter_cpv re ec sx cx r None)" using strict eq by simp
  show "c \<in> set (iter_cpv re ec sx cx r None) \<longleftrightarrow>
      ebuild_cpv c \<and> cpn_category (cpv_cpn c) \<in> set (categories sx r) \<and> contains_cpv r c"
    unfolding eq using cpvs_from_category_facts(1) [OF r cx ok] by auto
qed

section \<open>Restricted iteration\<close>

text \<open>What is read off a restriction holds of its matches.\<close>

lemma matches_conjuncts:
  "boolean_matches f q \<Longrightarrow> q' \<in> set (conjuncts q) \<Longrightarrow> boolean_matches f q'"
  by (cases q) (auto simp: conjuncts_def list_all_iff)

lemma restricts_mem:
  "s \<in> set (category_restricts rs) \<longleftrightarrow> Var (BDep (DepCategory s)) \<in> set rs"
  "s \<in> set (package_restricts rs) \<longleftrightarrow> Var (BDep (DepPackage s)) \<in> set rs"
  "v \<in> set (version_restricts rs) \<longleftrightarrow> Var (BDep (DepVersion v)) \<in> set rs"
proof -
  have mem: "x \<in> set (List.map_filter f ys) \<longleftrightarrow> (\<exists>y \<in> set ys. f y = Some x)" for f :: "'b \<Rightarrow> 'c option" and x ys
    by (induction ys) (auto split: option.splits)
  show "s \<in> set (category_restricts rs) \<longleftrightarrow> Var (BDep (DepCategory s)) \<in> set rs"
    unfolding category_restricts_def mem
    by (rule iffI, elim bexE) (auto split: restrict.splits base_variant.splits dep_restrict.splits)
  show "s \<in> set (package_restricts rs) \<longleftrightarrow> Var (BDep (DepPackage s)) \<in> set rs"
    unfolding package_restricts_def mem
    by (rule iffI, elim bexE) (auto split: restrict.splits base_variant.splits dep_restrict.splits)
  show "v \<in> set (version_restricts rs) \<longleftrightarrow> Var (BDep (DepVersion v)) \<in> set rs"
    unfolding version_restricts_def mem
    by (rule iffI, elim bexE) (auto split: restrict.splits base_variant.splits dep_restrict.splits)
qed

text \<open>A \<open>Cpv\<close> that those parts of a restriction do not rule out.\<close>

definition candidate :: "(string \<Rightarrow> string \<Rightarrow> bool) \<Rightarrow> base_restrict \<Rightarrow> cpv \<Rightarrow> bool" where
  "candidate re q c \<longleftrightarrow>
     list_all (\<lambda>s. str_matches re s (cpn_category (cpv_cpn c))) (category_restricts (conjuncts q)) \<and>
     list_all (\<lambda>s. str_matches re s (cpn_package (cpv_cpn c))) (package_restricts (conjuncts q)) \<and>
     list_all (\<lambda>v. dep_restrict_matches_cpv re c (DepVersion v)) (version_restricts (conjuncts q))"

lemma candidateI:
  assumes "boolean_matches f q"
    and "\<And>s. f (BDep (DepCategory s)) \<Longrightarrow> str_matches re s (cpn_category (cpv_cpn c))"
      "\<And>s. f (BDep (DepPackage s)) \<Longrightarrow> str_matches re s (cpn_package (cpv_cpn c))"
      "\<And>v. f (BDep (DepVersion v)) \<Longrightarrow> dep_restrict_matches_cpv re c (DepVersion v)"
  shows "candidate re q c"
proof -
  have "boolean_matches f q'" if "q' \<in> set (conjuncts q)" for q'
    using matches_conjuncts [OF assms(1) that] .
  with assms(2-4) show ?thesis
    by (fastforce simp: candidate_def list_all_iff restricts_mem)
qed

lemma matches_candidate:
  "matches_cpv re q c \<Longrightarrow> candidate re q c"
  "matches_ebuild re ux sx q p \<Longrightarrow> candidate re q (pkg_cpv p)"
  unfolding matches_cpv_def matches_ebuild_def by (erule candidateI; simp)+

lemma matches_restricts:
  assumes "candidate re q c"
  shows "s \<in> set (category_restricts (conjuncts q)) \<Longrightarrow> str_matches re s (cpn_category (cpv_cpn c))"
    and "s \<in> set (package_restricts (conjuncts q)) \<Longrightarrow> str_matches re s (cpn_package (cpv_cpn c))"
    and "v \<in> set (version_restricts (conjuncts q)) \<Longrightarrow> matches_cpv re (Var (BDep (DepVersion v))) c"
  using assms by (simp_all add: candidate_def list_all_iff matches_cpv_def)

lemma equal_value_Some: "equal_value qs = Some s \<longleftrightarrow> qs = [Var (StrEqual s)]"
  by (cases qs rule: equal_value.cases) auto

lemma exact_version_Some: "exact_version vs = Some v \<longleftrightarrow> vs = [Some v] \<and> (ver_op v = None \<or> ver_op v = Some OpEqual)"
  by (cases vs rule: exact_version.cases) auto

text \<open>When the fast paths are exact: a category restricted to a name is one of the repository, and the
  ebuild of an exact version is spelled like it.\<close>

definition names_category :: "string index_set \<Rightarrow> ebuild_repo \<Rightarrow> base_restrict \<Rightarrow> bool" where
  "names_category sx r q = pred_option (\<lambda>cat. cat \<in> set (categories sx r)) (equal_value (category_restricts (conjuncts q)))"

definition spelled_like :: "base_restrict \<Rightarrow> cpv list \<Rightarrow> bool" where
  "spelled_like q cs = pred_option (\<lambda>v. list_all (\<lambda>c. version_display (cpv_version c) = version_without_op v) cs)
     (exact_version (version_restricts (conjuncts q)))"

abbreviation cats_of :: "base_restrict \<Rightarrow> str_restrict list" where
  "cats_of q \<equiv> category_restricts (conjuncts q)"

abbreviation pkgs_of :: "base_restrict \<Rightarrow> str_restrict list" where
  "pkgs_of q \<equiv> package_restricts (conjuncts q)"

abbreviation vers_of :: "base_restrict \<Rightarrow> version option list" where
  "vers_of q \<equiv> version_restricts (conjuncts q)"

text \<open>The ways to iterate.\<close>

lemma iter_cpv_shape:
  fixes q :: base_restrict
  obtains
    (all) "iter_cpv re ec sx cx r (Some q) = iter_cpv re ec sx cx r None"
    | (exact) k pn v where "equal_value (cats_of q) = Some k" "equal_value (pkgs_of q) = Some pn" "exact_version (vers_of q) = Some v"
        "iter_cpv re ec sx cx r (Some q) = (case cpv_try_from k pn (version_without_op v) of
           Inr c \<Rightarrow> if contains_cpv r c then [c] else [] | Inl _ \<Rightarrow> [])"
    | (package) k pn where "equal_value (cats_of q) = Some k" "equal_value (pkgs_of q) = Some pn"
        "iter_cpv re ec sx cx r (Some q) = filter (matches_cpv re (of_dep_restricts (map DepVersion (vers_of q)))) (oks (cpvs_from_package ec r k pn))"
    | (name) pn where "equal_value (pkgs_of q) = Some pn"
        "iter_cpv re ec sx cx r (Some q) = concat (map (\<lambda>k. filter (matches_cpv re (of_dep_restricts (map DepVersion (vers_of q)))) (oks (cpvs_from_package ec r k pn))) (categories sx r))"
    | (rest) "iter_cpv re ec sx cx r (Some q) = filter (matches_cpv re (of_dep_restricts (map DepVersion (vers_of q))))
        (filter (matches_cpv re (of_dep_restricts (map DepPackage (pkgs_of q))))
        (concat (map (cpvs_from_category ec cx r) (filter (matches_string re (of_dep_restricts (map DepCategory (cats_of q)))) (categories sx r)))))"
proof (cases "cats_of q = [] \<and> pkgs_of q = [] \<and> vers_of q = []")
  case True
  then have "iter_cpv re ec sx cx r (Some q) = iter_cpv re ec sx cx r None"
    by (simp add: iter_cpv_def category_restricts_def package_restricts_def version_restricts_def)
  then show thesis by (rule that(1))
next
  case False
  note l = iter_cpv_def [of re ec sx cx r "Some q", unfolded Let_def option.case if_not_P [OF False]]
  show thesis
  proof (cases "equal_value (pkgs_of q)")
    case None
    then show thesis using l by (intro that(5)) (cases "equal_value (cats_of q)", simp_all)
  next
    case (Some pn)
    show thesis
    proof (cases "equal_value (cats_of q)")
      case None
      then show thesis using l Some by (cases "cats_of q = []") (auto intro: that(4,5))
    next
      case (Some k)
      then have "cats_of q \<noteq> []" by auto
      then show thesis
        using l Some \<open>equal_value (pkgs_of q) = Some pn\<close> by (cases "exact_version (vers_of q)") (auto intro: that(2,3))
    qed
  qed
qed

lemma iter_cpv_candidates:
  assumes r: "regular_repo r" and sx: "index_set (=) sx" and cx: "index_set cpv_eq cx"
    and cat: "names_category sx r q"
    and ver: "spelled_like q (filter m (iter_cpv re ec sx cx r None))"
    and m: "\<And>c. m c \<Longrightarrow> candidate re q c"
  shows "strict_sorted_cmp cpv_cmp (iter_cpv re ec sx cx r (Some q)) \<and>
    (\<forall>c. m c \<longrightarrow> (c \<in> set (iter_cpv re ec sx cx r (Some q)) \<longleftrightarrow> c \<in> set (iter_cpv re ec sx cx r None)))"
    (is "strict_sorted_cmp cpv_cmp ?l \<and> (\<forall>c. m c \<longrightarrow> (c \<in> set ?l \<longleftrightarrow> c \<in> set ?all))")
proof -
  let ?cats = "cats_of q"
  let ?pkgs = "pkgs_of q"
  let ?vers = "vers_of q"
  let ?ver = "matches_cpv re (of_dep_restricts (map DepVersion ?vers))"
  let ?pkg = "matches_cpv re (of_dep_restricts (map DepPackage ?pkgs))"
  let ?cat = "matches_string re (of_dep_restricts (map DepCategory ?cats))"
  note all = iter_cpv_all [OF r sx cx, where re = re and ec = ec]
  have vers: "m c \<Longrightarrow> ?ver c" and pkgs: "m c \<Longrightarrow> ?pkg c" and cats: "m c \<Longrightarrow> ?cat (cpn_category (cpv_cpn c))" for c
    using matches_restricts [OF m, of c]
    by (simp_all add: matches_cpv_def matches_string_def list_all_iff)
  have ok: "k \<in> set (categories sx r) \<Longrightarrow> file_name_ok k" for k
    using category_valid [OF r sx] by blast
  have pkg_ok: "c \<in> set ?all \<Longrightarrow> file_name_ok (cpn_package (cpv_cpn c))" for c
    by (auto simp: all(3) ebuild_cpv_def valid_cpn_def)
  have members: "c \<in> set (oks (cpvs_from_package ec r k pn)) \<longleftrightarrow> c \<in> set ?all"
    if "m c" "k \<in> set (categories sx r)" "equal_value ?pkgs = Some pn" "cpn_category (cpv_cpn c) = k" for c k pn
  proof -
    have pn: "cpn_package (cpv_cpn c) = pn"
      using matches_restricts(2) [OF m, OF that(1)] that(3) by (simp add: equal_value_Some)
    show ?thesis
    proof (cases "file_name_ok pn")
      case True
      then show ?thesis
        using dir_cpvs_iff [OF r ok [OF that(2)] True, of c] that pn by (auto simp: cpvs_from_package_eq all(3))
    next
      case False
      then show ?thesis
        using dir_cpvs_category [OF ok [OF that(2)]] pn pkg_ok [of c]
        by (auto simp: cpvs_from_package_eq ebuild_cpv_def valid_cpn_def)
    qed
  qed
  have strict: "strict_sorted_cmp cpv_cmp (filter ?ver (oks (cpvs_from_package ec r k pn)))" if "k \<in> set (categories sx r)" for k pn
    using cpvs_from_package_strict [OF r ok [OF that]] by (rule ebuild_ord.strict_filter)
  show ?thesis
  proof (cases rule: iter_cpv_shape [of re ec sx cx r q])
    case all
    with iter_cpv_all(2) [OF r sx cx] show ?thesis by simp
  next
    case (exact k pn v)
    have k: "k \<in> set (categories sx r)" using exact(1) cat by (simp add: names_category_def)
    have mem: "c \<in> set ?l \<longleftrightarrow> contains_cpv r c \<and> cpv_try_from k pn (version_without_op v) = Inr c" for c
      using exact(4) by (auto split: sum.splits)
    have "c \<in> set ?l \<longleftrightarrow> c \<in> set ?all" if c: "m c" for c
    proof
      assume "c \<in> set ?l"
      with k show "c \<in> set ?all" by (auto simp: mem all(3) cpv_try_from_iff)
    next
      assume "c \<in> set ?all"
      with ver c exact(3) have "version_display (cpv_version c) = version_without_op v"
        by (simp add: spelled_like_def list_all_iff)
      with \<open>c \<in> set ?all\<close> matches_restricts [OF m, OF c] exact show "c \<in> set ?l"
        unfolding mem cpv_try_from_iff by (simp add: all(3) equal_value_Some)
    qed
    moreover have "strict_sorted_cmp cpv_cmp ?l" using exact(4) by (simp split: sum.splits)
    ultimately show ?thesis by blast
  next
    case (package k pn)
    then have k: "k \<in> set (categories sx r)" using cat by (simp add: names_category_def)
    have "cpn_category (cpv_cpn c) = k" if "m c" for c
      using matches_restricts(1) [OF m, OF that] package(1) by (simp add: equal_value_Some)
    then show ?thesis using package strict [OF k] members [OF _ k] vers by auto
  next
    case (name pn)
    have category: "cpn_category (cpv_cpn c) = k"
      if "c \<in> set (oks (cpvs_from_package ec r k pn))" "k \<in> set (categories sx r)" for c k
      using dir_cpvs_category [OF ok [OF that(2)]] that(1) by (simp add: cpvs_from_package_eq)
    have "strict_sorted_cmp cpv_cmp ?l"
      using categories_concat_strict [OF sx, of r _ "\<lambda>_. True"] strict category unfolding name(2) by simp
    moreover have "c \<in> set ?l \<longleftrightarrow> c \<in> set ?all" if c: "m c" for c
    proof
      assume "c \<in> set ?l"
      then obtain k where "k \<in> set (categories sx r)" "c \<in> set (oks (cpvs_from_package ec r k pn))"
        by (auto simp: name(2) simp del: set_oks)
      with members [OF c _ name(1)] category show "c \<in> set ?all" by blast
    next
      assume "c \<in> set ?all"
      moreover from this have "cpn_category (cpv_cpn c) \<in> set (categories sx r)" by (simp only: all(3))
      ultimately show "c \<in> set ?l"
        using members [OF c _ name(1) refl] vers [OF c] by (force simp: name(2) simp del: set_oks)
    qed
    ultimately show ?thesis by blast
  next
    case rest
    have facts: "\<And>c. c \<in> set (cpvs_from_category ec cx r k) \<Longrightarrow> cpn_category (cpv_cpn c) = k"
      "strict_sorted_cmp cpv_cmp (cpvs_from_category ec cx r k)" if "k \<in> set (categories sx r)" for k
      using cpvs_from_category_facts [OF r cx ok [OF that]] by simp_all
    have "strict_sorted_cmp cpv_cmp ?l"
      unfolding rest using categories_concat_strict [OF sx] facts by (intro ebuild_ord.strict_filter) blast
    moreover have "c \<in> set ?l \<longleftrightarrow> c \<in> set ?all" if "m c" for c
      using vers [OF that] pkgs [OF that] cats [OF that] facts(1) unfolding rest all(1) by auto
    ultimately show ?thesis by blast
  qed
qed

lemma iter_cpv_filter:
  assumes r: "regular_repo r" and sx: "index_set (=) sx" and cx: "index_set cpv_eq cx"
    and "names_category sx r q" "spelled_like q (filter m (iter_cpv re ec sx cx r None))"
    and "\<And>c. m c \<Longrightarrow> candidate re q c"
  shows "filter m (iter_cpv re ec sx cx r (Some q)) = filter m (iter_cpv re ec sx cx r None)"
proof -
  have l: "strict_sorted_cmp cpv_cmp (iter_cpv re ec sx cx r (Some q))"
    "\<And>c. m c \<Longrightarrow> (c \<in> set (iter_cpv re ec sx cx r (Some q)) \<longleftrightarrow> c \<in> set (iter_cpv re ec sx cx r None))"
    using iter_cpv_candidates [OF assms] by blast+
  have "filter m (iter_cpv re ec sx cx r None) = filter m (iter_cpv re ec sx cx r (Some q))"
    using l iter_cpv_all(2,3) [OF r sx cx]
    by (intro ebuild_ord.strict_unique ebuild_ord.strict_filter) (auto simp: list_all_iff)
  then show ?thesis by simp
qed

lemma iter_cpv_restrict_eq:
  assumes "regular_repo r" "index_set (=) sx" "index_set cpv_eq cx"
    and "names_category sx r q"
    and "spelled_like q (filter (matches_cpv re q) (iter_cpv re ec sx cx r None))"
  shows "iter_cpv_restrict re ec sx cx r q = filter (matches_cpv re q) (iter_cpv re ec sx cx r None)"
proof (cases "q = Var BFalse")
  case True
  then show ?thesis by (simp add: iter_cpv_restrict_def matches_cpv_def)
next
  case False
  then show ?thesis
    using iter_cpv_filter [OF assms matches_candidate(1)] by (simp add: iter_cpv_restrict_def)
qed

text \<open>The same for packages, when the package of a \<open>Cpv\<close> has it.\<close>

lemma oks_map_filter:
  "oks (filter (\<lambda>x. case x of Inr p \<Rightarrow> m p | Inl e \<Rightarrow> True) (map load cs)) = filter m (oks (map load cs))"
  by (induction cs) (auto split: sum.splits simp: oks_def)

lemma oks_load_filter:
  "filter m (oks (map load cs)) =
    oks (map load (filter (\<lambda>c. case load c of Inr p \<Rightarrow> m p | Inl e \<Rightarrow> False) cs))"
  by (induction cs) (auto split: sum.splits simp: oks_def)

lemma iter_pkg_restrict_eq:
  assumes r: "regular_repo r" and sx: "index_set (=) sx" and cx: "index_set cpv_eq cx"
    and "names_category sx r q"
    and ver: "spelled_like q (filter (candidate re q) (iter_cpv re ec sx cx r None))"
    and load: "\<And>c p. load c = Inr p \<Longrightarrow> pkg_cpv p = c"
  shows "oks (iter_pkg_restrict load (matches_ebuild re ux sx) re ec sx cx r q) =
    filter (matches_ebuild re ux sx q) (oks (iter_pkg load re ec sx cx r None))"
proof (cases "q = Var BFalse")
  case True
  then show ?thesis by (simp add: iter_pkg_restrict_def matches_ebuild_def)
next
  case False
  let ?m = "\<lambda>c. case load c of Inr p \<Rightarrow> matches_ebuild re ux sx q p | Inl e \<Rightarrow> False"
  have m: "candidate re q c" if "?m c" for c
    using that matches_candidate(2) [of re ux sx q] load [of c] by (auto split: sum.splits)
  have "spelled_like q (filter ?m (iter_cpv re ec sx cx r None))"
    using ver m by (cases "exact_version (vers_of q)") (auto simp: spelled_like_def list_all_iff)
  from iter_cpv_filter [OF r sx cx assms(4) this m]
  show ?thesis
    using False by (simp add: iter_pkg_restrict_def iter_pkg_def oks_map_filter oks_load_filter)
qed

section \<open>Package names\<close>

lemma sorted_filter_strict:
  "index_set (=) sx \<Longrightarrow> distinct es \<Longrightarrow> is_collect sx (filter Q (sort_cmp cmp_str es)) = filter Q (sort_cmp cmp_str es) \<and>
    strict_sorted_cmp cmp_str (filter Q (sort_cmp cmp_str es))"
proof -
  assume sx: "index_set (=) sx" and "distinct es"
  then have s: "strict_sorted_cmp cmp_str (sort_cmp cmp_str es)"
    by (intro str_ord.sort_cmp_strict) (simp_all add: eq_cmp_str list_all_iff)
  have "distinct xs" if "strict_sorted_cmp cmp_str xs" for xs
    using that by (induction xs) auto
  then have "distinct (sort_cmp cmp_str es)" using s by blast
  with sx s show ?thesis by (simp add: index_set.collect firsts_by_distinct str_ord.strict_filter)
qed

lemma packages_facts:
  assumes r: "regular_repo r" and sx: "index_set (=) sx" and cat: "cat \<in> set (categories sx r)"
  shows "pn \<in> set (packages sx r cat) \<longleftrightarrow> valid_package pn \<and> path_exists (er_fs r) (path_join cat pn)"
    and "strict_sorted_cmp cmp_str (packages sx r cat)"
proof -
  have "is_dir (er_fs r) cat" and trees: "cat \<in> set (concat (er_trees r))" using cat set_categories [OF sx] by blast+
  then obtain es where es: "read_dir (er_fs r) cat = Some es"
    by (auto simp: is_dir_def read_dir_def split: option.splits fs_node.splits)
  have "packages sx r cat = is_collect sx (filter (\<lambda>e. is_dir (er_fs r) (path_join cat e) \<and> \<not> is_hidden e \<and>
       (case parse_package e of Inl _ \<Rightarrow> False | Inr _ \<Rightarrow> True)) (sort_cmp cmp_str es))"
    using es by (simp add: packages_def sorted_dir_list_def)
  also have "(\<lambda>e. is_dir (er_fs r) (path_join cat e) \<and> \<not> is_hidden e \<and>
       (case parse_package e of Inl _ \<Rightarrow> False | Inr _ \<Rightarrow> True)) =
      (\<lambda>e. is_dir (er_fs r) (path_join cat e) \<and> valid_package e)"
  proof
    fix e
    have "(case parse_package e of Inl _ \<Rightarrow> False | Inr _ \<Rightarrow> True) = valid_package e"
      using parse_package_iff [of e] by (cases "parse_package e") auto
    moreover have "valid_package e \<Longrightarrow> \<not> is_hidden e"
      by (auto simp: valid_package_def is_hidden_def starts_with_def word_char_def char_classes split: list.splits)
    ultimately show "(is_dir (er_fs r) (path_join cat e) \<and> \<not> is_hidden e \<and>
       (case parse_package e of Inl _ \<Rightarrow> False | Inr _ \<Rightarrow> True)) =
      (is_dir (er_fs r) (path_join cat e) \<and> valid_package e)" by auto
  qed
  finally have p: "packages sx r cat = filter (\<lambda>e. is_dir (er_fs r) (path_join cat e) \<and> valid_package e) (sort_cmp cmp_str es)"
    "strict_sorted_cmp cmp_str (packages sx r cat)"
    using sorted_filter_strict [OF sx, of es] fs_ok_dir [OF regular_repoD(1) [OF r] es] by simp_all
  show "strict_sorted_cmp cmp_str (packages sx r cat)" by (rule p(2))
  have "is_dir (er_fs r) (path_join cat pn)" "pn \<in> set es"
    if "valid_package pn" "path_exists (er_fs r) (path_join cat pn)"
    using regular_repoD(4) [OF r trees that] fs_ok_mem [OF regular_repoD(1) [OF r] valid_package_file that(2)] that es by auto
  then show "pn \<in> set (packages sx r cat) \<longleftrightarrow> valid_package pn \<and> path_exists (er_fs r) (path_join cat pn)"
    unfolding p(1) by (auto simp: is_dir_def path_exists_def split: option.splits)
qed

abbreviation mk_cpn :: "string \<Rightarrow> string \<Rightarrow> cpn" where
  "mk_cpn cat pn \<equiv> \<lparr>cpn_category = cat, cpn_package = pn\<rparr>"

lemma mk_cpn_eq [simp]: "mk_cpn cat pn = a \<longleftrightarrow> cat = cpn_category a \<and> pn = cpn_package a"
  by (cases a) auto

lemma contains_cpn_iff: "contains_cpn r a \<longleftrightarrow> path_exists (er_fs r) (path_join (cpn_category a) (cpn_package a))"
  by (simp add: contains_cpn_def cpn_display_def path_join_def)

lemma map_cpn_strict: "strict_sorted_cmp cmp_str pns \<Longrightarrow> strict_sorted_cmp cpn_cmp (map (mk_cpn cat) pns)"
  by (induction pns) (auto simp: cpn_cmp_def)

lemma categories_cpn_strict:
  assumes "index_set (=) sx"
    and "\<And>cat. cat \<in> set (categories sx r) \<Longrightarrow> strict_sorted_cmp cmp_str (f cat)"
  shows "strict_sorted_cmp cpn_cmp (concat (map (\<lambda>cat. map (mk_cpn cat) (f cat)) (filter Q (categories sx r))))"
proof (rule cpn_ord.strict_concat)
  show "sorted_wrt (\<lambda>a b. cmp_str a b = Less) (filter Q (categories sx r))"
    using categories_strict [OF assms(1), of r] by (simp add: strict_sorted_cmp_def sorted_wrt_filter)
qed (use assms(2) map_cpn_strict in \<open>auto simp: cpn_cmp_def\<close>)

lemma iter_cpn_all:
  assumes r: "regular_repo r" and sx: "index_set (=) sx"
  shows "iter_cpn re sx r None = concat (map (\<lambda>cat. map (mk_cpn cat) (packages sx r cat)) (categories sx r))"
    and "strict_sorted_cmp cpn_cmp (iter_cpn re sx r None)"
    and "a \<in> set (iter_cpn re sx r None) \<longleftrightarrow>
      cpn_category a \<in> set (categories sx r) \<and> valid_package (cpn_package a) \<and> contains_cpn r a"
proof -
  note facts = packages_facts [OF r sx]
  have strict: "strict_sorted_cmp cpn_cmp (concat (map (\<lambda>cat. map (mk_cpn cat) (packages sx r cat)) (categories sx r)))"
    using categories_cpn_strict [OF sx, of r _ "\<lambda>_. True"] facts(2) by simp
  then show eq: "iter_cpn re sx r None = concat (map (\<lambda>cat. map (mk_cpn cat) (packages sx r cat)) (categories sx r))"
    by (simp add: iter_cpn_def category_restricts_def package_restricts_def
        cpn_ord.sort_cmp_id cpn_ord.strict_sorted)
  show "strict_sorted_cmp cpn_cmp (iter_cpn re sx r None)" using strict eq by simp
  show "a \<in> set (iter_cpn re sx r None) \<longleftrightarrow>
      cpn_category a \<in> set (categories sx r) \<and> valid_package (cpn_package a) \<and> contains_cpn r a"
    unfolding eq using facts(1) by (cases a) (auto simp: contains_cpn_iff)
qed

text \<open>A package restricted to a name asks for a package name.\<close>

definition names_package :: "base_restrict \<Rightarrow> bool" where
  "names_package q = pred_option valid_package (equal_value (pkgs_of q))"

lemma matches_restricts_cpn:
  assumes "matches_cpn re q a"
  shows "s \<in> set (cats_of q) \<Longrightarrow> str_matches re s (cpn_category a)"
    and "s \<in> set (pkgs_of q) \<Longrightarrow> str_matches re s (cpn_package a)"
  using matches_conjuncts [OF assms [unfolded matches_cpn_def], of "Var (BDep (DepCategory s))"]
    matches_conjuncts [OF assms [unfolded matches_cpn_def], of "Var (BDep (DepPackage s))"]
  by (simp_all add: restricts_mem)

lemma iter_cpn_shape:
  fixes q :: base_restrict
  obtains
    (all) "iter_cpn re sx r (Some q) = iter_cpn re sx r None"
    | (both) k pn where "equal_value (cats_of q) = Some k" "equal_value (pkgs_of q) = Some pn"
        "iter_cpn re sx r (Some q) = (case cpn_try_from k pn of Inr a \<Rightarrow> if contains_cpn r a then [a] else [] | Inl _ \<Rightarrow> [])"
    | (category) k where "equal_value (cats_of q) = Some k" "iter_cpn re sx r (Some q) = map (mk_cpn k) (filter (matches_string re (str_and (pkgs_of q))) (packages sx r k))"
    | (package) pn where "equal_value (pkgs_of q) = Some pn"
        "iter_cpn re sx r (Some q) = filter (contains_cpn r) (map (\<lambda>k. mk_cpn k pn) (filter (matches_string re (str_and (cats_of q))) (categories sx r)))"
    | (rest) "iter_cpn re sx r (Some q) = concat (map (\<lambda>k. map (mk_cpn k) (filter (matches_string re (str_and (pkgs_of q))) (packages sx r k))) (filter (matches_string re (str_and (cats_of q))) (categories sx r)))"
proof (cases "cats_of q = [] \<and> pkgs_of q = []")
  case True
  then have "iter_cpn re sx r (Some q) = iter_cpn re sx r None" by (simp add: iter_cpn_def category_restricts_def package_restricts_def)
  then show thesis by (rule that(1))
next
  case False
  note l = iter_cpn_def [of re sx r "Some q", unfolded Let_def option.case if_not_P [OF False]]
  show thesis
    using l by (cases "equal_value (cats_of q)"; cases "equal_value (pkgs_of q)") (auto intro: that(2-5))
qed

lemma iter_cpn_candidates:
  assumes r: "regular_repo r" and sx: "index_set (=) sx"
    and cat: "names_category sx r q" and pkg: "names_package q"
  shows "strict_sorted_cmp cpn_cmp (iter_cpn re sx r (Some q)) \<and>
    (\<forall>a. matches_cpn re q a \<longrightarrow>
      (a \<in> set (iter_cpn re sx r (Some q)) \<longleftrightarrow> a \<in> set (iter_cpn re sx r None)))"
    (is "strict_sorted_cmp cpn_cmp ?l \<and> (\<forall>a. ?m a \<longrightarrow> (a \<in> set ?l \<longleftrightarrow> a \<in> set ?all))")
proof -
  let ?cats = "cats_of q"
  let ?pkgs = "pkgs_of q"
  let ?pkg = "matches_string re (str_and ?pkgs)"
  let ?cat = "matches_string re (str_and ?cats)"
  note all = iter_cpn_all(3) [OF r sx, where re = re]
  note facts = packages_facts [OF r sx]
  have pkgs: "?m a \<Longrightarrow> ?pkg (cpn_package a)" and cats: "?m a \<Longrightarrow> ?cat (cpn_category a)" for a
    using matches_restricts_cpn [of re q a] by (simp_all add: matches_string_def list_all_iff)
  have strict: "strict_sorted_cmp cmp_str (filter ?pkg (packages sx r k))" if "k \<in> set (categories sx r)" for k
    using facts(2) [OF that] by (rule str_ord.strict_filter)
  show ?thesis
  proof (cases rule: iter_cpn_shape [of re sx r q])
    case all
    with iter_cpn_all(2) [OF r sx] show ?thesis by simp
  next
    case (both k pn)
    have k: "k \<in> set (categories sx r)" using both(1) cat by (simp add: names_category_def)
    have "a \<in> set ?l \<longleftrightarrow> contains_cpn r a \<and> cpn_try_from k pn = Inr a" for a
      using both(3) by (auto split: sum.splits)
    then have "a \<in> set ?l \<longleftrightarrow> a \<in> set ?all" if "?m a" for a
      using matches_restricts_cpn [OF that] both k category_valid [OF r sx k]
      by (auto simp: all cpn_try_from_iff equal_value_Some valid_cpn_def)
    moreover have "strict_sorted_cmp cpn_cmp ?l" using both(3) by (simp split: sum.splits)
    ultimately show ?thesis by blast
  next
    case (category k)
    have k: "k \<in> set (categories sx r)" using category(1) cat by (simp add: names_category_def)
    have "a \<in> set ?l \<longleftrightarrow> a \<in> set ?all" if a: "?m a" for a
    proof -
      have "cpn_category a = k" using matches_restricts_cpn [OF a] category(1) by (simp add: equal_value_Some)
      moreover have "a \<in> set ?l \<longleftrightarrow> cpn_category a = k \<and> cpn_package a \<in> set (filter ?pkg (packages sx r k))"
        unfolding category(2) by (cases a) auto
      ultimately show ?thesis using facts(1) [OF k] pkgs [OF a] k by (auto simp: all contains_cpn_iff)
    qed
    with category strict [OF k] map_cpn_strict show ?thesis by simp
  next
    case (package pn)
    have pn: "valid_package pn" using package(1) pkg by (simp add: names_package_def)
    have "strict_sorted_cmp cpn_cmp (map (\<lambda>k. mk_cpn k pn) ks)" if "strict_sorted_cmp cmp_str ks" for ks
      using that by (induction ks) (auto simp: cpn_cmp_def)
    then have "strict_sorted_cmp cpn_cmp ?l"
      unfolding package using categories_strict [OF sx] by (intro cpn_ord.strict_filter) (blast intro: str_ord.strict_filter)
    moreover have "a \<in> set ?l \<longleftrightarrow> a \<in> set ?all" if a: "?m a" for a
    proof -
      have "cpn_package a = pn" using matches_restricts_cpn [OF a] package(1) by (simp add: equal_value_Some)
      moreover have "a \<in> set ?l \<longleftrightarrow> contains_cpn r a \<and> cpn_package a = pn \<and>
          cpn_category a \<in> set (filter ?cat (categories sx r))"
        unfolding package(2) by (cases a) auto
      ultimately show ?thesis using cats [OF a] pn by (auto simp: all)
    qed
    ultimately show ?thesis by blast
  next
    case rest
    have "strict_sorted_cmp cpn_cmp ?l"
      unfolding rest by (rule categories_cpn_strict [OF sx]) (rule strict)
    moreover have "a \<in> set ?l \<longleftrightarrow> a \<in> set ?all" if a: "?m a" for a
    proof -
      have "a \<in> set ?l \<longleftrightarrow> cpn_category a \<in> set (filter ?cat (categories sx r)) \<and>
          cpn_package a \<in> set (filter ?pkg (packages sx r (cpn_category a)))"
        unfolding rest by (cases a) auto
      then show ?thesis using facts(1) cats [OF a] pkgs [OF a] by (auto simp: all contains_cpn_iff)
    qed
    ultimately show ?thesis by blast
  qed
qed

lemma iter_cpn_restrict_eq:
  assumes r: "regular_repo r" and sx: "index_set (=) sx" and "names_category sx r q" "names_package q"
  shows "iter_cpn_restrict re sx r q = filter (matches_cpn re q) (iter_cpn re sx r None)"
proof (cases "q = Var BFalse")
  case True
  then show ?thesis by (simp add: iter_cpn_restrict_def matches_cpn_def)
next
  case False
  have l: "strict_sorted_cmp cpn_cmp (iter_cpn re sx r (Some q))"
    "\<And>a. matches_cpn re q a \<Longrightarrow> (a \<in> set (iter_cpn re sx r (Some q)) \<longleftrightarrow> a \<in> set (iter_cpn re sx r None))"
    using iter_cpn_candidates [OF assms] by blast+
  then have "filter (matches_cpn re q) (iter_cpn re sx r None) = filter (matches_cpn re q) (iter_cpn re sx r (Some q))"
    using iter_cpn_all(2) [OF r sx]
    by (intro cpn_ord.strict_unique cpn_ord.strict_filter) (auto simp: list_all_iff)
  with False show ?thesis by (simp add: iter_cpn_restrict_def)
qed

section \<open>Paths\<close>

lemma path_restricts_relpath:
  assumes "regular_repo r" "index_set (=) sx" "valid_cpv c" "cpn_category (cpv_cpn c) \<in> set (categories sx r)"
    "contains_cpv r c"
  shows "restrict_from_path sx r (cpv_relpath c) = Some (restrict_of_cpv c)"
proof -
  note sx = assms(2)
  let ?cat = "cpn_category (cpv_cpn c)" and ?pkg = "cpn_package (cpv_cpn c)"
  have c: "ebuild_cpv c" using assms(3) by (simp add: valid_cpv_def ebuild_cpv_def plain_version_def)
  then have ok: "file_name_ok ?cat" "file_name_ok ?pkg" "file_name_ok (ebuild_name c)" "valid_package ?pkg"
    by (auto simp: ebuild_cpv_def valid_cpn_def ebuild_name_file)
  then have comps: "path_components (cpv_relpath c) = [?cat, ?pkg, ebuild_name c]"
    by (simp add: cpv_relpath_join path_components_simps)
  obtain es where "read_dir (er_fs r) ?cat = Some es" "?pkg \<in> set es"
    using contains_listed [OF assms(1) c assms(5)] by blast
  have ex: "path_exists (er_fs r) (path_join (path_join ?cat ?pkg) (ebuild_name c))"
    using assms(5) by (simp add: contains_cpv_def cpv_relpath_join)
  from fs_ok_mem [OF regular_repoD(1) [OF assms(1)] ok(3) this] have "path_exists (er_fs r) (path_join ?cat ?pkg)"
    by (auto simp: read_dir_def path_exists_def split: option.splits)
  then have pkg: "?pkg \<in> set (packages sx r ?cat)" using packages_facts(1) [OF assms(1,2,4)] ok by blast
  have "parse_cpv (path_join ?cat (cpv_pf c)) = Inr c"
    using assms(3) by (simp add: parse_cpv_iff path_join_def cpv_pf_def cpv_pvr_def cpv_display_def cpn_display_def)
  then have "path_restricts sx r [] [] [] (path_components (cpv_relpath c)) =
      [dep_restrict_category ?cat, dep_restrict_package ?pkg, DepVersion (Some (cpv_version c))]"
    using assms(4) pkg unfolding comps by (simp add: index_set.contains [OF sx] ebuild_name_def)
  then show ?thesis
    using ex by (simp add: restrict_from_path_def restrict_of_cpv_def cpv_relpath_join)
qed

text \<open>The restriction of the path of an ebuild finds that ebuild alone.\<close>

lemma relpath_finds:
  assumes r: "regular_repo r" and sx: "index_set (=) sx" and cx: "index_set cpv_eq cx"
    and plain: "list_all wf_cpv (iter_cpv re ec sx cx r None)"
    and c: "c \<in> set (iter_cpv re ec sx cx r None)"
  shows "map_option (iter_cpv_restrict re ec sx cx r) (restrict_from_path sx r (cpv_relpath c)) = Some [c]"
proof -
  note all = iter_cpv_all [OF r sx cx, where re = re and ec = ec]
  let ?q = "restrict_of_cpv c" and ?all = "iter_cpv re ec sx cx r None"
  have cat: "cpn_category (cpv_cpn c) \<in> set (categories sx r)" and con: "contains_cpv r c" and ec: "ebuild_cpv c"
    using c all(3) by simp_all
  have wf: "x \<in> set ?all \<Longrightarrow> plain_version (cpv_version x)" for x
    using plain by (simp add: list_all_iff wf_cpv_def plain_version_def)
  have q: "?q = RAnd [Var (BDep (DepCategory (Var (StrEqual (cpn_category (cpv_cpn c)))))),
      Var (BDep (DepPackage (Var (StrEqual (cpn_package (cpv_cpn c)))))), Var (BDep (DepVersion (Some (cpv_version c))))]"
    by (simp add: restrict_of_cpv_def restrict_and_def unwrap_single_def dep_restrict_category_def dep_restrict_package_def)
  have same: "matches_cpv re ?q x \<longleftrightarrow> x = c" if x: "x \<in> set ?all" for x
  proof
    assume "matches_cpv re ?q x"
    then have "cpv_cmp c x = Equal"
      using wf [OF c] wf [OF x]
      by (simp add: cpv_cmp_def version_intersects_def version_intersects_checked_def plain_version_def
        version_eq_def version_ord_def)
    moreover have "list_all ebuild_cpv ?all" by (simp add: list_all_iff all(3))
    ultimately show "x = c" using ebuild_ord.strict_Equal [OF _ all(2) c x] by simp
  next
    assume "x = c"
    then show "matches_cpv re ?q x" using ec by (simp add: version_intersects_refl ebuild_cpv_def)
  qed
  have "set (filter (matches_cpv re ?q) ?all) = set [c]" using c same by auto
  then have "filter (matches_cpv re ?q) ?all = [c]"
    by (intro ebuild_ord.strict_unique ebuild_ord.strict_filter all(2)) (simp_all add: ec list_all_iff all(3))
  moreover have "spelled_like ?q (filter (matches_cpv re ?q) ?all)" 
    using same wf [OF c]
    by (auto simp: spelled_like_def list_all_iff exact_version_Some q conjuncts_def version_restricts_def
      plain_version_def version_display_no_op pred_option_def)
  moreover have "names_category sx r ?q"
    using cat by (simp add: names_category_def q conjuncts_def category_restricts_def)
  ultimately have "iter_cpv_restrict re ec sx cx r ?q = [c]"
    using iter_cpv_restrict_eq [OF r sx cx, of ?q re ec] by simp
  moreover have "valid_cpv c" using ec wf [OF c] by (simp add: valid_cpv_def ebuild_cpv_def)
  ultimately show ?thesis using path_restricts_relpath [OF r sx _ cat con] by simp
qed

end
