(* ===== verification/Repo_Set.thy ===== *)
theory Repo_Set
  imports Fake_Repo_Laws Ebuild_Repo_Iter
begin

text \<open>
  The interface of repositories (\<open>repo.rs\<close>), the ebuild and fake repositories behind it,
  and sets of repositories (\<open>repo/set.rs\<close>). A repository is the record of what the
  methods of the traits \<open>PkgRepository\<close> and \<open>Repository\<close> return.
\<close>

section \<open>Repositories\<close>

datatype repo_format = FormatEbuild | FormatConfigured | FormatFake

fun repo_format_index :: "repo_format \<Rightarrow> nat" where
  "repo_format_index FormatEbuild = 0"
| "repo_format_index FormatConfigured = 1"
| "repo_format_index FormatFake = 2"

record 'p repo =
  rp_id :: string
  rp_priority :: int
  rp_format :: repo_format
  rp_categories :: "string list"
  rp_packages :: "string \<Rightarrow> string list"
  rp_versions :: "string \<Rightarrow> string \<Rightarrow> version list"
  rp_iter_cpn :: "cpn list"
  rp_iter_cpn_restrict :: "base_restrict \<Rightarrow> cpn list"
  rp_iter_cpv :: "cpv list"
  rp_iter_cpv_restrict :: "base_restrict \<Rightarrow> cpv list"
  rp_iter :: "(error + 'p) list"
  rp_iter_restrict :: "base_restrict \<Rightarrow> (error + 'p) list"
  rp_contains_cpn :: "cpn \<Rightarrow> bool"
  rp_contains_cpv :: "cpv \<Rightarrow> bool"
  rp_contains_dep :: "dep \<Rightarrow> bool"

text \<open>Repositories of higher priority come first.\<close>

definition repo_cmp :: "'p repo \<Rightarrow> 'p repo \<Rightarrow> ordering" where
  "repo_cmp a b = ord_then (ord_reverse (cmp_lin (rp_priority a) (rp_priority b)))
     (ord_then (cmp_str (rp_id a) (rp_id b))
       (cmp_lin (repo_format_index (rp_format a)) (repo_format_index (rp_format b))))"

fun repo_contains_restrict :: "(string \<Rightarrow> string \<Rightarrow> bool) \<Rightarrow> 'p repo \<Rightarrow> base_restrict \<Rightarrow> bool" where
  "repo_contains_restrict re r (Var BTrue) = True"
| "repo_contains_restrict re r (Var BFalse) = False"
| "repo_contains_restrict re r (Var (BDep (DepRepo (Some q)))) = str_matches re q (rp_id r)"
| "repo_contains_restrict re r q = (rp_iter_cpv_restrict r q \<noteq> [] \<or> rp_iter_cpn_restrict r q \<noteq> [] \<or>
     rp_iter_restrict r q \<noteq> [])"

fun pkg_restrict_matches_repo :: "(string \<Rightarrow> string \<Rightarrow> bool) \<Rightarrow> string \<Rightarrow> pkg_restrict \<Rightarrow> bool" where
  "pkg_restrict_matches_repo re name (PkgRepo r) = str_matches re r name"
| "pkg_restrict_matches_repo re name _ = False"

definition matches_repo :: "(string \<Rightarrow> string \<Rightarrow> bool) \<Rightarrow> base_restrict \<Rightarrow> 'p repo \<Rightarrow> bool" where
  "matches_repo re q r = boolean_matches (restrict_match (Some (dep_restrict_matches_repo re (rp_id r)))
     (Some (pkg_restrict_matches_repo re (rp_id r))) None) q"

section \<open>The kinds of repositories\<close>

datatype any_pkg = AnyEbuild ebuild_pkg | AnyFake fake_pkg

definition any_result :: "('a \<Rightarrow> any_pkg) \<Rightarrow> error + 'a \<Rightarrow> error + any_pkg" where
  "any_result f x = (case x of Inl e \<Rightarrow> Inl e | Inr p \<Rightarrow> Inr (f p))"

definition repo_of_fake :: "(string \<Rightarrow> string \<Rightarrow> bool) \<Rightarrow> cpn index_set \<Rightarrow> cpv index_set \<Rightarrow> fake_repo \<Rightarrow> any_pkg repo" where
  "repo_of_fake re nx cx r =
    \<lparr>rp_id = fr_id r, rp_priority = fr_priority r, rp_format = FormatFake,
     rp_categories = fake_categories r, rp_packages = fake_packages r, rp_versions = fake_versions r,
     rp_iter_cpn = fake_iter_cpn nx r, rp_iter_cpn_restrict = fake_iter_cpn_restrict re nx r,
     rp_iter_cpv = fake_iter_cpv r, rp_iter_cpv_restrict = fake_iter_cpv_restrict re r,
     rp_iter = map (\<lambda>p. Inr (AnyFake p)) (fake_iter r),
     rp_iter_restrict = (\<lambda>q. map (\<lambda>p. Inr (AnyFake p)) (fake_iter_restrict re r q)),
     rp_contains_cpn = fake_contains_cpn re r, rp_contains_cpv = fake_contains_cpv cx r,
     rp_contains_dep = fake_contains_dep re r\<rparr>"

text \<open>\<open>Restriction<&Pkg>\<close>: what the variants of a restriction say of a package of any kind.\<close>

fun any_pkg_cpv :: "any_pkg \<Rightarrow> cpv" where
  "any_pkg_cpv (AnyEbuild p) = pkg_cpv p"
| "any_pkg_cpv (AnyFake p) = fp_cpv p"

fun any_pkg_eapi :: "any_pkg \<Rightarrow> eapi" where
  "any_pkg_eapi (AnyEbuild p) = pkg_eapi p"
| "any_pkg_eapi (AnyFake p) = eapi_latest_official"

fun any_pkg_repo_id :: "any_pkg \<Rightarrow> string" where
  "any_pkg_repo_id (AnyEbuild p) = pkg_repo_id p"
| "any_pkg_repo_id (AnyFake p) = fr_id (fp_repo p)"

fun pkg_restrict_matches_any :: "(string \<Rightarrow> string \<Rightarrow> bool) \<Rightarrow> use_dep index_set \<Rightarrow> string index_set \<Rightarrow> any_pkg \<Rightarrow>
    pkg_restrict \<Rightarrow> bool" where
  "pkg_restrict_matches_any re ux sx p (PkgEapi r) = eapi_restrict_matches re (any_pkg_eapi p) r"
| "pkg_restrict_matches_any re ux sx p (PkgRepo r) = str_matches re r (any_pkg_repo_id p)"
| "pkg_restrict_matches_any re ux sx (AnyEbuild p) (PkgEbuild r) = ebuild_matches re ux sx p r"
| "pkg_restrict_matches_any re ux sx (AnyFake p) (PkgEbuild r) = False"

definition matches_any :: "(string \<Rightarrow> string \<Rightarrow> bool) \<Rightarrow> use_dep index_set \<Rightarrow> string index_set \<Rightarrow> base_restrict \<Rightarrow>
    any_pkg \<Rightarrow> bool" where
  "matches_any re ux sx r p = boolean_matches (restrict_match
     (Some (dep_restrict_matches_pkg re (any_pkg_repo_id p) (any_pkg_cpv p)))
     (Some (pkg_restrict_matches_any re ux sx p)) None) r"

text \<open>\<open>load\<close> makes the package of a \<open>Cpv\<close> from its ebuild and its metadata.\<close>

definition repo_of_ebuild :: "(cpv \<Rightarrow> error + ebuild_pkg) \<Rightarrow> (string \<Rightarrow> string \<Rightarrow> bool) \<Rightarrow> (error \<Rightarrow> error \<Rightarrow> ordering) \<Rightarrow>
    use_dep index_set \<Rightarrow> string index_set \<Rightarrow> cpv index_set \<Rightarrow> version index_set \<Rightarrow> string \<Rightarrow> int \<Rightarrow> ebuild_repo \<Rightarrow>
    any_pkg repo" where
  "repo_of_ebuild load re ec ux sx cx vx name priority r =
    \<lparr>rp_id = name, rp_priority = priority, rp_format = FormatEbuild,
     rp_categories = categories sx r, rp_packages = packages sx r, rp_versions = versions vx r,
     rp_iter_cpn = iter_cpn re sx r None, rp_iter_cpn_restrict = iter_cpn_restrict re sx r,
     rp_iter_cpv = iter_cpv re ec sx cx r None, rp_iter_cpv_restrict = iter_cpv_restrict re ec sx cx r,
     rp_iter = map (any_result AnyEbuild) (iter_pkg load re ec sx cx r None),
     rp_iter_restrict = (\<lambda>q. map (any_result AnyEbuild) (iter_pkg_restrict load (matches_ebuild re ux sx) re ec sx cx r q)),
     rp_contains_cpn = contains_cpn r, rp_contains_cpv = contains_cpv r,
     rp_contains_dep = ebuild_contains_dep load re ec ux sx cx r\<rparr>"

section \<open>Sets of repositories\<close>

definition repo_set_of :: "'p repo index_set \<Rightarrow> 'p repo list \<Rightarrow> 'p repo list" where
  "repo_set_of rx repos = sort_cmp repo_cmp (is_collect rx repos)"

text \<open>The repositories a restriction matches, or all of them when there are none.\<close>

definition repo_set_filter :: "(string \<Rightarrow> string \<Rightarrow> bool) \<Rightarrow> 'p repo index_set \<Rightarrow> 'p repo list \<Rightarrow> base_restrict \<Rightarrow> 'p repo list" where
  "repo_set_filter re rx s restrict =
    (let filtered = repo_set_of rx (filter (matches_repo re restrict) s)
     in if filtered \<noteq> [] then filtered else s)"

definition repo_set_categories :: "string index_set \<Rightarrow> 'p repo list \<Rightarrow> string list" where
  "repo_set_categories sx s = sort_cmp cmp_str (is_collect sx (concat (map rp_categories s)))"

definition repo_set_packages :: "string index_set \<Rightarrow> 'p repo list \<Rightarrow> string \<Rightarrow> string list" where
  "repo_set_packages sx s cat = sort_cmp cmp_str (is_collect sx (concat (map (\<lambda>r. rp_packages r cat) s)))"

definition repo_set_versions :: "version index_set \<Rightarrow> 'p repo list \<Rightarrow> string \<Rightarrow> string \<Rightarrow> version list" where
  "repo_set_versions vx s cat pkg =
     sort_cmp version_ord (is_collect vx (concat (map (\<lambda>r. rp_versions r cat pkg) s)))"

definition repo_set_iter_cpn :: "cpn index_set \<Rightarrow> 'p repo list \<Rightarrow> cpn list" where
  "repo_set_iter_cpn nx s = sort_cmp cpn_cmp (is_collect nx (concat (map rp_iter_cpn s)))"

definition repo_set_iter_cpn_restrict :: "(string \<Rightarrow> string \<Rightarrow> bool) \<Rightarrow> cpn index_set \<Rightarrow> 'p repo list \<Rightarrow> base_restrict \<Rightarrow> cpn list" where
  "repo_set_iter_cpn_restrict re nx s restrict = filter (matches_cpn re restrict) (repo_set_iter_cpn nx s)"

definition repo_set_iter_cpv :: "cpv index_set \<Rightarrow> 'p repo list \<Rightarrow> cpv list" where
  "repo_set_iter_cpv cx s = sort_cmp cpv_cmp (is_collect cx (concat (map rp_iter_cpv s)))"

definition repo_set_iter_cpv_restrict :: "(string \<Rightarrow> string \<Rightarrow> bool) \<Rightarrow> cpv index_set \<Rightarrow> 'p repo list \<Rightarrow> base_restrict \<Rightarrow> cpv list" where
  "repo_set_iter_cpv_restrict re cx s restrict = filter (matches_cpv re restrict) (repo_set_iter_cpv cx s)"

definition repo_set_iter :: "'p repo list \<Rightarrow> (error + 'p) list" where
  "repo_set_iter s = concat (map rp_iter s)"

definition repo_set_len :: "'p repo list \<Rightarrow> nat" where
  "repo_set_len s = length (repo_set_iter s)"

definition repo_set_iter_restrict :: "(string \<Rightarrow> string \<Rightarrow> bool) \<Rightarrow> 'p repo index_set \<Rightarrow> 'p repo list \<Rightarrow> base_restrict \<Rightarrow>
    (error + 'p) list" where
  "repo_set_iter_restrict re rx s restrict =
     concat (map (\<lambda>r. rp_iter_restrict r restrict) (repo_set_filter re rx s restrict))"

definition repo_set_contains :: "'p repo index_set \<Rightarrow> 'p repo list \<Rightarrow> 'p repo \<Rightarrow> bool" where
  "repo_set_contains rx s r = is_contains rx s r"

definition repo_set_contains_id :: "'p repo list \<Rightarrow> string \<Rightarrow> bool" where
  "repo_set_contains_id s name = list_ex (\<lambda>r. rp_id r = name) s"

definition repo_set_contains_cpn :: "'p repo list \<Rightarrow> cpn \<Rightarrow> bool" where
  "repo_set_contains_cpn s a = list_ex (\<lambda>r. rp_contains_cpn r a) s"

definition repo_set_contains_cpv :: "'p repo list \<Rightarrow> cpv \<Rightarrow> bool" where
  "repo_set_contains_cpv s c = list_ex (\<lambda>r. rp_contains_cpv r c) s"

definition repo_set_contains_dep :: "'p repo list \<Rightarrow> dep \<Rightarrow> bool" where
  "repo_set_contains_dep s d = list_ex (\<lambda>r. rp_contains_dep r d) s"

definition repo_set_contains_restrict :: "(string \<Rightarrow> string \<Rightarrow> bool) \<Rightarrow> 'p repo list \<Rightarrow> base_restrict \<Rightarrow> bool" where
  "repo_set_contains_restrict re s q = list_ex (\<lambda>r. repo_contains_restrict re r q) s"

text \<open>\<open>&=\<close>, \<open>|=\<close>, \<open>^=\<close> and \<open>-=\<close>; with one repository, the set of it.\<close>

definition repo_set_bitand :: "'p repo index_set \<Rightarrow> 'p repo list \<Rightarrow> 'p repo list \<Rightarrow> 'p repo list" where
  "repo_set_bitand rx s t = is_intersection rx s t"

definition repo_set_bitor :: "'p repo index_set \<Rightarrow> 'p repo list \<Rightarrow> 'p repo list \<Rightarrow> 'p repo list" where
  "repo_set_bitor rx s t = sort_cmp repo_cmp (is_union rx s t)"

definition repo_set_bitxor :: "'p repo index_set \<Rightarrow> 'p repo list \<Rightarrow> 'p repo list \<Rightarrow> 'p repo list" where
  "repo_set_bitxor rx s t = sort_cmp repo_cmp (is_symmetric_difference rx s t)"

definition repo_set_sub :: "'p repo index_set \<Rightarrow> 'p repo list \<Rightarrow> 'p repo list \<Rightarrow> 'p repo list" where
  "repo_set_sub rx s t = is_difference rx s t"

end
