(* ===== verification/Repo_Set_Laws.thy ===== *)
theory Repo_Set_Laws
  imports Repo_Set
begin

text \<open>
  The contract between repositories and the sets of them: restricted iteration filters, and
  packages know their repository. From it, restricted iteration of a set, which first drops the
  repositories that the restriction does not match, returns what filtering all packages returns.
\<close>

section \<open>Order\<close>

lemma total_cmp_repo [cmp_laws]: "total_cmp Q repo_cmp"
proof -
  have eq: "ord_reverse (cmp_lin m n) = cmp_lin n m" for m n :: int
    by (simp add: cmp_by_def)
  have "total_cmp Q (\<lambda>a b. ord_reverse (cmp_lin (rp_priority a) (rp_priority b)))"
    unfolding eq by unfold_locales (auto simp: cmp_by_def split: if_splits)
  then show ?thesis
    unfolding repo_cmp_def [abs_def]
    by (intro total_cmp_then total_cmp_key [OF total_cmp_str [of "\<lambda>_. True"]]
        total_cmp_key [OF total_cmp_by [of "\<lambda>_. True"]] TrueI)
qed

interpretation repo_ord: total_cmp "\<lambda>_. True" repo_cmp by (rule total_cmp_repo)

text \<open>The state of a set: sorted, without duplicates.\<close>

definition wf_repo_set :: "('p repo \<Rightarrow> 'p repo \<Rightarrow> bool) \<Rightarrow> 'p repo list \<Rightarrow> bool" where
  "wf_repo_set eq s \<longleftrightarrow> sorted_cmp repo_cmp s \<and> distinct_by eq s"

lemma insert_distinct_by:
  "distinct_by eq (insert_cmp c x xs) \<longleftrightarrow> \<not> list_ex (\<lambda>y. eq x y \<or> eq y x) xs \<and> distinct_by eq xs"
  by (induction xs) (auto simp: list_ex_iff)

lemma sort_distinct_by: "distinct_by eq (sort_cmp c xs) \<longleftrightarrow> distinct_by eq xs"
  by (induction xs) (simp_all add: sort_cmp_Cons insert_distinct_by list_ex_iff)

lemma sort_repos_sorted: "sorted_cmp repo_cmp (sort_cmp repo_cmp s)"
  by (rule repo_ord.sort_cmp_sorted) (simp add: list_all_iff)

lemma wf_repo_set_of:
  "index_set eq rx \<Longrightarrow> symp eq \<Longrightarrow> wf_repo_set eq (repo_set_of rx repos)"
  by (simp add: wf_repo_set_def repo_set_of_def sort_distinct_by index_set.collect distinct_by_firsts_by sort_repos_sorted)

lemma sorted_cmp_filter: "sorted_cmp c xs \<Longrightarrow> sorted_cmp c (filter Q xs)"
  by (simp add: sorted_cmp_def sorted_wrt_filter)

lemma repo_set_of_filter:
  assumes "index_set eq rx" "wf_repo_set eq s"
  shows "repo_set_of rx (filter Q s) = filter Q s"
  using assms
  by (simp add: repo_set_of_def wf_repo_set_def index_set.collect firsts_by_distinct distinct_by_filter
      repo_ord.sort_cmp_id sorted_cmp_filter)

text \<open>The operators keep it.\<close>

lemma distinct_by_union:
  assumes "index_set eq rx" "symp eq" "distinct_by eq s" "distinct_by eq t"
  shows "distinct_by eq (is_union rx s t)" "distinct_by eq (is_symmetric_difference rx s t)"
  using assms
  by (auto simp: is_union_def is_symmetric_difference_def is_difference_def distinct_by_append distinct_by_filter
      index_set.contains mem_by_iff dest: sympD)

lemma repo_set_ops_wf:
  assumes "index_set eq rx" "symp eq" "wf_repo_set eq s" "wf_repo_set eq t"
  shows "wf_repo_set eq (repo_set_bitand rx s t)" "wf_repo_set eq (repo_set_bitor rx s t)"
    "wf_repo_set eq (repo_set_bitxor rx s t)" "wf_repo_set eq (repo_set_sub rx s t)"
  using assms distinct_by_union [OF assms(1,2)]
  by (simp_all add: wf_repo_set_def repo_set_bitand_def repo_set_bitor_def repo_set_bitxor_def repo_set_sub_def
      sort_distinct_by sort_repos_sorted is_intersection_def is_difference_def distinct_by_filter
      sorted_cmp_filter)

section \<open>The contract\<close>

locale pkg_repo =
  fixes re :: "string \<Rightarrow> string \<Rightarrow> bool" and val :: "'p \<Rightarrow> base_variant \<Rightarrow> bool" and r :: "'p repo" and q :: base_restrict
  assumes iter_restrict: "oks (rp_iter_restrict r q) = filter (\<lambda>p. boolean_matches (val p) q) (oks (rp_iter r))"
    and val_True: "val p BTrue"
    and val_dep_repo: "p \<in> set (oks (rp_iter r)) \<Longrightarrow> val p (BDep (DepRepo (Some s))) = str_matches re s (rp_id r)"
    and val_pkg_repo: "p \<in> set (oks (rp_iter r)) \<Longrightarrow> val p (BPkg (PkgRepo s)) = str_matches re s (rp_id r)"

text \<open>Variants, perhaps negated.\<close>

fun literal :: "base_restrict \<Rightarrow> bool" where
  "literal (Var v) = True"
| "literal (RNot (Var v)) = True"
| "literal r = False"

definition literals :: "base_restrict \<Rightarrow> bool" where
  "literals q = list_all literal (conjuncts q)"

lemma matches_repo_variant:
  "matches_repo re (Var x) r \<longleftrightarrow> x = BTrue \<or> (\<exists>s. str_matches re s (rp_id r) \<and> (x = BDep (DepRepo (Some s)) \<or> x = BPkg (PkgRepo s)))"
proof (cases x)
  case (BDep d)
  then show ?thesis by (cases "(re, rp_id r, d)" rule: dep_restrict_matches_repo.cases) (auto simp: matches_repo_def)
next
  case (BPkg d)
  then show ?thesis by (cases d) (auto simp: matches_repo_def)
qed (auto simp: matches_repo_def)

lemma conj_matches: "boolean_matches f q = list_all (boolean_matches f) (conjuncts q)"
  by (cases q) (simp_all add: conjuncts_def)

context pkg_repo begin

text \<open>A literal that tells two repositories apart rejects the packages of the one it rejects.\<close>

lemma literal_rejects:
  assumes "literal l" "matches_repo re l r'" "\<not> matches_repo re l r" "p \<in> set (oks (rp_iter r))"
  shows "\<not> boolean_matches (val p) l"
proof (cases l rule: literal.cases)
  case (1 x)
  then obtain s where "x = BDep (DepRepo (Some s)) \<or> x = BPkg (PkgRepo s)"
    using assms(2,3) by (auto simp: matches_repo_variant)
  with 1 assms(3,4) show ?thesis
    by (auto simp: matches_repo_variant val_dep_repo val_pkg_repo)
next
  case (2 x)
  then have "matches_repo re (Var x) r" using assms(3) by (simp add: matches_repo_def)
  then have "val p x" using assms(4) val_True by (auto simp: matches_repo_variant val_dep_repo val_pkg_repo)
  with 2 show ?thesis by simp
qed (use assms(1) in auto)

lemma dropped_repo:
  assumes "literals q" "matches_repo re q r'" "\<not> matches_repo re q r"
  shows "oks (rp_iter_restrict r q) = []"
proof -
  obtain q' where q': "q' \<in> set (conjuncts q)" "\<not> matches_repo re q' r"
    using assms(3) unfolding matches_repo_def by (subst (asm) conj_matches) (auto simp: list_all_iff)
  have "matches_repo re q' r'"
    using assms(2) q'(1) unfolding matches_repo_def by (subst (asm) conj_matches) (auto simp: list_all_iff)
  with q' assms(1) have "\<not> boolean_matches (val p) q'" if "p \<in> set (oks (rp_iter r))" for p
    using literal_rejects that by (auto simp: literals_def list_all_iff)
  with q'(1) have "\<not> boolean_matches (val p) q" if "p \<in> set (oks (rp_iter r))" for p
    using that by (subst conj_matches) (auto simp: list_all_iff)
  then show ?thesis by (simp add: iter_restrict)
qed

end

lemma oks_concat: "oks (concat xss) = concat (map oks xss)"
  by (induction xss) simp_all

lemma set_iter_restrict_eq:
  assumes rx: "index_set eq rx" "wf_repo_set eq s" and lit: "literals q"
    and repos: "list_all (\<lambda>r. pkg_repo re val r q) s"
  shows "oks (repo_set_iter_restrict re rx s q) = filter (\<lambda>p. boolean_matches (val p) q) (oks (repo_set_iter s))"
proof -
  have one: "oks (rp_iter_restrict r q) = filter (\<lambda>p. boolean_matches (val p) q) (oks (rp_iter r))" if "r \<in> set s" for r
    using pkg_repo.iter_restrict [of re val r q] repos that by (simp add: list_all_iff)
  have "concat (map (\<lambda>r. oks (rp_iter_restrict r q)) (repo_set_filter re rx s q)) =
      concat (map (\<lambda>r. oks (rp_iter_restrict r q)) s)"
  proof (cases "filter (matches_repo re q) s = []")
    case True
    then show ?thesis using repo_set_of_filter [OF rx, of "matches_repo re q"] by (simp add: repo_set_filter_def)
  next
    case False
    then obtain r' where r': "r' \<in> set s" "matches_repo re q r'" by (auto simp: filter_empty_conv)
    have drop: "concat (map f (filter Q xs)) = concat (map f xs)"
      if "\<And>x. x \<in> set xs \<Longrightarrow> \<not> Q x \<Longrightarrow> f x = []" for f :: "'b repo \<Rightarrow> 'c list" and Q xs
      using that by (induction xs) auto
    have "oks (rp_iter_restrict r q) = []" if "r \<in> set s" "\<not> matches_repo re q r" for r
      using pkg_repo.dropped_repo [of re val r q r', OF _ lit r'(2)] repos that by (simp add: list_all_iff)
    with False show ?thesis
      using repo_set_of_filter [OF rx, of "matches_repo re q"] by (simp add: repo_set_filter_def drop)
  qed
  also have "\<dots> = filter (\<lambda>p. boolean_matches (val p) q) (oks (repo_set_iter s))"
    using one unfolding repo_set_iter_def oks_concat
    by (simp add: filter_concat comp_def cong: map_cong)
  finally show ?thesis by (simp add: repo_set_iter_restrict_def oks_concat comp_def)
qed

section \<open>The repositories keep it\<close>

text \<open>What a package of any kind says of the variants when its own repository iterates.\<close>

definition own_val :: "(string \<Rightarrow> string \<Rightarrow> bool) \<Rightarrow> use_dep index_set \<Rightarrow> string index_set \<Rightarrow> any_pkg \<Rightarrow> base_variant \<Rightarrow> bool" where
  "own_val re ux sx p = (case p of
     AnyEbuild e \<Rightarrow> restrict_match (Some (dep_restrict_matches_ebuild re e))
       (Some (pkg_restrict_matches_ebuild re ux sx e)) None
   | AnyFake f \<Rightarrow> restrict_match (Some (dep_restrict_matches_pkg re (fr_id (fp_repo f)) (fp_cpv f)))
       (Some (pkg_restrict_matches_fake re f)) None)"

lemma oks_map_Inr: "oks (map (\<lambda>p. Inr (f p)) ps) = map f ps"
  by (induction ps) simp_all

lemma fake_repo_contract: "pkg_repo re (own_val re ux sx) (repo_of_fake re nx cx r) q"
proof
  show "oks (rp_iter_restrict (repo_of_fake re nx cx r) q) =
      filter (\<lambda>p. boolean_matches (own_val re ux sx p) q) (oks (rp_iter (repo_of_fake re nx cx r)))"
    by (simp add: repo_of_fake_def oks_map_Inr fake_iter_restrict_def filter_map comp_def own_val_def matches_fake_def [abs_def])
next
  fix p s assume "p \<in> set (oks (rp_iter (repo_of_fake re nx cx r)))"
  then show "own_val re ux sx p (BDep (DepRepo (Some s))) = str_matches re s (rp_id (repo_of_fake re nx cx r))"
    "own_val re ux sx p (BPkg (PkgRepo s)) = str_matches re s (rp_id (repo_of_fake re nx cx r))"
    by (auto simp: repo_of_fake_def oks_map_Inr own_val_def fake_iter_def)
qed (simp add: own_val_def split: any_pkg.split)

interpretation fake_repos: pkg_repo re "own_val re ux sx" "repo_of_fake re nx cx r" q for re ux sx nx cx r q
  by (rule fake_repo_contract)

lemma oks_any: "oks (map (any_result f) xs) = map f (oks xs)"
  by (induction xs) (auto simp: any_result_def oks_def split: sum.split)

text \<open>An ebuild repository keeps it for the restrictions whose fast paths are exact.\<close>

lemma ebuild_repo_contract:
  assumes "regular_repo r" "index_set (=) sx" "index_set cpv_eq cx" "names_category sx r q"
    "spelled_like q (filter (candidate re q) (iter_cpv re ec sx cx r None))"
    and load: "\<And>c p. load c = Inr p \<Longrightarrow> pkg_cpv p = c \<and> pkg_repo_id p = name"
  shows "pkg_repo re (own_val re ux sx) (repo_of_ebuild load re ec ux sx cx vx name priority r) q"
    (is "pkg_repo re _ ?r q")
proof
  show "oks (rp_iter_restrict ?r q) = filter (\<lambda>p. boolean_matches (own_val re ux sx p) q) (oks (rp_iter ?r))"
    using iter_pkg_restrict_eq [OF assms(1-5), of load ux] load
    by (simp add: repo_of_ebuild_def oks_any filter_map comp_def own_val_def matches_ebuild_def [abs_def])
next
  fix p s assume "p \<in> set (oks (rp_iter ?r))"
  then obtain c where "any_result AnyEbuild (load c) = Inr p"
    by (auto simp: repo_of_ebuild_def iter_pkg_def dest!: sym [of "Inr p"])
  then obtain e where "p = AnyEbuild e" "pkg_repo_id e = name"
    using load [of c] by (auto simp: any_result_def split: sum.splits)
  then show "own_val re ux sx p (BDep (DepRepo (Some s))) = str_matches re s (rp_id ?r)"
    "own_val re ux sx p (BPkg (PkgRepo s)) = str_matches re s (rp_id ?r)"
    by (simp_all add: own_val_def repo_of_ebuild_def)
qed (simp add: own_val_def split: any_pkg.split)

end
