(* ===== verification/Repo_Examples.thy ===== *)
theory Repo_Examples
  imports Ebuild_Repo_Iter
begin

text \<open>
  A small ebuild repository at which the properties of repositories are witnessed.
\<close>

section \<open>A repository\<close>

abbreviation strings :: "string index_set" where
  "strings \<equiv> ref_index_set (=)"

abbreviation cpvs :: "cpv index_set" where
  "cpvs \<equiv> ref_index_set cpv_eq"

abbreviation no_regex :: "string \<Rightarrow> string \<Rightarrow> bool" where
  "no_regex \<equiv> \<lambda>p s. False"

abbreviation same_error :: "error \<Rightarrow> error \<Rightarrow> ordering" where
  "same_error \<equiv> \<lambda>d e. Equal"

definition small_files :: "(string \<times> fs_node) list" where
  "small_files = [
     (''cat'', FsDir [''pkg'', ''metadata.xml'']),
     (''cat/metadata.xml'', FsFile),
     (''cat/pkg'', FsDir [''pkg-2.ebuild'', ''files'', ''pkg-1-r0.ebuild'', ''Manifest'']),
     (''cat/pkg/files'', FsDir []),
     (''cat/pkg/Manifest'', FsFile),
     (''cat/pkg/pkg-2.ebuild'', FsFile),
     (''cat/pkg/pkg-1-r0.ebuild'', FsFile),
     (''licenses'', FsDir [''MIT'']),
     (''licenses/MIT'', FsFile)]"

definition small_repo :: ebuild_repo where
  "small_repo = \<lparr>er_trees = [[''cat'']], er_fs = map_of small_files\<rparr>"

lemma small_regular: "regular_repo small_repo"
  unfolding small_repo_def by (rule repo_check_regular) code_simp

end
