(* ===== verification/Repo_Props.thy ===== *)
theory Repo_Props
  imports Repo_Set_Laws Repo_Examples
begin

text \<open>
  The properties of repositories and of sets of them, over the lemmas of
  \<open>Ebuild_Repo_Laws\<close>, \<open>Ebuild_Repo_Iter\<close>, \<open>Fake_Repo_Laws\<close> and
  \<open>Repo_Set_Laws\<close>, each with a witness at a small repository.
\<close>

section \<open>Iteration\<close>

text \<open>C17: iteration over the \<open>Cpv\<close>s of an ebuild repository returns, in strictly increasing
  order, the valid ones of its categories whose ebuild is there, and no others.\<close>

theorem iter_cpv_complete:
  assumes "regular_repo r" "index_set (=) sx" "index_set cpv_eq cx"
  shows "strict_sorted_cmp cpv_cmp (iter_cpv re ec sx cx r None) \<and>
    (c \<in> set (iter_cpv re ec sx cx r None) \<longleftrightarrow>
      ebuild_cpv c \<and> cpn_category (cpv_cpn c) \<in> set (categories sx r) \<and> contains_cpv r c)"
  using iter_cpv_all(2,3) [OF assms] by blast

lemma iter_cpv_complete_witness:
  "parsed_cpv ''cat/pkg-2'' \<in> set (iter_cpv no_regex same_error strings cpvs small_repo None) \<longleftrightarrow>
   ebuild_cpv (parsed_cpv ''cat/pkg-2'') \<and> cpn_category (cpv_cpn (parsed_cpv ''cat/pkg-2'')) \<in> set (categories strings small_repo) \<and>
   contains_cpv small_repo (parsed_cpv ''cat/pkg-2'')"
  by (rule iter_cpv_complete [OF small_regular ref_set.index_set_axioms ref_set.index_set_axioms, THEN conjunct2])

text \<open>C16: iteration with a restriction, which picks categories, packages and ebuilds by the
  restriction where it can, returns what filtering all \<open>Cpv\<close>s returns, in the same order, under three
  conditions: the repository is regular (what ends in \<open>.ebuild\<close> is a file, what a category holds
  under the name of a package is a directory, and no two ebuilds of a directory have equal versions); a category
  that the restriction names is one of the repository; and an ebuild that it names by version is spelled like
  that version, without which it may be missed (\<open>exact_version_misses\<close>).\<close>

theorem iter_cpv_restrict_filters:
  assumes "regular_repo r" "index_set (=) sx" "index_set cpv_eq cx" "names_category sx r q"
    "spelled_like q (filter (matches_cpv re q) (iter_cpv re ec sx cx r None))"
  shows "iter_cpv_restrict re ec sx cx r q = filter (matches_cpv re q) (iter_cpv re ec sx cx r None)"
  by (rule iter_cpv_restrict_eq [OF assms])

lemma iter_cpv_restrict_filters_witness:
  "iter_cpv_restrict no_regex same_error strings cpvs small_repo (restrict_of_dep (parsed_dep ''>=cat/pkg-1'')) =
   filter (matches_cpv no_regex (restrict_of_dep (parsed_dep ''>=cat/pkg-1'')))
     (iter_cpv no_regex same_error strings cpvs small_repo None)"
  by (rule iter_cpv_restrict_filters [OF small_regular ref_set.index_set_axioms ref_set.index_set_axioms])
    (code_simp | simp)+

text \<open>Without the last condition it does not: the version \<open>1\<close> is that of an ebuild
  spelled \<open>1-r0\<close>, but is looked up as a file of its own name.\<close>

lemma exact_version_misses:
  "iter_cpv_restrict no_regex same_error strings cpvs small_repo (restrict_of_dep (parsed_dep ''=cat/pkg-1'')) = [] \<and>
   filter (matches_cpv no_regex (restrict_of_dep (parsed_dep ''=cat/pkg-1'')))
     (iter_cpv no_regex same_error strings cpvs small_repo None) = [parsed_cpv ''cat/pkg-1-r0'']"
  by code_simp

text \<open>The same for package names, if a category it names is one of the repository and a
  package it names could be one.\<close>

lemma iter_cpn_restrict_filters:
  assumes "regular_repo r" "index_set (=) sx" "names_category sx r q" "names_package q"
  shows "iter_cpn_restrict re sx r q = filter (matches_cpn re q) (iter_cpn re sx r None)"
  by (rule iter_cpn_restrict_eq [OF assms])

text \<open>Without them it returns what no iteration over everything does: a file of the category, and a
  file of a directory that is no category.\<close>

lemma iter_cpn_restrict_non_packages:
  "iter_cpn_restrict no_regex strings small_repo (Var (BDep (dep_restrict_package ''metadata.xml''))) =
     [\<lparr>cpn_category = ''cat'', cpn_package = ''metadata.xml''\<rparr>] \<and>
   iter_cpn_restrict no_regex strings small_repo (restrict_of_cpn \<lparr>cpn_category = ''licenses'', cpn_package = ''MIT''\<rparr>) =
     [\<lparr>cpn_category = ''licenses'', cpn_package = ''MIT''\<rparr>]"
  by code_simp

section \<open>Paths\<close>

text \<open>The path of an ebuild is read back as its \<open>Cpv\<close> exactly when its names are valid
  and its version, with any operator, is well-formed.\<close>

lemma cpv_from_relpath_iff:
  "cpv_from_path (cpv_relpath c) = Inr c \<longleftrightarrow> ebuild_cpv c"
proof
  assume h: "cpv_from_path (cpv_relpath c) = Inr c"
  then obtain cat pkg f where "path_components (cpv_relpath c) = [cat, pkg, f]"
    using cpv_from_path_components by blast
  with h cpv_from_path_Inr show "ebuild_cpv c" by blast
qed (rule cpv_from_relpath)

text \<open>So a file named with an operator is an ebuild.\<close>

lemma operator_ebuild:
  "map_option operator_as_ref (ver_op (cpv_version (projr (cpv_from_path ''cat/pkg/pkg->=1.ebuild'')))) = Some ''>=''"
  by code_simp

text \<open>C18: the restriction of the path of an ebuild finds that ebuild and no other, when no
  ebuild is named with an operator.\<close>

theorem relpath_restriction_finds:
  assumes "regular_repo r" "index_set (=) sx" "index_set cpv_eq cx" "list_all wf_cpv (iter_cpv re ec sx cx r None)"
    "c \<in> set (iter_cpv re ec sx cx r None)"
  shows "map_option (iter_cpv_restrict re ec sx cx r) (restrict_from_path sx r (cpv_relpath c)) = Some [c]"
  by (rule relpath_finds [OF assms])

lemma relpath_restriction_finds_witness:
  "map_option (iter_cpv_restrict no_regex same_error strings cpvs small_repo)
     (restrict_from_path strings small_repo (cpv_relpath (parsed_cpv ''cat/pkg-1-r0''))) = Some [parsed_cpv ''cat/pkg-1-r0'']"
  by (rule relpath_restriction_finds [OF small_regular ref_set.index_set_axioms ref_set.index_set_axioms]) code_simp+

section \<open>Fake repositories\<close>

abbreviation cpns :: "cpn index_set" where
  "cpns \<equiv> ref_index_set (=)"

abbreviation version_ix :: "version index_set" where
  "version_ix \<equiv> ref_index_set version_eq"

definition fake_of :: "string \<Rightarrow> string \<Rightarrow> fake_repo" where
  "fake_of rid data = projr (fake_from_path cpvs version_ix rid 0 rid (Some data))"

text \<open>C19: extending a fake repository keeps its \<open>Cpv\<close>s sorted without duplicates and its map
  of categories to packages to versions in step with them, and adds exactly the values that
  parsed.\<close>

theorem fake_extend_state:
  assumes "index_set cpv_eq cx" "wf_fake vx r" "list_all wf_cpv (oks items)" "wf_cpv c"
  shows "wf_fake vx (fake_extend cx vx r items) \<and>
    (fake_contains_cpv cx (fake_extend cx vx r items) c \<longleftrightarrow> fake_contains_cpv cx r c \<or> mem_by cpv_eq c (oks items))"
  using extend_wf [OF assms(1-3)] extend_mem [OF assms] by blast

lemma fake_extend_state_witness:
  "wf_fake version_ix (fake_extend cpvs version_ix (fake_new ''f'' 0) (map parse_cpv [''b/p-2'', ''a/q-1'', ''b/p'', ''b/p-1'']))"
  using fake_extend_state [of cpvs version_ix "fake_new ''f'' 0"
      "map parse_cpv [''b/p-2'', ''a/q-1'', ''b/p'', ''b/p-1'']" "parsed_cpv ''b/p-2''"]
  by (rule conjunct1) (rule ref_set.index_set_axioms wf_fake_new | code_simp)+

text \<open>C20: the queries of a fake repository are views of its \<open>Cpv\<close>s: the sorted categories,
  the sorted packages of a category, the versions of a package in order, and membership.\<close>

theorem fake_views:
  assumes "index_set version_eq vx" "wf_fake vx r"
  shows "strict_sorted_cmp cmp_str (fake_categories r) \<and> strict_sorted_cmp cmp_str (fake_packages r cat) \<and>
    set (fake_categories r) = (\<lambda>c. cpn_category (cpv_cpn c)) ` set (fr_cpvs r) \<and>
    set (fake_packages r cat) = (\<lambda>c. cpn_package (cpv_cpn c)) ` set (filter (in_category cat) (fr_cpvs r)) \<and>
    fake_versions r cat pkg =
      map cpv_version (filter (\<lambda>c. cpv_cpn c = \<lparr>cpn_category = cat, cpn_package = pkg\<rparr>) (fr_cpvs r)) \<and>
    (fake_contains_cpn re r a \<longleftrightarrow> a \<in> cpv_cpn ` set (fr_cpvs r))"
proof -
  note l = fake_listings [OF assms(2)]
  have "set (fake_categories r) = (\<lambda>c. cpn_category (cpv_cpn c)) ` set (fr_cpvs r)"
    "set (fake_packages r cat) = (\<lambda>c. cpn_package (cpv_cpn c)) ` set (filter (in_category cat) (fr_cpvs r))"
    using l(2,4) by (auto simp: in_category_def)
  then show ?thesis by (intro conjI l(1,3) fake_versions_eq [OF assms] fake_contains_cpn_iff)
qed

lemma parsed_lines_wf: "list_all wf_cpv (oks (map parse_cpv ls))"
proof -
  have "wf_cpv c" if "parse_cpv l = Inr c" for l c
    using that by (simp add: parse_cpv_iff valid_cpv_def plain_version_def wf_cpv_def)
  then show ?thesis by (auto simp: list_all_iff dest: sym)
qed

lemma fake_of_wf: "wf_fake version_ix (fake_of rid data)"
  unfolding fake_of_def fake_from_path_def
  by (simp add: extend_wf [OF ref_set.index_set_axioms wf_fake_new parsed_lines_wf])

definition lines_of :: "string list \<Rightarrow> string" where
  "lines_of ls = join_with [CHR 0x0A] ls"

lemma fake_views_witness:
  "fake_versions (fake_of ''f'' (lines_of [''b/p-10'', ''a/q-1'', ''b/p'', ''b/p-9''])) ''b'' ''p'' =
    map cpv_version (filter (\<lambda>c. cpv_cpn c = \<lparr>cpn_category = ''b'', cpn_package = ''p''\<rparr>)
      (fr_cpvs (fake_of ''f'' (lines_of [''b/p-10'', ''a/q-1'', ''b/p'', ''b/p-9'']))))"
  using fake_views [OF ref_set.index_set_axioms fake_of_wf] by blast

text \<open>A dependency with a slot operator is contained but intersects no package.\<close>

lemma fake_slot_operator:
  "fake_contains_dep no_regex (fake_of ''f'' ''a/q-1'') (parsed_dep ''a/q:='') \<and>
   filter (\<lambda>p. fake_pkg_intersects p (parsed_dep ''a/q:='')) (fake_iter (fake_of ''f'' ''a/q-1'')) = []"
  by code_simp

section \<open>Sets of repositories\<close>

abbreviation any_repo_of :: "fake_repo \<Rightarrow> any_pkg repo" where
  "any_repo_of \<equiv> repo_of_fake no_regex cpns cpvs"

abbreviation same_id :: "any_pkg repo \<Rightarrow> any_pkg repo \<Rightarrow> bool" where
  "same_id \<equiv> \<lambda>a b. rp_id a = rp_id b"

definition small_set :: "any_pkg repo list" where
  "small_set = [any_repo_of (fake_of ''a'' ''x/p-1''), any_repo_of (fake_of ''b'' (lines_of [''x/p-2'', ''y/q-1'']))]"

text \<open>C21: iteration over the packages of a set of repositories with a restriction that is a
  conjunction of variants and negated variants, which first drops the repositories that the
  restriction does not match, returns what filtering all packages returns, when every
  repository keeps the contract of restricted iteration.\<close>

theorem repo_set_restrict_filters:
  assumes "index_set eq rx" "wf_repo_set eq s" "literals q" "list_all (\<lambda>r. pkg_repo re val r q) s"
  shows "oks (repo_set_iter_restrict re rx s q) = filter (\<lambda>p. boolean_matches (val p) q) (oks (repo_set_iter s))"
  by (rule set_iter_restrict_eq [OF assms])

lemma repo_set_restrict_filters_witness:
  "oks (repo_set_iter_restrict no_regex (ref_index_set same_id) small_set
     (RAnd [Var (BDep (dep_restrict_repo (Some ''b''))), RNot (Var (BDep (dep_restrict_category ''y'')))])) =
   filter (\<lambda>p. boolean_matches (own_val no_regex ref_ix strings p)
       (RAnd [Var (BDep (dep_restrict_repo (Some ''b''))), RNot (Var (BDep (dep_restrict_category ''y'')))]))
     (oks (repo_set_iter small_set))"
proof (rule repo_set_restrict_filters [OF ref_set.index_set_axioms])
  show "wf_repo_set same_id small_set" by code_simp
  show "list_all (\<lambda>r. pkg_repo no_regex (own_val no_regex ref_ix strings) r
      (RAnd [Var (BDep (dep_restrict_repo (Some ''b''))), RNot (Var (BDep (dep_restrict_category ''y'')))])) small_set"
    by (simp add: small_set_def fake_repo_contract)
qed code_simp

text \<open>With a disjunction of a repository and anything else the packages of the other
  repositories are lost.\<close>

lemma repo_set_disjunction_loses:
  "map any_pkg_cpv (oks (repo_set_iter_restrict no_regex (ref_index_set same_id) small_set
     (ROr [Var (BDep (dep_restrict_repo (Some ''a''))), Var (BDep (dep_restrict_category ''y''))]))) = [parsed_cpv ''x/p-1''] \<and>
   map any_pkg_cpv (filter (\<lambda>p. boolean_matches (own_val no_regex ref_ix strings p)
       (ROr [Var (BDep (dep_restrict_repo (Some ''a''))), Var (BDep (dep_restrict_category ''y''))]))
     (oks (repo_set_iter small_set))) = [parsed_cpv ''x/p-1'', parsed_cpv ''y/q-1'']"
  by code_simp

end
