(* ===== verification/Shell_Commands.thy ===== *)
theory Shell_Commands
  imports Ebuild_Repo_Iter
begin

text \<open>
  Commands of the ebuild environment that compute a value: dispatch by EAPI and scope
  (\<open>shell/commands.rs\<close>), cutting, changing and comparing versions (\<open>ver_cut.rs\<close>,
  \<open>ver_rs.rs\<close>, \<open>ver_test.rs\<close>), USE flags (\<open>use_.rs\<close> and those built on it),
  membership (\<open>has.rs\<close>, \<open>in_iuse.rs\<close>) and queries (\<open>_query_cmd.rs\<close>). The crate
  \<open>clap\<close> has parsed the arguments; what a command writes to its standard output is part of
  its result. Indices are machine words: the product by two wraps, or panics where the program
  is compiled with overflow checks (the argument \<open>oc\<close>).
\<close>

section \<open>Results and the state of a build\<close>

datatype exec_status = ExecSuccess | ExecFailure int

definition status_of :: "bool \<Rightarrow> exec_status" where
  "status_of b = (if b then ExecSuccess else ExecFailure 1)"

datatype message = Msg string string | OfError error

datatype shell_error = Bail message | Base message

record build_state =
  bs_eapi :: eapi
  bs_scope :: scope
  bs_nonfatal :: bool
  bs_use :: "string set"
  bs_iuse_effective :: "string set"
  bs_cpv :: cpv

text \<open>The dispatch of a command, with its arguments if they are valid UTF-8: the status and
  the error that is reported, if any. The status \<open>longjmp\<close> of an error that ends the build
  is a constant of bash.\<close>

definition handle_error :: "int \<Rightarrow> shell_error \<Rightarrow> exec_status" where
  "handle_error longjmp e = (case e of Bail m \<Rightarrow> ExecFailure longjmp | Base m \<Rightarrow> ExecFailure 1)"

definition run_command :: "int \<Rightarrow> build_state \<Rightarrow> (string list \<Rightarrow> shell_error + exec_status) \<Rightarrow> string \<Rightarrow> string list option \<Rightarrow>
    exec_status \<times> shell_error option" where
  "run_command longjmp b f name args =
    (let result = (case eapi_commands (bs_eapi b) name of
        Some cmd \<Rightarrow>
          if command_is_allowed cmd (bs_scope b)
          then (case args of Some as \<Rightarrow> f as | None \<Rightarrow> Inl (Base (Msg ''invalid args'' name)))
          else Inl (Base (Msg ''disabled in scope'' name))
      | None \<Rightarrow> Inl (Base (Msg ''disabled in EAPI'' (eapi_id (bs_eapi b)))))
     in case result of
          Inr st \<Rightarrow> (st, None)
        | Inl e \<Rightarrow>
            (let e' = (case e of Base m \<Rightarrow> if \<not> bs_nonfatal b then Bail m else e | Bail m \<Rightarrow> e)
             in (handle_error longjmp e', Some e')))"

section \<open>Splitting versions and reading ranges\<close>

definition p_version_separator :: "string parser" where
  "p_version_separator = p_slice (p_plus (p_class (\<lambda>c. \<not> is_alnum c)))"

definition p_version_component :: "string parser" where
  "p_version_component = p_alt (p_slice (p_plus (p_class is_digit)))
     (p_slice (p_plus (p_class (\<lambda>c. is_lower c \<or> is_upper c))))"

definition or_empty :: "string option \<Rightarrow> string" where
  "or_empty s = (case s of None \<Rightarrow> [] | Some x \<Rightarrow> x)"

definition p_version_element :: "string list parser" where
  "p_version_element =
     p_alt (p_bind p_version_separator (\<lambda>sep. p_bind (p_opt p_version_component) (\<lambda>comp.
              p_return [sep, or_empty comp])))
       (p_bind (p_opt p_version_separator) (\<lambda>sep. p_bind p_version_component (\<lambda>comp.
              p_return [or_empty sep, comp])))"

definition p_version_split :: "string list parser" where
  "p_version_split = p_map concat (p_many p_version_element)"

definition version_split :: "string \<Rightarrow> error + string list" where
  "version_split s = peg_result ''invalid version string'' s (p_run p_version_split s)"

definition parse_usize :: "string \<Rightarrow> nat option" where
  "parse_usize s = (if digits_value s < 2 ^ 64 then Some (nat (digits_value s)) else None)"

definition p_digits :: "string parser" where
  "p_digits = p_slice (p_plus (p_class is_digit))"

definition p_range :: "nat \<Rightarrow> (nat \<times> nat) parser" where
  "p_range len =
     p_alt (p_try (p_bind p_digits (\<lambda>s. p_then (p_lit ''-'') (p_map (Pair s) p_digits)))
             (\<lambda>(s, e). case (parse_usize s, parse_usize e) of
                (Some i, Some j) \<Rightarrow> Some (i, j) | _ \<Rightarrow> None))
    (p_alt (p_try (p_before p_digits (p_lit ''-''))
             (\<lambda>s. case parse_usize s of
                Some i \<Rightarrow> if i \<le> len then Some (i, len) else Some (i, i) | None \<Rightarrow> None))
       (p_try p_digits (\<lambda>s. map_option (\<lambda>i. (i, i)) (parse_usize s))))"

definition parse_range :: "string \<Rightarrow> nat \<Rightarrow> error + nat \<times> nat" where
  "parse_range s len = (case peg_result ''invalid range'' s (p_run (p_range len) s) of
     Inl e \<Rightarrow> Inl e
   | Inr (i, j) \<Rightarrow> if j < i then Inl (InvalidValue ''start of range is greater than end'' s) else Inr (i, j))"

section \<open>Version commands\<close>

definition mul2 :: "bool \<Rightarrow> nat \<Rightarrow> nat option" where
  "mul2 oc n = (if 2 * n < 2 ^ 64 then Some (2 * n) else if oc then None else Some (2 * n mod 2 ^ 64))"

text \<open>\<open>start * 2 - 1\<close>: the difference wraps below zero, or panics.\<close>

definition cut_start :: "bool \<Rightarrow> nat \<Rightarrow> nat \<Rightarrow> nat option" where
  "cut_start oc start len =
     (if start \<noteq> 0
      then (case mul2 oc start of None \<Rightarrow> None
        | Some m \<Rightarrow> if m = 0 then (if oc then None else Some (min (2 ^ 64 - 1) len)) else Some (min (m - 1) len))
      else Some start)"

text \<open>A slice panics when its start is behind its end or its end behind the sequence.\<close>

definition slice :: "'a list \<Rightarrow> nat \<Rightarrow> nat \<Rightarrow> 'a list option" where
  "slice xs i j = (if i \<le> j \<and> j \<le> length xs then Some (drop i (take j xs)) else None)"

definition ver_cut :: "bool \<Rightarrow> string \<Rightarrow> string \<Rightarrow> (error + string) option" where
  "ver_cut oc rng version =
     (case version_split version of Inl e \<Rightarrow> Some (Inl e) | Inr version_parts \<Rightarrow>
       (let len = length version_parts in
        case parse_range rng (len div 2) of Inl e \<Rightarrow> Some (Inl e) | Inr (start, stop) \<Rightarrow>
          (case cut_start oc start len of None \<Rightarrow> None | Some start' \<Rightarrow>
          (case mul2 oc stop of None \<Rightarrow> None | Some m \<Rightarrow>
             map_option (\<lambda>ps. Inr (concat ps)) (slice version_parts start' (min m len))))))"

text \<open>Without a version, the version of the package is cut.\<close>

definition ver_cut_run :: "bool \<Rightarrow> build_state \<Rightarrow> string \<Rightarrow> string option \<Rightarrow> (error + string) option" where
  "ver_cut_run oc b rng version = ver_cut oc rng (case version of None \<Rightarrow> cpv_pv (bs_cpv b) | Some v \<Rightarrow> v)"

text \<open>The chain of iterators over a range: the doubled indices below the length.\<close>

function set_separators :: "bool \<Rightarrow> string \<Rightarrow> nat \<Rightarrow> nat \<Rightarrow> string list \<Rightarrow> string list option" where
  "set_separators oc sep start stop parts =
     (if stop < start then Some parts
      else (case mul2 oc start of None \<Rightarrow> None | Some i \<Rightarrow>
        if i < length parts
        then set_separators oc sep (Suc start) stop
          (if (i > 0 \<and> i < length parts - 1) \<or> parts ! i \<noteq> [] then parts[i := sep] else parts)
        else Some parts))"
  by pat_completeness auto
termination
  by (relation "measure (\<lambda>(oc, sep, start, stop, parts). Suc stop - start)") auto

declare set_separators.simps [simp del]

fun ver_rs_pairs :: "bool \<Rightarrow> (string \<times> string) list \<Rightarrow> string list \<Rightarrow> (error + string list) option" where
  "ver_rs_pairs oc [] parts = Some (Inr parts)"
| "ver_rs_pairs oc ((rng, sep) # args) parts =
     (case parse_range rng (length parts div 2) of Inl e \<Rightarrow> Some (Inl e) | Inr (start, stop) \<Rightarrow>
       (case set_separators oc sep start stop parts of None \<Rightarrow> None
        | Some parts' \<Rightarrow> ver_rs_pairs oc args parts'))"

text \<open>\<open>chunks_exact(2)\<close>.\<close>

fun chunks2 :: "'a list \<Rightarrow> ('a \<times> 'a) list" where
  "chunks2 (x # y # zs) = (x, y) # chunks2 zs"
| "chunks2 _ = []"

definition ver_rs :: "bool \<Rightarrow> build_state \<Rightarrow> string list \<Rightarrow> (error + string) option" where
  "ver_rs oc b args =
     (let (version, args) = (if length args mod 2 = 0 then (cpv_pv (bs_cpv b), args) else (last args, butlast args))
      in case version_split version of Inl e \<Rightarrow> Some (Inl e) | Inr parts \<Rightarrow>
        map_option (\<lambda>r. case r of Inl e \<Rightarrow> Inl e | Inr ps \<Rightarrow> Inr (concat ps)) (ver_rs_pairs oc (chunks2 args) parts))"

text \<open>The outer option of \<open>ver_test\<close> is its \<open>unreachable!\<close>, excluded by \<open>clap\<close>.\<close>

definition version_try_new_without_op :: "string \<Rightarrow> error + version" where
  "version_try_new_without_op s = parse_version s"

definition test_op :: "string \<Rightarrow> ordering \<Rightarrow> shell_error + exec_status" where
  "test_op op c =
     (if op = ''-eq'' then Inr (status_of (c = Equal))
      else if op = ''-ne'' then Inr (status_of (c \<noteq> Equal))
      else if op = ''-lt'' then Inr (status_of (c = Less))
      else if op = ''-gt'' then Inr (status_of (c = Greater))
      else if op = ''-le'' then Inr (status_of (c \<noteq> Greater))
      else if op = ''-ge'' then Inr (status_of (c \<noteq> Less))
      else Inl (Base (Msg ''invalid operator'' op)))"

definition ver_test :: "build_state \<Rightarrow> string list \<Rightarrow> (shell_error + exec_status) option" where
  "ver_test b args = (case args of
     [op, rhs] \<Rightarrow> (case version_try_new_without_op rhs of Inl e \<Rightarrow> Some (Inl (Base (OfError e)))
       | Inr r \<Rightarrow> Some (test_op op (version_ord (cpv_version (bs_cpv b)) r)))
   | [lhs, op, rhs] \<Rightarrow> (case version_try_new_without_op lhs of Inl e \<Rightarrow> Some (Inl (Base (OfError e))) | Inr l \<Rightarrow>
       (case version_try_new_without_op rhs of Inl e \<Rightarrow> Some (Inl (Base (OfError e)))
        | Inr r \<Rightarrow> Some (test_op op (version_ord l r))))
   | _ \<Rightarrow> None)"

section \<open>USE flag commands\<close>

record use_flag_arg =
  uf_flag :: string
  uf_inverted :: bool

definition use_flag_from_str :: "string \<Rightarrow> error + use_flag_arg" where
  "use_flag_from_str s =
     (let (inverted, flag) = (case strip_prefix s ''!'' of Some x \<Rightarrow> (True, x) | None \<Rightarrow> (False, s))
      in case parse_use_flag flag of Inl e \<Rightarrow> Inl e | Inr v \<Rightarrow> Inr \<lparr>uf_flag = v, uf_inverted = inverted\<rparr>)"

definition use_status :: "build_state \<Rightarrow> use_flag_arg \<Rightarrow> shell_error + bool" where
  "use_status b u =
     (if uf_flag u \<notin> bs_iuse_effective b then Inl (Base (Msg ''USE flag not in IUSE'' (uf_flag u)))
      else Inr ((uf_flag u \<in> bs_use b) \<noteq> uf_inverted u))"

definition use_cmd :: "build_state \<Rightarrow> string \<Rightarrow> shell_error + exec_status" where
  "use_cmd b s = (case use_flag_from_str s of Inl e \<Rightarrow> Inl (Base (OfError e))
     | Inr u \<Rightarrow> (case use_status b u of Inl e \<Rightarrow> Inl e | Inr r \<Rightarrow> Inr (status_of r)))"

text \<open>The commands below write to their standard output: the status and the text.\<close>

definition usev_cmd :: "build_state \<Rightarrow> string \<Rightarrow> string option \<Rightarrow> shell_error + exec_status \<times> string" where
  "usev_cmd b s out = (case use_flag_from_str s of Inl e \<Rightarrow> Inl (Base (OfError e))
     | Inr u \<Rightarrow>
        (if out \<noteq> None \<and> \<not> eapi_has (bs_eapi b) UsevTwoArgs
         then Inl (Base (Msg ''output argument unsupported'' (eapi_id (bs_eapi b))))
         else (let output = (case out of Some v \<Rightarrow> v | None \<Rightarrow> uf_flag u)
           in case use_status b u of Inl e \<Rightarrow> Inl e
            | Inr r \<Rightarrow> Inr (status_of r, if r then output else []))))"

definition usex_cmd :: "build_state \<Rightarrow> string \<Rightarrow> string \<Rightarrow> string \<Rightarrow> string \<Rightarrow> string \<Rightarrow> shell_error + exec_status \<times> string" where
  "usex_cmd b s enabled1 disabled1 enabled2 disabled2 = (case use_cmd b s of Inl e \<Rightarrow> Inl e
     | Inr ExecSuccess \<Rightarrow> Inr (ExecSuccess, enabled1 @ enabled2)
     | Inr (ExecFailure n) \<Rightarrow> Inr (ExecSuccess, disabled1 @ disabled2))"

definition use_conf_args :: "string list \<Rightarrow> shell_error + string \<times> string \<times> string option" where
  "use_conf_args args = (case args of
     [flag] \<Rightarrow> if starts_with flag ''!'' then Inl (Base (Msg ''USE flag inversion requires 2 or 3 args'' []))
       else Inr (flag, flag, None)
   | [flag, opt] \<Rightarrow> Inr (flag, opt, None)
   | [flag, opt, val] \<Rightarrow> Inr (flag, opt, Some val)
   | _ \<Rightarrow> Inl (Base (Msg ''requires 1, 2, or 3 args'' [])))"

definition use_conf :: "build_state \<Rightarrow> string list \<Rightarrow> string \<Rightarrow> string \<Rightarrow> shell_error + exec_status \<times> string" where
  "use_conf b args enabled disabled = (case use_conf_args args of Inl e \<Rightarrow> Inl e
     | Inr (flag, opt, val) \<Rightarrow>
        (case use_cmd b flag of Inl e \<Rightarrow> Inl e
         | Inr ret \<Rightarrow> Inr (ret, (case (ret, val) of
              (ExecSuccess, None) \<Rightarrow> ''--'' @ enabled @ ''-'' @ opt
            | (ExecSuccess, Some v) \<Rightarrow> ''--'' @ enabled @ ''-'' @ opt @ ''='' @ v
            | (ExecFailure n, None) \<Rightarrow> ''--'' @ disabled @ ''-'' @ opt
            | (ExecFailure n, Some v) \<Rightarrow> ''--'' @ disabled @ ''-'' @ opt @ ''='' @ v))))"

definition use_with :: "build_state \<Rightarrow> string list \<Rightarrow> shell_error + exec_status \<times> string" where
  "use_with b args = use_conf b args ''with'' ''without''"

definition use_enable :: "build_state \<Rightarrow> string list \<Rightarrow> shell_error + exec_status \<times> string" where
  "use_enable b args = use_conf b args ''enable'' ''disable''"

section \<open>Membership and queries\<close>

definition in_iuse :: "build_state \<Rightarrow> string \<Rightarrow> exec_status" where
  "in_iuse b flag = status_of (flag \<in> bs_iuse_effective b)"

definition has_cmd :: "string \<Rightarrow> string list \<Rightarrow> exec_status" where
  "has_cmd needle haystack = status_of (needle \<in> set haystack)"

definition hasv_cmd :: "string \<Rightarrow> string list \<Rightarrow> exec_status \<times> string" where
  "hasv_cmd needle haystack =
     (let found = needle \<in> set haystack in (status_of found, if found then needle else []))"

definition query_args :: "build_state \<Rightarrow> string list \<Rightarrow> shell_error + string" where
  "query_args b args = (case args of
     [s] \<Rightarrow> Inr s
   | [o1, s] \<Rightarrow>
       (if o1 = ''--host-root'' \<and> eapi_has (bs_eapi b) QueryHostRoot then Inr s
        else if o1 \<in> {''-b'', ''-d'', ''-r''} \<and> eapi_has (bs_eapi b) QueryDeps then Inr s
        else Inl (Base (Msg ''invalid args, see PMS for details'' [])))
   | _ \<Rightarrow> Inl (Base (Msg ''invalid args, see PMS for details'' [])))"

definition query_cmd :: "(string \<Rightarrow> string \<Rightarrow> bool) \<Rightarrow> (error \<Rightarrow> error \<Rightarrow> ordering) \<Rightarrow> use_dep index_set \<Rightarrow> string index_set \<Rightarrow>
    cpv index_set \<Rightarrow> build_state \<Rightarrow> ebuild_repo \<Rightarrow> string list \<Rightarrow> shell_error + cpv list" where
  "query_cmd re ec ux sx cx b r args = (case query_args b args of Inl e \<Rightarrow> Inl e
     | Inr s \<Rightarrow> (case parse_dep ux (bs_eapi b) s of Inl e \<Rightarrow> Inl (Base (OfError e))
        | Inr d \<Rightarrow> Inr (iter_cpv_restrict re ec sx cx r (restrict_of_dep d))))"

definition has_version :: "(string \<Rightarrow> string \<Rightarrow> bool) \<Rightarrow> (error \<Rightarrow> error \<Rightarrow> ordering) \<Rightarrow> use_dep index_set \<Rightarrow> string index_set \<Rightarrow>
    cpv index_set \<Rightarrow> build_state \<Rightarrow> ebuild_repo \<Rightarrow> string list \<Rightarrow> shell_error + exec_status" where
  "has_version re ec ux sx cx b r args = (case query_cmd re ec ux sx cx b r args of
     Inl e \<Rightarrow> Inl e | Inr cpvs \<Rightarrow> Inr (status_of (cpvs \<noteq> [])))"

definition best_version :: "(string \<Rightarrow> string \<Rightarrow> bool) \<Rightarrow> (error \<Rightarrow> error \<Rightarrow> ordering) \<Rightarrow> use_dep index_set \<Rightarrow> string index_set \<Rightarrow>
    cpv index_set \<Rightarrow> build_state \<Rightarrow> ebuild_repo \<Rightarrow> string list \<Rightarrow> shell_error + exec_status \<times> string" where
  "best_version re ec ux sx cx b r args = (case query_cmd re ec ux sx cx b r args of
     Inl e \<Rightarrow> Inl e
   | Inr cpvs \<Rightarrow> Inr (if cpvs \<noteq> [] then (ExecSuccess, cpv_display (last cpvs)) else (ExecFailure 1, [])))"

end
