(* ===== verification/Shell_Commands_Laws.thy ===== *)
theory Shell_Commands_Laws
  imports Shell_Commands
begin

section \<open>What the commands on versions do\<close>

lemma slice_plus: "p_slice (p_plus (p_class C)) = p_name C C"
proof
  fix s show "p_slice (p_plus (p_class C)) s = p_name C C s"
    by (cases s) (simp_all add: p_name_def p_slice_def p_plus_def p_then_def p_bind_def p_class_def [of C "_ # _"]
      p_class_def [of C "[]"] p_many_def p_star_class p_return_def)
qed

definition is_letter :: "char \<Rightarrow> bool" where
  "is_letter c \<longleftrightarrow> is_lower c \<or> is_upper c"

lemma alnum_letter: "is_alnum c \<longleftrightarrow> is_digit c \<or> is_letter c"
  by (auto simp: is_alnum_def is_letter_def)

lemma digit_not_letter: "is_digit c \<Longrightarrow> \<not> is_letter c"
  by (auto simp: is_digit_def is_letter_def is_lower_def is_upper_def)

text \<open>A version as its elements: a separator and a component each.\<close>

definition component_class :: "string \<Rightarrow> char \<Rightarrow> bool" where
  "component_class s = (if s \<noteq> [] \<and> is_digit (hd s) then is_digit else is_letter)"

lemma elements_shorter:
  assumes "s \<noteq> []" "r = dropWhile (\<lambda>c. \<not> is_alnum c) s"
  shows "length (dropWhile (component_class r) r) < length s"
proof (cases "is_alnum (hd s)")
  case True
  then have "r = s" using assms by (cases s) auto
  moreover have "component_class s (hd s)" using True assms(1) by (auto simp: component_class_def alnum_letter)
  ultimately show ?thesis using assms(1) by (cases s) (auto simp: length_dropWhile_le less_Suc_eq_le)
next
  case False
  then have "length r < length s" using assms by (cases s) (auto simp: length_dropWhile_le less_Suc_eq_le)
  then show ?thesis by (meson le_less_trans length_dropWhile_le)
qed

function version_elements :: "string \<Rightarrow> (string \<times> string) list" where
  "version_elements s = (if s = [] then [] else
     (let sep = takeWhile (\<lambda>c. \<not> is_alnum c) s; r = dropWhile (\<lambda>c. \<not> is_alnum c) s
      in (sep, takeWhile (component_class r) r) # version_elements (dropWhile (component_class r) r)))"
  by pat_completeness auto
termination
  by (relation "measure length") (auto dest: elements_shorter)

declare version_elements.simps [simp del]

lemma p_version_element_eq:
  "p_version_element s = (if s = [] then None else
     (let sep = takeWhile (\<lambda>c. \<not> is_alnum c) s; r = dropWhile (\<lambda>c. \<not> is_alnum c) s
      in Some ([sep, takeWhile (component_class r) r], dropWhile (component_class r) r)))"
proof -
  have comp: "p_version_component r = (if r = [] \<or> \<not> is_alnum (hd r) then None
      else Some (takeWhile (component_class r) r, dropWhile (component_class r) r))" for r
    by (cases r) (auto simp: p_version_component_def p_alt_def slice_plus p_name_eq component_class_def alnum_letter
      is_letter_def [abs_def] dest: digit_not_letter)
  have sep: "p_version_separator s = (if s = [] \<or> is_alnum (hd s) then None
      else Some (takeWhile (\<lambda>c. \<not> is_alnum c) s, dropWhile (\<lambda>c. \<not> is_alnum c) s))" for s
    by (cases s) (auto simp: p_version_separator_def slice_plus p_name_eq)
  have none: "takeWhile (component_class r) r = [] \<and> dropWhile (component_class r) r = r"
    if "r = [] \<or> \<not> is_alnum (hd r)" for r
    using that by (cases r) (auto simp: component_class_def alnum_letter)
  show ?thesis
    by (cases s) (auto simp: p_version_element_def p_alt_def p_bind_def p_opt_def comp sep none or_empty_def p_return_def Let_def)
qed

lemma star_elements: "p_star p_version_element s = (map (\<lambda>(a, b). [a, b]) (version_elements s), [])"
proof (induction s rule: version_elements.induct)
  case (1 s)
  show ?case
  proof (cases "s = []")
    case False
    let ?r = "dropWhile (\<lambda>c. \<not> is_alnum c) s"
    have "length (dropWhile (component_class ?r) ?r) < length s" using elements_shorter [OF False refl] .
    then show ?thesis
      using 1 [OF False refl refl] False
      by (subst p_star.simps) (simp add: p_version_element_eq [of s] version_elements.simps [of s] Let_def)
  qed (simp add: p_star_stop p_version_element_eq version_elements.simps)
qed

lemma version_split_eq: "version_split s = Inr (concat (map (\<lambda>(a, b). [a, b]) (version_elements s)))"
  by (simp add: version_split_def p_version_split_def p_map_def p_bind_def p_many_def star_elements p_return_def
    peg_result_def p_run_def)

text \<open>What makes it the only way to split: separators and components follow each other, each
  as long as it can be.\<close>

definition proper_element :: "string \<times> string \<Rightarrow> bool" where
  "proper_element e \<longleftrightarrow> list_all (\<lambda>c. \<not> is_alnum c) (fst e) \<and>
     (list_all is_digit (snd e) \<or> list_all is_letter (snd e)) \<and> e \<noteq> ([], [])"

definition proper_step :: "string \<times> string \<Rightarrow> string \<times> string \<Rightarrow> bool" where
  "proper_step e f \<longleftrightarrow> snd e \<noteq> [] \<and> (fst f = [] \<longrightarrow> is_digit (hd (snd e)) \<noteq> is_digit (hd (snd f)))"

abbreviation element_texts :: "(string \<times> string) list \<Rightarrow> string" where
  "element_texts es \<equiv> concat (map (\<lambda>(a, b). a @ b) es)"

lemma elements_text: "element_texts (version_elements s) = s"
proof (induction s rule: version_elements.induct)
  case (1 s)
  then show ?case
    by (cases "s = []") (simp_all add: version_elements.simps [of s] version_elements.simps [of "[]"] Let_def)
qed

lemma elements_proper: "list_all proper_element (version_elements s)"
proof (induction s rule: version_elements.induct)
  case (1 s)
  show ?case
  proof (cases "s = []")
    case False
    let ?r = "dropWhile (\<lambda>c. \<not> is_alnum c) s"
    have "proper_element (takeWhile (\<lambda>c. \<not> is_alnum c) s, takeWhile (component_class ?r) ?r)"
      using False by (cases s) (auto simp: proper_element_def list_all_iff component_class_def alnum_letter dest: set_takeWhileD)
    then show ?thesis using 1 [OF False refl refl] False
      by (simp add: version_elements.simps [of s] Let_def)
  qed (simp add: version_elements.simps)
qed

lemma elements_hd: "s \<noteq> [] \<Longrightarrow> hd (version_elements s) = (takeWhile (\<lambda>c. \<not> is_alnum c) s,
    takeWhile (component_class (dropWhile (\<lambda>c. \<not> is_alnum c) s)) (dropWhile (\<lambda>c. \<not> is_alnum c) s))"
  by (subst version_elements.simps) (simp add: Let_def)

lemma elements_steps: "successively proper_step (version_elements s)"
proof (induction s rule: version_elements.induct)
  case (1 s)
  show ?case
  proof (cases "s = []")
    case False
    let ?r = "dropWhile (\<lambda>c. \<not> is_alnum c) s"
    let ?c = "component_class ?r"
    let ?t = "dropWhile ?c ?r"
    have alnum: "?r = [] \<or> is_alnum (hd ?r)" using hd_dropWhile [of "\<lambda>c. \<not> is_alnum c" s] by auto
    have "proper_step (takeWhile (\<lambda>c. \<not> is_alnum c) s, takeWhile ?c ?r) (hd (version_elements ?t))" if t: "?t \<noteq> []"
    proof -
      have r: "?r \<noteq> []" using t by (metis dropWhile.simps(1))
      then have c: "?c (hd ?r)" using alnum by (auto simp: component_class_def alnum_letter)
      then have hd: "takeWhile ?c ?r \<noteq> []" "hd (takeWhile ?c ?r) = hd ?r" using r by (cases ?r; auto)+
      have not: "\<not> ?c (hd ?t)" using hd_dropWhile [OF t] by simp
      have "is_digit (hd (takeWhile (component_class ?t) ?t)) \<noteq> is_digit (hd ?r)" if "is_alnum (hd ?t)"
      proof -
        have "hd (takeWhile (component_class ?t) ?t) = hd ?t"
          using that t by (cases ?t) (auto simp: component_class_def alnum_letter)
        then show ?thesis using that not c r by (auto simp: component_class_def alnum_letter split: if_splits dest: digit_not_letter)
      qed
      moreover have "dropWhile (\<lambda>c. \<not> is_alnum c) ?t = ?t" if "is_alnum (hd ?t)" using that t by (cases ?t) auto
      moreover have "takeWhile (\<lambda>c. \<not> is_alnum c) ?t \<noteq> []" if "\<not> is_alnum (hd ?t)" using that t by (cases ?t) auto
      ultimately show ?thesis using hd unfolding elements_hd [OF t] proper_step_def fst_conv snd_conv
        by (cases "is_alnum (hd ?t)") (metis, metis)
    qed
    moreover have "successively proper_step (version_elements ?t)" using 1 [OF False refl refl] by simp
    moreover have "version_elements ?t = [] \<longleftrightarrow> ?t = []" by (simp add: version_elements.simps [of ?t] Let_def)
    ultimately show ?thesis using False
      by (auto simp: version_elements.simps [of s] Let_def successively_Cons)
  qed (simp add: version_elements.simps)
qed

abbreviation parts_of :: "(string \<times> string) list \<Rightarrow> string list" where
  "parts_of es \<equiv> concat (map (\<lambda>(a, b). [a, b]) es)"

lemma parts_length [simp]: "length (parts_of es) = 2 * length es"
  by (induction es) auto

lemma parts_concat [simp]: "concat (parts_of es) = element_texts es"
  by (induction es) auto

lemma parts_take: "take (2 * n) (parts_of es) = parts_of (take n es)"
  by (induction es arbitrary: n; case_tac n) auto

lemma parts_drop: "drop (2 * n) (parts_of es) = parts_of (drop n es)"
  by (induction es arbitrary: n; case_tac n) auto

lemma parts_nth_separator: "i < length es \<Longrightarrow> parts_of es ! (2 * i) = fst (es ! i)"
  by (induction es arbitrary: i; case_tac i) auto

lemma parts_nth_component: "i < length es \<Longrightarrow> parts_of es ! Suc (2 * i) = snd (es ! i)"
  by (induction es arbitrary: i; case_tac i) auto

lemmas parts_nth = parts_nth_separator parts_nth_component

lemma parts_update: "i < length es \<Longrightarrow> (parts_of es)[2 * i := s] = parts_of (es[i := (s, snd (es ! i))])"
  by (induction es arbitrary: i; case_tac i) auto

definition cut_elements :: "nat \<Rightarrow> nat \<Rightarrow> (string \<times> string) list \<Rightarrow> string" where
  "cut_elements start stop es =
     (if start = 0 then element_texts (take stop es)
      else if start \<le> length es then snd (es ! (start - 1)) @ element_texts (drop start (take stop es))
      else [])"

lemma ver_cut_eq:
  assumes "parse_range rng (length (version_elements v)) = Inr (start, stop)" "stop < 2 ^ 63"
  shows "ver_cut oc rng v = Some (Inr (cut_elements start stop (version_elements v)))"
proof -
  define es where "es = version_elements v"
  have le: "start \<le> stop" using assms(1) by (auto simp: parse_range_def split: sum.splits prod.splits if_splits)
  have m: "mul2 oc start = Some (2 * start)" "mul2 oc stop = Some (2 * stop)" using le assms(2) by (auto simp: mul2_def)
  have stop: "take (min (2 * stop) (2 * length es)) (parts_of es) = parts_of (take stop es)"
    using parts_take [of stop es] by (simp add: min_def parts_take)
  have cut: "cut_start oc start (2 * length es) = Some (if start = 0 then 0 else min (2 * start - 1) (2 * length es))"
    by (auto simp: cut_start_def m)
  have "concat (drop (min (2 * start - 1) (2 * length es)) (parts_of (take stop es))) = cut_elements start stop es" if start: "start \<noteq> 0"
  proof (cases "start \<le> length es")
    case True
    obtain k where k: "start = Suc k" using start by (cases start) auto
    have i: "k < length (take stop es)" using True le k by auto
    have "drop (Suc (2 * k)) (parts_of (take stop es)) =
        parts_of (take stop es) ! Suc (2 * k) # drop (2 * Suc k) (parts_of (take stop es))"
    proof -
      have "Suc (2 * k) < length (parts_of (take stop es))" using i unfolding parts_length by linarith
      from Cons_nth_drop_Suc [OF this] show ?thesis by simp
    qed
    moreover have "min (2 * start - 1) (2 * length es) = Suc (2 * k)" using True k by simp
    ultimately show ?thesis using True i parts_nth_component [OF i]
      by (simp only: cut_elements_def parts_drop k) simp
  qed (use le in \<open>auto simp: cut_elements_def\<close>)
  then show ?thesis
    using assms(1) le unfolding es_def [symmetric]
    by (auto simp: ver_cut_def version_split_eq es_def [symmetric] cut m slice_def stop Let_def cut_elements_def)
qed

lemma ver_cut_wraps:
  assumes "v \<noteq> []"
  shows "ver_cut oc ''1-9223372036854775808'' v = None"
proof -
  have "parse_range ''1-9223372036854775808'' n = Inr (1, 9223372036854775808)" for n
    by (simp add: parse_range_def p_range_def p_alt_def p_try_def p_bind_def p_then_def p_map_def p_return_def p_digits_def
      slice_plus p_name_eq p_lit_def starts_with_def is_digit_def parse_usize_def digits_value_def peg_result_def p_run_def)
  moreover have "version_elements v \<noteq> []" using assms by (simp add: version_elements.simps [of v] Let_def)
  ultimately show ?thesis
    by (auto simp: ver_cut_def version_split_eq mul2_def cut_start_def slice_def Let_def min_def)
qed

definition put_separators :: "string \<Rightarrow> nat \<Rightarrow> nat \<Rightarrow> (string \<times> string) list \<Rightarrow> (string \<times> string) list" where
  "put_separators sep start stop es =
     map (\<lambda>(i, (a, b)). if start \<le> i \<and> i \<le> stop \<and> (0 < i \<or> a \<noteq> []) then (sep, b) else (a, b)) (enumerate 0 es)"

lemma put_separators_nth: "i < length es \<Longrightarrow> put_separators sep start stop es ! i =
    (if start \<le> i \<and> i \<le> stop \<and> (0 < i \<or> fst (es ! i) \<noteq> []) then (sep, snd (es ! i)) else es ! i)"
  by (auto simp: put_separators_def nth_enumerate_eq split: prod.splits)

lemma put_separators_length [simp]: "length (put_separators sep start stop es) = length es"
  by (simp add: put_separators_def)

lemma put_separators_components: "map snd (put_separators sep start stop es) = map snd es"
  by (rule nth_equalityI) (auto simp: put_separators_nth)

lemma put_separators_empty: "stop < start \<or> length es \<le> start \<Longrightarrow> put_separators sep start stop es = es"
  by (rule nth_equalityI) (auto simp: put_separators_nth)

lemma put_separators_step:
  assumes "start \<le> stop" "start < length es"
  shows "put_separators sep (Suc start) stop
      (if 0 < start \<or> fst (es ! start) \<noteq> [] then es[start := (sep, snd (es ! start))] else es) =
    put_separators sep start stop es"
  by (rule nth_equalityI) (use assms in \<open>auto simp: put_separators_nth nth_list_update\<close>)

lemma set_separators_eq:
  assumes "start < 2 ^ 63" "length es < 2 ^ 63"
  shows "set_separators oc sep start stop (parts_of es) = Some (parts_of (put_separators sep start stop es))"
  using assms
proof (induction "Suc stop - start" arbitrary: start es)
  case 0
  then show ?case by (subst set_separators.simps) (simp add: put_separators_empty)
next
  case (Suc n)
  let ?es = "if 0 < start \<or> fst (es ! start) \<noteq> [] then es[start := (sep, snd (es ! start))] else es"
  have m: "mul2 oc start = Some (2 * start)" using Suc.prems by (simp add: mul2_def)
  have start: "start \<le> stop" using Suc.hyps(2) by simp
  show ?case
  proof (cases "start < length es")
    case True
    have "set_separators oc sep (Suc start) stop (parts_of ?es) = Some (parts_of (put_separators sep (Suc start) stop ?es))"
      by (rule Suc.hyps(1)) (use Suc True in auto)
    moreover have "(if (2 * start > 0 \<and> 2 * start < 2 * length es - 1) \<or> parts_of es ! (2 * start) \<noteq> []
        then (parts_of es)[2 * start := sep] else parts_of es) = parts_of ?es"
      using True by (auto simp: parts_nth parts_update)
    ultimately show ?thesis using start True
      by (subst set_separators.simps) (simp add: m put_separators_step)
  next
    case False
    then show ?thesis using Suc by (subst set_separators.simps) (simp add: m put_separators_empty)
  qed
qed

fun rs_elements :: "(string \<times> string) list \<Rightarrow> (string \<times> string) list \<Rightarrow> error + (string \<times> string) list" where
  "rs_elements [] es = Inr es"
| "rs_elements ((rng, sep) # args) es = (case parse_range rng (length es) of Inl e \<Rightarrow> Inl e
     | Inr (start, stop) \<Rightarrow> rs_elements args (put_separators sep start stop es))"

lemma ver_rs_pairs_eq:
  assumes "length es < 2 ^ 63" "\<And>rng sep i j. (rng, sep) \<in> set args \<Longrightarrow> parse_range rng (length es) = Inr (i, j) \<Longrightarrow> i < 2 ^ 63"
  shows "ver_rs_pairs oc args (parts_of es) =
    Some (case rs_elements args es of Inl e \<Rightarrow> Inl e | Inr fs \<Rightarrow> Inr (parts_of fs))"
  using assms
proof (induction args es rule: rs_elements.induct)
  case (2 rng sep args es)
  show ?case
  proof (cases "parse_range rng (length es)")
    case (Inr ij)
    obtain i j where ij: "ij = (i, j)" by (cases ij)
    have "i < 2 ^ 63" using "2.prems"(2) [of rng sep i j] Inr ij by simp
    moreover have "ver_rs_pairs oc args (parts_of (put_separators sep i j es)) =
        Some (case rs_elements args (put_separators sep i j es) of Inl e \<Rightarrow> Inl e | Inr fs \<Rightarrow> Inr (parts_of fs))"
      by (rule "2.IH" [OF Inr ij [symmetric]]) (use "2.prems" in \<open>auto\<close>)
    ultimately show ?thesis using "2.prems"(1) Inr ij by (simp add: set_separators_eq)
  qed simp
qed simp

lemma rs_elements_components: "rs_elements args es = Inr fs \<Longrightarrow> map snd fs = map snd es"
  by (induction args es arbitrary: fs rule: rs_elements.induct)
    (auto simp: put_separators_components split: sum.splits prod.splits)

section \<open>USE flags\<close>

lemma use_flag_inverted:
  assumes "use_flag_from_str s = Inr u" "\<not> uf_inverted u"
  shows "use_flag_from_str (CHR ''!'' # s) = Inr \<lparr>uf_flag = uf_flag u, uf_inverted = True\<rparr>"
  using assms by (auto simp: use_flag_from_str_def strip_prefix_def starts_with_def Let_def split: if_splits sum.splits)

lemma use_cmd_Inr: "use_cmd b s = Inr st \<longleftrightarrow> (\<exists>u. use_flag_from_str s = Inr u \<and> uf_flag u \<in> bs_iuse_effective b \<and>
    st = status_of ((uf_flag u \<in> bs_use b) \<noteq> uf_inverted u))"
  by (auto simp: use_cmd_def use_status_def split: sum.splits)

lemma use_conf_writes:
  assumes "use_conf b args enabled disabled = Inr (st, out)"
  shows "(\<exists>flag opt val. use_conf_args args = Inr (flag, opt, val) \<and> use_cmd b flag = Inr st \<and>
    out = ''--'' @ (if st = ExecSuccess then enabled else disabled) @ ''-'' @ opt @
      (case val of None \<Rightarrow> [] | Some v \<Rightarrow> ''='' @ v))"
  using assms by (auto simp: use_conf_def split: sum.splits exec_status.splits option.splits prod.splits)

section \<open>Dispatch\<close>

lemma run_command_disabled:
  assumes "eapi_commands (bs_eapi b) name = None \<or>
    (\<exists>cmd. eapi_commands (bs_eapi b) name = Some cmd \<and> \<not> command_is_allowed cmd (bs_scope b))"
  shows "\<exists>m. run_command longjmp b f name args =
    (if bs_nonfatal b then (ExecFailure 1, Some (Base m)) else (ExecFailure longjmp, Some (Bail m)))"
  using assms by (auto simp: run_command_def handle_error_def Let_def)

section \<open>Queries\<close>

lemma matches_cpv_dep:
  "matches_cpv re (restrict_of_dep d) c \<longleftrightarrow>
     dep_cpn d = cpv_cpn c \<and> pred_option (\<lambda>v. version_intersects v (cpv_version c)) (dep_version d) \<and>
     dep_blocker d = None \<and> dep_slot d = None \<and> dep_subslot d = None \<and> dep_use_deps d = None \<and> dep_repo d = None"
proof -
  have blocker: "dep_restrict_matches_cpv re c (DepBlocker b) \<longleftrightarrow> b = None" for b by (cases b) simp_all
  have cpn: "dep_cpn d = cpv_cpn c \<longleftrightarrow> cpn_category (cpv_cpn c) = cpn_category (dep_cpn d) \<and>
      cpn_package (cpv_cpn c) = cpn_package (dep_cpn d)" by auto
  have all: "list_all P (case x of None \<Rightarrow> [] | Some a \<Rightarrow> [f a]) \<longleftrightarrow> pred_option (\<lambda>a. P (f a)) x" for P and f :: "'b \<Rightarrow> dep_restrict" and x
    by (cases x) simp_all
  have none: "pred_option (\<lambda>a. False) x \<longleftrightarrow> x = None" for x :: "'b option" by (cases x) simp_all
  have "matches_cpv re (restrict_of_dep d) c \<longleftrightarrow> list_all (dep_restrict_matches_cpv re c) (dep_restricts d)"
    by (simp add: matches_cpv_def restrict_of_dep_def list.pred_map comp_def)
  also have "\<dots> \<longleftrightarrow> (cpn_category (cpv_cpn c) = cpn_category (dep_cpn d) \<and> cpn_package (cpv_cpn c) = cpn_package (dep_cpn d)) \<and>
     dep_blocker d = None \<and> pred_option (\<lambda>v. version_intersects v (cpv_version c)) (dep_version d) \<and>
     dep_slot d = None \<and> dep_subslot d = None \<and> dep_use_deps d = None \<and> dep_repo d = None"
    unfolding dep_restricts_def list_all_append all dep_restrict_slot_def dep_restrict_subslot_def dep_restrict_repo_def
    by (simp add: dep_restrict_category_def dep_restrict_package_def blocker none)
  finally show ?thesis unfolding cpn by blast
qed

lemma query_cmd_Inr: "query_cmd re ec ux sx cx b r args = Inr cs \<longleftrightarrow>
    (\<exists>s d. query_args b args = Inr s \<and> parse_dep ux (bs_eapi b) s = Inr d \<and>
      cs = iter_cpv_restrict re ec sx cx r (restrict_of_dep d))"
  by (auto simp: query_cmd_def split: sum.splits)

lemma query_attributes:
  assumes "query_cmd re ec ux sx cx b r args = Inr cs" "query_args b args = Inr s" "parse_dep ux (bs_eapi b) s = Inr d"
    and "dep_slot d \<noteq> None \<or> dep_use_deps d \<noteq> None \<or> dep_repo d \<noteq> None \<or> dep_blocker d \<noteq> None"
  shows "cs = []"
  using assms by (auto simp: query_cmd_Inr iter_cpv_restrict_def matches_cpv_dep filter_empty_conv)

lemma last_greatest:
  assumes "strict_sorted_cmp c xs" "x \<in> set xs" "x \<noteq> last xs"
  shows "c x (last xs) = Less"
  by (cases xs rule: rev_cases) (use assms in \<open>auto simp: strict_sorted_cmp_def sorted_wrt_append\<close>)

lemma best_version_greatest:
  assumes r: "regular_repo r" "index_set (=) sx" "index_set cpv_eq cx"
    and s: "query_args b args = Inr s" "parse_dep ux (bs_eapi b) s = Inr d"
    and q: "names_category sx r (restrict_of_dep d)"
      "spelled_like (restrict_of_dep d) (filter (matches_cpv re (restrict_of_dep d)) (iter_cpv re ec sx cx r None))"
    and best: "best_version re ec ux sx cx b r args = Inr (ExecSuccess, out)"
  shows "\<exists>c. out = cpv_display c \<and> c \<in> set (iter_cpv re ec sx cx r None) \<and> matches_cpv re (restrict_of_dep d) c \<and>
    (\<forall>x \<in> set (iter_cpv re ec sx cx r None). matches_cpv re (restrict_of_dep d) x \<and> x \<noteq> c \<longrightarrow> cpv_cmp x c = Less)"
proof -
  define cs where "cs = filter (matches_cpv re (restrict_of_dep d)) (iter_cpv re ec sx cx r None)"
  have "query_cmd re ec ux sx cx b r args = Inr cs"
    using s iter_cpv_restrict_eq [OF r q] by (simp add: query_cmd_def cs_def)
  then have ne: "cs \<noteq> []" and out: "out = cpv_display (last cs)"
    using best by (auto simp: best_version_def split: if_splits)
  have "strict_sorted_cmp cpv_cmp cs"
    using iter_cpv_all(2) [OF r] by (simp add: cs_def strict_sorted_cmp_def sorted_wrt_filter)
  moreover have "last cs \<in> set cs" using ne by simp
  ultimately show ?thesis using out last_greatest [of cpv_cmp cs]
    by (intro exI [of _ "last cs"]) (auto simp: cs_def)
qed

end
