(* ===== verification/Shell_Props.thy ===== *)
theory Shell_Props
  imports Shell_Commands_Laws Repo_Examples
begin

text \<open>
  The properties of the commands on versions and of queries, over the lemmas of
  \<open>Shell_Commands_Laws\<close>.
\<close>

definition small_build :: build_state where
  "small_build = \<lparr>bs_eapi = eapi_default, bs_scope = Global, bs_nonfatal = False, bs_use = {},
     bs_iuse_effective = {}, bs_cpv = parsed_cpv ''cat/pkg-2''\<rparr>"

text \<open>C24: a version splits into elements, a separator and a component each, that spell it, are
  of one kind each and as long as they can be; and \<open>ver_cut\<close> with a range below 2^63 neither
  fails nor panics: it returns the components of the range, counted from one, with the separators
  between them, and the leading separator where the range starts at zero.\<close>

theorem ver_cut_elements:
  assumes "parse_range rng (length (version_elements v)) = Inr (start, stop)" "stop < 2 ^ 63"
  shows "ver_cut oc rng v = Some (Inr (cut_elements start stop (version_elements v))) \<and>
    version_split v = Inr (parts_of (version_elements v)) \<and> element_texts (version_elements v) = v \<and>
    list_all proper_element (version_elements v) \<and> successively proper_step (version_elements v)"
  by (simp add: ver_cut_eq [OF assms] version_split_eq elements_text elements_proper elements_steps)

lemma ver_cut_elements_witness:
  "ver_cut True ''2-3'' ''.1.2b-3'' = Some (Inr ''2b'')"
proof -
  have e: "version_elements ''.1.2b-3'' = [(''.'', ''1''), (''.'', ''2''), ([], ''b''), (''-'', ''3'')]" by code_simp
  have "ver_cut True ''2-3'' ''.1.2b-3'' = Some (Inr (cut_elements 2 3 (version_elements ''.1.2b-3'')))"
    by (rule ver_cut_elements [THEN conjunct1]) (unfold e, code_simp, simp)
  then show ?thesis by (simp add: e cut_elements_def)
qed

text \<open>Beyond that the doubled index wraps to zero: where the program is compiled without
  overflow checks the slice then ends before it starts, and with them the product panics.\<close>

lemma ver_cut_wraps_panics:
  "ver_cut oc ''1-9223372036854775808'' (c # v) = None"
  by (rule ver_cut_wraps) simp

text \<open>\<open>ver_rs\<close> replaces the separators of its ranges, one range after the other, and
  keeps the components; a missing leading separator is not added.\<close>

lemma ver_rs_elements:
  assumes "length args mod 2 = 0" "length (version_elements v) < 2 ^ 63"
    "\<And>rng sep i j. (rng, sep) \<in> set (chunks2 args) \<Longrightarrow> parse_range rng (length (version_elements v)) = Inr (i, j) \<Longrightarrow> i < 2 ^ 63"
  shows "ver_rs oc b (args @ [v]) = Some (case rs_elements (chunks2 args) (version_elements v) of
      Inl e \<Rightarrow> Inl e | Inr es \<Rightarrow> Inr (element_texts es)) \<and>
    (rs_elements (chunks2 args) (version_elements v) = Inr es \<longrightarrow> map snd es = map snd (version_elements v))"
  using assms ver_rs_pairs_eq [OF assms(2,3), where oc = oc] rs_elements_components
  by (auto simp: ver_rs_def version_split_eq mod_Suc split: sum.splits)

text \<open>C25: \<open>best_version\<close> prints the greatest \<open>Cpv\<close> of the repository that the
  dependency matches, if the category of the dependency is one of the repository and ebuilds its
  exact version names are spelled like it.\<close>

theorem best_version_is_greatest:
  assumes "regular_repo r" "index_set (=) sx" "index_set cpv_eq cx"
    and "query_args b args = Inr s" "parse_dep ux (bs_eapi b) s = Inr d"
    and "names_category sx r (restrict_of_dep d)"
      "spelled_like (restrict_of_dep d) (filter (matches_cpv re (restrict_of_dep d)) (iter_cpv re ec sx cx r None))"
    and "best_version re ec ux sx cx b r args = Inr (ExecSuccess, out)"
  shows "\<exists>c. out = cpv_display c \<and> c \<in> set (iter_cpv re ec sx cx r None) \<and> matches_cpv re (restrict_of_dep d) c \<and>
    (\<forall>x \<in> set (iter_cpv re ec sx cx r None). matches_cpv re (restrict_of_dep d) x \<and> x \<noteq> c \<longrightarrow> cpv_cmp x c = Less)"
  by (rule best_version_greatest [OF assms])

lemma best_version_is_greatest_witness:
  "\<exists>c. ''cat/pkg-2'' = cpv_display c \<and> c \<in> set (iter_cpv no_regex same_error strings cpvs small_repo None)"
proof -
  have "\<exists>c. ''cat/pkg-2'' = cpv_display c \<and> c \<in> set (iter_cpv no_regex same_error strings cpvs small_repo None) \<and>
      matches_cpv no_regex (restrict_of_dep (parsed_dep ''cat/pkg'')) c \<and>
      (\<forall>x \<in> set (iter_cpv no_regex same_error strings cpvs small_repo None).
        matches_cpv no_regex (restrict_of_dep (parsed_dep ''cat/pkg'')) x \<and> x \<noteq> c \<longrightarrow> cpv_cmp x c = Less)"
    by (rule best_version_is_greatest [OF small_regular ref_set.index_set_axioms ref_set.index_set_axioms,
          of small_build "[''cat/pkg'']" "''cat/pkg''" "ref_index_set (=)"]) (code_simp | simp)+
  then show ?thesis by blast
qed

text \<open>A query whose dependency has a slot, USE dependencies, a repository or a blocker
  matches nothing, whatever the repository holds: \<open>has_version\<close> fails, since a \<open>Cpv\<close> has
  none of these.\<close>

lemma query_attributes_match_nothing:
  assumes "query_args b args = Inr s" "parse_dep ux (bs_eapi b) s = Inr d"
    and "dep_slot d \<noteq> None \<or> dep_use_deps d \<noteq> None \<or> dep_repo d \<noteq> None \<or> dep_blocker d \<noteq> None"
  shows "has_version re ec ux sx cx b r args = Inr (ExecFailure 1)"
proof -
  have "query_cmd re ec ux sx cx b r args = Inr (iter_cpv_restrict re ec sx cx r (restrict_of_dep d))"
    using assms by (simp add: query_cmd_Inr)
  with query_attributes [OF this assms] show ?thesis by (simp add: has_version_def status_of_def)
qed

end
