(* ===== verification/Text_Lines.thy ===== *)
theory Text_Lines
  imports Dependency_Parse Restrict
begin

text \<open>
  What the grammars return prints on one line: formats that hold a value per line can keep it.
\<close>

definition line_char :: "char \<Rightarrow> bool" where
  "line_char c \<longleftrightarrow> c \<noteq> CHR 0x0A \<and> c \<noteq> CHR 0x0D"

abbreviation one_line :: "string \<Rightarrow> bool" where
  "one_line \<equiv> list_all line_char"

lemma one_line_join [simp]: "one_line sep \<Longrightarrow> list_all one_line ss \<Longrightarrow> one_line (join_with sep ss)"
  by (induction ss) (auto simp: join_with_Cons list_all_append)

lemma one_line_concat [simp]: "list_all one_line ss \<Longrightarrow> one_line (concat ss)"
  by (induction ss) (auto simp: list_all_append)

lemma list_all_map_mono: "list_all Q xs \<Longrightarrow> (\<And>x. x \<in> set xs \<Longrightarrow> Q x \<Longrightarrow> R (f x)) \<Longrightarrow> list_all R (map f xs)"
  by (auto simp: list_all_iff)

lemma line_lits [simp]:
  "line_char (CHR '' '')" "line_char (CHR ''!'')" "line_char (CHR ''('')" "line_char (CHR '')'')" "line_char (CHR ''|'')"
  "line_char (CHR ''^'')" "line_char (CHR ''?'')" "line_char (CHR ''/'')" "line_char (CHR ''-'')" "line_char (CHR '':'')"
  "line_char (CHR ''<'')" "line_char (CHR ''>'')" "line_char (CHR ''='')" "line_char (CHR ''~'')" "line_char (CHR ''*'')"
  "line_char (CHR ''['')" "line_char (CHR '']'')" "line_char (CHR '','')" "line_char (CHR ''_'')" "line_char (CHR ''.'')"
  "line_char (CHR ''r'')" "line_char (CHR ''+'')" "line_char (CHR ''@'')" "line_char (CHR 0x09)"
  by (simp_all add: line_char_def)

lemma line_classes:
  "is_lower c \<Longrightarrow> line_char c" "is_upper c \<Longrightarrow> line_char c" "is_digit c \<Longrightarrow> line_char c"
  by (auto simp: line_char_def char_classes)

lemma line_names: "word_char c \<Longrightarrow> line_char c" "name_char c \<Longrightarrow> line_char c" "package_char c \<Longrightarrow> line_char c"
    "flag_first c \<Longrightarrow> line_char c" "flag_char c \<Longrightarrow> line_char c"
  by (auto simp: word_char_def name_char_def package_char_def flag_first_def flag_char_def line_classes)

lemma line_space: "\<not> is_whitespace c \<Longrightarrow> line_char c"
  by (auto simp: line_char_def is_whitespace_def)

lemma one_line_word: "is_word w \<Longrightarrow> one_line w"
  by (auto simp: is_word_def list_all_iff line_space)

lemma one_line_name: "is_name word_char name_char s \<Longrightarrow> one_line s" "is_name flag_first flag_char s \<Longrightarrow> one_line s"
  by (cases s; auto simp: is_name_def list_all_iff line_names)+

lemma one_line_steps: "(\<And>w c. st w c \<Longrightarrow> line_char c) \<Longrightarrow> step_body st r u \<Longrightarrow> one_line u"
  by (induction u) auto

lemma one_line_package: "package_body r u \<Longrightarrow> one_line u" "step_body repo_step r u \<Longrightarrow> one_line u"
  by (rule one_line_steps [of package_step r], auto simp: package_step_def line_names)
    (rule one_line_steps [of repo_step r], auto simp: repo_step_def line_names)

section \<open>Versions\<close>

lemma one_line_number: "wf_number n \<Longrightarrow> one_line (number_display n)"
  by (auto simp: wf_number_def number_display_def list_all_iff line_classes)

lemma one_line_suffix: "wf_suffix s \<Longrightarrow> one_line (suffix_text s)"
  using one_line_number by (cases "sfx_kind s")
    (auto simp: suffix_text_def suffix_display_def wf_suffix_def list_all_append line_char_def split: option.splits)

lemma one_line_revision: "wf_revision r \<Longrightarrow> one_line (revision_text r)"
  using one_line_number by (auto simp: revision_text_def revision_display_def wf_revision_def
    list_all_append revision_is_empty_def revision_default_def number_is_empty_def number_default_def)

lemma one_line_version:
  assumes "wf_version v"
  shows "one_line (version_without_op v)"
proof -
  have "one_line (letter_text (ver_letter v))"
    using assms by (auto simp: letter_text_def wf_version_def line_classes split: option.splits)
  moreover have "list_all one_line (map number_display (ver_numbers v))" "list_all one_line (map suffix_text (ver_suffixes v))"
    using assms by (auto simp: wf_version_def intro: list_all_map_mono one_line_number one_line_suffix)
  ultimately show ?thesis
    using assms one_line_revision unfolding version_without_op_text by (simp add: list_all_append wf_version_def)
qed

section \<open>Dependencies\<close>

lemma one_line_cpn: "valid_cpn a \<Longrightarrow> one_line (cpn_display a)"
  by (auto simp: valid_cpn_def valid_category_def valid_package_def cpn_display_def list_all_append one_line_name
    line_names one_line_package split: list.splits)

lemma one_line_slot: "valid_slot s \<Longrightarrow> one_line (slot_name s)"
  by (auto simp: valid_slot_def valid_slot_name_def list_all_append one_line_name dest!: split_once_Some
      split: option.splits)

lemma one_line_slot_dep: "valid_slot_dep s \<Longrightarrow> one_line (slot_dep_display s)"
proof (cases s)
  case (SlotDepOp op)
  then show ?thesis by (cases op) simp_all
next
  case (SlotDepSlotOp t op)
  then show "valid_slot_dep s \<Longrightarrow> ?thesis" using one_line_slot by (cases op) (auto simp: list_all_append)
qed (auto simp: one_line_slot)

lemma one_line_use_dep: "is_name flag_first flag_char (ud_flag u) \<Longrightarrow> one_line (use_dep_display u)"
  using one_line_name(2) [of "ud_flag u"]
  by (auto simp: use_dep_display_def Let_def list_all_append split: use_dep_kind.splits option.splits bool.splits)

lemma one_line_repo: "valid_repo x \<Longrightarrow> one_line x"
  by (auto simp: valid_repo_def line_names one_line_package split: list.splits)

lemma one_line_dep:
  assumes "valid_dep e d"
  shows "one_line (dep_text d)"
proof -
  have "one_line (pkg_text d)"
    using assms one_line_cpn one_line_version
    by (auto simp: valid_dep_def valid_pkg_def pkg_text_def op_text_def op_version_def list_all_append
      split: option.splits operator.splits)
  moreover have "one_line (opt_text blocker_display (dep_blocker d))"
    by (cases "dep_blocker d"; cases "the (dep_blocker d)") simp_all
  moreover have "one_line (opt_text slot_text (dep_slot_dep d))" "one_line (opt_text repo_text (dep_repo d))"
    using assms one_line_slot_dep one_line_repo
    by (cases "dep_slot_dep d"; cases "dep_repo d"; simp add: valid_dep_def)+
  moreover have "one_line (opt_text uses_text (dep_use_deps d))"
    using assms
    by (cases "dep_use_deps d") (auto simp: valid_dep_def valid_use_dep_def list_all_append
      intro!: one_line_join list_all_map_mono intro: one_line_use_dep)
  ultimately show ?thesis by (simp add: dep_text_def list_all_append)
qed

section \<open>Expressions\<close>

lemma one_line_expr:
  assumes L: "\<And>d. L d \<Longrightarrow> one_line (dependency_display f d)"
  shows "valid_expr eq K L d \<Longrightarrow> one_line (dependency_display f d)"
proof (induction d)
  case (Conditional u vs)
  then have "one_line (use_dep_display u)" using one_line_use_dep by (simp add: valid_condition_def)
  with Conditional show ?case by (auto simp: list_all_append intro!: one_line_join list_all_map_mono)
next
  case (Enabled x)
  then show ?case using L [of "Enabled x"] by simp
next
  case (Disabled x)
  then show ?case using L [of "Disabled x"] by simp
qed (use L in \<open>auto simp: list_all_append intro!: one_line_join list_all_map_mono\<close>)

lemma one_line_set:
  assumes "\<And>d. L d \<Longrightarrow> one_line (dependency_display f d)" "valid_set eq K L vs"
  shows "one_line (dependency_set_display f vs)"
  using assms(2) one_line_expr [of L f eq K] assms(1)
  by (auto simp: dependency_set_display_def valid_set_def intro!: one_line_join list_all_map_mono)

lemma display_cong:
  "\<forall>v \<in> set (flat d). f v = g v \<Longrightarrow> dependency_display f d = dependency_display g d"
proof (induction d)
  case (AllOf ds)
  then have "map (dependency_display f) ds = map (dependency_display g) ds" by (auto intro!: map_cong)
  then show ?case by (simp only: dependency_display.simps)
next
  case (AnyOf ds)
  then have "map (dependency_display f) ds = map (dependency_display g) ds" by (auto intro!: map_cong)
  then show ?case by (simp only: dependency_display.simps)
next
  case (ExactlyOneOf ds)
  then have "map (dependency_display f) ds = map (dependency_display g) ds" by (auto intro!: map_cong)
  then show ?case by (simp only: dependency_display.simps)
next
  case (AtMostOneOf ds)
  then have "map (dependency_display f) ds = map (dependency_display g) ds" by (auto intro!: map_cong)
  then show ?case by (simp only: dependency_display.simps)
next
  case (Conditional u ds)
  then have "map (dependency_display f) ds = map (dependency_display g) ds" by (auto intro!: map_cong)
  then show ?case by (simp only: dependency_display.simps)
qed simp_all

lemma set_display_cong:
  "(\<And>v. v \<in> set (flats vs) \<Longrightarrow> f v = g v) \<Longrightarrow> dependency_set_display f vs = dependency_set_display g vs"
  unfolding dependency_set_display_def
  by (intro arg_cong [where f = "join_with '' ''"] map_cong refl display_cong) auto

section \<open>Sets that parse\<close>

text \<open>A set that parses prints on one line, which parses as the same set.\<close>

lemma parsed_package_set:
  assumes "dependency_sets wf_dep dep_cmp ix" "index_set (=) ux" "parse_package_dependency_set ux ix s e = Inr ds"
  shows "parse_package_dependency_set ux ix (dependency_set_display dep_to_string ds) e = Inr ds"
    and "one_line (dependency_set_display dep_to_string ds)"
proof -
  note g = package_grammar [OF assms(1,2), of e]
  have valid: "valid_set (dependency_eq dep_cmp) (set [GConditional, GAnyOf, GAllOf]) (valid_package_value e) ds"
    using dependency_grammar.set_valid [OF g, of "[GConditional, GAnyOf, GAllOf]"] assms(3) unfolding parse_package_dependency_set_def p_package_dependency_def
    by (simp del: list.set)
  have eq: "dependency_set_display dep_to_string ds = dependency_set_display dep_text ds"
    using valid_flats [OF valid]
    by (intro set_display_cong) (fastforce simp: valid_package_value_def valid_dep_def dep_display_text dep_to_string_def)
  show "parse_package_dependency_set ux ix (dependency_set_display dep_to_string ds) e = Inr ds"
    using dependency_grammar.set_reads [OF g valid] unfolding parse_package_dependency_set_def p_package_dependency_def eq
    by (simp del: list.set)
  show "one_line (dependency_set_display dep_to_string ds)"
    unfolding eq by (rule one_line_set [OF _ valid]) (auto simp: valid_package_value_def one_line_dep)
qed

lemma one_line_license: "valid_license d \<Longrightarrow> one_line (dependency_display (\<lambda>x. x) d)"
  by (auto simp: valid_license_def one_line_name)

lemma one_line_required: "valid_required d \<Longrightarrow> one_line (dependency_display (\<lambda>x. x) d)"
  by (auto simp: valid_required_def one_line_name)

lemma parsed_license_set:
  assumes ix: "dependency_sets (\<lambda>_. True) cmp_str ix" and "parse_license_dependency_set ix s = Inr ds"
  shows "parse_license_dependency_set ix (dependency_set_display (\<lambda>x. x) ds) = Inr ds \<and>
    one_line (dependency_set_display (\<lambda>x. x) ds)"
proof -
  note g = license_grammar [OF ix]
  have valid: "valid_set (dependency_eq cmp_str) (set [GConditional, GAnyOf, GAllOf]) valid_license ds"
    using dependency_grammar.set_valid [OF g, of "[GConditional, GAnyOf, GAllOf]"] assms(2)
    unfolding parse_license_dependency_set_def p_license_dependency_def by (simp del: list.set)
  then show ?thesis
    using dependency_grammar.set_reads [OF g valid] one_line_set [OF one_line_license valid]
    unfolding parse_license_dependency_set_def p_license_dependency_def by (simp del: list.set)
qed

lemma parsed_properties_set:
  assumes ix: "dependency_sets (\<lambda>_. True) cmp_str ix" and "parse_properties_dependency_set ix s = Inr ds"
  shows "parse_properties_dependency_set ix (dependency_set_display (\<lambda>x. x) ds) = Inr ds \<and>
    one_line (dependency_set_display (\<lambda>x. x) ds)"
proof -
  note g = license_grammar [OF ix]
  have valid: "valid_set (dependency_eq cmp_str) (set [GConditional, GAllOf]) valid_license ds"
    using dependency_grammar.set_valid [OF g, of "[GConditional, GAllOf]"] assms(2)
    unfolding parse_properties_dependency_set_def p_properties_dependency_def by (simp del: list.set)
  then show ?thesis
    using dependency_grammar.set_reads [OF g valid] one_line_set [OF one_line_license valid]
    unfolding parse_properties_dependency_set_def p_properties_dependency_def by (simp del: list.set)
qed

lemma parsed_restrict_set:
  assumes ix: "dependency_sets (\<lambda>_. True) cmp_str ix" and "parse_restrict_dependency_set ix s = Inr ds"
  shows "parse_restrict_dependency_set ix (dependency_set_display (\<lambda>x. x) ds) = Inr ds \<and>
    one_line (dependency_set_display (\<lambda>x. x) ds)"
  using parsed_properties_set [OF ix, of s ds] assms(2)
  unfolding parse_restrict_dependency_set_def parse_properties_dependency_set_def
    p_restrict_dependency_def p_properties_dependency_def by simp

lemma parsed_required_use_set:
  assumes ix: "dependency_sets (\<lambda>_. True) cmp_str ix" and "parse_required_use_dependency_set ix s = Inr ds"
  shows "parse_required_use_dependency_set ix (dependency_set_display (\<lambda>x. x) ds) = Inr ds \<and>
    one_line (dependency_set_display (\<lambda>x. x) ds)"
proof -
  note g = required_use_grammar [OF ix]
  have valid: "valid_set (dependency_eq cmp_str)
      (set [GConditional, GAnyOf, GAllOf, GExactlyOneOf, GAtMostOneOf]) valid_required ds"
    using dependency_grammar.set_valid [OF g, of "[GConditional, GAnyOf, GAllOf, GExactlyOneOf, GAtMostOneOf]"] assms(2)
    unfolding parse_required_use_dependency_set_def p_required_use_dependency_def by (simp del: list.set)
  then show ?thesis
    using dependency_grammar.set_reads [OF g valid] one_line_set [OF one_line_required valid]
    unfolding parse_required_use_dependency_set_def p_required_use_dependency_def by (simp del: list.set)
qed

text \<open>The empty text is the empty set.\<close>

lemma p_sep0_empty: "p [] = None \<Longrightarrow> p_sep0 p sep [] = Some ([], [])"
  by (simp add: p_sep0_def p_sep1_def p_bind_def p_alt_def p_return_def)

lemma empty_set: "p [] = None \<Longrightarrow> p_run (p_dependency_set ix p) [] = Some []"
  by (simp add: p_dependency_set_def p_map_def p_bind_def p_return_def p_sep0_empty is_collect_def)

lemma group_empty: "p_group ix k p [] = None"
  by (rule p_group_None) simp

lemma dependency_empty: "leaf [] = None \<Longrightarrow> p_dependency ix kinds leaf [] = None"
  by (simp add: p_dependency_def p_first_append p_first_None group_empty)

lemma p_nonblanks_empty: "p_nonblanks [] = None"
  using p_plus_class [of "\<lambda>c. \<not> is_blank c" "[]"] by (simp add: p_nonblanks_def)

lemma p_dep_empty: "p_dep ux e [] = None"
  by (rule p_dep_None) simp_all

lemma parsed_empty:
  "parse_package_dependency_set ux dx [] e = Inr []" "parse_license_dependency_set ix [] = Inr []"
  "parse_properties_dependency_set ix [] = Inr []" "parse_restrict_dependency_set ix [] = Inr []"
  "parse_required_use_dependency_set ix [] = Inr []" "parse_src_uri_dependency_set vx [] = Inr []"
  by (simp_all only: parse_package_dependency_set_def parse_license_dependency_set_def parse_properties_dependency_set_def
      parse_restrict_dependency_set_def parse_required_use_dependency_set_def parse_src_uri_dependency_set_def
      peg_result_Inr p_package_dependency_def p_license_dependency_def p_properties_dependency_def
      p_restrict_dependency_def p_required_use_dependency_def p_src_uri_dependency_def)
    (rule empty_set dependency_empty; simp add: p_map_def p_bind_def p_license_name_def p_use_flag_def p_name_eq p_dep_empty
      p_alt_def p_then_def p_lit_hd p_uri_def p_nonblanks_empty p_plus_def p_slice_def p_not_def)+

end
