(* ===== verification/Src_Uri.thy ===== *)
theory Src_Uri
  imports Text_Lines
begin

text \<open>
  The rule of \<open>SRC_URI\<close>. Its values are any text without blanks, so that what is meant as a
  group may be read as a URI (\<open>u? ( a\<close> is three of them) and a set of such URIs need not read
  back. A set of plain URIs does: they begin with a letter, a digit or an underscore and do not end
  in a question mark, so that neither a group nor the arrow of a rename is taken for one.
\<close>

definition plain_uri :: "uri \<Rightarrow> bool" where
  "plain_uri u \<longleftrightarrow> is_word (uri_uri u) \<and> word_char (hd (uri_uri u)) \<and> last (uri_uri u) \<noteq> CHR ''?'' \<and>
     (case uri_rename u of None \<Rightarrow> True | Some v \<Rightarrow> is_word v)"

abbreviation plain_uris :: "uri dependency list \<Rightarrow> bool" where
  "plain_uris ds \<equiv> list_all plain_uri (flats ds)"

definition any_uri :: "uri dependency \<Rightarrow> bool" where
  "any_uri d \<longleftrightarrow> (\<exists>u. d = Enabled u)"

definition valid_uri :: "uri dependency \<Rightarrow> bool" where
  "valid_uri d \<longleftrightarrow> (\<exists>u. d = Enabled u \<and> plain_uri u)"

text \<open>What may follow a URI: no rename.\<close>

definition uri_end :: "string \<Rightarrow> bool" where
  "uri_end t \<longleftrightarrow> dep_end t \<and> \<not> starts_with (dropWhile is_blank t) ''->''"

section \<open>Reading a URI\<close>

lemma blank_whitespace: "is_blank c \<Longrightarrow> is_whitespace c"
  by (auto simp: is_blank_def is_whitespace_def)

lemma word_not_blanks: "is_word w \<Longrightarrow> w \<noteq> [] \<and> (\<forall>c \<in> set w. \<not> is_blank c)"
  using blank_whitespace by (auto simp: is_word_def list_all_iff)

lemma word_spans:
  assumes "\<forall>c \<in> set w. \<not> is_blank c" "dep_end t"
  shows "takeWhile (\<lambda>c. \<not> is_blank c) (w @ t) = w" and "dropWhile (\<lambda>c. \<not> is_blank c) (w @ t) = t"
proof -
  have "takeWhile (\<lambda>c. \<not> is_blank c) t = []" "dropWhile (\<lambda>c. \<not> is_blank c) t = t"
    using assms(2) by (cases t; simp add: dep_end_def)+
  then show "takeWhile (\<lambda>c. \<not> is_blank c) (w @ t) = w" "dropWhile (\<lambda>c. \<not> is_blank c) (w @ t) = t"
    using assms(1) by simp_all
qed

lemma plus_class: "s \<noteq> [] \<Longrightarrow> C (hd s) \<Longrightarrow> p_plus (p_class C) s = Some (takeWhile C s, dropWhile C s)"
  by (cases s) (simp_all add: p_plus_def p_bind_def p_many_def p_return_def p_star_class p_class_def)

lemma nonblanks_reads: "is_word w \<Longrightarrow> dep_end t \<Longrightarrow> p_nonblanks (w @ t) = Some (w, t)"
  using plus_class [of "w @ t" "\<lambda>c. \<not> is_blank c"] word_not_blanks [of w] word_spans [of w t]
  by (simp add: p_nonblanks_def hd_append)

lemma nonblanks_end: "dep_end t \<Longrightarrow> p_nonblanks t = None"
  using p_plus_class [of "\<lambda>c. \<not> is_blank c" t] by (auto simp: p_nonblanks_def dep_end_def)

lemma slice_nonblanks: "is_word w \<Longrightarrow> dep_end t \<Longrightarrow> p_slice (p_plus p_nonblanks) (w @ t) = Some (w, t)"
  using nonblanks_reads [of w t] nonblanks_end [of t] p_star.simps [of p_nonblanks t]
  by (simp add: p_slice_def p_plus_def p_bind_def p_many_def p_return_def)

lemma rest_nonblanks [rest_intros]: "suffix_rest p_nonblanks" "progress p_nonblanks"
  unfolding p_nonblanks_def by (intro progress_suffix_rest progress_plus rest_class)+

lemma rest_uri: "suffix_rest p_uri"
  unfolding p_uri_def
  by (intro rest_bind rest_slice rest_then rest_not rest_opt rest_lit rest_return suffix_blanks
    progress_suffix_rest progress_plus rest_nonblanks)

lemma trim_id: "is_word w \<Longrightarrow> trim w = w"
proof -
  have id: "list_all (\<lambda>c. \<not> is_whitespace c) v \<Longrightarrow> dropWhile is_whitespace v = v" for v
    by (cases v) simp_all
  show "is_word w \<Longrightarrow> trim w = w"
    using id [of w] id [of "rev w"] by (simp add: is_word_def trim_def trim_start_def trim_end_def)
qed

lemma no_rename:
  assumes "uri_end t"
  shows "p_then p_blanks (p_then (p_lit ''->'') q) t = None"
proof (cases "t = []")
  case True
  then show ?thesis using p_plus_class [of is_blank "[]"] by (simp add: p_then_def p_bind_def p_blanks_def)
next
  case False
  then have "p_blanks t = Some (takeWhile is_blank t, dropWhile is_blank t)"
    using assms plus_class [of t is_blank] by (simp add: uri_end_def dep_end_def p_blanks_def)
  then show ?thesis using assms by (simp add: p_then_def p_bind_def p_lit_def uri_end_def)
qed

lemma uri_text_reads:
  assumes "is_word w" "hd w \<noteq> CHR '')''" "dep_end t"
  shows "p_slice (p_then (p_not (p_lit '')'')) (p_plus p_nonblanks)) (w @ t) = Some (w, t)"
proof -
  have "p_lit '')'' (w @ t) = None" using assms(2) word_not_blanks [OF assms(1)] by (intro p_lit_hd) simp_all
  then show ?thesis
    using slice_nonblanks [OF assms(1,3)] by (simp add: p_slice_def p_then_def p_bind_def p_not_def split: option.splits)
qed

lemma one_blank_reads: "is_word w \<Longrightarrow> p_blanks (CHR '' '' # w @ t) = Some ('' '', w @ t)"
  using plus_class [of "CHR '' '' # w @ t" is_blank] word_not_blanks [of w]
  by (cases w) (simp_all add: p_blanks_def is_blank_def)

lemma uri_reads:
  assumes "plain_uri u" "uri_end t"
  shows "p_uri (uri_display u @ t) = Some (u, t)"
proof -
  have w: "is_word (uri_uri u)" "hd (uri_uri u) \<noteq> CHR '')''" "trim (uri_uri u) = uri_uri u" and t: "dep_end t"
    using assms trim_id by (auto simp: plain_uri_def uri_end_def word_char_def char_classes)
  show ?thesis
  proof (cases "uri_rename u")
    case None
    let ?rename = "p_then p_blanks (p_slice (p_plus p_nonblanks))"
    show ?thesis
      using uri_text_reads [OF w(1,2) t] no_rename [OF assms(2), of ?rename] None w(3)
      by (cases u) (simp add: p_uri_def p_bind_def uri_display_def p_opt_def p_return_def uri_new_def)
  next
    case (Some v)
    then have v: "is_word v" using assms(1) by (simp add: plain_uri_def)
    let ?t = "'' -> '' @ v @ t"
    have "dep_end ?t" by (simp add: dep_end_def is_blank_def)
    note uri = uri_text_reads [OF w(1,2) this]
    have "is_word ''->''" by code_simp
    then have "p_blanks ?t = Some ('' '', ''->'' @ '' '' @ v @ t)" using one_blank_reads [of "''->''" "'' '' @ v @ t"] by simp
    moreover have "p_lit ''->'' (''->'' @ '' '' @ v @ t) = Some (''->'', '' '' @ v @ t)" by (rule p_lit_append)
    moreover have "p_blanks ('' '' @ v @ t) = Some ('' '', v @ t)" using one_blank_reads [OF v] by simp
    ultimately have "p_then p_blanks (p_then (p_lit ''->'') (p_then p_blanks (p_slice (p_plus p_nonblanks)))) ?t = Some (v, t)"
      using slice_nonblanks [OF v t] by (simp only: p_then_def p_bind_def option.case prod.case)
    then show ?thesis
      using uri Some w(3) by (cases u) (simp add: p_uri_def p_bind_def uri_display_def p_opt_def p_return_def uri_new_def)
  qed
qed

lemma conditional_parts:
  assumes "p_conditional ix p s \<noteq> None" "p_lit ''!'' s = None"
  shows "\<exists>f r x r'. p_use_flag s = Some (f, r) \<and> p_lit ''?'' r = Some (x, r') \<and> p_blanks r' \<noteq> None"
proof (cases "p_use_flag s")
  case (Some z)
  show ?thesis
  proof (cases "p_lit ''?'' (snd z)")
    case (Some y)
    then show ?thesis
      using assms \<open>p_use_flag s = Some z\<close>
      by (cases y; cases z; cases "p_blanks (snd y)") (simp_all add: p_conditional_def p_then_def p_bind_def p_opt_def)
  qed (use assms Some in \<open>cases z; simp add: p_conditional_def p_then_def p_bind_def p_opt_def\<close>)
qed (use assms in \<open>simp add: p_conditional_def p_bind_def p_opt_def\<close>)

text \<open>A plain URI is not taken for the condition of a group: no blank follows its question marks.\<close>

lemma uri_apart:
  assumes "plain_uri u" "dep_end t"
  shows "p_conditional ix p (uri_uri u @ t) = None"
proof (rule ccontr)
  let ?w = "uri_uri u"
  have w: "is_word ?w" "word_char (hd ?w)" "last ?w \<noteq> CHR ''?''" using assms(1) by (simp_all add: plain_uri_def)
  note word = word_not_blanks [OF w(1)]
  have "hd ?w \<noteq> CHR ''!''" using w(2) by (auto simp: word_char_def char_classes)
  then have "p_lit ''!'' (?w @ t) = None" using word by (intro p_lit_hd) simp_all
  moreover assume "p_conditional ix p (?w @ t) \<noteq> None"
  ultimately obtain f r x r' where f: "p_use_flag (?w @ t) = Some (f, r)" "p_lit ''?'' r = Some (x, r')" "p_blanks r' \<noteq> None"
    using conditional_parts by blast
  then have flag: "is_name flag_first flag_char f" "?w @ t = (f @ ''?'') @ r'"
    using printsD [OF p_name_prints, of flag_first flag_char "?w @ t" f r] by (simp_all add: p_use_flag_def p_lit_Some)
  have "\<forall>c \<in> set (f @ ''?''). \<not> is_blank c"
    using flag(1) by (cases f) (auto simp: is_name_def list_all_iff flag_first_def flag_char_def char_classes)
  moreover have "dep_end r'" using f(3) p_plus_class [of is_blank r'] by (auto simp: p_blanks_def dep_end_def)
  ultimately have "f @ ''?'' = takeWhile (\<lambda>c. \<not> is_blank c) (?w @ t)" using word_spans(1) flag(2) by metis
  also have "\<dots> = ?w" using word_spans(1) word assms(2) by blast
  finally have "?w = f @ ''?''" by simp
  then show False using w(3) by simp
qed

section \<open>Sets of URIs\<close>

lemma uri_leaf: "dependency_sets (\<lambda>_. True) uri_cmp ix \<Longrightarrow> any = any_uri \<or> any = valid_uri \<Longrightarrow>
    dependency_leaf (\<lambda>_. True) uri_cmp ix (p_map Enabled p_uri) any"
  by (rule dependency_leaf.intro, assumption, rule dependency_leaf_axioms.intro)
    (auto intro: rest_map rest_uri simp: any_uri_def valid_uri_def)

lemma uri_rule:
  assumes "dependency_sets (\<lambda>_. True) uri_cmp ix"
  shows "dependency_rule (\<lambda>_. True) uri_cmp ix (p_map Enabled p_uri) any_uri"
proof (rule dependency_rule.intro [OF uri_leaf [OF assms]], simp, rule dependency_rule_axioms.intro)
  fix s d r assume "p_map Enabled p_uri s = Some (d, r)"
  from p_map_SomeD [OF this] show "any_uri d" by (auto simp: any_uri_def)
qed

lemma uri_display_split: "\<exists>v. uri_display u = uri_uri u @ v \<and> (uri_end t \<longrightarrow> dep_end (v @ t))"
  by (auto simp: uri_display_def uri_end_def dep_end_def is_blank_def split: option.splits)

lemma plain_start: "plain_uri u \<Longrightarrow> \<exists>c w. uri_display u = c # w \<and> word_char c"
  using word_not_blanks [of "uri_uri u"] by (cases "uri_uri u") (auto simp: plain_uri_def uri_display_def)

lemma arrow_hd: "s \<noteq> [] \<Longrightarrow> \<not> is_blank (hd s) \<Longrightarrow> hd s \<noteq> CHR ''-'' \<Longrightarrow> uri_end ('' '' @ s)"
  by (cases s) (auto simp: uri_end_def dep_end_def is_blank_def starts_with_def)

lemma uri_reader:
  assumes "dependency_sets (\<lambda>_. True) uri_cmp ix"
  shows "dependency_reader (\<lambda>_. True) uri_cmp ix (p_map Enabled p_uri) valid_uri uri_display uri_end"
proof (rule dependency_reader.intro [OF uri_leaf [OF assms]], simp, rule dependency_reader_axioms.intro)
  fix d t assume "valid_uri d" and t: "uri_end t"
  then obtain u where u: "d = Enabled u" "plain_uri u" by (auto simp: valid_uri_def)
  show "p_map Enabled p_uri (dependency_display uri_display d @ t) = Some (d, t)"
    using uri_reads [OF u(2) t] u(1) by (simp add: p_map_def p_bind_def p_return_def)
  show "p_conditional ix p (dependency_display uri_display d @ t) = None" for p
    using uri_display_split [of u t] t u uri_apart [OF u(2)] by auto
next
  fix d assume "valid_uri d"
  then obtain u c w where u: "d = Enabled u" "uri_display u = c # w" "word_char c"
    using plain_start by (fastforce simp: valid_uri_def)
  show "dependency_display uri_display d \<noteq> [] \<and> \<not> is_blank (hd (dependency_display uri_display d)) \<and>
      hd (dependency_display uri_display d) \<notin> {CHR ''('', CHR ''|'', CHR ''^'', CHR ''?''}"
    using u word_not_blank [OF u(3)] by auto
  show "uri_end ('' '' @ dependency_display uri_display d @ t)" for t
    using u word_not_blank [OF u(3)] by (intro arrow_hd) (auto simp: word_char_def char_classes)
next
  fix s
  show "p_map Enabled p_uri (CHR '')'' # s) = None" "p_map Enabled p_uri [] = None"
    by (simp_all add: p_map_def p_bind_def p_uri_def p_slice_def p_then_def p_not_def p_lit_Cons p_lit_hd p_plus_def nonblanks_end dep_end_def)
next
  fix k s assume "starts k (hd s)" "s \<noteq> []"
  then show "uri_end ('' '' @ s)"
    by (intro arrow_hd) (cases k; auto simp: flag_first_def char_classes)+
qed (auto simp: uri_end_def dep_end_def is_blank_def starts_with_def)

interpretation src_uri_rule: dependency_rule "\<lambda>_. True" uri_cmp "ref_index_set (dependency_eq uri_cmp)"
    "[GConditional, GAllOf]" "p_map Enabled p_uri" any_uri
  by (rule uri_rule [OF uri_deps.dependency_sets_axioms])

interpretation src_uri_reader: dependency_reader "\<lambda>_. True" uri_cmp "ref_index_set (dependency_eq uri_cmp)"
    "[GConditional, GAllOf]" "p_map Enabled p_uri" valid_uri uri_display uri_end
  by (rule uri_reader [OF uri_deps.dependency_sets_axioms])

lemma plain_set_valid:
  assumes "valid_set eq K any_uri ds" "plain_uris ds"
  shows "valid_set eq K valid_uri ds"
proof -
  have "valid_expr eq K any_uri d \<Longrightarrow> list_all plain_uri (flat d) \<Longrightarrow> valid_expr eq K valid_uri d" for d
    by (induction d) (auto simp: list_all_iff any_uri_def valid_uri_def)
  then show ?thesis using assms by (auto simp: valid_set_def list_all_iff)
qed

lemma one_line_uri: "valid_uri d \<Longrightarrow> one_line (dependency_display uri_display d)"
  using one_line_word by (auto simp: valid_uri_def plain_uri_def uri_display_def list_all_append split: option.splits)

lemma parsed_src_uri_set:
  assumes ix: "dependency_sets (\<lambda>_. True) uri_cmp ix" and "parse_src_uri_dependency_set ix s = Inr ds" "plain_uris ds"
  shows "parse_src_uri_dependency_set ix (dependency_set_display uri_display ds) = Inr ds \<and>
    one_line (dependency_set_display uri_display ds)"
proof -
  have "valid_set (dependency_eq uri_cmp) (set [GConditional, GAllOf]) any_uri ds"
    using dependency_rule.set_valid [OF uri_rule [OF ix], of "[GConditional, GAllOf]"] assms(2)
    unfolding parse_src_uri_dependency_set_def p_src_uri_dependency_def by (simp del: list.set)
  note valid = plain_set_valid [OF this assms(3)]
  show ?thesis
    using dependency_reader.set_reads [OF uri_reader [OF ix] valid] one_line_set [OF one_line_uri valid]
    unfolding parse_src_uri_dependency_set_def p_src_uri_dependency_def by (simp del: list.set)
qed

text \<open>The printed text of a set of other URIs can be another set: a URI that ends up in front of an arrow
  is read as renamed.\<close>

lemma uris_not_read_back:
  "map_sum (\<lambda>_. ()) (dependency_set_display uri_display) (parse_src_uri_dependency_set (ref_index_set (dependency_eq uri_cmp)) ''( a ) x ( a ) -> b'') =
     Inr ''( a ) x -> b'' \<and>
   map_sum (\<lambda>_. ()) (map flat) (parse_src_uri_dependency_set (ref_index_set (dependency_eq uri_cmp)) ''( a ) x ( a ) -> b'') \<noteq>
     map_sum (\<lambda>_. ()) (map flat) (parse_src_uri_dependency_set (ref_index_set (dependency_eq uri_cmp)) ''( a ) x -> b'')"
  by code_simp

end
