(* ===== verification/Pkg_Metadata.thy ===== *)
theory Pkg_Metadata
  imports Dependency_Parse Ebuild_Repo
begin

text \<open>
  The metadata of ebuild packages: keywords (\<open>pkg/ebuild/keyword.rs\<close>), IUSE
  (\<open>pkg/ebuild/iuse.rs\<close>), eclasses (\<open>repo/ebuild/eclass.rs\<close>), the metadata keys and
  fields with their reading from strings (\<open>pkg/ebuild/metadata.rs\<close>), and from the
  environment that sourcing an ebuild leaves (\<open>shell/metadata.rs\<close>). The environment is an
  argument: what bash does with an ebuild is not modelled.
\<close>

section \<open>Keywords\<close>

datatype arch = Arch (arch_name: string)

definition arch_is_prefix :: "arch \<Rightarrow> bool" where
  "arch_is_prefix a \<longleftrightarrow> CHR ''-'' \<in> set (arch_name a)"

definition arch_cmp :: "arch \<Rightarrow> arch \<Rightarrow> ordering" where
  "arch_cmp a b = (case (split_once (CHR ''-'') (arch_name a), split_once (CHR ''-'') (arch_name b)) of
     (None, Some _) \<Rightarrow> Less
   | (Some _, None) \<Rightarrow> Greater
   | (Some (arch1, platform1), Some (arch2, platform2)) \<Rightarrow>
       ord_then (cmp_str platform1 platform2) (cmp_str arch1 arch2)
   | (None, None) \<Rightarrow> cmp_str (arch_name a) (arch_name b))"

datatype keyword_status = KeywordDisabled | KeywordUnstable | KeywordStable

fun keyword_status_index :: "keyword_status \<Rightarrow> nat" where
  "keyword_status_index KeywordDisabled = 0"
| "keyword_status_index KeywordUnstable = 1"
| "keyword_status_index KeywordStable = 2"

record keyword =
  kw_status :: keyword_status
  kw_arch :: arch

definition keyword_cmp :: "keyword \<Rightarrow> keyword \<Rightarrow> ordering" where
  "keyword_cmp k l = ord_then (arch_cmp (kw_arch k) (kw_arch l)) (cmp_by keyword_status_index (kw_status k) (kw_status l))"

definition arch_char :: "char \<Rightarrow> bool" where
  "arch_char c \<longleftrightarrow> word_char c \<or> c = CHR ''-''"

definition p_arch :: "string parser" where
  "p_arch = p_name word_char arch_char"

definition p_keyword :: "keyword parser" where
  "p_keyword =
     p_alt (p_map (\<lambda>a. \<lparr>kw_status = KeywordStable, kw_arch = Arch a\<rparr>) p_arch)
    (p_alt (p_then (p_lit ''~'') (p_map (\<lambda>a. \<lparr>kw_status = KeywordUnstable, kw_arch = Arch a\<rparr>) p_arch))
    (p_alt (p_then (p_lit ''-'') (p_map (\<lambda>a. \<lparr>kw_status = KeywordDisabled, kw_arch = Arch a\<rparr>) p_arch))
       (p_map (\<lambda>_. \<lparr>kw_status = KeywordDisabled, kw_arch = Arch ''*''\<rparr>) (p_lit ''-*''))))"

definition parse_arch :: "string \<Rightarrow> error + arch" where
  "parse_arch s = peg_result ''invalid arch'' s (map_option Arch (p_run p_arch s))"

definition keyword_try_new :: "string \<Rightarrow> error + keyword" where
  "keyword_try_new s = peg_result ''invalid keyword'' s (p_run p_keyword s)"

definition keyword_display :: "keyword \<Rightarrow> string" where
  "keyword_display k = (case kw_status k of
     KeywordStable \<Rightarrow> arch_name (kw_arch k)
   | KeywordUnstable \<Rightarrow> ''~'' @ arch_name (kw_arch k)
   | KeywordDisabled \<Rightarrow> ''-'' @ arch_name (kw_arch k))"

section \<open>IUSE\<close>

record iuse =
  iu_flag :: string
  iu_default :: "bool option"

definition iuse_cmp :: "iuse \<Rightarrow> iuse \<Rightarrow> ordering" where
  "iuse_cmp i j = ord_then (cmp_str (iu_flag i) (iu_flag j)) (cmp_option (cmp_by (\<lambda>b. of_bool b :: nat)) (iu_default i) (iu_default j))"

definition iuse_is_enabled :: "iuse \<Rightarrow> bool" where
  "iuse_is_enabled i = (case iu_default i of None \<Rightarrow> False | Some b \<Rightarrow> b)"

definition iuse_is_disabled :: "iuse \<Rightarrow> bool" where
  "iuse_is_disabled i = (\<not> (case iu_default i of None \<Rightarrow> True | Some b \<Rightarrow> b))"

definition p_iuse :: "iuse parser" where
  "p_iuse =
     p_alt (p_map (\<lambda>f. \<lparr>iu_flag = f, iu_default = None\<rparr>) p_use_flag)
    (p_alt (p_then (p_lit ''+'') (p_map (\<lambda>f. \<lparr>iu_flag = f, iu_default = Some True\<rparr>) p_use_flag))
       (p_then (p_lit ''-'') (p_map (\<lambda>f. \<lparr>iu_flag = f, iu_default = Some False\<rparr>) p_use_flag)))"

definition iuse_try_new :: "string \<Rightarrow> error + iuse" where
  "iuse_try_new s = peg_result ''invalid IUSE'' s (p_run p_iuse s)"

definition iuse_display :: "iuse \<Rightarrow> string" where
  "iuse_display i = (case iu_default i of
     Some True \<Rightarrow> ''+'' @ iu_flag i
   | Some False \<Rightarrow> ''-'' @ iu_flag i
   | None \<Rightarrow> iu_flag i)"

section \<open>Eclasses\<close>

record eclass =
  ec_name :: string
  ec_path :: string
  ec_chksum :: string

definition eclass_eq :: "eclass \<Rightarrow> eclass \<Rightarrow> bool" where
  "eclass_eq a b \<longleftrightarrow> ec_name a = ec_name b"

definition eclass_cmp :: "eclass \<Rightarrow> eclass \<Rightarrow> ordering" where
  "eclass_cmp a b = cmp_str (ec_name a) (ec_name b)"

definition p_eclass_name :: "string parser" where
  "p_eclass_name = p_try (p_name word_char (\<lambda>c. word_char c \<or> c = CHR ''.'' \<or> c = CHR ''-''))
     (\<lambda>s. if s = ''default'' then None else Some s)"

definition parse_eclass_name :: "string \<Rightarrow> error + string" where
  "parse_eclass_name s = peg_result ''invalid eclass name'' s (p_run p_eclass_name s)"

text \<open>The file is read by the caller, \<open>chksum\<close> is the checksum of the cache.\<close>

definition eclass_try_new :: "(string \<Rightarrow> string) \<Rightarrow> string \<Rightarrow> string \<Rightarrow> string option \<Rightarrow> error + eclass" where
  "eclass_try_new chksum dir name data =
     (if extension name = Some ''eclass''
      then (case data of None \<Rightarrow> Inl (IOError ''failed reading eclass'' (path_join dir name))
        | Some d \<Rightarrow> (case parse_eclass_name (file_stem name) of Inl e \<Rightarrow> Inl e
            | Inr n \<Rightarrow> Inr \<lparr>ec_name = n, ec_path = path_join dir name, ec_chksum = chksum d\<rparr>))
      else Inl (InvalidValue ''invalid eclass'' (path_join dir name)))"

section \<open>Keys\<close>

fun key_as_ref :: "key \<Rightarrow> string" where
  "key_as_ref K_BDEPEND = ''BDEPEND''"
| "key_as_ref K_DEFINED_PHASES = ''DEFINED_PHASES''"
| "key_as_ref K_DEPEND = ''DEPEND''"
| "key_as_ref K_DESCRIPTION = ''DESCRIPTION''"
| "key_as_ref K_EAPI = ''EAPI''"
| "key_as_ref K_HOMEPAGE = ''HOMEPAGE''"
| "key_as_ref K_IDEPEND = ''IDEPEND''"
| "key_as_ref K_INHERIT = ''INHERIT''"
| "key_as_ref K_IUSE = ''IUSE''"
| "key_as_ref K_KEYWORDS = ''KEYWORDS''"
| "key_as_ref K_LICENSE = ''LICENSE''"
| "key_as_ref K_PDEPEND = ''PDEPEND''"
| "key_as_ref K_PROPERTIES = ''PROPERTIES''"
| "key_as_ref K_RDEPEND = ''RDEPEND''"
| "key_as_ref K_REQUIRED_USE = ''REQUIRED_USE''"
| "key_as_ref K_RESTRICT = ''RESTRICT''"
| "key_as_ref K_SLOT = ''SLOT''"
| "key_as_ref K_SRC_URI = ''SRC_URI''"
| "key_as_ref K_INHERITED = ''INHERITED''"
| "key_as_ref K_CHKSUM = ''CHKSUM''"

text \<open>\<open>Key::iter\<close>: the keys as they are declared.\<close>

definition all_keys :: "key list" where
  "all_keys = [K_BDEPEND, K_DEFINED_PHASES, K_DEPEND, K_DESCRIPTION, K_EAPI, K_HOMEPAGE, K_IDEPEND,
     K_INHERIT, K_IUSE, K_KEYWORDS, K_LICENSE, K_PDEPEND, K_PROPERTIES, K_RDEPEND, K_REQUIRED_USE,
     K_RESTRICT, K_SLOT, K_SRC_URI, K_INHERITED, K_CHKSUM]"

definition key_cmp :: "key \<Rightarrow> key \<Rightarrow> ordering" where
  "key_cmp k l = cmp_str (key_as_ref k) (key_as_ref l)"

definition key_from_str :: "string \<Rightarrow> key option" where
  "key_from_str s = find (\<lambda>k. key_as_ref k = s) all_keys"

text \<open>The keys of an EAPI in the order in which its sorted set iterates over them.\<close>

definition keys_of :: "key set \<Rightarrow> key list" where
  "keys_of ks = filter (\<lambda>k. k \<in> ks) (sort_cmp key_cmp all_keys)"

section \<open>Metadata\<close>

record metadata =
  md_eapi :: eapi
  md_description :: string
  md_slot :: slot
  md_bdepend :: "dep dependency list"
  md_depend :: "dep dependency list"
  md_idepend :: "dep dependency list"
  md_pdepend :: "dep dependency list"
  md_rdepend :: "dep dependency list"
  md_license :: "string dependency list"
  md_properties :: "string dependency list"
  md_required_use :: "string dependency list"
  md_restrict :: "string dependency list"
  md_src_uri :: "uri dependency list"
  md_homepage :: "string list"
  md_defined_phases :: "phase_kind list"
  md_keywords :: "keyword list"
  md_iuse :: "iuse list"
  md_inherit :: "eclass list"
  md_inherited :: "eclass list"
  md_chksum :: string

definition metadata_default :: metadata where
  "metadata_default = \<lparr>md_eapi = default_eapi, md_description = [], md_slot = slot_default,
     md_bdepend = [], md_depend = [], md_idepend = [], md_pdepend = [], md_rdepend = [],
     md_license = [], md_properties = [], md_required_use = [], md_restrict = [], md_src_uri = [],
     md_homepage = [], md_defined_phases = [], md_keywords = [], md_iuse = [], md_inherit = [],
     md_inherited = [], md_chksum = []\<rparr>"

text \<open>The insertion-ordered sets that metadata holds, and what of the repository it refers to.\<close>

record set_ops =
  so_use_deps :: "use_dep index_set"
  so_deps :: "dep dependency index_set"
  so_strings :: "string dependency index_set"
  so_uris :: "uri dependency index_set"
  so_words :: "string index_set"
  so_phases :: "phase_kind index_set"
  so_keywords :: "keyword index_set"
  so_iuse :: "iuse index_set"
  so_eclasses :: "eclass index_set"

record repo_info =
  ri_eclasses :: "eclass list"
  ri_arches :: "arch list"

definition get_eclass :: "repo_info \<Rightarrow> string \<Rightarrow> error + eclass" where
  "get_eclass ri name = (case find (\<lambda>e. ec_name e = name) (ri_eclasses ri) of
     Some e \<Rightarrow> Inr e | None \<Rightarrow> Inl (InvalidValue ''nonexistent eclass'' name))"

definition get_keyword :: "repo_info \<Rightarrow> string \<Rightarrow> error + keyword" where
  "get_keyword ri s = (case keyword_try_new s of Inl e \<Rightarrow> Inl e
     | Inr k \<Rightarrow> if arch_name (kw_arch k) \<noteq> ''*'' \<and> kw_arch k \<notin> set (ri_arches ri)
         then Inl (InvalidValue ''nonexistent arch'' (arch_name (kw_arch k))) else Inr k)"

definition eapi_phase_named :: "eapi \<Rightarrow> string \<Rightarrow> phase option" where
  "eapi_phase_named e name = Option.bind (find (\<lambda>k. phase_kind_name k = Some name) all_phase_kinds) (eapi_phases e)"

definition get_phase :: "eapi \<Rightarrow> string \<Rightarrow> error + phase_kind" where
  "get_phase e name = (case eapi_phase_named e name of
     Some p \<Rightarrow> Inr (ph_kind p) | None \<Rightarrow> Inl (InvalidValue ''nonexistent phase'' name))"

text \<open>\<open>try_collect\<close> into an ordered set.\<close>

definition collect_set :: "'a index_set \<Rightarrow> (error + 'a) list \<Rightarrow> error + 'a list" where
  "collect_set ix rs = (case collect_results rs of Inl e \<Rightarrow> Inl e | Inr xs \<Rightarrow> Inr (is_collect ix xs))"

text \<open>\<open>Itertools::tuples\<close>: complete pairs.\<close>

fun tuples2 :: "'a list \<Rightarrow> ('a \<times> 'a) list" where
  "tuples2 (x # y # zs) = (x, y) # tuples2 zs"
| "tuples2 _ = []"

definition set_field :: "(error + 'a) \<Rightarrow> ('a \<Rightarrow> metadata) \<Rightarrow> error + metadata" where
  "set_field r f = (case r of Inl e \<Rightarrow> Inl e | Inr x \<Rightarrow> Inr (f x))"

fun deserialize :: "set_ops \<Rightarrow> eapi \<Rightarrow> repo_info \<Rightarrow> key \<Rightarrow> string \<Rightarrow> metadata \<Rightarrow> error + metadata" where
  "deserialize so e ri K_CHKSUM val m = Inr (m\<lparr>md_chksum := val\<rparr>)"
| "deserialize so e ri K_DESCRIPTION val m = Inr (m\<lparr>md_description := val\<rparr>)"
| "deserialize so e ri K_SLOT val m = set_field (parse_slot val) (\<lambda>x. m\<lparr>md_slot := x\<rparr>)"
| "deserialize so e ri K_BDEPEND val m =
     set_field (parse_package_dependency_set (so_use_deps so) (so_deps so) val e) (\<lambda>x. m\<lparr>md_bdepend := x\<rparr>)"
| "deserialize so e ri K_DEPEND val m =
     set_field (parse_package_dependency_set (so_use_deps so) (so_deps so) val e) (\<lambda>x. m\<lparr>md_depend := x\<rparr>)"
| "deserialize so e ri K_IDEPEND val m =
     set_field (parse_package_dependency_set (so_use_deps so) (so_deps so) val e) (\<lambda>x. m\<lparr>md_idepend := x\<rparr>)"
| "deserialize so e ri K_PDEPEND val m =
     set_field (parse_package_dependency_set (so_use_deps so) (so_deps so) val e) (\<lambda>x. m\<lparr>md_pdepend := x\<rparr>)"
| "deserialize so e ri K_RDEPEND val m =
     set_field (parse_package_dependency_set (so_use_deps so) (so_deps so) val e) (\<lambda>x. m\<lparr>md_rdepend := x\<rparr>)"
| "deserialize so e ri K_LICENSE val m =
     set_field (parse_license_dependency_set (so_strings so) val) (\<lambda>x. m\<lparr>md_license := x\<rparr>)"
| "deserialize so e ri K_PROPERTIES val m =
     set_field (parse_properties_dependency_set (so_strings so) val) (\<lambda>x. m\<lparr>md_properties := x\<rparr>)"
| "deserialize so e ri K_REQUIRED_USE val m =
     set_field (parse_required_use_dependency_set (so_strings so) val) (\<lambda>x. m\<lparr>md_required_use := x\<rparr>)"
| "deserialize so e ri K_RESTRICT val m =
     set_field (parse_restrict_dependency_set (so_strings so) val) (\<lambda>x. m\<lparr>md_restrict := x\<rparr>)"
| "deserialize so e ri K_SRC_URI val m =
     set_field (parse_src_uri_dependency_set (so_uris so) val) (\<lambda>x. m\<lparr>md_src_uri := x\<rparr>)"
| "deserialize so e ri K_HOMEPAGE val m =
     Inr (m\<lparr>md_homepage := is_collect (so_words so) (split_whitespace val)\<rparr>)"
| "deserialize so e ri K_DEFINED_PHASES val m =
     (if val \<noteq> ''-'' then set_field (collect_set (so_phases so) (map (get_phase e) (split_whitespace val)))
        (\<lambda>x. m\<lparr>md_defined_phases := x\<rparr>) else Inr m)"
| "deserialize so e ri K_KEYWORDS val m =
     set_field (collect_set (so_keywords so) (map (get_keyword ri) (split_whitespace val))) (\<lambda>x. m\<lparr>md_keywords := x\<rparr>)"
| "deserialize so e ri K_IUSE val m =
     set_field (collect_set (so_iuse so) (map iuse_try_new (split_whitespace val))) (\<lambda>x. m\<lparr>md_iuse := x\<rparr>)"
| "deserialize so e ri K_INHERIT val m =
     set_field (collect_set (so_eclasses so) (map (get_eclass ri) (split_whitespace val))) (\<lambda>x. m\<lparr>md_inherit := x\<rparr>)"
| "deserialize so e ri K_INHERITED val m =
     set_field (collect_set (so_eclasses so) (map (\<lambda>(name, chksum). get_eclass ri name) (tuples2 (split_whitespace val))))
       (\<lambda>x. m\<lparr>md_inherited := x\<rparr>)"
| "deserialize so e ri K_EAPI val m = (case eapi_from_str val of Inl er \<Rightarrow> Inl er
     | Inr sourced \<Rightarrow> if \<not> eapi_eq sourced e then Inl (InvalidValue ''mismatched sourced and parsed EAPIs'' val)
         else Inr (m\<lparr>md_eapi := e\<rparr>))"

section \<open>Metadata from the environment\<close>

record source_env =
  se_incrementals :: "key \<Rightarrow> string list option"
  se_variables :: "key \<Rightarrow> string option"
  se_functions :: "string set"
  se_inherit :: "eclass list"
  se_inherited :: "eclass list"
  se_chksum :: string

definition missing_key :: "key \<Rightarrow> error" where
  "missing_key k = InvalidValue ''missing required value'' (key_as_ref k)"

text \<open>The phases of the EAPI, in the order of their sorted set, that are functions.\<close>

definition phases_defined :: "set_ops \<Rightarrow> eapi \<Rightarrow> string set \<Rightarrow> phase_kind list" where
  "phases_defined so e funs = is_collect (so_phases so)
     (map ph_kind (filter (\<lambda>p. phase_kind_as_ref (ph_kind p) \<in> funs)
       (List.map_filter (eapi_phases e) (sort_cmp phase_kind_cmp all_phase_kinds))))"

definition env_field :: "set_ops \<Rightarrow> eapi \<Rightarrow> repo_info \<Rightarrow> source_env \<Rightarrow> key \<Rightarrow> metadata \<Rightarrow> error + metadata" where
  "env_field so e ri env k m = (case k of
     K_CHKSUM \<Rightarrow> deserialize so e ri k (se_chksum env) m
   | K_DEFINED_PHASES \<Rightarrow> Inr (m\<lparr>md_defined_phases := phases_defined so e (se_functions env)\<rparr>)
   | K_INHERIT \<Rightarrow> Inr (m\<lparr>md_inherit := se_inherit env\<rparr>)
   | K_INHERITED \<Rightarrow> Inr (m\<lparr>md_inherited := se_inherited env\<rparr>)
   | _ \<Rightarrow> (case se_incrementals env k of
        Some ws \<Rightarrow> deserialize so e ri k (join_with '' '' ws) m
      | None \<Rightarrow> (case se_variables env k of
          Some s \<Rightarrow> deserialize so e ri k (join_with '' '' (split_whitespace s)) m
        | None \<Rightarrow> if k \<in> eapi_mandatory_keys e then Inl (missing_key k) else Inr m)))"

fun env_fields :: "set_ops \<Rightarrow> eapi \<Rightarrow> repo_info \<Rightarrow> source_env \<Rightarrow> key list \<Rightarrow> metadata \<Rightarrow> error + metadata" where
  "env_fields so e ri env [] m = Inr m"
| "env_fields so e ri env (k # ks) m = (case env_field so e ri env k m of
     Inl er \<Rightarrow> Inl er | Inr m' \<Rightarrow> env_fields so e ri env ks m')"

definition metadata_from_env :: "set_ops \<Rightarrow> eapi \<Rightarrow> repo_info \<Rightarrow> source_env \<Rightarrow> error + metadata" where
  "metadata_from_env so e ri env = env_fields so e ri env (keys_of (eapi_metadata_keys e)) metadata_default"

end
