(* ===== verification/Md5_Dict.thy ===== *)
theory Md5_Dict
  imports Pkg_Metadata
begin

text \<open>
  The metadata cache in the format md5-dict (\<open>repo/ebuild/cache/md5_dict.rs\<close>): entries, their
  reading and writing, verification, and the conversions from and to metadata. Files are read and
  written by the caller; the checksum function is an argument.
\<close>

section \<open>Keys\<close>

definition md5_key_from_str :: "string \<Rightarrow> error + key" where
  "md5_key_from_str s =
     (if s = ''_eclasses_'' then Inr K_INHERITED
      else if s = ''_md5_'' then Inr K_CHKSUM
      else (case key_from_str s of None \<Rightarrow> Inl (InvalidValue ''invalid md5-dict cache key'' s) | Some k \<Rightarrow> Inr k))"

definition md5_key_display :: "key \<Rightarrow> string" where
  "md5_key_display k = (case k of K_INHERITED \<Rightarrow> ''_eclasses_'' | K_CHKSUM \<Rightarrow> ''_md5_'' | _ \<Rightarrow> key_as_ref k)"

section \<open>Entries\<close>

text \<open>An \<open>IndexMap\<close>: a value that is inserted again keeps its position.\<close>

type_synonym md5_entry = "(key \<times> string) list"

fun map_insert :: "'k \<Rightarrow> 'v \<Rightarrow> ('k \<times> 'v) list \<Rightarrow> ('k \<times> 'v) list" where
  "map_insert k v [] = [(k, v)]"
| "map_insert k v ((k', v') # m) = (if k' = k then (k, v) # m else (k', v') # map_insert k v m)"

definition map_collect :: "('k \<times> 'v) list \<Rightarrow> ('k \<times> 'v) list" where
  "map_collect kvs = foldl (\<lambda>m (k, v). map_insert k v m) [] kvs"

definition entry_to_bytes :: "md5_entry \<Rightarrow> string" where
  "entry_to_bytes entry = concat (map (\<lambda>(k, v). md5_key_display k @ ''='' @ v @ [CHR 0x0A]) entry)"

fun entry_lines :: "string list \<Rightarrow> md5_entry \<Rightarrow> error + md5_entry" where
  "entry_lines [] data = Inr data"
| "entry_lines (line # lines) data = (case split_once (CHR ''='') line of
     None \<Rightarrow> Inl (InvalidValue ''invalid md5-dict cache line'' line)
   | Some (k, v) \<Rightarrow> (case md5_key_from_str k of Inl e \<Rightarrow> Inl e
      | Inr key \<Rightarrow> entry_lines lines (map_insert key v data)))"

definition entry_from_str :: "string \<Rightarrow> error + md5_entry" where
  "entry_from_str s = entry_lines (str_lines s) []"

section \<open>From and to metadata\<close>

text \<open>Every phase has a name.\<close>

definition phase_name :: "phase_kind \<Rightarrow> string" where
  "phase_name k = (case phase_kind_name k of Some n \<Rightarrow> n | None \<Rightarrow> [])"

text \<open>\<open>serialize\<close>, before empty values are left out.\<close>

definition key_text :: "metadata \<Rightarrow> key \<Rightarrow> string" where
  "key_text m k = (case k of
     K_CHKSUM \<Rightarrow> md_chksum m
   | K_DESCRIPTION \<Rightarrow> md_description m
   | K_SLOT \<Rightarrow> slot_name (md_slot m)
   | K_BDEPEND \<Rightarrow> dependency_set_display dep_to_string (md_bdepend m)
   | K_DEPEND \<Rightarrow> dependency_set_display dep_to_string (md_depend m)
   | K_IDEPEND \<Rightarrow> dependency_set_display dep_to_string (md_idepend m)
   | K_PDEPEND \<Rightarrow> dependency_set_display dep_to_string (md_pdepend m)
   | K_RDEPEND \<Rightarrow> dependency_set_display dep_to_string (md_rdepend m)
   | K_LICENSE \<Rightarrow> dependency_set_display (\<lambda>x. x) (md_license m)
   | K_PROPERTIES \<Rightarrow> dependency_set_display (\<lambda>x. x) (md_properties m)
   | K_REQUIRED_USE \<Rightarrow> dependency_set_display (\<lambda>x. x) (md_required_use m)
   | K_RESTRICT \<Rightarrow> dependency_set_display (\<lambda>x. x) (md_restrict m)
   | K_SRC_URI \<Rightarrow> dependency_set_display uri_display (md_src_uri m)
   | K_HOMEPAGE \<Rightarrow> join_with '' '' (md_homepage m)
   | K_DEFINED_PHASES \<Rightarrow>
       (if md_defined_phases m = [] then ''-''
        else join_with '' '' (map phase_name (md_defined_phases m)))
   | K_KEYWORDS \<Rightarrow> join_with '' '' (map keyword_display (md_keywords m))
   | K_IUSE \<Rightarrow> join_with '' '' (map iuse_display (md_iuse m))
   | K_INHERIT \<Rightarrow> join_with '' '' (map ec_name (md_inherit m))
   | K_INHERITED \<Rightarrow> join_with [CHR 0x09] (concat (map (\<lambda>e. [ec_name e, ec_chksum e]) (md_inherited m)))
   | K_EAPI \<Rightarrow> eapi_id (md_eapi m))"

definition serialize :: "metadata \<Rightarrow> key \<Rightarrow> (key \<times> string) option" where
  "serialize m k = (let val = key_text m k in if val = [] then None else Some (k, val))"

definition entry_of :: "metadata \<Rightarrow> md5_entry" where
  "entry_of m = map_collect (List.map_filter (serialize m)
     (filter (\<lambda>k. k \<in> eapi_metadata_keys (md_eapi m)) all_keys))"

fun entry_fields :: "set_ops \<Rightarrow> eapi \<Rightarrow> repo_info \<Rightarrow> md5_entry \<Rightarrow> key list \<Rightarrow> metadata \<Rightarrow> error + metadata" where
  "entry_fields so e ri entry [] m = Inr m"
| "entry_fields so e ri entry (k # ks) m = (case map_of entry k of
     Some val \<Rightarrow> (case deserialize so e ri k val m of Inl er \<Rightarrow> Inl er
       | Inr m' \<Rightarrow> entry_fields so e ri entry ks m')
   | None \<Rightarrow> if k \<in> eapi_mandatory_keys e then Inl (missing_key k) else entry_fields so e ri entry ks m)"

definition to_metadata :: "set_ops \<Rightarrow> eapi \<Rightarrow> repo_info \<Rightarrow> md5_entry \<Rightarrow> error + metadata" where
  "to_metadata so e ri entry = entry_fields so e ri entry (keys_of (eapi_metadata_keys e)) metadata_default"

section \<open>Verification\<close>

fun verify_eclasses :: "repo_info \<Rightarrow> (string \<times> string) list \<Rightarrow> error + unit" where
  "verify_eclasses ri [] = Inr ()"
| "verify_eclasses ri ((name, chksum) # es) = (case find (\<lambda>e. ec_name e = name) (ri_eclasses ri) of
     None \<Rightarrow> Inl (InvalidValue ''nonexistent eclass'' name)
   | Some eclass \<Rightarrow> if ec_chksum eclass \<noteq> chksum then Inl (InvalidValue ''mismatched eclass checksum'' name)
       else verify_eclasses ri es)"

definition entry_verify :: "repo_info \<Rightarrow> string \<Rightarrow> md5_entry \<Rightarrow> error + unit" where
  "entry_verify ri chksum entry = (case map_of entry K_CHKSUM of
     None \<Rightarrow> Inl (InvalidValue ''missing ebuild checksum'' [])
   | Some val \<Rightarrow>
      if val \<noteq> chksum then Inl (InvalidValue ''mismatched ebuild checksum'' [])
      else (case map_of entry K_INHERITED of
         Some val \<Rightarrow> verify_eclasses ri (tuples2 (split_whitespace val))
       | None \<Rightarrow> if map_of entry K_INHERIT \<noteq> None then Inl (InvalidValue ''missing eclass checksum'' []) else Inr ()))"

text \<open>\<open>Md5Dict::get\<close>, with the outcome of reading the file of the entry.\<close>

definition cache_get :: "repo_info \<Rightarrow> string \<Rightarrow> read_result \<Rightarrow> (error + md5_entry) option" where
  "cache_get ri chksum r = (case r of
     ReadOk data \<Rightarrow> Some (case entry_from_str data of Inl e \<Rightarrow> Inl e
       | Inr entry \<Rightarrow> (case entry_verify ri chksum entry of Inl e \<Rightarrow> Inl e | Inr _ \<Rightarrow> Inr entry))
   | ReadNotFound \<Rightarrow> None
   | ReadFailed err \<Rightarrow> Some (Inl (IOError ''failed loading metadata'' err)))"

text \<open>The metadata of the entry of a package.\<close>

definition cached_metadata :: "set_ops \<Rightarrow> eapi \<Rightarrow> repo_info \<Rightarrow> string \<Rightarrow> read_result \<Rightarrow> error + metadata" where
  "cached_metadata so e ri chksum r = (case cache_get ri chksum r of
     Some result \<Rightarrow> (case result of Inl er \<Rightarrow> Inl er | Inr entry \<Rightarrow> to_metadata so e ri entry)
   | None \<Rightarrow> Inl (InvalidValue ''missing metadata entry'' []))"

end
