(* ===== verification/Pkg_Metadata_Laws.thy ===== *)
theory Pkg_Metadata_Laws
  imports Pkg_Metadata Text_Lines
begin

text \<open>
  The laws of package metadata: keywords and IUSE flags are read from exactly what they print as,
  their orders are total, and every field that is read from the environment of an ebuild is the
  only one its key changes.
\<close>

section \<open>Words\<close>

lemma word_not_space: "word_char c \<Longrightarrow> \<not> is_whitespace c" "flag_first c \<Longrightarrow> \<not> is_whitespace c"
    "flag_char c \<Longrightarrow> \<not> is_whitespace c" "arch_char c \<Longrightarrow> \<not> is_whitespace c"
  by (auto simp: word_char_def flag_first_def flag_char_def arch_char_def is_whitespace_def char_classes)

lemma is_word_names: "is_name word_char arch_char s \<Longrightarrow> is_word s" "is_name flag_first flag_char s \<Longrightarrow> is_word s"
  by (cases s; auto simp: is_name_def is_word_def list_all_iff word_not_space)+

lemma is_word_lits [simp]: "\<not> is_whitespace (CHR ''-'')" "\<not> is_whitespace (CHR ''~'')" "\<not> is_whitespace (CHR ''*'')"
    "\<not> is_whitespace (CHR ''+'')" "is_whitespace (CHR '' '')" "is_whitespace (CHR 0x09)"
  by (simp_all add: is_whitespace_def)

lemma is_word_Cons: "\<not> is_whitespace c \<Longrightarrow> is_word w \<Longrightarrow> is_word (c # w)"
  by (simp add: is_word_def)

lemma split_join_words [simp]: "list_all is_word ws \<Longrightarrow> split_whitespace (join_with '' '' ws) = ws"
  by (rule split_whitespace_join) simp

lemma one_line_words: "list_all is_word ws \<Longrightarrow> one_line (join_with '' '' ws)"
  by (rule one_line_join) (auto simp: list_all_iff intro: one_line_word [unfolded list_all_iff, rule_format])

section \<open>Keywords\<close>

definition valid_keyword :: "keyword \<Rightarrow> bool" where
  "valid_keyword k \<longleftrightarrow> is_name word_char arch_char (arch_name (kw_arch k)) \<or>
     kw_status k = KeywordDisabled \<and> arch_name (kw_arch k) = ''*''"

lemma p_arch_full: "p_arch s = Some (x, []) \<longleftrightarrow> s = x \<and> is_name word_char arch_char x"
  using p_name_full [of word_char arch_char] printsD [OF p_name_prints, of word_char arch_char s x "[]"]
  by (auto simp: p_arch_def)

lemma p_arch_first: "\<not> word_char c \<Longrightarrow> p_arch (c # s) = None"
  by (simp add: p_arch_def p_name_eq)

lemma plain_chars [simp]: "\<not> word_char (CHR ''~'')" "\<not> word_char (CHR ''-'')" "\<not> word_char (CHR ''*'')"
  by (simp_all add: word_char_def char_classes)

lemma p_map_eq: "p_map f p s = map_option (\<lambda>(a, r). (f a, r)) (p s)"
  by (auto simp: p_map_def p_bind_def p_return_def split: option.splits)

lemma p_then_char: "p_then (p_lit [c]) p s = (case s of [] \<Rightarrow> None | d # u \<Rightarrow> if d = c then p u else None)"
  by (auto simp: p_then_def p_bind_def p_lit_Cons p_lit_hd split: option.splits list.splits)

lemma map_full: "map_option (\<lambda>(a, r). (f a, r)) o1 = Some (x, []) \<longleftrightarrow> (\<exists>a. o1 = Some (a, []) \<and> x = f a)"
  by (cases o1) auto

text \<open>A keyword is read from its printed form and from nothing else.\<close>

lemma p_keyword_eq: "p_keyword s = (case p_arch s of
    Some (a, r) \<Rightarrow> Some (\<lparr>kw_status = KeywordStable, kw_arch = Arch a\<rparr>, r)
  | None \<Rightarrow> (case s of [] \<Rightarrow> None | c # u \<Rightarrow>
      if c = CHR ''~'' then map_option (\<lambda>(a, r). (\<lparr>kw_status = KeywordUnstable, kw_arch = Arch a\<rparr>, r)) (p_arch u)
      else if c = CHR ''-'' then (case p_arch u of
          Some (a, r) \<Rightarrow> Some (\<lparr>kw_status = KeywordDisabled, kw_arch = Arch a\<rparr>, r)
        | None \<Rightarrow> if starts_with u ''*'' then Some (\<lparr>kw_status = KeywordDisabled, kw_arch = Arch ''*''\<rparr>, tl u) else None)
      else None))"
proof (cases s)
  case (Cons c u)
  have "p_lit ''-*'' (c # u) = (if c = CHR ''-'' \<and> starts_with u ''*'' then Some (''-*'', tl u) else None)"
    by (cases u) (auto simp: p_lit_def starts_with_def)
  then show ?thesis
    by (simp only: Cons p_keyword_def p_alt_def p_then_char p_map_eq list.case)
      (cases "p_arch (c # u)"; cases "p_arch u"; simp split: prod.split)
qed (simp add: p_keyword_def p_alt_def p_then_char p_map_eq p_lit_def starts_with_def p_arch_def p_name_eq)

lemma keyword_text_iff: "keyword_try_new s = Inr k \<longleftrightarrow> s = keyword_display k \<and> valid_keyword k"
proof -
  obtain st a where k: "k = \<lparr>kw_status = st, kw_arch = Arch a\<rparr>" by (cases k; cases "kw_arch k") auto
  consider (empty) "s = []" | (tilde) u where "s = CHR ''~'' # u" | (minus) u where "s = CHR ''-'' # u"
    | (other) c u where "s = c # u" "c \<noteq> CHR ''~''" "c \<noteq> CHR ''-''" by (cases s) auto
  then show ?thesis
  proof cases
    case empty
    then show ?thesis using k by (cases st)
      (auto simp: p_keyword_eq p_arch_def p_name_eq keyword_try_new_def keyword_display_def valid_keyword_def is_name_def)
  next
    case tilde
    then have "p_keyword s = map_option (\<lambda>(a, r). (\<lparr>kw_status = KeywordUnstable, kw_arch = Arch a\<rparr>, r)) (p_arch u)"
      by (simp add: p_keyword_eq p_arch_first)
    then show ?thesis using tilde k
      by (cases st) (auto simp: p_arch_full keyword_try_new_def keyword_display_def valid_keyword_def is_name_def map_full)
  next
    case minus
    have star: "p_arch (CHR ''*'' # r) = None" for r by (simp add: p_arch_first)
    have "p_keyword s = Some (k, []) \<longleftrightarrow> st = KeywordDisabled \<and> (p_arch u = Some (a, []) \<or> u = ''*'' \<and> a = ''*'')"
      using minus k star by (cases u) (auto simp: p_keyword_eq p_arch_first starts_with_def split: option.splits)
    then show ?thesis using minus k
      by (cases st) (auto simp: p_arch_full keyword_try_new_def keyword_display_def valid_keyword_def is_name_def)
  next
    case other
    then have "p_keyword s = map_option (\<lambda>(a, r). (\<lparr>kw_status = KeywordStable, kw_arch = Arch a\<rparr>, r)) (p_arch s)"
      by (auto simp: p_keyword_eq split: option.splits)
    then show ?thesis using other k
      by (cases st) (auto simp: p_arch_full keyword_try_new_def keyword_display_def valid_keyword_def map_full)
  qed
qed

lemma is_word_keyword: "valid_keyword k \<Longrightarrow> is_word (keyword_display k)"
  by (cases "kw_status k"; cases "arch_name (kw_arch k) = ''*''")
    (auto simp: valid_keyword_def keyword_display_def is_word_names is_word_Cons, simp_all add: is_word_def)

lemma keyword_status_inj: "keyword_status_index s = keyword_status_index t \<longleftrightarrow> s = t"
  by (cases s; cases t) simp_all

section \<open>IUSE\<close>

lemma p_use_flag_full: "p_use_flag s = Some (x, []) \<longleftrightarrow> s = x \<and> is_name flag_first flag_char x"
  using p_name_full [of flag_first flag_char] printsD [OF p_name_prints, of flag_first flag_char s x "[]"]
  by (auto simp: p_use_flag_def)

lemma p_use_flag_first: "\<not> flag_first c \<Longrightarrow> p_use_flag (c # s) = None"
  by (simp add: p_use_flag_def p_name_eq)

lemma flag_signs [simp]: "\<not> flag_first (CHR ''+'')" "\<not> flag_first (CHR ''-'')"
  by (simp_all add: flag_first_def char_classes)

lemma p_iuse_eq: "p_iuse s = (case p_use_flag s of
    Some (a, r) \<Rightarrow> Some (\<lparr>iu_flag = a, iu_default = None\<rparr>, r)
  | None \<Rightarrow> (case s of [] \<Rightarrow> None | c # u \<Rightarrow>
      if c = CHR ''+'' then map_option (\<lambda>(a, r). (\<lparr>iu_flag = a, iu_default = Some True\<rparr>, r)) (p_use_flag u)
      else if c = CHR ''-'' then map_option (\<lambda>(a, r). (\<lparr>iu_flag = a, iu_default = Some False\<rparr>, r)) (p_use_flag u)
      else None))"
proof (cases s)
  case (Cons c u)
  then show ?thesis
    by (simp only: Cons p_iuse_def p_alt_def p_then_char p_map_eq list.case)
      (cases "p_use_flag (c # u)"; cases "p_use_flag u"; simp split: prod.split)
qed (simp add: p_iuse_def p_alt_def p_then_char p_map_eq p_use_flag_def p_name_eq)

lemma iuse_text_iff: "iuse_try_new s = Inr i \<longleftrightarrow> s = iuse_display i \<and> is_name flag_first flag_char (iu_flag i)"
proof -
  obtain f d where i: "i = \<lparr>iu_flag = f, iu_default = d\<rparr>" by (cases i) auto
  have d: "d = None \<or> d = Some True \<or> d = Some False" by (cases d) auto
  consider (empty) "s = []" | (plus) u where "s = CHR ''+'' # u" | (minus) u where "s = CHR ''-'' # u"
    | (other) c u where "s = c # u" "c \<noteq> CHR ''+''" "c \<noteq> CHR ''-''" by (cases s) auto
  then show ?thesis
  proof cases
    case empty
    with i have "d = None \<or> d = Some True \<or> d = Some False \<Longrightarrow> ?thesis"
      by (elim disjE) (auto simp: p_iuse_eq p_use_flag_def p_name_eq iuse_try_new_def iuse_display_def is_name_def)
    then show ?thesis using d by blast
  next
    case plus
    then have "p_iuse s = map_option (\<lambda>(a, r). (\<lparr>iu_flag = a, iu_default = Some True\<rparr>, r)) (p_use_flag u)"
      by (simp add: p_iuse_eq p_use_flag_first)
    with i plus have "d = None \<or> d = Some True \<or> d = Some False \<Longrightarrow> ?thesis"
      by (elim disjE) (auto simp: p_use_flag_full iuse_try_new_def iuse_display_def is_name_def map_full)
    then show ?thesis using d by blast
  next
    case minus
    then have "p_iuse s = map_option (\<lambda>(a, r). (\<lparr>iu_flag = a, iu_default = Some False\<rparr>, r)) (p_use_flag u)"
      by (simp add: p_iuse_eq p_use_flag_first)
    with i minus have "d = None \<or> d = Some True \<or> d = Some False \<Longrightarrow> ?thesis"
      by (elim disjE) (auto simp: p_use_flag_full iuse_try_new_def iuse_display_def is_name_def map_full)
    then show ?thesis using d by blast
  next
    case other
    then have "p_iuse s = map_option (\<lambda>(a, r). (\<lparr>iu_flag = a, iu_default = None\<rparr>, r)) (p_use_flag s)"
      by (auto simp: p_iuse_eq split: option.splits)
    with i other have "d = None \<or> d = Some True \<or> d = Some False \<Longrightarrow> ?thesis"
      by (elim disjE) (auto simp: p_use_flag_full iuse_try_new_def iuse_display_def map_full)
    then show ?thesis using d by blast
  qed
qed

lemma is_word_iuse: "is_name flag_first flag_char (iu_flag i) \<Longrightarrow> is_word (iuse_display i)"
  by (auto simp: iuse_display_def is_word_names is_word_Cons split: option.splits bool.splits)

section \<open>Orders\<close>

text \<open>Arches are ordered by their platform, those without one first, then by the name before it.\<close>

definition arch_key :: "arch \<Rightarrow> string option \<times> string" where
  "arch_key a = (case split_once (CHR ''-'') (arch_name a) of None \<Rightarrow> (None, arch_name a) | Some (n, p) \<Rightarrow> (Some p, n))"

lemma arch_cmp_key: "arch_cmp a b =
    ord_then (cmp_option cmp_str (fst (arch_key a)) (fst (arch_key b))) (cmp_str (snd (arch_key a)) (snd (arch_key b)))"
  by (simp add: arch_cmp_def arch_key_def split: option.splits)

lemma arch_key_inj: "arch_key a = arch_key b \<longleftrightarrow> a = b"
proof
  have name: "arch_name a = (case arch_key a of (None, n) \<Rightarrow> n | (Some p, n) \<Rightarrow> n @ CHR ''-'' # p)" for a
    by (auto simp: arch_key_def split: option.splits dest: split_once_Some)
  assume "arch_key a = arch_key b"
  then have "arch_name a = arch_name b" by (simp add: name)
  then show "a = b" by (simp add: arch.expand)
qed simp

lemma total_cmp_arch [cmp_laws]: "total_cmp Q arch_cmp"
  unfolding arch_cmp_key [abs_def]
  by (intro total_cmp_then total_cmp_key [OF total_cmp_str [of "\<lambda>_. True"]]
      total_cmp_key [OF total_cmp_option_any [OF total_cmp_str, of "\<lambda>_. True"]] TrueI)

lemma total_cmp_keyword [cmp_laws]: "total_cmp Q keyword_cmp"
  unfolding keyword_cmp_def [abs_def] cmp_by_def
  by (fold cmp_by_def, intro total_cmp_then total_cmp_key [OF total_cmp_arch [of "\<lambda>_. True"]]
      total_cmp_key [OF total_cmp_by [of "\<lambda>_. True"]] TrueI)

lemma total_cmp_iuse [cmp_laws]: "total_cmp Q iuse_cmp"
  unfolding iuse_cmp_def [abs_def]
  by (intro total_cmp_then total_cmp_key [OF total_cmp_str [of "\<lambda>_. True"]]
      total_cmp_key [OF total_cmp_option_any [OF total_cmp_by, of "\<lambda>_. True"]] TrueI)

lemma cmp_Equal: "arch_cmp a b = Equal \<longleftrightarrow> a = b" "keyword_cmp k l = Equal \<longleftrightarrow> k = l" "iuse_cmp i j = Equal \<longleftrightarrow> i = j"
proof -
  show a: "arch_cmp a b = Equal \<longleftrightarrow> a = b" for a b
    using arch_key_inj [of a b] by (auto simp: arch_cmp_key prod_eq_iff cmp_option_eq_iff option.rel_eq)
  show "keyword_cmp k l = Equal \<longleftrightarrow> k = l" by (auto simp: keyword_cmp_def a keyword_status_inj)
  show "iuse_cmp i j = Equal \<longleftrightarrow> i = j"
    by (cases "iu_default i"; cases "iu_default j") (auto simp: iuse_cmp_def of_bool_def split: if_splits)
qed

interpretation keyword_ord: total_cmp "\<lambda>_. True" keyword_cmp by (rule total_cmp_keyword)

interpretation iuse_ord: total_cmp "\<lambda>_. True" iuse_cmp by (rule total_cmp_iuse)

end
