(* ===== verification/Md5_Dict_Laws.thy ===== *)
theory Md5_Dict_Laws
  imports Src_Uri Md5_Dict Pkg_Metadata_Laws
begin

text \<open>
  The laws of the metadata cache: what an entry holds of metadata that was read from the
  environment of an ebuild is on one line per key, and reading it gives the metadata back.
\<close>

section \<open>Fields\<close>

text \<open>\<open>copy_field k m x\<close>: \<open>x\<close> with the field of \<open>k\<close> taken from \<open>m\<close>.\<close>

fun copy_field :: "key \<Rightarrow> metadata \<Rightarrow> metadata \<Rightarrow> metadata" where
  "copy_field K_CHKSUM m x = x\<lparr>md_chksum := md_chksum m\<rparr>"
| "copy_field K_DESCRIPTION m x = x\<lparr>md_description := md_description m\<rparr>"
| "copy_field K_SLOT m x = x\<lparr>md_slot := md_slot m\<rparr>"
| "copy_field K_BDEPEND m x = x\<lparr>md_bdepend := md_bdepend m\<rparr>"
| "copy_field K_DEPEND m x = x\<lparr>md_depend := md_depend m\<rparr>"
| "copy_field K_IDEPEND m x = x\<lparr>md_idepend := md_idepend m\<rparr>"
| "copy_field K_PDEPEND m x = x\<lparr>md_pdepend := md_pdepend m\<rparr>"
| "copy_field K_RDEPEND m x = x\<lparr>md_rdepend := md_rdepend m\<rparr>"
| "copy_field K_LICENSE m x = x\<lparr>md_license := md_license m\<rparr>"
| "copy_field K_PROPERTIES m x = x\<lparr>md_properties := md_properties m\<rparr>"
| "copy_field K_REQUIRED_USE m x = x\<lparr>md_required_use := md_required_use m\<rparr>"
| "copy_field K_RESTRICT m x = x\<lparr>md_restrict := md_restrict m\<rparr>"
| "copy_field K_SRC_URI m x = x\<lparr>md_src_uri := md_src_uri m\<rparr>"
| "copy_field K_HOMEPAGE m x = x\<lparr>md_homepage := md_homepage m\<rparr>"
| "copy_field K_DEFINED_PHASES m x = x\<lparr>md_defined_phases := md_defined_phases m\<rparr>"
| "copy_field K_KEYWORDS m x = x\<lparr>md_keywords := md_keywords m\<rparr>"
| "copy_field K_IUSE m x = x\<lparr>md_iuse := md_iuse m\<rparr>"
| "copy_field K_INHERIT m x = x\<lparr>md_inherit := md_inherit m\<rparr>"
| "copy_field K_INHERITED m x = x\<lparr>md_inherited := md_inherited m\<rparr>"
| "copy_field K_EAPI m x = x\<lparr>md_eapi := md_eapi m\<rparr>"

lemma copy_same [simp]: "copy_field k m m = m" "copy_field k m (copy_field k n x) = copy_field k m x"
    "copy_field k (copy_field k m n) x = copy_field k m x"
  by (cases k; simp)+

lemma copy_field_alt: "copy_field k m x =
    \<lparr>md_eapi = md_eapi (if k = K_EAPI then m else x),
     md_description = md_description (if k = K_DESCRIPTION then m else x),
     md_slot = md_slot (if k = K_SLOT then m else x),
     md_bdepend = md_bdepend (if k = K_BDEPEND then m else x),
     md_depend = md_depend (if k = K_DEPEND then m else x),
     md_idepend = md_idepend (if k = K_IDEPEND then m else x),
     md_pdepend = md_pdepend (if k = K_PDEPEND then m else x),
     md_rdepend = md_rdepend (if k = K_RDEPEND then m else x),
     md_license = md_license (if k = K_LICENSE then m else x),
     md_properties = md_properties (if k = K_PROPERTIES then m else x),
     md_required_use = md_required_use (if k = K_REQUIRED_USE then m else x),
     md_restrict = md_restrict (if k = K_RESTRICT then m else x),
     md_src_uri = md_src_uri (if k = K_SRC_URI then m else x),
     md_homepage = md_homepage (if k = K_HOMEPAGE then m else x),
     md_defined_phases = md_defined_phases (if k = K_DEFINED_PHASES then m else x),
     md_keywords = md_keywords (if k = K_KEYWORDS then m else x),
     md_iuse = md_iuse (if k = K_IUSE then m else x),
     md_inherit = md_inherit (if k = K_INHERIT then m else x),
     md_inherited = md_inherited (if k = K_INHERITED then m else x),
     md_chksum = md_chksum (if k = K_CHKSUM then m else x)\<rparr>"
  by (cases x; cases k; simp only: copy_field.simps key.simps if_True if_False refl metadata.update_convs metadata.select_convs)

lemma copy_commute: "k \<noteq> l \<Longrightarrow> copy_field k m (copy_field l n x) = copy_field l n (copy_field k m x)"
  by (intro metadata.equality; auto simp: copy_field_alt)

lemma copy_other: "k \<noteq> l \<Longrightarrow> copy_field k (copy_field l n m) x = copy_field k m x"
  by (intro metadata.equality; auto simp: copy_field_alt)

lemma all_keys_complete: "k \<in> set all_keys"
  by (cases k) (simp_all add: all_keys_def)

lemma fold_all_keys: "fold (\<lambda>l. copy_field l m) all_keys x = m"
  by (simp add: all_keys_def)

lemma copy_all: "(\<And>k. copy_field k m x = x) \<Longrightarrow> x = m"
proof -
  assume "\<And>k. copy_field k m x = x"
  then have "fold (\<lambda>l. copy_field l m) ks x = x" for ks by (induction ks) auto
  then show ?thesis using fold_all_keys by metis
qed

lemma fold_copy_after: "k \<notin> set ks \<Longrightarrow> copy_field k n (fold (\<lambda>l. copy_field l m) ks x) = fold (\<lambda>l. copy_field l m) ks (copy_field k n x)"
  by (induction ks arbitrary: x) (auto simp: copy_commute)

lemma fold_copy_in: "k \<in> set ks \<Longrightarrow> copy_field k m (fold (\<lambda>l. copy_field l m) ks x) = fold (\<lambda>l. copy_field l m) ks x"
proof (induction ks arbitrary: x)
  case (Cons l ks)
  then show ?case
    by (cases "k \<in> set ks") (auto simp: fold_copy_after)
qed simp

lemma fold_copy: "(\<And>k. k \<notin> set ks \<Longrightarrow> copy_field k m x = x) \<Longrightarrow> fold (\<lambda>l. copy_field l m) ks x = m"
proof (rule copy_all)
  fix k assume "\<And>k. k \<notin> set ks \<Longrightarrow> copy_field k m x = x"
  then show "copy_field k m (fold (\<lambda>l. copy_field l m) ks x) = fold (\<lambda>l. copy_field l m) ks x"
    by (cases "k \<in> set ks") (simp_all add: fold_copy_in fold_copy_after)
qed

definition blank :: "key \<Rightarrow> metadata \<Rightarrow> bool" where
  "blank k x \<longleftrightarrow> copy_field k metadata_default x = x"

lemma blank_copies: "blank k m \<Longrightarrow> blank k x \<Longrightarrow> copy_field k m x = x"
  using copy_same(3) [of k metadata_default m x] by (simp add: blank_def)

lemma blank_after: "blank k x \<Longrightarrow> k \<noteq> l \<Longrightarrow> blank k (copy_field l m x)"
  using copy_commute [of k l metadata_default m x] by (simp add: blank_def)

lemma blank_default [simp]: "blank k metadata_default"
  by (simp add: blank_def)

lemma set_field_Inr: "set_field r f = Inr y \<longleftrightarrow> (\<exists>x. r = Inr x \<and> y = f x)"
  by (auto simp: set_field_def split: sum.splits)

lemma deserialize_frame: "deserialize so e ri k v x = Inr y \<Longrightarrow> y = copy_field k y x"
  by (cases k) (auto simp: set_field_Inr split: if_splits sum.splits)

lemma env_field_frame: "env_field so e ri env k x = Inr y \<Longrightarrow> y = copy_field k y x"
proof (cases k)
  case K_INHERIT
  then show "env_field so e ri env k x = Inr y \<Longrightarrow> ?thesis" by (auto simp: env_field_def)
next
  case K_INHERITED
  then show "env_field so e ri env k x = Inr y \<Longrightarrow> ?thesis" by (auto simp: env_field_def)
next
  case K_DEFINED_PHASES
  then show "env_field so e ri env k x = Inr y \<Longrightarrow> ?thesis" by (auto simp: env_field_def)
qed (auto simp only: env_field_def key.simps option.simps split: option.splits if_splits
  dest: deserialize_frame intro: deserialize_frame, auto)

text \<open>What the environment gives is field by field what its keys give.\<close>

lemma env_fields_frame: "env_fields so e ri env ks x = Inr m \<Longrightarrow> k \<notin> set ks \<Longrightarrow> copy_field k x m = m"
proof (induction ks arbitrary: x)
  case (Cons l ks)
  from Cons.prems obtain y where y: "env_field so e ri env l x = Inr y" "env_fields so e ri env ks y = Inr m"
    by (auto split: sum.splits)
  have "copy_field k y m = m" using Cons.IH [OF y(2)] Cons.prems(2) by simp
  moreover have "copy_field k y m = copy_field k x m"
    using copy_other [of k l y x m] env_field_frame [OF y(1)] Cons.prems(2) by simp
  ultimately show ?case by simp
qed simp

lemma env_fields_field:
  assumes "env_fields so e ri env ks x = Inr m" "distinct ks" "k \<in> set ks" "\<And>l. l \<in> set ks \<Longrightarrow> blank l x"
  shows "\<exists>x' y. env_field so e ri env k x' = Inr y \<and> blank k x' \<and> copy_field k y m = m"
  using assms
proof (induction ks arbitrary: x)
  case (Cons l ks)
  from Cons.prems obtain y where y: "env_field so e ri env l x = Inr y" "env_fields so e ri env ks y = Inr m"
    by (auto split: sum.splits)
  show ?case
  proof (cases "k = l")
    case True
    then show ?thesis using y Cons.prems env_fields_frame [OF y(2), of k] by auto
  next
    case False
    have "blank l' y" if "l' \<in> set ks" for l'
      using blank_after [of l' x l y] env_field_frame [OF y(1)] Cons.prems(2,4) that by auto
    then show ?thesis using Cons.IH [OF y(2)] Cons.prems False by auto
  qed
qed simp

lemma distinct_insert_cmp: "distinct (insert_cmp c x xs) \<longleftrightarrow> x \<notin> set xs \<and> distinct xs"
  by (induction xs) auto

text \<open>The keys of an EAPI, each once.\<close>

lemma keys_of [simp]: "set (keys_of ks) = ks" "distinct (keys_of ks)"
proof -
  have "distinct (sort_cmp c xs) \<longleftrightarrow> distinct xs" for c and xs :: "key list"
    by (induction xs) (auto simp: sort_cmp_Cons distinct_insert_cmp)
  then have "distinct (sort_cmp key_cmp all_keys)" by (simp add: all_keys_def)
  then show "distinct (keys_of ks)" "set (keys_of ks) = ks" by (auto simp: keys_of_def all_keys_complete)
qed

section \<open>The text of entries\<close>

lemma map_insert_new: "k \<notin> fst ` set m \<Longrightarrow> map_insert k v m = m @ [(k, v)]"
  by (induction k v m rule: map_insert.induct) auto

lemma map_collect_distinct: "distinct (map fst kvs) \<Longrightarrow> map_collect kvs = kvs"
  by (induction kvs rule: rev_induct) (auto simp: map_collect_def map_insert_new)

lemma md5_key_round: "md5_key_from_str (md5_key_display k) = Inr k" and md5_key_plain: "CHR ''='' \<notin> set (md5_key_display k)"
    "one_line (md5_key_display k)"
proof -
  have "list_all (\<lambda>k. (case md5_key_from_str (md5_key_display k) of Inr l \<Rightarrow> l = k | Inl _ \<Rightarrow> False) \<and>
      CHR ''='' \<notin> set (md5_key_display k) \<and> one_line (md5_key_display k)) all_keys"
    by code_simp
  then show "md5_key_from_str (md5_key_display k) = Inr k" "CHR ''='' \<notin> set (md5_key_display k)" "one_line (md5_key_display k)"
    using all_keys_complete [of k] unfolding list_all_iff
    by (cases "md5_key_from_str (md5_key_display k)"; fastforce)+
qed

lemma strip_cr_line: "one_line l \<Longrightarrow> strip_cr l = l"
  by (cases l rule: rev_cases) (auto simp: strip_cr_def line_char_def)

lemma str_lines_lines: "list_all one_line ls \<Longrightarrow> str_lines (concat (map (\<lambda>l. l @ [CHR 0x0A]) ls)) = ls"
proof -
  have "list_all one_line ls \<Longrightarrow> split_char (CHR 0x0A) (concat (map (\<lambda>l. l @ [CHR 0x0A]) ls)) = ls @ [[]]"
  proof (induction ls)
    case (Cons l ls)
    then have "CHR 0x0A \<notin> set l" by (auto simp: list_all_iff line_char_def)
    with Cons show ?case by (simp add: split_char_append)
  qed simp
  moreover have "list_all one_line ls \<Longrightarrow> map strip_cr ls = ls"
    by (induction ls) (auto simp: strip_cr_line)
  ultimately show "list_all one_line ls \<Longrightarrow> ?thesis" by (simp add: str_lines_def)
qed

lemma entry_lines_fields:
  "entry_lines (map (\<lambda>(k, v). md5_key_display k @ CHR ''='' # v) en) d = Inr (foldl (\<lambda>m (k, v). map_insert k v m) d en)"
  by (induction en arbitrary: d) (auto simp: split_once_append md5_key_plain md5_key_round)

text \<open>An entry whose values are on one line each is read back from what is written.\<close>

lemma entry_round:
  assumes "distinct (map fst en)" "\<And>k v. (k, v) \<in> set en \<Longrightarrow> one_line v"
  shows "entry_from_str (entry_to_bytes en) = Inr en"
proof -
  let ?line = "\<lambda>(k, v). md5_key_display k @ CHR ''='' # v"
  have "entry_to_bytes en = concat (map (\<lambda>l. l @ [CHR 0x0A]) (map ?line en))"
    by (simp add: entry_to_bytes_def comp_def case_prod_unfold)
  moreover have "list_all one_line (map ?line en)"
    using assms(2) by (fastforce simp: list_all_iff md5_key_plain [unfolded list_all_iff])
  ultimately have "entry_from_str (entry_to_bytes en) = Inr (map_collect en)"
    by (simp only: entry_from_str_def str_lines_lines entry_lines_fields map_collect_def)
  then show ?thesis using assms(1) by (simp add: map_collect_distinct)
qed

lemma entry_of_eq: "entry_of m = List.map_filter (serialize m) (filter (\<lambda>k. k \<in> eapi_metadata_keys (md_eapi m)) all_keys)"
    "distinct (map fst (entry_of m))"
proof -
  have "map fst (List.map_filter (serialize m) ks) = filter (\<lambda>k. key_text m k \<noteq> []) ks" for ks
    by (induction ks) (auto simp: serialize_def Let_def map_filter_simps)
  moreover have "distinct all_keys" by (simp add: all_keys_def)
  ultimately have "distinct (map fst (List.map_filter (serialize m) (filter (\<lambda>k. k \<in> eapi_metadata_keys (md_eapi m)) all_keys)))"
    by simp
  then show "entry_of m = List.map_filter (serialize m) (filter (\<lambda>k. k \<in> eapi_metadata_keys (md_eapi m)) all_keys)"
    "distinct (map fst (entry_of m))"
    by (simp_all add: entry_of_def map_collect_distinct)
qed

lemma entry_of_mem: "(k, v) \<in> set (entry_of m) \<longleftrightarrow> k \<in> eapi_metadata_keys (md_eapi m) \<and> v = key_text m k \<and> v \<noteq> []"
  by (auto simp: entry_of_eq(1) map_filter_def serialize_def Let_def all_keys_complete split: if_splits)

lemma entry_of_lookup: "map_of (entry_of m) k =
    (if k \<in> eapi_metadata_keys (md_eapi m) \<and> key_text m k \<noteq> [] then Some (key_text m k) else None)"
proof (cases "map_of (entry_of m) k")
  case None
  then have "(k, v) \<notin> set (entry_of m)" for v by (metis weak_map_of_SomeI option.distinct(1))
  then show ?thesis using None by (simp add: entry_of_mem)
next
  case (Some v)
  then have "(k, v) \<in> set (entry_of m)" by (rule map_of_SomeD)
  then show ?thesis using Some by (auto simp: entry_of_mem)
qed

section \<open>Reading fields back\<close>

text \<open>The text of a field is on one line and, read into metadata without it, gives the field.\<close>

definition reads_text :: "set_ops \<Rightarrow> eapi \<Rightarrow> repo_info \<Rightarrow> metadata \<Rightarrow> key \<Rightarrow> bool" where
  "reads_text so e ri m k \<longleftrightarrow> one_line (key_text m k) \<and>
     (\<forall>x. blank k x \<longrightarrow> deserialize so e ri k (key_text m k) x = Inr (copy_field k m x))"

lemma key_text_copy: "key_text (copy_field k y m) k = key_text y k"
  by (cases k) (simp_all add: key_text_def)

lemma reads_text_copy: "reads_text so e ri y k \<Longrightarrow> reads_text so e ri (copy_field k y m) k"
  by (simp add: reads_text_def key_text_copy)

definition eapi_reads :: "eapi \<Rightarrow> bool" where
  "eapi_reads e \<longleftrightarrow> one_line (eapi_id e) \<and> eapi_id e \<noteq> [] \<and> eapi_from_str (eapi_id e) = Inr e \<and>
     (\<forall>k p. eapi_phases e k = Some p \<longrightarrow> ph_kind p = k) \<and>
     {K_EAPI, K_CHKSUM, K_SLOT, K_INHERIT, K_INHERITED} \<subseteq> eapi_metadata_keys e \<and>
     {K_EAPI, K_SLOT} \<subseteq> eapi_mandatory_keys e \<and> eapi_mandatory_keys e \<subseteq> {K_EAPI, K_SLOT, K_DESCRIPTION}"

lemma phase_name: "is_word (phase_name k)" "phase_name k \<noteq> ''-''"
    "find (\<lambda>l. phase_kind_name l = Some (phase_name k)) all_phase_kinds = Some k"
proof -
  have "list_all (\<lambda>k. is_word (phase_name k) \<and> phase_name k \<noteq> ''-'' \<and>
      find (\<lambda>l. phase_kind_name l = Some (phase_name k)) all_phase_kinds = Some k) all_phase_kinds"
    by code_simp
  then show "is_word (phase_name k)" "phase_name k \<noteq> ''-''"
      "find (\<lambda>l. phase_kind_name l = Some (phase_name k)) all_phase_kinds = Some k"
    by (simp_all add: list_all_iff)
qed

text \<open>What sourcing leaves: incrementals hold words, the inherited eclasses are those of the repository,
  each once, and whoever inherits has inherited.\<close>

definition eclass_known :: "repo_info \<Rightarrow> eclass \<Rightarrow> bool" where
  "eclass_known ri c \<longleftrightarrow> find (\<lambda>e. ec_name e = ec_name c) (ri_eclasses ri) = Some c \<and>
     is_word (ec_name c) \<and> is_word (ec_chksum c)"

definition source_env_ok :: "repo_info \<Rightarrow> source_env \<Rightarrow> bool" where
  "source_env_ok ri env \<longleftrightarrow>
     (\<forall>k ws. se_incrementals env k = Some ws \<longrightarrow> list_all is_word ws) \<and>
     list_all (eclass_known ri) (se_inherit env) \<and> list_all (eclass_known ri) (se_inherited env) \<and>
     distinct_by eclass_eq (se_inherit env) \<and> distinct_by eclass_eq (se_inherited env) \<and>
     (se_inherited env = [] \<longrightarrow> se_inherit env = []) \<and> is_word (se_chksum env)"

lemma get_known: "eclass_known ri c \<Longrightarrow> get_eclass ri (ec_name c) = Inr c"
  by (simp add: eclass_known_def get_eclass_def)

lemma tuples2_pairs: "tuples2 (concat (map (\<lambda>e. [f e, g e]) es)) = map (\<lambda>e. (f e, g e)) es"
  by (induction es) simp_all

lemma known_words: "list_all (eclass_known ri) es \<Longrightarrow> list_all is_word (map ec_name es)"
    "list_all (eclass_known ri) es \<Longrightarrow> list_all is_word (concat (map (\<lambda>e. [ec_name e, ec_chksum e]) es))"
  by (auto simp: list_all_iff eclass_known_def)

lemma one_line_tabs: "list_all is_word ws \<Longrightarrow> one_line (join_with [CHR 0x09] ws)"
  by (rule one_line_join) (auto simp: list_all_iff intro: one_line_word [unfolded list_all_iff, rule_format])

lemma split_tabs: "list_all is_word ws \<Longrightarrow> split_whitespace (join_with [CHR 0x09] ws) = ws"
  by (rule split_whitespace_join) simp

locale metadata_sets =
  fixes so :: set_ops
  assumes use_deps: "index_set (=) (so_use_deps so)"
    and deps: "dependency_sets wf_dep dep_cmp (so_deps so)"
    and strings: "dependency_sets (\<lambda>_. True) cmp_str (so_strings so)"
    and uris: "dependency_sets (\<lambda>_. True) uri_cmp (so_uris so)"
    and words: "index_set (=) (so_words so)"
    and phases: "index_set phase_kind_eq (so_phases so)"
    and keyword_sets: "index_set (=) (so_keywords so)"
    and iuses: "index_set (=) (so_iuse so)"
    and eclasses: "index_set eclass_eq (so_eclasses so)"
begin

lemma collect_again: "is_collect (so_words so) (is_collect (so_words so) ws) = is_collect (so_words so) ws"
    "is_collect (so_phases so) (is_collect (so_phases so) ps) = is_collect (so_phases so) ps"
    "is_collect (so_keywords so) (is_collect (so_keywords so) ks) = is_collect (so_keywords so) ks"
    "is_collect (so_iuse so) (is_collect (so_iuse so) us) = is_collect (so_iuse so) us"
    "distinct_by eclass_eq es \<Longrightarrow> is_collect (so_eclasses so) es = es"
  by (simp_all add: index_set.collect [OF words] index_set.collect [OF phases] index_set.collect [OF keyword_sets]
      index_set.collect [OF iuses] index_set.collect [OF eclasses] firsts_by_distinct)
    (rule firsts_by_distinct [OF distinct_by_firsts_by], auto simp: symp_def phase_kind_eq_def)+

lemma collect_members: "set (is_collect (so_words so) ws) \<subseteq> set ws" "set (is_collect (so_phases so) ps) \<subseteq> set ps"
    "set (is_collect (so_keywords so) ks) \<subseteq> set ks" "set (is_collect (so_iuse so) us) \<subseteq> set us"
  by (simp_all add: index_set.collect [OF words] index_set.collect [OF phases] index_set.collect [OF keyword_sets]
      index_set.collect [OF iuses] firsts_by_subset)

lemma collect_set_Inr: "collect_set ix rs = Inr ys \<longleftrightarrow> (\<exists>xs. rs = map Inr xs \<and> ys = is_collect ix xs)"
  by (auto simp: collect_set_def collect_results_Inr split: sum.splits)

lemma collect_set_results: "(\<And>w. w \<in> set ws \<Longrightarrow> f (g w) = Inr w) \<Longrightarrow> is_collect ix ws = ws \<Longrightarrow>
    collect_set ix (map f (map g ws)) = Inr ws"
proof -
  assume "\<And>w. w \<in> set ws \<Longrightarrow> f (g w) = Inr w" "is_collect ix ws = ws"
  moreover from this have "map f (map g ws) = map Inr ws" by simp
  ultimately show ?thesis by (simp add: collect_set_def del: map_map)
qed

lemma map_Inr_mem: "map f ws = map Inr xs \<Longrightarrow> x \<in> set xs \<Longrightarrow> \<exists>w \<in> set ws. f w = Inr x"
  by (metis (mono_tags, lifting) imageE image_eqI list.set_map)

text \<open>An empty value leaves a field as it is.\<close>

lemma deserialize_empty: "deserialize so e ri k [] x = Inr y \<Longrightarrow> k \<noteq> K_EAPI \<Longrightarrow> y = copy_field k metadata_default x"
proof -
  have slot: "parse_slot [] \<noteq> Inr z" for z
    using printsD [OF p_slot_prints, of "[]" z "[]"] by (auto simp: parse_slot_def valid_slot_def valid_slot_name_def is_name_def)
  have words: "split_whitespace [] = []" by (simp add: split_whitespace_def)
  assume "deserialize so e ri k [] x = Inr y" "k \<noteq> K_EAPI"
  then show ?thesis
    by (cases k) (simp_all add: set_field_Inr metadata_default_def parsed_empty words collect_set_Inr is_collect_def slot)
qed

lemma empty_text: "reads_text so e ri m k \<Longrightarrow> k \<noteq> K_EAPI \<Longrightarrow> key_text m k = [] \<Longrightarrow> blank k m"
proof -
  assume r: "reads_text so e ri m k" "k \<noteq> K_EAPI" "key_text m k = []"
  then have "deserialize so e ri k [] metadata_default = Inr (copy_field k m metadata_default)"
    using blank_default [of k] unfolding reads_text_def by (metis (no_types))
  then have "copy_field k m metadata_default = metadata_default" using deserialize_empty r(2) by fastforce
  then show "blank k m" using copy_same(3) [of k m metadata_default m] by (simp add: blank_def)
qed

text \<open>Fields that are sets of dependencies.\<close>

lemma reads_parsed:
  assumes "deserialize so e ri k v x = Inr y"
    and "\<And>v x. deserialize so e ri k v x = set_field (parse v) (f x)"
    and "\<And>d. parse v = Inr d \<Longrightarrow> parse (disp d) = Inr d \<and> one_line (disp d)"
    and "\<And>x d. key_text (f x d) k = disp d" "\<And>x x' d. copy_field k (f x d) x' = f x' d"
  shows "reads_text so e ri y k"
proof -
  obtain d where "parse v = Inr d" "y = f x d" using assms(1) by (auto simp: assms(2) set_field_Inr)
  with assms(2-5) show ?thesis by (simp add: reads_text_def set_field_def)
qed

lemma reads_deps: "parse_package_dependency_set (so_use_deps so) (so_deps so) v e = Inr ds \<Longrightarrow>
    parse_package_dependency_set (so_use_deps so) (so_deps so) (dependency_set_display dep_to_string ds) e = Inr ds \<and>
    one_line (dependency_set_display dep_to_string ds)"
  using parsed_package_set [OF deps use_deps] by simp

lemma reads_deps_fields:
  "deserialize so e ri K_BDEPEND v x = Inr y \<Longrightarrow> reads_text so e ri y K_BDEPEND"
  "deserialize so e ri K_DEPEND v x = Inr y \<Longrightarrow> reads_text so e ri y K_DEPEND"
  "deserialize so e ri K_IDEPEND v x = Inr y \<Longrightarrow> reads_text so e ri y K_IDEPEND"
  "deserialize so e ri K_PDEPEND v x = Inr y \<Longrightarrow> reads_text so e ri y K_PDEPEND"
  "deserialize so e ri K_RDEPEND v x = Inr y \<Longrightarrow> reads_text so e ri y K_RDEPEND"
  apply (erule reads_parsed [OF _ deserialize.simps(4) reads_deps]; simp add: key_text_def)
  apply (erule reads_parsed [OF _ deserialize.simps(5) reads_deps]; simp add: key_text_def)
  apply (erule reads_parsed [OF _ deserialize.simps(6) reads_deps]; simp add: key_text_def)
  apply (erule reads_parsed [OF _ deserialize.simps(7) reads_deps]; simp add: key_text_def)
  apply (erule reads_parsed [OF _ deserialize.simps(8) reads_deps]; simp add: key_text_def)
  done

lemma reads_strings_fields:
  "deserialize so e ri K_LICENSE v x = Inr y \<Longrightarrow> reads_text so e ri y K_LICENSE"
  "deserialize so e ri K_PROPERTIES v x = Inr y \<Longrightarrow> reads_text so e ri y K_PROPERTIES"
  "deserialize so e ri K_REQUIRED_USE v x = Inr y \<Longrightarrow> reads_text so e ri y K_REQUIRED_USE"
  "deserialize so e ri K_RESTRICT v x = Inr y \<Longrightarrow> reads_text so e ri y K_RESTRICT"
  apply (erule reads_parsed [OF _ deserialize.simps(9) parsed_license_set [OF strings]]; simp add: key_text_def)
  apply (erule reads_parsed [OF _ deserialize.simps(10) parsed_properties_set [OF strings]]; simp add: key_text_def)
  apply (erule reads_parsed [OF _ deserialize.simps(11) parsed_required_use_set [OF strings]]; simp add: key_text_def)
  apply (erule reads_parsed [OF _ deserialize.simps(12) parsed_restrict_set [OF strings]]; simp add: key_text_def)
  done

text \<open>Fields that are lists of words.\<close>

lemma reads_homepage: "deserialize so e ri K_HOMEPAGE v x = Inr y \<Longrightarrow> reads_text so e ri y K_HOMEPAGE"
proof -
  have "list_all is_word (is_collect (so_words so) (split_whitespace v))"
    using split_whitespace_words [of v] collect_members(1) by (auto simp: list_all_iff)
  then show "deserialize so e ri K_HOMEPAGE v x = Inr y \<Longrightarrow> ?thesis"
    by (auto simp: reads_text_def key_text_def one_line_words collect_again)
qed

lemma get_keyword_again: "get_keyword ri w = Inr k \<Longrightarrow> valid_keyword k \<and> get_keyword ri (keyword_display k) = Inr k"
proof -
  assume w: "get_keyword ri w = Inr k"
  then have "keyword_try_new w = Inr k" by (auto simp: get_keyword_def split: sum.splits if_splits)
  with w show ?thesis by (simp add: keyword_text_iff)
qed

lemma reads_keywords: "deserialize so e ri K_KEYWORDS v x = Inr y \<Longrightarrow> reads_text so e ri y K_KEYWORDS"
proof -
  assume "deserialize so e ri K_KEYWORDS v x = Inr y"
  then obtain ks where ks: "map (get_keyword ri) (split_whitespace v) = map Inr ks"
    and y: "y = x\<lparr>md_keywords := is_collect (so_keywords so) ks\<rparr>" by (auto simp: set_field_Inr collect_set_Inr)
  let ?ks = "is_collect (so_keywords so) ks"
  have k: "valid_keyword k \<and> get_keyword ri (keyword_display k) = Inr k" if "k \<in> set ?ks" for k
    using map_Inr_mem [OF ks, of k] collect_members(3) [of ks] get_keyword_again that by blast
  then have w: "list_all is_word (map keyword_display ?ks)" by (auto simp: list_all_iff intro: is_word_keyword)
  moreover have "collect_set (so_keywords so) (map (get_keyword ri) (map keyword_display ?ks)) = Inr ?ks"
    using k by (intro collect_set_results) (simp_all add: collect_again)
  ultimately show ?thesis
    using y by (auto simp: reads_text_def key_text_def one_line_words set_field_def simp del: map_map)
qed

lemma reads_iuse: "deserialize so e ri K_IUSE v x = Inr y \<Longrightarrow> reads_text so e ri y K_IUSE"
proof -
  assume "deserialize so e ri K_IUSE v x = Inr y"
  then obtain us where us: "map iuse_try_new (split_whitespace v) = map Inr us"
    and y: "y = x\<lparr>md_iuse := is_collect (so_iuse so) us\<rparr>" by (auto simp: set_field_Inr collect_set_Inr)
  let ?us = "is_collect (so_iuse so) us"
  have u: "is_name flag_first flag_char (iu_flag u) \<and> iuse_try_new (iuse_display u) = Inr u" if "u \<in> set ?us" for u
    using map_Inr_mem [OF us, of u] collect_members(4) [of us] that by (auto simp: iuse_text_iff)
  then have w: "list_all is_word (map iuse_display ?us)" by (auto simp: list_all_iff intro: is_word_iuse)
  moreover have "collect_set (so_iuse so) (map iuse_try_new (map iuse_display ?us)) = Inr ?us"
    using u by (intro collect_set_results) (simp_all add: collect_again)
  ultimately show ?thesis
    using y by (auto simp: reads_text_def key_text_def one_line_words set_field_def simp del: map_map)
qed

text \<open>The other fields that the environment holds as text.\<close>

lemma reads_slot: "deserialize so e ri K_SLOT v x = Inr y \<Longrightarrow> reads_text so e ri y K_SLOT"
proof (erule reads_parsed [OF _ deserialize.simps(3)])
  fix sl assume "parse_slot v = Inr sl"
  then show "parse_slot (slot_name sl) = Inr sl \<and> one_line (slot_name sl)"
    using printsD [OF p_slot_prints, of v sl "[]"] readsD [OF p_slot_reads, of "[]" sl]
    by (simp add: parse_slot_def slot_end_def one_line_slot)
qed (simp_all add: key_text_def)

lemma reads_eapi: "eapi_reads e \<Longrightarrow> deserialize so e ri K_EAPI v x = Inr y \<Longrightarrow> reads_text so e ri y K_EAPI"
proof -
  assume e: "eapi_reads e" and "deserialize so e ri K_EAPI v x = Inr y"
  then have "md_eapi y = e" by (cases "eapi_from_str v") (auto split: if_splits)
  then show ?thesis using e by (simp add: reads_text_def key_text_def eapi_reads_def eapi_eq_def)
qed

lemma reads_description: "list_all is_word ws \<Longrightarrow> deserialize so e ri K_DESCRIPTION (join_with '' '' ws) x = Inr y \<Longrightarrow>
    reads_text so e ri y K_DESCRIPTION"
  by (auto simp: reads_text_def key_text_def one_line_words)

text \<open>The defined phases, \<open>-\<close> when there are none.\<close>

lemma phases_defined_members:
  assumes "eapi_reads e" "k \<in> set (phases_defined so e funs)"
  shows "get_phase e (phase_name k) = Inr k"
proof -
  have "k \<in> set (map ph_kind (List.map_filter (eapi_phases e) (sort_cmp phase_kind_cmp all_phase_kinds)))"
    using assms(2) collect_members(2) by (fastforce simp: phases_defined_def)
  then obtain l p where "eapi_phases e l = Some p" "k = ph_kind p" by (auto simp: map_filter_def)
  with assms(1) show ?thesis
    by (simp add: get_phase_def eapi_phase_named_def phase_name(3) eapi_reads_def)
qed

lemma reads_phases:
  assumes e: "eapi_reads e"
  shows "reads_text so e ri (x\<lparr>md_defined_phases := phases_defined so e funs\<rparr>) K_DEFINED_PHASES"
proof -
  let ?ps = "phases_defined so e funs" and ?y = "x\<lparr>md_defined_phases := phases_defined so e funs\<rparr>"
  have words: "list_all is_word (map phase_name ?ps)" by (simp add: list_all_iff phase_name)
  have shown: "key_text ?y K_DEFINED_PHASES = (if ?ps = [] then ''-'' else join_with '' '' (map phase_name ?ps))"
    by (simp add: key_text_def)
  show ?thesis
  proof (cases "?ps = []")
    case True
    then have "copy_field K_DEFINED_PHASES ?y z = copy_field K_DEFINED_PHASES metadata_default z" for z
      by (simp add: metadata_default_def)
    then show ?thesis using True shown by (auto simp: reads_text_def blank_def)
  next
    case False
    have "join_with '' '' (map phase_name ?ps) \<noteq> ''-''"
    proof
      assume "join_with '' '' (map phase_name ?ps) = ''-''"
      then have "map phase_name ?ps = [''-'']"
        using split_join_words [OF words] split_join_words [of "[''-'']"] by (simp add: is_word_def)
      then show False using phase_name(2) by auto
    qed
    moreover have "collect_set (so_phases so) (map (get_phase e) (map phase_name ?ps)) = Inr ?ps"
      using phases_defined_members [OF e] by (intro collect_set_results) (auto simp: phases_defined_def collect_again)
    ultimately show ?thesis
      using False shown words by (simp add: reads_text_def one_line_words set_field_def del: map_map)
  qed
qed

text \<open>Eclasses, checksums and URIs.\<close>

lemma collect_known: "list_all (eclass_known ri) es \<Longrightarrow> distinct_by eclass_eq es \<Longrightarrow>
    collect_set (so_eclasses so) (map (get_eclass ri) (map ec_name es)) = Inr es"
  by (intro collect_set_results) (auto simp: list_all_iff get_known collect_again)

lemma reads_inherit:
  assumes "list_all (eclass_known ri) es" "distinct_by eclass_eq es"
  shows "reads_text so e ri (x\<lparr>md_inherit := es\<rparr>) K_INHERIT"
  using known_words(1) [OF assms(1)] collect_known [OF assms]
  by (simp add: reads_text_def key_text_def one_line_words set_field_def del: map_map)

lemma reads_inherited:
  assumes "list_all (eclass_known ri) es" "distinct_by eclass_eq es"
  shows "reads_text so e ri (x\<lparr>md_inherited := es\<rparr>) K_INHERITED"
  using known_words(2) [OF assms(1)] collect_known [OF assms]
  by (simp add: reads_text_def key_text_def one_line_tabs split_tabs tuples2_pairs set_field_def comp_def)

lemma reads_src_uri: "parse_src_uri_dependency_set (so_uris so) s = Inr ds \<Longrightarrow> plain_uris ds \<Longrightarrow>
    reads_text so e ri (x\<lparr>md_src_uri := ds\<rparr>) K_SRC_URI"
  using parsed_src_uri_set [OF uris] by (simp add: reads_text_def key_text_def set_field_def)

lemma reads_chksum: "one_line s \<Longrightarrow> reads_text so e ri (x\<lparr>md_chksum := s\<rparr>) K_CHKSUM"
  by (simp add: reads_text_def key_text_def)

text \<open>Every field that comes from an environment reads back.\<close>

lemma deserialized_reads:
  assumes "eapi_reads e" "list_all is_word ws" "deserialize so e ri k (join_with '' '' ws) x = Inr y"
    and "k \<notin> {K_CHKSUM, K_DEFINED_PHASES, K_INHERIT, K_INHERITED}" "k = K_SRC_URI \<Longrightarrow> plain_uris (md_src_uri y)"
  shows "reads_text so e ri y k"
proof (cases k)
  case K_SRC_URI
  then obtain ds where "y = x\<lparr>md_src_uri := ds\<rparr>" "parse_src_uri_dependency_set (so_uris so) (join_with '' '' ws) = Inr ds"
    using assms(3) by (auto simp: set_field_Inr)
  then show ?thesis using reads_src_uri assms(5) K_SRC_URI by simp
next
  case K_BDEPEND
  with assms(3) show ?thesis by (metis reads_deps_fields)
next
  case K_DEPEND
  with assms(3) show ?thesis by (metis reads_deps_fields)
next
  case K_IDEPEND
  with assms(3) show ?thesis by (metis reads_deps_fields)
next
  case K_PDEPEND
  with assms(3) show ?thesis by (metis reads_deps_fields)
next
  case K_RDEPEND
  with assms(3) show ?thesis by (metis reads_deps_fields)
next
  case K_LICENSE
  with assms(3) show ?thesis by (metis reads_strings_fields)
next
  case K_PROPERTIES
  with assms(3) show ?thesis by (metis reads_strings_fields)
next
  case K_REQUIRED_USE
  with assms(3) show ?thesis by (metis reads_strings_fields)
next
  case K_RESTRICT
  with assms(3) show ?thesis by (metis reads_strings_fields)
next
  case K_HOMEPAGE
  with assms(3) show ?thesis by (metis reads_homepage)
next
  case K_KEYWORDS
  with assms(3) show ?thesis by (metis reads_keywords)
next
  case K_IUSE
  with assms(3) show ?thesis by (metis reads_iuse)
next
  case K_SLOT
  with assms(3) show ?thesis by (metis reads_slot)
next
  case K_EAPI
  with assms(3) show ?thesis by (metis reads_eapi [OF assms(1)])
next
  case K_DESCRIPTION
  with assms(3) show ?thesis by (metis reads_description [OF assms(2)])
qed (use assms(4) in simp_all)

lemma default_fields: 
  "md_description metadata_default = []"
  "md_bdepend metadata_default = []"
  "md_depend metadata_default = []"
  "md_idepend metadata_default = []"
  "md_pdepend metadata_default = []"
  "md_rdepend metadata_default = []"
  "md_license metadata_default = []"
  "md_properties metadata_default = []"
  "md_required_use metadata_default = []"
  "md_restrict metadata_default = []"
  "md_src_uri metadata_default = []"
  "md_homepage metadata_default = []"
  "md_defined_phases metadata_default = []"
  "md_keywords metadata_default = []"
  "md_iuse metadata_default = []"
  "md_inherit metadata_default = []"
  "md_inherited metadata_default = []"
  "md_chksum metadata_default = []"
  by (simp_all add: metadata_default_def)

lemma default_reads:
  "deserialize so e ri K_BDEPEND (key_text metadata_default K_BDEPEND) x = Inr (copy_field K_BDEPEND metadata_default x)"
  "deserialize so e ri K_DEPEND (key_text metadata_default K_DEPEND) x = Inr (copy_field K_DEPEND metadata_default x)"
  "deserialize so e ri K_IDEPEND (key_text metadata_default K_IDEPEND) x = Inr (copy_field K_IDEPEND metadata_default x)"
  "deserialize so e ri K_PDEPEND (key_text metadata_default K_PDEPEND) x = Inr (copy_field K_PDEPEND metadata_default x)"
  "deserialize so e ri K_RDEPEND (key_text metadata_default K_RDEPEND) x = Inr (copy_field K_RDEPEND metadata_default x)"
  "deserialize so e ri K_LICENSE (key_text metadata_default K_LICENSE) x = Inr (copy_field K_LICENSE metadata_default x)"
  "deserialize so e ri K_PROPERTIES (key_text metadata_default K_PROPERTIES) x = Inr (copy_field K_PROPERTIES metadata_default x)"
  "deserialize so e ri K_REQUIRED_USE (key_text metadata_default K_REQUIRED_USE) x = Inr (copy_field K_REQUIRED_USE metadata_default x)"
  "deserialize so e ri K_RESTRICT (key_text metadata_default K_RESTRICT) x = Inr (copy_field K_RESTRICT metadata_default x)"
  "deserialize so e ri K_SRC_URI (key_text metadata_default K_SRC_URI) x = Inr (copy_field K_SRC_URI metadata_default x)"
  "deserialize so e ri K_DESCRIPTION (key_text metadata_default K_DESCRIPTION) x = Inr (copy_field K_DESCRIPTION metadata_default x)"
  "deserialize so e ri K_HOMEPAGE (key_text metadata_default K_HOMEPAGE) x = Inr (copy_field K_HOMEPAGE metadata_default x)"
  "deserialize so e ri K_KEYWORDS (key_text metadata_default K_KEYWORDS) x = Inr (copy_field K_KEYWORDS metadata_default x)"
  "deserialize so e ri K_IUSE (key_text metadata_default K_IUSE) x = Inr (copy_field K_IUSE metadata_default x)"
  "deserialize so e ri K_INHERIT (key_text metadata_default K_INHERIT) x = Inr (copy_field K_INHERIT metadata_default x)"
  "deserialize so e ri K_INHERITED (key_text metadata_default K_INHERITED) x = Inr (copy_field K_INHERITED metadata_default x)"
  "deserialize so e ri K_CHKSUM (key_text metadata_default K_CHKSUM) x = Inr (copy_field K_CHKSUM metadata_default x)"
  by (simp_all add: key_text_def default_fields parsed_empty set_field_def collect_set_def is_collect_def
      split_whitespace_def dependency_set_display_def)

lemma blank_reads:
  assumes "blank k y" "k \<notin> {K_EAPI, K_SLOT}"
  shows "reads_text so e ri y k"
proof -
  have "key_text y k = key_text metadata_default k" using assms(1) key_text_copy [of k metadata_default y] by (simp add: blank_def)
  moreover have "deserialize so e ri k (key_text metadata_default k) x = Inr (copy_field k metadata_default x)"
    if "blank k x" for x
  proof (cases "k = K_DEFINED_PHASES")
    case False
    then show ?thesis
      using assms(2) by (cases k; simp del: deserialize.simps copy_field.simps add: default_reads)
  qed (use that in \<open>simp add: key_text_def blank_def default_fields\<close>)
  moreover have "one_line (key_text metadata_default k)"
    using assms(2) by (cases k; simp add: key_text_def default_fields dependency_set_display_def)
  moreover have "copy_field k y x = copy_field k metadata_default x" for x
    using assms(1) copy_same(3) [of k metadata_default y x] by (simp add: blank_def)
  ultimately show ?thesis by (simp add: reads_text_def)
qed

section \<open>Metadata from an environment\<close>

lemma env_field_reads:
  assumes e: "eapi_reads e" and env: "source_env_ok ri env" and x: "blank k x" "env_field so e ri env k x = Inr y"
    and plain: "k = K_SRC_URI \<Longrightarrow> plain_uris (md_src_uri y)"
  shows "reads_text so e ri y k"
proof -
  consider "k = K_CHKSUM" | "k = K_DEFINED_PHASES" | "k = K_INHERIT" | "k = K_INHERITED"
    | (other) "k \<notin> {K_CHKSUM, K_DEFINED_PHASES, K_INHERIT, K_INHERITED}" by auto
  then show ?thesis
  proof cases
    case other
    have step: "env_field so e ri env k x = (case se_incrementals env k of
        Some ws \<Rightarrow> deserialize so e ri k (join_with '' '' ws) x
      | None \<Rightarrow> (case se_variables env k of
          Some s \<Rightarrow> deserialize so e ri k (join_with '' '' (split_whitespace s)) x
        | None \<Rightarrow> if k \<in> eapi_mandatory_keys e then Inl (missing_key k) else Inr x))"
      using other by (simp add: env_field_def split: key.splits)
    show ?thesis
    proof (cases "se_incrementals env k = None \<and> se_variables env k = None")
      case True
      then have "y = x" "k \<notin> {K_EAPI, K_SLOT}" using x(2) e by (auto simp: step eapi_reads_def split: if_splits)
      with x(1) show ?thesis using blank_reads by simp
    next
      case False
      then obtain ws where "list_all is_word ws" "deserialize so e ri k (join_with '' '' ws) x = Inr y"
        using x(2) env split_whitespace_words by (auto simp: step source_env_ok_def split: option.splits)
      then show ?thesis using deserialized_reads [OF e _ _ other] plain by blast
    qed
  qed (use x(2) env e in \<open>auto simp: env_field_def source_env_ok_def one_line_word
      intro: reads_chksum reads_phases reads_inherit reads_inherited\<close>)
qed

lemma env_field_of: "metadata_from_env so e ri env = Inr m \<Longrightarrow> k \<in> eapi_metadata_keys e \<Longrightarrow>
    \<exists>x y. env_field so e ri env k x = Inr y \<and> blank k x \<and> copy_field k y m = m"
  using env_fields_field [of so e ri env "keys_of (eapi_metadata_keys e)" metadata_default m k]
  by (simp add: metadata_from_env_def)

lemma copy_fieldD:
  "copy_field K_SRC_URI y m = m \<Longrightarrow> md_src_uri m = md_src_uri y" "copy_field K_EAPI y m = m \<Longrightarrow> md_eapi m = md_eapi y"
  "copy_field K_SLOT y m = m \<Longrightarrow> md_slot m = md_slot y" "copy_field K_CHKSUM y m = m \<Longrightarrow> md_chksum m = md_chksum y"
  "copy_field K_INHERIT y m = m \<Longrightarrow> md_inherit m = md_inherit y"
  "copy_field K_INHERITED y m = m \<Longrightarrow> md_inherited m = md_inherited y"
  by (drule arg_cong [where f = md_src_uri] arg_cong [where f = md_eapi] arg_cong [where f = md_slot]
    arg_cong [where f = md_chksum] arg_cong [where f = md_inherit] arg_cong [where f = md_inherited], simp)+

lemma env_reads:
  assumes "eapi_reads e" "source_env_ok ri env" "metadata_from_env so e ri env = Inr m"
    and "plain_uris (md_src_uri m)" "k \<in> eapi_metadata_keys e"
  shows "reads_text so e ri m k"
proof -
  obtain x y where xy: "env_field so e ri env k x = Inr y" "blank k x" "copy_field k y m = m"
    using env_field_of assms(3,5) by blast
  have "k = K_SRC_URI \<Longrightarrow> plain_uris (md_src_uri y)" using copy_fieldD(1) [of y m] xy(3) assms(4) by metis
  then have "reads_text so e ri y k" using env_field_reads [OF assms(1,2) xy(2,1)] by blast
  then show ?thesis using reads_text_copy [of so e ri y k m] xy(3) by simp
qed

section \<open>Entries of metadata\<close>

lemma entry_fields_reads:
  assumes "\<And>k. k \<in> set ks \<Longrightarrow> reads_text so e ri m k \<and> map_of en k = (if key_text m k = [] then None else Some (key_text m k))"
    and "\<And>k. k \<in> set ks \<Longrightarrow> k \<in> eapi_mandatory_keys e \<or> k = K_EAPI \<Longrightarrow> key_text m k \<noteq> []"
    and "distinct ks" "\<And>k. k \<in> set ks \<Longrightarrow> blank k x"
  shows "entry_fields so e ri en ks x = Inr (fold (\<lambda>l. copy_field l m) ks x)"
  using assms
proof (induction ks arbitrary: x)
  case (Cons k ks)
  have step: "entry_fields so e ri en (k # ks) x = entry_fields so e ri en ks (copy_field k m x)"
  proof (cases "key_text m k = []")
    case True
    then have "blank k m" "k \<notin> eapi_mandatory_keys e" using Cons.prems(1,2) [of k] empty_text [of e ri m k] by auto
    then show ?thesis using True Cons.prems(1,4) [of k] by (simp add: blank_copies)
  next
    case False
    then show ?thesis using Cons.prems(1,4) [of k] by (simp add: reads_text_def)
  qed
  have "entry_fields so e ri en ks (copy_field k m x) = Inr (fold (\<lambda>l. copy_field l m) ks (copy_field k m x))"
    using Cons.prems by (intro Cons.IH) (auto intro: blank_after)
  with step show ?case by simp
qed simp

lemma env_field_text:
  assumes "eapi_reads e" "k \<in> {K_EAPI, K_SLOT}" "env_field so e ri env k x = Inr y"
  shows "\<exists>v. deserialize so e ri k v x = Inr y"
proof -
  have "k \<in> eapi_mandatory_keys e" using assms(1,2) by (auto simp: eapi_reads_def)
  moreover have "env_field so e ri env k x = (case se_incrementals env k of
      Some ws \<Rightarrow> deserialize so e ri k (join_with '' '' ws) x
    | None \<Rightarrow> (case se_variables env k of
        Some s \<Rightarrow> deserialize so e ri k (join_with '' '' (split_whitespace s)) x
      | None \<Rightarrow> if k \<in> eapi_mandatory_keys e then Inl (missing_key k) else Inr x))"
    using assms(2) by (auto simp: env_field_def)
  ultimately show ?thesis using assms(3) by (simp split: option.splits) blast+
qed

lemma metadata_mandatory:
  assumes "eapi_reads e" "metadata_from_env so e ri env = Inr m"
  shows "md_eapi m = e" and "key_text m K_EAPI \<noteq> []" and "key_text m K_SLOT \<noteq> []"
proof -
  have keys: "K_EAPI \<in> eapi_metadata_keys e" "K_SLOT \<in> eapi_metadata_keys e" using assms(1) by (simp_all add: eapi_reads_def)
  obtain x y where x: "env_field so e ri env K_EAPI x = Inr y" and y: "copy_field K_EAPI y m = m"
    using env_field_of [OF assms(2) keys(1)] by blast
  obtain v where "deserialize so e ri K_EAPI v x = Inr y" using env_field_text [OF assms(1) _ x] by blast
  then have "md_eapi y = e" by (cases "eapi_from_str v") (auto split: if_splits)
  then show e: "md_eapi m = e" using copy_fieldD(2) [OF y] by simp
  then show "key_text m K_EAPI \<noteq> []" using assms(1) by (simp add: key_text_def eapi_reads_def)
  obtain x y where "env_field so e ri env K_SLOT x = Inr y" and y: "copy_field K_SLOT y m = m"
    using env_field_of [OF assms(2) keys(2)] by blast
  then obtain v where "deserialize so e ri K_SLOT v x = Inr y" using env_field_text [OF assms(1)] by blast
  then have "parse_slot v = Inr (md_slot y)" by (auto simp: set_field_Inr)
  then have "valid_slot (md_slot y)" using printsD [OF p_slot_prints, of v "md_slot y" "[]"] by (simp add: parse_slot_def)
  then show "key_text m K_SLOT \<noteq> []" using copy_fieldD(3) [OF y] valid_slot_hd by (simp add: key_text_def)
qed

lemma to_metadata_round:
  assumes "eapi_reads e" "source_env_ok ri env" "metadata_from_env so e ri env = Inr m"
    and "plain_uris (md_src_uri m)" "md_description m \<noteq> []"
  shows "to_metadata so e ri (entry_of m) = Inr m"
proof -
  note mand = metadata_mandatory [OF assms(1,3)]
  have desc: "key_text m K_DESCRIPTION \<noteq> []" using assms(5) by (simp add: key_text_def)
  have "eapi_mandatory_keys e \<subseteq> {K_EAPI, K_SLOT, K_DESCRIPTION}" using assms(1) by (simp add: eapi_reads_def)
  then have "key_text m k \<noteq> []" if "k \<in> eapi_mandatory_keys e \<or> k = K_EAPI" for k
    using that mand(2,3) desc by blast
  then have "to_metadata so e ri (entry_of m) = Inr (fold (\<lambda>l. copy_field l m) (keys_of (eapi_metadata_keys e)) metadata_default)"
    unfolding to_metadata_def using env_reads [OF assms(1-4)] mand(1)
    by (intro entry_fields_reads) (auto simp: entry_of_lookup)
  moreover have "copy_field k m metadata_default = metadata_default" if "k \<notin> eapi_metadata_keys e" for k
    using env_fields_frame [of so e ri env "keys_of (eapi_metadata_keys e)" metadata_default m k] assms(3) that
    by (intro blank_copies) (auto simp: metadata_from_env_def blank_def)
  ultimately show ?thesis using fold_copy [of "keys_of (eapi_metadata_keys e)" m metadata_default] by auto
qed

lemma verify_known: "list_all (eclass_known ri) es \<Longrightarrow> verify_eclasses ri (map (\<lambda>e. (ec_name e, ec_chksum e)) es) = Inr ()"
  by (induction es) (simp_all add: eclass_known_def)

lemma entry_verify_ok:
  assumes "eapi_reads e" "source_env_ok ri env" "metadata_from_env so e ri env = Inr m"
  shows "entry_verify ri (se_chksum env) (entry_of m) = Inr ()"
proof -
  have keys: "K_CHKSUM \<in> eapi_metadata_keys e" "K_INHERIT \<in> eapi_metadata_keys e" "K_INHERITED \<in> eapi_metadata_keys e"
    using assms(1) by (simp_all add: eapi_reads_def)
  have m: "md_eapi m = e" "md_chksum m = se_chksum env" "md_inherit m = se_inherit env" "md_inherited m = se_inherited env"
  proof -
    obtain x y where x: "env_field so e ri env K_CHKSUM x = Inr y" and y: "copy_field K_CHKSUM y m = m"
      using env_field_of [OF assms(3) keys(1)] by blast
    then show "md_chksum m = se_chksum env" using x copy_fieldD(4) [OF y] by (auto simp: env_field_def)
    obtain x y where x: "env_field so e ri env K_INHERIT x = Inr y" and y: "copy_field K_INHERIT y m = m"
      using env_field_of [OF assms(3) keys(2)] by blast
    then show "md_inherit m = se_inherit env" using x copy_fieldD(5) [OF y] by (auto simp: env_field_def)
    obtain x y where x: "env_field so e ri env K_INHERITED x = Inr y" and y: "copy_field K_INHERITED y m = m"
      using env_field_of [OF assms(3) keys(3)] by blast
    then show "md_inherited m = se_inherited env" using x copy_fieldD(6) [OF y] by (auto simp: env_field_def)
  qed (rule metadata_mandatory(1) [OF assms(1,3)])
  have env: "se_chksum env \<noteq> []" "list_all (eclass_known ri) (se_inherited env)" "se_inherited env = [] \<longrightarrow> se_inherit env = []"
    using assms(2) by (simp_all add: source_env_ok_def is_word_def)
  have words: "tuples2 (split_whitespace (key_text m K_INHERITED)) = map (\<lambda>e. (ec_name e, ec_chksum e)) (se_inherited env)"
    using known_words(2) [OF env(2)] m by (simp add: key_text_def split_tabs tuples2_pairs)
  have "map_of (entry_of m) K_CHKSUM = Some (se_chksum env)" using keys m env by (simp add: entry_of_lookup key_text_def)
  moreover have "key_text m K_INHERITED = [] \<Longrightarrow> map_of (entry_of m) K_INHERIT = None"
    using words env m by (simp add: entry_of_lookup split_whitespace_def) (simp add: key_text_def)
  ultimately show ?thesis
    using verify_known [OF env(2)] words keys m by (simp add: entry_verify_def entry_of_lookup)
qed

lemma entry_text_round:
  assumes "eapi_reads e" "source_env_ok ri env" "metadata_from_env so e ri env = Inr m"
    and "plain_uris (md_src_uri m)"
  shows "entry_from_str (entry_to_bytes (entry_of m)) = Inr (entry_of m)"
proof (rule entry_round [OF entry_of_eq(2)])
  fix k v assume "(k, v) \<in> set (entry_of m)"
  then have "k \<in> eapi_metadata_keys e" "v = key_text m k"
    using metadata_mandatory(1) [OF assms(1,3)] by (simp_all add: entry_of_mem)
  with env_reads [OF assms, of k] show "one_line v" by (simp add: reads_text_def)
qed

lemma cached_round:
  assumes "eapi_reads e" "source_env_ok ri env" "metadata_from_env so e ri env = Inr m"
    and "plain_uris (md_src_uri m)" "md_description m \<noteq> []"
  shows "cached_metadata so e ri (se_chksum env) (ReadOk (entry_to_bytes (entry_of m))) = Inr m"
  using entry_text_round [OF assms(1-4)] entry_verify_ok [OF assms(1-3)] to_metadata_round [OF assms]
  by (simp add: cached_metadata_def cache_get_def)

text \<open>Metadata without a description is written without that key, and no entry that lacks a
  mandatory key is metadata.\<close>

lemma entry_fields_mandatory:
  "entry_fields so e ri en ks x = Inr m \<Longrightarrow> k \<in> set ks \<Longrightarrow> k \<in> eapi_mandatory_keys e \<Longrightarrow> map_of en k \<noteq> None"
  by (induction ks arbitrary: x) (auto split: option.splits sum.splits if_splits)

lemma cached_without_description:
  assumes "eapi_reads e" "source_env_ok ri env" "metadata_from_env so e ri env = Inr m"
    and "plain_uris (md_src_uri m)" "md_description m = []"
    and "K_DESCRIPTION \<in> eapi_mandatory_keys e \<inter> eapi_metadata_keys e"
  shows "\<exists>er. cached_metadata so e ri (se_chksum env) (ReadOk (entry_to_bytes (entry_of m))) = Inl er"
proof -
  have "map_of (entry_of m) K_DESCRIPTION = None" using assms(5) by (simp add: entry_of_lookup key_text_def)
  then have "to_metadata so e ri (entry_of m) \<noteq> Inr m'" for m'
    using entry_fields_mandatory [of e ri "entry_of m" "keys_of (eapi_metadata_keys e)" metadata_default m' K_DESCRIPTION] assms(6)
    by (auto simp: to_metadata_def)
  then obtain er where "to_metadata so e ri (entry_of m) = Inl er" by (cases "to_metadata so e ri (entry_of m)") auto
  then show ?thesis
    using entry_verify_ok [OF assms(1-3)] entry_text_round [OF assms(1-4)]
    by (simp add: cached_metadata_def cache_get_def)
qed

end

section \<open>Reference sets\<close>

definition ref_sets :: set_ops where
  "ref_sets = \<lparr>so_use_deps = ref_index_set (=), so_deps = ref_index_set (dependency_eq dep_cmp),
     so_strings = ref_index_set (dependency_eq cmp_str), so_uris = ref_index_set (dependency_eq uri_cmp),
     so_words = ref_index_set (=), so_phases = ref_index_set phase_kind_eq, so_keywords = ref_index_set (=),
     so_iuse = ref_index_set (=), so_eclasses = ref_index_set eclass_eq\<rparr>"

interpretation reference: metadata_sets ref_sets
  by (rule metadata_sets.intro) (simp_all add: ref_sets_def package_deps.dependency_sets_axioms string_deps.dependency_sets_axioms
    uri_deps.dependency_sets_axioms
    ref_set.index_set_axioms)

end
