(* ===== verification/Cache_Regen.thy ===== *)
theory Cache_Regen
  imports Md5_Dict_Laws Dep_Round
begin

text \<open>
  The metadata cache as a directory, and its regeneration (\<open>repo/ebuild/cache.rs\<close>,
  \<open>repo/ebuild/cache/md5_dict.rs\<close>, \<open>MetadataTask\<close> and its builder in
  \<open>shell/pool.rs\<close>). The files of the cache are a map from relative paths to contents; tasks
  run in a pool, so regeneration is a step relation over the tasks, next to the sequence of tasks
  that a single worker runs. Captured output, progress and failing writes are not modelled.
\<close>

section \<open>The directory\<close>

type_synonym cache_files = "string \<rightharpoonup> string"

definition cache_read :: "cache_files \<Rightarrow> cpv \<Rightarrow> read_result" where
  "cache_read fs c = (case fs (cpv_display c) of None \<Rightarrow> ReadNotFound | Some data \<Rightarrow> ReadOk data)"

definition entry_path :: "cpv \<Rightarrow> string" where
  "entry_path c = cpn_category (cpv_cpn c) @ ''/'' @ cpv_pf c"

definition cache_update :: "cache_files \<Rightarrow> cpv \<Rightarrow> metadata \<Rightarrow> cache_files" where
  "cache_update fs c m = fs(entry_path c \<mapsto> entry_to_bytes (entry_of m))"

definition cache_remove_entry :: "cache_files \<Rightarrow> cpv \<Rightarrow> cache_files" where
  "cache_remove_entry fs c = fs(entry_path c := None)"

text \<open>\<open>clean\<close> walks the files two levels below the directory and removes those that are not
  named like a package of the collection; files at other levels stay. Directories that become
  empty, which it removes as well, are not part of the model.\<close>

definition entry_level :: "string \<Rightarrow> bool" where
  "entry_level p \<longleftrightarrow> length (split_char (CHR ''/'') p) = 2"

definition cache_valid_path :: "cpv list \<Rightarrow> string \<Rightarrow> bool" where
  "cache_valid_path cs p = (case parse_cpv p of Inl _ \<Rightarrow> False | Inr c \<Rightarrow> mem_by cpv_eq c cs)"

definition cache_clean :: "cache_files \<Rightarrow> cpv list \<Rightarrow> cache_files" where
  "cache_clean fs cs = (\<lambda>p. if entry_level p \<and> \<not> cache_valid_path cs p then None else fs p)"

section \<open>Tasks\<close>

text \<open>What a task uses of the repository: \<open>get_pkg_raw\<close> gives the EAPI and the checksum of an
  ebuild, sourcing it the environment.\<close>

record cache_ctx =
  cc_sets :: set_ops
  cc_repo :: repo_info
  cc_raw :: "cpv \<Rightarrow> error + eapi \<times> string"
  cc_env :: "cpv \<Rightarrow> error + source_env"

record regen_opts =
  ro_force :: bool
  ro_verify :: bool

definition source_metadata :: "cache_ctx \<Rightarrow> cpv \<Rightarrow> error + metadata" where
  "source_metadata ctx c = (case cc_raw ctx c of Inl er \<Rightarrow> Inl er
     | Inr (e, chksum) \<Rightarrow> (case cc_env ctx c of Inl er \<Rightarrow> Inl er
         | Inr env \<Rightarrow> metadata_from_env (cc_sets ctx) e (cc_repo ctx) (env\<lparr>se_chksum := chksum\<rparr>)))"

text \<open>\<open>MetadataTask::run\<close>.\<close>

definition task_run :: "cache_ctx \<Rightarrow> regen_opts \<Rightarrow> cache_files \<Rightarrow> cpv \<Rightarrow> cache_files \<times> (error + unit)" where
  "task_run ctx ro fs c = (case source_metadata ctx c of
     Inl er \<Rightarrow> (fs, Inl er)
   | Inr m \<Rightarrow> (if ro_verify ro then fs else cache_update fs c m, Inr ()))"

text \<open>What \<open>MetadataTaskBuilder::run\<close> does before it starts a task: \<open>None\<close> when the task
  is needed.\<close>

definition task_check :: "cache_ctx \<Rightarrow> regen_opts \<Rightarrow> cache_files \<Rightarrow> cpv \<Rightarrow> (error + unit) option" where
  "task_check ctx ro fs c =
     (if ro_force ro then None
      else (case cc_raw ctx c of Inl er \<Rightarrow> Some (Inl er)
        | Inr (e, chksum) \<Rightarrow> (case cache_get (cc_repo ctx) chksum (cache_read fs c) of
            None \<Rightarrow> None
          | Some result \<Rightarrow>
              if ro_verify ro
              then Some (case result of Inl er \<Rightarrow> Inl er | Inr entry \<Rightarrow>
                (case to_metadata (cc_sets ctx) e (cc_repo ctx) entry of Inl er \<Rightarrow> Inl er | Inr _ \<Rightarrow> Inr ()))
              else (case result of Inl _ \<Rightarrow> None | Inr _ \<Rightarrow> Some (Inr ())))))"

definition builder_run :: "cache_ctx \<Rightarrow> regen_opts \<Rightarrow> cache_files \<Rightarrow> cpv \<Rightarrow> cache_files \<times> (error + unit)" where
  "builder_run ctx ro fs c = (case task_check ctx ro fs c of
     Some r \<Rightarrow> (fs, r) | None \<Rightarrow> task_run ctx ro fs c)"

text \<open>\<open>EbuildRawPkg::metadata\<close>: the metadata of the cache, regenerated on failure where that is
  asked for.\<close>

definition files_metadata :: "cache_ctx \<Rightarrow> cache_files \<Rightarrow> cpv \<Rightarrow> error + metadata" where
  "files_metadata ctx fs c = (case cc_raw ctx c of Inl er \<Rightarrow> Inl er
     | Inr (e, chksum) \<Rightarrow> cached_metadata (cc_sets ctx) e (cc_repo ctx) chksum (cache_read fs c))"

definition raw_metadata :: "cache_ctx \<Rightarrow> bool \<Rightarrow> cache_files \<Rightarrow> cpv \<Rightarrow> cache_files \<times> (error + metadata)" where
  "raw_metadata ctx regen_on_failure fs c = (case files_metadata ctx fs c of
     Inr m \<Rightarrow> (fs, Inr m)
   | Inl er \<Rightarrow> if regen_on_failure
       then (case builder_run ctx \<lparr>ro_force = True, ro_verify = False\<rparr> fs c of
           (fs', Inl er') \<Rightarrow> (fs', Inl er') | (fs', Inr _) \<Rightarrow> (fs', files_metadata ctx fs' c))
       else (fs, Inl er))"

section \<open>Regeneration\<close>

text \<open>The tasks one after the other, with the number of failures.\<close>

fun run_tasks :: "cache_ctx \<Rightarrow> regen_opts \<Rightarrow> cache_files \<Rightarrow> cpv list \<Rightarrow> cache_files \<times> nat" where
  "run_tasks ctx ro fs [] = (fs, 0)"
| "run_tasks ctx ro fs (c # cs) = (case builder_run ctx ro fs c of (fs', r) \<Rightarrow>
     (case run_tasks ctx ro fs' cs of (fs'', n) \<Rightarrow> (fs'', (case r of Inl _ \<Rightarrow> Suc n | Inr _ \<Rightarrow> n))))"

text \<open>The builder of a regeneration: verifying and asking for targets both turn cleaning off, whatever
  the value, also where the targets are all packages. \<open>select\<close> gives the packages of the
  repository that a restriction matches.\<close>

record cache_regen =
  rg_clean :: bool
  rg_task :: regen_opts
  rg_targets :: "cpv list option"

definition cache_regen_new :: cache_regen where
  "cache_regen_new = \<lparr>rg_clean = True, rg_task = \<lparr>ro_force = False, ro_verify = False\<rparr>, rg_targets = None\<rparr>"

definition regen_force :: "bool \<Rightarrow> cache_regen \<Rightarrow> cache_regen" where
  "regen_force value g = g\<lparr>rg_task := (rg_task g)\<lparr>ro_force := value\<rparr>\<rparr>"

definition regen_verify :: "bool \<Rightarrow> cache_regen \<Rightarrow> cache_regen" where
  "regen_verify value g = g\<lparr>rg_task := (rg_task g)\<lparr>ro_verify := value\<rparr>, rg_clean := False\<rparr>"

definition regen_targets :: "(base_restrict \<Rightarrow> cpv list) \<Rightarrow> base_restrict \<Rightarrow> cache_regen \<Rightarrow> cache_regen" where
  "regen_targets select r g =
     (if r \<noteq> Var BTrue then g\<lparr>rg_targets := Some (select r)\<rparr> else g)\<lparr>rg_clean := False\<rparr>"

text \<open>\<open>MetadataCacheRegen::run\<close>: \<open>all_cpvs\<close> are the packages of the repository.\<close>

definition regen_run :: "cache_ctx \<Rightarrow> cache_regen \<Rightarrow> cpv list \<Rightarrow> cache_files \<Rightarrow> cache_files \<times> (error + unit)" where
  "regen_run ctx g all_cpvs fs =
     (let cs = (case rg_targets g of None \<Rightarrow> all_cpvs | Some ts \<Rightarrow> ts);
          fs' = (if rg_clean g then cache_clean fs cs else fs)
      in case run_tasks ctx (rg_task g) fs' cs of (fs'', errors) \<Rightarrow>
        (fs'', if 0 < errors then Inl (InvalidValue ''metadata failures occurred'' []) else Inr ()))"

text \<open>The tasks in a pool: every task first looks at the cache, then sources its ebuild and writes the
  entry, and the steps of different tasks interleave.\<close>

datatype task_state = Waiting | Sourcing | Finished "error + unit"

type_synonym pool_state = "cache_files \<times> (cpv \<Rightarrow> task_state)"

inductive pool_step :: "cache_ctx \<Rightarrow> regen_opts \<Rightarrow> cpv set \<Rightarrow> pool_state \<Rightarrow> pool_state \<Rightarrow> bool"
  for ctx ro cs where
  skip: "c \<in> cs \<Longrightarrow> st c = Waiting \<Longrightarrow> task_check ctx ro fs c = Some r \<Longrightarrow>
    pool_step ctx ro cs (fs, st) (fs, st(c := Finished r))"
| start: "c \<in> cs \<Longrightarrow> st c = Waiting \<Longrightarrow> task_check ctx ro fs c = None \<Longrightarrow>
    pool_step ctx ro cs (fs, st) (fs, st(c := Sourcing))"
| finish: "c \<in> cs \<Longrightarrow> st c = Sourcing \<Longrightarrow> task_run ctx ro fs c = (fs', r) \<Longrightarrow>
    pool_step ctx ro cs (fs, st) (fs', st(c := Finished r))"

end
