(* ===== verification/Cache_Regen_Laws.thy ===== *)
theory Cache_Regen_Laws
  imports Cache_Regen Dep_Laws
begin

text \<open>
  The laws of the regeneration of the cache: tasks of different packages touch different files, so that
  every interleaving of the pool ends with the files and results of the sequence of tasks.
\<close>

section \<open>Paths\<close>

lemma entry_path_display: "entry_path c = cpv_display c"
  by (simp add: entry_path_def cpv_display_def cpn_display_def cpv_pf_def cpv_pvr_def)

lemma cpv_display_inj: "valid_cpv c \<Longrightarrow> valid_cpv d \<Longrightarrow> cpv_display c = cpv_display d \<longleftrightarrow> c = d"
  using parse_cpv_iff [of "cpv_display c" c] parse_cpv_iff [of "cpv_display c" d] by auto

text \<open>A task reads and writes the file of its package only.\<close>

lemma task_check_local: "fs (cpv_display c) = fs' (cpv_display c) \<Longrightarrow> task_check ctx ro fs c = task_check ctx ro fs' c"
  by (simp add: task_check_def cache_read_def cong: sum.case_cong)

lemma task_run_result: "snd (task_run ctx ro fs c) = snd (task_run ctx ro fs' c)"
  by (simp add: task_run_def split: sum.splits)

lemma task_run_same: "fs (cpv_display c) = fs' (cpv_display c) \<Longrightarrow>
    fst (task_run ctx ro fs c) (cpv_display c) = fst (task_run ctx ro fs' c) (cpv_display c)"
  by (simp add: task_run_def cache_update_def entry_path_display split: sum.splits)

lemma task_run_other: "q \<noteq> cpv_display c \<Longrightarrow> fst (task_run ctx ro fs c) q = fs q"
  by (simp add: task_run_def cache_update_def entry_path_display split: sum.splits)

lemma builder_run_other: "q \<noteq> cpv_display c \<Longrightarrow> fst (builder_run ctx ro fs c) q = fs q"
  by (simp add: builder_run_def task_run_other split: option.splits)

lemma builder_run_local:
  assumes "fs (cpv_display c) = fs' (cpv_display c)"
  shows "fst (builder_run ctx ro fs c) (cpv_display c) = fst (builder_run ctx ro fs' c) (cpv_display c)"
    and "snd (builder_run ctx ro fs c) = snd (builder_run ctx ro fs' c)"
  using task_check_local [of fs c fs' ctx ro] task_run_same [of fs c fs' ctx ro] task_run_result [of ctx ro fs c fs'] assms
  by (auto simp: builder_run_def split: option.splits)

section \<open>The sequence of tasks\<close>

definition task_fails :: "cache_ctx \<Rightarrow> regen_opts \<Rightarrow> cache_files \<Rightarrow> cpv \<Rightarrow> bool" where
  "task_fails ctx ro fs c \<longleftrightarrow> (case snd (builder_run ctx ro fs c) of Inl _ \<Rightarrow> True | Inr _ \<Rightarrow> False)"

lemma run_tasks_spec:
  assumes "distinct cs" "\<forall>c \<in> set cs. valid_cpv c"
  shows "snd (run_tasks ctx ro fs cs) = length (filter (task_fails ctx ro fs) cs) \<and>
    (\<forall>c \<in> set cs. fst (run_tasks ctx ro fs cs) (cpv_display c) = fst (builder_run ctx ro fs c) (cpv_display c)) \<and>
    (\<forall>q. q \<notin> cpv_display ` set cs \<longrightarrow> fst (run_tasks ctx ro fs cs) q = fs q)"
  using assms
proof (induction cs arbitrary: fs)
  case (Cons d cs)
  obtain fs1 r where r: "builder_run ctx ro fs d = (fs1, r)" by (cases "builder_run ctx ro fs d")
  obtain fs2 n where n: "run_tasks ctx ro fs1 cs = (fs2, n)" by (cases "run_tasks ctx ro fs1 cs")
  have step: "run_tasks ctx ro fs (d # cs) = (fs2, (case r of Inl _ \<Rightarrow> Suc n | Inr _ \<Rightarrow> n))"
    by (simp add: r n)
  have other: "cpv_display c \<noteq> cpv_display d" if "c \<in> set cs" for c
    using Cons.prems that cpv_display_inj [of c d] by auto
  have same: "fs1 (cpv_display c) = fs (cpv_display c)" if "c \<in> set cs" for c
    using builder_run_other [OF other [OF that], of ctx ro fs] r by simp
  have fails: "filter (task_fails ctx ro fs1) cs = filter (task_fails ctx ro fs) cs"
    using builder_run_local(2) same by (intro filter_cong refl) (metis task_fails_def)
  have IH: "n = length (filter (task_fails ctx ro fs) cs)"
      "\<And>c. c \<in> set cs \<Longrightarrow> fs2 (cpv_display c) = fst (builder_run ctx ro fs1 c) (cpv_display c)"
      "\<And>q. q \<notin> cpv_display ` set cs \<Longrightarrow> fs2 q = fs1 q"
    using Cons.IH [of fs1] Cons.prems n fails by simp_all
  have "fs2 (cpv_display c) = fst (builder_run ctx ro fs c) (cpv_display c)" if "c \<in> set (d # cs)" for c
  proof (cases "c = d")
    case True
    have "cpv_display d \<notin> cpv_display ` set cs" using other by force
    then show ?thesis using IH(3) [of "cpv_display d"] True r by simp
  next
    case False
    then show ?thesis using IH(2) [of c] builder_run_local(1) [of fs1 c fs ctx ro] same that by simp
  qed
  moreover have "fs2 q = fs q" if "q \<notin> cpv_display ` set (d # cs)" for q
    using IH(3) [of q] builder_run_other [of q d ctx ro fs] r that by auto
  moreover have "(case r of Inl _ \<Rightarrow> Suc n | Inr _ \<Rightarrow> n) = length (filter (task_fails ctx ro fs) (d # cs))"
    using IH(1) r by (auto simp: task_fails_def split: sum.splits)
  ultimately show ?case unfolding step by (metis fst_conv snd_conv)
qed simp

section \<open>The pool\<close>

text \<open>What has become of the task of \<open>c\<close>, and of the file of its package.\<close>

definition task_progress :: "cache_ctx \<Rightarrow> regen_opts \<Rightarrow> cache_files \<Rightarrow> cache_files \<Rightarrow> cpv \<Rightarrow> task_state \<Rightarrow> bool" where
  "task_progress ctx ro fs fs' c t \<longleftrightarrow> (case t of
     Waiting \<Rightarrow> fs' (cpv_display c) = fs (cpv_display c)
   | Sourcing \<Rightarrow> fs' (cpv_display c) = fs (cpv_display c) \<and> task_check ctx ro fs c = None
   | Finished r \<Rightarrow> fs' (cpv_display c) = fst (builder_run ctx ro fs c) (cpv_display c) \<and> r = snd (builder_run ctx ro fs c))"

lemma task_progress_same: "task_progress ctx ro fs fs' c t \<Longrightarrow> fs'' (cpv_display c) = fs' (cpv_display c) \<Longrightarrow>
    task_progress ctx ro fs fs'' c t"
  by (auto simp: task_progress_def split: task_state.splits)

definition pool_invariant :: "cache_ctx \<Rightarrow> regen_opts \<Rightarrow> cpv set \<Rightarrow> cache_files \<Rightarrow> pool_state \<Rightarrow> bool" where
  "pool_invariant ctx ro cs fs s \<longleftrightarrow> (\<forall>c \<in> cs. task_progress ctx ro fs (fst s) c (snd s c)) \<and>
     (\<forall>q. q \<notin> cpv_display ` cs \<longrightarrow> fst s q = fs q)"

lemma pool_step_invariant:
  assumes "pool_step ctx ro cs s s'" "\<forall>c \<in> cs. valid_cpv c" "pool_invariant ctx ro cs fs s"
  shows "pool_invariant ctx ro cs fs s'"
  using assms(1)
proof cases
  case (skip c st fs1 r)
  then have "task_progress ctx ro fs fs1 c Waiting" using assms(3) by (auto simp: pool_invariant_def)
  then have same: "fs1 (cpv_display c) = fs (cpv_display c)" by (simp add: task_progress_def)
  then have "task_check ctx ro fs c = Some r" using skip task_check_local [of fs1 c fs ctx ro] by simp
  then have "task_progress ctx ro fs fs1 c (Finished r)" using same by (simp add: task_progress_def builder_run_def)
  then show ?thesis using skip assms(3) by (auto simp: pool_invariant_def)
next
  case (start c st fs1)
  then have "task_progress ctx ro fs fs1 c Waiting" using assms(3) by (auto simp: pool_invariant_def)
  then have same: "fs1 (cpv_display c) = fs (cpv_display c)" by (simp add: task_progress_def)
  then have "task_progress ctx ro fs fs1 c Sourcing" using start task_check_local [of fs1 c fs ctx ro]
    by (simp add: task_progress_def)
  then show ?thesis using start assms(3) by (auto simp: pool_invariant_def)
next
  case (finish c st fs1 fs2 r)
  then have "task_progress ctx ro fs fs1 c Sourcing" using assms(3) by (auto simp: pool_invariant_def)
  then have same: "fs1 (cpv_display c) = fs (cpv_display c)" and none: "task_check ctx ro fs c = None"
    by (simp_all add: task_progress_def)
  have "task_progress ctx ro fs fs2 c (Finished r)"
    using finish none same task_run_same [of fs1 c fs ctx ro] task_run_result [of ctx ro fs1 c fs]
    by (simp add: task_progress_def builder_run_def)
  moreover have others: "fs2 q = fs1 q" if "q \<noteq> cpv_display c" for q
    using task_run_other [OF that, of ctx ro fs1] finish by simp
  moreover have "cpv_display d \<noteq> cpv_display c" if "d \<in> cs" "d \<noteq> c" for d
    using cpv_display_inj [of d c] that finish(3) assms(2) by blast
  ultimately have "task_progress ctx ro fs fs2 d ((st(c := Finished r)) d)" if "d \<in> cs" for d
    using that assms(3) finish(1) task_progress_same [of ctx ro fs fs1 d "st d" fs2]
    by (cases "d = c") (auto simp: pool_invariant_def)
  moreover have "fs2 q = fs q" if "q \<notin> cpv_display ` cs" for q
  proof -
    have "q \<noteq> cpv_display c" using that finish(3) by blast
    then show ?thesis using others [of q] that assms(3) finish(1) by (simp add: pool_invariant_def)
  qed
  ultimately show ?thesis using finish by (simp add: pool_invariant_def)
qed

lemma pool_reachable_invariant:
  assumes "(pool_step ctx ro cs)\<^sup>*\<^sup>* (fs, \<lambda>_. Waiting) s" "\<forall>c \<in> cs. valid_cpv c"
  shows "pool_invariant ctx ro cs fs s"
  using assms(1)
proof (induction rule: rtranclp_induct)
  case base
  then show ?case by (simp add: pool_invariant_def task_progress_def)
qed (rule pool_step_invariant [OF _ assms(2)])

text \<open>Every order of the steps ends with the files and results of the sequence of tasks, and the pool
  cannot stop before or go on for ever.\<close>

lemma pool_outcome:
  assumes "(pool_step ctx ro (set cs))\<^sup>*\<^sup>* (fs, \<lambda>_. Waiting) (fs', st)" "distinct cs" "\<forall>c \<in> set cs. valid_cpv c"
    and "\<forall>c \<in> set cs. \<exists>r. st c = Finished r"
  shows "fs' = fst (run_tasks ctx ro fs cs)"
    and "length (filter (\<lambda>c. \<exists>er. st c = Finished (Inl er)) cs) = snd (run_tasks ctx ro fs cs)"
proof -
  have inv: "pool_invariant ctx ro (set cs) fs (fs', st)" by (rule pool_reachable_invariant [OF assms(1,3)])
  have fin: "fs' (cpv_display c) = fst (builder_run ctx ro fs c) (cpv_display c) \<and> st c = Finished (snd (builder_run ctx ro fs c))"
    if "c \<in> set cs" for c
    using inv assms(4) that by (fastforce simp: pool_invariant_def task_progress_def)
  note spec = run_tasks_spec [OF assms(2,3), of ctx ro fs]
  show "fs' = fst (run_tasks ctx ro fs cs)"
  proof
    fix q show "fs' q = fst (run_tasks ctx ro fs cs) q"
      using spec fin inv by (cases "q \<in> cpv_display ` set cs") (auto simp: pool_invariant_def)
  qed
  have "filter (\<lambda>c. \<exists>er. st c = Finished (Inl er)) cs = filter (task_fails ctx ro fs) cs"
    using fin by (intro filter_cong refl) (auto simp: task_fails_def split: sum.splits)
  then show "length (filter (\<lambda>c. \<exists>er. st c = Finished (Inl er)) cs) = snd (run_tasks ctx ro fs cs)"
    using spec by simp
qed

lemma pool_goes_on:
  assumes "c \<in> cs" "\<forall>r. st c \<noteq> Finished r"
  shows "\<exists>s'. pool_step ctx ro cs (fs, st) s'"
proof (cases "st c")
  case Waiting
  then show ?thesis using assms(1) by (cases "task_check ctx ro fs c") (auto intro: pool_step.intros)
next
  case Sourcing
  then show ?thesis using assms(1) by (cases "task_run ctx ro fs c") (auto intro: pool_step.intros)
qed (use assms(2) in simp)

definition task_rank :: "task_state \<Rightarrow> nat" where
  "task_rank t = (case t of Waiting \<Rightarrow> 2 | Sourcing \<Rightarrow> 1 | Finished _ \<Rightarrow> 0)"

lemma sum_task_rank:
  assumes "finite cs" "c \<in> cs" "task_rank t < task_rank (st c)"
  shows "(\<Sum>d \<in> cs. task_rank ((st(c := t)) d)) < (\<Sum>d \<in> cs. task_rank (st d))"
  using assms by (intro sum_strict_mono_ex1) auto

lemma pool_step_decreases:
  assumes "finite cs" "pool_step ctx ro cs s s'"
  shows "(\<Sum>d \<in> cs. task_rank (snd s' d)) < (\<Sum>d \<in> cs. task_rank (snd s d))"
  using assms(2)
  by cases (simp_all del: fun_upd_apply, (intro sum_task_rank [OF assms(1)]; simp add: task_rank_def)+)

lemma pool_ends: "finite cs \<Longrightarrow> wfp (pool_step ctx ro cs)\<inverse>\<inverse>"
  by (rule wfp_if_convertible_to_nat [where f = "\<lambda>s. \<Sum>d \<in> cs. task_rank (snd s d)"]) (auto dest: pool_step_decreases)

section \<open>What regeneration leaves\<close>

text \<open>What sourcing an ebuild has to give for its entry to read back.\<close>

definition sources_well :: "cache_ctx \<Rightarrow> cpv \<Rightarrow> bool" where
  "sources_well ctx c \<longleftrightarrow> (case cc_raw ctx c of Inl _ \<Rightarrow> True | Inr (e, chksum) \<Rightarrow> eapi_reads e \<and>
     (case cc_env ctx c of Inl _ \<Rightarrow> True | Inr env \<Rightarrow> source_env_ok (cc_repo ctx) (env\<lparr>se_chksum := chksum\<rparr>) \<and>
       (case source_metadata ctx c of Inl _ \<Rightarrow> True | Inr m \<Rightarrow> plain_uris (md_src_uri m))))"

lemma source_metadata_Inr:
  assumes "source_metadata ctx c = Inr m" "sources_well ctx c"
  obtains e chksum env where "cc_raw ctx c = Inr (e, chksum)" "eapi_reads e"
    "source_env_ok (cc_repo ctx) (env\<lparr>se_chksum := chksum\<rparr>)" "se_chksum (env\<lparr>se_chksum := chksum\<rparr>) = chksum"
    "metadata_from_env (cc_sets ctx) e (cc_repo ctx) (env\<lparr>se_chksum := chksum\<rparr>) = Inr m"
    "plain_uris (md_src_uri m)"
  using assms by (auto simp: source_metadata_def sources_well_def split: sum.splits prod.splits)

lemma read_updated: "cache_read (cache_update fs c m) c = ReadOk (entry_to_bytes (entry_of m))"
  by (simp add: cache_read_def cache_update_def entry_path_display)

lemma updated_metadata:
  assumes "metadata_sets (cc_sets ctx)" "sources_well ctx c" "source_metadata ctx c = Inr m" "md_description m \<noteq> []"
  shows "files_metadata ctx (cache_update fs c m) c = Inr m"
  using assms(3,2)
proof (rule source_metadata_Inr)
  fix e chksum env
  assume raw: "cc_raw ctx c = Inr (e, chksum)" and e: "eapi_reads e"
    and env: "source_env_ok (cc_repo ctx) (env\<lparr>se_chksum := chksum\<rparr>)" and chk: "se_chksum (env\<lparr>se_chksum := chksum\<rparr>) = chksum"
    and m: "metadata_from_env (cc_sets ctx) e (cc_repo ctx) (env\<lparr>se_chksum := chksum\<rparr>) = Inr m"
    and uris: "plain_uris (md_src_uri m)"
  show ?thesis
    using metadata_sets.cached_round [OF assms(1) e env m uris assms(4)] raw by (simp add: files_metadata_def read_updated)
qed

lemma updated_verifies:
  assumes "metadata_sets (cc_sets ctx)" "sources_well ctx c" "source_metadata ctx c = Inr m" "ro_verify ro = False"
  shows "task_check ctx ro (cache_update fs c m) c = (if ro_force ro then None else Some (Inr ()))"
  using assms(3,2)
proof (rule source_metadata_Inr)
  fix e chksum env
  assume raw: "cc_raw ctx c = Inr (e, chksum)" and e: "eapi_reads e"
    and env: "source_env_ok (cc_repo ctx) (env\<lparr>se_chksum := chksum\<rparr>)" and chk: "se_chksum (env\<lparr>se_chksum := chksum\<rparr>) = chksum"
    and m: "metadata_from_env (cc_sets ctx) e (cc_repo ctx) (env\<lparr>se_chksum := chksum\<rparr>) = Inr m"
    and uris: "plain_uris (md_src_uri m)"
  show ?thesis
    using metadata_sets.entry_text_round [OF assms(1) e env m uris] metadata_sets.entry_verify_ok [OF assms(1) e env m]
      raw assms(4) by (simp add: task_check_def read_updated cache_get_def)
qed

lemma builder_run_again:
  assumes "metadata_sets (cc_sets ctx)" "sources_well ctx c" "ro_verify ro = False"
    and "fs' (cpv_display c) = fst (builder_run ctx ro fs c) (cpv_display c)"
  shows "fst (builder_run ctx ro fs' c) (cpv_display c) = fs' (cpv_display c)"
    and "snd (builder_run ctx ro fs' c) = snd (builder_run ctx ro fs c)"
proof -
  have again: "builder_run ctx ro (fst (builder_run ctx ro fs c)) c = builder_run ctx ro fs c"
  proof (cases "task_check ctx ro fs c")
    case None
    show ?thesis
    proof (cases "source_metadata ctx c")
      case (Inl er)
      then show ?thesis using None by (simp add: builder_run_def task_run_def)
    next
      case (Inr m)
      then show ?thesis using None assms(3) updated_verifies [OF assms(1,2) Inr assms(3)]
        by (simp add: builder_run_def task_run_def) (simp add: cache_update_def)
    qed
  next
    case (Some r)
    then show ?thesis by (simp add: builder_run_def)
  qed
  show "fst (builder_run ctx ro fs' c) (cpv_display c) = fs' (cpv_display c)"
    "snd (builder_run ctx ro fs' c) = snd (builder_run ctx ro fs c)"
    using builder_run_local [of fs' c "fst (builder_run ctx ro fs c)" ctx ro] assms(4) again by simp_all
qed

lemma cache_valid_kept: "valid_cpv c \<Longrightarrow> c \<in> set cs \<Longrightarrow> cache_valid_path cs (cpv_display c)"
proof -
  assume c: "valid_cpv c" "c \<in> set cs"
  then have "wf_cpv c" by (simp add: valid_cpv_def plain_version_def wf_cpv_def)
  then have "cpv_eq c c" using total_cmp.refl [OF total_cmp_cpv] by (simp add: cpv_eq_iff)
  with c show ?thesis using parse_cpv_iff [of "cpv_display c" c] by (auto simp: cache_valid_path_def mem_by_iff)
qed

text \<open>The packages a regeneration runs over, and the files it runs on.\<close>

definition regen_cpvs :: "cache_regen \<Rightarrow> cpv list \<Rightarrow> cpv list" where
  "regen_cpvs g all_cpvs = (case rg_targets g of None \<Rightarrow> all_cpvs | Some ts \<Rightarrow> ts)"

definition regen_start :: "cache_regen \<Rightarrow> cpv list \<Rightarrow> cache_files \<Rightarrow> cache_files" where
  "regen_start g cs fs = (if rg_clean g then cache_clean fs cs else fs)"

lemma regen_start_kept: "valid_cpv c \<Longrightarrow> c \<in> set cs \<Longrightarrow> regen_start g cs fs (cpv_display c) = fs (cpv_display c)"
  by (simp add: regen_start_def cache_clean_def cache_valid_kept)

lemma regen_start_again: "fs' q = regen_start g cs fs q \<Longrightarrow> regen_start g cs fs' q = fs' q"
  by (simp add: regen_start_def cache_clean_def)

lemma regen_run_sequence:
  assumes "regen_run ctx g all_cpvs fs = (fs', r)" "cs = regen_cpvs g all_cpvs"
  shows "fs' = fst (run_tasks ctx (rg_task g) (regen_start g cs fs) cs)"
    and "r = Inr () \<longleftrightarrow> snd (run_tasks ctx (rg_task g) (regen_start g cs fs) cs) = 0"
  using assms by (auto simp: regen_run_def Let_def regen_start_def regen_cpvs_def split: prod.splits if_splits)

text \<open>What is left after cleaning and running the tasks.\<close>

lemma regen_files:
  assumes "regen_run ctx g all_cpvs fs = (fs', r)" "cs = regen_cpvs g all_cpvs" "distinct cs" "\<forall>c \<in> set cs. valid_cpv c"
  shows "c \<in> set cs \<Longrightarrow> fs' (cpv_display c) = fst (builder_run ctx (rg_task g) fs c) (cpv_display c)"
    and "q \<notin> cpv_display ` set cs \<Longrightarrow> fs' q = regen_start g cs fs q"
    and "r = Inr () \<longleftrightarrow> (\<forall>c \<in> set cs. \<not> task_fails ctx (rg_task g) fs c)"
proof -
  let ?ro = "rg_task g" and ?fs = "regen_start g cs fs"
  note spec = run_tasks_spec [OF assms(3,4), of ctx ?ro ?fs] and run = regen_run_sequence [OF assms(1,2)]
  have same: "?fs (cpv_display c) = fs (cpv_display c)" if "c \<in> set cs" for c
    using regen_start_kept assms(4) that by blast
  show "c \<in> set cs \<Longrightarrow> fs' (cpv_display c) = fst (builder_run ctx ?ro fs c) (cpv_display c)"
    using spec run(1) builder_run_local(1) [of ?fs c fs ctx ?ro] same by simp
  show "q \<notin> cpv_display ` set cs \<Longrightarrow> fs' q = ?fs q" using spec run(1) by simp
  have "task_fails ctx ?ro ?fs c = task_fails ctx ?ro fs c" if "c \<in> set cs" for c
    using builder_run_local(2) [of ?fs c fs ctx ?ro] same [OF that] by (simp add: task_fails_def)
  then show "r = Inr () \<longleftrightarrow> (\<forall>c \<in> set cs. \<not> task_fails ctx ?ro fs c)"
    using spec run(2) by (simp add: filter_empty_conv)
qed

lemma forced_run: "ro_force ro \<Longrightarrow> builder_run ctx ro fs c = task_run ctx ro fs c"
  by (simp add: builder_run_def task_check_def)

lemma forced_fails: "ro_force ro \<Longrightarrow> task_fails ctx ro fs c \<longleftrightarrow> (\<forall>m. source_metadata ctx c \<noteq> Inr m)"
  by (auto simp: task_fails_def forced_run task_run_def split: sum.splits)

lemma regen_forced:
  assumes "regen_run ctx g all_cpvs fs = (fs', r)" "cs = regen_cpvs g all_cpvs" "ro_force (rg_task g)" "\<not> ro_verify (rg_task g)"
    and "distinct cs" "\<forall>c \<in> set cs. valid_cpv c"
  shows "r = Inr () \<longleftrightarrow> (\<forall>c \<in> set cs. \<exists>m. source_metadata ctx c = Inr m)"
    and "c \<in> set cs \<Longrightarrow> source_metadata ctx c = Inr m \<Longrightarrow> fs' (cpv_display c) = Some (entry_to_bytes (entry_of m))"
    and "\<forall>c \<in> set cs. \<forall>m. source_metadata ctx c = Inr m \<longrightarrow> q \<noteq> cpv_display c \<Longrightarrow> fs' q = regen_start g cs fs q"
proof -
  note files = regen_files [OF assms(1,2,5,6)] and forced = forced_run [OF assms(3)]
  show "r = Inr () \<longleftrightarrow> (\<forall>c \<in> set cs. \<exists>m. source_metadata ctx c = Inr m)"
    using files(3) forced_fails [OF assms(3)] by simp
  show "c \<in> set cs \<Longrightarrow> source_metadata ctx c = Inr m \<Longrightarrow> fs' (cpv_display c) = Some (entry_to_bytes (entry_of m))"
    using files(1) forced assms(4) by (simp add: task_run_def cache_update_def entry_path_display)
  assume q: "\<forall>c \<in> set cs. \<forall>m. source_metadata ctx c = Inr m \<longrightarrow> q \<noteq> cpv_display c"
  show "fs' q = regen_start g cs fs q"
  proof (cases "q \<in> cpv_display ` set cs")
    case True
    then obtain c where c: "c \<in> set cs" "q = cpv_display c" by blast
    then obtain er where "source_metadata ctx c = Inl er" using q by (cases "source_metadata ctx c") auto
    then show ?thesis
      using files(1) [OF c(1)] forced c regen_start_kept [of c cs g fs] assms(6) by (simp add: task_run_def)
  qed (rule files(2))
qed

lemma entry_metadata:
  assumes "metadata_sets (cc_sets ctx)" "sources_well ctx c" "source_metadata ctx c = Inr m" "md_description m \<noteq> []"
    and "fs (cpv_display c) = Some (entry_to_bytes (entry_of m))"
  shows "files_metadata ctx fs c = Inr m"
proof -
  have "cache_read fs c = cache_read (cache_update fs c m) c" using assms(5) by (simp add: read_updated) (simp add: cache_read_def)
  then have "files_metadata ctx fs c = files_metadata ctx (cache_update fs c m) c" unfolding files_metadata_def by presburger
  then show ?thesis using updated_metadata [OF assms(1-4)] by simp
qed

lemma regen_idempotent:
  assumes "regen_run ctx g all_cpvs fs = (fs', r)" "cs = regen_cpvs g all_cpvs" "\<not> ro_verify (rg_task g)"
    and "distinct cs" "\<forall>c \<in> set cs. valid_cpv c"
    and "metadata_sets (cc_sets ctx)" "\<forall>c \<in> set cs. sources_well ctx c"
  shows "regen_run ctx g all_cpvs fs' = (fs', r)"
proof -
  let ?ro = "rg_task g"
  obtain fs2 r2 where second: "regen_run ctx g all_cpvs fs' = (fs2, r2)" by (cases "regen_run ctx g all_cpvs fs'")
  note one = regen_files [OF assms(1,2,4,5)] and two = regen_files [OF second assms(2,4,5)]
  have again: "fst (builder_run ctx ?ro fs' c) (cpv_display c) = fs' (cpv_display c)"
      "snd (builder_run ctx ?ro fs' c) = snd (builder_run ctx ?ro fs c)" if "c \<in> set cs" for c
    using builder_run_again [of ctx c ?ro fs' fs] assms(3,6,7) one(1) [OF that] that by auto
  have "fs2 q = fs' q" for q
  proof (cases "q \<in> cpv_display ` set cs")
    case True
    then show ?thesis using two(1) again(1) by auto
  next
    case False
    then show ?thesis using one(2) two(2) regen_start_again by metis
  qed
  moreover have "r2 = Inr () \<longleftrightarrow> r = Inr ()" using one(3) two(3) again(2) by (simp add: task_fails_def)
  moreover have "r = Inr () \<or> r = Inl (InvalidValue ''metadata failures occurred'' [])"
    if "regen_run ctx g all_cpvs fs = (fs', r)" for fs fs' r
    using that by (auto simp: regen_run_def Let_def split: prod.splits if_splits)
  then have "r = Inr () \<or> r = Inl (InvalidValue ''metadata failures occurred'' [])"
    "r2 = Inr () \<or> r2 = Inl (InvalidValue ''metadata failures occurred'' [])" using assms(1) second by blast+
  ultimately show ?thesis using second by auto
qed

end
