(* ===== verification/Metadata_Props.thy ===== *)
theory Metadata_Props
  imports Cache_Regen_Laws Eapi_Props
begin

text \<open>
  The properties of package metadata and of its cache.
\<close>

section \<open>The registered EAPIs\<close>

definition phases_keyed :: "eapi option \<Rightarrow> bool" where
  "phases_keyed r = (case r of None \<Rightarrow> False | Some e \<Rightarrow>
     list_all (\<lambda>k. case eapi_phases e k of None \<Rightarrow> True | Some p \<Rightarrow> ph_kind p = k) all_phase_kinds \<and>
     list_all (\<lambda>k. k \<in> eapi_metadata_keys e) [K_EAPI, K_CHKSUM, K_SLOT, K_INHERIT, K_INHERITED, K_DESCRIPTION] \<and>
     eapi_mandatory_keys e = {K_EAPI, K_SLOT, K_DESCRIPTION})"

lemma phases_keyed_table:
  "phases_keyed EAPI5" "phases_keyed EAPI6" "phases_keyed EAPI7" "phases_keyed EAPI8" "phases_keyed EAPI_PKGCRAFT"
  by code_simp+

lemma eapi_from_id: "e \<in> set EAPIS \<Longrightarrow> eapi_from_str (eapi_id e) = Inr e"
proof -
  assume "e \<in> set EAPIS"
  then obtain i where "i < length EAPIS" "e = EAPIS ! i" by (metis in_set_conv_nth)
  then show ?thesis using eapis_index_nth [of i] by (simp add: eapi_from_str_cases nth_mem)
qed

lemma eapis_keyed: "e \<in> set EAPIS \<Longrightarrow> phases_keyed (Some e)"
proof -
  have "phases_keyed r \<Longrightarrow> phases_keyed (Some (the r))" for r by (cases r) (simp_all add: phases_keyed_def)
  then show "e \<in> set EAPIS \<Longrightarrow> ?thesis"
    using phases_keyed_table by (auto simp: EAPIS_def EAPIS_OFFICIAL_def EAPIS_UNOFFICIAL_def)
qed

lemma eapis_read: "e \<in> set EAPIS \<Longrightarrow> eapi_reads e \<and> K_DESCRIPTION \<in> eapi_mandatory_keys e \<inter> eapi_metadata_keys e"
proof -
  assume e: "e \<in> set EAPIS"
  have "phases_keyed (Some e)" by (rule eapis_keyed [OF e])
  moreover have "eapi_id e \<in> {''5'', ''6'', ''7'', ''8'', ''pkgcraft''}"
    using e EAPIS_ids by (metis image_eqI list.set_map list.simps(15) set_empty empty_set)
  then have "one_line (eapi_id e) \<and> eapi_id e \<noteq> []" by (auto simp: line_char_def)
  ultimately show ?thesis
    using eapi_from_id [OF e] by (auto simp: eapi_reads_def phases_keyed_def list_all_iff split: option.splits)
qed

section \<open>An example\<close>

definition example_eclass :: eclass where
  "example_eclass = \<lparr>ec_name = ''git'', ec_path = ''/r/eclass/git.eclass'', ec_chksum = ''c0''\<rparr>"

definition example_repo :: repo_info where
  "example_repo = \<lparr>ri_eclasses = [example_eclass], ri_arches = [Arch ''amd64'']\<rparr>"

definition example_env :: "string \<Rightarrow> source_env" where
  "example_env desc = \<lparr>se_incrementals = [K_IUSE \<mapsto> [''+u'', ''v'']],
     se_variables = [K_EAPI \<mapsto> ''8'', K_DESCRIPTION \<mapsto> desc, K_SLOT \<mapsto> ''0/1'', K_KEYWORDS \<mapsto> '' ~amd64  -* '',
       K_LICENSE \<mapsto> ''|| ( MIT  GPL-2 )'', K_SRC_URI \<mapsto> '' u? (  h://x/a?b -> c ) h://x/d''],
     se_functions = {}, se_inherit = [example_eclass], se_inherited = [example_eclass], se_chksum = ''f00''\<rparr>"

definition example_uris :: "uri dependency list" where
  "example_uris = [Conditional (condition True ''u'') [Enabled \<lparr>uri_uri = ''h://x/a?b'', uri_rename = Some ''c''\<rparr>],
     Enabled \<lparr>uri_uri = ''h://x/d'', uri_rename = None\<rparr>]"

definition example_metadata :: "string list \<Rightarrow> metadata" where
  "example_metadata desc = metadata_default
     \<lparr>md_eapi := EAPIS ! 3, md_description := join_with '' '' desc, md_slot := Slot ''0/1'',
      md_keywords := [\<lparr>kw_status = KeywordUnstable, kw_arch = Arch ''amd64''\<rparr>, \<lparr>kw_status = KeywordDisabled, kw_arch = Arch ''*''\<rparr>],
      md_iuse := [\<lparr>iu_flag = ''u'', iu_default = Some True\<rparr>, \<lparr>iu_flag = ''v'', iu_default = None\<rparr>],
      md_license := [AnyOf [Enabled ''MIT'', Enabled ''GPL-2'']], md_src_uri := example_uris,
      md_inherit := [example_eclass], md_inherited := [example_eclass], md_chksum := ''f00''\<rparr>"

lemma example_keys: "keys_of (eapi_metadata_keys (EAPIS ! 3)) =
    [K_BDEPEND, K_CHKSUM, K_DEFINED_PHASES, K_DEPEND, K_DESCRIPTION, K_EAPI, K_HOMEPAGE, K_IDEPEND, K_INHERIT,
     K_INHERITED, K_IUSE, K_KEYWORDS, K_LICENSE, K_PDEPEND, K_PROPERTIES, K_RDEPEND, K_REQUIRED_USE, K_RESTRICT,
     K_SLOT, K_SRC_URI]"
proof -
  obtain z where z: "EAPI8 = Some z" using registered(4) by blast
  have "map_option (\<lambda>e. filter (\<lambda>k. k \<in> eapi_metadata_keys e) all_keys) EAPI8 = Some all_keys" by code_simp
  then have "filter (\<lambda>k. k \<in> eapi_metadata_keys z) all_keys = all_keys" unfolding z by simp
  moreover have "EAPIS ! 3 = z" by (simp add: EAPIS_def EAPIS_OFFICIAL_def z)
  ultimately have "filter (\<lambda>k. k \<in> eapi_metadata_keys (EAPIS ! 3)) all_keys = all_keys" by simp
  then have "eapi_metadata_keys (EAPIS ! 3) = UNIV" using all_keys_complete by (auto simp: filter_id_conv)
  then have "keys_of (eapi_metadata_keys (EAPIS ! 3)) = sort_cmp key_cmp all_keys" by (simp add: keys_of_def)
  also have "\<dots> = [K_BDEPEND, K_CHKSUM, K_DEFINED_PHASES, K_DEPEND, K_DESCRIPTION, K_EAPI, K_HOMEPAGE, K_IDEPEND, K_INHERIT,
     K_INHERITED, K_IUSE, K_KEYWORDS, K_LICENSE, K_PDEPEND, K_PROPERTIES, K_RDEPEND, K_REQUIRED_USE, K_RESTRICT,
     K_SLOT, K_SRC_URI]" by code_simp
  finally show ?thesis .
qed

lemma example_fields:
  "join_with '' '' (split_whitespace ''8'') = ''8''" "join_with '' '' (split_whitespace ''0/1'') = ''0/1''"
  "parse_slot ''0/1'' = Inr (Slot ''0/1'')"
  "collect_set (so_keywords ref_sets) (map (get_keyword example_repo) (split_whitespace (join_with '' '' (split_whitespace '' ~amd64  -* '')))) =
     Inr [\<lparr>kw_status = KeywordUnstable, kw_arch = Arch ''amd64''\<rparr>, \<lparr>kw_status = KeywordDisabled, kw_arch = Arch ''*''\<rparr>]"
  "collect_set (so_iuse ref_sets) (map iuse_try_new (split_whitespace (join_with '' '' [''+u'', ''v'']))) =
     Inr [\<lparr>iu_flag = ''u'', iu_default = Some True\<rparr>, \<lparr>iu_flag = ''v'', iu_default = None\<rparr>]"
  "parse_license_dependency_set (so_strings ref_sets) (join_with '' '' (split_whitespace ''|| ( MIT  GPL-2 )'')) =
     Inr [AnyOf [Enabled ''MIT'', Enabled ''GPL-2'']]"
  "parse_src_uri_dependency_set (so_uris ref_sets) (join_with '' '' (split_whitespace '' u? (  h://x/a?b -> c ) h://x/d'')) =
     Inr example_uris"
  "plain_uris example_uris"
  by code_simp+

lemma example_eapi: "EAPIS ! 3 \<in> set EAPIS" "eapi_id (EAPIS ! 3) = ''8''" "eapi_from_str ''8'' = Inr (EAPIS ! 3)"
    "eapi_mandatory_keys (EAPIS ! 3) = {K_EAPI, K_SLOT, K_DESCRIPTION}"
proof -
  show e: "EAPIS ! 3 \<in> set EAPIS" by (simp add: length_EAPIS)
  show i: "eapi_id (EAPIS ! 3) = ''8''" using nth_map [of 3 EAPIS eapi_id] EAPIS_ids length_EAPIS by simp
  show "eapi_from_str ''8'' = Inr (EAPIS ! 3)" using eapi_from_id [OF e] i by simp
  show "eapi_mandatory_keys (EAPIS ! 3) = {K_EAPI, K_SLOT, K_DESCRIPTION}"
    using eapis_keyed [OF e] by (simp add: phases_keyed_def)
qed

lemma no_phases: "phases_defined so e {} = []"
  by (simp add: phases_defined_def is_collect_def)

lemma example_sourced: "metadata_from_env ref_sets (EAPIS ! 3) example_repo (example_env desc) = Inr (example_metadata (split_whitespace desc))"
  unfolding metadata_from_env_def example_keys
  by (simp add: env_field_def example_env_def example_fields example_eapi no_phases set_field_def eapi_eq_def
    example_metadata_def metadata_default_def del: map_map split_whitespace_def join_with.simps List.list.map)

lemma example_ok: "source_env_ok example_repo (example_env desc)" "plain_uris (md_src_uri (example_metadata ws))"
proof -
  have "list_all is_word [''+u'', ''v'']" "is_word ''f00''" "eclass_known example_repo example_eclass" by code_simp+
  then show "source_env_ok example_repo (example_env desc)"
    by (simp add: source_env_ok_def example_env_def)
  show "plain_uris (md_src_uri (example_metadata ws))"
    using example_fields(8) by (simp add: example_metadata_def)
qed

text \<open>A repository in which every ebuild is sourced as the example.\<close>

definition example_ctx :: "string \<Rightarrow> cache_ctx" where
  "example_ctx desc = \<lparr>cc_sets = ref_sets, cc_repo = example_repo, cc_raw = (\<lambda>_. Inr (EAPIS ! 3, ''f00'')),
     cc_env = (\<lambda>_. Inr (example_env desc))\<rparr>"

definition example_cpvs :: "cpv list" where
  "example_cpvs = oks (map parse_cpv [''a/b-1'', ''a/c-2-r1''])"

lemma example_ctx_facts:
  "cc_sets (example_ctx desc) = ref_sets" "cc_raw (example_ctx desc) c = Inr (EAPIS ! 3, ''f00'')"
  "source_metadata (example_ctx desc) c = Inr (example_metadata (split_whitespace desc))"
  "sources_well (example_ctx desc) c"
proof -
  have "(example_env desc)\<lparr>se_chksum := ''f00''\<rparr> = example_env desc" by (simp add: example_env_def)
  then show m: "source_metadata (example_ctx desc) c = Inr (example_metadata (split_whitespace desc))"
    and "sources_well (example_ctx desc) c"
    using example_sourced [of desc] example_ok eapis_read [OF example_eapi(1)]
    by (simp_all add: sources_well_def source_metadata_def example_ctx_def)
qed (simp_all add: example_ctx_def)

lemma example_cpvs_valid: "distinct example_cpvs \<and> (\<forall>c \<in> set example_cpvs. valid_cpv c) \<and> length example_cpvs = 2"
proof -
  have "length example_cpvs = 2 \<and> distinct example_cpvs" by code_simp
  moreover have "list_all valid_cpv (oks (map parse_cpv ls))" for ls
    by (auto simp: list_all_iff oks_def map_filter_def split: sum.splits) (metis parse_cpv_iff)
  ultimately show ?thesis unfolding example_cpvs_def list_all_iff by blast
qed

section \<open>Properties\<close>

text \<open>C26: metadata that was read from the environment of a sourced ebuild, written to the metadata
  cache and read from it again, is the same metadata: the entry is accepted by verification, and
  every field parses back to its value, \<open>SRC_URI\<close> with its renames included. The incrementals of
  the environment are words, its eclasses those of the repository, each once. Two kinds of metadata are left
  out, as they are not read back: that with an empty description (\<open>cache_empty_description\<close>), and that
  with a URI that begins with other than a letter, a digit or an underscore or ends in a question mark, which
  the grammar of \<open>SRC_URI\<close> may have read in place of a group or a rename
  (\<open>uris_not_read_back\<close>).\<close>

theorem cache_roundtrip:
  assumes "metadata_sets so" "e \<in> set EAPIS" "source_env_ok ri env" "metadata_from_env so e ri env = Inr m"
    and "plain_uris (md_src_uri m)" "md_description m \<noteq> []"
  shows "cached_metadata so e ri (se_chksum env) (ReadOk (entry_to_bytes (entry_of m))) = Inr m"
  using metadata_sets.cached_round [OF assms(1)] eapis_read [OF assms(2)] assms(3-6) by blast

lemma cache_roundtrip_witness:
  "cached_metadata ref_sets (EAPIS ! 3) example_repo ''f00''
     (ReadOk (entry_to_bytes (entry_of (example_metadata [''a'', ''tool''])))) = Inr (example_metadata [''a'', ''tool''])"
proof -
  have words: "split_whitespace ''a  tool '' = [''a'', ''tool'']" by code_simp
  have "cached_metadata ref_sets (EAPIS ! 3) example_repo (se_chksum (example_env ''a  tool ''))
     (ReadOk (entry_to_bytes (entry_of (example_metadata [''a'', ''tool''])))) = Inr (example_metadata [''a'', ''tool''])"
    by (rule cache_roundtrip [OF reference.metadata_sets_axioms example_eapi(1) example_ok(1)])
      (simp_all add: example_sourced words example_ok, simp add: example_metadata_def)
  then show ?thesis by (simp add: example_env_def)
qed

text \<open>Metadata with an empty description, as an ebuild is read that sets \<open>DESCRIPTION\<close> to
  nothing, is written to the cache without that key, and reading the entry fails: the metadata of such
  a package is an error although regenerating its entry succeeds.\<close>

lemma cache_empty_description:
  assumes "metadata_sets (cc_sets ctx)" "sources_well ctx c" "cc_raw ctx c = Inr (e, chksum)" "e \<in> set EAPIS"
    and "source_metadata ctx c = Inr m" "md_description m = []" "fs (cpv_display c) = None"
  shows "\<exists>er. raw_metadata ctx True fs c = (cache_update fs c m, Inl er)"
proof -
  obtain env where env: "source_env_ok (cc_repo ctx) (env\<lparr>se_chksum := chksum\<rparr>)"
      "metadata_from_env (cc_sets ctx) e (cc_repo ctx) (env\<lparr>se_chksum := chksum\<rparr>) = Inr m"
      "plain_uris (md_src_uri m)" "se_chksum (env\<lparr>se_chksum := chksum\<rparr>) = chksum"
    using source_metadata_Inr [OF assms(5,2)] assms(3) by (metis Inr_inject prod.inject)
  have e: "eapi_reads e" "K_DESCRIPTION \<in> eapi_mandatory_keys e \<inter> eapi_metadata_keys e"
    using eapis_read [OF assms(4)] by blast+
  show ?thesis
    using metadata_sets.cached_without_description [OF assms(1) e(1) env(1-3) assms(6) e(2)] assms(3,5,7) env(4)
    by (auto simp: raw_metadata_def builder_run_def task_check_def task_run_def files_metadata_def read_updated
      cache_read_def [of fs] cached_metadata_def [of _ _ _ _ ReadNotFound] cache_get_def [of _ _ ReadNotFound])
qed

text \<open>A keyword is read from exactly the text it prints as, an architecture name of letters,
  digits, underscores and dashes that does not begin with a dash, bare, after a tilde or after a dash,
  or as \<open>-*\<close>; an IUSE flag is read from exactly a flag name, bare or after its sign.\<close>

lemma keyword_iuse_text:
  "(keyword_try_new s = Inr k \<longleftrightarrow> s = keyword_display k \<and> valid_keyword k) \<and>
   (iuse_try_new s = Inr i \<longleftrightarrow> s = iuse_display i \<and> is_name flag_first flag_char (iu_flag i))"
  by (simp add: keyword_text_iff iuse_text_iff)

text \<open>C27: the tasks of a pool that regenerates the cache leave, in whatever order their steps
  interleave, the files that running them one after the other leaves, and the same number of failures;
  no order of steps stops while a task is unfinished, and none goes on for ever.\<close>

theorem pool_matches_sequence:
  assumes "distinct cs" "\<forall>c \<in> set cs. valid_cpv c" "(pool_step ctx ro (set cs))\<^sup>*\<^sup>* (fs, \<lambda>_. Waiting) (fs', st)"
  shows "((\<forall>s. \<not> pool_step ctx ro (set cs) (fs', st) s) \<longrightarrow>
      (fs', length (filter (\<lambda>c. \<exists>er. st c = Finished (Inl er)) cs)) = run_tasks ctx ro fs cs) \<and>
    wfp (pool_step ctx ro (set cs))\<inverse>\<inverse>"
proof -
  have "\<forall>c \<in> set cs. \<exists>r. st c = Finished r" if "\<forall>s. \<not> pool_step ctx ro (set cs) (fs', st) s"
    using pool_goes_on [of _ "set cs" st ctx ro fs'] that by blast
  then show ?thesis using pool_outcome [OF assms(3,1,2)] pool_ends [of "set cs" ctx ro] by (simp add: prod_eq_iff)
qed

lemma pool_matches_sequence_witness:
  "wfp (pool_step (example_ctx ''d'') \<lparr>ro_force = False, ro_verify = False\<rparr> (set example_cpvs))\<inverse>\<inverse>"
  using pool_matches_sequence [of example_cpvs "example_ctx ''d''" _ Map.empty, OF _ _ rtranclp.rtrancl_refl] example_cpvs_valid
  by blast

text \<open>C28: forced regeneration, of the whole cache or of some packages of it and with or without cleaning,
  succeeds exactly when every ebuild asked for can be sourced. Afterwards the file of each that can be
  holds its entry, from which the metadata that sourcing it gives is read back where its
  description is not empty and its URIs are plain; every other file is as it was, that of an ebuild that fails
  included, but that with cleaning the files two levels below the directory that are named like no package
  asked for are gone. The model leaves out writes and removals that fail.\<close>

theorem regen_restores:
  assumes "regen_run ctx g all_cpvs fs = (fs', r)" "ro_force (rg_task g)" "\<not> ro_verify (rg_task g)"
    and "cs = (case rg_targets g of None \<Rightarrow> all_cpvs | Some ts \<Rightarrow> ts)" "distinct cs" "\<forall>c \<in> set cs. valid_cpv c"
    and "metadata_sets (cc_sets ctx)" "\<forall>c \<in> set cs. sources_well ctx c"
  shows "(r = Inr () \<longleftrightarrow> (\<forall>c \<in> set cs. \<exists>m. source_metadata ctx c = Inr m)) \<and>
    (\<forall>c \<in> set cs. \<forall>m. source_metadata ctx c = Inr m \<longrightarrow> fs' (cpv_display c) = Some (entry_to_bytes (entry_of m)) \<and>
      (md_description m \<noteq> [] \<longrightarrow> files_metadata ctx fs' c = Inr m)) \<and>
    (\<forall>q. (\<forall>c \<in> set cs. \<forall>m. source_metadata ctx c = Inr m \<longrightarrow> q \<noteq> cpv_display c) \<longrightarrow>
      fs' q = (if rg_clean g \<and> length (split_char (CHR ''/'') q) = 2 \<and>
          \<not> (\<exists>d. parse_cpv q = Inr d \<and> (\<exists>c \<in> set cs. cpv_eq c d)) then None else fs q))"
proof -
  have "cs = regen_cpvs g all_cpvs" using assms(4) by (simp add: regen_cpvs_def)
  note forced = regen_forced [OF assms(1) this assms(2,3,5,6)]
  have start: "regen_start g cs fs q = (if rg_clean g \<and> length (split_char (CHR ''/'') q) = 2 \<and>
      \<not> (\<exists>d. parse_cpv q = Inr d \<and> (\<exists>c \<in> set cs. cpv_eq c d)) then None else fs q)" for q
    by (cases "parse_cpv q") (auto simp: regen_start_def cache_clean_def entry_level_def cache_valid_path_def mem_by_iff)
  have "files_metadata ctx fs' c = Inr m" if "c \<in> set cs" "source_metadata ctx c = Inr m" "md_description m \<noteq> []" for c m
    using entry_metadata [OF assms(7) _ that(2,3)] forced(2) [OF that(1,2)] assms(8) that(1) by blast
  with forced(1,2) show ?thesis unfolding start [symmetric] using forced(3) by blast
qed

lemma regen_restores_witness:
  "let run = regen_run (example_ctx ''d'') (regen_force True cache_regen_new) example_cpvs [''x'' \<mapsto> [], ''a/x'' \<mapsto> []]
   in snd run = Inr () \<and> files_metadata (example_ctx ''d'') (fst run) (hd example_cpvs) = Inr (example_metadata [''d'']) \<and>
     fst run ''x'' = Some [] \<and> fst run ''a/x'' = None"
proof -
  let ?g = "regen_force True cache_regen_new" and ?fs = "[''x'' \<mapsto> [], ''a/x'' \<mapsto> []] :: cache_files"
  obtain fs r where run: "regen_run (example_ctx ''d'') ?g example_cpvs ?fs = (fs, r)"
    by (cases "regen_run (example_ctx ''d'') ?g example_cpvs ?fs")
  have words: "split_whitespace ''d'' = [''d'']" by code_simp
  have first: "hd example_cpvs \<in> set example_cpvs" using example_cpvs_valid by (intro hd_in_set) auto
  have desc: "md_description (example_metadata [''d'']) \<noteq> []" by (simp add: example_metadata_def)
  have g: "ro_force (rg_task ?g)" "\<not> ro_verify (rg_task ?g)" "rg_clean ?g"
    "example_cpvs = (case rg_targets ?g of None \<Rightarrow> example_cpvs | Some ts \<Rightarrow> ts)"
    by (simp_all add: regen_force_def cache_regen_new_def)
  have paths: "''x'' \<noteq> cpv_display c \<and> ''a/x'' \<noteq> cpv_display c" if "c \<in> set example_cpvs" for c
  proof -
    have "list_all (\<lambda>c. ''x'' \<noteq> cpv_display c \<and> ''a/x'' \<noteq> cpv_display c) example_cpvs" by code_simp
    then show ?thesis using that by (simp add: list_all_iff)
  qed
  have levels: "length (split_char (CHR ''/'') ''x'') \<noteq> 2" "length (split_char (CHR ''/'') ''a/x'') = 2"
    "(case parse_cpv ''a/x'' of Inl _ \<Rightarrow> True | Inr _ \<Rightarrow> False)" by code_simp+
  have "metadata_sets (cc_sets (example_ctx ''d''))" by (simp add: example_ctx_facts reference.metadata_sets_axioms)
  note all = regen_restores [OF run g(1,2,4) _ _ this]
  show ?thesis
    using all example_cpvs_valid run first paths levels g(3) desc
    by (simp add: example_ctx_facts words Let_def split: sum.splits)
qed

text \<open>Regenerating again what was regenerated, forced or not, changes no file and ends with the same result.\<close>

lemma regen_again:
  assumes "regen_run ctx g all_cpvs fs = (fs', r)" "\<not> ro_verify (rg_task g)"
    and "distinct (regen_cpvs g all_cpvs)" "\<forall>c \<in> set (regen_cpvs g all_cpvs). valid_cpv c"
    and "metadata_sets (cc_sets ctx)" "\<forall>c \<in> set (regen_cpvs g all_cpvs). sources_well ctx c"
  shows "regen_run ctx g all_cpvs fs' = (fs', r)"
  using regen_idempotent [OF assms(1) refl assms(2-6)] .

end
