(* ===== verification/Manifest.thy ===== *)
theory Manifest
  imports Md5_Dict
begin

text \<open>
  Manifests (\<open>pkg/ebuild/manifest.rs\<close>): entries, their text, and the manifest of a package
  directory with its update and verification. The hash functions are an argument. A package directory
  is the list of the files below it, with their paths relative to it, in the order in which walking
  it finds them; the names of entries are taken for such paths.
\<close>

section \<open>Hashes\<close>

datatype hash_type = Blake2b | Blake3 | Sha512

fun hash_type_index :: "hash_type \<Rightarrow> nat" where
  "hash_type_index Blake2b = 0"
| "hash_type_index Blake3 = 1"
| "hash_type_index Sha512 = 2"

fun hash_type_display :: "hash_type \<Rightarrow> string" where
  "hash_type_display Blake2b = ''BLAKE2B''"
| "hash_type_display Blake3 = ''BLAKE3''"
| "hash_type_display Sha512 = ''SHA512''"

definition hash_type_from_str :: "string \<Rightarrow> hash_type option" where
  "hash_type_from_str s = find (\<lambda>k. hash_type_display k = s) [Blake2b, Blake3, Sha512]"

type_synonym hasher = "hash_type \<Rightarrow> string \<Rightarrow> string"

definition is_hex :: "char \<Rightarrow> bool" where
  "is_hex c \<longleftrightarrow> is_digit c \<or> (of_char c :: nat) \<in> {65..70} \<or> (of_char c :: nat) \<in> {97..102}"

definition hash_value :: "hash_type \<Rightarrow> string \<Rightarrow> error + string" where
  "hash_value k data = (if list_ex (\<lambda>c. \<not> is_hex c) data then Inl (InvalidValue ''invalid hash'' data) else Inr data)"

definition hash_verify :: "hasher \<Rightarrow> hash_type \<Rightarrow> string \<Rightarrow> string \<Rightarrow> error + unit" where
  "hash_verify h k data val = (if val \<noteq> h k data then Inl (InvalidValue ''hash failed'' val) else Inr ())"

section \<open>Entries\<close>

datatype manifest_type = AuxType | DistType | EbuildType | MiscType

fun manifest_type_index :: "manifest_type \<Rightarrow> nat" where
  "manifest_type_index AuxType = 0"
| "manifest_type_index DistType = 1"
| "manifest_type_index EbuildType = 2"
| "manifest_type_index MiscType = 3"

fun manifest_type_display :: "manifest_type \<Rightarrow> string" where
  "manifest_type_display AuxType = ''AUX''"
| "manifest_type_display DistType = ''DIST''"
| "manifest_type_display EbuildType = ''EBUILD''"
| "manifest_type_display MiscType = ''MISC''"

definition manifest_type_from_str :: "string \<Rightarrow> manifest_type option" where
  "manifest_type_from_str s = find (\<lambda>k. manifest_type_display k = s) [AuxType, DistType, EbuildType, MiscType]"

text \<open>Sizes are numbers of 64 bits: \<open>u64::from_str\<close> takes a sign in front of the digits.\<close>

definition parse_u64 :: "string \<Rightarrow> nat option" where
  "parse_u64 s = (let ds = (case s of [] \<Rightarrow> [] | c # r \<Rightarrow> if c = CHR ''+'' then r else s)
     in if ds \<noteq> [] \<and> list_all is_digit ds \<and> digits_value ds < 2 ^ 64 then Some (nat (digits_value ds)) else None)"

fun dec_string :: "nat \<Rightarrow> string" where
  "dec_string n = (if n < 10 then [char_of (48 + n)] else dec_string (n div 10) @ [char_of (48 + n mod 10)])"

declare dec_string.simps [simp del]

record manifest_entry =
  me_kind :: manifest_type
  me_name :: string
  me_size :: nat
  me_hashes :: "(hash_type \<times> string) list"

definition manifest_entry_eq :: "manifest_entry \<Rightarrow> manifest_entry \<Rightarrow> bool" where
  "manifest_entry_eq a b \<longleftrightarrow> me_name a = me_name b"

definition manifest_entry_cmp :: "manifest_entry \<Rightarrow> manifest_entry \<Rightarrow> ordering" where
  "manifest_entry_cmp a b = ord_then (cmp_by manifest_type_index (me_kind a) (me_kind b))
     (ord_then (cmp_str (me_name a) (me_name b))
     (ord_then (cmp_lin (me_size a) (me_size b))
       (cmp_list (\<lambda>(k, v) (l, w). ord_then (cmp_by hash_type_index k l) (cmp_str v w)) (me_hashes a) (me_hashes b))))"

fun entry_hashes :: "(string \<times> string) list \<Rightarrow> (hash_type \<times> string) list \<Rightarrow> error + (hash_type \<times> string) list" where
  "entry_hashes [] hs = Inr hs"
| "entry_hashes ((kind, val) # ps) hs = (case hash_type_from_str kind of
     None \<Rightarrow> Inl (InvalidValue ''unsupported hash'' kind)
   | Some k \<Rightarrow> (case hash_value k val of Inl e \<Rightarrow> Inl e | Inr v \<Rightarrow> entry_hashes ps (map_insert k v hs)))"

definition manifest_entry_try_new :: "manifest_type \<Rightarrow> string \<Rightarrow> nat \<Rightarrow> string list \<Rightarrow> error + manifest_entry" where
  "manifest_entry_try_new kind name sz data = (case entry_hashes (tuples2 data) [] of Inl e \<Rightarrow> Inl e
     | Inr hs \<Rightarrow> Inr \<lparr>me_kind = kind, me_name = name, me_size = sz, me_hashes = hs\<rparr>)"

text \<open>\<open>from_path\<close>, with the contents of the file.\<close>

definition entry_from_data :: "hasher \<Rightarrow> hash_type list \<Rightarrow> manifest_type \<Rightarrow> string \<Rightarrow> string option \<Rightarrow> error + manifest_entry" where
  "entry_from_data h ks kind name contents = (case contents of
     None \<Rightarrow> Inl (InvalidValue ''failed reading'' name)
   | Some data \<Rightarrow> Inr \<lparr>me_kind = kind, me_name = name, me_size = length data mod 2 ^ 64,
       me_hashes = map_collect (map (\<lambda>k. (k, h k data)) ks)\<rparr>)"

fun verify_hashes :: "hasher \<Rightarrow> string \<Rightarrow> (hash_type \<times> string) list \<Rightarrow> error + unit" where
  "verify_hashes h data [] = Inr ()"
| "verify_hashes h data ((k, val) # hs) = (case hash_verify h k data val of Inl e \<Rightarrow> Inl e | Inr _ \<Rightarrow> verify_hashes h data hs)"

definition manifest_entry_verify :: "hasher \<Rightarrow> manifest_entry \<Rightarrow> string \<Rightarrow> error + unit" where
  "manifest_entry_verify h en data = verify_hashes h data (me_hashes en)"

definition manifest_entry_display :: "manifest_entry \<Rightarrow> string" where
  "manifest_entry_display en = join_with '' '' ([manifest_type_display (me_kind en), me_name en, dec_string (me_size en)] @
     concat (map (\<lambda>(k, v). [hash_type_display k, v]) (me_hashes en)))"

definition manifest_entry_from_str :: "string \<Rightarrow> error + manifest_entry" where
  "manifest_entry_from_str s = (case split_whitespace s of
     mtype # name # sz # hashes \<Rightarrow>
       if hashes \<noteq> [] \<and> even (length hashes)
       then (case manifest_type_from_str mtype of None \<Rightarrow> Inl (InvalidValue ''invalid manifest type'' mtype)
         | Some kind \<Rightarrow> (case parse_u64 sz of None \<Rightarrow> Inl (InvalidValue ''invalid size'' sz)
             | Some n \<Rightarrow> manifest_entry_try_new kind name n hashes))
       else Inl (InvalidValue ''invalid number of manifest tokens'' [])
   | _ \<Rightarrow> Inl (InvalidValue ''invalid number of manifest tokens'' []))"

section \<open>Manifests\<close>

text \<open>An \<open>IndexSet\<close> of entries; \<open>replace\<close> keeps the position of an equal entry.\<close>

fun parse_lines :: "manifest_entry index_set \<Rightarrow> string list \<Rightarrow> manifest_entry list \<Rightarrow> error + manifest_entry list" where
  "parse_lines ix [] m = Inr m"
| "parse_lines ix (l # ls) m = (case manifest_entry_from_str l of Inl e \<Rightarrow> Inl e
     | Inr en \<Rightarrow> parse_lines ix ls (fst (is_insert ix m en)))"

definition manifest_parse :: "manifest_entry index_set \<Rightarrow> string \<Rightarrow> error + manifest_entry list" where
  "manifest_parse ix data = (case parse_lines ix (str_lines data) [] of Inl e \<Rightarrow> Inl e
     | Inr m \<Rightarrow> if m = [] then Inl (InvalidValue ''empty Manifest'' []) else Inr m)"

definition manifest_from_path :: "manifest_entry index_set \<Rightarrow> read_result \<Rightarrow> error + manifest_entry list" where
  "manifest_from_path ix r = (case r of
     ReadOk data \<Rightarrow> manifest_parse ix data
   | ReadNotFound \<Rightarrow> Inr []
   | ReadFailed err \<Rightarrow> Inl (IOError ''failed reading'' err))"

definition manifest_get :: "manifest_entry list \<Rightarrow> string \<Rightarrow> manifest_entry option" where
  "manifest_get m name = find (\<lambda>en. me_name en = name) m"

definition manifest_distfiles :: "manifest_entry list \<Rightarrow> manifest_entry list" where
  "manifest_distfiles m = filter (\<lambda>en. me_kind en = DistType) m"

definition manifest_is_thick :: "manifest_entry list \<Rightarrow> bool" where
  "manifest_is_thick m \<longleftrightarrow> list_ex (\<lambda>en. me_kind en = EbuildType) m"

definition manifest_display :: "manifest_entry list \<Rightarrow> string" where
  "manifest_display m = concat (map (\<lambda>en. manifest_entry_display en @ [CHR 0x0A]) m)"

section \<open>Package directories\<close>

type_synonym pkg_dir = "(string \<times> string) list"

text \<open>\<open>relative_paths\<close>: the files below a directory, without those that are hidden or below a
  hidden directory.\<close>

definition visible_path :: "string \<Rightarrow> bool" where
  "visible_path p \<longleftrightarrow> list_all (\<lambda>c. \<not> starts_with c ''.'') (split_char (CHR ''/'') p)"

definition relative_paths :: "pkg_dir \<Rightarrow> (string \<times> string) list" where
  "relative_paths d = filter (\<lambda>(p, _). visible_path p) d"

text \<open>The directory \<open>files\<close> below a package directory, and the files directly in it.\<close>

definition files_dir :: "pkg_dir \<Rightarrow> pkg_dir" where
  "files_dir d = List.map_filter (\<lambda>(p, data). if starts_with p ''files/'' then Some (drop 6 p, data) else None) d"

definition top_files :: "pkg_dir \<Rightarrow> pkg_dir" where
  "top_files d = filter (\<lambda>(p, _). CHR ''/'' \<notin> set p) d"

definition pkg_path_exists :: "pkg_dir \<Rightarrow> string \<Rightarrow> bool" where
  "pkg_path_exists d p \<longleftrightarrow> list_ex (\<lambda>(q, _). q = p \<or> starts_with q (p @ ''/'')) d"

text \<open>Distfiles by name, with the contents of the file where it can be read and whether its entry is
  to be updated.\<close>

type_synonym distfiles = "(string \<times> string option \<times> bool) list"

definition manifest_outdated :: "manifest_entry list \<Rightarrow> pkg_dir \<Rightarrow> distfiles \<Rightarrow> bool \<Rightarrow> bool" where
  "manifest_outdated m d dist thick =
     (let files = firsts_by (=) (map fst dist @ (if thick then map fst (relative_paths d) else []))
      in length files \<noteq> length m \<or> list_ex (\<lambda>x. manifest_get m x = None) files \<or>
         list_ex (\<lambda>(_, _, regen). regen) dist)"

definition manifest_replace :: "manifest_entry list \<Rightarrow> manifest_entry \<Rightarrow> manifest_entry list" where
  "manifest_replace m en = (if mem_by manifest_entry_eq en m
     then map (\<lambda>x. if manifest_entry_eq x en then en else x) m else m @ [en])"

fun replace_all :: "manifest_entry list \<Rightarrow> (error + manifest_entry) list \<Rightarrow> manifest_entry list \<times> (error + unit)" where
  "replace_all m [] = (m, Inr ())"
| "replace_all m (r # rs) = (case r of Inl e \<Rightarrow> (m, Inl e) | Inr en \<Rightarrow> replace_all (manifest_replace m en) rs)"

definition dist_entries :: "hasher \<Rightarrow> hash_type list \<Rightarrow> distfiles \<Rightarrow> (error + manifest_entry) list" where
  "dist_entries h ks dist = map (\<lambda>(name, contents, _). entry_from_data h ks DistType name contents)
     (filter (\<lambda>(_, _, update). update) dist)"

definition thick_entries :: "hasher \<Rightarrow> hash_type list \<Rightarrow> pkg_dir \<Rightarrow> (error + manifest_entry) list" where
  "thick_entries h ks d =
     map (\<lambda>(p, data). entry_from_data h ks AuxType p (Some data)) (relative_paths (files_dir d)) @
     map (\<lambda>(p, data). entry_from_data h ks (if extension p = Some ''ebuild'' then EbuildType else MiscType) p (Some data))
       (filter (\<lambda>(p, _). p \<noteq> ''Manifest'') (top_files d))"

definition entry_exists :: "pkg_dir \<Rightarrow> distfiles \<Rightarrow> manifest_entry \<Rightarrow> bool" where
  "entry_exists d dist en = (case me_kind en of
     AuxType \<Rightarrow> pkg_path_exists (files_dir d) (me_name en)
   | DistType \<Rightarrow> me_name en \<in> set (map fst dist)
   | _ \<Rightarrow> pkg_path_exists d (me_name en))"

definition manifest_update :: "hasher \<Rightarrow> hash_type list \<Rightarrow> pkg_dir \<Rightarrow> distfiles \<Rightarrow> bool \<Rightarrow> manifest_entry list \<Rightarrow>
    manifest_entry list \<times> (error + unit)" where
  "manifest_update h ks d dist thick m =
     (let files = dist_entries h ks dist @ (if thick then thick_entries h ks d else []);
          m' = (if thick then m else filter (\<lambda>en. me_kind en = DistType) m)
      in (case replace_all m' files of
           (m'', Inl e) \<Rightarrow> (m'', Inl e)
         | (m'', Inr _) \<Rightarrow> (sort_cmp manifest_entry_cmp (filter (entry_exists d dist) m''), Inr ())))"

text \<open>\<open>verify\<close>, with the distfile directory as a map.\<close>

definition entry_data :: "pkg_dir \<Rightarrow> (string \<Rightarrow> string option) \<Rightarrow> manifest_entry \<Rightarrow> string option" where
  "entry_data d dist en = (case me_kind en of
     AuxType \<Rightarrow> map_of d (''files/'' @ me_name en)
   | DistType \<Rightarrow> dist (me_name en)
   | _ \<Rightarrow> map_of d (me_name en))"

fun manifest_verify :: "hasher \<Rightarrow> pkg_dir \<Rightarrow> (string \<Rightarrow> string option) \<Rightarrow> manifest_entry list \<Rightarrow> error + unit" where
  "manifest_verify h d dist [] = Inr ()"
| "manifest_verify h d dist (en # m) = (case entry_data d dist en of
     None \<Rightarrow> Inl (IOError ''failed reading'' (me_name en))
   | Some data \<Rightarrow> (case manifest_entry_verify h en data of Inl e \<Rightarrow> Inl e | Inr _ \<Rightarrow> manifest_verify h d dist m))"

end
