(* ===== verification/Manifest_Laws.thy ===== *)
theory Manifest_Laws
  imports Manifest Md5_Dict_Laws
begin

text \<open>
  The laws of manifests: entries and manifests are read back from what they print as, updating keeps
  names distinct and leaves exactly the entries of the files there are, which then verify.
\<close>

section \<open>Numbers\<close>

lemma digits_value_append: "digits_value (a @ b) = digits_value a * 10 ^ length b + digits_value b"
proof (induction b rule: rev_induct)
  case (snoc c b)
  then show ?case by (simp add: digits_value_def algebra_simps)
qed (simp add: digits_value_def)

lemma dec_string_digits: "dec_string n \<noteq> [] \<and> list_all is_digit (dec_string n) \<and> digits_value (dec_string n) = int n"
proof (induction n rule: dec_string.induct)
  case (1 n)
  have d: "is_digit (char_of (48 + k :: nat)) \<and> digits_value [char_of (48 + k :: nat)] = int k" if "k < 10" for k
  proof -
    have "(of_char (char_of (48 + k :: nat)) :: nat) = 48 + k" using that by simp
    moreover have "(of_char (char_of (48 + k :: nat)) :: int) = 48 + int k"
      using that by (metis calculation of_char_of of_nat_of_char of_nat_add of_nat_numeral)
    ultimately show ?thesis using that by (simp add: is_digit_def digits_value_def)
  qed
  show ?case
  proof (cases "n < 10")
    case True
    then show ?thesis using d [of n] by (simp add: dec_string.simps [of n])
  next
    case False
    then have IH: "list_all is_digit (dec_string (n div 10))" "digits_value (dec_string (n div 10)) = int (n div 10)"
      using 1 by blast+
    have "int (n div 10) * 10 + int (n mod 10) = int n" by presburger
    then show ?thesis
      using False IH d [of "n mod 10"] by (simp add: dec_string.simps [of n] digits_value_append)
  qed
qed

lemma parse_dec: "n < 2 ^ 64 \<Longrightarrow> parse_u64 (dec_string n) = Some n"
proof -
  obtain c r where s: "dec_string n = c # r" using dec_string_digits [of n] by (cases "dec_string n") auto
  then have "is_digit c" using dec_string_digits [of n] by simp
  then have "c \<noteq> CHR ''+''" by (auto simp: is_digit_def)
  then show "n < 2 ^ 64 \<Longrightarrow> ?thesis" using dec_string_digits [of n] s by (simp add: parse_u64_def)
qed

lemma parse_u64_bound: "parse_u64 s = Some n \<Longrightarrow> n < 2 ^ 64"
  by (auto simp: parse_u64_def Let_def nat_less_iff split: if_splits)

section \<open>Entries\<close>

definition valid_manifest_entry :: "manifest_entry \<Rightarrow> bool" where
  "valid_manifest_entry en \<longleftrightarrow> is_word (me_name en) \<and> me_size en < 2 ^ 64 \<and> me_hashes en \<noteq> [] \<and>
     distinct (map fst (me_hashes en)) \<and> list_all (\<lambda>(k, v). v \<noteq> [] \<and> list_all is_hex v) (me_hashes en)"

lemma hash_names: "hash_type_from_str (hash_type_display k) = Some k" "is_word (hash_type_display k)"
proof -
  have "list_all (\<lambda>k. hash_type_from_str (hash_type_display k) = Some k \<and> is_word (hash_type_display k)) [Blake2b, Blake3, Sha512]"
    by code_simp
  then show "hash_type_from_str (hash_type_display k) = Some k" "is_word (hash_type_display k)" by (cases k; simp)+
qed

lemma type_names: "manifest_type_from_str (manifest_type_display k) = Some k" "is_word (manifest_type_display k)"
proof -
  have "list_all (\<lambda>k. manifest_type_from_str (manifest_type_display k) = Some k \<and> is_word (manifest_type_display k))
      [AuxType, DistType, EbuildType, MiscType]"
    by code_simp
  then show "manifest_type_from_str (manifest_type_display k) = Some k" "is_word (manifest_type_display k)" by (cases k; simp)+
qed

lemma hex_word: "v \<noteq> [] \<Longrightarrow> list_all is_hex v \<Longrightarrow> is_word v"
  by (auto simp: is_word_def list_all_iff is_hex_def is_digit_def is_whitespace_def)

lemma digit_word: "is_word (dec_string n)"
  using dec_string_digits [of n] by (auto simp: is_word_def list_all_iff is_digit_def is_whitespace_def)

lemma hash_value_ok: "hash_value k v = Inr w \<longleftrightarrow> w = v \<and> list_all is_hex v"
  by (auto simp: hash_value_def list_ex_iff list_all_iff)

lemma tuples2_concat: "tuples2 (concat (map (\<lambda>(k, v). [f k, v]) hs)) = map (\<lambda>(k, v). (f k, v)) hs"
  by (induction hs) auto

lemma entry_hashes_display: "list_all (\<lambda>(k, v). list_all is_hex v) hs \<Longrightarrow>
    entry_hashes (map (\<lambda>(k, v). (hash_type_display k, v)) hs) acc = Inr (foldl (\<lambda>m (k, v). map_insert k v m) acc hs)"
  by (induction hs arbitrary: acc) (auto simp: hash_names hash_value_def list_ex_iff list_all_iff)

lemma map_insert_keys: "fst ` set (map_insert k v m) = insert k (fst ` set m)"
    "distinct (map fst m) \<Longrightarrow> distinct (map fst (map_insert k v m))" "map_insert k v m \<noteq> []"
    "(k', w) \<in> set (map_insert k v m) \<Longrightarrow> (k', w) = (k, v) \<or> (k', w) \<in> set m"
  by (induction k v m rule: map_insert.induct) (auto split: if_splits)

lemma entry_hashes_valid:
  assumes "entry_hashes ps acc = Inr hs" "distinct (map fst acc)" "list_all (\<lambda>(k, v). v \<noteq> [] \<and> list_all is_hex v) acc"
    and "list_all (\<lambda>(k, v). v \<noteq> []) ps" "ps \<noteq> [] \<or> acc \<noteq> []"
  shows "distinct (map fst hs) \<and> list_all (\<lambda>(k, v). v \<noteq> [] \<and> list_all is_hex v) hs \<and> hs \<noteq> []"
  using assms
proof (induction ps acc rule: entry_hashes.induct)
  case (2 kind val ps acc)
  then obtain k where k: "hash_type_from_str kind = Some k" "hash_value k val = Inr val" "list_all is_hex val"
    "entry_hashes ps (map_insert k val acc) = Inr hs"
    by (auto simp: hash_value_ok split: option.splits sum.splits)
  have "list_all (\<lambda>(k, v). v \<noteq> [] \<and> list_all is_hex v) (map_insert k val acc)"
    using "2.prems"(3,4) k(3) map_insert_keys(4) [of _ _ k val acc] by (fastforce simp: list_all_iff)
  then show ?case
    using "2.IH" [OF k(1,2,4)] "2.prems"(2,4) map_insert_keys(2) [of acc k val] map_insert_keys(3) [of k val acc] by auto
qed auto

lemma entry_words: "valid_manifest_entry en \<Longrightarrow>
    list_all is_word ([manifest_type_display (me_kind en), me_name en, dec_string (me_size en)] @
      concat (map (\<lambda>(k, v). [hash_type_display k, v]) (me_hashes en)))"
  using hex_word by (fastforce simp: valid_manifest_entry_def type_names digit_word hash_names list_all_iff)

lemma manifest_entry_round: "valid_manifest_entry en \<Longrightarrow> manifest_entry_from_str (manifest_entry_display en) = Inr en"
proof -
  assume en: "valid_manifest_entry en"
  let ?hs = "concat (map (\<lambda>(k, v). [hash_type_display k, v]) (me_hashes en))"
  have "split_whitespace (manifest_entry_display en) =
      manifest_type_display (me_kind en) # me_name en # dec_string (me_size en) # ?hs"
    using split_join_words [OF entry_words [OF en]] by (simp add: manifest_entry_display_def del: join_with.simps)
  moreover have "?hs \<noteq> []" using en by (cases "me_hashes en") (auto simp: valid_manifest_entry_def)
  moreover have "even (length (concat (map (\<lambda>(k, v). [hash_type_display k, v]) hs)))" for hs
    by (induction hs) auto
  moreover have "entry_hashes (tuples2 ?hs) [] = Inr (me_hashes en)"
  proof -
    have "list_all (\<lambda>(k, v). list_all is_hex v) (me_hashes en)" "map_collect (me_hashes en) = me_hashes en"
      using en by (auto simp: valid_manifest_entry_def list_all_iff map_collect_distinct)
    then show ?thesis using entry_hashes_display [of "me_hashes en" "[]"] by (simp add: tuples2_concat map_collect_def)
  qed
  ultimately show ?thesis
    using en by (simp add: manifest_entry_from_str_def type_names parse_dec valid_manifest_entry_def manifest_entry_try_new_def)
qed

lemma tuples2_words: "even (length ws) \<Longrightarrow> ws \<noteq> [] \<Longrightarrow> list_all is_word ws \<Longrightarrow>
    tuples2 ws \<noteq> [] \<and> list_all (\<lambda>(k, v). v \<noteq> []) (tuples2 ws)"
proof (induction ws rule: tuples2.induct)
  case (1 x y zs)
  then show ?case by (cases zs) (auto simp: is_word_def)
qed auto

lemma parsed_entry_valid:
  assumes "manifest_entry_from_str s = Inr en"
  shows "valid_manifest_entry en"
proof -
  obtain mtype name sz hashes where w: "split_whitespace s = mtype # name # sz # hashes"
    using assms by (auto simp: manifest_entry_from_str_def split: list.splits)
  have words: "is_word name" "list_all is_word hashes" using split_whitespace_words [of s] w by simp_all
  obtain kind n hs where parts: "hashes \<noteq> []" "even (length hashes)" "parse_u64 sz = Some n"
      "entry_hashes (tuples2 hashes) [] = Inr hs" "en = \<lparr>me_kind = kind, me_name = name, me_size = n, me_hashes = hs\<rparr>"
    using assms w by (auto simp: manifest_entry_from_str_def manifest_entry_try_new_def split: if_splits option.splits sum.splits)
  then show ?thesis
    using entry_hashes_valid [OF parts(4)] tuples2_words [OF parts(2,1) words(2)] words(1) parse_u64_bound
    by (simp add: valid_manifest_entry_def)
qed

section \<open>Manifests\<close>

definition valid_manifest :: "manifest_entry list \<Rightarrow> bool" where
  "valid_manifest m \<longleftrightarrow> m \<noteq> [] \<and> list_all valid_manifest_entry m \<and> distinct (map me_name m)"

locale manifest_set =
  fixes ix :: "manifest_entry index_set"
  assumes entries: "index_set manifest_entry_eq ix"
begin

lemma insert_entry: "fst (is_insert ix m en) = (if me_name en \<in> me_name ` set m then m else m @ [en])"
  using index_set.insert_add_new [OF entries, of m en] by (auto simp: add_new_def mem_by_iff manifest_entry_eq_def image_iff eq_commute)

lemma parse_lines_valid:
  "parse_lines ix ls m = Inr m' \<Longrightarrow> list_all valid_manifest_entry m \<Longrightarrow> distinct (map me_name m) \<Longrightarrow>
    list_all valid_manifest_entry m' \<and> distinct (map me_name m')"
  by (induction ls arbitrary: m) (auto simp: insert_entry parsed_entry_valid split: sum.splits if_splits)

lemma parsed_manifest_valid: "manifest_parse ix s = Inr m \<Longrightarrow> valid_manifest m"
  using parse_lines_valid [of "str_lines s" "[]" m] by (auto simp: manifest_parse_def valid_manifest_def split: sum.splits if_splits)

lemma parse_lines_display:
  "list_all valid_manifest_entry m \<Longrightarrow> distinct (map me_name (acc @ m)) \<Longrightarrow>
    parse_lines ix (map manifest_entry_display m) acc = Inr (acc @ m)"
proof (induction m arbitrary: acc)
  case (Cons en m)
  then have "fst (is_insert ix acc en) = acc @ [en]" by (auto simp: insert_entry)
  with Cons show ?case by (simp add: manifest_entry_round)
qed simp

lemma manifest_round: "valid_manifest m \<Longrightarrow> manifest_parse ix (manifest_display m) = Inr m"
proof -
  assume m: "valid_manifest m"
  have "one_line (manifest_entry_display en)" if "valid_manifest_entry en" for en
    unfolding manifest_entry_display_def by (rule one_line_words [OF entry_words [OF that]])
  then have "list_all one_line (map manifest_entry_display m)" using m by (auto simp: valid_manifest_def list_all_iff)
  then have "str_lines (manifest_display m) = map manifest_entry_display m"
    using str_lines_lines [of "map manifest_entry_display m"] by (simp add: manifest_display_def comp_def)
  then show ?thesis using m parse_lines_display [of m "[]"] by (simp add: manifest_parse_def valid_manifest_def)
qed

end

interpretation reference_manifest: manifest_set "ref_index_set manifest_entry_eq"
  by (rule manifest_set.intro) (rule ref_set.index_set_axioms)

section \<open>Updating\<close>

lemma replace_members: "x \<in> set (manifest_replace m en) \<longleftrightarrow> x = en \<or> x \<in> set m \<and> me_name x \<noteq> me_name en"
  by (auto simp: manifest_replace_def mem_by_iff manifest_entry_eq_def)

lemma replace_distinct: "distinct (map me_name m) \<Longrightarrow> distinct (map me_name (manifest_replace m en))"
proof (cases "mem_by manifest_entry_eq en m")
  case True
  have "map me_name (map (\<lambda>x. if manifest_entry_eq x en then en else x) m) = map me_name m"
    by (auto simp: manifest_entry_eq_def)
  then show "distinct (map me_name m) \<Longrightarrow> ?thesis" using True by (simp only: manifest_replace_def if_True)
next
  case False
  then have "me_name en \<notin> me_name ` set m" by (auto simp: mem_by_iff manifest_entry_eq_def image_iff eq_commute)
  then show "distinct (map me_name m) \<Longrightarrow> ?thesis" using False by (simp add: manifest_replace_def)
qed

lemma replace_all_distinct: "replace_all m rs = (m', r) \<Longrightarrow> distinct (map me_name m) \<Longrightarrow> distinct (map me_name m')"
  by (induction rs arbitrary: m) (auto simp: replace_distinct split: sum.splits)

lemma replace_all_members:
  "replace_all m (map Inr ens) = (m', r) \<Longrightarrow> distinct (map me_name ens) \<Longrightarrow>
    r = Inr () \<and> (x \<in> set m' \<longleftrightarrow> x \<in> set ens \<or> x \<in> set m \<and> me_name x \<notin> me_name ` set ens)"
proof (induction ens arbitrary: m)
  case (Cons en ens)
  then have "r = Inr () \<and> (x \<in> set m' \<longleftrightarrow> x \<in> set ens \<or> x \<in> set (manifest_replace m en) \<and> me_name x \<notin> me_name ` set ens)"
    by simp
  then show ?case using Cons.prems(2) by (auto simp: replace_members)
qed auto

lemma replace_all_Inr: "replace_all m rs = (m', Inr ()) \<Longrightarrow> \<exists>ens. rs = map Inr ens"
proof (induction rs arbitrary: m)
  case (Cons r rs)
  then obtain en where "r = Inr en" "replace_all (manifest_replace m en) rs = (m', Inr ())" by (auto split: sum.splits)
  then show ?case using Cons.IH by (metis list.simps(9))
qed simp

text \<open>The files that an update takes entries of, by the name of their entry.\<close>

definition update_names :: "pkg_dir \<Rightarrow> distfiles \<Rightarrow> bool \<Rightarrow> string list" where
  "update_names d dist thick = map fst (filter (\<lambda>(_, _, update). update) dist) @
     (if thick then map fst (relative_paths (files_dir d)) @ map fst (filter (\<lambda>(p, _). p \<noteq> ''Manifest'') (top_files d)) else [])"

definition updated_entries :: "hasher \<Rightarrow> hash_type list \<Rightarrow> pkg_dir \<Rightarrow> distfiles \<Rightarrow> bool \<Rightarrow> (error + manifest_entry) list" where
  "updated_entries h ks d dist thick = dist_entries h ks dist @ (if thick then thick_entries h ks d else [])"

lemma entry_from_data_Inr: "entry_from_data h ks k name c = Inr en \<longleftrightarrow> (\<exists>data. c = Some data \<and>
    en = \<lparr>me_kind = k, me_name = name, me_size = length data mod 2 ^ 64, me_hashes = map_collect (map (\<lambda>k. (k, h k data)) ks)\<rparr>)"
  by (auto simp: entry_from_data_def split: option.splits)

lemma updated_names: "updated_entries h ks d dist thick = map Inr ens \<Longrightarrow> map me_name ens = update_names d dist thick"
proof -
  have named: "map (\<lambda>x. f x) xs = map Inr es \<Longrightarrow> (\<And>x en. f x = Inr en \<Longrightarrow> me_name en = g x) \<Longrightarrow> map me_name es = map g xs"
    for f :: "'b \<Rightarrow> error + manifest_entry" and xs es g
    by (induction xs arbitrary: es) auto
  assume "updated_entries h ks d dist thick = map Inr ens"
  then obtain es1 es2 es3 where "ens = es1 @ es2 @ es3" "dist_entries h ks dist = map Inr es1"
      "(if thick then map (\<lambda>(p, data). entry_from_data h ks AuxType p (Some data)) (relative_paths (files_dir d)) else []) = map Inr es2"
      "(if thick then map (\<lambda>(p, data). entry_from_data h ks (if extension p = Some ''ebuild'' then EbuildType else MiscType) p (Some data))
         (filter (\<lambda>(p, _). p \<noteq> ''Manifest'') (top_files d)) else []) = map Inr es3"
    by (auto simp: updated_entries_def thick_entries_def map_eq_append_conv append_eq_map_conv split: if_splits)
  moreover from this(2) have "map me_name es1 = map fst (filter (\<lambda>(_, _, update). update) dist)"
    unfolding dist_entries_def by (rule named) (auto simp: entry_from_data_Inr)
  moreover from calculation(3) have "map me_name es2 = (if thick then map fst (relative_paths (files_dir d)) else [])"
    by (cases thick) (auto intro!: named simp: entry_from_data_Inr)
  moreover from calculation(4) have "map me_name es3 = (if thick then map fst (filter (\<lambda>(p, _). p \<noteq> ''Manifest'') (top_files d)) else [])"
    by (cases thick) (auto intro!: named simp: entry_from_data_Inr)
  ultimately show ?thesis by (simp add: update_names_def)
qed

lemma distinct_sort_map: "distinct (map f (sort_cmp c xs)) \<longleftrightarrow> distinct (map f xs)"
proof -
  have "card (set (map f (sort_cmp c xs))) = card (set (map f xs))" "length (map f (sort_cmp c xs)) = length (map f xs)" by simp_all
  then show ?thesis by (metis card_distinct distinct_card)
qed

lemma update_members:
  assumes "manifest_update h ks d dist thick m = (m', Inr ())" "distinct (update_names d dist thick)"
  shows "\<exists>ens. updated_entries h ks d dist thick = map Inr ens \<and>
    (\<forall>x. x \<in> set m' \<longleftrightarrow> (x \<in> set ens \<or> x \<in> set m \<and> (thick \<or> me_kind x = DistType) \<and>
        me_name x \<notin> set (update_names d dist thick)) \<and> entry_exists d dist x) \<and>
    (distinct (map me_name m) \<longrightarrow> distinct (map me_name m'))"
proof -
  define m0 where "m0 = (if thick then m else filter (\<lambda>en. me_kind en = DistType) m)"
  obtain m1 where m1: "replace_all m0 (updated_entries h ks d dist thick) = (m1, Inr ())"
      "m' = sort_cmp manifest_entry_cmp (filter (entry_exists d dist) m1)"
    using assms(1) by (auto simp: manifest_update_def updated_entries_def m0_def Let_def split: prod.splits sum.splits)
  then obtain ens where ens: "updated_entries h ks d dist thick = map Inr ens" using replace_all_Inr by blast
  have names: "map me_name ens = update_names d dist thick" using updated_names [OF ens] .
  then have names': "me_name ` set ens = set (update_names d dist thick)" by (metis list.set_map)
  have "x \<in> set m1 \<longleftrightarrow> x \<in> set ens \<or> x \<in> set m0 \<and> me_name x \<notin> set (update_names d dist thick)" for x
    using replace_all_members [of m0 ens m1 "Inr ()" x] m1(1) ens names' assms(2) names by simp
  then have "\<forall>x. x \<in> set m' \<longleftrightarrow> (x \<in> set ens \<or> x \<in> set m \<and> (thick \<or> me_kind x = DistType) \<and>
        me_name x \<notin> set (update_names d dist thick)) \<and> entry_exists d dist x"
    using m1(2) by (auto simp: m0_def)
  moreover have "distinct (map me_name m')" if "distinct (map me_name m)"
  proof -
    have "distinct (map me_name m0)" using that by (simp add: m0_def distinct_map_filter)
    then have "distinct (map me_name m1)" using replace_all_distinct [OF m1(1)] by simp
    then have "distinct (map me_name (filter (entry_exists d dist) m1))" by (rule distinct_map_filter)
    then show ?thesis using m1(2) by (simp add: distinct_sort_map)
  qed
  ultimately show ?thesis using ens by blast
qed

text \<open>Entries verify exactly when their file holds what they were made of.\<close>

lemma case_unit_Inr: "(case x of Inl e \<Rightarrow> Inl e | Inr _ \<Rightarrow> y) = Inr () \<longleftrightarrow> x = Inr () \<and> y = Inr ()"
  for x :: "error + unit"
  by (cases x) auto

lemma verify_hashes_iff: "verify_hashes h data hs = Inr () \<longleftrightarrow> list_all (\<lambda>(k, v). v = h k data) hs"
  by (induction hs) (auto simp: hash_verify_def case_unit_Inr split: if_splits simp del: sum.case)

definition entry_verifies :: "hasher \<Rightarrow> pkg_dir \<Rightarrow> (string \<Rightarrow> string option) \<Rightarrow> manifest_entry \<Rightarrow> bool" where
  "entry_verifies h d dist en \<longleftrightarrow> (case entry_data d dist en of None \<Rightarrow> False
     | Some data \<Rightarrow> list_all (\<lambda>(k, v). v = h k data) (me_hashes en))"

lemma manifest_verify_iff: "manifest_verify h d dist m = Inr () \<longleftrightarrow> (\<forall>en \<in> set m. entry_verifies h d dist en)"
proof (induction m)
  case (Cons en m)
  then show ?case
    by (cases "entry_data d dist en") (simp_all add: entry_verifies_def manifest_entry_verify_def case_unit_Inr verify_hashes_iff)
qed simp

lemma map_collect_set: "(k, v) \<in> set (map_collect kvs) \<Longrightarrow> (k, v) \<in> set kvs"
proof (induction kvs rule: rev_induct)
  case (snoc kv kvs)
  then show ?case using map_insert_keys(4) [of k v "fst kv" "snd kv" "map_collect kvs"]
    by (auto simp: map_collect_def split: prod.splits)
qed (simp add: map_collect_def)

lemma made_entry_verifies:
  assumes "entry_from_data h ks k name (Some data) = Inr en" "entry_data d dist en = Some data"
  shows "entry_verifies h d dist en"
  using assms map_collect_set [of _ _ "map (\<lambda>k. (k, h k data)) ks"] by (auto simp: entry_verifies_def entry_from_data_Inr list_all_iff)

lemma files_dir_member: "distinct (map fst d) \<Longrightarrow> (p, data) \<in> set (files_dir d) \<Longrightarrow> map_of d (''files/'' @ p) = Some data"
proof -
  assume d: "distinct (map fst d)" and "(p, data) \<in> set (files_dir d)"
  then obtain q where q: "(q, data) \<in> set d" "starts_with q ''files/''" "p = drop 6 q"
    by (auto simp: files_dir_def List.map_filter_def split: if_splits)
  then have "q = ''files/'' @ p" by (auto simp: starts_with_prefix prefix_def)
  then show ?thesis using q d by simp
qed

lemma updated_entry_verifies:
  assumes "updated_entries h ks d dist thick = map Inr ens" "en \<in> set ens" "distinct (map fst d)"
    and dists: "\<And>n data. (n, Some data, True) \<in> set dist \<Longrightarrow> dd n = Some data"
  shows "entry_verifies h d dd en"
proof -
  have "Inr en \<in> set (updated_entries h ks d dist thick)" using assms(1,2) by simp
  then consider (dist) n c where "(n, c, True) \<in> set dist" "entry_from_data h ks DistType n c = Inr en"
    | (aux) p data where "(p, data) \<in> set (files_dir d)" "entry_from_data h ks AuxType p (Some data) = Inr en"
    | (top) p data k' where "(p, data) \<in> set d" "entry_from_data h ks k' p (Some data) = Inr en" "k' = EbuildType \<or> k' = MiscType"
    unfolding updated_entries_def dist_entries_def thick_entries_def relative_paths_def top_files_def
    by (cases thick) (fastforce split: if_splits)+
  then show ?thesis
  proof cases
    case dist
    then obtain data where "c = Some data" by (auto simp: entry_from_data_Inr)
    with dist show ?thesis using dists by (auto intro!: made_entry_verifies simp: entry_data_def entry_from_data_Inr)
  next
    case aux
    then show ?thesis using files_dir_member [OF assms(3)]
      by (auto intro!: made_entry_verifies simp: entry_data_def entry_from_data_Inr)
  next
    case top
    then have "me_name en = p" "me_kind en = k'" by (simp_all add: entry_from_data_Inr)
    with top assms(3) have "entry_data d dd en = Some data" by (auto simp: entry_data_def)
    with top show ?thesis by (blast intro: made_entry_verifies)
  qed
qed

text \<open>An update succeeds where the distfiles that it makes entries of can be read.\<close>

definition update_reads :: "distfiles \<Rightarrow> (string \<Rightarrow> string option) \<Rightarrow> bool" where
  "update_reads dist dd \<longleftrightarrow> list_all (\<lambda>(n, c, u). u \<longrightarrow> c \<noteq> None \<and> dd n = c) dist"

lemma update_succeeds: "update_reads dist dd \<Longrightarrow> \<exists>m'. manifest_update h ks d dist thick m = (m', Inr ())"
proof -
  assume r: "update_reads dist dd"
  have ok: "\<exists>m'. replace_all m rs = (m', Inr ())" if "\<forall>x \<in> set rs. \<not> Sum_Type.isl x" for m rs
    using that by (induction rs arbitrary: m) (auto split: sum.splits)
  have "\<not> Sum_Type.isl (entry_from_data h ks k n (Some data))" for k n data by (simp add: entry_from_data_def)
  then have "\<forall>x \<in> set (updated_entries h ks d dist thick). \<not> Sum_Type.isl x"
    using r by (fastforce simp: updated_entries_def dist_entries_def thick_entries_def update_reads_def list_all_iff)
  then obtain m' where "replace_all (if thick then m else filter (\<lambda>en. me_kind en = DistType) m) (updated_entries h ks d dist thick) =
      (m', Inr ())"
    using ok by blast
  then show ?thesis by (simp add: manifest_update_def updated_entries_def Let_def)
qed

section \<open>Updating again\<close>

lemma pkg_path_existsI: "(p, data) \<in> set d \<Longrightarrow> pkg_path_exists d p"
  by (force simp: pkg_path_exists_def list_ex_iff)

lemma updated_exists:
  assumes "updated_entries h ks d dist thick = map Inr ens" "en \<in> set ens"
  shows "entry_exists d dist en \<and> (thick \<or> me_kind en = DistType)"
proof -
  have "Inr en \<in> set (updated_entries h ks d dist thick)" using assms by simp
  then consider (dist) n c where "(n, c, True) \<in> set dist" "entry_from_data h ks DistType n c = Inr en"
    | (aux) p data where "thick" "(p, data) \<in> set (files_dir d)" "entry_from_data h ks AuxType p (Some data) = Inr en"
    | (top) p data k' where "thick" "(p, data) \<in> set d" "entry_from_data h ks k' p (Some data) = Inr en" "k' = EbuildType \<or> k' = MiscType"
    unfolding updated_entries_def dist_entries_def thick_entries_def relative_paths_def top_files_def
    by (cases thick) (fastforce split: if_splits)+
  then show ?thesis
  proof cases
    case dist
    then have "me_kind en = DistType" "me_name en = n" by (auto simp: entry_from_data_Inr)
    with dist(1) show ?thesis by (force simp: entry_exists_def)
  next
    case aux
    then have "me_kind en = AuxType" "me_name en = p" by (simp_all add: entry_from_data_Inr)
    with aux show ?thesis by (auto simp: entry_exists_def intro: pkg_path_existsI)
  next
    case top
    then have "me_kind en = k'" "me_name en = p" by (simp_all add: entry_from_data_Inr)
    with top show ?thesis by (auto simp: entry_exists_def intro: pkg_path_existsI)
  qed
qed

lemma total_cmp_manifest_entry: "total_cmp Q manifest_entry_cmp"
proof -
  have "total_cmp Q (\<lambda>a b. ord_then (cmp_by hash_type_index (fst a) (fst b)) (cmp_str (snd a) (snd b)))" for Q
    by (intro total_cmp_then total_cmp_key [OF total_cmp_by [of "\<lambda>_. True"]] total_cmp_key [OF total_cmp_str [of "\<lambda>_. True"]] TrueI)
  then have pairs: "total_cmp Q (\<lambda>(k, v) (l, w). ord_then (cmp_by hash_type_index k l) (cmp_str v w))" for Q
    by (simp add: case_prod_beta')
  have "total_cmp (\<lambda>_. True) (cmp_list (\<lambda>(k, v) (l, w). ord_then (cmp_by hash_type_index k l) (cmp_str v w)))"
    by (rule total_cmp_mono [OF total_cmp_list [OF pairs [of "\<lambda>_. True"]]]) (simp add: list_all_iff)
  then show ?thesis unfolding manifest_entry_cmp_def [abs_def]
    by (intro total_cmp_then total_cmp_key [OF total_cmp_by [of "\<lambda>_. True"]] total_cmp_key [OF total_cmp_str [of "\<lambda>_. True"]]
        total_cmp_key [OF total_cmp_by [of "\<lambda>_. True" "\<lambda>x. x"]] total_cmp_key [of "\<lambda>_. True" "cmp_list _" _ me_hashes] TrueI)
qed

interpretation manifest_entry_ord: total_cmp "\<lambda>_. True" manifest_entry_cmp by (rule total_cmp_manifest_entry)

lemma replace_same: "en \<in> set m \<Longrightarrow> distinct (map me_name m) \<Longrightarrow> manifest_replace m en = m"
  by (auto simp: manifest_replace_def mem_by_iff manifest_entry_eq_def distinct_map inj_on_def intro!: map_idI)

lemma replace_all_same: "set ens \<subseteq> set m \<Longrightarrow> distinct (map me_name m) \<Longrightarrow> replace_all m (map Inr ens) = (m, Inr ())"
  by (induction ens) (simp_all add: replace_same)

lemma update_sorted: "manifest_update h ks d dist thick m = (m', Inr ()) \<Longrightarrow> sorted_cmp manifest_entry_cmp m'"
  using manifest_entry_ord.sort_cmp_sorted
  by (auto simp: manifest_update_def Let_def list_all_iff split: prod.splits sum.splits)

lemma update_again:
  assumes "manifest_update h ks d dist thick m = (m', Inr ())" "distinct (update_names d dist thick)" "distinct (map me_name m)"
  shows "manifest_update h ks d dist thick m' = (m', Inr ())"
proof -
  obtain ens where ens: "updated_entries h ks d dist thick = map Inr ens"
    and m': "\<And>x. x \<in> set m' \<longleftrightarrow> (x \<in> set ens \<or> x \<in> set m \<and> (thick \<or> me_kind x = DistType) \<and>
        me_name x \<notin> set (update_names d dist thick)) \<and> entry_exists d dist x"
    and dm: "distinct (map me_name m')"
    using update_members [OF assms(1,2)] assms(3) by blast
  have "(if thick then m' else filter (\<lambda>en. me_kind en = DistType) m') = m'"
    using m' updated_exists [OF ens] by (auto intro!: filter_True)
  moreover have "replace_all m' (map Inr ens) = (m', Inr ())"
    using replace_all_same [OF _ dm] m' updated_exists [OF ens] by blast
  moreover have "filter (entry_exists d dist) m' = m'" using m' by (auto intro!: filter_True)
  moreover have "sort_cmp manifest_entry_cmp m' = m'" using manifest_entry_ord.sort_cmp_id update_sorted [OF assms(1)] by blast
  ultimately show ?thesis using ens by (simp add: manifest_update_def updated_entries_def Let_def)
qed

section \<open>Outdated manifests\<close>

lemma not_top: "starts_with p ''files/'' \<Longrightarrow> (p, data) \<notin> set (top_files d)"
  by (auto simp: top_files_def starts_with_prefix prefix_def)

lemma manifest_get_None: "manifest_get m n = None \<longleftrightarrow> n \<notin> me_name ` set m"
  by (auto simp: manifest_get_def find_None_iff)

lemma thin_outdated:
  assumes "manifest_update h ks d dist False m = (m', Inr ())" "distinct (map fst dist)" "distinct (map me_name m)"
  shows "manifest_outdated m' d (map (\<lambda>(n, c, _). (n, c, False)) dist) False \<longleftrightarrow>
    (\<exists>n c. (n, c, False) \<in> set dist \<and> \<not> (\<exists>en \<in> set m. me_kind en = DistType \<and> me_name en = n))"
proof -
  have names: "update_names d dist False = map fst (filter (\<lambda>(_, _, u). u) dist)" by (simp add: update_names_def)
  have dn: "distinct (update_names d dist False)" unfolding names by (rule distinct_map_filter [OF assms(2)])
  obtain ens where ens: "updated_entries h ks d dist False = map Inr ens"
    and m': "\<And>x. x \<in> set m' \<longleftrightarrow> (x \<in> set ens \<or> x \<in> set m \<and> me_kind x = DistType \<and>
        me_name x \<notin> set (update_names d dist False)) \<and> entry_exists d dist x"
    and dm: "distinct (map me_name m')"
    using update_members [OF assms(1) dn] assms(3) by auto
  have kinds: "me_kind x = DistType" if "x \<in> set m'" for x using that m' updated_exists [OF ens] by blast
  have sub: "me_name ` set m' \<subseteq> fst ` set dist" using m' kinds by (force simp: entry_exists_def)
  have the_flag: "v = u" if "(n, c, u) \<in> set dist" "(n, c', v) \<in> set dist" for n c c' u v
    using eq_key_imp_eq_value [OF assms(2) that] by simp
  have image: "me_name ` set ens = set (update_names d dist False)" using updated_names [OF ens] by (metis list.set_map)
  have has: "n \<in> me_name ` set m' \<longleftrightarrow> u \<or> (\<exists>en \<in> set m. me_kind en = DistType \<and> me_name en = n)"
    if nu: "(n, c, u) \<in> set dist" for n c u
  proof (cases u)
    case True
    then have "n \<in> me_name ` set ens" using nu unfolding image names by force
    then show ?thesis using True m' updated_exists [OF ens] by blast
  next
    case False
    then have new: "n \<notin> set (update_names d dist False)" unfolding names by (auto dest: the_flag [OF nu])
    have "n \<in> set (map fst dist)" using nu by force
    then have "entry_exists d dist x" if "me_kind x = DistType" "me_name x = n" for x
      using that by (simp add: entry_exists_def)
    then have "(\<exists>x \<in> set m'. me_name x = n) \<longleftrightarrow> (\<exists>x \<in> set m. me_kind x = DistType \<and> me_name x = n)"
      using new image by (intro iffI; elim bexE conjE) (auto simp: m' dest: imageI [of _ _ me_name])
    then show ?thesis using False by force
  qed
  have "length dist = length m'" if "fst ` set dist \<subseteq> me_name ` set m'"
  proof -
    have "me_name ` set m' = fst ` set dist" using that sub by blast
    then show ?thesis using distinct_card [OF dm] distinct_card [OF assms(2)] by simp
  qed
  moreover have "manifest_outdated m' d (map (\<lambda>(n, c, _). (n, c, False)) dist) False \<longleftrightarrow>
      length dist \<noteq> length m' \<or> \<not> fst ` set dist \<subseteq> me_name ` set m'"
    using assms(2) unfolding manifest_outdated_def Let_def list_ex_iff manifest_get_None
    by (auto simp: comp_def case_prod_beta' firsts_by_distinct)
  ultimately have "manifest_outdated m' d (map (\<lambda>(n, c, _). (n, c, False)) dist) False \<longleftrightarrow> \<not> fst ` set dist \<subseteq> me_name ` set m'"
    by blast
  also have "\<dots> \<longleftrightarrow> (\<exists>n c u. (n, c, u) \<in> set dist \<and> n \<notin> me_name ` set m')" by force
  also have "\<dots> \<longleftrightarrow> (\<exists>n c u. (n, c, u) \<in> set dist \<and> \<not> (u \<or> (\<exists>en \<in> set m. me_kind en = DistType \<and> me_name en = n)))"
    using has by (intro ex_cong1 conj_cong refl) (simp only:)
  finally show ?thesis by (simp only: de_Morgan_disj ex_bool_eq simp_thms not_False_eq_True)
qed

lemma thick_outdated:
  assumes "manifest_update h ks d dist True m = (m', Inr ())" "distinct (update_names d dist True)"
    and "(p, data) \<in> set (relative_paths d)" "p \<notin> set (update_names d dist True)" "p \<notin> me_name ` set m"
  shows "manifest_outdated m' d dist' True"
proof -
  obtain ens where ens: "updated_entries h ks d dist True = map Inr ens"
    and m': "\<And>x. x \<in> set m' \<Longrightarrow> x \<in> set ens \<or> x \<in> set m"
    using update_members [OF assms(1,2)] by auto
  have "me_name ` set ens = set (update_names d dist True)" using updated_names [OF ens] by (metis list.set_map)
  then have "p \<notin> me_name ` set m'" using m' assms(4,5) by blast
  moreover have "p \<in> set (firsts_by (=) (map fst dist' @ map fst (relative_paths d)))"
    using assms(3) by force
  ultimately show ?thesis by (auto simp: manifest_outdated_def Let_def list_ex_iff manifest_get_None)
qed

end
