(* ===== verification/Manifest_Props.thy ===== *)
theory Manifest_Props
  imports Manifest_Laws
begin

text \<open>
  The properties of manifests, with the example of a package directory of an ebuild, a patch, its
  metadata and the Manifest, and one distfile.
\<close>

section \<open>The example\<close>

definition example_hasher :: hasher where
  "example_hasher k data = (case k of Blake2b \<Rightarrow> ''0b'' | Blake3 \<Rightarrow> ''03'' | Sha512 \<Rightarrow> ''05'') @ (if data = [] then ''00'' else ''ff'')"

definition example_pkg_dir :: pkg_dir where
  "example_pkg_dir = [(''Manifest'', ''old''), (''a-1.ebuild'', ''EAPI=8''), (''files/a.patch'', ''-''), (''metadata.xml'', [])]"

definition example_distfiles :: distfiles where
  "example_distfiles = [(''a-1.tar'', Some ''data'', True), (''a-2.tar'', None, False)]"

definition example_old_entry :: manifest_entry where
  "example_old_entry = \<lparr>me_kind = DistType, me_name = ''a-2.tar'', me_size = 4, me_hashes = [(Sha512, ''05ff'')]\<rparr>"

definition example_dist_dir :: "string \<Rightarrow> string option" where
  "example_dist_dir = [''a-1.tar'' \<mapsto> ''data'', ''a-2.tar'' \<mapsto> ''more'']"

lemma example_names: "update_names example_pkg_dir example_distfiles True = [''a-1.tar'', ''a.patch'', ''a-1.ebuild'', ''metadata.xml'']"
    "update_names example_pkg_dir example_distfiles False = [''a-1.tar'']"
    "relative_paths example_pkg_dir = example_pkg_dir"
  by code_simp+

lemma dir_example_ok: "update_reads example_distfiles example_dist_dir" "distinct (map fst example_pkg_dir)"
    "entry_verifies example_hasher example_pkg_dir example_dist_dir example_old_entry"
  by code_simp+

definition example_manifest :: string where
  "example_manifest = ''DIST b-2.tar +3 SHA512 00 BLAKE2B ff'' @ [CHR 0x0A] @ ''MISC  readme 10 SHA512 0a SHA512 0B''"

lemma manifest_example_parses: "\<not> Sum_Type.isl (manifest_parse (ref_index_set manifest_entry_eq) example_manifest)"
  by code_simp

section \<open>Properties\<close>

text \<open>C29: what a manifest that was parsed prints as is parsed to the same manifest: entries, their
  order, sizes of 64 bits and hashes in their order.\<close>

theorem manifest_text_round:
  assumes "index_set manifest_entry_eq ix" "manifest_parse ix s = Inr m"
  shows "manifest_parse ix (manifest_display m) = Inr m"
  by (rule manifest_set.manifest_round [OF manifest_set.intro [OF assms(1)]
      manifest_set.parsed_manifest_valid [OF manifest_set.intro [OF assms(1)] assms(2)]])

theorem manifest_text_round_witness:
  "\<exists>m. manifest_parse (ref_index_set manifest_entry_eq) example_manifest = Inr m \<and>
     manifest_parse (ref_index_set manifest_entry_eq) (manifest_display m) = Inr m"
proof -
  obtain m where m: "manifest_parse (ref_index_set manifest_entry_eq) example_manifest = Inr m"
    using manifest_example_parses by (cases "manifest_parse (ref_index_set manifest_entry_eq) example_manifest") auto
  then show ?thesis using manifest_text_round [OF ref_set.index_set_axioms m] by blast
qed

text \<open>C30: an update whose distfiles can be read succeeds, and the manifest it leaves verifies if and
  only if the old entries it keeps do: every entry that it makes anew verifies.\<close>

theorem update_verifies:
  assumes "distinct (update_names d dist thick)" "distinct (map fst d)" "update_reads dist dd"
  shows "snd (manifest_update h ks d dist thick m) = Inr () \<and>
    (manifest_verify h d dd (fst (manifest_update h ks d dist thick m)) = Inr () \<longleftrightarrow>
      (\<forall>en \<in> set m. (thick \<or> me_kind en = DistType) \<and> me_name en \<notin> set (update_names d dist thick) \<and>
        entry_exists d dist en \<longrightarrow> entry_verifies h d dd en))"
proof -
  obtain m' where m': "manifest_update h ks d dist thick m = (m', Inr ())" using update_succeeds [OF assms(3)] by blast
  then obtain ens where ens: "updated_entries h ks d dist thick = map Inr ens"
    and iff: "\<And>x. x \<in> set m' \<longleftrightarrow> (x \<in> set ens \<or> x \<in> set m \<and> (thick \<or> me_kind x = DistType) \<and>
        me_name x \<notin> set (update_names d dist thick)) \<and> entry_exists d dist x"
    using update_members [OF m' assms(1)] by blast
  have "entry_verifies h d dd en" if "en \<in> set ens" for en
    by (rule updated_entry_verifies [OF ens that assms(2)]) (use assms(3) in \<open>fastforce simp: update_reads_def list_all_iff\<close>)
  then show ?thesis using m' iff by (auto simp: manifest_verify_iff)
qed

theorem update_verifies_witness:
  "manifest_verify example_hasher example_pkg_dir example_dist_dir
     (fst (manifest_update example_hasher [Blake2b, Sha512] example_pkg_dir example_distfiles True [example_old_entry])) = Inr ()"
  using update_verifies [of example_pkg_dir example_distfiles True example_dist_dir example_hasher "[Blake2b, Sha512]" "[example_old_entry]"]
    dir_example_ok example_names by simp

text \<open>C31: updating a second time changes nothing.\<close>

theorem update_idempotent:
  assumes "distinct (update_names d dist thick)" "distinct (map me_name m)"
    and "manifest_update h ks d dist thick m = (m', Inr ())"
  shows "manifest_update h ks d dist thick m' = (m', Inr ())"
  by (rule update_again [OF assms(3,1,2)])

theorem update_idempotent_witness:
  "\<exists>m'. manifest_update example_hasher [Blake2b] example_pkg_dir example_distfiles True [example_old_entry] = (m', Inr ()) \<and>
     manifest_update example_hasher [Blake2b] example_pkg_dir example_distfiles True m' = (m', Inr ())"
proof -
  obtain m' where m': "manifest_update example_hasher [Blake2b] example_pkg_dir example_distfiles True [example_old_entry] = (m', Inr ())"
    using update_succeeds [OF dir_example_ok(1)] by blast
  show ?thesis using update_idempotent [OF _ _ m'] m' example_names by simp
qed

text \<open>After an update to a thin manifest, once no distfile has to be updated any more, the manifest
  is outdated if and only if it was not asked for a distfile that it had no entry of.\<close>

lemma thin_update_outdated:
  assumes "manifest_update h ks d dist False m = (m', Inr ())" "distinct (map fst dist)" "distinct (map me_name m)"
  shows "manifest_outdated m' d (map (\<lambda>(n, c, _). (n, c, False)) dist) False \<longleftrightarrow>
    (\<exists>n c. (n, c, False) \<in> set dist \<and> \<not> (\<exists>en \<in> set m. me_kind en = DistType \<and> me_name en = n))"
  by (rule thin_outdated [OF assms])

theorem thin_update_outdated_witness:
  "\<not> manifest_outdated (fst (manifest_update example_hasher [Blake2b] example_pkg_dir example_distfiles False [example_old_entry]))
     example_pkg_dir (map (\<lambda>(n, c, _). (n, c, False)) example_distfiles) False"
proof -
  obtain m' where m': "manifest_update example_hasher [Blake2b] example_pkg_dir example_distfiles False [example_old_entry] = (m', Inr ())"
    using update_succeeds [OF dir_example_ok(1)] by blast
  show ?thesis using thin_update_outdated [OF m'] m' by (simp add: example_distfiles_def example_old_entry_def)
qed

text \<open>C32: a thick manifest stays outdated however often it is updated, where the package directory has
  a Manifest or files below \<open>files\<close>: these are looked for under their path from the package directory,
  under which an update makes no entry.\<close>

theorem thick_update_outdated:
  assumes "manifest_update h ks d dist True m = (m', Inr ())" "distinct (update_names d dist True)"
    and "(p, data) \<in> set (relative_paths d)" "p = ''Manifest'' \<or> starts_with p ''files/''"
    and "p \<notin> set (map fst dist)" "p \<notin> set (map fst (files_dir d))" "manifest_get m p = None"
  shows "manifest_outdated m' d dist' True"
proof (rule thick_outdated [OF assms(1,2,3)])
  show "p \<notin> set (update_names d dist True)" using assms(4,5,6) by (auto simp: update_names_def relative_paths_def image_iff dest: not_top)
  show "p \<notin> me_name ` set m" using assms(7) by (simp add: manifest_get_None)
qed

theorem thick_update_outdated_witness:
  "manifest_outdated (fst (manifest_update example_hasher [Blake2b] example_pkg_dir example_distfiles True [])) example_pkg_dir [] True"
proof -
  obtain m' where m': "manifest_update example_hasher [Blake2b] example_pkg_dir example_distfiles True [] = (m', Inr ())"
    using update_succeeds [OF dir_example_ok(1)] by blast
  have "manifest_outdated m' example_pkg_dir [] True"
    by (rule thick_update_outdated [OF m', of "''files/a.patch''" "''-''"])
      (simp_all only: example_names, code_simp+)
  then show ?thesis using m' by simp
qed

end
