(* ===== verification/Xml_Metadata.thy ===== *)
theory Xml_Metadata
  imports Md5_Dict
begin

text \<open>
  The metadata of packages in \<open>metadata.xml\<close> (\<open>pkg/ebuild/xml.rs\<close>) as a function of the tree that
  the XML parser gives; the parser is an argument.
\<close>

section \<open>Trees\<close>

text \<open>Elements with their local name, attributes and children; \<open>Node::text\<close> of an element is that of
  its first child if that is text.\<close>

datatype xml = XElement string "(string \<times> string) list" "xml list" | XText string | XComment string

fun tag_name :: "xml \<Rightarrow> string" where
  "tag_name (XElement n _ _) = n"
| "tag_name _ = []"

fun attribute :: "xml \<Rightarrow> string \<Rightarrow> string option" where
  "attribute (XElement _ attrs _) a = map_of attrs a"
| "attribute _ a = None"

fun children :: "xml \<Rightarrow> xml list" where
  "children (XElement _ _ cs) = cs"
| "children _ = []"

fun node_text :: "xml \<Rightarrow> string option" where
  "node_text (XElement _ _ (XText s # _)) = Some s"
| "node_text (XElement _ _ _) = None"
| "node_text (XText s) = Some s"
| "node_text (XComment s) = Some s"

fun is_comment :: "xml \<Rightarrow> bool" where
  "is_comment (XComment _) = True"
| "is_comment _ = False"

definition unwrap_or_default :: "string option \<Rightarrow> string" where
  "unwrap_or_default s = (case s of None \<Rightarrow> [] | Some s \<Rightarrow> s)"

definition string_or_none :: "string \<Rightarrow> string option" where
  "string_or_none s = (if trim s = [] then None else Some (trim s))"

definition string_or_empty :: "string option \<Rightarrow> string" where
  "string_or_empty s = unwrap_or_default (map_option trim s)"

section \<open>Maintainers\<close>

datatype maintainer_type = PersonType | ProjectType

definition maintainer_type_from_str :: "string \<Rightarrow> maintainer_type option" where
  "maintainer_type_from_str s = (if s = ''person'' then Some PersonType else if s = ''project'' then Some ProjectType else None)"

datatype proxied = ProxiedProxy | ProxiedYes | ProxiedNo

definition proxied_from_str :: "string \<Rightarrow> proxied option" where
  "proxied_from_str s = (if s = ''proxy'' then Some ProxiedProxy else if s = ''yes'' then Some ProxiedYes
     else if s = ''no'' then Some ProxiedNo else None)"

record xml_maintainer =
  mt_email :: string
  mt_name :: "string option"
  mt_description :: "string option"
  mt_type :: maintainer_type
  mt_proxied :: proxied

definition xml_maintainer_eq :: "xml_maintainer \<Rightarrow> xml_maintainer \<Rightarrow> bool" where
  "xml_maintainer_eq a b \<longleftrightarrow> mt_email a = mt_email b \<and> mt_name a = mt_name b"

definition xml_maintainer_cmp :: "xml_maintainer \<Rightarrow> xml_maintainer \<Rightarrow> ordering" where
  "xml_maintainer_cmp a b = ord_then (cmp_str (mt_email a) (mt_email b)) (cmp_option cmp_str (mt_name a) (mt_name b))"

definition maintainer_child :: "xml_maintainer \<Rightarrow> xml \<Rightarrow> xml_maintainer" where
  "maintainer_child m n = (if tag_name n = ''email'' then m\<lparr>mt_email := string_or_empty (node_text n)\<rparr>
     else if tag_name n = ''name'' then m\<lparr>mt_name := Option.bind (node_text n) string_or_none\<rparr>
     else if tag_name n = ''description'' then m\<lparr>mt_description := Option.bind (node_text n) string_or_none\<rparr>
     else m)"

definition maintainer_try_from :: "xml \<Rightarrow> error + xml_maintainer" where
  "maintainer_try_from node =
     (let m = foldl maintainer_child
            \<lparr>mt_email = [], mt_name = None, mt_description = None, mt_type = PersonType, mt_proxied = ProxiedNo\<rparr> (children node);
          m = m\<lparr>mt_type := (case maintainer_type_from_str (unwrap_or_default (attribute node ''type'')) of
                   None \<Rightarrow> PersonType | Some t \<Rightarrow> t),
                mt_proxied := (case proxied_from_str (unwrap_or_default (attribute node ''proxied'')) of
                   None \<Rightarrow> ProxiedNo | Some p \<Rightarrow> p)\<rparr>
      in if mt_email m = [] then Inl (InvalidValue ''maintainer missing required email'' []) else Inr m)"

section \<open>Upstream\<close>

record remote_id =
  rid_site :: string
  rid_name :: string

datatype maintainer_status = StatusActive | StatusInactive | StatusUnknown

definition maintainer_status_from_str :: "string \<Rightarrow> maintainer_status option" where
  "maintainer_status_from_str s = (if s = ''active'' then Some StatusActive else if s = ''inactive'' then Some StatusInactive
     else if s = ''unknown'' then Some StatusUnknown else None)"

record upstream_maintainer =
  um_name :: string
  um_email :: "string option"
  um_status :: maintainer_status

record upstream =
  us_remote_ids :: "remote_id list"
  us_maintainers :: "upstream_maintainer list"
  us_bugs_to :: "string option"
  us_changelog :: "string option"
  us_doc :: "string option"

definition upstream_default :: upstream where
  "upstream_default = \<lparr>us_remote_ids = [], us_maintainers = [], us_bugs_to = None, us_changelog = None, us_doc = None\<rparr>"

definition upstream_maintainer_child :: "upstream_maintainer \<Rightarrow> xml \<Rightarrow> upstream_maintainer" where
  "upstream_maintainer_child m n = (if tag_name n = ''name'' then m\<lparr>um_name := string_or_empty (node_text n)\<rparr>
     else if tag_name n = ''email'' then m\<lparr>um_email := Option.bind (node_text n) string_or_none\<rparr>
     else m)"

definition upstream_child :: "upstream \<Rightarrow> xml \<Rightarrow> upstream" where
  "upstream_child u n =
    (let text = Option.bind (node_text n) string_or_none
     in if tag_name n = ''maintainer'' then
          (let m = \<lparr>um_name = [], um_email = None, um_status =
             (case maintainer_status_from_str (unwrap_or_default (attribute n ''status'')) of None \<Rightarrow> StatusUnknown | Some s \<Rightarrow> s)\<rparr>
           in u\<lparr>us_maintainers := us_maintainers u @ [foldl upstream_maintainer_child m (children n)]\<rparr>)
        else if tag_name n = ''bugs-to'' then u\<lparr>us_bugs_to := text\<rparr>
        else if tag_name n = ''changelog'' then u\<lparr>us_changelog := text\<rparr>
        else if tag_name n = ''doc'' then u\<lparr>us_doc := text\<rparr>
        else if tag_name n = ''remote-id'' then
          (case (attribute n ''type'', node_text n) of
             (Some site, Some name) \<Rightarrow>
               u\<lparr>us_remote_ids := add_new (=) (us_remote_ids u) \<lparr>rid_site = site, rid_name = name\<rparr>\<rparr>
           | _ \<Rightarrow> u)
        else u)"

definition upstream_from :: "xml \<Rightarrow> upstream" where
  "upstream_from node = foldl upstream_child upstream_default (children node)"

section \<open>Metadata\<close>

record xml_metadata =
  xm_maintainers :: "xml_maintainer list"
  xm_upstream :: "upstream option"
  xm_slots :: "(string \<times> string) list"
  xm_subslots :: "string option"
  xm_stabilize_allarches :: bool
  xm_local_use :: "(string \<times> string) list"
  xm_description :: "string option"

definition xml_metadata_default :: xml_metadata where
  "xml_metadata_default = \<lparr>xm_maintainers = [], xm_upstream = None, xm_slots = [], xm_subslots = None,
     xm_stabilize_allarches = False, xm_local_use = [], xm_description = None\<rparr>"

text \<open>\<open>split_whitespace().join(" ")\<close>.\<close>

definition normalize_space :: "string \<Rightarrow> string" where
  "normalize_space s = join_with '' '' (split_whitespace s)"

definition slots_child :: "xml_metadata \<Rightarrow> xml \<Rightarrow> xml_metadata" where
  "slots_child m n = (case Option.bind (node_text n) string_or_none of
     None \<Rightarrow> m
   | Some desc \<Rightarrow>
       if tag_name n = ''slot'' then
         (case attribute n ''name'' of None \<Rightarrow> m | Some name \<Rightarrow> m\<lparr>xm_slots := map_insert name desc (xm_slots m)\<rparr>)
       else if tag_name n = ''subslots'' then m\<lparr>xm_subslots := Some desc\<rparr>
       else m)"

definition parse_slots :: "xml \<Rightarrow> xml_metadata \<Rightarrow> xml_metadata" where
  "parse_slots node m = foldl slots_child m (children node)"

definition flag_description :: "xml \<Rightarrow> string" where
  "flag_description n = normalize_space (concat (List.map_filter node_text (filter (\<lambda>x. \<not> is_comment x) (children n))))"

definition parse_use :: "xml \<Rightarrow> xml_metadata \<Rightarrow> xml_metadata" where
  "parse_use node m = foldl (\<lambda>m n. case attribute n ''name'' of
       None \<Rightarrow> m
     | Some name \<Rightarrow> m\<lparr>xm_local_use := map_insert name (flag_description n) (xm_local_use m)\<rparr>)
     m (filter (\<lambda>n. tag_name n = ''flag'') (children node))"

definition long_description :: "xml \<Rightarrow> string option" where
  "long_description node = map_option (\<lambda>_. concat (List.map_filter (\<lambda>x. map_option normalize_space (node_text x)) (children node)))
     (node_text node)"

definition metadata_child :: "xml \<Rightarrow> xml_metadata \<Rightarrow> error + xml_metadata" where
  "metadata_child node m =
    (let en = (case attribute node ''lang'' of None \<Rightarrow> True | Some l \<Rightarrow> l = ''en'')
     in if tag_name node = ''maintainer'' then
          (case maintainer_try_from node of Inl e \<Rightarrow> Inl e | Inr mt \<Rightarrow> Inr (m\<lparr>xm_maintainers := xm_maintainers m @ [mt]\<rparr>))
        else if tag_name node = ''upstream'' then Inr (m\<lparr>xm_upstream := Some (upstream_from node)\<rparr>)
        else if tag_name node = ''slots'' then Inr (parse_slots node m)
        else if tag_name node = ''stabilize-allarches'' then Inr (m\<lparr>xm_stabilize_allarches := True\<rparr>)
        else if tag_name node = ''use'' \<and> en then Inr (parse_use node m)
        else if tag_name node = ''longdescription'' \<and> en then Inr (m\<lparr>xm_description := long_description node\<rparr>)
        else Inr m)"

fun metadata_children :: "xml list \<Rightarrow> xml_metadata \<Rightarrow> error + xml_metadata" where
  "metadata_children [] m = Inr m"
| "metadata_children (n # ns) m = (case metadata_child n m of Inl e \<Rightarrow> Inl e | Inr m' \<Rightarrow> metadata_children ns m')"

type_synonym xml_parser = "string \<Rightarrow> error + xml"

definition xml_metadata_parse :: "xml_parser \<Rightarrow> string \<Rightarrow> error + xml_metadata" where
  "xml_metadata_parse xp data = (case xp data of
     Inl e \<Rightarrow> Inl (InvalidValue ''invalid XML'' data)
   | Inr root \<Rightarrow> metadata_children (children root) xml_metadata_default)"

definition xml_metadata_from_path :: "xml_parser \<Rightarrow> string \<Rightarrow> read_result \<Rightarrow> error + xml_metadata" where
  "xml_metadata_from_path xp path r = (case r of
     ReadOk data \<Rightarrow> (case xml_metadata_parse xp data of
       Inl e \<Rightarrow> Inl (InvalidValue ''invalid metadata'' path) | Inr m \<Rightarrow> Inr m)
   | ReadNotFound \<Rightarrow> Inr xml_metadata_default
   | ReadFailed e \<Rightarrow> Inl (IOError ''failed reading metadata'' path))"

end
