(* ===== verification/Repo_Metadata.thy ===== *)
theory Repo_Metadata
  imports Xml_Metadata Manifest
begin

text \<open>
  The metadata of ebuild repositories (\<open>repo/ebuild/metadata.rs\<close>): the configuration, the lists below
  \<open>profiles\<close>, eclasses and licenses, license groups with their aliases, package updates, mirrors and
  USE flag descriptions. What is read from disk is an argument; warnings are left out. Sets and maps
  that keep the order of insertion are lists; the parsers of INI files, URLs and XML are arguments.
\<close>

section \<open>Lines\<close>

text \<open>\<open>filter_lines\<close> of \<open>traits.rs\<close> and \<open>read_path\<close>: what can not be read is empty.\<close>

definition filter_lines :: "string \<Rightarrow> (nat \<times> string) list" where
  "filter_lines s = filter (\<lambda>(_, l). l \<noteq> [] \<and> \<not> starts_with l ''#'') (enumerate 1 (map trim (str_lines s)))"

definition read_path :: "read_result \<Rightarrow> string" where
  "read_path r = (case r of ReadOk s \<Rightarrow> s | _ \<Rightarrow> [])"

text \<open>The values of the lines that parse.\<close>

definition parsed_lines :: "(string \<Rightarrow> error + 'a) \<Rightarrow> string \<Rightarrow> 'a list" where
  "parsed_lines f s = List.map_filter (\<lambda>(_, l). case f l of Inl _ \<Rightarrow> None | Inr x \<Rightarrow> Some x) (filter_lines s)"

section \<open>Configuration\<close>

datatype cache_format = Md5DictFormat

definition cache_format_from_str :: "string \<Rightarrow> cache_format option" where
  "cache_format_from_str s = (if s = ''md5-dict'' then Some Md5DictFormat else None)"

fun cache_format_display :: "cache_format \<Rightarrow> string" where
  "cache_format_display Md5DictFormat = ''md5-dict''"

text \<open>The main section of an INI file, by key.\<close>

type_synonym ini = "string \<Rightarrow> string option"

datatype ini_result = IniOk ini | IniNotFound | IniFailed string

definition ini_load :: "ini_result \<Rightarrow> error + ini" where
  "ini_load r = (case r of IniOk c \<Rightarrow> Inr c | IniNotFound \<Rightarrow> Inr (\<lambda>_. None) | IniFailed e \<Rightarrow> Inl (IOError ''INI'' e))"

definition ini_iter :: "ini \<Rightarrow> string \<Rightarrow> string list" where
  "ini_iter c k = split_whitespace (unwrap_or_default (c k))"

record config =
  cf_cache_formats :: "cache_format list"
  cf_eapis_banned :: "string list"
  cf_eapis_deprecated :: "string list"
  cf_eapis_testing :: "string list"
  cf_manifest_hashes :: "hash_type list"
  cf_manifest_required_hashes :: "hash_type list"
  cf_masters :: "string list"
  cf_profile_formats :: "string list"
  cf_properties_allowed :: "string list"
  cf_restrict_allowed :: "string list"
  cf_thin_manifests :: bool

definition config_default :: config where
  "config_default = \<lparr>cf_cache_formats = [], cf_eapis_banned = [], cf_eapis_deprecated = [], cf_eapis_testing = [],
     cf_manifest_hashes = [], cf_manifest_required_hashes = [], cf_masters = [], cf_profile_formats = [],
     cf_properties_allowed = [], cf_restrict_allowed = [], cf_thin_manifests = False\<rparr>"

fun parse_values :: "(string \<Rightarrow> 'a option) \<Rightarrow> string \<Rightarrow> string list \<Rightarrow> error + 'a list" where
  "parse_values f k [] = Inr []"
| "parse_values f k (w # ws) = (case f w of None \<Rightarrow> Inl (InvalidValue (k @ '': unsupported value'') w)
     | Some x \<Rightarrow> (case parse_values f k ws of Inl e \<Rightarrow> Inl e | Inr xs \<Rightarrow> Inr (x # xs)))"

definition parse_iter :: "(string \<Rightarrow> 'a option) \<Rightarrow> ini \<Rightarrow> string \<Rightarrow> error + 'a list" where
  "parse_iter f c k = (case parse_values f k (ini_iter c k) of Inl e \<Rightarrow> Inl e | Inr xs \<Rightarrow> Inr (firsts_by (=) xs))"

definition bool_from_str :: "string \<Rightarrow> bool option" where
  "bool_from_str s = (if s = ''true'' then Some True else if s = ''false'' then Some False else None)"

definition bool_display :: "bool \<Rightarrow> string" where
  "bool_display b = (if b then ''true'' else ''false'')"

definition parse_bool :: "ini \<Rightarrow> string \<Rightarrow> error + bool option" where
  "parse_bool c k = (case c k of None \<Rightarrow> Inr None | Some s \<Rightarrow> (case bool_from_str s of
     None \<Rightarrow> Inl (InvalidValue (k @ '': unsupported value'') s) | Some b \<Rightarrow> Inr (Some b)))"

text \<open>The operator \<open>?\<close> of Rust.\<close>

fun and_then :: "error + 'a \<Rightarrow> ('a \<Rightarrow> error + 'b) \<Rightarrow> error + 'b" where
  "and_then (Inl e) f = Inl e"
| "and_then (Inr x) f = f x"

definition config_from_ini :: "ini \<Rightarrow> error + config" where
  "config_from_ini c =
     and_then (parse_iter cache_format_from_str c ''cache-formats'') (\<lambda>cfs.
     and_then (parse_iter Some c ''eapis-banned'') (\<lambda>eb.
     and_then (parse_iter Some c ''eapis-deprecated'') (\<lambda>ed.
     and_then (parse_iter Some c ''eapis-testing'') (\<lambda>et.
     and_then (parse_iter hash_type_from_str c ''manifest-hashes'') (\<lambda>mh.
     and_then (parse_iter hash_type_from_str c ''manifest-required-hashes'') (\<lambda>mr.
     and_then (parse_iter Some c ''masters'') (\<lambda>ms.
     and_then (parse_iter Some c ''profile-formats'') (\<lambda>pf.
     and_then (parse_iter Some c ''properties-allowed'') (\<lambda>pa.
     and_then (parse_iter Some c ''restrict-allowed'') (\<lambda>ra.
     and_then (parse_bool c ''thin-manifests'') (\<lambda>tm.
       Inr \<lparr>cf_cache_formats = cfs, cf_eapis_banned = eb, cf_eapis_deprecated = ed, cf_eapis_testing = et,
         cf_manifest_hashes = mh, cf_manifest_required_hashes = mr, cf_masters = ms, cf_profile_formats = pf,
         cf_properties_allowed = pa, cf_restrict_allowed = ra,
         cf_thin_manifests = (case tm of None \<Rightarrow> False | Some b \<Rightarrow> b)\<rparr>)))))))))))"

definition config_try_new :: "ini_result \<Rightarrow> error + config" where
  "config_try_new r = and_then (ini_load r) config_from_ini"

definition config_is_empty :: "config \<Rightarrow> bool" where
  "config_is_empty c \<longleftrightarrow> c = config_default"

text \<open>The lines of the text of a configuration, as pairs of a key and its value.\<close>

definition config_items :: "config \<Rightarrow> (string \<times> string list) list" where
  "config_items c = [(''cache-formats'', map cache_format_display (cf_cache_formats c)),
     (''eapis-banned'', cf_eapis_banned c), (''eapis-deprecated'', cf_eapis_deprecated c),
     (''eapis-testing'', cf_eapis_testing c), (''manifest-hashes'', map hash_type_display (cf_manifest_hashes c)),
     (''manifest-required-hashes'', map hash_type_display (cf_manifest_required_hashes c)),
     (''masters'', cf_masters c), (''profile-formats'', cf_profile_formats c),
     (''properties-allowed'', cf_properties_allowed c), (''restrict-allowed'', cf_restrict_allowed c)]"

definition config_line :: "string \<times> string \<Rightarrow> string" where
  "config_line kv = fst kv @ '': '' @ snd kv @ [CHR 0x0A]"

definition config_lines :: "config \<Rightarrow> (string \<times> string) list" where
  "config_lines c = map (\<lambda>(k, vs). (k, join_with '' '' vs)) (filter (\<lambda>(_, vs). vs \<noteq> []) (config_items c)) @
     [(''thin-manifests'', bool_display (cf_thin_manifests c))]"

definition config_display :: "config \<Rightarrow> string" where
  "config_display c = concat (map config_line (config_lines c))"

section \<open>Opening a repository\<close>

record repo_head =
  rh_name :: string
  rh_eapi :: eapi
  rh_config :: config

definition or_invalid_repo :: "string \<Rightarrow> string \<Rightarrow> error + 'a \<Rightarrow> error + 'a" where
  "or_invalid_repo rid what r = (case r of Inl e \<Rightarrow> Inl (InvalidRepo rid what) | Inr x \<Rightarrow> Inr x)"

definition repo_name_of :: "string \<Rightarrow> read_result \<Rightarrow> bool \<Rightarrow> error + string" where
  "repo_name_of rid r profiles_dir = (case r of
     ReadOk data \<Rightarrow> (case str_lines data of
         [] \<Rightarrow> Inl (InvalidRepo rid ''profiles/repo_name: repo name unset'')
       | l # _ \<Rightarrow> or_invalid_repo rid ''profiles/repo_name'' (parse_repo (trim l)))
   | _ \<Rightarrow> if profiles_dir then Inl (InvalidRepo rid ''profiles/repo_name'') else Inl (NotARepo rid ''profiles/repo_name''))"

definition repo_metadata_try_new :: "string \<Rightarrow> read_result \<Rightarrow> bool \<Rightarrow> read_result \<Rightarrow> ini_result \<Rightarrow> error + repo_head" where
  "repo_metadata_try_new rid name_data profiles_dir eapi_data layout =
     and_then (repo_name_of rid name_data profiles_dir) (\<lambda>name.
     and_then (or_invalid_repo rid ''profiles/eapi'' (eapi_try_from_path ''profiles/eapi'' eapi_data)) (\<lambda>eapi.
     and_then (or_invalid_repo rid ''metadata/layout.conf'' (config_try_new layout)) (\<lambda>config.
       Inr \<lparr>rh_name = name, rh_eapi = eapi, rh_config = config\<rparr>)))"

definition cache_format_of :: "config \<Rightarrow> cache_format" where
  "cache_format_of c = (case cf_cache_formats c of [] \<Rightarrow> Md5DictFormat | f # _ \<Rightarrow> f)"

end
