(* ===== verification/Repo_Profiles.thy ===== *)
theory Repo_Profiles
  imports Repo_Metadata
begin

text \<open>
  The files below \<open>profiles\<close> of a repository, its eclasses and its licenses, as the second half of
  \<open>repo/ebuild/metadata.rs\<close> reads them, and the cache of USE flag descriptions that it writes.
\<close>

section \<open>Architectures and categories\<close>

definition arches :: "read_result \<Rightarrow> arch list" where
  "arches r = firsts_by (=) (map (\<lambda>(_, l). Arch l) (filter_lines (read_path r)))"

datatype arch_status = ArchStable | ArchTesting | ArchTransitional

definition arch_status_from_str :: "string \<Rightarrow> arch_status option" where
  "arch_status_from_str s = (if s = ''stable'' then Some ArchStable else if s = ''testing'' then Some ArchTesting
     else if s = ''transitional'' then Some ArchTransitional else None)"

text \<open>\<open>entry(k).or_default()\<close> of a map in the order of insertion, with an update of the value.\<close>

fun map_entry :: "'k \<Rightarrow> 'v \<Rightarrow> ('v \<Rightarrow> 'v) \<Rightarrow> ('k \<times> 'v) list \<Rightarrow> ('k \<times> 'v) list" where
  "map_entry k d f [] = [(k, f d)]"
| "map_entry k d f ((l, v) # m) = (if l = k then (l, f v) # m else (l, v) # map_entry k d f m)"

definition arches_desc_line :: "arch list \<Rightarrow> (arch_status \<times> arch list) list \<Rightarrow> string \<Rightarrow> (arch_status \<times> arch list) list" where
  "arches_desc_line known vals l = (case split_whitespace l of
     arch # status # _ \<Rightarrow>
       if Arch arch \<notin> set known then vals
       else (case arch_status_from_str status of
           None \<Rightarrow> vals
         | Some st \<Rightarrow> map_entry st [] (\<lambda>s. add_new (=) s (Arch arch)) vals)
   | _ \<Rightarrow> vals)"

definition arches_desc :: "arch list \<Rightarrow> read_result \<Rightarrow> (arch_status \<times> arch list) list" where
  "arches_desc known r = foldl (arches_desc_line known) [] (map snd (filter_lines (read_path r)))"

definition profile_categories :: "read_result \<Rightarrow> string list" where
  "profile_categories r = firsts_by (=) (parsed_lines parse_category (read_path r))"

section \<open>Eclasses and licenses\<close>

text \<open>The entries of a directory by name, with the contents of those that can be read; nothing when the
  directory can not be read.\<close>

type_synonym dir_files = "(string \<times> string option) list"

definition is_eclass :: "string \<times> string option \<Rightarrow> bool" where
  "is_eclass e \<longleftrightarrow> \<not> is_hidden (fst e) \<and> extension (fst e) = Some ''eclass''"

definition repo_eclasses :: "(string \<Rightarrow> string) \<Rightarrow> string \<Rightarrow> dir_files \<Rightarrow> eclass list" where
  "repo_eclasses chksum dir entries = sort_cmp eclass_cmp (firsts_by eclass_eq
     (oks (map (\<lambda>(name, data). eclass_try_new chksum dir name data) (filter is_eclass entries))))"

definition parse_license_name :: "string \<Rightarrow> error + string" where
  "parse_license_name s = peg_result ''invalid license name'' s (p_run p_license_name s)"

definition repo_licenses :: "string list \<Rightarrow> string list" where
  "repo_licenses names = sort_cmp cmp_str (firsts_by (=) (oks (map parse_license_name names)))"

section \<open>License groups\<close>

text \<open>A line of a group: its name, its licenses and the groups it includes.\<close>

definition group_line :: "string list \<Rightarrow> string \<Rightarrow> (string \<times> string list \<times> string list) option" where
  "group_line licenses l = (case split_whitespace l of
     [] \<Rightarrow> None
   | name # vals \<Rightarrow> Some (name,
       firsts_by (=) (filter (\<lambda>s. \<not> starts_with s ''@'' \<and> s \<in> set licenses) vals),
       filter (\<lambda>a. a \<noteq> []) (map (drop 1) (filter (\<lambda>s. starts_with s ''@'') vals))))"

type_synonym groups = "(string \<times> string list) list"

definition insert_alias :: "groups \<Rightarrow> string \<Rightarrow> string \<Rightarrow> groups" where
  "insert_alias m name a = map_entry name [] (\<lambda>s. add_new (=) s a) m"

definition alias_map :: "(string \<times> string list \<times> string list) list \<Rightarrow> groups" where
  "alias_map ls = foldl (\<lambda>m (name, _, as). foldl (\<lambda>m a. insert_alias m name a) m as) [] ls"

definition group_map :: "(string \<times> string list \<times> string list) list \<Rightarrow> groups" where
  "group_map ls = map_collect (map (\<lambda>(name, vs, _). (name, vs)) ls)"

definition group_values :: "groups \<Rightarrow> string \<Rightarrow> string list" where
  "group_values m s = (case map_of m s of None \<Rightarrow> [] | Some vs \<Rightarrow> vs)"

text \<open>The loop that resolves the aliases of a group: a stack without duplicates, whose top is the last
  element, and the aliases taken from it so far.\<close>

definition push_nested :: "groups \<Rightarrow> string list \<Rightarrow> string list \<Rightarrow> string \<Rightarrow> string list" where
  "push_nested al stack seen s = foldl (add_new (=)) stack (filter (\<lambda>x. x \<notin> set seen) (group_values al s))"

definition extend_group :: "groups \<Rightarrow> string \<Rightarrow> string \<Rightarrow> groups" where
  "extend_group gm name s = (case map_of gm s of
     None \<Rightarrow> gm
   | Some vs \<Rightarrow> map_entry name [] (\<lambda>old. foldl (add_new (=)) old vs) gm)"

lemma foldl_add_new [simp]: "set (foldl (add_new (=)) xs ys) = set xs \<union> set ys"
  by (induction ys arbitrary: xs) (auto simp: add_new_def mem_by_iff)

lemma group_values_mem: "x \<in> set (group_values m s) \<Longrightarrow> x \<in> \<Union> (set ` snd ` set m)"
  using map_of_SomeD [of m s] by (cases "map_of m s") (force simp: group_values_def)+

function resolve_aliases :: "groups \<Rightarrow> string \<Rightarrow> string list \<Rightarrow> string list \<Rightarrow> groups \<Rightarrow> groups" where
  "resolve_aliases al name stack seen gm = (if stack = [] then gm
     else let s = last stack; seen' = List.insert s seen
       in resolve_aliases al name (push_nested al (butlast stack) seen' s) seen' (extend_group gm name s))"
  by pat_completeness auto

termination
proof (relation "inv_image (finite_psubset <*lex*> less_than) (\<lambda>(al, name, stack, seen, gm).
    (set stack \<union> \<Union> (set ` snd ` set al) - set seen, length (filter (\<lambda>x. x \<in> set seen) stack)))", goal_cases)
  case 1
  show ?case by (intro wf_inv_image wf_lex_prod wf_finite_psubset wf_less_than)
next
  case (2 al name stack seen gm s seen')
  let ?U = "\<Union> (set ` snd ` set al)" and ?new = "filter (\<lambda>x. x \<notin> set seen') (group_values al s)"
  have s: "s \<in> set stack" "stack = butlast stack @ [s]" "set seen' = insert s (set seen)" using 2 by auto
  have "set ?new \<subseteq> ?U" using group_values_mem [of _ al s] by auto
  then have sub: "set (push_nested al (butlast stack) seen' s) \<union> ?U - set seen' \<subseteq> set stack \<union> ?U - set seen"
    using s(3) by (auto simp: push_nested_def dest: in_set_butlastD)
  show ?case
  proof (cases "s \<in> set seen")
    case False
    then have "set (push_nested al (butlast stack) seen' s) \<union> ?U - set seen' \<subset> set stack \<union> ?U - set seen"
      using sub s(1,3) by blast
    then show ?thesis by (auto simp: finite_psubset_def)
  next
    case True
    then have same: "set seen' = set seen" using s(3) by auto
    have none: "filter (\<lambda>x. x \<in> set seen') (foldl (add_new (=)) st xs) = filter (\<lambda>x. x \<in> set seen') st"
      if "list_all (\<lambda>x. x \<notin> set seen') xs" for st xs
      using that by (induction xs arbitrary: st) (simp_all add: add_new_def)
    have "filter (\<lambda>x. x \<in> set seen') (push_nested al (butlast stack) seen' s) = filter (\<lambda>x. x \<in> set seen') (butlast stack)"
      unfolding push_nested_def by (rule none) (simp add: list_all_iff)
    moreover have "length (filter (\<lambda>x. x \<in> set seen) stack) = Suc (length (filter (\<lambda>x. x \<in> set seen) (butlast stack)))"
      by (subst s(2)) (simp add: True)
    ultimately have "length (filter (\<lambda>x. x \<in> set seen') (push_nested al (butlast stack) seen' s)) <
        length (filter (\<lambda>x. x \<in> set seen) stack)"
      using same by simp
    with sub show ?thesis by (auto simp: finite_psubset_def)
  qed
qed

declare resolve_aliases.simps [simp del]

definition license_groups :: "string list \<Rightarrow> read_result \<Rightarrow> groups" where
  "license_groups licenses r =
    (let ls = List.map_filter (\<lambda>(_, l). group_line licenses l) (filter_lines (read_path r)); al = alias_map ls
     in foldl (\<lambda>gm (name, as). resolve_aliases al name as [] gm) (group_map ls) al)"

section \<open>Mirrors\<close>

text \<open>The parser of URLs and the joining of a path to a URL are arguments.\<close>

record 'u mirror =
  mi_name :: string
  mi_url :: 'u

definition mirror_get_url :: "('u \<Rightarrow> string \<Rightarrow> 'u option) \<Rightarrow> 'u mirror \<Rightarrow> string \<Rightarrow> error + 'u" where
  "mirror_get_url join m path = (case join (mi_url m) (case strip_prefix path ''/'' of None \<Rightarrow> path | Some p \<Rightarrow> p) of
     None \<Rightarrow> Inl (InvalidValue ''invalid url'' path) | Some u \<Rightarrow> Inr u)"

fun mirror_urls :: "(string \<Rightarrow> 'u option) \<Rightarrow> string \<Rightarrow> string list \<Rightarrow> 'u mirror list \<Rightarrow> error + 'u mirror list" where
  "mirror_urls up name [] ms = Inr ms"
| "mirror_urls up name (url # urls) ms = (case up (trim_end_char (CHR ''/'') url @ ''/'') of
     None \<Rightarrow> Inl (InvalidValue ''invalid mirror url'' url)
   | Some u \<Rightarrow> mirror_urls up name urls (add_new (=) ms \<lparr>mi_name = name, mi_url = u\<rparr>))"

definition mirror_from_line :: "(string \<Rightarrow> 'u option) \<Rightarrow> string \<Rightarrow> error + string \<times> 'u mirror list" where
  "mirror_from_line up l = (case split_whitespace l of
     [] \<Rightarrow> Inl (InvalidValue ''empty line'' l)
   | name # urls \<Rightarrow> if urls = [] then Inl (InvalidValue ''no urls listed'' l)
       else and_then (mirror_urls up name urls []) (\<lambda>ms. Inr (name, ms)))"

definition mirrors :: "(string \<Rightarrow> 'u option) \<Rightarrow> read_result \<Rightarrow> (string \<times> 'u mirror list) list" where
  "mirrors up r = map_collect (parsed_lines (mirror_from_line up) (read_path r))"

section \<open>Lists of packages and updates\<close>

definition profile_deps :: "use_dep index_set \<Rightarrow> dep index_set \<Rightarrow> eapi \<Rightarrow> read_result \<Rightarrow> dep list" where
  "profile_deps ux dx e r = is_collect dx (parsed_lines (parse_dep ux e) (read_path r))"

datatype pkg_update = PkgMove cpn cpn | PkgSlotMove dep string string

definition pkg_update_from_str :: "use_dep index_set \<Rightarrow> string \<Rightarrow> error + pkg_update" where
  "pkg_update_from_str ux s = (case split_whitespace s of
     [c, s1, s2] \<Rightarrow> if c = ''move''
       then and_then (parse_cpn s1) (\<lambda>a. and_then (parse_cpn s2) (\<lambda>b. Inr (PkgMove a b)))
       else Inl (InvalidValue ''invalid or unknown update'' s)
   | [c, d, s1, s2] \<Rightarrow> if c = ''slotmove''
       then and_then (parse_slot s1) (\<lambda>a. and_then (parse_slot s2) (\<lambda>b.
         and_then (dep_try_new ux d) (\<lambda>dep. Inr (PkgSlotMove dep (slot_name a) (slot_name b)))))
       else Inl (InvalidValue ''invalid or unknown update'' s)
   | _ \<Rightarrow> Inl (InvalidValue ''invalid or unknown update'' s))"

text \<open>The visible files of a directory that can be read, by name.\<close>

definition sorted_files :: "dir_files \<Rightarrow> (string \<times> string) list" where
  "sorted_files es = List.map_filter (\<lambda>(n, c). if is_hidden n then None else map_option (Pair n) c)
     (sort_cmp (\<lambda>a b. cmp_str (fst a) (fst b)) es)"

definition pkg_updates :: "use_dep index_set \<Rightarrow> pkg_update index_set \<Rightarrow> dir_files \<Rightarrow> pkg_update list" where
  "pkg_updates ux px es = is_collect px (concat (map (\<lambda>(_, c). parsed_lines (pkg_update_from_str ux) c) (sorted_files es)))"

section \<open>USE flag descriptions\<close>

definition parse_use_desc :: "string \<Rightarrow> error + string \<times> string" where
  "parse_use_desc s = (case split_once_str '' - '' s of
     None \<Rightarrow> Inl (InvalidValue ''use description'' s)
   | Some (flag, desc) \<Rightarrow> and_then (parse_use_flag flag) (\<lambda>name. Inr (name, desc)))"

definition use_global :: "read_result \<Rightarrow> (string \<times> string) list" where
  "use_global r = map_collect (parsed_lines parse_use_desc (read_path r))"

definition use_expand :: "dir_files \<Rightarrow> (string \<times> (string \<times> string) list) list" where
  "use_expand es = map_collect (map (\<lambda>(n, c). (file_stem n, map_collect (parsed_lines parse_use_desc c))) (sorted_files es))"

definition parse_use_local :: "string \<Rightarrow> error + string \<times> string \<times> string" where
  "parse_use_local s = (case split_once (CHR '':'') s of
     None \<Rightarrow> Inl (InvalidValue ''local use description'' s)
   | Some (cpn, use_desc) \<Rightarrow> and_then (parse_cpn cpn) (\<lambda>_. and_then (parse_use_desc use_desc) (\<lambda>d. Inr (cpn, d))))"

text \<open>\<open>OrderedMap\<close> of \<open>OrderedMap\<close>s, collected from triples.\<close>

definition collect_maps :: "('k \<times> 'l \<times> 'v) list \<Rightarrow> ('k \<times> ('l \<times> 'v) list) list" where
  "collect_maps ts = foldl (\<lambda>m (k, l, v). map_entry k [] (map_insert l v) m) [] ts"

definition use_local :: "read_result \<Rightarrow> (string \<times> (string \<times> string) list) list" where
  "use_local r = collect_maps (parsed_lines parse_use_local (read_path r))"

text \<open>The file of local USE flags made of the metadata of the packages; nothing is written when no package
  has local flags.\<close>

definition use_local_items :: "(cpn \<Rightarrow> xml_metadata) \<Rightarrow> cpn list \<Rightarrow> (cpn \<times> string \<times> string) list" where
  "use_local_items md cpns = sort_cmp
     (\<lambda>(c, n, d) (c', n', d'). ord_then (cpn_cmp c c') (ord_then (cmp_str n n') (cmp_str d d')))
     (concat (map (\<lambda>c. map (\<lambda>(n, d). (c, n, d)) (xm_local_use (md c))) cpns))"

definition use_local_text :: "(cpn \<times> string \<times> string) list \<Rightarrow> string" where
  "use_local_text ts = concat (map (\<lambda>(c, n, d). cpn_display c @ '':'' @ n @ '' - '' @ d @ [CHR 0x0A]) ts)"

definition use_local_update :: "(cpn \<Rightarrow> xml_metadata) \<Rightarrow> cpn list \<Rightarrow> read_result \<Rightarrow> read_result" where
  "use_local_update md cpns old = (let ts = use_local_items md cpns
     in if ts = [] then old else ReadOk (use_local_text ts))"

text \<open>The packages that are asked: those of the categories.\<close>

definition repo_cpns :: "string index_set \<Rightarrow> ebuild_repo \<Rightarrow> cpn list" where
  "repo_cpns sx r = concat (map (\<lambda>cat. map (\<lambda>pn. \<lparr>cpn_category = cat, cpn_package = pn\<rparr>) (packages sx r cat)) (categories sx r))"

section \<open>Values read once\<close>

text \<open>\<open>pkg_metadata\<close> and \<open>pkg_manifest\<close>: the default where the file does not parse, kept by package.\<close>

type_synonym 'v memo = "cpn \<Rightarrow> 'v option"

definition memo_get :: "(cpn \<Rightarrow> error + 'v) \<Rightarrow> 'v \<Rightarrow> 'v memo \<Rightarrow> cpn \<Rightarrow> 'v \<times> 'v memo" where
  "memo_get parse dflt cache c = (case cache c of
     Some v \<Rightarrow> (v, cache)
   | None \<Rightarrow> let v = (case parse c of Inl _ \<Rightarrow> dflt | Inr v \<Rightarrow> v) in (v, cache(c \<mapsto> v)))"

definition pkg_metadata :: "(cpn \<Rightarrow> error + xml_metadata) \<Rightarrow> xml_metadata memo \<Rightarrow> cpn \<Rightarrow> xml_metadata \<times> xml_metadata memo" where
  "pkg_metadata parse = memo_get parse xml_metadata_default"

definition pkg_manifest :: "(cpn \<Rightarrow> error + manifest_entry list) \<Rightarrow> manifest_entry list memo \<Rightarrow> cpn \<Rightarrow>
    manifest_entry list \<times> manifest_entry list memo" where
  "pkg_manifest parse = memo_get parse []"

end
