(* ===== verification/Repo_Profiles_Laws.thy ===== *)
theory Repo_Profiles_Laws
  imports Repo_Profiles Md5_Dict_Laws
begin

text \<open>
  The laws of repository metadata: license groups hold what the groups they include hold, a
  configuration is read back from its text, and local USE flags from the file that is written of them.
\<close>

section \<open>Maps in the order of insertion\<close>

lemma map_entry_of: "map_of (map_entry k d f m) l =
    (if l = k then Some (f (case map_of m k of None \<Rightarrow> d | Some v \<Rightarrow> v)) else map_of m l)"
  by (induction k d f m rule: map_entry.induct) auto

lemma map_entry_keys: "map fst (map_entry k d f m) = (if k \<in> fst ` set m then map fst m else map fst m @ [k])"
  by (induction k d f m rule: map_entry.induct) auto

section \<open>License groups\<close>

text \<open>A group includes those that its aliases name.\<close>

definition alias_edges :: "groups \<Rightarrow> (string \<times> string) set" where
  "alias_edges al = {(a, b). b \<in> set (group_values al a)}"

lemma extend_group_values: "set (group_values (extend_group gm name s) t) =
    (if t = name then set (group_values gm name) \<union> set (group_values gm s) else set (group_values gm t))"
  by (auto simp: extend_group_def group_values_def map_entry_of split: option.splits)

lemma extend_group_keys: "name \<in> fst ` set gm \<Longrightarrow> map fst (extend_group gm name s) = map fst gm"
  by (simp add: extend_group_def map_entry_keys split: option.splits)

lemma set_butlast: "xs \<noteq> [] \<Longrightarrow> set xs = insert (last xs) (set (butlast xs))"
  by (metis append_butlast_last_id list.set(2) rotate1.simps(2) set_rotate1)

lemma resolve_step: "stack \<noteq> [] \<Longrightarrow> resolve_aliases al name stack seen gm =
    resolve_aliases al name (push_nested al (butlast stack) (List.insert (last stack) seen) (last stack))
      (List.insert (last stack) seen) (extend_group gm name (last stack))"
  by (subst resolve_aliases.simps) (simp add: Let_def)

lemma push_nested_set: "set (push_nested al stack seen s) = set stack \<union> (alias_edges al `` {s} - set seen)"
  by (auto simp: push_nested_def alias_edges_def)

lemma resolve_others: "t \<noteq> name \<Longrightarrow> set (group_values (resolve_aliases al name stack seen gm) t) = set (group_values gm t)"
proof (induction al name stack seen gm rule: resolve_aliases.induct)
  case (1 al name stack seen gm)
  show ?case
  proof (cases "stack = []")
    case True
    then show ?thesis by (subst resolve_aliases.simps) simp
  next
    case False
    then show ?thesis using 1 by (simp add: resolve_step extend_group_values)
  qed
qed

lemma resolve_keys: "name \<in> fst ` set gm \<Longrightarrow> map fst (resolve_aliases al name stack seen gm) = map fst gm"
proof (induction al name stack seen gm rule: resolve_aliases.induct)
  case (1 al name stack seen gm)
  show ?case
  proof (cases "stack = []")
    case True
    then show ?thesis by (subst resolve_aliases.simps) simp
  next
    case False
    have k: "map fst (extend_group gm name (last stack)) = map fst gm" using extend_group_keys 1(2) by simp
    then have "name \<in> fst ` set (extend_group gm name (last stack))" using 1(2) by (metis list.set_map)
    then show ?thesis using 1(1) False k by (simp add: resolve_step)
  qed
qed

lemma resolve_at_most: "set (group_values (resolve_aliases al name stack seen gm) name) \<subseteq>
    set (group_values gm name) \<union> (\<Union>s \<in> (alias_edges al)\<^sup>* `` set stack. set (group_values gm s))"
proof (induction al name stack seen gm rule: resolve_aliases.induct)
  case (1 al name stack seen gm)
  show ?case
  proof (cases "stack = []")
    case True
    then show ?thesis by (subst resolve_aliases.simps) simp
  next
    case False
    let ?s = "last stack"
    let ?seen = "List.insert ?s seen"
    let ?stack = "push_nested al (butlast stack) ?seen ?s" and ?gm = "extend_group gm name ?s"
    have s: "?s \<in> set stack" using False by simp
    have "set ?stack \<subseteq> (alias_edges al)\<^sup>* `` set stack"
      using s by (auto simp: push_nested_set dest: in_set_butlastD)
    then have sub: "(alias_edges al)\<^sup>* `` set ?stack \<subseteq> (alias_edges al)\<^sup>* `` set stack"
      by (metis Image_mono relcomp_Image rtrancl_idemp_self_comp subset_refl)
    have vals: "set (group_values ?gm t) \<subseteq> set (group_values gm name) \<union> (\<Union>s \<in> (alias_edges al)\<^sup>* `` set stack. set (group_values gm s))"
      if "t = name \<or> t \<in> (alias_edges al)\<^sup>* `` set stack" for t
      using that s by (auto simp: extend_group_values)
    have "set (group_values (resolve_aliases al name ?stack ?seen ?gm) name) \<subseteq>
        set (group_values ?gm name) \<union> (\<Union>s \<in> (alias_edges al)\<^sup>* `` set ?stack. set (group_values ?gm s))"
      using 1(1) [OF False refl refl] .
    also have "\<dots> \<subseteq> set (group_values gm name) \<union> (\<Union>s \<in> (alias_edges al)\<^sup>* `` set stack. set (group_values gm s))"
      by (intro Un_least UN_least vals) (use sub in blast)+
    finally show ?thesis by (simp add: resolve_step False)
  qed
qed

lemma resolve_own: "set (group_values gm name) \<subseteq> set (group_values (resolve_aliases al name stack seen gm) name)"
proof (induction al name stack seen gm rule: resolve_aliases.induct)
  case (1 al name stack seen gm)
  show ?case
  proof (cases "stack = []")
    case True
    then show ?thesis by (subst resolve_aliases.simps) simp
  next
    case False
    then show ?thesis using 1(1) [OF False refl refl] by (auto simp: resolve_step extend_group_values)
  qed
qed

text \<open>The aliases seen so far lead nowhere but to aliases seen or on the stack.\<close>

lemma resolve_at_least:
  assumes "alias_edges al `` set seen \<subseteq> set seen \<union> set stack"
    and "s \<in> (alias_edges al)\<^sup>* `` (set stack \<union> set seen) - set seen"
  shows "set (group_values gm s) \<subseteq> set (group_values (resolve_aliases al name stack seen gm) name)"
  using assms
proof (induction al name stack seen gm rule: resolve_aliases.induct)
  case (1 al name stack seen gm)
  show ?case
  proof (cases "stack = []")
    case True
    then have "(alias_edges al)\<^sup>* `` set seen = set seen" using 1(2) by (simp add: Image_closed_trancl)
    then show ?thesis using 1(3) True by simp
  next
    case False
    let ?s = "last stack"
    let ?seen = "List.insert ?s seen"
    let ?stack = "push_nested al (butlast stack) ?seen ?s" and ?gm = "extend_group gm name ?s"
    have more: "set stack \<union> set seen \<subseteq> set ?stack \<union> set ?seen"
      by (auto simp: push_nested_set set_butlast [OF False])
    have closed: "alias_edges al `` set ?seen \<subseteq> set ?seen \<union> set ?stack"
      using 1(2) by (auto simp: push_nested_set set_butlast [OF False])
    show ?thesis
    proof (cases "s = ?s")
      case True
      then have "set (group_values gm s) \<subseteq> set (group_values ?gm name)" by (simp add: extend_group_values)
      then show ?thesis using resolve_own [of ?gm name al ?stack ?seen] by (simp add: resolve_step False)
    next
      case F: False
      then have "s \<in> (alias_edges al)\<^sup>* `` (set ?stack \<union> set ?seen) - set ?seen"
        using 1(3) Image_mono [OF order_refl [of "(alias_edges al)\<^sup>*"] more] by (simp only: Diff_iff List.set_insert insert_iff) blast
      then have "set (group_values ?gm s) \<subseteq> set (group_values (resolve_aliases al name ?stack ?seen ?gm) name)"
        using 1(1) [OF False refl refl closed] by blast
      then show ?thesis by (auto simp: resolve_step False extend_group_values split: if_splits)
    qed
  qed
qed

lemma resolve_values:
  "set (group_values (resolve_aliases al name stack [] gm) name) =
    set (group_values gm name) \<union> (\<Union>s \<in> (alias_edges al)\<^sup>* `` set stack. set (group_values gm s))"
proof (intro antisym resolve_at_most)
  have "set (group_values gm s) \<subseteq> set (group_values (resolve_aliases al name stack [] gm) name)"
    if "s \<in> (alias_edges al)\<^sup>* `` set stack" for s
    using resolve_at_least [of al "[]" stack s gm name] that by simp
  then show "set (group_values gm name) \<union> (\<Union>s \<in> (alias_edges al)\<^sup>* `` set stack. set (group_values gm s)) \<subseteq>
      set (group_values (resolve_aliases al name stack [] gm) name)"
    using resolve_own [of gm name al stack "[]"] by blast
qed

text \<open>Resolving the groups one after the other: values never leave what is reached, and a group that
  was resolved holds all of it.\<close>

definition reached_values :: "groups \<Rightarrow> groups \<Rightarrow> string \<Rightarrow> string set" where
  "reached_values al gm n = (\<Union>m \<in> (alias_edges al)\<^sup>* `` {n}. set (group_values gm m))"

lemma reached_mono: "(n, m) \<in> (alias_edges al)\<^sup>* \<Longrightarrow> reached_values al gm m \<subseteq> reached_values al gm n"
  by (auto simp: reached_values_def intro: rtrancl_trans)

lemma reached_unfold: "reached_values al gm n =
    set (group_values gm n) \<union> (\<Union>m \<in> (alias_edges al)\<^sup>* `` set (group_values al n). set (group_values gm m))"
proof -
  have "(alias_edges al)\<^sup>* `` {n} = insert n ((alias_edges al)\<^sup>* `` set (group_values al n))"
    by (auto simp: alias_edges_def elim: converse_rtranclE intro: converse_rtrancl_into_rtrancl)
  then show ?thesis by (simp add: reached_values_def)
qed

definition between :: "groups \<Rightarrow> groups \<Rightarrow> groups \<Rightarrow> bool" where
  "between al gm0 gm \<longleftrightarrow> map fst gm = map fst gm0 \<and>
     (\<forall>n. set (group_values gm0 n) \<subseteq> set (group_values gm n) \<and> set (group_values gm n) \<subseteq> reached_values al gm0 n)"

lemma resolve_between:
  assumes "between al gm0 gm" "n \<in> fst ` set gm0" "set xs = set (group_values al n)"
  shows "between al gm0 (resolve_aliases al n xs [] gm) \<and>
    set (group_values (resolve_aliases al n xs [] gm) n) = reached_values al gm0 n"
proof -
  have b: "set (group_values gm0 m) \<subseteq> set (group_values gm m)" "set (group_values gm m) \<subseteq> reached_values al gm0 m" for m
    using assms(1) by (auto simp: between_def)
  have keys: "map fst gm = map fst gm0" using assms(1) by (simp add: between_def)
  then have "n \<in> fst ` set gm" using assms(2) by (metis list.set_map)
  then have keys': "map fst (resolve_aliases al n xs [] gm) = map fst gm0" using resolve_keys keys by metis
  have up: "set (group_values gm m) \<subseteq> reached_values al gm0 n" if "m \<in> (alias_edges al)\<^sup>* `` set xs" for m
  proof -
    have "(n, m) \<in> (alias_edges al)\<^sup>*"
      using that assms(3) by (auto simp: alias_edges_def intro: converse_rtrancl_into_rtrancl)
    then show ?thesis using reached_mono b(2) by blast
  qed
  have eq: "set (group_values (resolve_aliases al n xs [] gm) n) = reached_values al gm0 n"
    unfolding resolve_values
  proof (rule antisym)
    show "set (group_values gm n) \<union> (\<Union>m \<in> (alias_edges al)\<^sup>* `` set xs. set (group_values gm m)) \<subseteq> reached_values al gm0 n"
      by (intro Un_least UN_least b(2) up)
    show "reached_values al gm0 n \<subseteq> set (group_values gm n) \<union> (\<Union>m \<in> (alias_edges al)\<^sup>* `` set xs. set (group_values gm m))"
      unfolding reached_unfold assms(3) by (intro Un_mono UN_mono b(1) order_refl)
  qed
  moreover have "set (group_values gm0 m) \<subseteq> reached_values al gm0 m" for m using b by blast
  ultimately have "set (group_values gm0 m) \<subseteq> set (group_values (resolve_aliases al n xs [] gm) m) \<and>
      set (group_values (resolve_aliases al n xs [] gm) m) \<subseteq> reached_values al gm0 m" for m
    using b resolve_others [of m n al xs "[]" gm] by (cases "m = n") auto
  then show ?thesis using keys' eq by (simp add: between_def)
qed

lemma resolve_groups:
  assumes "between al gm0 gm" "\<forall>(n, xs) \<in> set es. n \<in> fst ` set gm0 \<and> set xs = set (group_values al n)"
  shows "between al gm0 (foldl (\<lambda>gm (n, xs). resolve_aliases al n xs [] gm) gm es) \<and>
    (\<forall>n. n \<in> fst ` set es \<or> set (group_values gm n) = reached_values al gm0 n \<longrightarrow>
      set (group_values (foldl (\<lambda>gm (n, xs). resolve_aliases al n xs [] gm) gm es) n) = reached_values al gm0 n)"
  using assms
proof (induction es arbitrary: gm)
  case (Cons e es)
  obtain n xs where e: "e = (n, xs)" by (cases e)
  have step: "between al gm0 (resolve_aliases al n xs [] gm)"
      "set (group_values (resolve_aliases al n xs [] gm) n) = reached_values al gm0 n"
    using resolve_between [OF Cons.prems(1), of n xs] Cons.prems(2) e by auto
  have "set (group_values (resolve_aliases al n xs [] gm) m) = reached_values al gm0 m"
    if "m = n \<or> set (group_values gm m) = reached_values al gm0 m" for m
    using that step(2) resolve_others [of m n al xs "[]" gm] by (cases "m = n") auto
  then show ?case using Cons.IH [OF step(1)] Cons.prems(2) e by auto
qed simp

text \<open>The maps that are built of the lines of the file.\<close>

abbreviation group_lines :: "string list \<Rightarrow> read_result \<Rightarrow> (string \<times> string list \<times> string list) list" where
  "group_lines licenses r \<equiv> List.map_filter (\<lambda>(_, l). group_line licenses l) (filter_lines (read_path r))"

definition line_edges :: "(string \<times> string list \<times> string list) list \<Rightarrow> (string \<times> string) set" where
  "line_edges ls = {(n, a). \<exists>vs xs. (n, vs, xs) \<in> set ls \<and> a \<in> set xs}"

definition last_licenses :: "(string \<times> string list \<times> string list) list \<Rightarrow> string \<Rightarrow> string set" where
  "last_licenses ls n = (case map_of (rev (map (\<lambda>(n, vs, _). (n, vs)) ls)) n of None \<Rightarrow> {} | Some vs \<Rightarrow> set vs)"

lemma insert_alias_values: "set (group_values (insert_alias m n a) k) =
    (if k = n then insert a (set (group_values m n)) else set (group_values m k))"
  by (auto simp: insert_alias_def group_values_def map_entry_of add_new_def mem_by_iff split: option.splits)

lemma insert_aliases_values: "set (group_values (foldl (\<lambda>m a. insert_alias m n a) m xs) k) =
    (if k = n then set xs \<union> set (group_values m n) else set (group_values m k))"
  by (induction xs arbitrary: m) (auto simp: insert_alias_values)

lemma insert_aliases_edges: "alias_edges (foldl (\<lambda>m a. insert_alias m n a) m xs) = alias_edges m \<union> {n} \<times> set xs"
  by (rule set_eqI) (auto simp: alias_edges_def insert_aliases_values split_beta' mem_Times_iff)

lemma insert_aliases_keys:
  "distinct (map fst m) \<Longrightarrow> distinct (map fst (foldl (\<lambda>m a. insert_alias m n a) m xs)) \<and>
    fst ` set (foldl (\<lambda>m a. insert_alias m n a) m xs) \<subseteq> insert n (fst ` set m)"
proof (induction xs arbitrary: m)
  case (Cons a xs)
  have k: "map fst (insert_alias m n a) = (if n \<in> fst ` set m then map fst m else map fst m @ [n])"
    by (simp add: insert_alias_def map_entry_keys)
  then have "distinct (map fst (insert_alias m n a))" using Cons.prems by simp
  moreover have "fst ` set (insert_alias m n a) = insert n (fst ` set m)"
    using arg_cong [OF k, of set] by (auto split: if_splits)
  ultimately show ?case using Cons.IH [of "insert_alias m n a"] by auto
qed auto

lemma alias_map_snoc: "alias_map (ls @ [(n, vs, xs)]) = foldl (\<lambda>m a. insert_alias m n a) (alias_map ls) xs"
  by (simp add: alias_map_def)

lemma alias_map_lines:
  "distinct (map fst (alias_map ls)) \<and> fst ` set (alias_map ls) \<subseteq> fst ` set ls \<and> alias_edges (alias_map ls) = line_edges ls"
proof (induction ls rule: rev_induct)
  case (snoc l ls)
  obtain n vs xs where l: "l = (n, vs, xs)" by (cases l)
  have "line_edges (ls @ [l]) = line_edges ls \<union> {n} \<times> set xs" unfolding l by (auto simp: line_edges_def)
  then have "alias_edges (alias_map (ls @ [l])) = line_edges (ls @ [l])"
    using snoc unfolding l alias_map_snoc by (simp add: insert_aliases_edges)
  moreover have "fst ` set (alias_map (ls @ [l])) \<subseteq> fst ` set (ls @ [l])"
  proof -
    have "fst ` set (alias_map (ls @ [l])) \<subseteq> insert n (fst ` set (alias_map ls))"
      using snoc insert_aliases_keys [of "alias_map ls" n xs] unfolding l alias_map_snoc by blast
    also have "\<dots> \<subseteq> insert n (fst ` set ls)" using snoc by blast
    finally show ?thesis by (simp add: l)
  qed
  ultimately show ?case using snoc insert_aliases_keys [of "alias_map ls" n xs] unfolding l alias_map_snoc by simp
qed (simp add: alias_map_def alias_edges_def line_edges_def group_values_def)

lemma map_insert_of: "map_of (map_insert k v m) l = (if l = k then Some v else map_of m l)"
  by (induction k v m rule: map_insert.induct) auto

lemma map_insert_keys_list: "map fst (map_insert k v m) = add_new (=) (map fst m) k"
  by (induction k v m rule: map_insert.induct) (auto simp: add_new_def mem_by_iff)

lemma map_collect_of: "map_of (map_collect kvs) = map_of (rev kvs)"
  by (induction kvs rule: rev_induct) (auto simp: map_collect_def map_insert_of)

lemma map_collect_keys: "map fst (map_collect kvs) = firsts_by (=) (map fst kvs)"
proof (induction kvs rule: rev_induct)
  case (snoc kv kvs)
  then show ?case by (cases kv) (simp add: map_collect_def map_insert_keys_list firsts_by_snoc)
qed (simp add: map_collect_def)

lemma group_map_lines:
  "map fst (group_map ls) = firsts_by (=) (map fst ls)" "set (group_values (group_map ls) n) = last_licenses ls n"
  by (auto simp: group_map_def map_collect_keys comp_def case_prod_beta' group_values_def map_collect_of last_licenses_def
      split: option.splits)

lemma license_groups_reached:
  "map fst (license_groups lics r) = firsts_by (=) (map fst (group_lines lics r)) \<and>
    set (group_values (license_groups lics r) n) = (\<Union>m \<in> (line_edges (group_lines lics r))\<^sup>* `` {n}. last_licenses (group_lines lics r) m)"
proof -
  let ?ls = "group_lines lics r"
  let ?al = "alias_map ?ls" and ?gm = "group_map ?ls"
  have start: "between ?al ?gm ?gm" by (auto simp: between_def reached_values_def)
  have names: "fst ` set ?gm = fst ` set ?ls" using arg_cong [OF group_map_lines(1) [of ?ls], of set] by simp
  have d: "distinct (map fst ?al)" and sub: "fst ` set ?al \<subseteq> fst ` set ?ls" using alias_map_lines [of ?ls] by auto
  have "fst e \<in> fst ` set ?gm \<and> set (snd e) = set (group_values ?al (fst e))" if "e \<in> set ?al" for e
    using imageI [OF that, of fst] sub map_of_is_SomeI [OF d, of "fst e" "snd e"] that
    unfolding names by (simp add: group_values_def subset_iff)
  then have al: "\<forall>(n, xs) \<in> set ?al. n \<in> fst ` set ?gm \<and> set xs = set (group_values ?al n)"
    by (simp add: case_prod_beta')
  note all = resolve_groups [OF start al]
  have lg: "license_groups lics r = foldl (\<lambda>gm (n, xs). resolve_aliases ?al n xs [] gm) ?gm ?al"
    by (simp add: license_groups_def Let_def)
  have "set (group_values (license_groups lics r) n) = reached_values ?al ?gm n"
  proof (cases "n \<in> fst ` set ?al")
    case True
    then show ?thesis using all lg by simp
  next
    case False
    then have "group_values ?al n = []" by (simp add: group_values_def map_of_eq_None_iff [THEN iffD2] split: option.splits)
    then have "reached_values ?al ?gm n = set (group_values ?gm n)" by (simp add: reached_unfold)
    then show ?thesis using all lg by (auto simp: between_def)
  qed
  then have vals: "set (group_values (license_groups lics r) n) = (\<Union>m \<in> (line_edges ?ls)\<^sup>* `` {n}. last_licenses ?ls m)"
    using alias_map_lines [of ?ls] by (simp add: reached_values_def group_map_lines(2))
  have "map fst (license_groups lics r) = map fst ?gm" using all lg by (simp add: between_def)
  then show ?thesis using vals group_map_lines(1) by simp
qed

end
