(* ===== verification/Repo_Metadata_Laws.thy ===== *)
theory Repo_Metadata_Laws
  imports Repo_Profiles_Laws
begin

text \<open>
  The text formats of repository metadata: the lines of a file, the file of local USE flags, and the
  configuration.
\<close>

section \<open>Lines\<close>

lemma trim_end_last: "s \<noteq> [] \<Longrightarrow> \<not> is_whitespace (last s) \<Longrightarrow> trim_end s = s"
  by (cases s rule: rev_cases) (auto simp: trim_end_def)

lemma trim_ends: "s \<noteq> [] \<Longrightarrow> \<not> is_whitespace (hd s) \<Longrightarrow> \<not> is_whitespace (last s) \<Longrightarrow> trim s = s"
  by (cases s) (auto simp: trim_def trim_start_def trim_end_last)

lemma trim_snoc: "is_whitespace c \<Longrightarrow> s \<noteq> [] \<Longrightarrow> \<not> is_whitespace (hd s) \<Longrightarrow> trim (s @ [c]) = trim s"
  by (cases s) (auto simp: trim_def trim_start_def trim_end_def)

lemma filter_map_snd: "map snd (filter (\<lambda>(_, l). Q l) (enumerate n xs)) = filter Q xs"
  by (induction xs arbitrary: n) auto

lemma map_filter_snd: "List.map_filter (\<lambda>(_, l). g l) ps = List.map_filter g (map snd ps)"
  by (induction ps) (auto simp: List.map_filter_def)

lemma parsed_lines_alt: "parsed_lines f s =
    List.map_filter (\<lambda>l. case f l of Inl _ \<Rightarrow> None | Inr x \<Rightarrow> Some x)
      (filter (\<lambda>l. l \<noteq> [] \<and> \<not> starts_with l ''#'') (map trim (str_lines s)))"
  unfolding parsed_lines_def filter_lines_def map_filter_snd filter_map_snd ..

section \<open>Local USE flags\<close>

text \<open>What the metadata of a package that was parsed holds of its local flags.\<close>

definition local_use_ok :: "xml_metadata \<Rightarrow> bool" where
  "local_use_ok m \<longleftrightarrow> distinct (map fst (xm_local_use m)) \<and> (\<forall>(n, d) \<in> set (xm_local_use m). \<exists>ws. list_all is_word ws \<and> d = join_with '' '' ws)"

lemma map_insert_distinct: "distinct (map fst m) \<Longrightarrow> distinct (map fst (map_insert k v m))"
  by (auto simp: map_insert_keys_list add_new_def mem_by_iff)

lemma map_insert_member: "(k', w) \<in> set (map_insert k v m) \<Longrightarrow> (k', w) = (k, v) \<or> (k', w) \<in> set m"
  by (induction k v m rule: map_insert.induct) (auto split: if_splits)

lemma parse_use_ok: "local_use_ok m \<Longrightarrow> local_use_ok (parse_use node m)"
proof -
  have "local_use_ok m \<Longrightarrow> local_use_ok (foldl (\<lambda>m n. case attribute n ''name'' of
       None \<Rightarrow> m
     | Some name \<Rightarrow> m\<lparr>xm_local_use := map_insert name (flag_description n) (xm_local_use m)\<rparr>) m ns)" for ns
  proof (induction ns arbitrary: m)
    case (Cons n ns)
    have "local_use_ok (m\<lparr>xm_local_use := map_insert name (flag_description n) (xm_local_use m)\<rparr>)" for name
      using Cons.prems unfolding local_use_ok_def flag_description_def normalize_space_def
      by (auto simp: map_insert_distinct dest!: map_insert_member) (blast intro: split_whitespace_words)+
    then show ?case using Cons by (cases "attribute n ''name''") simp_all
  qed simp
  then show "local_use_ok m \<Longrightarrow> ?thesis" by (simp add: parse_use_def)
qed

lemma parse_slots_local: "xm_local_use (parse_slots node m) = xm_local_use m"
proof -
  have "xm_local_use (foldl slots_child m ns) = xm_local_use m" for ns
    by (induction ns arbitrary: m) (auto simp: slots_child_def split: option.splits)
  then show ?thesis by (simp add: parse_slots_def)
qed

lemma metadata_child_ok: "metadata_child n m = Inr m' \<Longrightarrow> local_use_ok m \<Longrightarrow> local_use_ok m'"
  using parse_use_ok [of m n] parse_slots_local [of n m]
  by (auto simp: metadata_child_def Let_def local_use_ok_def split: if_splits sum.splits)

lemma metadata_children_ok: "metadata_children ns m = Inr m' \<Longrightarrow> local_use_ok m \<Longrightarrow> local_use_ok m'"
  by (induction ns arbitrary: m) (auto split: sum.splits dest: metadata_child_ok)

lemma parsed_metadata_ok: "xml_metadata_parse xp data = Inr m \<Longrightarrow> local_use_ok m"
  using metadata_children_ok [of _ xml_metadata_default m]
  by (auto simp: xml_metadata_parse_def local_use_ok_def xml_metadata_default_def split: sum.splits)

text \<open>A line of the file, and what it is read as.\<close>

definition valid_flag :: "string \<Rightarrow> bool" where
  "valid_flag = is_name flag_first flag_char"

lemma parse_use_flag_iff: "parse_use_flag s = Inr x \<longleftrightarrow> x = s \<and> valid_flag s"
proof
  assume "parse_use_flag s = Inr x"
  then have "p_use_flag s = Some (x, [])" by (simp add: parse_use_flag_def)
  then show "x = s \<and> valid_flag s"
    using printsD [OF p_name_prints] by (fastforce simp: p_use_flag_def valid_flag_def)
next
  assume "x = s \<and> valid_flag s"
  then show "parse_use_flag s = Inr x" using flag_reads [of "[]" s] by (simp add: parse_use_flag_def valid_flag_def)
qed

lemma flag_chars: "valid_flag n \<Longrightarrow> list_all flag_char n"
  by (cases n) (auto simp: valid_flag_def is_name_def flag_char_def)

lemma step_body_all: "(\<And>w c. st w c \<Longrightarrow> Q c) \<Longrightarrow> step_body st r u \<Longrightarrow> list_all Q u"
  by (induction u) auto

definition cpn_char :: "char \<Rightarrow> bool" where
  "cpn_char c \<longleftrightarrow> name_char c \<or> c = CHR ''/''"

lemma cpn_chars: "valid_cpn a \<Longrightarrow> list_all cpn_char (cpn_display a)"
proof -
  assume a: "valid_cpn a"
  then have "list_all cpn_char (cpn_category a)"
    by (cases "cpn_category a") (auto simp: valid_cpn_def valid_category_def is_name_def cpn_char_def name_char_def list_all_iff)
  moreover have "package_step w c \<Longrightarrow> cpn_char c" for w c
    by (auto simp: package_step_def package_char_def cpn_char_def name_char_def)
  then have "list_all cpn_char (cpn_package a)"
    using a step_body_all [of package_step cpn_char "[]"]
    by (auto simp: valid_cpn_def valid_package_def cpn_char_def name_char_def split: list.splits)
  ultimately show ?thesis by (simp add: cpn_display_def cpn_char_def)
qed

lemma cpn_char_plain: "cpn_char c \<Longrightarrow> \<not> is_whitespace c \<and> c \<noteq> CHR '':'' \<and> c \<noteq> CHR ''#''"
  by (auto simp: cpn_char_def name_char_def word_char_def char_classes is_whitespace_def)

lemma flag_char_plain: "flag_char c \<Longrightarrow> \<not> is_whitespace c"
  by (auto simp: flag_char_def flag_first_def char_classes is_whitespace_def)

lemma split_once_str_flag: "list_all (\<lambda>c. \<not> is_whitespace c) n \<Longrightarrow> split_once_str '' - '' (n @ '' - '' @ d) = Some (n, d)"
  by (induction n) (auto simp: starts_with_def is_whitespace_def)

lemma split_once_str_no: "list_all (\<lambda>c. \<not> is_whitespace c) n \<Longrightarrow> split_once_str '' - '' (n @ '' -'') = None"
  by (induction n) (auto simp: starts_with_def is_whitespace_def)

definition use_local_line :: "cpn \<times> string \<times> string \<Rightarrow> string" where
  "use_local_line t = (case t of (c, n, d) \<Rightarrow> cpn_display c @ '':'' @ n @ '' - '' @ d)"

definition good_item :: "cpn \<times> string \<times> string \<Rightarrow> bool" where
  "good_item t = (case t of (c, n, d) \<Rightarrow> valid_cpn c \<and> valid_flag n \<and> (\<exists>ws. list_all is_word ws \<and> d = join_with '' '' ws))"

lemma join_words_ends: "list_all is_word ws \<Longrightarrow> join_with '' '' ws \<noteq> [] \<Longrightarrow> \<not> is_whitespace (last (join_with '' '' ws))"
proof (induction ws)
  case (Cons w ws)
  moreover have "ws \<noteq> [] \<Longrightarrow> list_all is_word ws \<Longrightarrow> join_with '' '' ws \<noteq> []" for ws
    by (cases ws) (auto simp: join_with_Cons is_word_def)
  ultimately show ?case by (cases "ws = []") (auto simp: join_with_Cons is_word_def list_all_iff)
qed simp

lemma use_local_line_reads:
  assumes "good_item (c, n, d)"
  shows "trim (use_local_line (c, n, d)) \<noteq> []" "\<not> starts_with (trim (use_local_line (c, n, d))) ''#''"
    "one_line (use_local_line (c, n, d))"
    "(case parse_use_local (trim (use_local_line (c, n, d))) of Inl _ \<Rightarrow> None | Inr x \<Rightarrow> Some x) =
       (if d = [] then None else Some (cpn_display c, n, d))"
proof -
  obtain ws where c: "valid_cpn c" and n: "valid_flag n" and ws: "list_all is_word ws" "d = join_with '' '' ws"
    using assms by (auto simp: good_item_def)
  have "cpn_display c \<noteq> []" by (simp add: cpn_display_def)
  then obtain x r where x: "cpn_display c = x # r" "cpn_char x" using cpn_chars [OF c] by (auto simp: neq_Nil_conv)
  have plain: "CHR '':'' \<notin> set (cpn_display c)" using cpn_chars [OF c] cpn_char_plain by (auto simp: list_all_iff)
  have flag: "list_all (\<lambda>c. \<not> is_whitespace c) n" using flag_chars [OF n] flag_char_plain by (auto simp: list_all_iff)
  have flag_ok: "parse_use_flag n = Inr n" by (simp add: parse_use_flag_iff n)
  have cpn: "parse_cpn (cpn_display c) = Inr c" using c by (simp add: parse_cpn_iff)
  have trimmed: "trim (use_local_line (c, n, d)) = (if d = [] then cpn_display c @ '':'' @ n @ '' -'' else use_local_line (c, n, d))"
  proof (cases "d = []")
    case True
    have "trim ((cpn_display c @ '':'' @ n @ '' -'') @ [CHR '' '']) = trim (cpn_display c @ '':'' @ n @ '' -'')"
      by (rule trim_snoc) (use x cpn_char_plain in \<open>auto simp: is_whitespace_def\<close>)
    also have "\<dots> = cpn_display c @ '':'' @ n @ '' -''"
      by (rule trim_ends) (use x cpn_char_plain in \<open>auto simp: is_whitespace_def\<close>)
    finally show ?thesis using True by (simp add: use_local_line_def)
  next
    case False
    have "\<not> is_whitespace (last (use_local_line (c, n, d)))"
      using join_words_ends [OF ws(1)] ws(2) False by (simp add: use_local_line_def)
    then show ?thesis using False x cpn_char_plain by (auto intro!: trim_ends simp: use_local_line_def)
  qed
  then show "trim (use_local_line (c, n, d)) \<noteq> []" "\<not> starts_with (trim (use_local_line (c, n, d))) ''#''"
    using x cpn_char_plain [of x] by (auto simp: use_local_line_def starts_with_def)
  have "one_line (cpn_display c)" "one_line n" "one_line d"
    using cpn_chars [OF c] flag ws one_line_words cpn_char_plain by (auto simp: list_all_iff line_space)
  then show "one_line (use_local_line (c, n, d))" by (simp add: use_local_line_def list_all_append)
  show "(case parse_use_local (trim (use_local_line (c, n, d))) of Inl _ \<Rightarrow> None | Inr x \<Rightarrow> Some x) =
       (if d = [] then None else Some (cpn_display c, n, d))"
  proof (cases "d = []")
    case True
    then show ?thesis
      using split_once_append [OF plain] split_once_str_no [OF flag] unfolding trimmed
      by (simp add: parse_use_local_def cpn parse_use_desc_def)
  next
    case False
    then show ?thesis
      using split_once_append [OF plain] split_once_str_flag [OF flag] flag_ok unfolding trimmed
      by (simp add: parse_use_local_def cpn parse_use_desc_def use_local_line_def)
  qed
qed

lemma use_local_lines:
  assumes "list_all good_item ts"
  shows "parsed_lines parse_use_local (use_local_text ts) = map (\<lambda>(c, n, d). (cpn_display c, n, d)) (filter (\<lambda>(c, n, d). d \<noteq> []) ts)"
proof -
  have "use_local_text ts = concat (map (\<lambda>l. l @ [CHR 0x0A]) (map use_local_line ts))"
    by (simp add: use_local_text_def use_local_line_def comp_def case_prod_beta')
  moreover have "list_all one_line (map use_local_line ts)"
    using assms use_local_line_reads(3) by (fastforce simp: list_all_iff)
  ultimately have lines: "str_lines (use_local_text ts) = map use_local_line ts" using str_lines_lines by metis
  show ?thesis using assms unfolding parsed_lines_alt lines
  proof (induction ts)
    case (Cons t ts)
    obtain c n d where t: "t = (c, n, d)" by (cases t)
    show ?case using Cons use_local_line_reads [of c n d] unfolding t by (auto simp: List.map_filter_def)
  qed (simp add: List.map_filter_def)
qed

text \<open>Looking up a flag of a package in a map of maps.\<close>

definition lookup2 :: "('k \<times> ('l \<times> 'v) list) list \<Rightarrow> 'k \<Rightarrow> 'l \<Rightarrow> 'v option" where
  "lookup2 m k l = Option.bind (map_of m k) (\<lambda>m'. map_of m' l)"

lemma collect_maps_lookup:
  "lookup2 (collect_maps ts) k l = map_of (rev (map (\<lambda>(k, l, v). ((k, l), v)) ts)) (k, l)"
proof (induction ts rule: rev_induct)
  case (snoc t ts)
  obtain a b v where t: "t = (a, b, v)" by (cases t)
  show ?case using snoc unfolding t
    by (auto simp: collect_maps_def lookup2_def map_entry_of map_insert_of split: option.splits)
qed (simp add: collect_maps_def lookup2_def)

lemma use_local_written:
  assumes "list_all valid_cpn cpns" "distinct cpns" "\<And>c. c \<in> set cpns \<Longrightarrow> local_use_ok (md c)"
    and flags: "\<And>c n d. c \<in> set cpns \<Longrightarrow> (n, d) \<in> set (xm_local_use (md c)) \<Longrightarrow> valid_flag n"
    and "c \<in> set cpns" "xm_local_use (md c) \<noteq> []"
  shows "lookup2 (use_local (use_local_update md cpns old)) k n = Some d \<longleftrightarrow>
    (\<exists>c \<in> set cpns. k = cpn_display c \<and> map_of (xm_local_use (md c)) n = Some d \<and> d \<noteq> [])"
proof -
  let ?ts = "use_local_items md cpns"
  have mem: "(c, n, d) \<in> set ?ts \<longleftrightarrow> c \<in> set cpns \<and> (n, d) \<in> set (xm_local_use (md c))" for c n d
    by (auto simp: use_local_items_def)
  have unique: "d = d'" if "(c, n, d) \<in> set ?ts" "(c', n, d') \<in> set ?ts" "cpn_display c = cpn_display c'" for c c' n d d'
  proof -
    have "c = c'" using that assms(1) by (metis mem list_all_iff parse_cpn_iff Inr_inject)
    then show ?thesis using that assms(3) [of c] unfolding mem local_use_ok_def by (metis eq_key_imp_eq_value)
  qed
  have "list_all good_item ?ts"
    using assms(1) assms(3) flags unfolding list_all_iff by (auto simp: good_item_def mem local_use_ok_def) fastforce
  note lines = use_local_lines [OF this]
  have "?ts \<noteq> []" using mem [of c "fst (hd (xm_local_use (md c)))" "snd (hd (xm_local_use (md c)))"] assms(5,6) by force
  then have read: "lookup2 (use_local (use_local_update md cpns old)) k n =
      map_of (rev (map (\<lambda>(k, l, v). ((k, l), v)) (map (\<lambda>(c, n, d). (cpn_display c, n, d)) (filter (\<lambda>(c, n, d). d \<noteq> []) ?ts)))) (k, n)"
    by (simp add: use_local_def use_local_update_def Let_def read_path_def lines collect_maps_lookup)
  show ?thesis
  proof
    assume "lookup2 (use_local (use_local_update md cpns old)) k n = Some d"
    then have "((k, n), d) \<in> set (map (\<lambda>(k, l, v). ((k, l), v)) (map (\<lambda>(c, n, d). (cpn_display c, n, d)) (filter (\<lambda>(c, n, d). d \<noteq> []) ?ts)))"
      unfolding read by (auto dest!: map_of_SomeD)
    then obtain c where "(c, n, d) \<in> set ?ts" "k = cpn_display c" "d \<noteq> []" by auto
    then show "\<exists>c \<in> set cpns. k = cpn_display c \<and> map_of (xm_local_use (md c)) n = Some d \<and> d \<noteq> []"
      using assms(3) unfolding mem local_use_ok_def by (metis map_of_is_SomeI)
  next
    assume "\<exists>c \<in> set cpns. k = cpn_display c \<and> map_of (xm_local_use (md c)) n = Some d \<and> d \<noteq> []"
    then obtain c where c: "(c, n, d) \<in> set ?ts" "k = cpn_display c" "d \<noteq> []" using mem map_of_SomeD by metis
    let ?kvs = "rev (map (\<lambda>(k, l, v). ((k, l), v)) (map (\<lambda>(c, n, d). (cpn_display c, n, d)) (filter (\<lambda>(c, n, d). d \<noteq> []) ?ts)))"
    have "((k, n), d) \<in> set ?kvs" using c by force
    then obtain d' where d': "map_of ?kvs (k, n) = Some d'" by (metis (no_types, lifting) map_of_eq_None_iff not_None_eq imageI fst_conv)
    then have "((k, n), d') \<in> set ?kvs" by (rule map_of_SomeD)
    then obtain c' where "(c', n, d') \<in> set ?ts" "k = cpn_display c'" by auto
    then have "d = d'" using unique c by metis
    then show "lookup2 (use_local (use_local_update md cpns old)) k n = Some d" unfolding read using d' by simp
  qed
qed

section \<open>Configuration\<close>

text \<open>What the configuration relies on of the parser of INI files: lines of a key and a value, made of
  characters that have no other meaning in such files, set the key to the value.\<close>

definition ini_char :: "char \<Rightarrow> bool" where
  "ini_char c \<longleftrightarrow> is_alnum c \<or> c \<in> {CHR ''-'', CHR ''_'', CHR ''.'', CHR ''+'', CHR ''/''}"

definition ini_word :: "string \<Rightarrow> bool" where
  "ini_word w \<longleftrightarrow> w \<noteq> [] \<and> list_all ini_char w"

definition ini_item :: "string \<times> string \<Rightarrow> bool" where
  "ini_item kv \<longleftrightarrow> ini_word (fst kv) \<and> (\<exists>ws. ws \<noteq> [] \<and> list_all ini_word ws \<and> snd kv = join_with '' '' ws)"

definition ini_reads :: "(string \<Rightarrow> ini_result) \<Rightarrow> bool" where
  "ini_reads ip \<longleftrightarrow> (\<forall>kvs. distinct (map fst kvs) \<longrightarrow> list_all ini_item kvs \<longrightarrow> ip (concat (map config_line kvs)) = IniOk (map_of kvs))"

lemma ini_word_plain: "ini_word w \<Longrightarrow> is_word w \<and> CHR '':'' \<notin> set w \<and> one_line w"
  by (auto simp: ini_word_def is_word_def list_all_iff ini_char_def char_classes is_whitespace_def line_char_def)

text \<open>A parser of such lines.\<close>

definition ini_lines :: "string \<Rightarrow> ini_result" where
  "ini_lines s = IniOk (map_of (List.map_filter (split_once_str '': '') (str_lines s)))"

lemma split_once_str_item: "CHR '':'' \<notin> set k \<Longrightarrow> split_once_str '': '' (k @ '': '' @ v) = Some (k, v)"
  by (induction k) (auto simp: starts_with_def)

lemma ini_lines_reads: "ini_reads ini_lines"
  unfolding ini_reads_def
proof (intro allI impI)
  fix kvs :: "(string \<times> string) list"
  assume kvs: "list_all ini_item kvs"
  have item: "one_line (k @ '': '' @ v) \<and> split_once_str '': '' (k @ '': '' @ v) = Some (k, v)" if "ini_item (k, v)" for k v
  proof -
    obtain ws where "ini_word k" "list_all ini_word ws" "v = join_with '' '' ws" using \<open>ini_item (k, v)\<close> by (auto simp: ini_item_def)
    then have "one_line k" "CHR '':'' \<notin> set k" "list_all is_word ws" "v = join_with '' '' ws"
      using ini_word_plain by (auto simp: list_all_iff)
    then show ?thesis using one_line_words split_once_str_item by (simp add: list_all_append)
  qed
  have "concat (map config_line kvs) = concat (map (\<lambda>l. l @ [CHR 0x0A]) (map (\<lambda>(k, v). k @ '': '' @ v) kvs))"
    by (simp add: comp_def case_prod_beta' config_line_def [abs_def])
  moreover have "list_all one_line (map (\<lambda>(k, v). k @ '': '' @ v) kvs)" using kvs item by (fastforce simp: list_all_iff)
  ultimately have "str_lines (concat (map config_line kvs)) = map (\<lambda>(k, v). k @ '': '' @ v) kvs" using str_lines_lines by metis
  moreover have "List.map_filter (split_once_str '': '') (map (\<lambda>(k, v). k @ '': '' @ v) kvs) = kvs"
    using kvs
  proof (induction kvs)
    case (Cons kv kvs)
    then show ?case using item [of "fst kv" "snd kv"] by (cases kv) (simp add: List.map_filter_def)
  qed (simp add: List.map_filter_def)
  ultimately show "ini_lines (concat (map config_line kvs)) = IniOk (map_of kvs)" by (simp add: ini_lines_def)
qed

definition config_ok :: "config \<Rightarrow> bool" where
  "config_ok c \<longleftrightarrow> distinct (cf_cache_formats c) \<and> distinct (cf_manifest_hashes c) \<and> distinct (cf_manifest_required_hashes c) \<and>
     list_all (\<lambda>ws. distinct ws \<and> list_all ini_word ws) [cf_eapis_banned c, cf_eapis_deprecated c, cf_eapis_testing c, cf_masters c,
       cf_profile_formats c, cf_properties_allowed c, cf_restrict_allowed c]"

lemma map_of_joined: "distinct (map fst its) \<Longrightarrow>
    map_of (map (\<lambda>(k, vs). (k, join_with '' '' vs)) (filter (\<lambda>(_, vs). vs \<noteq> []) its)) k =
    (case map_of its k of None \<Rightarrow> None | Some vs \<Rightarrow> if vs = [] then None else Some (join_with '' '' vs))"
proof (induction its)
  case (Cons it its)
  obtain l vs where it: "it = (l, vs)" by (cases it)
  show ?case
  proof (cases "k = l")
    case True
    then have "map_of its k = None" using Cons.prems it by (simp add: map_of_eq_None_iff)
    then show ?thesis using Cons True it by simp
  next
    case False
    then show ?thesis using Cons it by simp
  qed
qed simp

lemma config_keys: "map fst (config_items c) = [''cache-formats'', ''eapis-banned'', ''eapis-deprecated'', ''eapis-testing'',
    ''manifest-hashes'', ''manifest-required-hashes'', ''masters'', ''profile-formats'', ''properties-allowed'', ''restrict-allowed'']"
  by (simp add: config_items_def)

lemma config_lines_of: "k \<noteq> ''thin-manifests'' \<Longrightarrow> map_of (config_lines c) k =
    (case map_of (config_items c) k of None \<Rightarrow> None | Some vs \<Rightarrow> if vs = [] then None else Some (join_with '' '' vs))"
proof -
  have "distinct (map fst (config_items c))" unfolding config_keys by simp
  then show "k \<noteq> ''thin-manifests'' \<Longrightarrow> ?thesis"
    using map_of_joined [of "config_items c" k] by (simp add: config_lines_def map_add_def split: option.splits)
qed

lemma config_items_words:
  assumes "config_ok c" "(k, vs) \<in> set (config_items c)"
  shows "ini_word k \<and> list_all ini_word vs"
proof -
  have "list_all ini_word (map fst (config_items c))" unfolding config_keys by code_simp
  moreover have "list_all ini_word (map cache_format_display cs)" for cs
  proof -
    have "ini_word (cache_format_display Md5DictFormat)" by code_simp
    then have "ini_word (cache_format_display x)" for x by (cases x) simp
    then show ?thesis by (simp add: list_all_iff)
  qed
  moreover have "list_all ini_word (map hash_type_display hs)" for hs
  proof -
    have "list_all (\<lambda>x. ini_word (hash_type_display x)) [Blake2b, Blake3, Sha512]" by code_simp
    then have "ini_word (hash_type_display x)" for x by (cases x) simp_all
    then show ?thesis by (simp add: list_all_iff)
  qed
  ultimately show ?thesis using assms imageI [OF assms(2), of fst] by (auto simp: config_ok_def config_items_def list_all_iff)
qed

lemma config_display_read:
  assumes "ini_reads ip" "config_ok c"
  shows "ip (config_display c) = IniOk (map_of (config_lines c))"
proof -
  have "distinct (map fst (config_items c))" "''thin-manifests'' \<notin> set (map fst (config_items c))" unfolding config_keys by simp_all
  then have "distinct (map fst (filter (\<lambda>(_, vs). vs \<noteq> []) (config_items c)))"
      "''thin-manifests'' \<notin> set (map fst (filter (\<lambda>(_, vs). vs \<noteq> []) (config_items c)))"
    by (auto simp: distinct_map_filter)
  then have "distinct (map fst (config_lines c))" by (auto simp: config_lines_def comp_def case_prod_beta')
  moreover have "list_all ini_item (config_lines c)"
  proof -
    have "ini_item (''thin-manifests'', bool_display b)" for b
    proof -
      have w: "ini_word ''thin-manifests'' \<and> ini_word ''true'' \<and> ini_word ''false''" by code_simp
      then have "ini_word (bool_display b)" by (simp add: bool_display_def)
      then have "[bool_display b] \<noteq> [] \<and> list_all ini_word [bool_display b] \<and> bool_display b = join_with '' '' [bool_display b]"
        by simp
      then show ?thesis unfolding ini_item_def using w by (metis fst_conv snd_conv)
    qed
    moreover have "ini_item (k, join_with '' '' vs)" if "(k, vs) \<in> set (config_items c)" "vs \<noteq> []" for k vs
      using config_items_words [OF assms(2) that(1)] that(2) by (auto simp: ini_item_def)
    ultimately show ?thesis by (auto simp: config_lines_def list_all_iff)
  qed
  ultimately show ?thesis using assms(1) by (simp add: ini_reads_def config_display_def)
qed

lemma parse_values_map: "(\<And>x. f (g x) = Some x) \<Longrightarrow> parse_values f k (map g xs) = Inr xs"
  by (induction xs) simp_all

lemma config_item_read:
  assumes "config_ok c" "k \<noteq> ''thin-manifests''" "map_of (config_items c) k = Some (map g xs)" "\<And>x. f (g x) = Some x" "distinct xs"
  shows "parse_iter f (map_of (config_lines c)) k = Inr xs"
proof -
  have "(k, map g xs) \<in> set (config_items c)" using assms(3) by (rule map_of_SomeD)
  then have "list_all is_word (map g xs)" using config_items_words [OF assms(1)] ini_word_plain by (fastforce simp: list_all_iff)
  then have "ini_iter (map_of (config_lines c)) k = map g xs"
    using config_lines_of [OF assms(2), of c] assms(3) by (cases "xs = []") (simp_all add: ini_iter_def unwrap_or_default_def, simp add: split_whitespace_def)
  then show ?thesis using parse_values_map [OF assms(4), of k xs] assms(5) by (simp add: parse_iter_def firsts_by_distinct distinct_by_eq)
qed

end
