(* ===== verification/Profile_Props.thy ===== *)
theory Profile_Props
  imports Repo_Metadata_Laws Manifest_Laws
begin

text \<open>
  The properties of repository metadata: license groups, local USE flags and the configuration.
\<close>

section \<open>License groups\<close>

text \<open>C33: resolving the aliases of license groups ends for every file, cycles included, keeps the groups
  in the order of their first lines, and leaves each group with exactly the licenses of the groups
  that can be reached from it by following aliases, itself included.\<close>

theorem license_groups_resolved:
  "map fst (license_groups licenses r) = firsts_by (=) (map fst (group_lines licenses r)) \<and>
   set (group_values (license_groups licenses r) n) =
     (\<Union>m \<in> (line_edges (group_lines licenses r))\<^sup>* `` {n}. last_licenses (group_lines licenses r) m)"
  by (rule license_groups_reached)

text \<open>A second line of a group takes the place of the licenses of the first, but its aliases are added.\<close>

lemma repeated_group:
  "license_groups [''A'', ''B'', ''C''] (ReadOk (''g A @x'' @ [CHR 0x0A] @ ''x C'' @ [CHR 0x0A] @ ''g B'')) =
     [(''g'', [''B'', ''C'']), (''x'', [''C''])]"
  by code_simp

section \<open>Local USE flags\<close>

text \<open>C34: the file of local USE flags that is written of the metadata of the packages is read back as
  the flags that the metadata holds, up to those with an empty description, which are lost.\<close>

theorem use_local_round:
  assumes "list_all valid_cpn cpns" "distinct cpns"
    and "\<forall>c \<in> set cpns. \<exists>data. xml_metadata_parse xp data = Inr (md c)"
    and "\<forall>c \<in> set cpns. \<forall>(n, d) \<in> set (xm_local_use (md c)). valid_flag n"
    and "\<exists>c \<in> set cpns. xm_local_use (md c) \<noteq> []"
  shows "lookup2 (use_local (use_local_update md cpns old)) k n = Some d \<longleftrightarrow>
    (\<exists>c \<in> set cpns. k = cpn_display c \<and> map_of (xm_local_use (md c)) n = Some d \<and> d \<noteq> [])"
proof -
  obtain c where "c \<in> set cpns" "xm_local_use (md c) \<noteq> []" using assms(5) by blast
  then show ?thesis using use_local_written [OF assms(1,2), of md c old k n d] assms(3,4) parsed_metadata_ok by fast
qed

text \<open>Where no package has local flags any more the file is left as it was.\<close>

lemma use_local_kept: "\<forall>c \<in> set cpns. xm_local_use (md c) = [] \<Longrightarrow> use_local_update md cpns old = old"
proof -
  assume "\<forall>c \<in> set cpns. xm_local_use (md c) = []"
  then have "set (use_local_items md cpns) = {}" by (simp add: use_local_items_def)
  then show ?thesis by (simp add: use_local_update_def)
qed

definition example_xml :: xml_parser where
  "example_xml data = (if data = ''a'' then Inr (XElement ''pkgmetadata'' [] [XElement ''use'' [] [
     XElement ''flag'' [(''name'', ''ssl'')] [XText '' use  '', XElement ''pkg'' [] [XText ''dev-libs/openssl'']],
     XElement ''flag'' [(''name'', ''x'')] [XComment ''none'']]])
   else Inr (XElement ''pkgmetadata'' [] []))"

definition example_cpn :: "string \<Rightarrow> cpn" where
  "example_cpn pn = \<lparr>cpn_category = ''cat'', cpn_package = pn\<rparr>"

definition example_local :: "cpn \<Rightarrow> xml_metadata" where
  "example_local c = (case xml_metadata_parse example_xml (cpn_package c) of Inr m \<Rightarrow> m | Inl _ \<Rightarrow> xml_metadata_default)"

lemma example_local_use:
  "xm_local_use (example_local (example_cpn ''a'')) = [(''ssl'', ''use dev-libs/openssl''), (''x'', [])]"
  "xm_local_use (example_local (example_cpn ''b'')) = []"
  by code_simp+

lemma example_cpns: "list_all valid_cpn [example_cpn ''a'', example_cpn ''b'']" "distinct [example_cpn ''a'', example_cpn ''b'']"
  "valid_flag ''ssl''" "valid_flag ''x''" "cpn_display (example_cpn ''a'') = ''cat/a''"
  by code_simp+

lemma example_parses: "xml_metadata_parse example_xml (cpn_package c) = Inr (example_local c)"
proof -
  have "\<not> Sum_Type.isl (xml_metadata_parse example_xml ''a'')" "\<not> Sum_Type.isl (xml_metadata_parse example_xml [])" by code_simp+
  then have "\<not> Sum_Type.isl (xml_metadata_parse example_xml (cpn_package c))"
    by (cases "cpn_package c = ''a''") (simp_all add: xml_metadata_parse_def example_xml_def)
  then show ?thesis by (auto simp: example_local_def split: sum.splits)
qed

theorem use_local_round_witness:
  "lookup2 (use_local (use_local_update example_local [example_cpn ''a'', example_cpn ''b''] ReadNotFound)) ''cat/a'' ''ssl'' =
     Some ''use dev-libs/openssl''"
  by (subst use_local_round [where xp = example_xml])
    (use example_local_use example_cpns in \<open>auto intro: example_parses\<close>)

section \<open>Configuration\<close>

text \<open>C35: what a configuration is written as is read as the same configuration, where the parser of INI
  files reads lines of a key and words as such.\<close>

theorem config_text_round:
  assumes "ini_reads ip" "config_ok c"
  shows "config_try_new (ip (config_display c)) = Inr c"
proof -
  note rd = config_item_read [OF assms(2)]
  have words: "parse_iter Some (map_of (config_lines c)) k = Inr ws"
    if "k \<noteq> ''thin-manifests''" "map_of (config_items c) k = Some ws" "distinct ws" for k ws
    using rd [OF that(1), of "\<lambda>w. w" ws Some] that(2,3) by simp
  have hashes: "parse_iter hash_type_from_str (map_of (config_lines c)) k = Inr hs"
    if "k \<noteq> ''thin-manifests''" "map_of (config_items c) k = Some (map hash_type_display hs)" "distinct hs" for k hs
    using rd [OF that(1,2) hash_names(1) that(3)] .
  have formats: "parse_iter cache_format_from_str (map_of (config_lines c)) ''cache-formats'' = Inr (cf_cache_formats c)"
  proof (rule rd)
    show "cache_format_from_str (cache_format_display x) = Some x" for x by (cases x) (simp add: cache_format_from_str_def)
  qed (use assms(2) in \<open>simp_all add: config_items_def config_ok_def\<close>)
  have thin: "parse_bool (map_of (config_lines c)) ''thin-manifests'' = Inr (Some (cf_thin_manifests c))"
  proof -
    have "map_of (config_items c) ''thin-manifests'' = None" by (simp add: config_items_def)
    then have "''thin-manifests'' \<notin> fst ` set (config_items c)" by (simp add: map_of_eq_None_iff)
    then have "''thin-manifests'' \<notin> fst ` set (map (\<lambda>(k, vs). (k, join_with '' '' vs)) (filter (\<lambda>(_, vs). vs \<noteq> []) (config_items c)))"
      by force
    then have "map_of (config_lines c) ''thin-manifests'' = Some (bool_display (cf_thin_manifests c))"
      by (simp add: config_lines_def map_add_def map_of_eq_None_iff [THEN iffD2])
    then show ?thesis by (simp add: parse_bool_def bool_display_def bool_from_str_def)
  qed
  have "config_from_ini (map_of (config_lines c)) = Inr c"
    using assms(2) unfolding config_from_ini_def formats thin
    by (simp add: words hashes config_items_def config_ok_def)
  then show ?thesis by (simp add: config_try_new_def config_display_read [OF assms] ini_load_def)
qed

definition example_config :: config where
  "example_config = config_default\<lparr>cf_masters := [''gentoo'', ''guru''], cf_manifest_hashes := [Blake2b, Sha512],
     cf_cache_formats := [Md5DictFormat], cf_thin_manifests := True\<rparr>"

theorem config_text_round_witness: "config_try_new (ini_lines (config_display example_config)) = Inr example_config"
proof (rule config_text_round [OF ini_lines_reads])
  show "config_ok example_config" by code_simp
qed

section \<open>Descriptions\<close>

text \<open>The words around an element in the description of a package run together, and comments are part of it.\<close>

lemma long_description_runs_together:
  "long_description (XElement ''longdescription'' [] [XText ''uses '', XElement ''pkg'' [] [XText ''dev-libs/a''], XText '' and '',
     XComment ''not'']) = Some ''usesdev-libs/aandnot''"
  by code_simp

end
