(* ===== verification/Ebuild_Pkg.thy ===== *)
theory Ebuild_Pkg
  imports Repo_Profiles Dependency_Eval
begin

text \<open>
  Ebuild packages: raw ones whose EAPI is read from the ebuild (\<open>pkg/ebuild/raw.rs\<close>), packages with
  their metadata (\<open>pkg/ebuild.rs\<close>), configured ones whose dependencies are evaluated
  (\<open>pkg/ebuild/configured.rs\<close>), and what restrictions look at (\<open>pkg/ebuild/restrict.rs\<close>).
\<close>

section \<open>Raw packages\<close>

definition parse_eapi :: "string \<Rightarrow> error + eapi" where
  "parse_eapi data =
    (let s = (case Option.bind (case filter_lines data of [] \<Rightarrow> None | (_, l) # _ \<Rightarrow> Some l) (\<lambda>l. strip_prefix l ''EAPI='') of
         None \<Rightarrow> ''0''
       | Some s \<Rightarrow> (case split_once (CHR ''#'') s of Some (v, _) \<Rightarrow> trim v | None \<Rightarrow> trim s))
     in and_then (parse_value s) eapi_from_str)"

record raw_pkg =
  rp_cpv :: cpv
  rp_repo_name :: string
  rp_eapi :: eapi
  rp_data :: string
  rp_chksum :: string

definition invalid_pkg :: "cpv \<Rightarrow> error" where
  "invalid_pkg c = InvalidValue ''invalid pkg'' (cpv_display c)"

definition raw_pkg_try_new :: "(string \<Rightarrow> string) \<Rightarrow> string \<Rightarrow> cpv \<Rightarrow> read_result \<Rightarrow> error + raw_pkg" where
  "raw_pkg_try_new chksum repo c r = (case r of
     ReadOk data \<Rightarrow> (case parse_eapi data of
       Inl _ \<Rightarrow> Inl (invalid_pkg c)
     | Inr e \<Rightarrow> Inr \<lparr>rp_cpv = c, rp_repo_name = repo, rp_eapi = e, rp_data = data, rp_chksum = chksum data\<rparr>)
   | _ \<Rightarrow> Inl (invalid_pkg c))"

text \<open>The last two tests of every kind of package.\<close>

definition repo_version_intersects :: "string \<Rightarrow> cpv \<Rightarrow> dep \<Rightarrow> bool" where
  "repo_version_intersects repo c d \<longleftrightarrow> (case dep_repo d of None \<Rightarrow> True | Some r \<Rightarrow> repo = r) \<and>
     (case dep_version d of None \<Rightarrow> True | Some v \<Rightarrow> version_intersects (cpv_version c) v)"

definition raw_pkg_intersects :: "raw_pkg \<Rightarrow> dep \<Rightarrow> bool" where
  "raw_pkg_intersects p d \<longleftrightarrow> cpv_cpn (rp_cpv p) = dep_cpn d \<and> dep_slot_dep d = None \<and> dep_use_deps d = None \<and>
     repo_version_intersects (rp_repo_name p) (rp_cpv p) d"

section \<open>Packages\<close>

record pkg =
  ep_cpv :: cpv
  ep_repo_id :: string
  ep_repo_name :: string
  ep_data :: string
  ep_meta :: metadata
  ep_xml :: xml_metadata

definition pkg_slot_main :: "pkg \<Rightarrow> string" where
  "pkg_slot_main p = slot_main (md_slot (ep_meta p))"

definition pkg_slot_sub :: "pkg \<Rightarrow> string" where
  "pkg_slot_sub p = (case slot_sub (md_slot (ep_meta p)) of None \<Rightarrow> pkg_slot_main p | Some s \<Rightarrow> s)"

definition pkg_iuse_flags :: "pkg \<Rightarrow> string list" where
  "pkg_iuse_flags p = firsts_by (=) (map iu_flag (md_iuse (ep_meta p)))"

text \<open>The dependencies of a list of keys: all that the EAPI has when the list is empty; a key counts once
  and keys of other metadata are passed over.\<close>

definition depset_of_key :: "metadata \<Rightarrow> key \<Rightarrow> dep dependency list option" where
  "depset_of_key m k = (case k of
     K_BDEPEND \<Rightarrow> Some (md_bdepend m) | K_DEPEND \<Rightarrow> Some (md_depend m) | K_IDEPEND \<Rightarrow> Some (md_idepend m)
   | K_PDEPEND \<Rightarrow> Some (md_pdepend m) | K_RDEPEND \<Rightarrow> Some (md_rdepend m) | _ \<Rightarrow> None)"

definition all_dependencies :: "dep dependency index_set \<Rightarrow> pkg \<Rightarrow> key list \<Rightarrow> dep dependency list" where
  "all_dependencies dx p ks =
    (let ks' = firsts_by (=) ks; ks'' = (if ks' = [] then keys_of (eapi_dep_keys (md_eapi (ep_meta p))) else ks')
     in is_collect dx (concat (List.map_filter (depset_of_key (ep_meta p)) ks'')))"

definition has_token :: "string dependency list \<Rightarrow> string \<Rightarrow> bool" where
  "has_token ds t = set_contains_value (\<lambda>s. s = t) ds"

definition pkg_live :: "pkg \<Rightarrow> bool" where
  "pkg_live p = has_token (md_properties (ep_meta p)) ''live''"

text \<open>\<open>iter_flatten\<close>, which always ends.\<close>

definition flat_values :: "'a dependency list \<Rightarrow> 'a list" where
  "flat_values ds = (case drain flatten_next ds of None \<Rightarrow> [] | Some xs \<Rightarrow> xs)"

definition pkg_distfiles :: "pkg \<Rightarrow> string list" where
  "pkg_distfiles p = filter (\<lambda>f. f \<noteq> []) (map uri_filename (flat_values (md_src_uri (ep_meta p))))"

definition pkg_intersects :: "pkg \<Rightarrow> dep \<Rightarrow> bool" where
  "pkg_intersects p d \<longleftrightarrow> cpv_cpn (ep_cpv p) = dep_cpn d \<and>
     (case dep_slot d of None \<Rightarrow> True | Some s \<Rightarrow> pkg_slot_main p = s) \<and>
     (case dep_subslot d of None \<Rightarrow> True | Some s \<Rightarrow> pkg_slot_sub p = s) \<and>
     repo_version_intersects (ep_repo_name p) (ep_cpv p) d"

definition pkg_deprecated :: "dep list \<Rightarrow> pkg \<Rightarrow> bool" where
  "pkg_deprecated deps p = list_ex (pkg_intersects p) deps"

definition pkg_masked :: "dep list \<Rightarrow> pkg \<Rightarrow> bool" where
  "pkg_masked deps p = list_ex (pkg_intersects p) deps"

section \<open>Configured packages\<close>

record configured_pkg =
  cp_raw :: pkg
  cp_repo_name :: string
  cp_options :: "string set"

definition configured_dependencies :: "dep dependency index_set \<Rightarrow> configured_pkg \<Rightarrow> key list \<Rightarrow> dep dependency list option" where
  "configured_dependencies dx p ks = dependency_set_evaluate dx (cp_options p) (all_dependencies dx (cp_raw p) ks)"

definition configured_intersects :: "configured_pkg \<Rightarrow> dep \<Rightarrow> bool" where
  "configured_intersects p d \<longleftrightarrow> cpv_cpn (ep_cpv (cp_raw p)) = dep_cpn d \<and>
     (case dep_slot d of None \<Rightarrow> True | Some s \<Rightarrow> pkg_slot_main (cp_raw p) = s) \<and>
     (case dep_subslot d of None \<Rightarrow> True | Some s \<Rightarrow> pkg_slot_sub (cp_raw p) = s) \<and>
     repo_version_intersects (cp_repo_name p) (ep_cpv (cp_raw p)) d"

section \<open>What restrictions see\<close>

fun maintainer_type_display :: "maintainer_type \<Rightarrow> string" where
  "maintainer_type_display PersonType = ''person''"
| "maintainer_type_display ProjectType = ''project''"

fun proxied_display :: "proxied \<Rightarrow> string" where
  "proxied_display ProxiedProxy = ''proxy''"
| "proxied_display ProxiedYes = ''yes''"
| "proxied_display ProxiedNo = ''no''"

definition maintainer_view :: "xml_maintainer \<Rightarrow> maintainer" where
  "maintainer_view m = \<lparr>maint_email = mt_email m, maint_name = mt_name m, maint_description = mt_description m,
     maint_type = maintainer_type_display (mt_type m), maint_proxied = proxied_display (mt_proxied m)\<rparr>"

definition pkg_view :: "dep dependency index_set \<Rightarrow> pkg \<Rightarrow> ebuild_pkg" where
  "pkg_view dx p = (let m = ep_meta p in
     \<lparr>pkg_repo_id = ep_repo_id p, pkg_cpv = ep_cpv p, pkg_eapi = md_eapi m, pkg_data = ep_data p,
      pkg_description = md_description m, pkg_slot = pkg_slot_main p, pkg_subslot = pkg_slot_sub p,
      pkg_raw_subslot = slot_sub (md_slot m), pkg_dependencies = all_dependencies dx p [], pkg_depend = md_depend m,
      pkg_bdepend = md_bdepend m, pkg_idepend = md_idepend m, pkg_pdepend = md_pdepend m, pkg_rdepend = md_rdepend m,
      pkg_license = md_license m, pkg_properties = md_properties m, pkg_required_use = md_required_use m,
      pkg_restrict = md_restrict m, pkg_src_uri = md_src_uri m, pkg_homepage = md_homepage m,
      pkg_iuse_effective = pkg_iuse_flags p, pkg_inherit = firsts_by (=) (map ec_name (md_inherit m)),
      pkg_inherited = firsts_by (=) (map ec_name (md_inherited m)), pkg_keywords = firsts_by (=) (map keyword_display (md_keywords m)),
      pkg_long_description = xm_description (ep_xml p), pkg_maintainers = map maintainer_view (xm_maintainers (ep_xml p))\<rparr>)"

end
