(* ===== verification/Fetch.thy ===== *)
theory Fetch
  imports Ebuild_Pkg
begin

text \<open>
  Fetching (\<open>fetch.rs\<close>): what a URI of a package is fetched from, the order in which mirrors are tried,
  and the download of a file with the continuation of an earlier one. URLs and the answers of
  servers are arguments; progress bars are left out.
\<close>

section \<open>Fetchables\<close>

text \<open>The operations on URLs that are used.\<close>

record 'u url_ops =
  uo_parse :: "string \<Rightarrow> 'u option"
  uo_scheme :: "'u \<Rightarrow> string"
  uo_path :: "'u \<Rightarrow> string"
  uo_query :: "'u \<Rightarrow> string option"
  uo_domain :: "'u \<Rightarrow> string option"
  uo_str :: "'u \<Rightarrow> string"
  uo_join :: "'u \<Rightarrow> string \<Rightarrow> 'u option"

record 'u fetchable =
  fe_url :: 'u
  fe_rename :: "string option"
  fe_mirrors :: "'u mirror list"
  fe_default_mirror :: string

datatype 'u fetch_error = RestrictedFetchable "'u fetchable" | RestrictedFile uri | BadFetchable string

definition supported_protocols :: "string list" where
  "supported_protocols = [''http'', ''https'', ''mirror'']"

text \<open>The mirrors of a repository by name: those of every tree, the last one of a name, by name.\<close>

definition repo_mirrors :: "(string \<times> 'u mirror list) list list \<Rightarrow> (string \<times> 'u mirror list) list" where
  "repo_mirrors trees = sort_cmp (\<lambda>a b. cmp_str (fst a) (fst b)) (map_collect (concat trees))"

definition uri_restrictions :: "pkg \<Rightarrow> uri \<Rightarrow> string \<times> bool \<times> bool" where
  "uri_restrictions p u =
    (let fetch = has_token (md_restrict (ep_meta p)) ''fetch'';
         mirror = fetch \<or> has_token (md_restrict (ep_meta p)) ''mirror''
     in if eapi_has (md_eapi (ep_meta p)) SrcUriUnrestrict
        then (case strip_prefix (uri_uri u) ''mirror+'' of
            Some s \<Rightarrow> (s, False, False)
          | None \<Rightarrow> (case strip_prefix (uri_uri u) ''fetch+'' of Some s \<Rightarrow> (s, False, mirror) | None \<Rightarrow> (uri_uri u, fetch, mirror)))
        else (uri_uri u, fetch, mirror))"

definition add_mirrors :: "'u mirror list \<Rightarrow> 'u mirror list \<Rightarrow> 'u mirror list" where
  "add_mirrors = foldl (add_new (=))"

definition url_mirrors :: "'u url_ops \<Rightarrow> (string \<times> 'u mirror list) list \<Rightarrow> 'u \<Rightarrow> 'u mirror list \<Rightarrow> 'u fetch_error + 'u mirror list" where
  "url_mirrors uo mm url ms = (if uo_scheme uo url \<noteq> ''mirror'' then Inr ms
     else (case uo_domain uo url of
         None \<Rightarrow> Inl (BadFetchable ''mirror missing'')
       | Some name \<Rightarrow> (case map_of mm name of
           None \<Rightarrow> Inl (BadFetchable ''mirror unknown'') | Some vs \<Rightarrow> Inr (add_mirrors ms vs))))"

definition fetchable_from_uri :: "'u url_ops \<Rightarrow> (string \<times> 'u mirror list) list \<Rightarrow> uri \<Rightarrow> pkg \<Rightarrow> bool \<Rightarrow> 'u fetch_error + 'u fetchable" where
  "fetchable_from_uri uo mm u p use_default =
    (case uri_restrictions p u of (val, fetch_restricted, mirror_restricted) \<Rightarrow>
      if CHR ''/'' \<notin> set (uri_uri u) \<and> fetch_restricted then Inl (RestrictedFile u)
      else (case uo_parse uo val of
          None \<Rightarrow> Inl (BadFetchable val)
        | Some url \<Rightarrow>
            if uo_scheme uo url \<notin> set supported_protocols then Inl (BadFetchable ''unsupported protocol'')
            else if trim_start_char (CHR ''/'') (uo_path uo url) = [] \<and> uo_query uo url = None then Inl (BadFetchable ''target missing'')
            else (case url_mirrors uo mm url
                (if use_default \<and> \<not> mirror_restricted then (case map_of mm (ep_repo_name p) of None \<Rightarrow> [] | Some vs \<Rightarrow> add_mirrors [] vs) else []) of
                Inl e \<Rightarrow> Inl e
              | Inr ms \<Rightarrow>
                  (let f = \<lparr>fe_url = url, fe_rename = uri_rename u, fe_mirrors = ms, fe_default_mirror = ep_repo_name p\<rparr>
                   in if fetch_restricted then Inl (RestrictedFetchable f) else Inr f))))"

text \<open>The fetchables of a package.\<close>

definition fetchable_item :: "bool \<Rightarrow> 'u fetch_error + 'u fetchable \<Rightarrow> ('u fetch_error + 'u fetchable) option" where
  "fetchable_item override r = (case r of
     Inr f \<Rightarrow> Some (Inr f)
   | Inl (RestrictedFetchable f) \<Rightarrow> if override then Some (Inr f) else None
   | Inl (RestrictedFile _) \<Rightarrow> None
   | Inl e \<Rightarrow> Some (Inl e))"

definition pkg_fetchables :: "'u url_ops \<Rightarrow> (string \<times> 'u mirror list) list \<Rightarrow> pkg \<Rightarrow> bool \<Rightarrow> bool \<Rightarrow> ('u fetch_error + 'u fetchable) list" where
  "pkg_fetchables uo mm p override use_default =
     List.map_filter (\<lambda>u. fetchable_item override (fetchable_from_uri uo mm u p use_default)) (flat_values (md_src_uri (ep_meta p)))"

text \<open>The name of the file; a URL without a slash panics.\<close>

definition fetchable_filename :: "'u url_ops \<Rightarrow> 'u fetchable \<Rightarrow> string option" where
  "fetchable_filename uo f = (case fe_rename f of Some n \<Rightarrow> Some n
     | None \<Rightarrow> map_option snd (rsplit_once (CHR ''/'') (uo_str uo (fe_url f))))"

text \<open>A fetchable made for a mirror, which takes the name of the file for the mirrors of Gentoo.\<close>

datatype 'a attempt = Attempt 'a | NoAttempt | AttemptPanics

definition fetchable_mirrored :: "'u url_ops \<Rightarrow> hasher \<Rightarrow> 'u fetchable \<Rightarrow> 'u mirror \<Rightarrow> 'u fetchable attempt" where
  "fetchable_mirrored uo h f m =
    (case (if mi_name m = ''gentoo''
           then map_option (\<lambda>n. take 2 (h Blake2b n) @ ''/'' @ n) (fetchable_filename uo f)
           else Some (uo_path uo (fe_url f))) of
       None \<Rightarrow> AttemptPanics
     | Some path \<Rightarrow> (case mirror_get_url (uo_join uo) m path of
           Inl _ \<Rightarrow> NoAttempt
         | Inr url \<Rightarrow> Attempt \<lparr>fe_url = url, fe_rename = fe_rename f, fe_mirrors = [], fe_default_mirror = []\<rparr>))"

section \<open>The order of attempts\<close>

text \<open>\<open>IterFetchable\<close>: the mirrors left, the names of mirrors to pass over, and the upstream if it was
  not tried.\<close>

type_synonym 'u attempts = "'u mirror list \<times> string list \<times> 'u fetchable option"

definition fetchable_attempts :: "'u url_ops \<Rightarrow> 'u fetchable \<Rightarrow> 'u attempts" where
  "fetchable_attempts uo f = (fe_mirrors f, [], if uo_scheme uo (fe_url f) \<noteq> ''mirror'' then Some f else None)"

fun next_mirror :: "'u url_ops \<Rightarrow> hasher \<Rightarrow> 'u fetchable \<Rightarrow> string list \<Rightarrow> 'u mirror list \<Rightarrow>
    (('u mirror \<times> 'u fetchable) \<times> 'u mirror list) attempt" where
  "next_mirror uo h f skip [] = NoAttempt"
| "next_mirror uo h f skip (m # ms) = (if mi_name m \<in> set skip then next_mirror uo h f skip ms
     else (case fetchable_mirrored uo h f m of
         NoAttempt \<Rightarrow> next_mirror uo h f skip ms
       | AttemptPanics \<Rightarrow> AttemptPanics
       | Attempt g \<Rightarrow> Attempt ((m, g), ms)))"

fun attempts_next :: "'u url_ops \<Rightarrow> hasher \<Rightarrow> 'u fetchable \<Rightarrow> 'u attempts \<Rightarrow> (('u mirror option \<times> 'u fetchable) \<times> 'u attempts) attempt" where
  "attempts_next uo h f (ms, skip, upstream) = (case next_mirror uo h f skip ms of
     Attempt ((m, g), ms') \<Rightarrow> Attempt ((Some m, g), (ms', skip, upstream))
   | AttemptPanics \<Rightarrow> AttemptPanics
   | NoAttempt \<Rightarrow> (case upstream of Some g \<Rightarrow> Attempt ((None, g), ([], skip, None)) | None \<Rightarrow> NoAttempt))"

section \<open>Downloads\<close>

text \<open>What a server answers to a request that may ask for the rest of a file from a position: a refusal, or
  whether the answer is that rest only, the bytes that arrive, and whether they all did.\<close>

datatype answer = Refused | Answer bool string bool

datatype fetch_result = FetchOk | FetchFailed | FetchAborted string | FetchPanics

text \<open>\<open>srv\<close> answers requests for a URL, \<open>len\<close> gives the length that a server reports. The file on
  disk comes and goes as an option.\<close>

definition fetch_request :: "answer \<Rightarrow> string option \<Rightarrow> fetch_result \<times> string option" where
  "fetch_request a disk = (case a of
     Refused \<Rightarrow> (FetchFailed, disk)
   | Answer partial body complete \<Rightarrow>
       (let r = (if complete then FetchOk else FetchAborted ''error while downloading file'')
        in if partial then (case disk of None \<Rightarrow> (FetchAborted ''no such file'', None) | Some old \<Rightarrow> (r, Some (old @ body)))
           else (r, Some body)))"

definition fetch_internal :: "('u \<Rightarrow> nat option \<Rightarrow> answer) \<Rightarrow> ('u \<Rightarrow> nat option) \<Rightarrow> nat option \<Rightarrow> 'u \<Rightarrow> string option \<Rightarrow>
    fetch_result \<times> string option" where
  "fetch_internal srv len sz url disk = (case disk of
     None \<Rightarrow> fetch_request (srv url None) disk
   | Some old \<Rightarrow>
       (let sz' = (case sz of None \<Rightarrow> len url | Some n \<Rightarrow> Some n)
        in if length old \<noteq> 0 \<and> length old = (case sz' of None \<Rightarrow> 0 | Some n \<Rightarrow> n) then (FetchOk, disk)
           else if (case sz' of None \<Rightarrow> False | Some n \<Rightarrow> length old > n) then (FetchAborted ''file larger than expected'', disk)
           else fetch_request (srv url (Some (length old))) disk))"

lemma next_mirror_shorter: "next_mirror uo h f skip ms = Attempt (x, ms') \<Longrightarrow> length ms' < length ms"
  by (induction ms) (auto split: if_splits attempt.splits)

function fetch_loop :: "'u url_ops \<Rightarrow> hasher \<Rightarrow> ('u \<Rightarrow> nat option \<Rightarrow> answer) \<Rightarrow> ('u \<Rightarrow> nat option) \<Rightarrow> nat option \<Rightarrow> 'u fetchable \<Rightarrow>
    'u attempts \<Rightarrow> fetch_result \<Rightarrow> string option \<Rightarrow> fetch_result \<times> string option" where
  "fetch_loop uo h srv len sz f st r disk = (case attempts_next uo h f st of
     NoAttempt \<Rightarrow> (r, disk)
   | AttemptPanics \<Rightarrow> (FetchPanics, disk)
   | Attempt ((m, g), ms, skip, up) \<Rightarrow>
       (case fetch_internal srv len sz (fe_url g) disk of
          (FetchFailed, disk') \<Rightarrow>
            fetch_loop uo h srv len sz f
              (ms, (case m of Some m \<Rightarrow> if mi_name m = fe_default_mirror f then mi_name m # skip else skip | None \<Rightarrow> skip), up)
              FetchFailed disk'
        | (r', disk') \<Rightarrow> (r', disk')))"
  by pat_completeness auto

termination
proof (relation "measure (\<lambda>(uo, h, srv, len, sz, f, (ms, skip, up), r, disk). length ms + (case up of None \<Rightarrow> 0 | Some _ \<Rightarrow> 1))", goal_cases)
  case (2 uo h srv len sz f st r disk x p q m g b c ms ba skip up)
  then show ?case by (cases st) (auto split: option.splits attempt.splits dest: next_mirror_shorter)
qed simp

declare fetch_loop.simps [simp del]

definition fetch_file :: "'u url_ops \<Rightarrow> hasher \<Rightarrow> ('u \<Rightarrow> nat option \<Rightarrow> answer) \<Rightarrow> ('u \<Rightarrow> nat option) \<Rightarrow> nat option \<Rightarrow> 'u fetchable \<Rightarrow>
    string option \<Rightarrow> fetch_result \<times> string option" where
  "fetch_file uo h srv len sz f disk = fetch_loop uo h srv len sz f (fetchable_attempts uo f) FetchOk disk"

end
