(* ===== verification/Ebuild_Pkg_Laws.thy ===== *)
theory Ebuild_Pkg_Laws
  imports Fetch Restrict_Laws Repo_Metadata_Laws
begin

text \<open>
  The laws of ebuild packages and of fetching: intersection and restriction agree, and downloads leave
  nothing but prefixes of the file.
\<close>

section \<open>Intersection and restrictions\<close>

lemma matches_ebuild_dep:
  "matches_ebuild re ux sx (restrict_of_dep d) p \<longleftrightarrow>
     cpv_cpn (pkg_cpv p) = dep_cpn d \<and> dep_blocker d = None \<and> dep_use_deps d = None \<and>
     (case dep_version d of None \<Rightarrow> True | Some v \<Rightarrow> version_intersects v (cpv_version (pkg_cpv p))) \<and>
     (case dep_slot d of None \<Rightarrow> True | Some s \<Rightarrow> pkg_slot p = s) \<and>
     (case dep_subslot d of None \<Rightarrow> True | Some s \<Rightarrow> pkg_subslot p = s) \<and>
     (case dep_repo d of None \<Rightarrow> True | Some s \<Rightarrow> pkg_repo_id p = s)"
proof -
  have cpn: "cpv_cpn (pkg_cpv p) = dep_cpn d \<longleftrightarrow> cpn_category (cpv_cpn (pkg_cpv p)) = cpn_category (dep_cpn d) \<and>
      cpn_package (cpv_cpn (pkg_cpv p)) = cpn_package (dep_cpn d)" by auto
  have "dep_restrict_matches_cpv re c (DepBlocker b) \<longleftrightarrow> b = None" "dep_restrict_matches_cpv re c (DepUseDeps u) \<longleftrightarrow> u = None"
    for c b u by (cases b; simp) (cases u; simp)
  then show ?thesis
    unfolding cpn
    by (auto simp: matches_ebuild_def restrict_of_dep_def dep_restricts_def list_all_append list.pred_map comp_def
        dep_restrict_category_def dep_restrict_package_def dep_restrict_slot_def dep_restrict_subslot_def
        dep_restrict_repo_def split: option.splits)
qed

lemma pkg_restriction:
  assumes "dep_blocker d = None" "dep_use_deps d = None" "dep_repo d = None \<or> ep_repo_id p = ep_repo_name p"
    and "wf_cpv (ep_cpv p)" "wf_dep d"
  shows "matches_ebuild re ux sx (restrict_of_dep d) (pkg_view dx p) \<longleftrightarrow> pkg_intersects p d"
  using assms version_intersects_sym
  by (auto simp: matches_ebuild_dep pkg_view_def Let_def pkg_intersects_def repo_version_intersects_def wf_cpv_def wf_dep_def
      split: option.splits)

lemma raw_pkg_intersects_pkg:
  assumes "rp_cpv r = ep_cpv p" "rp_repo_name r = ep_repo_name p" "raw_pkg_intersects r d"
  shows "pkg_intersects p d"
  using assms by (auto simp: raw_pkg_intersects_def pkg_intersects_def dep_slot_def dep_subslot_def)

section \<open>Downloads\<close>

text \<open>A server that has the contents \<open>c\<close> refuses, or answers with them or with the rest of them, and may
  stop on the way.\<close>

definition serves :: "string \<Rightarrow> ('u \<Rightarrow> nat option \<Rightarrow> answer) \<Rightarrow> bool" where
  "serves c srv \<longleftrightarrow> (\<forall>u rng partial body complete. srv u rng = Answer partial body complete \<longrightarrow>
     (let rest = (if partial then drop (case rng of None \<Rightarrow> 0 | Some n \<Rightarrow> n) c else c)
      in (partial \<longrightarrow> rng \<noteq> None) \<and> prefix body rest \<and> (complete \<longrightarrow> body = rest)))"

definition partial_of :: "string \<Rightarrow> string option \<Rightarrow> bool" where
  "partial_of c disk \<longleftrightarrow> (case disk of None \<Rightarrow> True | Some s \<Rightarrow> prefix s c)"

lemma request_partial:
  assumes "serves c srv" "partial_of c disk" "fetch_request (srv u (map_option length disk)) disk = (r, disk')"
  shows "partial_of c disk' \<and> (r = FetchOk \<longrightarrow> disk' = Some c)"
proof (cases "srv u (map_option length disk)")
  case Refused
  then show ?thesis using assms by (auto simp: fetch_request_def)
next
  case (Answer partial body complete)
  have rest: "partial \<Longrightarrow> disk \<noteq> None" "prefix body (if partial then drop (case map_option length disk of None \<Rightarrow> 0 | Some n \<Rightarrow> n) c else c)"
    "complete \<Longrightarrow> body = (if partial then drop (case map_option length disk of None \<Rightarrow> 0 | Some n \<Rightarrow> n) c else c)"
    using assms(1) Answer unfolding serves_def Let_def by (metis option.map_disc_iff)+
  show ?thesis
  proof (cases partial)
    case True
    then obtain s where s: "disk = Some s" using rest(1) by auto
    then have "s @ drop (length s) c = c" using assms(2) by (auto simp: partial_of_def prefix_def)
    moreover have "prefix (s @ body) (s @ drop (length s) c)" using rest(2) True s by simp
    moreover have "complete \<Longrightarrow> body = drop (length s) c" using rest(3) True s by simp
    ultimately show ?thesis using assms(3) Answer True s
      by (auto simp: fetch_request_def partial_of_def split: if_splits)
  next
    case False
    then show ?thesis using assms(3) Answer rest by (auto simp: fetch_request_def partial_of_def split: if_splits)
  qed
qed

lemma internal_partial:
  assumes "serves c srv" "partial_of c disk" "fetch_internal srv len (Some (length c)) u disk = (r, disk')"
  shows "partial_of c disk' \<and> (r = FetchOk \<longrightarrow> disk' = Some c)"
proof (cases disk)
  case None
  then show ?thesis using request_partial [OF assms(1,2), of u r disk'] assms(3) by (simp add: fetch_internal_def)
next
  case (Some s)
  have full: "length s = length c \<Longrightarrow> s = c" using assms(2) Some by (auto simp: partial_of_def prefix_def)
  then show ?thesis using request_partial [OF assms(1,2), of u r disk'] assms(2,3) Some
    by (auto simp: fetch_internal_def split: if_splits)
qed

lemma fetch_loop_partial:
  assumes "serves c srv" "partial_of c disk" "fetch_loop uo h srv len (Some (length c)) f st r0 disk = (r, disk')"
  shows "partial_of c disk' \<and> (r = FetchOk \<longrightarrow> disk' = Some c \<or> (r0 = FetchOk \<and> attempts_next uo h f st = NoAttempt \<and> disk' = disk))"
  using assms
proof (induction uo h srv len "Some (length c)" f st r0 disk rule: fetch_loop.induct)
  case (1 uo h srv len f st r0 disk)
  show ?case
  proof (cases "attempts_next uo h f st")
    case NoAttempt
    then show ?thesis using 1(3,4) by (subst (asm) fetch_loop.simps) auto
  next
    case AttemptPanics
    then show ?thesis using 1(3,4) by (subst (asm) fetch_loop.simps) auto
  next
    case Some: (Attempt a)
    obtain m g ms skip up where a: "a = ((m, g), ms, skip, up)" by (metis prod.exhaust)
    obtain r1 d1 where i: "fetch_internal srv len (Some (length c)) (fe_url g) disk = (r1, d1)" by (metis prod.exhaust)
    have p: "partial_of c d1 \<and> (r1 = FetchOk \<longrightarrow> d1 = Some c)" by (rule internal_partial [OF 1(2,3) i])
    show ?thesis
    proof (cases r1)
      case FetchFailed
      then show ?thesis using 1(1) [OF Some [unfolded a] refl refl refl refl i [unfolded FetchFailed, symmetric] refl 1(2)] 1(4) Some a i p
        by (subst (asm) fetch_loop.simps) simp
    qed (use 1(4) Some a i p in \<open>subst (asm) fetch_loop.simps, simp\<close>)+
  qed
qed

text \<open>The upstream is tried when everything before it was refused.\<close>

definition finishes :: "('u \<Rightarrow> nat option \<Rightarrow> answer) \<Rightarrow> bool" where
  "finishes srv \<longleftrightarrow> (\<forall>u rng partial body complete. srv u rng = Answer partial body complete \<longrightarrow> complete)"

lemma internal_finishes:
  assumes "serves c srv" "finishes srv" "partial_of c disk" "fetch_internal srv len (Some (length c)) u disk = (r, disk')"
  shows "r = FetchOk \<or> (r = FetchFailed \<and> disk' = disk \<and> (\<exists>rng. srv u rng = Refused))"
proof -
  have shorter: "length s \<le> length c" if "disk = Some s" for s
    using assms(3) that by (auto simp: partial_of_def dest: prefix_length_le)
  have request: ?thesis if q: "fetch_request (srv u rng) disk = (r, disk')" "rng = map_option length disk" for rng
  proof (cases "srv u rng")
    case (Answer partial body complete)
    have c: complete using assms(2) Answer unfolding finishes_def by blast
    have "partial \<longrightarrow> rng \<noteq> None" using assms(1) Answer unfolding serves_def Let_def by metis
    then have "partial \<Longrightarrow> \<exists>old. disk = Some old" using q(2) by (cases disk) auto
    then show ?thesis using q(1) Answer c by (auto simp: fetch_request_def split: if_splits option.splits)
  qed (use q(1) in \<open>auto simp: fetch_request_def\<close>)
  show ?thesis using assms(4) shorter request [of None] request [of "map_option length disk"]
    by (auto simp: fetch_internal_def Let_def split: option.splits if_splits)
qed

lemma next_mirror_upstream: "attempts_next uo h f (ms, skip, up) = Attempt ((m, g), ms', skip', up') \<Longrightarrow>
    up' = up \<and> m \<noteq> None \<or> up = Some g \<and> up' = None"
  by (auto split: option.splits attempt.splits)

lemma mirrored_named: "fetchable_filename uo f \<noteq> None \<Longrightarrow> fetchable_mirrored uo h f m \<noteq> AttemptPanics"
  by (auto simp: fetchable_mirrored_def split: option.splits sum.splits)

lemma next_mirror_named: "fetchable_filename uo f \<noteq> None \<Longrightarrow> next_mirror uo h f skip ms \<noteq> AttemptPanics"
  by (induction ms) (auto split: attempt.splits simp: mirrored_named)

lemma fetch_loop_upstream:
  assumes "serves c srv" "finishes srv" "partial_of c disk" "\<And>rng. srv (fe_url g0) rng \<noteq> Refused"
    and named: "fetchable_filename uo f \<noteq> None"
    and "fetch_loop uo h srv len (Some (length c)) f (ms, skip, Some g0) r0 disk = (r, disk')"
  shows "r = FetchOk"
  using assms(1-4,6)
proof (induction "length ms" arbitrary: ms skip r0 disk rule: less_induct)
  case less
  obtain m g ms' skip' up' where n: "attempts_next uo h f (ms, skip, Some g0) = Attempt ((m, g), ms', skip', up')"
    using next_mirror_named [OF named] by (cases "next_mirror uo h f skip ms") auto
  obtain r1 d1 where i: "fetch_internal srv len (Some (length c)) (fe_url g) disk = (r1, d1)" by (metis prod.exhaust)
  have p: "partial_of c d1" using internal_partial [OF less(2,4) i] by simp
  from internal_finishes [OF less(2,3,4) i] show ?case
  proof
    assume "r1 = FetchOk"
    then show ?thesis using less.prems(5) n i by (subst (asm) fetch_loop.simps) simp
  next
    assume f: "r1 = FetchFailed \<and> d1 = disk \<and> (\<exists>rng. srv (fe_url g) rng = Refused)"
    then have "g \<noteq> g0" using less.prems(4) by blast
    then have up: "up' = Some g0" "m \<noteq> None" using next_mirror_upstream [OF n] by auto
    then have "length ms' < length ms" using n next_mirror_shorter by (auto split: option.splits attempt.splits)
    then show ?thesis using less.hyps [OF _ less.prems(1,2) p less.prems(4)] less.prems(5) n i f up
      by (subst (asm) fetch_loop.simps) simp
  qed
qed

end
