(* ===== verification/Fetch_Props.thy ===== *)
theory Fetch_Props
  imports Ebuild_Pkg_Laws Dep_Text
begin

text \<open>
  The properties of ebuild packages and of fetching.
\<close>

section \<open>Packages\<close>

text \<open>C36: a package intersects a dependency without blocker and USE dependencies exactly when it matches the
  restriction made of the dependency, where the dependency names no repository or the repository's
  name is its id.\<close>

theorem pkg_restriction_agrees:
  assumes "wf_cpv (ep_cpv p)" "wf_dep d" "dep_blocker d = None" "dep_use_deps d = None"
    and "dep_repo d = None \<or> ep_repo_id p = ep_repo_name p"
  shows "matches_ebuild re ux sx (restrict_of_dep d) (pkg_view dx p) \<longleftrightarrow> pkg_intersects p d"
  by (rule pkg_restriction [OF assms(3,4,5,1,2)])

definition example_pkg :: "string \<Rightarrow> pkg" where
  "example_pkg rid = \<lparr>ep_cpv = parsed_cpv ''cat/pkg-1.2'', ep_repo_id = rid, ep_repo_name = ''gentoo'', ep_data = [],
     ep_meta = metadata_default\<lparr>md_slot := Slot ''0/1''\<rparr>, ep_xml = xml_metadata_default\<rparr>"

lemma example_dep:
  "wf_dep (parsed_dep ''>=cat/pkg-1:0/1::gentoo'')" "dep_blocker (parsed_dep ''>=cat/pkg-1:0/1::gentoo'') = None"
  "dep_use_deps (parsed_dep ''>=cat/pkg-1:0/1::gentoo'') = None" "dep_slot (parsed_dep ''>=cat/pkg-1:0/1::gentoo'') = Some ''0''"
  "dep_subslot (parsed_dep ''>=cat/pkg-1:0/1::gentoo'') = Some ''1''" "dep_repo (parsed_dep ''>=cat/pkg-1:0/1::gentoo'') = Some ''gentoo''"
  "wf_cpv (parsed_cpv ''cat/pkg-1.2'')" "dep_cpn (parsed_dep ''>=cat/pkg-1:0/1::gentoo'') = cpv_cpn (parsed_cpv ''cat/pkg-1.2'')"
  "repo_version_intersects ''gentoo'' (parsed_cpv ''cat/pkg-1.2'') (parsed_dep ''>=cat/pkg-1:0/1::gentoo'')"
  "slot_main (Slot ''0/1'') = ''0''" "slot_sub (Slot ''0/1'') = Some ''1''"
  by code_simp+

lemma example_intersects: "pkg_intersects (example_pkg rid) (parsed_dep ''>=cat/pkg-1:0/1::gentoo'')"
  using example_dep by (auto simp: pkg_intersects_def example_pkg_def pkg_slot_main_def pkg_slot_sub_def
      split: option.splits)

theorem pkg_restriction_agrees_witness:
  "matches_ebuild (\<lambda>_ _. False) ref_ix (ref_index_set (=)) (restrict_of_dep (parsed_dep ''>=cat/pkg-1:0/1::gentoo''))
     (pkg_view (ref_index_set (=)) (example_pkg ''gentoo''))"
  by (subst pkg_restriction_agrees) (use example_dep example_intersects in \<open>simp_all add: example_pkg_def\<close>)

text \<open>Restrictions look at the id of the repository, intersection at its name: a package of a repository that
  is configured under another id intersects a dependency that it does not match.\<close>

lemma repo_id_name_differ:
  "pkg_intersects (example_pkg ''local'') (parsed_dep ''>=cat/pkg-1:0/1::gentoo'') \<and>
   \<not> matches_ebuild re ux sx (restrict_of_dep (parsed_dep ''>=cat/pkg-1:0/1::gentoo'')) (pkg_view dx (example_pkg ''local''))"
  using example_intersects example_dep by (auto simp: matches_ebuild_dep pkg_view_def Let_def example_pkg_def)

section \<open>Downloads\<close>

text \<open>C37: a file of known size is fetched from servers that all have the same contents \<open>c\<close>, of which the disk
  may hold a part. Whatever they do, breaking off included, the disk still holds a part of \<open>c\<close> afterwards,
  and all of it after a success, unless no mirror could be used and nothing was tried, which counts as a
  success as well (\<open>fetch_nothing\<close>). Where there is an upstream that does not refuse, no download of any
  server breaks off and the name of the file is known, the attempt succeeds; a mirror that breaks off ends it.\<close>

theorem fetch_resumes:
  assumes "serves c srv" "partial_of c disk"
    and "fetch_file uo h srv len (Some (length c)) f disk = (r, disk')"
  shows "partial_of c disk' \<and>
    (r = FetchOk \<longrightarrow> disk' = Some c \<or> attempts_next uo h f (fetchable_attempts uo f) = NoAttempt) \<and>
    (uo_scheme uo (fe_url f) \<noteq> ''mirror'' \<and> fetchable_filename uo f \<noteq> None \<and> finishes srv \<and> (\<forall>rng. srv (fe_url f) rng \<noteq> Refused) \<longrightarrow> r = FetchOk)"
  using fetch_loop_partial [OF assms(1,2)] fetch_loop_upstream [OF assms(1) _ assms(2)] assms(3)
  by (fastforce simp: fetch_file_def fetchable_attempts_def simp del: attempts_next.simps)

definition example_urls :: "string url_ops" where
  "example_urls = \<lparr>uo_parse = Some, uo_scheme = (\<lambda>u. case split_once (CHR '':'') u of None \<Rightarrow> [] | Some (s, _) \<Rightarrow> s),
     uo_path = (\<lambda>u. u), uo_query = (\<lambda>_. None), uo_domain = (\<lambda>_. None), uo_str = (\<lambda>u. u), uo_join = (\<lambda>u p. Some (u @ p))\<rparr>"

definition example_fetchable :: "string fetchable" where
  "example_fetchable = \<lparr>fe_url = ''http://h/a.tar'', fe_rename = None,
     fe_mirrors = [\<lparr>mi_name = ''m'', mi_url = ''http://m/''\<rparr>], fe_default_mirror = ''gentoo''\<rparr>"

definition example_server :: "string \<Rightarrow> nat option \<Rightarrow> answer" where
  "example_server u rng = (if u = ''http://h/a.tar''
     then (case rng of None \<Rightarrow> Answer False ''data'' True | Some n \<Rightarrow> Answer True (drop n ''data'') True) else Refused)"

theorem fetch_resumes_witness:
  "snd (fetch_file example_urls (\<lambda>_ s. s) example_server (\<lambda>_. None) (Some 4) example_fetchable (Some ''da'')) = Some ''data''"
proof -
  obtain r disk' where f: "fetch_file example_urls (\<lambda>_ s. s) example_server (\<lambda>_. None) (Some (length ''data'')) example_fetchable (Some ''da'') =
      (r, disk')"
    by (metis prod.exhaust)
  have "serves ''data'' example_server" "finishes example_server" "\<forall>rng. example_server ''http://h/a.tar'' rng \<noteq> Refused"
    by (auto simp: serves_def finishes_def example_server_def split: option.splits if_splits)
  moreover have "partial_of ''data'' (Some ''da'')" by code_simp
  moreover have "attempts_next example_urls (\<lambda>_ s. s) example_fetchable (fetchable_attempts example_urls example_fetchable) \<noteq> NoAttempt"
      "fetchable_filename example_urls example_fetchable \<noteq> None" "uo_scheme example_urls (fe_url example_fetchable) \<noteq> ''mirror''" "fe_url example_fetchable = ''http://h/a.tar''"
    by code_simp+
  ultimately have "disk' = Some ''data''" using fetch_resumes [OF _ _ f] by auto
  moreover have "length ''data'' = 4" by simp
  ultimately show ?thesis using f by (simp only: snd_conv)
qed

text \<open>Where no mirror can be used nothing is tried, which counts as a success.\<close>

lemma fetch_nothing: "attempts_next uo h f (fetchable_attempts uo f) = NoAttempt \<Longrightarrow> fetch_file uo h srv len sz f disk = (FetchOk, disk)"
  unfolding fetch_file_def by (subst fetch_loop.simps) simp

end
