(* ===== verification/Restrict_Parse.thy ===== *)
theory Restrict_Parse
  imports Restrict_Laws Text_Lines
begin

text \<open>
  The grammar of globbed dependencies, \<open>restrict/parse/dep.rs\<close>: names, slots and
  repositories with \<open>*\<close>, versions, USE dependencies and blockers, all of them optional but
  the package, read as restrictions. The rules \<open>number\<close>, \<open>version\<close>,
  \<open>use_dep\<close> and what they use are written there as in \<open>dep/parse.rs\<close> and are those
  of \<open>Version_Parse\<close> and \<open>Dep_Parse\<close>.

  The regular expressions are those of the crate \<open>regex\<close>: \<open>esc\<close> is its escaping
  of meta characters, \<open>vr\<close> tells whether it accepts a pattern, and \<open>re\<close>, as in
  \<open>Restrict\<close>, matches one.
\<close>

section \<open>Globs\<close>

definition backslash :: char where
  "backslash = CHR 0x5C"

text \<open>\<open>replace("\*", ".*")\<close>, from the left.\<close>

fun unescape_stars :: "string \<Rightarrow> string" where
  "unescape_stars (c # d # s) = (if c = backslash \<and> d = CHR ''*'' then ''.*'' @ unescape_stars s
     else c # unescape_stars (d # s))"
| "unescape_stars s = s"

definition glob_regex :: "(string \<Rightarrow> string) \<Rightarrow> string \<Rightarrow> string" where
  "glob_regex esc s = ''^'' @ unescape_stars (esc s) @ ''$''"

definition glob_restrict :: "(string \<Rightarrow> string) \<Rightarrow> (string \<Rightarrow> bool) \<Rightarrow> string \<Rightarrow> str_restrict option" where
  "glob_restrict esc vr s = (if vr (glob_regex esc s) then Some (Var (StrRegex (glob_regex esc s))) else None)"

text \<open>A category or package: equality without stars, nothing when there are only stars.\<close>

definition name_restricts :: "(string \<Rightarrow> string) \<Rightarrow> (string \<Rightarrow> bool) \<Rightarrow> (str_restrict \<Rightarrow> dep_restrict) \<Rightarrow> string \<Rightarrow>
    dep_restrict list option" where
  "name_restricts esc vr f s =
    (if CHR ''*'' \<notin> set s then Some [f (Var (StrEqual s))]
     else if trim_start_char (CHR ''*'') s = [] then Some []
     else map_option (\<lambda>r. [f r]) (glob_restrict esc vr s))"

text \<open>A slot, subslot or repository, where stars alone still ask for a value.\<close>

definition value_restrict :: "(string \<Rightarrow> string) \<Rightarrow> (string \<Rightarrow> bool) \<Rightarrow> (str_restrict option \<Rightarrow> dep_restrict) \<Rightarrow> string \<Rightarrow>
    dep_restrict option" where
  "value_restrict esc vr f s =
    (if CHR ''*'' \<notin> set s then Some (f (Some (Var (StrEqual s))))
     else map_option (\<lambda>r. f (Some r)) (glob_restrict esc vr s))"

section \<open>Rules\<close>

definition glob_first :: "char \<Rightarrow> bool" where
  "glob_first c \<longleftrightarrow> word_char c \<or> c = CHR ''*''"

definition glob_char :: "char \<Rightarrow> bool" where
  "glob_char c \<longleftrightarrow> name_char c \<or> c = CHR ''*''"

definition glob_package_char :: "char \<Rightarrow> bool" where
  "glob_package_char c \<longleftrightarrow> package_char c \<or> c = CHR ''*''"

definition p_glob_category :: "string parser" where
  "p_glob_category = p_name glob_first glob_char"

definition p_glob_package_step :: "unit parser" where
  "p_glob_package_step = p_alt (p_map (\<lambda>_. ()) (p_class glob_package_char))
     (p_then (p_lit ''-'') (p_not p_version_ahead))"

definition p_glob_package :: "string parser" where
  "p_glob_package = p_slice (p_then (p_class glob_first) (p_many p_glob_package_step))"

definition p_cp_restricts :: "(string \<Rightarrow> string) \<Rightarrow> (string \<Rightarrow> bool) \<Rightarrow> dep_restrict list parser" where
  "p_cp_restricts esc vr =
     p_alt
       (p_try (p_bind p_glob_category (\<lambda>cat. p_map (\<lambda>pkg. (cat, pkg)) (p_then (p_lit ''/'') p_glob_package)))
         (\<lambda>(cat, pkg). Option.bind (name_restricts esc vr DepCategory cat) (\<lambda>cs.
            map_option (\<lambda>ps. cs @ ps) (name_restricts esc vr DepPackage pkg))))
       (p_try p_glob_package (name_restricts esc vr DepPackage))"

definition p_cp_version :: "(string \<Rightarrow> string) \<Rightarrow> (string \<Rightarrow> bool) \<Rightarrow> (dep_restrict list \<times> version) parser" where
  "p_cp_version esc vr = p_bind (p_cp_restricts esc vr) (\<lambda>r. p_then (p_lit ''-'') (p_map (\<lambda>v. (r, v)) p_version))"

text \<open>The alternatives with an operator are those of \<open>with_op\<close>, in its order.\<close>

definition cp_with_op :: "dep_restrict list \<times> version \<Rightarrow> operator \<Rightarrow> string + (dep_restrict list \<times> version option)" where
  "cp_with_op rv op = map_sum id (\<lambda>v. (fst rv, Some v)) (version_with_op (snd rv) op)"

definition p_pkg_restricts :: "(string \<Rightarrow> string) \<Rightarrow> (string \<Rightarrow> bool) \<Rightarrow> (dep_restrict list \<times> version option) parser" where
  "p_pkg_restricts esc vr =
     p_alt (p_bind (p_cp_restricts esc vr) (\<lambda>r. p_map (\<lambda>v. (r, v)) (p_opt (p_then (p_lit ''-'') p_version))))
       (p_with_op cp_with_op (p_cp_version esc vr))"

definition p_slot_glob :: "string parser" where
  "p_slot_glob = p_name glob_first glob_char"

definition p_slot_restricts :: "(string \<Rightarrow> string) \<Rightarrow> (string \<Rightarrow> bool) \<Rightarrow> dep_restrict list parser" where
  "p_slot_restricts esc vr = p_then (p_lit '':'')
     (p_bind (p_try p_slot_glob (value_restrict esc vr DepSlot)) (\<lambda>slot.
        p_map (\<lambda>subslot. case subslot of None \<Rightarrow> [slot] | Some r \<Rightarrow> [slot, r])
          (p_opt (p_try (p_then (p_lit ''/'') p_slot_glob) (value_restrict esc vr DepSubslot)))))"

definition p_use_restricts :: "use_dep index_set \<Rightarrow> dep_restrict parser" where
  "p_use_restricts ix = p_map (\<lambda>us. DepUseDeps (Some (is_collect ix us))) p_use_deps"

definition p_repo_restrict :: "(string \<Rightarrow> string) \<Rightarrow> (string \<Rightarrow> bool) \<Rightarrow> dep_restrict parser" where
  "p_repo_restrict esc vr = p_try (p_then (p_lit ''::'') (p_slice (p_plus (p_plus (p_class (\<lambda>c. \<not> is_blank c))))))
     (value_restrict esc vr DepRepo)"

text \<open>One or two exclamation marks, as many as there are; the error for any other number cannot occur.\<close>

definition p_blocker_restrict :: "dep_restrict parser" where
  "p_blocker_restrict = p_map (\<lambda>second. DepBlocker (Some (if second = None then BlockerWeak else BlockerStrong)))
     (p_then (p_lit ''!'') (p_opt (p_lit ''!'')))"

definition opt_list :: "'a option \<Rightarrow> 'a list" where
  "opt_list x = (case x of None \<Rightarrow> [] | Some y \<Rightarrow> [y])"

definition p_dep_restricts :: "use_dep index_set \<Rightarrow> (string \<Rightarrow> string) \<Rightarrow> (string \<Rightarrow> bool) \<Rightarrow>
    (dep_restrict list \<times> version option) parser" where
  "p_dep_restricts ix esc vr =
     p_bind (p_opt p_blocker_restrict) (\<lambda>blocker.
     p_bind (p_pkg_restricts esc vr) (\<lambda>(restricts, ver).
     p_bind (p_opt (p_slot_restricts esc vr)) (\<lambda>slot.
     p_bind (p_opt (p_use_restricts ix)) (\<lambda>uses.
     p_bind (p_opt (p_repo_restrict esc vr)) (\<lambda>repo.
       p_return (restricts @ opt_list blocker @ concat (opt_list slot) @ opt_list uses @ opt_list repo, ver))))))"

section \<open>Entry points\<close>

definition parse_dep_restricts :: "use_dep index_set \<Rightarrow> (string \<Rightarrow> string) \<Rightarrow> (string \<Rightarrow> bool) \<Rightarrow> string \<Rightarrow>
    error + dep_restrict list" where
  "parse_dep_restricts ix esc vr s = map_sum id (\<lambda>(restricts, ver). restricts @ opt_list (map_option (\<lambda>v. DepVersion (Some v)) ver))
     (peg_result ''invalid dep restriction'' s (p_run (p_dep_restricts ix esc vr) s))"

definition parse_dep_restrict :: "use_dep index_set \<Rightarrow> (string \<Rightarrow> string) \<Rightarrow> (string \<Rightarrow> bool) \<Rightarrow> string \<Rightarrow>
    error + base_restrict" where
  "parse_dep_restrict ix esc vr s = map_sum id (\<lambda>rs. if rs = [] then Var BTrue else of_dep_restricts rs)
     (parse_dep_restricts ix esc vr s)"

end
