(* ===== verification/Restrict_Parse_Laws.thy ===== *)
theory Restrict_Parse_Laws
  imports Restrict_Parse Dep_Text
begin

text \<open>
  Globbed dependencies are read back: the text of every value of \<open>dep_glob\<close> parses, and the
  restriction matches the dependencies that the value describes (\<open>glob_describes\<close>).
\<close>

section \<open>What globs match\<close>

fun glob_matches :: "string \<Rightarrow> string \<Rightarrow> bool" where
  "glob_matches [] t \<longleftrightarrow> t = []"
| "glob_matches (c # g) [] \<longleftrightarrow> c = CHR ''*'' \<and> glob_matches g []"
| "glob_matches (c # g) (d # t) \<longleftrightarrow> (if c = CHR ''*'' then glob_matches g (d # t) \<or> glob_matches (c # g) t
     else c = d \<and> glob_matches g t)"

lemma glob_plain: "CHR ''*'' \<notin> set g \<Longrightarrow> glob_matches g t \<longleftrightarrow> t = g"
  by (induction g t rule: glob_matches.induct) auto

lemma glob_star: "glob_matches (CHR ''*'' # g) t \<longleftrightarrow> (\<exists>n \<le> length t. glob_matches g (drop n t))"
proof (induction t)
  case (Cons d t)
  have "(\<exists>n \<le> length (d # t). glob_matches g (drop n (d # t))) \<longleftrightarrow>
      glob_matches g (d # t) \<or> (\<exists>n \<le> length t. glob_matches g (drop n t))"
    by (metis Suc_le_mono drop0 drop_Suc_Cons length_Cons le0 not0_implies_Suc)
  with Cons show ?case by simp
qed simp

lemma glob_all_stars: "g \<noteq> [] \<Longrightarrow> trim_start_char (CHR ''*'') g = [] \<Longrightarrow> glob_matches g t"
proof (induction g)
  case (Cons c g)
  then have c: "c = CHR ''*''" and g: "trim_start_char (CHR ''*'') g = []"
    by (auto simp: trim_start_char_def split: if_splits)
  show ?case
  proof (cases "g = []")
    case True
    then show ?thesis unfolding c glob_star by (intro exI [of _ "length t"]) simp
  next
    case False
    then show ?thesis using Cons.IH [OF False g] unfolding c by (cases t) simp_all
  qed
qed simp

text \<open>The regular expressions of these globs match what the globs match.\<close>

definition globs_ok :: "(string \<Rightarrow> string) \<Rightarrow> (string \<Rightarrow> bool) \<Rightarrow> (string \<Rightarrow> string \<Rightarrow> bool) \<Rightarrow> string list \<Rightarrow> bool" where
  "globs_ok esc vr re gs \<longleftrightarrow> (\<forall>g \<in> set gs. CHR ''*'' \<in> set g \<longrightarrow>
     vr (glob_regex esc g) \<and> (\<forall>s. one_line s \<longrightarrow> re (glob_regex esc g) s = glob_matches g s))"

definition value_of_glob :: "(string \<Rightarrow> string) \<Rightarrow> string \<Rightarrow> str_restrict" where
  "value_of_glob esc g = (if CHR ''*'' \<notin> set g then Var (StrEqual g) else Var (StrRegex (glob_regex esc g)))"

lemma value_matches:
  assumes "globs_ok esc vr re gs" "g \<in> set gs" "one_line s"
  shows "str_matches re (value_of_glob esc g) s \<longleftrightarrow> glob_matches g s"
  using assms by (auto simp: globs_ok_def value_of_glob_def str_matches_def glob_plain)

lemma value_restrict_ok: "globs_ok esc vr re gs \<Longrightarrow> g \<in> set gs \<Longrightarrow> value_restrict esc vr f g = Some (f (Some (value_of_glob esc g)))"
  by (auto simp: globs_ok_def value_restrict_def value_of_glob_def glob_restrict_def)

definition name_of_glob :: "(string \<Rightarrow> string) \<Rightarrow> (str_restrict \<Rightarrow> dep_restrict) \<Rightarrow> string \<Rightarrow> dep_restrict list" where
  "name_of_glob esc f g = (if trim_start_char (CHR ''*'') g = [] then [] else [f (value_of_glob esc g)])"

lemma trim_star_Nil: "trim_start_char c g = [] \<longleftrightarrow> set g \<subseteq> {c}"
  by (induction g) (auto simp: trim_start_char_def)

lemma name_restricts_ok: "globs_ok esc vr re gs \<Longrightarrow> g \<in> set gs \<Longrightarrow> g \<noteq> [] \<Longrightarrow>
    name_restricts esc vr f g = Some (name_of_glob esc f g)"
  by (cases g) (auto simp: globs_ok_def name_restricts_def name_of_glob_def value_of_glob_def glob_restrict_def trim_star_Nil)

section \<open>Names with stars\<close>

definition glob_step :: "string \<Rightarrow> char \<Rightarrow> bool" where
  "glob_step u c \<longleftrightarrow> glob_package_char c \<or> c = CHR ''-'' \<and> p_version_ahead u = None"

lemma dash_not_glob [simp]: "\<not> glob_package_char (CHR ''-'')"
  by (simp add: glob_package_char_def)

lemma stepper_glob: "stepper glob_step p_glob_package_step"
  by (auto simp: stepper_def p_glob_package_step_def glob_step_def p_alt_def p_map_def p_bind_def p_return_def
      p_then_def p_not_def p_lit_Cons p_lit_hd split: option.splits list.splits)

definition valid_glob_package :: "string \<Rightarrow> bool" where
  "valid_glob_package x \<longleftrightarrow> (case x of [] \<Rightarrow> False | c # u \<Rightarrow> glob_first c \<and> step_body glob_step [] u)"

text \<open>Names of packages are globs.\<close>

lemma valid_package_glob: "valid_package x \<Longrightarrow> valid_glob_package x"
proof -
  have "step_body glob_step r u" if "package_body r u" for r u
    using that by (induction u) (auto simp: package_step_def glob_step_def glob_package_char_def)
  then show "valid_package x \<Longrightarrow> ?thesis"
    by (auto simp: valid_package_def valid_glob_package_def glob_first_def split: list.splits)
qed

lemma glob_body_dash: "step_body glob_step r (a @ CHR ''-'' # w) \<Longrightarrow> p_version_ahead (w @ r) = None"
  by (induction a) (simp_all add: glob_step_def)

text \<open>What follows a name decides nothing about the hyphens in it.\<close>

lemma glob_ahead_restrict:
  assumes follow: "package_follow r" and none: "p_version_ahead (u @ r) = None" and body: "step_body glob_step [] u"
  shows "p_version_ahead u = None"
proof (rule ccontr)
  assume "p_version_ahead u \<noteq> None"
  then obtain v r1 w r2 where v: "p_version u = Some (v, r1)" and d: "p_dash_version r1 = Some (w, r2)"
    and e: "atom_end r2"
    by (auto simp: ahead_None split: option.splits)
  have ve: "version_end r" by (rule package_follow_version_end [OF follow])
  have vr: "p_version (u @ r) = Some (v, r1 @ r)" using inertD [OF inert_version [OF ve], of u] v by simp
  show False
  proof (cases "r1 = []")
    case True
    have "\<exists>w' t. p_dash_version r = Some (w', t) \<and> atom_end t"
      using follow unfolding package_follow_def by (auto simp: atom_end_dash p_dash_version_Cons)
    with vr True none show False by (auto simp: ahead_None)
  next
    case False
    have dr: "p_dash_version (r1 @ r) = Some (w, r2 @ r)" using p_dash_version_append [OF ve False] d by simp
    show False
    proof (cases "r2 = []")
      case True
      obtain c s where c: "r1 = c # s" using False by (cases r1) auto
      with d True obtain w' where s: "c = CHR ''-''" "p_version s = Some (w', [])"
        by (auto simp: p_dash_version_Cons split: if_splits option.splits)
      obtain a where "u = a @ r1" using version_rest [OF v] by blast
      then have "p_version_ahead s = None" using glob_body_dash [of "[]" a s] body c s(1) by simp
      then show False using ahead_full [OF s(2)] by simp
    next
      case False
      then have "atom_end (r2 @ r)" using e by (cases r2) (auto simp: atom_end_def)
      then show False using vr dr none by (simp add: ahead_None)
    qed
  qed
qed

lemma glob_context:
  assumes "package_follow r"
  shows "step_body glob_step r u = step_body glob_step [] u"
proof (induction u)
  case (Cons c u)
  have "step_body glob_step [] u \<Longrightarrow> p_version_ahead (u @ r) = None \<longleftrightarrow> p_version_ahead u = None"
    using ahead_extend [OF package_follow_version_end [OF assms]] glob_ahead_restrict [OF assms] by blast
  then have "step_body glob_step [] u \<Longrightarrow> glob_step (u @ r) c = glob_step (u @ []) c"
    by (simp add: glob_step_def)
  with Cons show ?case by auto
qed simp

definition no_star :: "string \<Rightarrow> bool" where
  "no_star t \<longleftrightarrow> t = [] \<or> hd t \<noteq> CHR ''*''"

lemma glob_follow_stop: "package_follow r \<Longrightarrow> no_star r \<Longrightarrow> step_stop glob_step r"
  using package_follow_stop [of r]
  by (auto simp: step_stop_def package_step_def glob_step_def glob_package_char_def no_star_def split: list.splits)

lemma p_glob_package_reads: "package_follow t \<Longrightarrow> no_star t \<Longrightarrow> reads p_glob_package (\<lambda>x. x) valid_glob_package t"
  unfolding p_glob_package_def
  by (rule readsI) (auto simp: stepper_name [OF stepper_glob] valid_glob_package_def glob_context glob_follow_stop split: list.splits)

section \<open>Categories and packages\<close>

lemma glob_chars [simp]:
  "\<not> glob_char (CHR ''/'')" "\<not> glob_char (CHR '':'')" "\<not> glob_char (CHR ''['')" "\<not> glob_first (CHR ''!'')"
  "\<not> glob_first (CHR ''/'')" "\<not> glob_first (CHR '':'')" "\<not> glob_first (CHR ''<'')" "\<not> glob_first (CHR ''>'')"
  "\<not> glob_first (CHR ''='')" "\<not> glob_first (CHR ''~'')" "\<not> glob_first (CHR ''-'')" "glob_char (CHR ''-'')" "glob_char (CHR ''*'')"
  by (simp_all add: glob_char_def glob_first_def name_char_def word_char_def char_classes)

definition cp_text :: "string option \<Rightarrow> string \<Rightarrow> string" where
  "cp_text cat pkg = opt_text (\<lambda>c. c @ ''/'') cat @ pkg"

text \<open>A text that a category may run into but that holds no slash.\<close>

definition slashless :: "string \<Rightarrow> bool" where
  "slashless t \<longleftrightarrow> starts_with (dropWhile glob_char t) ''/'' = False"

lemma slashless_append: "list_all glob_char u \<Longrightarrow> slashless (u @ t) = slashless t"
  by (induction u) (auto simp: slashless_def)

lemma glob_package_chars: "valid_glob_package x \<Longrightarrow> list_all glob_char x"
proof -
  have "list_all glob_char u" if "step_body glob_step r u" for r u
    using that by (induction u) (auto simp: glob_step_def glob_package_char_def glob_char_def package_char_def name_char_def)
  then show "valid_glob_package x \<Longrightarrow> ?thesis"
    by (auto simp: valid_glob_package_def glob_first_def glob_char_def name_char_def split: list.splits)
qed

lemma glob_name_bare: "valid_glob_package x \<Longrightarrow> slashless t \<Longrightarrow>
    \<exists>c r. p_glob_category (x @ t) = Some (c, r) \<and> p_lit ''/'' r = None"
  using glob_package_chars [of x] slashless_append [of x t]
  by (auto simp: p_glob_category_def p_name_eq valid_glob_package_def p_lit_def slashless_def split: list.splits)

lemma p_cp_reads:
  assumes x: "valid_glob_package pkg" "pred_option (is_name glob_first glob_char) cat"
    and t: "package_follow t" "no_star t" "cat = None \<Longrightarrow> slashless t"
    and ok: "globs_ok esc vr re (pkg # opt_list cat)"
  shows "p_cp_restricts esc vr (cp_text cat pkg @ t) =
    Some (concat (map (name_of_glob esc DepCategory) (opt_list cat)) @ name_of_glob esc DepPackage pkg, t)"
proof -
  have ne: "pkg \<noteq> []" using x by (auto simp: valid_glob_package_def)
  have pkg: "p_glob_package (pkg @ t) = Some (pkg, t)" using readsD [OF p_glob_package_reads [OF t(1,2)] x(1)] .
  show ?thesis
  proof (cases cat)
    case None
    obtain c r where "p_glob_category (pkg @ t) = Some (c, r)" "p_lit ''/'' r = None"
      using glob_name_bare [OF x(1) t(3) [OF None]] by blast
    then show ?thesis using pkg None name_restricts_ok [OF ok _ ne]
      by (simp add: p_cp_restricts_def p_alt_def p_try_def p_bind_def p_map_def p_then_def cp_text_def opt_list_def)
  next
    case (Some c)
    have c: "p_glob_category (c @ CHR ''/'' # pkg @ t) = Some (c, CHR ''/'' # pkg @ t)"
      unfolding p_glob_category_def using x Some by (intro readsD [OF p_name_reads]) simp_all
    have "c \<noteq> []" using x Some by (auto simp: is_name_def)
    with c show ?thesis using pkg Some name_restricts_ok [OF ok _ ne] name_restricts_ok [OF ok, of c]
      by (simp add: p_cp_restricts_def p_alt_def p_try_def p_bind_def p_map_def p_then_def p_return_def cp_text_def opt_list_def p_lit_Cons)
  qed
qed

section \<open>Versions\<close>

lemma name_char_lits [simp]: "name_char (CHR ''-'')" "name_char (CHR ''.'')" "name_char (CHR ''_'')" "name_char (CHR ''r'')"
  by (simp_all add: name_char_def word_char_def char_classes)

lemma name_char_digit: "is_digit c \<Longrightarrow> name_char c" "is_lower c \<Longrightarrow> name_char c"
  by (simp_all add: name_char_def word_char_def)

lemma name_chars_number: "wf_number n \<Longrightarrow> list_all name_char (number_display n)"
  by (auto simp: wf_number_def number_display_def list_all_iff name_char_digit)

lemma name_chars_suffix: "wf_suffix s \<Longrightarrow> list_all name_char (suffix_text s)"
  using name_chars_number by (cases "sfx_kind s")
    (auto simp: suffix_text_def suffix_display_def wf_suffix_def list_all_append name_char_def word_char_def char_classes split: option.splits)

lemma name_chars_revision: "wf_revision r \<Longrightarrow> list_all name_char (revision_text r)"
  using name_chars_number by (auto simp: revision_text_def revision_display_def wf_revision_def
    list_all_append revision_is_empty_def revision_default_def number_is_empty_def number_default_def)

lemma name_chars_join: "list_all name_char sep \<Longrightarrow> list_all (list_all name_char) ss \<Longrightarrow> list_all name_char (join_with sep ss)"
  by (induction ss) (auto simp: join_with_Cons list_all_append)

lemma name_chars_version:
  assumes "wf_version v"
  shows "list_all name_char (version_without_op v)"
proof -
  have "list_all name_char (letter_text (ver_letter v))"
    using assms by (auto simp: letter_text_def wf_version_def name_char_digit split: option.splits)
  moreover have "list_all (list_all name_char) (map number_display (ver_numbers v))"
      "list_all (list_all name_char) (map suffix_text (ver_suffixes v))"
    using assms by (auto simp: wf_version_def intro: list_all_map_mono name_chars_number name_chars_suffix)
  moreover have "list_all name_char (concat ss)" if "list_all (list_all name_char) ss" for ss
    using that by (induction ss) (simp_all add: list_all_append)
  ultimately show ?thesis
    using assms name_chars_revision unfolding version_without_op_text by (simp add: list_all_append wf_version_def name_chars_join)
qed

lemma slashless_version: "wf_version v \<Longrightarrow> slashless (CHR ''-'' # version_without_op v @ t) = slashless t"
  using slashless_append [of "CHR ''-'' # version_without_op v" t] name_chars_version [of v]
  by (auto simp: list_all_iff glob_char_def)

text \<open>The package and its version, with an operator around both when there is one.\<close>

definition pkg_glob_text :: "string option \<Rightarrow> string \<Rightarrow> version option \<Rightarrow> string" where
  "pkg_glob_text cat pkg ver = (case ver of None \<Rightarrow> cp_text cat pkg
     | Some v \<Rightarrow> (let s = cp_text cat pkg @ ''-'' @ version_without_op v
         in case ver_op v of None \<Rightarrow> s | Some opr \<Rightarrow> op_text opr s))"

lemma follow_version:
  assumes v: "plain_version v" and t: "atom_end t"
  shows "package_follow (CHR ''-'' # version_without_op v @ t)" "no_star (CHR ''-'' # version_without_op v @ t)"
    "p_version (version_without_op v @ t) = Some (v, t)"
proof -
  show r: "p_version (version_without_op v @ t) = Some (v, t)"
    by (rule readsD [OF version_reads [OF atom_end_version [OF t]] v])
  show "package_follow (CHR ''-'' # version_without_op v @ t)" using r t by (auto simp: package_follow_def)
qed (simp add: no_star_def)

lemma plain_without_op: "wf_version v \<Longrightarrow> plain_version (v\<lparr>ver_op := None\<rparr>)"
  by (auto simp: plain_version_def wf_version_def)

lemma p_cp_version_reads:
  assumes x: "valid_glob_package pkg" "pred_option (is_name glob_first glob_char) cat"
    and v: "plain_version v" and t: "atom_end t" "slashless t"
    and ok: "globs_ok esc vr re (pkg # opt_list cat)"
  shows "p_cp_version esc vr ((cp_text cat pkg @ ''-'' @ version_without_op v) @ t) =
    Some ((concat (map (name_of_glob esc DepCategory) (opt_list cat)) @ name_of_glob esc DepPackage pkg, v), t)"
proof -
  have "slashless (CHR ''-'' # version_without_op v @ t)"
    using v t by (simp add: slashless_version plain_version_def)
  then show ?thesis using p_cp_reads [OF x follow_version(1,2) [OF v t(1)] _ ok] follow_version(3) [OF v t(1)]
    by (simp add: p_cp_version_def p_bind_def p_then_def p_map_def p_return_def p_lit_Cons)
qed

lemma p_cp_None: "s = [] \<or> \<not> glob_first (hd s) \<Longrightarrow> p_cp_restricts esc vr s = None"
  by (cases s) (auto simp: p_cp_restricts_def p_alt_def p_try_def p_bind_def p_glob_category_def p_name_eq p_glob_package_def
    p_slice_def p_then_def)

lemma op_text_first: "\<not> glob_first (hd (op_text opr s @ t))"
  by (cases opr) (simp_all add: op_text_def)

lemma cp_text_hd:
  assumes "valid_glob_package pkg" "pred_option (is_name glob_first glob_char) cat"
  shows "cp_text cat pkg \<noteq> []" "glob_first (hd (cp_text cat pkg @ t))"
  using assms by (auto simp: cp_text_def opt_text_def valid_glob_package_def is_name_def hd_append split: option.splits list.splits)

lemma p_pkg_restricts_reads:
  assumes x: "valid_glob_package pkg" "pred_option (is_name glob_first glob_char) cat"
    and v: "pred_option wf_version ver" and t: "atom_end t" "no_star t" "slashless t"
    and ok: "globs_ok esc vr re (pkg # opt_list cat)"
  shows "p_pkg_restricts esc vr (pkg_glob_text cat pkg ver @ t) =
    Some ((concat (map (name_of_glob esc DepCategory) (opt_list cat)) @ name_of_glob esc DepPackage pkg, ver), t)"
    (is "_ = Some ((?rs, ver), t)")
proof (cases ver)
  case None
  have "p_lit ''-'' t = None" using t(1) by (cases t) (auto simp: p_lit_hd atom_end_def stop_char_def char_classes)
  moreover have "package_follow t" using t(1) by (simp add: package_follow_def)
  ultimately show ?thesis using None p_cp_reads [OF x _ t(2,3) ok]
    by (simp add: pkg_glob_text_def p_pkg_restricts_def p_alt_def p_bind_def p_map_def p_return_def p_opt_def p_then_def)
next
  case (Some w)
  define u where "u = w\<lparr>ver_op := None\<rparr>"
  define s where "s = cp_text cat pkg @ ''-'' @ version_without_op u"
  have wf: "wf_version w" using v Some by simp
  then have u: "plain_version u" "version_without_op u = version_without_op w" by (simp_all add: u_def plain_without_op)
  have wfu: "wf_version u" using u(1) by (simp add: plain_version_def)
  have rd: "p_cp_version esc vr (s @ t') = Some ((?rs, u), t')" if "atom_end t'" "slashless t'" for t'
    unfolding s_def by (rule p_cp_version_reads [OF x u(1) that ok])
  show ?thesis
  proof (cases "ver_op w")
    case None
    then have "u = w" by (simp add: u_def)
    moreover have "slashless (CHR ''-'' # version_without_op u @ t)"
      using slashless_version [OF wfu] t(3) by simp
    ultimately show ?thesis
      using None Some p_cp_reads [OF x follow_version(1,2) [OF u(1) t(1)] _ ok] follow_version(3) [OF u(1) t(1)] u(2)
      by (simp add: pkg_glob_text_def p_pkg_restricts_def p_alt_def p_bind_def p_map_def p_return_def p_opt_def p_then_def p_lit_Cons)
  next
    case (Some opr)
    have "w = u\<lparr>ver_op := Some opr\<rparr>" using Some by (cases w) (simp add: u_def)
    moreover have "version_with_op u opr = Inr (u\<lparr>ver_op := Some opr\<rparr>)"
      using wf Some by (auto simp: version_with_op_def wf_version_def u_def)
    ultimately have f: "cp_with_op (?rs, u) opr = Inr (?rs, Some w)" by (simp add: cp_with_op_def)
    have ne: "s \<noteq> []" "hd s \<noteq> CHR ''=''"
      using cp_text_hd(1) [OF x] cp_text_hd(2) [OF x, of "''-'' @ version_without_op u"] by (auto simp: s_def)
    have star: "atom_end (CHR ''*'' # t)" "slashless (CHR ''*'' # t)"
      using t(3) by (simp_all add: atom_end_def stop_char_def slashless_def)
    have "p_with_op cp_with_op (p_cp_version esc vr) (op_text opr s @ t) = Some ((?rs, Some w), t)"
      by (rule p_with_op_reads [where d = "\<lambda>_. s" and x = "(?rs, u)" and op = opr and f = cp_with_op,
            OF rd [OF t(1,3)] rd [OF star] _ ne f]) (use t(2) in \<open>simp add: no_star_def\<close>)
    moreover have "p_cp_restricts esc vr (op_text opr s @ t) = None"
      using op_text_first by (intro p_cp_None) simp
    ultimately show ?thesis using Some \<open>ver = Some w\<close> u(2)
      by (simp add: pkg_glob_text_def s_def p_pkg_restricts_def p_alt_def p_bind_def)
  qed
qed

section \<open>The other parts\<close>

definition slot_glob_text :: "string \<times> string option \<Rightarrow> string" where
  "slot_glob_text x = '':'' @ fst x @ opt_text (\<lambda>s. ''/'' @ s) (snd x)"

definition slot_of_glob :: "(string \<Rightarrow> string) \<Rightarrow> string \<times> string option \<Rightarrow> dep_restrict list" where
  "slot_of_glob esc x = DepSlot (Some (value_of_glob esc (fst x))) #
     map (\<lambda>s. DepSubslot (Some (value_of_glob esc s))) (opt_list (snd x))"

definition slot_globs :: "string \<times> string option \<Rightarrow> string list" where
  "slot_globs x = fst x # opt_list (snd x)"

definition glob_end :: "string \<Rightarrow> bool" where
  "glob_end t \<longleftrightarrow> t = [] \<or> \<not> glob_char (hd t) \<and> hd t \<noteq> CHR ''/''"

lemma p_slot_glob_reads: "t = [] \<or> \<not> glob_char (hd t) \<Longrightarrow> reads p_slot_glob (\<lambda>s. s) (is_name glob_first glob_char) t"
  unfolding p_slot_glob_def by (rule p_name_reads)

lemma p_slot_restricts_reads:
  assumes x: "list_all (is_name glob_first glob_char) (slot_globs x)" and t: "glob_end t"
    and ok: "globs_ok esc vr re (slot_globs x)"
  shows "p_slot_restricts esc vr (slot_glob_text x @ t) = Some (slot_of_glob esc x, t)"
proof -
  obtain s ss where xs: "x = (s, ss)" by (cases x)
  show ?thesis
  proof (cases ss)
    case None
    have "p_slot_glob (s @ t) = Some (s, t)"
      using readsD [OF p_slot_glob_reads] t x xs by (auto simp: glob_end_def slot_globs_def)
    moreover have "p_lit ''/'' t = None" using t by (auto simp: glob_end_def p_lit_hd)
    ultimately show ?thesis using xs None value_restrict_ok [OF ok]
      by (simp add: p_slot_restricts_def p_then_def p_bind_def p_try_def p_map_def p_return_def p_opt_def p_lit_Cons
          slot_glob_text_def slot_of_glob_def slot_globs_def opt_list_def)
  next
    case (Some w)
    have "p_slot_glob (s @ CHR ''/'' # w @ t) = Some (s, CHR ''/'' # w @ t)"
      using readsD [OF p_slot_glob_reads, of "CHR ''/'' # w @ t" s] x xs by (simp add: slot_globs_def)
    moreover have "p_slot_glob (w @ t) = Some (w, t)"
      using readsD [OF p_slot_glob_reads] t x xs Some by (auto simp: glob_end_def slot_globs_def opt_list_def)
    ultimately show ?thesis using xs Some value_restrict_ok [OF ok]
      by (simp add: p_slot_restricts_def p_then_def p_bind_def p_try_def p_map_def p_return_def p_opt_def p_lit_Cons
          slot_glob_text_def slot_of_glob_def slot_globs_def opt_list_def)
  qed
qed

lemma p_use_restricts_reads:
  assumes "us \<noteq> []" "list_all valid_use_dep us"
  shows "p_use_restricts ix (uses_text us @ t) = Some (DepUseDeps (Some (is_collect ix us)), t)"
  using p_use_deps_reads [OF assms, of t] by (simp add: p_use_restricts_def p_map_def p_bind_def p_return_def)

definition valid_glob_repo :: "string \<Rightarrow> bool" where
  "valid_glob_repo s \<longleftrightarrow> s \<noteq> [] \<and> list_all (\<lambda>c. \<not> is_blank c) s"

lemma p_nonblanks_all:
  assumes "valid_glob_repo s"
  shows "p_slice (p_plus (p_plus (p_class (\<lambda>c. \<not> is_blank c)))) s = Some (s, [])"
proof -
  have "p_plus (p_class (\<lambda>c. \<not> is_blank c)) s = Some (s, [])"
    using assms by (cases s) (simp_all add: valid_glob_repo_def p_plus_def p_bind_def p_many_def p_return_def p_star_class
        list_all_iff takeWhile_eq_all_conv dropWhile_eq_Nil_conv)
  moreover have "p_star (p_plus (p_class (\<lambda>c. \<not> is_blank c))) [] = ([], [])"
    by (rule p_star_stop) (simp add: p_plus_def p_bind_def)
  ultimately show ?thesis by (simp add: p_slice_def p_plus_def [of "p_plus _"] p_bind_def p_many_def p_return_def)
qed

lemma p_repo_restrict_reads:
  assumes "valid_glob_repo s" "globs_ok esc vr re [s]"
  shows "p_repo_restrict esc vr (repo_text s) = Some (DepRepo (Some (value_of_glob esc s)), [])"
  using p_nonblanks_all [OF assms(1)] value_restrict_ok [OF assms(2)]
  by (simp add: p_repo_restrict_def p_try_def p_then_def p_bind_def p_lit_def starts_with_def)

lemma p_blocker_restrict_reads:
  "t = [] \<or> hd t \<noteq> CHR ''!'' \<Longrightarrow> p_blocker_restrict (blocker_display b @ t) = Some (DepBlocker (Some b), t)"
  by (cases b) (auto simp: p_blocker_restrict_def p_map_def p_then_def p_bind_def p_opt_def p_return_def p_lit_Cons p_lit_hd)

section \<open>Whole texts\<close>

record dep_glob =
  dg_blocker :: "blocker option"
  dg_category :: "string option"
  dg_package :: string
  dg_version :: "version option"
  dg_slot :: "(string \<times> string option) option"
  dg_use_deps :: "use_dep list option"
  dg_repo :: "string option"

definition dep_glob_text :: "dep_glob \<Rightarrow> string" where
  "dep_glob_text g = opt_text blocker_display (dg_blocker g) @
     pkg_glob_text (dg_category g) (dg_package g) (dg_version g) @ opt_text slot_glob_text (dg_slot g) @
     opt_text uses_text (dg_use_deps g) @ opt_text repo_text (dg_repo g)"

definition dep_globs :: "dep_glob \<Rightarrow> string list" where
  "dep_globs g = dg_package g # opt_list (dg_category g) @ concat (map slot_globs (opt_list (dg_slot g))) @ opt_list (dg_repo g)"

definition valid_dep_glob :: "dep_glob \<Rightarrow> bool" where
  "valid_dep_glob g \<longleftrightarrow> valid_glob_package (dg_package g) \<and> pred_option (is_name glob_first glob_char) (dg_category g) \<and>
     pred_option wf_version (dg_version g) \<and> pred_option (\<lambda>x. list_all (is_name glob_first glob_char) (slot_globs x)) (dg_slot g) \<and>
     pred_option (\<lambda>us. us \<noteq> [] \<and> list_all valid_use_dep us) (dg_use_deps g) \<and> pred_option valid_glob_repo (dg_repo g)"

definition restricts_of_glob :: "use_dep index_set \<Rightarrow> (string \<Rightarrow> string) \<Rightarrow> dep_glob \<Rightarrow> dep_restrict list" where
  "restricts_of_glob ix esc g =
     concat (map (name_of_glob esc DepCategory) (opt_list (dg_category g))) @ name_of_glob esc DepPackage (dg_package g) @
     map (\<lambda>b. DepBlocker (Some b)) (opt_list (dg_blocker g)) @ concat (map (slot_of_glob esc) (opt_list (dg_slot g))) @
     map (\<lambda>us. DepUseDeps (Some (is_collect ix us))) (opt_list (dg_use_deps g)) @
     map (\<lambda>s. DepRepo (Some (value_of_glob esc s))) (opt_list (dg_repo g)) @
     map (\<lambda>v. DepVersion (Some v)) (opt_list (dg_version g))"

lemma globs_ok_mono: "globs_ok esc vr re gs \<Longrightarrow> set hs \<subseteq> set gs \<Longrightarrow> globs_ok esc vr re hs"
  by (auto simp: globs_ok_def)

lemma opt_list_map: "opt_list (map_option f x) = map f (opt_list x)"
  by (cases x) (simp_all add: opt_list_def)

text \<open>An optional part, whose rule gives a value made of it.\<close>

lemma p_opt_made:
  "(\<And>a. x = Some a \<Longrightarrow> p (d a @ t) = Some (f a, t)) \<Longrightarrow> (x = None \<Longrightarrow> p t = None) \<Longrightarrow>
    p_opt p (opt_text d x @ t) = Some (map_option f x, t)"
  by (cases x) (auto simp: p_opt_def)

lemma pkg_glob_text_hd:
  assumes "valid_glob_package pkg" "pred_option (is_name glob_first glob_char) cat"
  shows "pkg_glob_text cat pkg ver @ t \<noteq> []" "hd (pkg_glob_text cat pkg ver @ t) \<noteq> CHR ''!''"
  using cp_text_hd(1) [OF assms] cp_text_hd(2) [OF assms, of "[]"]
  by (auto simp: pkg_glob_text_def op_text_def Let_def hd_append split: option.splits operator.splits)

lemma parse_glob_text:
  assumes g: "valid_dep_glob g" and ok: "globs_ok esc vr re (dep_globs g)"
  shows "parse_dep_restricts ix esc vr (dep_glob_text g) = Inr (restricts_of_glob ix esc g)"
proof -
  let ?r = "opt_text repo_text (dg_repo g)"
  let ?u = "opt_text uses_text (dg_use_deps g) @ ?r"
  let ?s = "opt_text slot_glob_text (dg_slot g) @ ?u"
  let ?p = "pkg_glob_text (dg_category g) (dg_package g) (dg_version g) @ ?s"
  have ok': "globs_ok esc vr re (dg_package g # opt_list (dg_category g))"
      "\<And>x. dg_slot g = Some x \<Longrightarrow> globs_ok esc vr re (slot_globs x)" "\<And>x. dg_repo g = Some x \<Longrightarrow> globs_ok esc vr re [x]"
    using ok by (auto intro: globs_ok_mono simp: dep_globs_def opt_list_def)
  have vg: "valid_glob_package (dg_package g)" "pred_option (is_name glob_first glob_char) (dg_category g)" "pred_option wf_version (dg_version g)"
    using g by (simp_all add: valid_dep_glob_def)
  have ends: "glob_end ?u" "atom_end ?s" "no_star ?s" "slashless ?s"
    by (cases "dg_slot g"; cases "dg_use_deps g"; cases "dg_repo g";
        simp add: glob_end_def atom_end_def stop_char_def no_star_def slashless_def starts_with_def slot_glob_text_def)+
  have rp: "p_opt (p_repo_restrict esc vr) ?r = Some (map_option (\<lambda>s. DepRepo (Some (value_of_glob esc s))) (dg_repo g), [])"
    using g p_repo_restrict_reads [OF _ ok'(3)]
    by (cases "dg_repo g") (simp_all add: p_opt_def valid_dep_glob_def p_repo_restrict_def p_try_def p_then_def p_bind_def p_lit_hd)
  have us: "p_opt (p_use_restricts ix) ?u = Some (map_option (\<lambda>us. DepUseDeps (Some (is_collect ix us))) (dg_use_deps g), ?r)"
  proof (rule p_opt_made)
    fix us assume "dg_use_deps g = Some us"
    then show "p_use_restricts ix (uses_text us @ ?r) = Some (DepUseDeps (Some (is_collect ix us)), ?r)"
      using g by (intro p_use_restricts_reads) (simp_all add: valid_dep_glob_def)
  qed (cases "dg_repo g"; simp add: p_use_restricts_def p_use_deps_def p_map_def p_then_def p_bind_def p_lit_hd)
  have sl: "p_opt (p_slot_restricts esc vr) ?s = Some (map_option (slot_of_glob esc) (dg_slot g), ?u)"
  proof (rule p_opt_made)
    fix x assume "dg_slot g = Some x"
    then show "p_slot_restricts esc vr (slot_glob_text x @ ?u) = Some (slot_of_glob esc x, ?u)"
      using g ends ok' by (intro p_slot_restricts_reads) (simp_all add: valid_dep_glob_def)
  qed (cases "dg_use_deps g"; cases "dg_repo g";
      simp add: p_slot_restricts_def p_slot_glob_def p_then_def p_bind_def p_lit_hd p_lit_Cons p_try_def p_name_eq)
  have bl: "p_opt p_blocker_restrict (opt_text blocker_display (dg_blocker g) @ ?p) = Some (map_option (\<lambda>b. DepBlocker (Some b)) (dg_blocker g), ?p)"
  proof (rule p_opt_made)
    show "p_blocker_restrict ?p = None"
      using pkg_glob_text_hd [OF vg(1,2)] by (simp add: p_blocker_restrict_def p_map_def p_then_def p_bind_def p_lit_hd)
  qed (use pkg_glob_text_hd [OF vg(1,2)] in \<open>simp add: p_blocker_restrict_reads\<close>)
  note pk = p_pkg_restricts_reads [OF vg ends(2,3,4) ok'(1)]
  have "p_dep_restricts ix esc vr (dep_glob_text g) = Some ((concat (map (name_of_glob esc DepCategory) (opt_list (dg_category g))) @
      name_of_glob esc DepPackage (dg_package g) @ map (\<lambda>b. DepBlocker (Some b)) (opt_list (dg_blocker g)) @
      concat (map (slot_of_glob esc) (opt_list (dg_slot g))) @ map (\<lambda>us. DepUseDeps (Some (is_collect ix us))) (opt_list (dg_use_deps g)) @
      map (\<lambda>s. DepRepo (Some (value_of_glob esc s))) (opt_list (dg_repo g)), dg_version g), [])"
    using bl pk sl us rp by (simp add: p_dep_restricts_def p_bind_def p_return_def dep_glob_text_def opt_list_map)
  then show ?thesis by (simp add: parse_dep_restricts_def restricts_of_glob_def p_run_def opt_list_map peg_result_def)
qed

section \<open>What the restrictions match\<close>

definition glob_describes :: "dep_glob \<Rightarrow> dep \<Rightarrow> bool" where
  "glob_describes g d \<longleftrightarrow>
     pred_option (\<lambda>c. glob_matches c (cpn_category (dep_cpn d))) (dg_category g) \<and>
     glob_matches (dg_package g) (cpn_package (dep_cpn d)) \<and>
     (dg_blocker g = None \<or> dep_blocker d = dg_blocker g) \<and>
     pred_option (\<lambda>(s, sub). provides glob_matches (Some s) (dep_slot d) \<and>
        pred_option (\<lambda>s. provides glob_matches (Some s) (dep_subslot d)) sub) (dg_slot g) \<and>
     provides (\<lambda>us vs. set us \<subseteq> set vs) (dg_use_deps g) (dep_use_deps d) \<and>
     provides glob_matches (dg_repo g) (dep_repo d) \<and>
     provides version_intersects (dg_version g) (dep_version d)"

definition one_line_parts :: "dep \<Rightarrow> bool" where
  "one_line_parts d \<longleftrightarrow> one_line (cpn_category (dep_cpn d)) \<and> one_line (cpn_package (dep_cpn d)) \<and>
     pred_option one_line (dep_slot d) \<and> pred_option one_line (dep_subslot d) \<and> pred_option one_line (dep_repo d)"

lemma one_line_slot_parts: "valid_slot s \<Longrightarrow> one_line (slot_main s) \<and> pred_option one_line (slot_sub s)"
  using one_line_slot [of s]
  by (auto simp: slot_main_def slot_sub_def list_all_append dest!: split_once_Some split: option.splits)

lemma valid_one_line:
  assumes "valid_dep e d"
  shows "one_line_parts d"
proof -
  have "one_line (cpn_category (dep_cpn d))" "one_line (cpn_package (dep_cpn d))"
    using assms one_line_cpn [of "dep_cpn d"] by (simp_all add: valid_dep_def valid_pkg_def cpn_display_def list_all_append)
  moreover have "pred_option one_line (dep_slot d) \<and> pred_option one_line (dep_subslot d)"
  proof (cases "dep_slot_dep d")
    case (Some s)
    then have "valid_slot_dep s" using assms by (simp add: valid_dep_def)
    then have "slot_dep_slot s = Some t \<Longrightarrow> valid_slot t" for t by (cases s) simp_all
    then show ?thesis using Some one_line_slot_parts by (cases "slot_dep_slot s") (simp_all add: dep_slot_def dep_subslot_def)
  qed (simp add: dep_slot_def dep_subslot_def)
  moreover have "pred_option one_line (dep_repo d)"
    using assms one_line_repo by (cases "dep_repo d") (simp_all add: valid_dep_def)
  ultimately show ?thesis by (simp add: one_line_parts_def)
qed

lemma glob_value_both:
  assumes "globs_ok esc vr re gs" "g \<in> set gs" "pred_option one_line y"
  shows "both_match (str_matches re) (Some (value_of_glob esc g)) y \<longleftrightarrow> provides glob_matches (Some g) y"
  using assms value_matches [OF assms(1,2)] by (cases y) (simp_all add: both_match_def provides_def)

lemma name_of_glob_matches:
  assumes "globs_ok esc vr re gs" "g \<in> set gs" "g \<noteq> []" "one_line s" "\<And>r. m (f r) = str_matches re r s"
  shows "list_all m (name_of_glob esc f g) \<longleftrightarrow> glob_matches g s"
  using value_matches [OF assms(1,2,4)] glob_all_stars [OF assms(3)] by (simp add: name_of_glob_def assms(5))

lemma glob_restricts_match:
  assumes ix: "index_set (=) ix" and g: "valid_dep_glob g" and ok: "globs_ok esc vr re (dep_globs g)" and d: "one_line_parts d"
  shows "list_all (dep_restrict_matches_dep re ix d) (restricts_of_glob ix esc g) \<longleftrightarrow> glob_describes g d"
proof -
  let ?m = "dep_restrict_matches_dep re ix d"
  have mem: "dg_package g \<in> set (dep_globs g)" "\<And>c. dg_category g = Some c \<Longrightarrow> c \<in> set (dep_globs g)"
      "\<And>s w. dg_slot g = Some (s, w) \<Longrightarrow> s \<in> set (dep_globs g)" "\<And>s w. dg_slot g = Some (s, Some w) \<Longrightarrow> w \<in> set (dep_globs g)"
      "\<And>s. dg_repo g = Some s \<Longrightarrow> s \<in> set (dep_globs g)"
    by (auto simp: dep_globs_def opt_list_def slot_globs_def)
  have ne: "dg_package g \<noteq> []" "\<And>c. dg_category g = Some c \<Longrightarrow> c \<noteq> []"
    using g by (auto simp: valid_dep_glob_def valid_glob_package_def is_name_def)
  have lines: "one_line (cpn_category (dep_cpn d))" "one_line (cpn_package (dep_cpn d))"
      "pred_option one_line (dep_slot d)" "pred_option one_line (dep_subslot d)" "pred_option one_line (dep_repo d)"
    using d by (simp_all add: one_line_parts_def)
  have cat: "list_all ?m (concat (map (name_of_glob esc DepCategory) (opt_list (dg_category g)))) \<longleftrightarrow>
      pred_option (\<lambda>c. glob_matches c (cpn_category (dep_cpn d))) (dg_category g)"
    using name_of_glob_matches [OF ok mem(2) ne(2) lines(1), of _ ?m DepCategory] by (cases "dg_category g") (simp_all add: opt_list_def)
  have pkg: "list_all ?m (name_of_glob esc DepPackage (dg_package g)) \<longleftrightarrow> glob_matches (dg_package g) (cpn_package (dep_cpn d))"
    by (rule name_of_glob_matches [OF ok mem(1) ne(1) lines(2)]) simp
  have blocker: "both_match (=) b c \<longleftrightarrow> c = b" for b c :: "blocker option"
    by (auto simp: both_match_def split: option.splits)
  have slot: "list_all ?m (concat (map (slot_of_glob esc) (opt_list (dg_slot g)))) \<longleftrightarrow>
      pred_option (\<lambda>(s, sub). provides glob_matches (Some s) (dep_slot d) \<and>
        pred_option (\<lambda>s. provides glob_matches (Some s) (dep_subslot d)) sub) (dg_slot g)"
  proof (cases "dg_slot g")
    case (Some x)
    obtain s w where x: "x = (s, w)" by (cases x)
    show ?thesis
      using glob_value_both [OF ok mem(3) lines(3)] glob_value_both [OF ok mem(4) lines(4)] Some x
      by (cases w) (simp_all add: slot_of_glob_def opt_list_def)
  qed (simp add: opt_list_def)
  have uses: "list_all ?m (map (\<lambda>us. DepUseDeps (Some (is_collect ix us))) (opt_list (dg_use_deps g))) \<longleftrightarrow>
      provides (\<lambda>us vs. set us \<subseteq> set vs) (dg_use_deps g) (dep_use_deps d)"
    by (cases "dg_use_deps g"; cases "dep_use_deps d")
      (simp_all add: opt_list_def both_match_def provides_def is_subset_iff [OF ix] index_set.collect [OF ix])
  have repo: "list_all ?m (map (\<lambda>s. DepRepo (Some (value_of_glob esc s))) (opt_list (dg_repo g))) \<longleftrightarrow>
      provides glob_matches (dg_repo g) (dep_repo d)"
    using glob_value_both [OF ok mem(5) lines(5)] by (cases "dg_repo g") (simp_all add: opt_list_def provides_def)
  have ver: "list_all ?m (map (\<lambda>v. DepVersion (Some v)) (opt_list (dg_version g))) \<longleftrightarrow>
      provides version_intersects (dg_version g) (dep_version d)"
    by (cases "dg_version g") (simp_all add: opt_list_def provides_def both_match_Some split: option.splits)
  have bl: "list_all ?m (map (\<lambda>b. DepBlocker (Some b)) (opt_list (dg_blocker g))) \<longleftrightarrow> dg_blocker g = None \<or> dep_blocker d = dg_blocker g"
    by (cases "dg_blocker g") (simp_all add: opt_list_def blocker)
  show ?thesis
    unfolding restricts_of_glob_def list_all_append cat pkg bl slot uses repo ver glob_describes_def by blast
qed

lemma parse_glob_matches:
  assumes "index_set (=) ix" "valid_dep_glob g" "globs_ok esc vr re (dep_globs g)"
  shows "\<exists>r. parse_dep_restrict ix esc vr (dep_glob_text g) = Inr r \<and>
    (\<forall>d. one_line_parts d \<longrightarrow> matches_dep re ux r d = list_all (dep_restrict_matches_dep re ux d) (restricts_of_glob ix esc g))"
  using parse_glob_text [OF assms(2,3), of ix]
  by (simp add: parse_dep_restrict_def matches_dep_def list.pred_map comp_def)

end
