(* ===== verification/Regex_Glob.thy ===== *)
theory Regex_Glob
  imports Restrict_Parse_Laws
begin

text \<open>
  What the documentation of the crate \<open>regex\<close> says of the patterns that \<open>str_to_regex_restrict\<close> of
  \<open>restrict/parse/dep.rs\<close> makes of globs: sequences of literal characters, \<open>.*\<close> and the anchors. With
  that, a string matches the pattern of a glob exactly when it matches the glob.
\<close>

section \<open>Documented behaviour\<close>

datatype rx_item = RxStart | RxEnd | RxAny | RxLit char

text \<open>The characters that \<open>regex::escape\<close> puts a backslash before.\<close>

definition rx_meta :: "char \<Rightarrow> bool" where
  "rx_meta c \<longleftrightarrow> c \<in> set (backslash # ''.+*?()|[]{}^$#&-~'')"

definition rx_escape :: "char \<Rightarrow> string" where
  "rx_escape c = (if rx_meta c then [backslash, c] else [c])"

fun rx_text :: "rx_item \<Rightarrow> string" where
  "rx_text RxStart = ''^''"
| "rx_text RxEnd = ''$''"
| "rx_text RxAny = ''.*''"
| "rx_text (RxLit c) = rx_escape c"

definition rx_pattern :: "rx_item list \<Rightarrow> string" where
  "rx_pattern ps = concat (map rx_text ps)"

text \<open>A match from a position on, which is the start of the text or not: a dot matches any character but a
  newline, \<open>^\<close> and \<open>$\<close> match at the start and at the end of the text.\<close>

function rx_here :: "bool \<Rightarrow> rx_item list \<Rightarrow> string \<Rightarrow> bool" where
  "rx_here start [] s = True"
| "rx_here start (RxStart # ps) s = (start \<and> rx_here start ps s)"
| "rx_here start (RxEnd # ps) s = (s = [] \<and> rx_here start ps s)"
| "rx_here start (RxLit c # ps) [] = False"
| "rx_here start (RxLit c # ps) (d # s) = (c = d \<and> rx_here False ps s)"
| "rx_here start (RxAny # ps) [] = rx_here start ps []"
| "rx_here start (RxAny # ps) (d # s) = (rx_here start ps (d # s) \<or> d \<noteq> CHR 0x0A \<and> rx_here False (RxAny # ps) s)"
  by pat_completeness auto
termination
  by (relation "measure (\<lambda>(start, ps, s). length ps + length s)") auto

text \<open>\<open>is_match\<close> looks for a match at every position.\<close>

fun rx_search :: "bool \<Rightarrow> rx_item list \<Rightarrow> string \<Rightarrow> bool" where
  "rx_search start ps [] = rx_here start ps []"
| "rx_search start ps (d # s) = (rx_here start ps (d # s) \<or> rx_search False ps s)"

text \<open>\<open>esc\<close> is \<open>regex::escape\<close>, \<open>vr\<close> tells whether \<open>Regex::new\<close> accepts a pattern, which it does not where the
  compiled pattern is too large, and \<open>re\<close> is \<open>is_match\<close>.\<close>

definition documented_regex :: "(string \<Rightarrow> string) \<Rightarrow> (string \<Rightarrow> bool) \<Rightarrow> (string \<Rightarrow> string \<Rightarrow> bool) \<Rightarrow> bool" where
  "documented_regex esc vr re \<longleftrightarrow> (\<forall>s. esc s = concat (map rx_escape s)) \<and>
     (\<forall>ps s. vr (rx_pattern ps) \<longrightarrow> re (rx_pattern ps) s = rx_search True ps s)"

section \<open>The patterns of globs\<close>

definition glob_item :: "char \<Rightarrow> rx_item" where
  "glob_item c = (if c = CHR ''*'' then RxAny else RxLit c)"

definition starless :: "string \<Rightarrow> bool" where
  "starless u \<longleftrightarrow> u = [] \<or> hd u \<noteq> CHR ''*''"

lemma meta_star [simp]: "rx_meta (CHR ''*'')" "rx_meta backslash"
  by (simp_all add: rx_meta_def)

lemma backslash_star [simp]: "backslash \<noteq> CHR ''*''" "CHR ''*'' \<noteq> backslash"
  by (simp_all add: backslash_def)

lemma unescape_Cons: "c \<noteq> backslash \<or> starless u \<Longrightarrow> unescape_stars (c # u) = c # unescape_stars u"
  by (cases u) (auto simp: starless_def)

lemma unescape_escape: "starless u \<Longrightarrow> unescape_stars (rx_escape c @ u) = rx_text (glob_item c) @ unescape_stars u"
  by (cases "c = CHR ''*''"; cases "c = backslash")
    (auto simp: rx_escape_def glob_item_def unescape_Cons starless_def)

lemma starless_escapes: "starless (concat (map rx_escape g))"
  by (cases g) (auto simp: starless_def rx_escape_def rx_meta_def)

lemma unescape_glob: "unescape_stars (concat (map rx_escape g)) = rx_pattern (map glob_item g)"
  by (induction g) (simp_all add: rx_pattern_def unescape_escape starless_escapes)

lemma here_glob: "one_line s \<Longrightarrow> rx_here start (map glob_item g @ [RxEnd]) s = glob_matches g s"
proof (induction g s arbitrary: start rule: glob_matches.induct)
  case (3 c g d t)
  then show ?case by (auto simp: glob_item_def line_char_def)
qed (auto simp: glob_item_def)

lemma search_start: "rx_search False (RxStart # ps) s = False"
  by (induction s) simp_all

lemma search_anchored: "rx_search True (RxStart # ps) s = rx_here True ps s"
  by (cases s) (simp_all add: search_start)

lemma globs_documented:
  assumes "documented_regex esc vr re" "\<forall>x \<in> set gs. vr (glob_regex esc x)"
  shows "globs_ok esc vr re gs"
  unfolding globs_ok_def
proof (intro ballI impI conjI allI)
  fix x s assume x: "x \<in> set gs" and s: "one_line s"
  have p: "glob_regex esc x = rx_pattern (RxStart # map glob_item x @ [RxEnd])"
    using assms(1) unescape_glob [of x] by (simp add: documented_regex_def glob_regex_def rx_pattern_def)
  moreover have "vr (glob_regex esc x)" using assms(2) x by blast
  ultimately have "re (glob_regex esc x) s = rx_search True (RxStart # map glob_item x @ [RxEnd]) s"
    using assms(1) by (simp add: documented_regex_def)
  then show "re (glob_regex esc x) s = glob_matches x s" by (simp add: search_anchored here_glob [OF s])
qed (use assms(2) in blast)

section \<open>A matcher with that behaviour\<close>

text \<open>The items of a pattern, read from its text.\<close>

fun rx_read :: "string \<Rightarrow> rx_item list" where
  "rx_read [] = []"
| "rx_read (c # s) =
    (if c = CHR ''^'' then RxStart # rx_read s
     else if c = CHR ''$'' then RxEnd # rx_read s
     else if c = CHR ''.'' then RxAny # rx_read (tl s)
     else if c = backslash then (case s of [] \<Rightarrow> [] | d # t \<Rightarrow> RxLit d # rx_read t)
     else RxLit c # rx_read s)"

lemma rx_read_item: "rx_read (rx_text i @ s) = i # rx_read s"
proof (cases i)
  case (RxLit c)
  then show ?thesis by (auto simp: rx_escape_def rx_meta_def backslash_def)
qed (simp_all add: backslash_def)

lemma rx_read_pattern: "rx_read (rx_pattern ps) = ps"
  by (induction ps) (simp_all add: rx_pattern_def rx_read_item)

lemma documented_reader: "documented_regex (\<lambda>s. concat (map rx_escape s)) (\<lambda>_. True) (\<lambda>p. rx_search True (rx_read p))"
  by (simp add: documented_regex_def rx_read_pattern)

end
