(* ===== verification/Restrict_Query.thy ===== *)
theory Restrict_Query
  imports Restrict_Parse
begin

text \<open>
  The grammar of package queries, \<open>restrict/parse/pkg.rs\<close>: comparisons of the attributes of a
  package with strings, sets and numbers, restrictions on its dependencies and maintainers, and
  expressions over them with negation, conjunction, exclusive disjunction and disjunction. A rule
  whose action panics ends the parse, which parsers cannot express: rules here return an
  \<open>outcome\<close>, and every \<open>panic!\<close> of the source is a value of an action.
\<close>

section \<open>Rules that may panic\<close>

datatype 'a outcome = Parsed 'a string | NoMatch | Panicked

type_synonym 'a rule = "string \<Rightarrow> 'a outcome"

definition r_of :: "'a parser \<Rightarrow> 'a rule" where
  "r_of p s = (case p s of None \<Rightarrow> NoMatch | Some (x, r) \<Rightarrow> Parsed x r)"

definition r_alt :: "'a rule \<Rightarrow> 'a rule \<Rightarrow> 'a rule" where
  "r_alt p q s = (case p s of NoMatch \<Rightarrow> q s | res \<Rightarrow> res)"

definition r_bind :: "'a rule \<Rightarrow> ('a \<Rightarrow> 'b rule) \<Rightarrow> 'b rule" where
  "r_bind p f s = (case p s of NoMatch \<Rightarrow> NoMatch | Panicked \<Rightarrow> Panicked | Parsed x r \<Rightarrow> f x r)"

definition r_map :: "('a \<Rightarrow> 'b) \<Rightarrow> 'a rule \<Rightarrow> 'b rule" where
  "r_map f p = r_bind p (\<lambda>x. Parsed (f x))"

text \<open>What an action ends with: a value, an error, after which the next alternative is tried, or a panic.\<close>

datatype 'a action = Accept 'a | Refuse | Panic

primrec act_bind :: "'a action \<Rightarrow> ('a \<Rightarrow> 'b action) \<Rightarrow> 'b action" where
  "act_bind (Accept x) f = f x"
| "act_bind Refuse f = Refuse"
| "act_bind Panic f = Panic"

definition act_map :: "('a \<Rightarrow> 'b) \<Rightarrow> 'a action \<Rightarrow> 'b action" where
  "act_map f a = act_bind a (\<lambda>x. Accept (f x))"

primrec act_all :: "'a action list \<Rightarrow> 'a list action" where
  "act_all [] = Accept []"
| "act_all (a # as) = act_bind a (\<lambda>x. act_map ((#) x) (act_all as))"

definition accept_or_refuse :: "'a option \<Rightarrow> 'a action" where
  "accept_or_refuse x = (case x of None \<Rightarrow> Refuse | Some y \<Rightarrow> Accept y)"

text \<open>A \<open>match\<close> of a string against literals, whose last arm is \<open>panic!\<close>.\<close>

definition match_str :: "(string \<times> 'a) list \<Rightarrow> string \<Rightarrow> 'a action" where
  "match_str arms s = (case map_of arms s of None \<Rightarrow> Panic | Some x \<Rightarrow> Accept x)"

fun r_return :: "'a action \<Rightarrow> 'a rule" where
  "r_return (Accept x) s = Parsed x s"
| "r_return Refuse s = NoMatch"
| "r_return Panic s = Panicked"

definition r_act :: "'a parser \<Rightarrow> ('a \<Rightarrow> 'b action) \<Rightarrow> 'b rule" where
  "r_act p f = r_bind (r_of p) (\<lambda>x. r_return (f x))"

text \<open>\<open>e*\<close> and \<open>e ++ sep\<close>. As for parsers, an iteration that takes nothing would not end, and stops here.\<close>

function r_star :: "'a rule \<Rightarrow> string \<Rightarrow> 'a list outcome" where
  "r_star p s = (case p s of NoMatch \<Rightarrow> Parsed [] s | Panicked \<Rightarrow> Panicked
     | Parsed x r \<Rightarrow> if length r < length s then (case r_star p r of NoMatch \<Rightarrow> NoMatch | Panicked \<Rightarrow> Panicked | Parsed xs t \<Rightarrow> Parsed (x # xs) t)
       else Parsed [] s)"
  by pat_completeness auto
termination
  by (relation "measure (\<lambda>(p, s). length s)") auto

declare r_star.simps [simp del]

definition r_sep1 :: "'a rule \<Rightarrow> 'b parser \<Rightarrow> 'a list rule" where
  "r_sep1 p sep = r_bind p (\<lambda>x. r_map ((#) x) (r_star (r_bind (r_of sep) (\<lambda>_. p))))"

section \<open>Lexical rules\<close>

definition p_ws :: "unit parser" where
  "p_ws = p_map (\<lambda>_. ()) (p_many p_blanks)"

text \<open>The slice of a choice of literals.\<close>

fun p_words :: "string list \<Rightarrow> string parser" where
  "p_words [] = p_fail"
| "p_words (w # ws) = p_alt (p_lit w) (p_words ws)"

definition p_quoted_by :: "char \<Rightarrow> string parser" where
  "p_quoted_by q = p_then (p_lit [q]) (p_before (p_plus (p_class (\<lambda>c. c \<noteq> q))) (p_lit [q]))"

definition p_quoted_string :: "string parser" where
  "p_quoted_string = p_alt (p_quoted_by (CHR 0x22)) (p_quoted_by (CHR 0x27))"

definition p_string_ops :: "string parser" where
  "p_string_ops = p_then p_ws (p_before (p_words [''=='', ''>='', ''!='', ''=~'', ''!~'']) p_ws)"

definition p_set_ops :: "string parser" where
  "p_set_ops = p_then p_ws (p_before (p_alt (p_slice (p_then (p_class (\<lambda>c. c = CHR ''<'' \<or> c = CHR ''>'')) (p_opt (p_lit ''=''))))
     (p_words [''=='', ''%''])) p_ws)"

definition p_quoted_string_set :: "string list parser" where
  "p_quoted_string_set = p_then p_ws (p_then (p_lit ''{'')
     (p_before (p_before (p_sep0 p_quoted_string (p_then p_ws (p_then (p_lit '','') p_ws))) (p_lit ''}'')) p_ws))"

definition number_cmps :: "string \<Rightarrow> ordering list action" where
  "number_cmps = match_str [(''<'', [Less]), (''<='', [Less, Equal]), (''=='', [Equal]), (''!='', [Less, Greater]),
     (''>='', [Greater, Equal]), (''>'', [Greater])]"

definition p_number_op :: "string parser" where
  "p_number_op = p_then p_ws (p_before
     (p_alt (p_slice (p_then (p_class (\<lambda>c. c = CHR ''<'' \<or> c = CHR ''>'')) (p_opt (p_lit ''=''))))
            (p_slice (p_then (p_class (\<lambda>c. c = CHR ''!'' \<or> c = CHR ''='')) (p_lit ''='')))) p_ws)"

definition r_number_ops :: "ordering list rule" where
  "r_number_ops = r_act p_number_op number_cmps"

definition p_is_op :: "unit parser" where
  "p_is_op = p_then p_blanks (p_then (p_lit ''is'') (p_map (\<lambda>_. ()) p_blanks))"

definition p_none :: "string parser" where
  "p_none = p_words [''None'', ''none'']"

text \<open>A list of at least two pairs of an operator and an attribute.\<close>

definition p_op_attrs :: "string parser \<Rightarrow> (char \<times> string) list parser" where
  "p_op_attrs attr = p_try (p_sep1 (p_bind (p_class (\<lambda>c. c = CHR ''&'' \<or> c = CHR ''|'')) (\<lambda>opr. p_map (\<lambda>a. (opr, a)) attr)) (p_lit []))
     (\<lambda>vals. if 2 \<le> length vals then Some vals else None)"

definition r_parens :: "'a rule \<Rightarrow> 'a rule" where
  "r_parens p = r_bind (r_of (p_then p_ws (p_then (p_lit ''('') p_ws))) (\<lambda>_.
     r_bind p (\<lambda>x. r_bind (r_of (p_then p_ws (p_then (p_lit '')'') p_ws))) (\<lambda>_. Parsed x)))"

section \<open>Restrictions of values\<close>

definition query_str_restrict :: "(string \<Rightarrow> bool) \<Rightarrow> string \<Rightarrow> string \<Rightarrow> str_restrict action" where
  "query_str_restrict vr opr s = act_bind (match_str
     [(''=='', Accept (Var (StrEqual s))),
      (''>='', Accept (Var (StrSubstr s))),
      (''!='', Accept (RNot (Var (StrEqual s)))),
      (''=~'', if vr s then Accept (Var (StrRegex s)) else Refuse),
      (''!~'', if vr s then Accept (RNot (Var (StrRegex s))) else Refuse)] opr) (\<lambda>r. r)"

definition orderedset_restrict :: "string index_set \<Rightarrow> string \<Rightarrow> string list \<Rightarrow> string_set_restrict action" where
  "orderedset_restrict sx opr vals = act_map (\<lambda>func. func (is_collect sx vals)) (match_str
     [(''<'', SetProperSubset), (''<='', SetSubset), (''=='', SetEqual), (''>='', SetSuperset), (''>'', SetProperSuperset),
      (''%'', SetDisjoint)] opr)"

abbreviation of_ebuild :: "ebuild_restrict \<Rightarrow> base_restrict" where
  "of_ebuild r \<equiv> Var (BPkg (PkgEbuild r))"

abbreviation of_ebuilds :: "ebuild_restrict list \<Rightarrow> base_restrict" where
  "of_ebuilds rs \<equiv> restrict_and (map of_ebuild rs)"

text \<open>\<open>missing_restrict\<close>, which has no case for \<open>upstream\<close>.\<close>

definition missing_table :: "(string \<times> ebuild_restrict) list" where
  "missing_table = [(''subslot'', EbuildRawSubslot None), (''dependencies'', EbuildDependencies None), (''depend'', EbuildDepend None),
     (''bdepend'', EbuildBdepend None), (''idepend'', EbuildIdepend None), (''pdepend'', EbuildPdepend None),
     (''rdepend'', EbuildRdepend None), (''license'', EbuildLicense None), (''properties'', EbuildProperties None),
     (''required_use'', EbuildRequiredUse None), (''restrict'', EbuildRestrict None), (''src_uri'', EbuildSrcUri None),
     (''homepage'', EbuildHomepage None), (''iuse'', EbuildIuse None), (''inherit'', EbuildInherit None),
     (''inherited'', EbuildInherited None), (''keywords'', EbuildKeywords None), (''long_description'', EbuildLongDescription None),
     (''maintainers'', EbuildMaintainers None)]"

definition missing_restrict :: "string \<Rightarrow> ebuild_restrict action" where
  "missing_restrict = match_str missing_table"

definition depset_of_attr :: "string \<Rightarrow> dep_restrict depset_restrict \<Rightarrow> ebuild_restrict action" where
  "depset_of_attr attr r = match_str
     [(''dependencies'', EbuildDependencies (Some r)), (''depend'', EbuildDepend (Some r)), (''bdepend'', EbuildBdepend (Some r)),
      (''idepend'', EbuildIdepend (Some r)), (''pdepend'', EbuildPdepend (Some r)), (''rdepend'', EbuildRdepend (Some r))] attr"

definition depset_dep_any :: "string \<Rightarrow> dep_restrict \<Rightarrow> ebuild_restrict action" where
  "depset_dep_any attr r = depset_of_attr attr (DepsetAny r)"

definition depset_dep_contains :: "string \<Rightarrow> str_restrict \<Rightarrow> ebuild_restrict action" where
  "depset_dep_contains attr r = depset_of_attr attr (DepsetContains r)"

definition depset_str_restrict :: "string \<Rightarrow> string \<Rightarrow> str_restrict \<Rightarrow> ebuild_restrict action" where
  "depset_str_restrict kind attr r = act_bind (match_str [(''any'', DepsetAny), (''contains'', DepsetContains)] kind)
     (\<lambda>func. match_str [(''license'', EbuildLicense (Some (func r))), (''properties'', EbuildProperties (Some (func r))),
        (''required_use'', EbuildRequiredUse (Some (func r))), (''restrict'', EbuildRestrict (Some (func r)))] attr)"

text \<open>What pairs of an operator and an attribute give, by operator.\<close>

primrec op_split :: "(string \<Rightarrow> 'a list action) \<Rightarrow> (char \<times> string) list \<Rightarrow> ('a list \<times> 'a list) action" where
  "op_split f [] = Accept ([], [])"
| "op_split f (v # vals) = act_bind (f (snd v)) (\<lambda>xs. act_bind (op_split f vals) (\<lambda>(ands, ors).
     if fst v = CHR ''&'' then Accept (xs @ ands, ors) else if fst v = CHR ''|'' then Accept (ands, xs @ ors) else Panic))"

text \<open>The conjunction and the disjunction of what a list of pairs gives, each left out when it is empty. The slice patterns of
  the source cover every case before its last arm.\<close>

definition op_restricts :: "ebuild_restrict list \<Rightarrow> ebuild_restrict list \<Rightarrow> base_restrict" where
  "op_restricts ands ors = (if ors = [] then of_ebuilds ands
     else if ands = [] then restrict_or (map of_ebuild ors)
     else restrict_and [of_ebuilds ands, restrict_or (map of_ebuild ors)])"

section \<open>Attributes\<close>

definition p_optional_attr :: "string parser" where
  "p_optional_attr = p_words [''subslot'', ''dependencies'', ''depend'', ''bdepend'', ''idepend'', ''pdepend'', ''rdepend'',
     ''license'', ''properties'', ''required_use'', ''restrict'', ''src_uri'', ''homepage'', ''iuse'', ''inherited'', ''inherit'',
     ''keywords'', ''long_description'', ''maintainers'', ''upstream'']"

definition r_attr_optional :: "base_restrict rule" where
  "r_attr_optional = r_alt
     (r_act (p_before p_optional_attr (p_then p_is_op p_none)) (\<lambda>attr. act_map of_ebuild (missing_restrict attr)))
     (r_act (p_before (p_op_attrs p_optional_attr) (p_then p_is_op p_none)) (\<lambda>vals.
        act_map (\<lambda>(ands, ors). op_restricts ands ors) (op_split (\<lambda>attr. act_map (\<lambda>r. [r]) (missing_restrict attr)) vals)))"

text \<open>The rules that compare an attribute with a string.\<close>

definition p_compare :: "string list \<Rightarrow> (string \<times> string \<times> string) parser" where
  "p_compare attrs = p_bind (p_words attrs) (\<lambda>attr. p_bind p_string_ops (\<lambda>opr. p_map (\<lambda>s. (attr, opr, s)) p_quoted_string))"

definition r_compare :: "(string \<Rightarrow> bool) \<Rightarrow> string list \<Rightarrow> (str_restrict \<Rightarrow> (string \<times> 'a) list) \<Rightarrow> 'a rule" where
  "r_compare vr attrs arms = r_act (p_compare attrs) (\<lambda>(attr, opr, s).
     act_bind (query_str_restrict vr opr s) (\<lambda>r. match_str (arms r) attr))"

definition r_dep_str_restrict :: "(string \<Rightarrow> bool) \<Rightarrow> base_restrict rule" where
  "r_dep_str_restrict vr = r_compare vr [''category'', ''package'']
     (\<lambda>r. [(''category'', Var (BDep (DepCategory r))), (''package'', Var (BDep (DepPackage r)))])"

definition r_pkg_restrict :: "(string \<Rightarrow> bool) \<Rightarrow> base_restrict rule" where
  "r_pkg_restrict vr = r_compare vr [''eapi'', ''repo'']
     (\<lambda>r. [(''eapi'', Var (BPkg (PkgEapi (EapiId r)))), (''repo'', Var (BPkg (PkgRepo r)))])"

definition r_attr_str_restrict :: "(string \<Rightarrow> bool) \<Rightarrow> base_restrict rule" where
  "r_attr_str_restrict vr = r_compare vr [''ebuild'', ''description'', ''slot'', ''subslot'', ''long_description'']
     (\<lambda>r. [(''ebuild'', of_ebuild (EbuildData r)), (''description'', of_ebuild (EbuildDescription r)),
        (''slot'', of_ebuild (EbuildSlot r)), (''subslot'', of_ebuild (EbuildSubslot r)),
        (''long_description'', of_ebuild (EbuildLongDescription (Some r)))])"

definition p_depset_dep_attr :: "string parser" where
  "p_depset_dep_attr = p_words [''dependencies'', ''depend'', ''bdepend'', ''idepend'', ''pdepend'', ''rdepend'']"

definition p_any_string :: "string parser" where
  "p_any_string = p_then p_blanks (p_then (p_lit ''any'') (p_then p_blanks p_quoted_string))"

definition p_contains_string :: "string parser \<Rightarrow> (string \<times> string \<times> string) parser" where
  "p_contains_string kinds = p_then p_blanks (p_bind kinds (\<lambda>kind.
     p_then p_blanks (p_bind p_string_ops (\<lambda>opr. p_map (\<lambda>s. (kind, opr, s)) p_quoted_string))))"

definition r_attr_depset_dep_restrict :: "(string \<Rightarrow> error + dep_restrict list) \<Rightarrow> (string \<Rightarrow> bool) \<Rightarrow> base_restrict rule" where
  "r_attr_depset_dep_restrict dep vr =
     r_alt
       (r_act (p_bind p_depset_dep_attr (\<lambda>attr. p_map (\<lambda>s. (attr, s)) p_any_string))
         (\<lambda>(attr, s). act_bind (accept_or_refuse (ok_result (dep s))) (\<lambda>rs. act_map of_ebuilds (act_all (map (depset_dep_any attr) rs)))))
    (r_alt
       (r_act (p_bind p_depset_dep_attr (\<lambda>attr. p_map (\<lambda>v. (attr, v)) (p_contains_string (p_lit ''contains''))))
         (\<lambda>(attr, kind, opr, s). act_bind (query_str_restrict vr opr s) (\<lambda>r. act_map of_ebuild (depset_dep_contains attr r))))
       (r_act (p_bind (p_op_attrs p_depset_dep_attr) (\<lambda>vals. p_map (\<lambda>s. (vals, s)) p_any_string))
         (\<lambda>(vals, s). act_bind (accept_or_refuse (ok_result (dep s))) (\<lambda>rs.
            act_map (\<lambda>(ands, ors). op_restricts ands ors) (op_split (\<lambda>attr. act_all (map (depset_dep_any attr) rs)) vals)))))"

definition r_attr_depset_str_restrict :: "(string \<Rightarrow> bool) \<Rightarrow> base_restrict rule" where
  "r_attr_depset_str_restrict vr =
     r_act (p_bind (p_words [''license'', ''properties'', ''required_use'', ''restrict'']) (\<lambda>attr.
       p_map (\<lambda>v. (attr, v)) (p_contains_string (p_words [''any'', ''contains'']))))
     (\<lambda>(attr, kind, opr, s). act_bind (query_str_restrict vr opr s) (\<lambda>r. act_map of_ebuild (depset_str_restrict kind attr r)))"

definition r_attr_orderedset_str :: "string index_set \<Rightarrow> base_restrict rule" where
  "r_attr_orderedset_str sx =
     r_act (p_bind (p_words [''homepage'', ''iuse'', ''inherited'', ''inherit'', ''keywords'']) (\<lambda>attr.
       p_bind p_set_ops (\<lambda>opr. p_map (\<lambda>vals. (attr, opr, vals)) p_quoted_string_set)))
     (\<lambda>(attr, opr, vals). act_bind (match_str [(''homepage'', EbuildHomepage), (''iuse'', EbuildIuse), (''inherit'', EbuildInherit),
          (''inherited'', EbuildInherited), (''keywords'', EbuildKeywords)] attr)
        (\<lambda>func. act_map (\<lambda>r. of_ebuild (func (Some r))) (orderedset_restrict sx opr vals)))"

section \<open>Maintainers\<close>

type_synonym maintainer_restrict = "maintainer_variant restrict"

definition r_count :: "'r ordered_restrict rule" where
  "r_count = r_bind r_number_ops (\<lambda>cmps. r_act (p_plus (p_class is_digit)) (\<lambda>s.
     if digits_value s < 2 ^ 64 then Accept (OrdCount cmps (nat (digits_value s))) else Refuse))"

definition r_ordered_ops :: "'r rule \<Rightarrow> 'r ordered_restrict rule" where
  "r_ordered_ops exprs = r_bind (r_of (p_then p_blanks (p_before (p_words [''any'', ''all'', ''first'', ''last'']) p_blanks)))
     (\<lambda>opr. r_bind exprs (\<lambda>r. r_return (match_str
        [(''any'', OrdAny r), (''all'', OrdAll r), (''first'', OrdFirst r), (''last'', OrdLast r)] opr)))"

definition r_maintainer_attr_optional :: "maintainer_restrict rule" where
  "r_maintainer_attr_optional = r_act (p_before (p_words [''name'', ''description'']) (p_then p_is_op p_none))
     (match_str [(''name'', Var (MaintName None)), (''description'', Var (MaintDescription None))])"

definition r_maintainer_restrict :: "(string \<Rightarrow> bool) \<Rightarrow> maintainer_restrict rule" where
  "r_maintainer_restrict vr = r_compare vr [''email'', ''name'', ''description'', ''type'', ''proxied'']
     (\<lambda>r. [(''email'', Var (MaintEmail r)), (''name'', Var (MaintName (Some r))), (''description'', Var (MaintDescription (Some r))),
        (''type'', Var (MaintType r)), (''proxied'', Var (MaintProxied r))])"

definition r_maintainer_and :: "(string \<Rightarrow> bool) \<Rightarrow> maintainer_restrict rule" where
  "r_maintainer_and vr = r_map restrict_and (r_sep1 (r_alt r_maintainer_attr_optional (r_maintainer_restrict vr))
     (p_then p_ws (p_then (p_lit ''&&'') p_ws)))"

definition r_maintainer_exprs :: "(string \<Rightarrow> bool) \<Rightarrow> maintainer_restrict rule" where
  "r_maintainer_exprs vr = r_alt r_maintainer_attr_optional (r_alt (r_maintainer_restrict vr) (r_parens (r_maintainer_and vr)))"

definition r_maintainers :: "(string \<Rightarrow> bool) \<Rightarrow> base_restrict rule" where
  "r_maintainers vr = r_bind (r_of (p_lit ''maintainers'')) (\<lambda>_. r_map (\<lambda>r. of_ebuild (EbuildMaintainers (Some r)))
     (r_alt (r_ordered_ops (r_maintainer_exprs vr)) r_count))"

section \<open>Expressions\<close>

definition r_expression :: "(string \<Rightarrow> error + dep_restrict list) \<Rightarrow> string index_set \<Rightarrow> (string \<Rightarrow> bool) \<Rightarrow> base_restrict rule" where
  "r_expression dep sx vr =
     r_alt r_attr_optional
    (r_alt (r_dep_str_restrict vr)
    (r_alt (r_attr_str_restrict vr)
    (r_alt (r_attr_depset_dep_restrict dep vr)
    (r_alt (r_attr_depset_str_restrict vr)
    (r_alt (r_attr_orderedset_str sx)
    (r_alt (r_maintainers vr) (r_pkg_restrict vr)))))))"

text \<open>The infix operators of a level, loosest first, with what they make of their operands. Operands to the
  right are of the next level.\<close>

definition infix_ops :: "(string \<times> (base_restrict \<Rightarrow> base_restrict \<Rightarrow> base_restrict)) list" where
  "infix_ops = [(''||'', \<lambda>x y. restrict_or [x, y]), (''^^'', \<lambda>x y. restrict_xor [x, y]), (''&&'', \<lambda>x y. restrict_and [x, y])]"

definition p_infix :: "string \<Rightarrow> unit parser" where
  "p_infix w = p_then p_ws (p_then (p_lit w) p_ws)"

text \<open>\<open>precedence!\<close>: an operand is a negation, of the level of negation, an expression in parentheses, or a
  comparison; after it come the operators of the level asked for and of tighter ones, as long as one with
  its right operand matches. \<open>q\<close> reads an expression of a level.\<close>

definition r_operand :: "base_restrict rule \<Rightarrow> (nat \<Rightarrow> base_restrict rule) \<Rightarrow> base_restrict rule" where
  "r_operand e q =
     r_alt (r_bind (r_of (p_lit ''!'')) (\<lambda>_. r_bind (q 3) (\<lambda>x. Parsed (RNot x))))
    (r_alt (r_parens (q 0)) e)"

definition r_operator :: "(nat \<Rightarrow> base_restrict rule) \<Rightarrow> nat \<Rightarrow> base_restrict \<Rightarrow> nat \<Rightarrow> base_restrict rule" where
  "r_operator q k x i s = (if k \<le> i then
     r_bind (r_of (p_infix (fst (infix_ops ! i)))) (\<lambda>_. r_bind (q (Suc i)) (\<lambda>y. Parsed (snd (infix_ops ! i) x y))) s
     else NoMatch)"

primrec r_operators :: "(nat \<Rightarrow> base_restrict rule) \<Rightarrow> nat \<Rightarrow> nat \<Rightarrow> base_restrict \<Rightarrow> base_restrict rule" where
  "r_operators q 0 k x s = NoMatch"
| "r_operators q (Suc n) k x s =
    (case r_alt (r_operator q k x 0) (r_alt (r_operator q k x 1) (r_operator q k x 2)) s of
       NoMatch \<Rightarrow> Parsed x s
     | Panicked \<Rightarrow> Panicked
     | Parsed y r \<Rightarrow> r_operators q n k y r)"

text \<open>The first number bounds the recursion: an operator and a parenthesis take a character.\<close>

primrec r_query :: "base_restrict rule \<Rightarrow> nat \<Rightarrow> nat \<Rightarrow> base_restrict rule" where
  "r_query e 0 k s = NoMatch"
| "r_query e (Suc n) k s = r_bind (r_operand e (r_query e n)) (\<lambda>x r. r_operators (r_query e n) (Suc (length r)) k x r) s"

section \<open>Entry point\<close>

text \<open>\<open>None\<close> stands for a panic. The bound on the recursion is never met (\<open>Restrict_Query_Laws\<close>).\<close>

definition query_fuel :: "string \<Rightarrow> nat" where
  "query_fuel s = Suc (length s)"

definition parse_pkg_query :: "(string \<Rightarrow> error + dep_restrict list) \<Rightarrow> string index_set \<Rightarrow> (string \<Rightarrow> bool) \<Rightarrow> string \<Rightarrow>
    (error + base_restrict) option" where
  "parse_pkg_query dep sx vr s = (case r_query (r_expression dep sx vr) (query_fuel s) 0 s of
     Panicked \<Rightarrow> None
   | NoMatch \<Rightarrow> Some (peg_result ''invalid package query'' s None)
   | Parsed x r \<Rightarrow> Some (peg_result ''invalid package query'' s (if r = [] then Some x else None)))"

end
