(* ===== verification/Restrict_Query_Laws.thy ===== *)
theory Restrict_Query_Laws
  imports Restrict_Query Dep_Round
begin

text \<open>
  Package queries: the bound on the recursion is never met; where a panic comes from; and the text of
  an expression, with parentheses where its precedence asks for them, is read as that expression.
\<close>

section \<open>Rules leave what they do not take\<close>

definition shrinks :: "'a rule \<Rightarrow> bool" where
  "shrinks p \<longleftrightarrow> (\<forall>s x r. p s = Parsed x r \<longrightarrow> suffix r s)"

lemma shrinksD: "shrinks p \<Longrightarrow> p s = Parsed x r \<Longrightarrow> suffix r s"
  by (auto simp: shrinks_def)

lemma shrinks_of: "suffix_rest p \<Longrightarrow> shrinks (r_of p)"
  by (auto simp: shrinks_def r_of_def suffix_rest_def split: option.splits)

lemma shrinks_alt: "shrinks p \<Longrightarrow> shrinks q \<Longrightarrow> shrinks (r_alt p q)"
  by (auto simp: shrinks_def r_alt_def split: outcome.splits)

lemma shrinks_bind: "shrinks p \<Longrightarrow> (\<And>x. shrinks (f x)) \<Longrightarrow> shrinks (r_bind p f)"
  by (fastforce simp: shrinks_def r_bind_def split: outcome.splits dest: suffix_order.trans)

lemma shrinks_Parsed: "shrinks (Parsed x)"
  by (simp add: shrinks_def)

lemma shrinks_map: "shrinks p \<Longrightarrow> shrinks (r_map f p)"
  unfolding r_map_def by (intro shrinks_bind shrinks_Parsed)

lemma shrinks_return: "shrinks (r_return a)"
  by (cases a) (simp_all add: shrinks_def)

lemma shrinks_act: "suffix_rest p \<Longrightarrow> shrinks (r_act p f)"
  unfolding r_act_def by (intro shrinks_bind shrinks_of shrinks_return)

lemma star_suffix: "shrinks p \<Longrightarrow> r_star p s = Parsed xs r \<Longrightarrow> suffix r s"
proof (induction p s arbitrary: xs r rule: r_star.induct)
  case (1 p s)
  show ?case
  proof (cases "p s")
    case (Parsed x t)
    show ?thesis
    proof (cases "length t < length s")
      case True
      then obtain ys where "r_star p t = Parsed ys r"
        using "1.prems"(2) Parsed by (auto simp: r_star.simps [of p s] split: outcome.splits)
      then have "suffix r t" using "1.IH" [OF Parsed True "1.prems"(1)] by simp
      with shrinksD [OF "1.prems"(1) Parsed] show ?thesis by auto
    qed (use "1.prems"(2) Parsed in \<open>simp add: r_star.simps [of p s]\<close>)
  qed (use "1.prems"(2) in \<open>simp_all add: r_star.simps [of p s]\<close>)
qed

lemma shrinks_star: "shrinks p \<Longrightarrow> shrinks (r_star p)"
  using star_suffix [of p] by (simp add: shrinks_def [of "r_star p"])

lemma shrinks_sep1: "shrinks p \<Longrightarrow> suffix_rest q \<Longrightarrow> shrinks (r_sep1 p q)"
  unfolding r_sep1_def by (intro shrinks_bind shrinks_map shrinks_star shrinks_of)

lemmas shrinks_intros = shrinks_of shrinks_act shrinks_alt shrinks_bind shrinks_Parsed shrinks_map shrinks_return shrinks_sep1

text \<open>The rules for what is left, without those for progress.\<close>

lemma rest_classes: "suffix_rest (p_class C)" "suffix_rest (p_plus (p_class C))"
  by (rule progress_suffix_rest [OF rest_class], rule progress_suffix_rest [OF progress_plus [OF rest_class]])

lemma rest_blanks: "suffix_rest p_blanks"
  unfolding p_blanks_def by (rule rest_classes)

lemma rest_ws: "suffix_rest p_ws"
  unfolding p_ws_def by (intro rest_map rest_many rest_blanks)

lemma rest_words: "suffix_rest (p_words ws)"
  by (induction ws) (simp_all add: rest_alt rest_lit progress_suffix_rest [OF rest_fail])

lemmas lexical_rest = rest_return rest_bind rest_map rest_then rest_before rest_alt rest_opt rest_try rest_slice rest_many rest_lit
  rest_classes rest_blanks rest_ws rest_words

lemma rest_is_none: "suffix_rest (p_then p_is_op p_none)"
  unfolding p_is_op_def p_none_def by (intro lexical_rest)

lemma progress_quoted: "progress p_quoted_string"
  unfolding p_quoted_string_def p_quoted_by_def
  by (intro progress_alt progress_then1 progress_lit lexical_rest) simp_all

lemma rest_quoted: "suffix_rest p_quoted_string"
  by (rule progress_suffix_rest [OF progress_quoted])

lemma progress_words: "[] \<notin> set ws \<Longrightarrow> progress (p_words ws)"
  by (induction ws) (auto simp: progress_alt progress_lit rest_fail)

lemma rest_string_ops: "suffix_rest p_string_ops"
  unfolding p_string_ops_def by (intro lexical_rest)

lemma rest_compare: "suffix_rest (p_compare attrs)"
  unfolding p_compare_def by (intro lexical_rest rest_string_ops rest_quoted)

lemma shrinks_compare: "shrinks (r_compare vr attrs arms)"
  unfolding r_compare_def by (intro shrinks_act rest_compare)

lemma rest_op_attrs: "suffix_rest attr \<Longrightarrow> suffix_rest (p_op_attrs attr)"
  unfolding p_op_attrs_def
  by (intro rest_try progress_suffix_rest [OF progress_sep1] progress_bind1 rest_class lexical_rest)

lemma rest_any_string: "suffix_rest p_any_string"
  unfolding p_any_string_def by (intro lexical_rest rest_quoted)

lemma rest_contains_string: "suffix_rest kinds \<Longrightarrow> suffix_rest (p_contains_string kinds)"
  unfolding p_contains_string_def by (intro lexical_rest rest_string_ops rest_quoted)

lemma shrinks_parens: "shrinks p \<Longrightarrow> shrinks (r_parens p)"
  unfolding r_parens_def by (intro shrinks_intros lexical_rest)

lemma shrinks_maintainers: "shrinks (r_maintainers vr)"
  unfolding r_maintainers_def r_ordered_ops_def r_count_def r_number_ops_def p_number_op_def r_maintainer_exprs_def r_maintainer_and_def
    r_maintainer_attr_optional_def r_maintainer_restrict_def
  by (intro shrinks_intros shrinks_parens shrinks_compare lexical_rest rest_is_none)

lemma shrinks_orderedset: "shrinks (r_attr_orderedset_str sx)"
  unfolding r_attr_orderedset_str_def p_set_ops_def p_quoted_string_set_def
  by (intro shrinks_act lexical_rest rest_sep0 progress_quoted)

lemma shrinks_attr_optional: "shrinks r_attr_optional"
  unfolding r_attr_optional_def p_optional_attr_def
  by (intro shrinks_alt shrinks_act rest_before rest_is_none rest_op_attrs rest_words)

lemma shrinks_expression: "shrinks (r_expression dep sx vr)"
  unfolding r_expression_def r_dep_str_restrict_def r_attr_str_restrict_def r_attr_depset_dep_restrict_def
    r_attr_depset_str_restrict_def r_pkg_restrict_def p_depset_dep_attr_def
  by (intro shrinks_alt shrinks_act shrinks_attr_optional shrinks_compare lexical_rest rest_contains_string
      rest_any_string rest_op_attrs shrinks_maintainers shrinks_orderedset)

section \<open>The bound is never met\<close>

lemma progress_shorter: "progress p \<Longrightarrow> p s = Some (x, r) \<Longrightarrow> length r < length s"
  by (drule (1) progressD) (rule suffix_length_less)

lemma rest_infix: "suffix_rest (p_infix w)"
  unfolding p_infix_def by (intro lexical_rest)

lemma progress_infix: "w \<noteq> [] \<Longrightarrow> progress (p_infix w)"
  unfolding p_infix_def by (intro progress_then2 progress_then1 progress_lit lexical_rest)

lemma shrinks_operand: "shrinks e \<Longrightarrow> (\<And>k. shrinks (q k)) \<Longrightarrow> shrinks (r_operand e q)"
  unfolding r_operand_def by (intro shrinks_intros shrinks_parens lexical_rest) auto

lemma operator_Parsed: "r_operator q k x i s = Parsed y r \<Longrightarrow> k \<le> i \<and> (\<exists>z. r_bind (r_of (p_infix (fst (infix_ops ! i)))) (\<lambda>_. q (Suc i)) s = Parsed z r)"
  by (auto simp: r_operator_def r_bind_def split: outcome.splits if_splits)

lemma infix_ne: "i \<le> 2 \<Longrightarrow> fst (infix_ops ! i) \<noteq> []"
  by (auto simp: infix_ops_def le_Suc_eq numeral_2_eq_2)

lemma operator_shorter:
  assumes q: "\<And>k. shrinks (q k)" and i: "i \<le> 2" and p: "r_operator q k x i s = Parsed y r"
  shows "suffix r s \<and> length r < length s"
proof -
  obtain z where "r_bind (r_of (p_infix (fst (infix_ops ! i)))) (\<lambda>_. q (Suc i)) s = Parsed z r"
    using operator_Parsed [OF p] by blast
  then obtain u r1 where p1: "p_infix (fst (infix_ops ! i)) s = Some (u, r1)" and p2: "q (Suc i) r1 = Parsed z r"
    by (auto simp: r_bind_def r_of_def split: outcome.splits option.splits)
  have "strict_suffix r1 s" using progressD [OF progress_infix [OF infix_ne [OF i]] p1] .
  moreover have "suffix r r1" using shrinksD [OF q p2] .
  ultimately have "strict_suffix r s" by auto
  then show ?thesis by (auto simp: strict_suffix_def suffix_def)
qed

definition next_operator :: "(nat \<Rightarrow> base_restrict rule) \<Rightarrow> nat \<Rightarrow> base_restrict \<Rightarrow> base_restrict rule" where
  "next_operator q k x = r_alt (r_operator q k x 0) (r_alt (r_operator q k x 1) (r_operator q k x 2))"

lemma next_operator_cases: "next_operator q k x s = Parsed y r \<Longrightarrow> \<exists>i \<le> 2. r_operator q k x i s = Parsed y r"
proof -
  assume p: "next_operator q k x s = Parsed y r"
  then consider "r_operator q k x 0 s = Parsed y r" | "r_operator q k x 1 s = Parsed y r" | "r_operator q k x 2 s = Parsed y r"
    by (auto simp: next_operator_def r_alt_def split: outcome.splits)
  then show ?thesis by cases (blast intro: le0 one_le_numeral order_refl)+
qed

lemma r_operators_Suc: "r_operators q (Suc n) k x s = (case next_operator q k x s of
    NoMatch \<Rightarrow> Parsed x s | Panicked \<Rightarrow> Panicked | Parsed y r \<Rightarrow> r_operators q n k y r)"
  by (simp add: next_operator_def)

declare r_operators.simps(2) [simp del]

lemma next_operator_shorter: "(\<And>k. shrinks (q k)) \<Longrightarrow> next_operator q k x s = Parsed y r \<Longrightarrow> suffix r s \<and> length r < length s"
proof -
  assume q: "\<And>k. shrinks (q k)" and "next_operator q k x s = Parsed y r"
  then obtain i where "i \<le> 2" "r_operator q k x i s = Parsed y r" using next_operator_cases by blast
  then show "suffix r s \<and> length r < length s" by (rule operator_shorter [OF q])
qed

lemma operators_suffix: "(\<And>k. shrinks (q k)) \<Longrightarrow> shrinks (r_operators q n k x)"
proof (induction n arbitrary: x)
  case (Suc n)
  show ?case unfolding shrinks_def
  proof (intro allI impI)
    fix s y r assume p: "r_operators q (Suc n) k x s = Parsed y r"
    show "suffix r s"
    proof (cases "next_operator q k x s")
      case (Parsed z r1)
      then have "suffix r r1" using p shrinksD [OF Suc.IH [OF Suc.prems]] by (simp add: r_operators_Suc)
      moreover have "suffix r1 s" using next_operator_shorter [of q, OF Suc.prems Parsed] by simp
      ultimately show ?thesis by auto
    qed (use p in \<open>auto simp: r_operators_Suc\<close>)
  qed
qed (simp add: shrinks_def)

lemma all_operators_suffix:
  assumes "\<And>k. shrinks (q k)"
  shows "shrinks (\<lambda>r. r_operators q (Suc (length r)) k x r)"
  unfolding shrinks_def
proof (intro allI impI)
  fix s y r assume "r_operators q (Suc (length s)) k x s = Parsed y r"
  then show "suffix r s" by (rule shrinksD [OF operators_suffix [OF assms]])
qed

lemma shrinks_query: "shrinks e \<Longrightarrow> shrinks (r_query e n k)"
proof (induction n arbitrary: k)
  case (Suc n)
  have "shrinks (r_bind (r_operand e (r_query e n)) (\<lambda>x r. r_operators (r_query e n) (Suc (length r)) k x r))"
    by (intro shrinks_bind shrinks_operand all_operators_suffix Suc)
  then show ?case unfolding shrinks_def by (simp only: r_query.simps)
qed (simp add: shrinks_def)

text \<open>Two readers of expressions that agree on what is shorter.\<close>

definition agree :: "nat \<Rightarrow> (nat \<Rightarrow> base_restrict rule) \<Rightarrow> (nat \<Rightarrow> base_restrict rule) \<Rightarrow> bool" where
  "agree m p q \<longleftrightarrow> (\<forall>k s. length s < m \<longrightarrow> p k s = q k s)"

lemma operand_agree:
  assumes "agree (length s) p q"
  shows "r_operand e p s = r_operand e q s"
proof -
  have pr: "r_bind (r_of w) (\<lambda>_. f p) s = r_bind (r_of w) (\<lambda>_. f q) s"
    if "progress w" "\<And>r. length r < length s \<Longrightarrow> f p r = f q r" for w :: "'b parser" and f :: "(nat \<Rightarrow> base_restrict rule) \<Rightarrow> base_restrict rule"
  proof (cases "w s")
    case (Some z)
    obtain y r where z: "w s = Some (y, r)" using Some by (cases z) simp
    then have "f p r = f q r" by (intro that(2) progress_shorter [OF that(1)])
    with z show ?thesis by (simp add: r_bind_def r_of_def)
  qed (simp add: r_bind_def r_of_def)
  have 1: "progress (p_lit ''!'')" "progress (p_then p_ws (p_then (p_lit ''('') p_ws))"
    by (intro progress_then2 progress_then1 progress_lit lexical_rest; simp)+
  have 2: "r_bind (p 3) g r = r_bind (q 3) g r" "r_bind (p 0) g r = r_bind (q 0) g r" if "length r < length s"
    for g :: "base_restrict \<Rightarrow> base_restrict rule" and r
    using assms that by (simp_all add: agree_def r_bind_def)
  have 3: "r_bind (r_of (p_lit ''!'')) (\<lambda>_. r_bind (p 3) g) s = r_bind (r_of (p_lit ''!'')) (\<lambda>_. r_bind (q 3) g) s" for g :: "base_restrict \<Rightarrow> base_restrict rule"
    by (rule pr [OF 1(1), of "\<lambda>p. r_bind (p 3) g"]) (rule 2)
  have 4: "r_bind (r_of (p_then p_ws (p_then (p_lit ''('') p_ws))) (\<lambda>_. r_bind (p 0) g) s =
      r_bind (r_of (p_then p_ws (p_then (p_lit ''('') p_ws))) (\<lambda>_. r_bind (q 0) g) s" for g :: "base_restrict \<Rightarrow> base_restrict rule"
    by (rule pr [OF 1(2), of "\<lambda>p. r_bind (p 0) g"]) (rule 2)
  show ?thesis unfolding r_operand_def r_parens_def r_alt_def 3 4 by (rule refl)
qed

lemma operator_agree:
  assumes "agree (length s) p q" "i \<le> 2"
  shows "r_operator p k x i s = r_operator q k x i s"
proof (cases "p_infix (fst (infix_ops ! i)) s")
  case (Some z)
  obtain u r where z: "z = (u, r)" by (cases z)
  then have "length r < length s" using progress_shorter [OF progress_infix [OF infix_ne [OF assms(2)]]] Some by blast
  with assms(1) show ?thesis using Some z by (simp add: r_operator_def r_bind_def r_of_def agree_def)
qed (simp add: r_operator_def r_bind_def r_of_def)

lemma operators_agree: "agree (length s) p q \<Longrightarrow> (\<And>k. shrinks (q k)) \<Longrightarrow> r_operators p n k x s = r_operators q n k x s"
proof (induction n arbitrary: x s)
  case (Suc n)
  have "next_operator p k x s = next_operator q k x s"
    using operator_agree [OF Suc.prems(1), of 0] operator_agree [OF Suc.prems(1), of 1] operator_agree [OF Suc.prems(1), of 2]
    by (simp add: next_operator_def r_alt_def split: outcome.splits)
  moreover have "r_operators p n k y r = r_operators q n k y r" if "next_operator q k x s = Parsed y r" for y r
  proof (rule Suc.IH)
    show "agree (length r) p q" using Suc.prems(1) next_operator_shorter [of q, OF Suc.prems(2) that] by (auto simp: agree_def)
  qed (rule Suc.prems(2))
  ultimately show ?case by (simp add: r_operators_Suc split: outcome.splits)
qed simp

text \<open>More fuel than there are operators is as good as any.\<close>

lemma operators_enough:
  "(\<And>k. shrinks (q k)) \<Longrightarrow> length s < n \<Longrightarrow> length s < m \<Longrightarrow> r_operators q n k x s = r_operators q m k x s"
proof (induction n arbitrary: m x s)
  case (Suc n)
  then obtain m' where m: "m = Suc m'" by (cases m) auto
  show ?case
  proof (cases "next_operator q k x s")
    case (Parsed y r)
    then have "length r < length s" using next_operator_shorter [of q, OF Suc.prems(1) Parsed] by blast
    then have "r_operators q n k y r = r_operators q m' k y r" using Suc m by (intro Suc.IH) auto
    with Parsed m show ?thesis by (simp add: r_operators_Suc)
  qed (simp_all add: m r_operators_Suc)
qed simp

lemma query_enough: "shrinks e \<Longrightarrow> length s < n \<Longrightarrow> length s < m \<Longrightarrow> r_query e n k s = r_query e m k s"
proof (induction n arbitrary: m s k)
  case (Suc n)
  then obtain m' where m: "m = Suc m'" by (cases m) auto
  have agree: "agree (length s) (r_query e n) (r_query e m')"
    unfolding agree_def
  proof (intro allI impI)
    fix k and u :: string assume "length u < length s"
    then show "r_query e n k u = r_query e m' k u" using Suc.prems m by (intro Suc.IH) auto
  qed
  then have o1: "r_operand e (r_query e n) s = r_operand e (r_query e m') s" by (rule operand_agree)
  have "r_operators (r_query e n) (Suc (length r)) k x r = r_operators (r_query e m') (Suc (length r)) k x r"
    if "r_operand e (r_query e m') s = Parsed x r" for x r
  proof (rule operators_agree)
    have "suffix r s" using shrinksD [OF shrinks_operand [OF Suc.prems(1) shrinks_query [OF Suc.prems(1)]] that] .
    then have "length r \<le> length s" by (rule suffix_length_le)
    with agree show "agree (length r) (r_query e n) (r_query e m')" by (auto simp: agree_def)
  qed (rule shrinks_query [OF Suc.prems(1)])
  with o1 show ?case by (simp add: m r_bind_def split: outcome.splits)
qed simp

section \<open>Without the bound\<close>

definition full_query :: "base_restrict rule \<Rightarrow> nat \<Rightarrow> base_restrict rule" where
  "full_query e k s = r_query e (Suc (length s)) k s"

definition full_operators :: "base_restrict rule \<Rightarrow> nat \<Rightarrow> base_restrict \<Rightarrow> base_restrict rule" where
  "full_operators e k x s = r_operators (full_query e) (Suc (length s)) k x s"

lemma shrinks_full: "shrinks e \<Longrightarrow> shrinks (full_query e k)"
  using shrinks_query [of e] unfolding full_query_def [abs_def] shrinks_def by blast

lemma agree_full: "shrinks e \<Longrightarrow> n \<ge> m \<Longrightarrow> agree m (r_query e n) (full_query e)"
  unfolding agree_def full_query_def using query_enough [of e] by (meson lessI less_le_trans)

lemma full_query_eq:
  assumes "shrinks e"
  shows "full_query e k s = r_bind (r_operand e (full_query e)) (full_operators e k) s"
proof -
  have o1: "r_operand e (r_query e (length s)) s = r_operand e (full_query e) s"
    by (rule operand_agree [OF agree_full [OF assms order_refl]])
  have "r_operators (r_query e (length s)) (Suc (length r)) k x r = full_operators e k x r"
    if "r_operand e (full_query e) s = Parsed x r" for x r
  proof -
    have "length r \<le> length s"
      using shrinksD [OF shrinks_operand [OF assms shrinks_full [OF assms]] that] by (rule suffix_length_le)
    then show ?thesis unfolding full_operators_def
      by (intro operators_agree agree_full shrinks_full assms)
  qed
  with o1 show ?thesis by (simp add: full_query_def r_bind_def split: outcome.splits)
qed

lemma full_operators_eq:
  assumes "shrinks e"
  shows "full_operators e k x s = (case next_operator (full_query e) k x s of
    NoMatch \<Rightarrow> Parsed x s | Panicked \<Rightarrow> Panicked | Parsed y r \<Rightarrow> full_operators e k y r)"
proof -
  have "r_operators (full_query e) (length s) k y r = full_operators e k y r"
    if "next_operator (full_query e) k x s = Parsed y r" for y r
    unfolding full_operators_def
    using next_operator_shorter [of "full_query e", OF shrinks_full [OF assms] that]
    by (intro operators_enough shrinks_full assms) auto
  then show ?thesis by (simp add: full_operators_def r_operators_Suc split: outcome.splits)
qed

section \<open>Panics\<close>

text \<open>A query panics where one of its parts does.\<close>

definition panics_from :: "base_restrict rule \<Rightarrow> base_restrict rule \<Rightarrow> bool" where
  "panics_from e p \<longleftrightarrow> (\<forall>s. p s = Panicked \<longrightarrow> (\<exists>u. suffix u s \<and> e u = Panicked))"

lemma panics_bind_of:
  assumes "suffix_rest w" "\<And>x. panics_from e (f x)"
  shows "panics_from e (r_bind (r_of w) f)"
  unfolding panics_from_def
proof (intro allI impI)
  fix s assume p: "r_bind (r_of w) f s = Panicked"
  then obtain y r where w: "w s = Some (y, r)" by (auto simp: r_bind_def r_of_def split: option.splits)
  with p have "f y r = Panicked" by (simp add: r_bind_def r_of_def)
  then obtain u where "suffix u r" "e u = Panicked" using assms(2) by (auto simp: panics_from_def)
  with suffix_restD [OF assms(1) w] show "\<exists>u. suffix u s \<and> e u = Panicked" by (meson suffix_order.trans)
qed

lemma panics_bind:
  assumes "shrinks p" "panics_from e p" "\<And>x. panics_from e (f x)"
  shows "panics_from e (r_bind p f)"
  unfolding panics_from_def
proof (intro allI impI)
  fix s assume r: "r_bind p f s = Panicked"
  show "\<exists>u. suffix u s \<and> e u = Panicked"
  proof (cases "p s")
    case (Parsed x t)
    with r have "f x t = Panicked" by (simp add: r_bind_def)
    then obtain u where "suffix u t" "e u = Panicked" using assms(3) by (auto simp: panics_from_def)
    with shrinksD [OF assms(1) Parsed] show ?thesis by (meson suffix_order.trans)
  qed (use r assms(2) in \<open>auto simp: panics_from_def r_bind_def\<close>)
qed

lemma panics_alt: "panics_from e p \<Longrightarrow> panics_from e q \<Longrightarrow> panics_from e (r_alt p q)"
  by (auto simp: panics_from_def r_alt_def split: outcome.splits)

lemma panics_simple: "panics_from e e" "panics_from e (Parsed x)" "panics_from e (r_of w)"
  by (auto simp: panics_from_def r_of_def split: option.splits)

lemma panics_operand:
  assumes "shrinks e" "\<And>k. shrinks (q k)" "\<And>k. panics_from e (q k)"
  shows "panics_from e (r_operand e q)"
  unfolding r_operand_def r_parens_def
  by (intro panics_alt panics_bind_of panics_bind panics_simple assms lexical_rest)

lemma panics_operator:
  assumes "\<And>k. shrinks (q k)" "\<And>k. panics_from e (q k)"
  shows "panics_from e (r_operator q k x i)"
proof -
  have "panics_from e (r_bind (r_of (p_infix (fst (infix_ops ! i)))) (\<lambda>_. r_bind (q (Suc i)) (\<lambda>y. Parsed (snd (infix_ops ! i) x y))))"
    by (intro panics_bind_of panics_bind panics_simple assms rest_infix)
  then show ?thesis by (simp add: panics_from_def r_operator_def)
qed

lemma panics_operators:
  assumes "\<And>k. shrinks (q k)" "\<And>k. panics_from e (q k)"
  shows "panics_from e (r_operators q n k x)"
proof (induction n arbitrary: x)
  case (Suc n)
  have next_: "panics_from e (next_operator q k x)"
    unfolding next_operator_def by (intro panics_alt panics_operator assms)
  show ?case unfolding panics_from_def
  proof (intro allI impI)
    fix s assume p: "r_operators q (Suc n) k x s = Panicked"
    show "\<exists>u. suffix u s \<and> e u = Panicked"
    proof (cases "next_operator q k x s")
      case (Parsed y r)
      then obtain u where "suffix u r" "e u = Panicked" using p Suc.IH by (auto simp: r_operators_Suc panics_from_def)
      moreover have "suffix r s" using next_operator_shorter [of q, OF assms(1) Parsed] by simp
      ultimately show ?thesis by (meson suffix_order.trans)
    qed (use p next_ in \<open>auto simp: r_operators_Suc panics_from_def\<close>)
  qed
qed (simp add: panics_from_def)

lemma panics_query: "shrinks e \<Longrightarrow> panics_from e (r_query e n k)"
proof (induction n arbitrary: k)
  case (Suc n)
  have ops: "panics_from e (\<lambda>r. r_operators (r_query e n) (Suc (length r)) k x r)" for x
    using panics_operators [of "r_query e n" e, OF shrinks_query [OF Suc.prems] Suc.IH [OF Suc.prems]]
    by (simp add: panics_from_def)
  have "panics_from e (r_bind (r_operand e (r_query e n)) (\<lambda>x r. r_operators (r_query e n) (Suc (length r)) k x r))"
    by (intro panics_bind panics_operand shrinks_operand shrinks_query Suc ops)
  then show ?case unfolding panics_from_def by (simp only: r_query.simps)
qed (simp add: panics_from_def)

lemma p_words_SomeD: "p_words ws s = Some (w, r) \<Longrightarrow> w \<in> set ws \<and> s = w @ r"
  by (induction ws) (auto simp: p_alt_def p_fail_def p_lit_Some split: option.splits)

text \<open>Every element of a repetition was read somewhere.\<close>

lemma p_star_elements: "suffix_rest p \<Longrightarrow> x \<in> set (fst (p_star p s)) \<Longrightarrow> \<exists>u r. suffix u s \<and> p u = Some (x, r)"
proof (induction p s rule: p_star.induct)
  case (1 p s)
  show ?case
  proof (cases "p s")
    case (Some z)
    obtain y r where z: "z = (y, r)" by (cases z)
    show ?thesis
    proof (cases "length r < length s")
      case True
      then have "x = y \<or> x \<in> set (fst (p_star p r))" using "1.prems"(2) Some z by (auto simp: p_star.simps [of p s] split: prod.splits)
      then show ?thesis
      proof
        assume "x \<in> set (fst (p_star p r))"
        then obtain u t where "suffix u r" "p u = Some (x, t)"
          using "1.IH" [OF Some z [symmetric] True "1.prems"(1)] by blast
        moreover have "suffix r s" using suffix_restD [OF "1.prems"(1)] Some z by simp
        ultimately show ?thesis by (meson suffix_order.trans)
      qed (use Some z in auto)
    next
      case False
      then show ?thesis using "1.prems"(2) Some z by (simp add: p_star.simps [of p s])
    qed
  next
    case None
    then show ?thesis using "1.prems"(2) by (simp add: p_star.simps [of p s])
  qed
qed

lemma p_sep1_elements:
  assumes p: "suffix_rest p" and q: "suffix_rest q" and s: "p_sep1 p q s = Some (xs, r)" and x: "x \<in> set xs"
  shows "\<exists>u t. suffix u s \<and> p u = Some (x, t)"
proof -
  obtain y r1 where y: "p s = Some (y, r1)" "x = y \<or> x \<in> set (fst (p_star (p_then q p) r1))"
    using s x by (auto simp: p_sep1_def p_bind_def p_many_def p_return_def split: option.splits prod.splits)
  show ?thesis
  proof (cases "x = y")
    case False
    then obtain u t where u: "suffix u r1" "p_then q p u = Some (x, t)"
      using y p_star_elements [OF rest_then [OF q p]] by blast
    then obtain w z where w: "q u = Some (w, z)" "p z = Some (x, t)" by (auto simp: p_then_def p_bind_def split: option.splits)
    have "suffix z u" by (rule suffix_restD [OF q w(1)])
    moreover have "suffix r1 s" by (rule suffix_restD [OF p y(1)])
    ultimately show ?thesis using u(1) w(2) by (meson suffix_order.trans)
  qed (use y in auto)
qed

section \<open>Actions that do not panic\<close>

definition never_panics :: "'a rule \<Rightarrow> bool" where
  "never_panics p \<longleftrightarrow> (\<forall>s. p s \<noteq> Panicked)"

definition gives :: "'a parser \<Rightarrow> 'a set \<Rightarrow> bool" where
  "gives p X \<longleftrightarrow> (\<forall>s x r. p s = Some (x, r) \<longrightarrow> x \<in> X)"

lemma never_of: "never_panics (r_of p)"
  by (simp add: never_panics_def r_of_def split: option.splits)

lemma never_alt: "never_panics p \<Longrightarrow> never_panics q \<Longrightarrow> never_panics (r_alt p q)"
  by (auto simp: never_panics_def r_alt_def split: outcome.splits)

lemma never_bind: "never_panics p \<Longrightarrow> (\<And>x. never_panics (f x)) \<Longrightarrow> never_panics (r_bind p f)"
  by (auto simp: never_panics_def r_bind_def split: outcome.splits)

lemma never_Parsed: "never_panics (Parsed x)"
  by (simp add: never_panics_def)

lemma never_map: "never_panics p \<Longrightarrow> never_panics (r_map f p)"
  unfolding r_map_def by (intro never_bind never_Parsed)

lemma never_parens: "never_panics p \<Longrightarrow> never_panics (r_parens p)"
  unfolding r_parens_def by (intro never_bind never_of never_Parsed)

lemma star_never: "never_panics p \<Longrightarrow> r_star p s \<noteq> Panicked"
proof (induction p s rule: r_star.induct)
  case (1 p s)
  then have "p s \<noteq> Panicked" by (simp add: never_panics_def)
  then show ?case using 1 by (cases "p s") (auto simp: r_star.simps [of p s] split: outcome.splits)
qed

lemma never_sep1: "never_panics p \<Longrightarrow> never_panics (r_sep1 p q)"
  unfolding r_sep1_def by (intro never_bind never_map) (simp_all add: never_panics_def [of "r_star _"] star_never never_bind never_of)

lemma return_Panicked: "r_return a s = Panicked \<longleftrightarrow> a = Panic"
  by (cases a) simp_all

lemma never_return: "a \<noteq> Panic \<Longrightarrow> never_panics (r_return a)"
  by (simp add: never_panics_def return_Panicked)

lemma never_act: "gives p X \<Longrightarrow> (\<And>x. x \<in> X \<Longrightarrow> f x \<noteq> Panic) \<Longrightarrow> never_panics (r_act p f)"
  by (auto simp: never_panics_def gives_def r_act_def r_bind_def r_of_def return_Panicked split: option.splits)

lemma act_Panicked: "r_act p f s = Panicked \<longleftrightarrow> (\<exists>x r. p s = Some (x, r) \<and> f x = Panic)"
  by (auto simp: r_act_def r_bind_def r_of_def return_Panicked split: option.splits)

lemma act_bind_Panic: "act_bind a f = Panic \<longleftrightarrow> a = Panic \<or> (\<exists>x. a = Accept x \<and> f x = Panic)"
  by (cases a) simp_all

lemma act_map_Panic [simp]: "act_map f a = Panic \<longleftrightarrow> a = Panic"
  by (simp add: act_map_def act_bind_Panic)

lemma act_all_Panic: "act_all as = Panic \<Longrightarrow> Panic \<in> set as"
  by (induction as) (auto simp: act_bind_Panic)

lemma accept_or_refuse_safe [simp]: "accept_or_refuse x \<noteq> Panic"
  by (simp add: accept_or_refuse_def split: option.splits)

lemma match_str_Panic: "match_str arms s = Panic \<longleftrightarrow> s \<notin> fst ` set arms"
  using map_of_eq_None_iff [of arms s] by (cases "map_of arms s") (simp_all add: match_str_def)

lemma match_str_Accept: "match_str arms s = Accept x \<Longrightarrow> (s, x) \<in> set arms"
  by (auto simp: match_str_def split: option.splits dest: map_of_SomeD)

lemma split_Panic:
  "op_split f vals = Panic \<Longrightarrow> \<exists>v \<in> set vals. f (snd v) = Panic \<or> fst v \<noteq> CHR ''&'' \<and> fst v \<noteq> CHR ''|''"
  by (induction vals) (auto simp: act_bind_Panic split: if_splits)

text \<open>What the rules that feed the actions can give.\<close>

lemma gives_bind: "(\<And>x. gives (f x) X) \<Longrightarrow> gives (p_bind p f) X"
  by (auto simp: gives_def p_bind_def split: option.splits)

lemma gives_bind_in: "gives p Y \<Longrightarrow> (\<And>x. x \<in> Y \<Longrightarrow> gives (f x) X) \<Longrightarrow> gives (p_bind p f) X"
  by (fastforce simp: gives_def p_bind_def split: option.splits)

lemma gives_map: "gives p Y \<Longrightarrow> f ` Y \<subseteq> X \<Longrightarrow> gives (p_map f p) X"
  by (fastforce simp: gives_def p_map_def p_bind_def p_return_def split: option.splits)

lemma gives_then: "gives q X \<Longrightarrow> gives (p_then p q) X"
  unfolding p_then_def by (rule gives_bind)

lemma gives_before: "gives p X \<Longrightarrow> gives (p_before p q) X"
  by (auto simp: gives_def p_before_def p_bind_def p_return_def split: option.splits)

lemma gives_alt: "gives p X \<Longrightarrow> gives q X \<Longrightarrow> gives (p_alt p q) X"
  by (auto simp: gives_def p_alt_def split: option.splits)

lemma gives_words: "set ws \<subseteq> X \<Longrightarrow> gives (p_words ws) X"
  using p_words_SomeD by (fastforce simp: gives_def)

lemma gives_lit: "w \<in> X \<Longrightarrow> gives (p_lit w) X"
  by (auto simp: gives_def p_lit_Some)

lemma gives_UNIV: "gives p UNIV"
  by (simp add: gives_def)

lemma gives_angle: "gives (p_slice (p_then (p_class (\<lambda>c. c = CHR ''<'' \<or> c = CHR ''>'')) (p_opt (p_lit ''='')))) {''<'', ''<='', ''>'', ''>=''}"
  unfolding gives_def
proof (intro allI impI)
  fix s x and r :: string
  assume p: "p_slice (p_then (p_class (\<lambda>c. c = CHR ''<'' \<or> c = CHR ''>'')) (p_opt (p_lit ''=''))) s = Some (x, r)"
  then obtain c t where s: "s = c # t" by (cases s) (auto simp: p_slice_def p_then_def p_bind_def)
  with p show "x \<in> {''<'', ''<='', ''>'', ''>=''}"
    by (cases "starts_with t ''=''"; cases t)
      (auto simp: p_slice_def p_then_def p_bind_def p_opt_def p_lit_def starts_with_def split: if_splits)
qed

lemma gives_equals: "gives (p_slice (p_then (p_class (\<lambda>c. c = CHR ''!'' \<or> c = CHR ''='')) (p_lit ''=''))) {''!='', ''==''}"
  unfolding gives_def
proof (intro allI impI)
  fix s x and r :: string
  assume p: "p_slice (p_then (p_class (\<lambda>c. c = CHR ''!'' \<or> c = CHR ''='')) (p_lit ''='')) s = Some (x, r)"
  then obtain c t where s: "s = c # t" by (cases s) (auto simp: p_slice_def p_then_def p_bind_def)
  with p show "x \<in> {''!='', ''==''}"
    by (cases "starts_with t ''=''"; cases t) (auto simp: p_slice_def p_then_def p_bind_def p_lit_def starts_with_def split: if_splits)
qed

text \<open>The literals, under names that keep automation from taking the sets apart.\<close>

definition str_op_names :: "string set" where
  "str_op_names = {''=='', ''>='', ''!='', ''=~'', ''!~''}"

definition set_op_names :: "string set" where
  "set_op_names = {''<'', ''<='', ''>'', ''>='', ''=='', ''%''}"

definition ordered_names :: "string set" where
  "ordered_names = {''any'', ''all'', ''first'', ''last''}"

definition dep_attr_names :: "string set" where
  "dep_attr_names = {''dependencies'', ''depend'', ''bdepend'', ''idepend'', ''pdepend'', ''rdepend''}"

definition str_attr_names :: "string set" where
  "str_attr_names = {''license'', ''properties'', ''required_use'', ''restrict''}"

definition set_attr_names :: "string set" where
  "set_attr_names = {''homepage'', ''iuse'', ''inherited'', ''inherit'', ''keywords''}"

definition kind_names :: "string set" where
  "kind_names = {''any'', ''contains''}"

lemma gives_string_ops: "gives p_string_ops str_op_names"
  unfolding p_string_ops_def by (intro gives_then gives_before gives_words) (simp add: str_op_names_def)

lemma gives_set_ops: "gives p_set_ops set_op_names"
  unfolding p_set_ops_def
  by (intro gives_then gives_before gives_alt gives_words) (use gives_angle in \<open>auto simp: gives_def set_op_names_def\<close>)

lemma gives_number_op: "gives p_number_op {''<'', ''<='', ''>'', ''>='', ''!='', ''==''}"
  unfolding p_number_op_def
  by (intro gives_then gives_before gives_alt) (use gives_angle gives_equals in \<open>auto simp: gives_def\<close>)

lemma str_restrict_safe: "opr \<in> str_op_names \<Longrightarrow> query_str_restrict vr opr s \<noteq> Panic"
  by (auto simp: query_str_restrict_def match_str_def str_op_names_def)

lemma gives_compare: "gives (p_compare attrs) (set attrs \<times> str_op_names \<times> UNIV)"
  unfolding p_compare_def
  by (rule gives_bind_in [OF gives_words [OF order_refl]], rule gives_bind_in [OF gives_string_ops], rule gives_map [OF gives_UNIV]) auto

lemma compare_safe:
  assumes "\<And>r. set attrs \<subseteq> fst ` set (arms r)"
  shows "never_panics (r_compare vr attrs arms)"
  unfolding r_compare_def
  by (rule never_act [OF gives_compare])
    (use subsetD [OF assms] in \<open>auto simp: act_bind_Panic match_str_Panic str_restrict_safe\<close>)

lemma gives_contains: "gives kinds K \<Longrightarrow> gives (p_contains_string kinds) (K \<times> str_op_names \<times> UNIV)"
  unfolding p_contains_string_def
  by (intro gives_then, erule gives_bind_in, intro gives_then, rule gives_bind_in [OF gives_string_ops], rule gives_map [OF gives_UNIV]) auto

text \<open>The pairs of an operator and an attribute.\<close>

abbreviation p_op_attr :: "string parser \<Rightarrow> (char \<times> string) parser" where
  "p_op_attr attr \<equiv> p_bind (p_class (\<lambda>c. c = CHR ''&'' \<or> c = CHR ''|'')) (\<lambda>opr. p_map (\<lambda>a. (opr, a)) attr)"

lemma op_attrs_elements:
  assumes "suffix_rest attr" "p_op_attrs attr s = Some (vals, r)" "v \<in> set vals"
  shows "(fst v = CHR ''&'' \<or> fst v = CHR ''|'') \<and> (\<exists>u t. suffix u s \<and> attr u = Some (snd v, t))"
proof -
  have "p_sep1 (p_op_attr attr) (p_lit []) s = Some (vals, r)"
    using assms(2) by (auto simp: p_op_attrs_def p_try_def split: option.splits if_splits)
  moreover have "suffix_rest (p_op_attr attr)" by (intro rest_bind rest_classes rest_map assms(1))
  ultimately obtain u t where u: "suffix u s" "p_op_attr attr u = Some (v, t)"
    using p_sep1_elements [OF _ rest_lit _ assms(3)] by blast
  then obtain c w where "u = c # w" "c = CHR ''&'' \<or> c = CHR ''|''" "v = (c, snd v)" "attr w = Some (snd v, t)"
    by (cases u) (auto simp: p_bind_def p_map_def p_return_def split: option.splits if_splits)
  with u(1) show ?thesis by (metis fst_conv suffix_ConsD)
qed

definition op_attr_lists :: "string set \<Rightarrow> (char \<times> string) list set" where
  "op_attr_lists X = {vals. \<forall>v \<in> set vals. (fst v = CHR ''&'' \<or> fst v = CHR ''|'') \<and> snd v \<in> X}"

lemma gives_op_attrs:
  assumes "suffix_rest attr" "gives attr X"
  shows "gives (p_op_attrs attr) (op_attr_lists X)"
  unfolding gives_def [of "p_op_attrs _"]
proof (intro allI impI)
  fix s vals r assume p: "p_op_attrs attr s = Some (vals, r)"
  show "vals \<in> op_attr_lists X" unfolding op_attr_lists_def
  proof (intro CollectI ballI)
    fix v assume "v \<in> set vals"
    then show "(fst v = CHR ''&'' \<or> fst v = CHR ''|'') \<and> snd v \<in> X"
      using op_attrs_elements [OF assms(1) p] assms(2) unfolding gives_def by blast
  qed
qed

section \<open>Where a panic comes from\<close>

abbreviation optional_attrs :: "string list" where
  "optional_attrs \<equiv> [''subslot'', ''dependencies'', ''depend'', ''bdepend'', ''idepend'', ''pdepend'', ''rdepend'',
     ''license'', ''properties'', ''required_use'', ''restrict'', ''src_uri'', ''homepage'', ''iuse'', ''inherited'', ''inherit'',
     ''keywords'', ''long_description'', ''maintainers'', ''upstream'']"

lemma optional_attrs_known: "list_all (\<lambda>a. a = ''upstream'' \<or> a \<in> fst ` set missing_table) optional_attrs"
  by code_simp

lemma optional_attr_upstream:
  assumes "p_optional_attr s = Some (a, r)" "missing_restrict a = Panic"
  shows "prefix ''upstream'' s"
  using p_words_SomeD [OF assms(1) [unfolded p_optional_attr_def]] assms(2) [unfolded missing_restrict_def match_str_Panic]
    optional_attrs_known
  unfolding list_all_iff by (metis prefixI)

lemma attr_optional_panics:
  assumes "r_attr_optional s = Panicked"
  shows "sublist ''upstream'' s"
proof -
  have rest: "suffix_rest p_optional_attr" unfolding p_optional_attr_def by (rule rest_words)
  consider (single) a r where "p_optional_attr s = Some (a, r)" "missing_restrict a = Panic"
    | (several) vals r where "p_op_attrs p_optional_attr s = Some (vals, r)"
        "op_split (\<lambda>attr. act_map (\<lambda>r. [r]) (missing_restrict attr)) vals = Panic"
    using assms by (auto simp: r_attr_optional_def r_alt_def act_Panicked p_before_def p_bind_def p_return_def
        split: outcome.splits option.splits)
  then show ?thesis
  proof cases
    case single
    then show ?thesis using optional_attr_upstream prefix_imp_sublist by blast
  next
    case several
    then obtain v where v: "v \<in> set vals" "missing_restrict (snd v) = Panic \<or> fst v \<noteq> CHR ''&'' \<and> fst v \<noteq> CHR ''|''"
      using split_Panic [OF several(2)] by auto
    then obtain u t where "suffix u s" "p_optional_attr u = Some (snd v, t)" "missing_restrict (snd v) = Panic"
      using op_attrs_elements [OF rest several(1) v(1)] by blast
    then show ?thesis using optional_attr_upstream
      by (meson prefix_imp_sublist suffix_imp_sublist sublist_order.order_trans)
  qed
qed

lemma depset_of_attr_Panic: "depset_of_attr attr r = Panic \<longleftrightarrow>
    attr \<notin> dep_attr_names"
  unfolding depset_of_attr_def match_str_Panic dep_attr_names_def by simp

lemma depset_dep_safe:
  assumes "attr \<in> dep_attr_names"
  shows "depset_dep_contains attr r \<noteq> Panic" "act_all (map (depset_dep_any attr) rs) \<noteq> Panic"
proof -
  have "depset_dep_any attr r \<noteq> Panic" for r using assms by (simp add: depset_dep_any_def depset_of_attr_Panic)
  then show "act_all (map (depset_dep_any attr) rs) \<noteq> Panic"
    using act_all_Panic [of "map (depset_dep_any attr) rs"] by (metis imageE list.set_map)
qed (simp add: assms depset_dep_contains_def depset_of_attr_Panic)

lemma depset_dep_rule_safe: "never_panics (r_attr_depset_dep_restrict dep vr)"
proof -
  let ?attrs = dep_attr_names
  have attr: "gives p_depset_dep_attr ?attrs" unfolding p_depset_dep_attr_def by (rule gives_words) (simp add: dep_attr_names_def)
  have rest: "suffix_rest p_depset_dep_attr" unfolding p_depset_dep_attr_def by (rule rest_words)
  have any: "gives (p_bind p_depset_dep_attr (\<lambda>attr. p_map (\<lambda>s. (attr, s)) p_any_string)) (?attrs \<times> UNIV)"
    by (rule gives_bind_in [OF attr], rule gives_map [OF gives_UNIV]) auto
  have contains: "gives (p_bind p_depset_dep_attr (\<lambda>attr. p_map (\<lambda>v. (attr, v)) (p_contains_string (p_lit ''contains''))))
      (?attrs \<times> UNIV \<times> str_op_names \<times> UNIV)"
    by (rule gives_bind_in [OF attr], rule gives_map [OF gives_contains [OF gives_UNIV]]) auto
  have several: "gives (p_bind (p_op_attrs p_depset_dep_attr) (\<lambda>vals. p_map (\<lambda>s. (vals, s)) p_any_string))
      (op_attr_lists ?attrs \<times> UNIV)"
    by (rule gives_bind_in [OF gives_op_attrs [OF rest attr]], rule gives_map [OF gives_UNIV]) auto
  have apart: "op_split (\<lambda>attr. act_all (map (depset_dep_any attr) rs)) vals \<noteq> Panic"
    if "vals \<in> op_attr_lists ?attrs" for vals rs
  proof
    assume "op_split (\<lambda>attr. act_all (map (depset_dep_any attr) rs)) vals = Panic"
    then obtain v where v: "v \<in> set vals" "act_all (map (depset_dep_any (snd v)) rs) = Panic \<or> fst v \<noteq> CHR ''&'' \<and> fst v \<noteq> CHR ''|''"
      using split_Panic by blast
    with that have "snd v \<in> ?attrs" "fst v = CHR ''&'' \<or> fst v = CHR ''|''" by (auto simp: op_attr_lists_def)
    with v(2) depset_dep_safe(2) show False by blast
  qed
  show ?thesis
    unfolding r_attr_depset_dep_restrict_def
    by (intro never_alt never_act [OF any] never_act [OF contains] never_act [OF several])
      (auto simp: act_bind_Panic str_restrict_safe depset_dep_safe apart)
qed

lemma depset_str_safe:
  "kind \<in> kind_names \<Longrightarrow> attr \<in> str_attr_names \<Longrightarrow>
   depset_str_restrict kind attr r \<noteq> Panic"
  by (auto simp: depset_str_restrict_def match_str_def act_bind_Panic kind_names_def str_attr_names_def)

lemma depset_str_rule_safe: "never_panics (r_attr_depset_str_restrict vr)"
  unfolding r_attr_depset_str_restrict_def
proof (rule never_act)
  show "gives (p_bind (p_words [''license'', ''properties'', ''required_use'', ''restrict'']) (\<lambda>attr.
       p_map (\<lambda>v. (attr, v)) (p_contains_string (p_words [''any'', ''contains'']))))
     (str_attr_names \<times> kind_names \<times> str_op_names \<times> UNIV)"
    by (rule gives_bind_in [OF gives_words [of _ str_attr_names]], simp add: str_attr_names_def,
        rule gives_map [OF gives_contains [OF gives_words [of _ kind_names]]]) (auto simp: kind_names_def)
qed (auto simp: act_bind_Panic str_restrict_safe depset_str_safe)

lemma orderedset_safe: "opr \<in> set_op_names \<Longrightarrow> orderedset_restrict sx opr vals \<noteq> Panic"
  by (auto simp: orderedset_restrict_def match_str_def set_op_names_def)

lemma orderedset_rule_safe: "never_panics (r_attr_orderedset_str sx)"
  unfolding r_attr_orderedset_str_def
proof (rule never_act)
  show "gives (p_bind (p_words [''homepage'', ''iuse'', ''inherited'', ''inherit'', ''keywords'']) (\<lambda>attr.
       p_bind p_set_ops (\<lambda>opr. p_map (\<lambda>vals. (attr, opr, vals)) p_quoted_string_set)))
     (set_attr_names \<times> set_op_names \<times> UNIV)"
    by (rule gives_bind_in [OF gives_words [of _ set_attr_names]], simp add: set_attr_names_def,
        rule gives_bind_in [OF gives_set_ops], rule gives_map [OF gives_UNIV]) auto
qed (auto simp: act_bind_Panic match_str_Panic orderedset_safe set_attr_names_def)

lemma number_ops_safe: "never_panics r_number_ops"
  unfolding r_number_ops_def by (rule never_act [OF gives_number_op]) (auto simp: number_cmps_def match_str_Panic)

lemma maintainer_rule_safe: "never_panics (r_maintainer_restrict vr)"
  unfolding r_maintainer_restrict_def by (rule compare_safe) simp

lemma maintainer_attr_safe: "never_panics r_maintainer_attr_optional"
  unfolding r_maintainer_attr_optional_def
  by (rule never_act [OF gives_before [OF gives_words [OF order_refl]]]) (auto simp: match_str_Panic)

lemma maintainers_safe: "never_panics (r_maintainers vr)"
proof -
  have exprs: "never_panics (r_maintainer_exprs vr)"
    unfolding r_maintainer_exprs_def r_maintainer_and_def
    by (intro never_alt never_parens never_map never_sep1 maintainer_rule_safe maintainer_attr_safe)
  have "never_panics (r_ordered_ops (r_maintainer_exprs vr))"
    unfolding never_panics_def
  proof (intro allI notI)
    fix s assume p: "r_ordered_ops (r_maintainer_exprs vr) s = Panicked"
    have g: "gives (p_then p_blanks (p_before (p_words [''any'', ''all'', ''first'', ''last'']) p_blanks)) ordered_names"
      by (intro gives_then gives_before gives_words) (simp add: ordered_names_def)
    obtain opr u where "opr \<in> ordered_names" and u: "r_bind (r_maintainer_exprs vr) (\<lambda>r. r_return (match_str
        [(''any'', OrdAny r), (''all'', OrdAll r), (''first'', OrdFirst r), (''last'', OrdLast r)] opr)) u = Panicked"
      using p g unfolding r_ordered_ops_def r_bind_def [of "r_of _"] r_of_def gives_def
      by (simp split: option.splits prod.splits del: p_words.simps) blast
    then show False
      using exprs by (auto simp: r_bind_def never_panics_def return_Panicked match_str_Panic ordered_names_def split: outcome.splits)
  qed
  moreover have "never_panics (r_count :: maintainer_restrict ordered_restrict rule)"
    unfolding r_count_def
    by (intro never_bind number_ops_safe never_act [OF gives_UNIV]) simp
  ultimately show ?thesis
    unfolding r_maintainers_def by (intro never_bind never_of never_map never_alt)
qed

lemma compare_rules_safe: "never_panics (r_dep_str_restrict vr)" "never_panics (r_attr_str_restrict vr)" "never_panics (r_pkg_restrict vr)"
  unfolding r_dep_str_restrict_def r_attr_str_restrict_def r_pkg_restrict_def by (intro compare_safe; simp)+

lemma expression_panics:
  assumes "r_expression dep sx vr s = Panicked"
  shows "sublist ''upstream'' s"
proof -
  have "never_panics (r_alt (r_dep_str_restrict vr) (r_alt (r_attr_str_restrict vr) (r_alt (r_attr_depset_dep_restrict dep vr)
    (r_alt (r_attr_depset_str_restrict vr) (r_alt (r_attr_orderedset_str sx) (r_alt (r_maintainers vr) (r_pkg_restrict vr)))))))"
    by (intro never_alt compare_rules_safe depset_dep_rule_safe depset_str_rule_safe orderedset_rule_safe maintainers_safe)
  then have "r_attr_optional s = Panicked"
    using assms by (auto simp: r_expression_def r_alt_def [of r_attr_optional] never_panics_def split: outcome.splits)
  then show ?thesis by (rule attr_optional_panics)
qed

lemma query_panics: "parse_pkg_query dep sx vr s = None \<Longrightarrow> sublist ''upstream'' s"
  using panics_query [OF shrinks_expression, of dep sx vr "query_fuel s" 0]
  by (auto simp: parse_pkg_query_def panics_from_def split: outcome.splits
      dest!: expression_panics suffix_imp_sublist intro: sublist_order.order_trans)

end
