(* ===== verification/Restrict_Query_Round.thy ===== *)
theory Restrict_Query_Round
  imports Restrict_Query_Laws
begin

text \<open>
  The texts of query expressions: comparisons of attributes with strings and sets, of the values of
  dependency sets and maintainers with strings, of the number of maintainers, and tests for missing
  attributes, combined by the operators of \<open>restrict/parse/pkg.rs\<close>, with parentheses only where
  the operators ask for them and white space around the operators. They are read as the restrictions
  they stand for.
\<close>

section \<open>Texts\<close>

datatype query_atom =
    Compare string string string
  | Missing string
  | InSet string string "string list"
  | DepsetHas string string string string
  | MaintainerHas string string string string
  | MaintainerCount string string

datatype query =
    QAtom query_atom
  | QNot query
  | QInfix nat query query

definition quoted_text :: "string \<Rightarrow> string" where
  "quoted_text s = [CHR 0x22] @ s @ [CHR 0x22]"

fun atom_text :: "query_atom \<Rightarrow> string" where
  "atom_text (Compare attr opr s) = attr @ '' '' @ opr @ '' '' @ quoted_text s"
| "atom_text (Missing attr) = attr @ '' is none''"
| "atom_text (InSet attr opr vals) = attr @ '' '' @ opr @ '' {'' @ join_with '', '' (map quoted_text vals) @ ''}''"
| "atom_text (DepsetHas attr kind opr s) = attr @ '' '' @ kind @ '' '' @ opr @ '' '' @ quoted_text s"
| "atom_text (MaintainerHas kind attr opr s) = ''maintainers '' @ kind @ '' '' @ attr @ '' '' @ opr @ '' '' @ quoted_text s"
| "atom_text (MaintainerCount opr ds) = ''maintainers '' @ opr @ '' '' @ ds"

text \<open>The text at a place where operators of level \<open>k\<close> and tighter may stand.\<close>

fun query_text :: "string \<Rightarrow> nat \<Rightarrow> query \<Rightarrow> string" where
  "query_text ws k (QAtom a) = atom_text a"
| "query_text ws k (QNot q) = ''!'' @ query_text ws 3 q"
| "query_text ws k (QInfix i p q) =
     (let s = query_text ws i p @ ws @ fst (infix_ops ! i) @ ws @ query_text ws (Suc i) q
      in if k \<le> i then s else ''('' @ s @ '')'')"

section \<open>What they stand for\<close>

definition attr_value :: "string \<Rightarrow> str_restrict \<Rightarrow> base_variant" where
  "attr_value attr r =
    (if attr = ''category'' then BDep (DepCategory r) else if attr = ''package'' then BDep (DepPackage r)
     else if attr = ''eapi'' then BPkg (PkgEapi (EapiId r)) else if attr = ''repo'' then BPkg (PkgRepo r)
     else BPkg (PkgEbuild (if attr = ''ebuild'' then EbuildData r else if attr = ''description'' then EbuildDescription r
        else if attr = ''slot'' then EbuildSlot r else if attr = ''subslot'' then EbuildSubslot r else EbuildLongDescription (Some r))))"

fun compare_value :: "string \<Rightarrow> string \<Rightarrow> str_restrict" where
  "compare_value opr s = (if opr = ''=='' then Var (StrEqual s) else if opr = ''>='' then Var (StrSubstr s)
     else if opr = ''!='' then RNot (Var (StrEqual s)) else if opr = ''=~'' then Var (StrRegex s) else RNot (Var (StrRegex s)))"

definition set_attr_table :: "(string \<times> (string_set_restrict option \<Rightarrow> ebuild_restrict)) list" where
  "set_attr_table = [(''homepage'', EbuildHomepage), (''iuse'', EbuildIuse), (''inherit'', EbuildInherit),
     (''inherited'', EbuildInherited), (''keywords'', EbuildKeywords)]"

definition set_op_table :: "(string \<times> (string list \<Rightarrow> string_set_restrict)) list" where
  "set_op_table = [(''<'', SetProperSubset), (''<='', SetSubset), (''=='', SetEqual), (''>='', SetSuperset),
     (''>'', SetProperSuperset), (''%'', SetDisjoint)]"

definition depset_str_table :: "(string \<times> (str_restrict depset_restrict option \<Rightarrow> ebuild_restrict)) list" where
  "depset_str_table = [(''license'', EbuildLicense), (''properties'', EbuildProperties), (''required_use'', EbuildRequiredUse),
     (''restrict'', EbuildRestrict)]"

definition depset_dep_table :: "(string \<times> (dep_restrict depset_restrict option \<Rightarrow> ebuild_restrict)) list" where
  "depset_dep_table = [(''dependencies'', EbuildDependencies), (''depend'', EbuildDepend), (''bdepend'', EbuildBdepend),
     (''idepend'', EbuildIdepend), (''pdepend'', EbuildPdepend), (''rdepend'', EbuildRdepend)]"

definition maintainer_table :: "(string \<times> (str_restrict \<Rightarrow> maintainer_variant)) list" where
  "maintainer_table = [(''email'', MaintEmail), (''name'', \<lambda>r. MaintName (Some r)), (''description'', \<lambda>r. MaintDescription (Some r)),
     (''type'', MaintType), (''proxied'', MaintProxied)]"

definition ordered_table :: "(string \<times> (maintainer_restrict \<Rightarrow> maintainer_restrict ordered_restrict)) list" where
  "ordered_table = [(''any'', OrdAny), (''all'', OrdAll), (''first'', OrdFirst), (''last'', OrdLast)]"

definition count_table :: "(string \<times> ordering list) list" where
  "count_table = [(''<'', [Less]), (''<='', [Less, Equal]), (''=='', [Equal]), (''!='', [Less, Greater]), (''>='', [Greater, Equal]),
     (''>'', [Greater])]"

fun atom_value :: "string index_set \<Rightarrow> query_atom \<Rightarrow> base_variant" where
  "atom_value sx (Compare attr opr s) = attr_value attr (compare_value opr s)"
| "atom_value sx (Missing attr) = BPkg (PkgEbuild (the (map_of missing_table attr)))"
| "atom_value sx (InSet attr opr vals) =
     BPkg (PkgEbuild (the (map_of set_attr_table attr) (Some (the (map_of set_op_table opr) (is_collect sx vals)))))"
| "atom_value sx (DepsetHas attr kind opr s) = BPkg (PkgEbuild
     (case map_of depset_dep_table attr of
        Some func \<Rightarrow> func (Some (DepsetContains (compare_value opr s)))
      | None \<Rightarrow> the (map_of depset_str_table attr)
          (Some (if kind = ''any'' then DepsetAny (compare_value opr s) else DepsetContains (compare_value opr s)))))"
| "atom_value sx (MaintainerHas kind attr opr s) = BPkg (PkgEbuild (EbuildMaintainers (Some
     (the (map_of ordered_table kind) (Var (the (map_of maintainer_table attr) (compare_value opr s)))))))"
| "atom_value sx (MaintainerCount opr ds) =
     BPkg (PkgEbuild (EbuildMaintainers (Some (OrdCount (the (map_of count_table opr)) (nat (digits_value ds))))))"

fun query_value :: "string index_set \<Rightarrow> query \<Rightarrow> base_restrict" where
  "query_value sx (QAtom a) = Var (atom_value sx a)"
| "query_value sx (QNot q) = RNot (query_value sx q)"
| "query_value sx (QInfix i p q) = snd (infix_ops ! i) (query_value sx p) (query_value sx q)"

text \<open>Exclusive disjunctions that are operands of one another become one over all of their operands, which
  holds where these do not all agree. \<open>query_values\<close> lists what the operands hold, for anything else its value.\<close>

fun query_values :: "(query_atom \<Rightarrow> bool) \<Rightarrow> query \<Rightarrow> bool list" where
  "query_values m (QAtom a) = [m a]"
| "query_values m (QNot q) = [\<not> xor_result (query_values m q)]"
| "query_values m (QInfix i p q) =
    (if i = 1 then query_values m p @ query_values m q
     else if i = 0 then [xor_result (query_values m p) \<or> xor_result (query_values m q)]
     else [xor_result (query_values m p) \<and> xor_result (query_values m q)])"

definition query_holds :: "(query_atom \<Rightarrow> bool) \<Rightarrow> query \<Rightarrow> bool" where
  "query_holds m q = xor_result (query_values m q)"

definition compared_attrs :: "string list" where
  "compared_attrs = [''category'', ''package'', ''ebuild'', ''description'', ''slot'', ''subslot'', ''long_description'', ''eapi'', ''repo'']"

definition compare_ops :: "string list" where
  "compare_ops = [''=='', ''>='', ''!='', ''=~'', ''!~'']"

fun valid_atom :: "(string \<Rightarrow> bool) \<Rightarrow> query_atom \<Rightarrow> bool" where
  "valid_atom vr (Compare attr opr s) \<longleftrightarrow> attr \<in> set compared_attrs \<and> opr \<in> set compare_ops \<and>
     s \<noteq> [] \<and> CHR 0x22 \<notin> set s \<and> (opr = ''=~'' \<or> opr = ''!~'' \<longrightarrow> vr s)"
| "valid_atom vr (Missing attr) \<longleftrightarrow> attr \<in> fst ` set missing_table"
| "valid_atom vr (InSet attr opr vals) \<longleftrightarrow> attr \<in> fst ` set set_attr_table \<and> opr \<in> fst ` set set_op_table \<and>
     list_all (\<lambda>s. s \<noteq> [] \<and> CHR 0x22 \<notin> set s) vals"
| "valid_atom vr (DepsetHas attr kind opr s) \<longleftrightarrow> (attr \<in> fst ` set depset_dep_table \<and> kind = ''contains'' \<or>
     attr \<in> fst ` set depset_str_table \<and> kind \<in> {''any'', ''contains''}) \<and> opr \<in> set compare_ops \<and>
     s \<noteq> [] \<and> CHR 0x22 \<notin> set s \<and> (opr = ''=~'' \<or> opr = ''!~'' \<longrightarrow> vr s)"
| "valid_atom vr (MaintainerHas kind attr opr s) \<longleftrightarrow> kind \<in> fst ` set ordered_table \<and> attr \<in> fst ` set maintainer_table \<and>
     opr \<in> set compare_ops \<and> s \<noteq> [] \<and> CHR 0x22 \<notin> set s \<and> (opr = ''=~'' \<or> opr = ''!~'' \<longrightarrow> vr s)"
| "valid_atom vr (MaintainerCount opr ds) \<longleftrightarrow> opr \<in> fst ` set count_table \<and> ds \<noteq> [] \<and> list_all is_digit ds \<and> digits_value ds < 2 ^ 64"

fun valid_query :: "(string \<Rightarrow> bool) \<Rightarrow> query \<Rightarrow> bool" where
  "valid_query vr (QAtom a) = valid_atom vr a"
| "valid_query vr (QNot q) = valid_query vr q"
| "valid_query vr (QInfix i p q) = (i \<le> 2 \<and> valid_query vr p \<and> valid_query vr q)"

section \<open>Atoms are read\<close>

definition char_in :: "string \<Rightarrow> string \<Rightarrow> bool" where
  "char_in cs s \<longleftrightarrow> s \<noteq> [] \<and> hd s \<in> set cs"

lemma words_simps:
  "p_words (w # ws) s = (if starts_with s w then Some (w, drop (length w) s) else p_words ws s)" "p_words [] s = None"
  by (simp_all add: p_alt_def p_lit_def p_fail_def)

declare p_words.simps [simp del]

lemma is_blank_simps [simp]: "is_blank (CHR '' '')" "\<not> is_blank (CHR ''='')" "\<not> is_blank (CHR ''>'')" "\<not> is_blank (CHR ''!'')"
  "\<not> is_blank (CHR 0x22)" "\<not> is_blank (CHR ''i'')" "\<not> is_blank (CHR ''n'')"
  by (simp_all add: is_blank_def)

lemma p_blanks_eq: "p_blanks s = (if s \<noteq> [] \<and> is_blank (hd s) then Some (takeWhile is_blank s, dropWhile is_blank s) else None)"
  by (cases s) (auto simp: p_blanks_def p_plus_def p_bind_def p_many_def p_return_def p_star_class)

lemma p_ws_eq: "p_ws s = Some ((), dropWhile is_blank s)"
proof (cases "s \<noteq> [] \<and> is_blank (hd s)")
  case True
  have b: "p_blanks s = Some (takeWhile is_blank s, dropWhile is_blank s)" using True by (simp add: p_blanks_eq)
  have "length (dropWhile is_blank s) < length s"
    using True by (cases s) (auto simp: le_imp_less_Suc length_dropWhile_le)
  moreover have "p_star p_blanks (dropWhile is_blank s) = ([], dropWhile is_blank s)"
    by (rule p_star_stop) (use hd_dropWhile [of is_blank s] in \<open>auto simp: p_blanks_eq\<close>)
  ultimately show ?thesis using b by (simp add: p_ws_def p_map_def p_bind_def p_many_def p_return_def p_star.simps [of p_blanks s])
next
  case False
  then have "p_star p_blanks s = ([], s)" by (intro p_star_stop) (simp add: p_blanks_eq)
  moreover have "dropWhile is_blank s = s" using False by (cases s) auto
  ultimately show ?thesis by (simp add: p_ws_def p_map_def p_bind_def p_many_def p_return_def)
qed

lemma quoted_reads:
  assumes "s \<noteq> []" "CHR 0x22 \<notin> set s"
  shows "p_quoted_string (CHR 0x22 # s @ CHR 0x22 # t) = Some (s, t)"
proof -
  have "p_plus (p_class (\<lambda>c. c \<noteq> CHR 0x22)) (s @ CHR 0x22 # t) = Some (s, CHR 0x22 # t)"
    using assms by (cases s) (auto simp: p_plus_def p_bind_def p_many_def p_return_def p_star_class takeWhile_tail dropWhile_append3)
  then show ?thesis
    by (simp add: p_quoted_string_def p_quoted_by_def p_alt_def p_then_def p_before_def p_bind_def p_return_def p_lit_Cons)
qed

lemma string_ops_reads:
  assumes "opr \<in> set compare_ops"
  shows "p_string_ops (CHR '' '' # opr @ CHR '' '' # CHR 0x22 # t) = Some (opr, CHR 0x22 # t)"
  using assms unfolding compare_ops_def
  by (auto simp: p_string_ops_def p_then_def p_before_def p_bind_def p_return_def p_ws_eq words_simps starts_with_def)

lemma string_ops_reads':
  assumes "opr \<in> set compare_ops"
  shows "p_string_ops (opr @ CHR '' '' # CHR 0x22 # t) = Some (opr, CHR 0x22 # t)"
  using assms unfolding compare_ops_def
  by (auto simp: p_string_ops_def p_then_def p_before_def p_bind_def p_return_def p_ws_eq words_simps starts_with_def)

lemma p_compare_reads:
  assumes "p_words attrs (attr @ u) = Some (attr, u)" "u = CHR '' '' # opr @ CHR '' '' # CHR 0x22 # s @ CHR 0x22 # t"
    and "opr \<in> set compare_ops" "s \<noteq> []" "CHR 0x22 \<notin> set s"
  shows "p_compare attrs (attr @ u) = Some ((attr, opr, s), t)"
  using assms(1,2) string_ops_reads [OF assms(3)] quoted_reads [OF assms(4,5)]
  by (simp add: p_compare_def p_bind_def p_map_def p_return_def)

lemma str_restrict_value:
  "opr \<in> set compare_ops \<Longrightarrow> opr = ''=~'' \<or> opr = ''!~'' \<longrightarrow> vr s \<Longrightarrow> query_str_restrict vr opr s = Accept (compare_value opr s)"
  by (auto simp: query_str_restrict_def match_str_def compare_ops_def)

lemma r_compare_reads:
  assumes "p_compare attrs v = Some ((attr, opr, s), t)"
    and "opr \<in> set compare_ops" "opr = ''=~'' \<or> opr = ''!~'' \<longrightarrow> vr s" "map_of (arms (compare_value opr s)) attr = Some x"
  shows "r_compare vr attrs arms v = Parsed x t"
  using assms(1,4) str_restrict_value [where vr = vr and s = s, OF assms(2,3)]
  by (simp add: r_compare_def r_act_def r_bind_def r_of_def match_str_def)

lemma r_compare_words: "p_words attrs s = None \<Longrightarrow> r_compare vr attrs arms s = NoMatch"
  by (simp add: r_compare_def r_act_def r_of_def p_compare_def r_bind_def p_bind_def)

text \<open>Which word of a list is taken from a text that goes on with a space.\<close>

lemma starts_space: "CHR '' '' \<notin> set w \<Longrightarrow> starts_with (a @ CHR '' '' # u) w \<longleftrightarrow> starts_with a w"
  by (auto simp: starts_with_prefix prefix_append prefix_Cons)

lemma words_before:
  "list_all (\<lambda>w. CHR '' '' \<notin> set w) ws \<Longrightarrow> p_words ws (a @ CHR '' '' # u) =
     map_option (\<lambda>w. (w, drop (length w) a @ CHR '' '' # u)) (find (starts_with a) ws)"
proof (induction ws)
  case (Cons w ws)
  then have "starts_with (a @ CHR '' '' # u) w \<longleftrightarrow> starts_with a w" using starts_space by simp
  moreover have "starts_with a w \<Longrightarrow> length w \<le> length a" by (simp add: starts_with_prefix prefix_length_le)
  ultimately show ?case using Cons by (simp add: words_simps)
qed (simp add: words_simps)

definition takes :: "string list \<Rightarrow> string list \<Rightarrow> bool" where
  "takes ws as \<longleftrightarrow> list_all (\<lambda>w. CHR '' '' \<notin> set w) ws \<and> list_all (\<lambda>a. find (starts_with a) ws = Some a) as"

definition refuses :: "string list \<Rightarrow> string list \<Rightarrow> bool" where
  "refuses ws as \<longleftrightarrow> list_all (\<lambda>w. CHR '' '' \<notin> set w) ws \<and> list_all (\<lambda>a. find (starts_with a) ws = None) as"

lemma takesD: "takes ws as \<Longrightarrow> a \<in> set as \<Longrightarrow> p_words ws (a @ CHR '' '' # u) = Some (a, CHR '' '' # u)"
  by (simp add: takes_def list_all_iff [of _ as] words_before)

lemma refusesD: "refuses ws as \<Longrightarrow> a \<in> set as \<Longrightarrow> p_words ws (a @ CHR '' '' # u) = None"
  by (simp add: refuses_def list_all_iff [of _ as] words_before)

abbreviation dep_attrs :: "string list" where
  "dep_attrs \<equiv> [''category'', ''package'']"

abbreviation ebuild_attrs :: "string list" where
  "ebuild_attrs \<equiv> [''ebuild'', ''description'', ''slot'', ''subslot'', ''long_description'']"

abbreviation pkg_attrs :: "string list" where
  "pkg_attrs \<equiv> [''eapi'', ''repo'']"

abbreviation dep6_attrs :: "string list" where
  "dep6_attrs \<equiv> [''dependencies'', ''depend'', ''bdepend'', ''idepend'', ''pdepend'', ''rdepend'']"

abbreviation str4_attrs :: "string list" where
  "str4_attrs \<equiv> [''license'', ''properties'', ''required_use'', ''restrict'']"

abbreviation set5_attrs :: "string list" where
  "set5_attrs \<equiv> [''homepage'', ''iuse'', ''inherited'', ''inherit'', ''keywords'']"

definition later_attrs :: "string list" where
  "later_attrs = dep6_attrs @ str4_attrs @ set5_attrs @ ''maintainers'' # pkg_attrs"

lemma attr_tables:
  "takes dep_attrs dep_attrs" "refuses dep_attrs ebuild_attrs" "takes ebuild_attrs ebuild_attrs" "takes pkg_attrs pkg_attrs"
  "takes optional_attrs (map fst missing_table)"
  by code_simp+

lemma later_tables:
  "refuses dep_attrs later_attrs" "refuses ebuild_attrs later_attrs"
  "takes dep6_attrs dep6_attrs" "refuses dep6_attrs (str4_attrs @ set5_attrs @ ''maintainers'' # pkg_attrs)"
  "takes str4_attrs str4_attrs" "refuses str4_attrs (set5_attrs @ ''maintainers'' # pkg_attrs)"
  "takes set5_attrs (map fst set_attr_table)" "refuses set5_attrs (''maintainers'' # pkg_attrs)"
  "refuses [''maintainers''] pkg_attrs"
  by code_simp+

lemma compared_kinds: "list_all (\<lambda>a. a \<in> set dep_attrs \<or> a \<in> set ebuild_attrs \<or> a \<in> set pkg_attrs) compared_attrs"
  by code_simp

lemma op_attrs_None: "s = [] \<or> hd s \<noteq> CHR ''&'' \<and> hd s \<noteq> CHR ''|'' \<Longrightarrow> p_op_attrs attr s = None"
  by (cases s) (auto simp: p_op_attrs_def p_try_def p_sep1_def p_bind_def)

lemma is_op_None: "u \<noteq> [] \<Longrightarrow> \<not> is_blank (hd u) \<Longrightarrow> hd u \<noteq> CHR ''i'' \<Longrightarrow> p_is_op (CHR '' '' # u) = None"
  by (cases u) (auto simp: p_is_op_def p_then_def p_bind_def p_blanks_eq p_lit_def starts_with_def)

lemma optional_tables:
  "list_all (\<lambda>a. (find (starts_with a) optional_attrs = None \<or> find (starts_with a) optional_attrs = Some a) \<and> a \<noteq> [] \<and>
     hd a \<noteq> CHR ''&'' \<and> hd a \<noteq> CHR ''|'') (compared_attrs @ later_attrs)"
  "list_all (\<lambda>w. CHR '' '' \<notin> set w) optional_attrs"
  by code_simp+

lemma attr_hd: "a \<in> set (compared_attrs @ later_attrs) \<Longrightarrow> a \<noteq> [] \<and> hd a \<noteq> CHR ''&'' \<and> hd a \<noteq> CHR ''|''"
  using optional_tables(1) unfolding list_all_iff by blast

lemma attr_optional_NoMatch:
  assumes "attr \<in> set (compared_attrs @ later_attrs)" "u \<noteq> []" "\<not> is_blank (hd u)" "hd u \<noteq> CHR ''i''"
  shows "r_attr_optional (attr @ CHR '' '' # u) = NoMatch"
proof -
  have "p_op_attrs p_optional_attr (attr @ v) = None" for v
    using attr_hd [OF assms(1)] by (intro op_attrs_None) simp
  moreover have "find (starts_with attr) optional_attrs = None \<or> find (starts_with attr) optional_attrs = Some attr"
    using optional_tables(1) assms(1) unfolding list_all_iff by blast
  then have opt: "p_optional_attr (attr @ CHR '' '' # u) = None \<or> p_optional_attr (attr @ CHR '' '' # u) = Some (attr, CHR '' '' # u)"
    unfolding p_optional_attr_def words_before [OF optional_tables(2)] by (rule disj_forward) simp_all
  have "p_before p_optional_attr (p_then p_is_op p_none) (attr @ CHR '' '' # u) = None"
    using opt is_op_None [OF assms(2-4)] by (auto simp: p_before_def p_then_def p_bind_def)
  ultimately show ?thesis
    by (simp add: r_attr_optional_def r_alt_def r_act_def r_bind_def r_of_def p_before_def [of "p_op_attrs _"] p_bind_def)
qed

text \<open>Which rules an attribute passes.\<close>

definition later_rules :: "(string \<Rightarrow> error + dep_restrict list) \<Rightarrow> string index_set \<Rightarrow> (string \<Rightarrow> bool) \<Rightarrow> base_restrict rule" where
  "later_rules dep sx vr = r_alt (r_attr_depset_dep_restrict dep vr) (r_alt (r_attr_depset_str_restrict vr)
    (r_alt (r_attr_orderedset_str sx) (r_alt (r_maintainers vr) (r_pkg_restrict vr))))"

lemma compare_passes: "refuses attrs as \<Longrightarrow> attr \<in> set as \<Longrightarrow> r_compare vr attrs arms (attr @ CHR '' '' # u) = NoMatch"
  by (rule r_compare_words [OF refusesD])

lemma later_expression:
  assumes "attr \<in> set later_attrs" "u \<noteq> []" "\<not> is_blank (hd u)" "hd u \<noteq> CHR ''i''"
  shows "r_expression dep sx vr (attr @ CHR '' '' # u) = later_rules dep sx vr (attr @ CHR '' '' # u)"
proof -
  have "r_attr_optional (attr @ CHR '' '' # u) = NoMatch" by (rule attr_optional_NoMatch) (use assms in simp_all)
  moreover have "r_dep_str_restrict vr (attr @ CHR '' '' # u) = NoMatch" "r_attr_str_restrict vr (attr @ CHR '' '' # u) = NoMatch"
    unfolding r_dep_str_restrict_def r_attr_str_restrict_def
    by (rule compare_passes [OF later_tables(1) assms(1)], rule compare_passes [OF later_tables(2) assms(1)])
  ultimately show ?thesis by (simp add: r_expression_def later_rules_def r_alt_def)
qed

lemma depset_dep_passes:
  assumes "attr \<in> set (str4_attrs @ set5_attrs @ ''maintainers'' # pkg_attrs)"
  shows "r_attr_depset_dep_restrict dep vr (attr @ CHR '' '' # u) = NoMatch"
proof -
  have "attr \<in> set (compared_attrs @ later_attrs)" using assms by (auto simp: later_attrs_def)
  then have "p_op_attrs p_depset_dep_attr (attr @ CHR '' '' # u) = None"
    using attr_hd [of attr] by (intro op_attrs_None) simp
  then show ?thesis
    using refusesD [OF later_tables(4) assms]
    by (simp add: r_attr_depset_dep_restrict_def p_depset_dep_attr_def r_alt_def r_act_def r_bind_def r_of_def p_bind_def)
qed

lemma depset_str_passes: "attr \<in> set (set5_attrs @ ''maintainers'' # pkg_attrs) \<Longrightarrow> r_attr_depset_str_restrict vr (attr @ CHR '' '' # u) = NoMatch"
  using refusesD [OF later_tables(6)] by (simp add: r_attr_depset_str_restrict_def r_act_def r_bind_def r_of_def p_bind_def)

lemma orderedset_passes: "attr \<in> set (''maintainers'' # pkg_attrs) \<Longrightarrow> r_attr_orderedset_str sx (attr @ CHR '' '' # u) = NoMatch"
  using refusesD [OF later_tables(8)] by (simp add: r_attr_orderedset_str_def r_act_def r_bind_def r_of_def p_bind_def)

lemma maintainers_passes: "attr \<in> set pkg_attrs \<Longrightarrow> r_maintainers vr (attr @ CHR '' '' # u) = NoMatch"
  using refusesD [OF later_tables(9), of attr u]
  by (simp add: r_maintainers_def r_bind_def r_of_def p_lit_def words_simps split: if_splits)

lemma compare_op_hd: "opr \<in> set compare_ops \<Longrightarrow> opr @ u \<noteq> [] \<and> \<not> is_blank (hd (opr @ u)) \<and> hd (opr @ u) \<noteq> CHR ''i''"
  by (auto simp: compare_ops_def)

lemma compare_reads:
  assumes a: "attr \<in> set compared_attrs" and opr: "opr \<in> set compare_ops"
    and s: "s \<noteq> []" "CHR 0x22 \<notin> set s" "opr = ''=~'' \<or> opr = ''!~'' \<longrightarrow> vr s"
  shows "r_expression dep sx vr (attr @ CHR '' '' # opr @ CHR '' '' # quoted_text s @ t) =
    Parsed (Var (attr_value attr (compare_value opr s))) t"
proof -
  let ?u = "CHR '' '' # opr @ CHR '' '' # quoted_text s @ t"
  have reads: "r_compare vr attrs arms (attr @ ?u) = Parsed x t"
    if "takes attrs as" "attr \<in> set as" "map_of (arms (compare_value opr s)) attr = Some x" for attrs as and arms :: "str_restrict \<Rightarrow> (string \<times> 'b) list" and x
  proof (rule r_compare_reads [OF _ opr])
    have "p_words attrs (attr @ ?u) = Some (attr, ?u)" by (rule takesD [OF that(1,2)])
    then show "p_compare attrs (attr @ ?u) = Some ((attr, opr, s), t)"
      by (rule p_compare_reads) (use opr s in \<open>simp_all add: quoted_text_def\<close>)
  qed (use s(3) that(3) in simp_all)
  have opt: "r_attr_optional (attr @ ?u) = NoMatch"
    by (rule attr_optional_NoMatch) (use a compare_op_hd [OF opr] in simp_all)
  consider (dep) "attr \<in> set dep_attrs" | (ebuild) "attr \<in> set ebuild_attrs" | (pkg) "attr \<in> set pkg_attrs"
    using a compared_kinds unfolding list_all_iff by blast
  then show ?thesis
  proof cases
    case dep
    have "r_dep_str_restrict vr (attr @ ?u) = Parsed (Var (attr_value attr (compare_value opr s))) t"
      unfolding r_dep_str_restrict_def
      by (rule reads [OF attr_tables(1) dep]) (use dep in \<open>auto simp: attr_value_def simp del: compare_value.simps\<close>)
    then show ?thesis using opt by (simp add: r_expression_def r_alt_def)
  next
    case ebuild
    have "r_dep_str_restrict vr (attr @ ?u) = NoMatch"
      unfolding r_dep_str_restrict_def by (rule compare_passes [OF attr_tables(2) ebuild])
    moreover have "r_attr_str_restrict vr (attr @ ?u) = Parsed (Var (attr_value attr (compare_value opr s))) t"
      unfolding r_attr_str_restrict_def
      by (rule reads [OF attr_tables(3) ebuild]) (use ebuild in \<open>auto simp: attr_value_def simp del: compare_value.simps\<close>)
    ultimately show ?thesis using opt by (simp add: r_expression_def r_alt_def)
  next
    case pkg
    have in_: "attr \<in> set later_attrs" "attr \<in> set (str4_attrs @ set5_attrs @ ''maintainers'' # pkg_attrs)"
        "attr \<in> set (set5_attrs @ ''maintainers'' # pkg_attrs)" "attr \<in> set (''maintainers'' # pkg_attrs)"
      using pkg by (auto simp: later_attrs_def)
    have "r_pkg_restrict vr (attr @ ?u) = Parsed (Var (attr_value attr (compare_value opr s))) t"
      unfolding r_pkg_restrict_def
      by (rule reads [OF attr_tables(4) pkg]) (use pkg in \<open>auto simp: attr_value_def simp del: compare_value.simps\<close>)
    then have "later_rules dep sx vr (attr @ ?u) = Parsed (Var (attr_value attr (compare_value opr s))) t"
      by (simp add: later_rules_def r_alt_def depset_dep_passes [OF in_(2)] depset_str_passes [OF in_(3)] orderedset_passes [OF in_(4)]
          maintainers_passes [OF pkg])
    moreover have "r_expression dep sx vr (attr @ ?u) = later_rules dep sx vr (attr @ ?u)"
      by (rule later_expression [OF in_(1)]) (use compare_op_hd [OF opr] in simp_all)
    ultimately show ?thesis by simp
  qed
qed

lemma missing_reads:
  assumes a: "attr \<in> fst ` set missing_table"
  shows "r_expression dep sx vr (attr @ '' is none'' @ t) = Parsed (of_ebuild (the (map_of missing_table attr))) t"
proof -
  obtain r where r: "map_of missing_table attr = Some r"
    using a by (metis map_of_eq_None_iff option.exhaust)
  have "p_then p_is_op p_none ('' is none'' @ t) = Some (''none'', t)"
    by (simp add: p_then_def p_bind_def p_map_def p_return_def p_is_op_def p_blanks_eq p_lit_def starts_with_def p_none_def words_simps)
  then have "p_before p_optional_attr (p_then p_is_op p_none) (attr @ '' is none'' @ t) = Some (attr, t)"
    using takesD [OF attr_tables(5), of attr "''is none'' @ t"] a
    by (simp add: p_optional_attr_def p_before_def p_bind_def p_return_def)
  then show ?thesis using r
    by (simp add: r_expression_def r_alt_def r_attr_optional_def r_act_def r_bind_def r_of_def act_map_def missing_restrict_def match_str_def)
qed

abbreviation strip :: "string \<Rightarrow> string" where
  "strip \<equiv> dropWhile is_blank"

text \<open>Sets.\<close>

lemma set_op_reads:
  assumes "opr \<in> fst ` set set_op_table"
  shows "p_set_ops (CHR '' '' # opr @ CHR '' '' # CHR ''{'' # t) = Some (opr, CHR ''{'' # t)"
proof -
  have "opr \<in> {''<'', ''<='', ''=='', ''>='', ''>'', ''%''}" using assms by (simp add: set_op_table_def)
  moreover have "\<not> is_blank (CHR ''<'')" "\<not> is_blank (CHR ''%'')" "\<not> is_blank (CHR ''{'')" by (simp_all add: is_blank_def)
  ultimately show ?thesis
    by (auto simp: p_set_ops_def p_then_def p_before_def p_bind_def p_return_def p_ws_eq p_alt_def p_slice_def p_opt_def p_lit_def
        starts_with_def words_simps)
qed

lemma quoted_text_reads: "s \<noteq> [] \<Longrightarrow> CHR 0x22 \<notin> set s \<Longrightarrow> p_quoted_string (quoted_text s @ t) = Some (s, t)"
  using quoted_reads by (simp add: quoted_text_def)

lemma quoted_star_reads:
  "list_all (\<lambda>s. s \<noteq> [] \<and> CHR 0x22 \<notin> set s) vals \<Longrightarrow>
   p_star (p_then (p_then p_ws (p_then (p_lit '','') p_ws)) p_quoted_string) (concat (map (\<lambda>s. '', '' @ quoted_text s) vals) @ CHR ''}'' # t) =
     (vals, CHR ''}'' # t)"
proof (induction vals)
  case Nil
  have "\<not> is_blank (CHR ''}'')" by (simp add: is_blank_def)
  then show ?case by (simp add: p_star.simps p_then_def p_bind_def p_ws_eq p_lit_Cons)
next
  case (Cons s vals)
  have b: "\<not> is_blank (CHR '','')" "\<not> is_blank (CHR 0x22)" by (simp_all add: is_blank_def)
  let ?r = "concat (map (\<lambda>s. '', '' @ quoted_text s) vals) @ CHR ''}'' # t"
  have "p_then (p_then p_ws (p_then (p_lit '','') p_ws)) p_quoted_string ('', '' @ quoted_text s @ ?r) = Some (s, ?r)"
    using Cons.prems quoted_text_reads [of s ?r] b
    by (simp add: p_then_def p_bind_def p_ws_eq p_lit_Cons quoted_text_def)
  then show ?case using Cons by (simp add: p_star.simps [of _ "CHR '','' # u" for u])
qed

lemma quoted_set_reads:
  assumes "list_all (\<lambda>s. s \<noteq> [] \<and> CHR 0x22 \<notin> set s) vals"
  shows "p_quoted_string_set (CHR ''{'' # join_with '', '' (map quoted_text vals) @ CHR ''}'' # t) = Some (vals, strip t)"
proof -
  let ?sep = "p_then p_ws (p_then (p_lit '','') p_ws)"
  have "p_sep0 p_quoted_string ?sep (join_with '', '' (map quoted_text vals) @ CHR ''}'' # t) = Some (vals, CHR ''}'' # t)"
  proof (cases vals)
    case Nil
    then show ?thesis
      by (simp add: p_sep0_def p_sep1_def p_alt_def p_bind_def p_return_def p_quoted_string_def p_quoted_by_def p_then_def p_lit_Cons)
  next
    case (Cons s ss)
    have j: "join_with '', '' (map quoted_text vals) = quoted_text s @ concat (map (\<lambda>s. '', '' @ quoted_text s) ss)"
      using concat_sep_join [of vals quoted_text "'', ''"] Cons by simp
    show ?thesis
      using assms quoted_star_reads [of ss t] quoted_text_reads [of s] unfolding j
      by (simp add: Cons p_sep0_def p_sep1_def p_alt_def p_bind_def p_return_def p_many_def)
  qed
  moreover have "\<not> is_blank (CHR ''{'')" by (simp add: is_blank_def)
  ultimately show ?thesis
    by (simp add: p_quoted_string_set_def p_then_def [of p_ws] p_then_def [of "p_lit _"] p_before_def p_bind_def p_return_def p_ws_eq p_lit_Cons)
qed

lemma set_op_hd: "opr \<in> fst ` set set_op_table \<Longrightarrow> opr @ u \<noteq> [] \<and> \<not> is_blank (hd (opr @ u)) \<and> hd (opr @ u) \<noteq> CHR ''i''"
  by (auto simp: set_op_table_def is_blank_def)

lemma in_set_reads:
  assumes "valid_atom vr (InSet attr opr vals)"
  shows "r_expression dep sx vr (atom_text (InSet attr opr vals) @ t) = Parsed (Var (atom_value sx (InSet attr opr vals))) (strip t)"
proof -
  have v: "attr \<in> fst ` set set_attr_table" "opr \<in> fst ` set set_op_table" "list_all (\<lambda>s. s \<noteq> [] \<and> CHR 0x22 \<notin> set s) vals"
    using assms by simp_all
  let ?u = "opr @ CHR '' '' # CHR ''{'' # join_with '', '' (map quoted_text vals) @ CHR ''}'' # t"
  have in_: "attr \<in> set later_attrs" "attr \<in> set (str4_attrs @ set5_attrs @ ''maintainers'' # pkg_attrs)"
      "attr \<in> set (set5_attrs @ ''maintainers'' # pkg_attrs)"
    using v(1) by (auto simp: later_attrs_def set_attr_table_def)
  have w: "p_words set5_attrs (attr @ CHR '' '' # ?u) = Some (attr, CHR '' '' # ?u)"
    by (rule takesD [OF later_tables(7)]) (use v(1) in simp)
  have "match_str [(''homepage'', EbuildHomepage), (''iuse'', EbuildIuse), (''inherit'', EbuildInherit),
          (''inherited'', EbuildInherited), (''keywords'', EbuildKeywords)] attr = Accept (the (map_of set_attr_table attr))"
    using v(1) by (auto simp: set_attr_table_def match_str_def)
  moreover have "orderedset_restrict sx opr vals = Accept (the (map_of set_op_table opr) (is_collect sx vals))"
    using v(2) by (auto simp: set_op_table_def orderedset_restrict_def match_str_def act_map_def)
  ultimately have "r_attr_orderedset_str sx (attr @ CHR '' '' # ?u) = Parsed (Var (atom_value sx (InSet attr opr vals))) (strip t)"
    using w set_op_reads [OF v(2)] quoted_set_reads [OF v(3)]
    by (simp add: r_attr_orderedset_str_def r_act_def r_bind_def r_of_def p_bind_def p_map_def p_return_def act_map_def)
  then have "later_rules dep sx vr (attr @ CHR '' '' # ?u) = Parsed (Var (atom_value sx (InSet attr opr vals))) (strip t)"
    by (simp add: later_rules_def r_alt_def depset_dep_passes [OF in_(2)] depset_str_passes [OF in_(3)])
  moreover have "r_expression dep sx vr (attr @ CHR '' '' # ?u) = later_rules dep sx vr (attr @ CHR '' '' # ?u)"
    by (rule later_expression [OF in_(1)]) (use set_op_hd [OF v(2)] in simp_all)
  ultimately show ?thesis by simp
qed

text \<open>Dependency sets.\<close>

lemma contains_reads:
  assumes "kinds (kind @ CHR '' '' # opr @ CHR '' '' # quoted_text s @ t) = Some (kind, CHR '' '' # opr @ CHR '' '' # quoted_text s @ t)"
    and "kind \<noteq> []" "\<not> is_blank (hd kind)" "opr \<in> set compare_ops" "s \<noteq> []" "CHR 0x22 \<notin> set s"
  shows "p_contains_string kinds (CHR '' '' # kind @ CHR '' '' # opr @ CHR '' '' # quoted_text s @ t) = Some ((kind, opr, s), t)"
proof -
  have "strip (kind @ v) = kind @ v" for v using assms(2,3) by (cases kind) simp_all
  moreover have "strip (opr @ v) = opr @ v" for v using compare_op_hd [OF assms(4), of v] by (cases "opr @ v") simp_all
  ultimately show ?thesis
    using assms(1) string_ops_reads' [OF assms(4), of "s @ CHR 0x22 # t"] quoted_reads [OF assms(5,6), of t]
    by (simp add: p_contains_string_def p_then_def p_bind_def p_map_def p_return_def p_blanks_eq quoted_text_def)
qed

lemma kind_hd: "kind \<in> {''any'', ''contains''} \<Longrightarrow> kind @ u \<noteq> [] \<and> \<not> is_blank (hd (kind @ u)) \<and> hd (kind @ u) \<noteq> CHR ''i''"
  by (auto simp: is_blank_def)

lemma depset_has_reads:
  assumes "valid_atom vr (DepsetHas attr kind opr s)"
  shows "r_expression dep sx vr (atom_text (DepsetHas attr kind opr s) @ t) = Parsed (Var (atom_value sx (DepsetHas attr kind opr s))) t"
proof -
  have v: "opr \<in> set compare_ops" "s \<noteq> []" "CHR 0x22 \<notin> set s" "opr = ''=~'' \<or> opr = ''!~'' \<longrightarrow> vr s" "kind \<in> {''any'', ''contains''}"
    using assms by auto
  note str = str_restrict_value [where vr = vr and s = s, OF v(1,4)]
  let ?u = "kind @ CHR '' '' # opr @ CHR '' '' # quoted_text s @ t"
  have kind: "kind \<noteq> []" "\<not> is_blank (hd kind)" using v(5) by (auto simp: is_blank_def)
  consider (dep) "attr \<in> fst ` set depset_dep_table" "kind = ''contains''" | (str) "attr \<in> fst ` set depset_str_table"
    using assms by auto
  then have "attr \<in> set later_attrs \<and>
    later_rules dep sx vr (attr @ CHR '' '' # ?u) = Parsed (Var (atom_value sx (DepsetHas attr kind opr s))) t"
  proof cases
    case dep
    have "attr \<in> set dep6_attrs" using dep(1) by (auto simp: depset_dep_table_def)
    then have w: "p_depset_dep_attr (attr @ CHR '' '' # ?u) = Some (attr, CHR '' '' # ?u)"
      unfolding p_depset_dep_attr_def by (rule takesD [OF later_tables(3)])
    have "p_any_string (CHR '' '' # ?u) = None"
      using dep(2) by (simp add: p_any_string_def p_then_def p_bind_def p_blanks_eq p_lit_def starts_with_def is_blank_def)
    moreover have "p_contains_string (p_lit ''contains'') (CHR '' '' # ?u) = Some ((kind, opr, s), t)"
      by (rule contains_reads [OF _ kind v(1-3)]) (use dep(2) in \<open>simp add: p_lit_Some\<close>)
    moreover have "depset_dep_contains attr (compare_value opr s) = Accept (the (map_of depset_dep_table attr) (Some (DepsetContains (compare_value opr s))))"
        "map_of depset_dep_table attr \<noteq> None"
      using dep(1) by (auto simp: depset_dep_table_def depset_dep_contains_def depset_of_attr_def match_str_def simp del: compare_value.simps)
    ultimately have "r_attr_depset_dep_restrict dep vr (attr @ CHR '' '' # ?u) = Parsed (Var (atom_value sx (DepsetHas attr kind opr s))) t"
      using w str
      by (auto simp: r_attr_depset_dep_restrict_def r_alt_def r_act_def r_bind_def r_of_def p_bind_def p_map_def p_return_def act_map_def
          simp del: compare_value.simps)
    moreover have "attr \<in> set later_attrs" unfolding later_attrs_def using \<open>attr \<in> set dep6_attrs\<close> by (simp only: set_append Un_iff simp_thms)
    ultimately show ?thesis by (simp add: later_rules_def r_alt_def)
  next
    case str
    have a: "attr \<in> set str4_attrs" "map_of depset_dep_table attr = None" using str by (auto simp: depset_str_table_def depset_dep_table_def)
    then have w: "p_words str4_attrs (attr @ CHR '' '' # ?u) = Some (attr, CHR '' '' # ?u)"
      by (intro takesD [OF later_tables(5)])
    have "p_contains_string (p_words [''any'', ''contains'']) (CHR '' '' # ?u) = Some ((kind, opr, s), t)"
      by (rule contains_reads [OF _ kind v(1-3)]) (use v(5) in \<open>auto simp: words_simps starts_with_def\<close>)
    moreover have "depset_str_restrict kind attr (compare_value opr s) = Accept (the (map_of depset_str_table attr)
         (Some (if kind = ''any'' then DepsetAny (compare_value opr s) else DepsetContains (compare_value opr s))))"
      using str v(5) by (auto simp: depset_str_table_def depset_str_restrict_def match_str_def simp del: compare_value.simps)
    ultimately have "r_attr_depset_str_restrict vr (attr @ CHR '' '' # ?u) = Parsed (Var (atom_value sx (DepsetHas attr kind opr s))) t"
      using w a(2) str_restrict_value [where vr = vr and s = s, OF v(1,4)]
      by (simp add: r_attr_depset_str_restrict_def r_act_def r_bind_def r_of_def p_bind_def p_map_def p_return_def act_map_def
          del: compare_value.simps)
    moreover have "attr \<in> set (str4_attrs @ set5_attrs @ ''maintainers'' # pkg_attrs)"
      using a(1) by (simp only: set_append Un_iff simp_thms)
    moreover have "attr \<in> set later_attrs" unfolding later_attrs_def using a(1) by (simp only: set_append Un_iff simp_thms)
    ultimately show ?thesis using depset_dep_passes by (simp add: later_rules_def r_alt_def del: atom_value.simps)
  qed
  moreover have "r_expression dep sx vr (attr @ CHR '' '' # ?u) = later_rules dep sx vr (attr @ CHR '' '' # ?u)"
    by (rule later_expression) (use calculation kind_hd [OF v(5)] in simp_all)
  ultimately show ?thesis by simp
qed

text \<open>Maintainers.\<close>

lemma maintainer_attr_reads:
  assumes "attr \<in> fst ` set maintainer_table" "opr \<in> set compare_ops" "s \<noteq> []" "CHR 0x22 \<notin> set s" "opr = ''=~'' \<or> opr = ''!~'' \<longrightarrow> vr s"
  shows "r_maintainer_exprs vr (attr @ CHR '' '' # opr @ CHR '' '' # quoted_text s @ t) =
    Parsed (Var (the (map_of maintainer_table attr) (compare_value opr s))) t"
proof -
  let ?u = "CHR '' '' # opr @ CHR '' '' # quoted_text s @ t"
  have tables: "takes [''email'', ''name'', ''description'', ''type'', ''proxied''] (map fst maintainer_table)"
      "list_all (\<lambda>a. find (starts_with a) [''name'', ''description''] = None \<or> find (starts_with a) [''name'', ''description''] = Some a) (map fst maintainer_table)"
      "list_all (\<lambda>w. CHR '' '' \<notin> set w) [''name'', ''description'']"
    by code_simp+
  have "find (starts_with attr) [''name'', ''description''] = None \<or> find (starts_with attr) [''name'', ''description''] = Some attr"
    using tables(2) assms(1) unfolding list_all_iff by auto
  then have "p_words [''name'', ''description''] (attr @ ?u) = None \<or> p_words [''name'', ''description''] (attr @ ?u) = Some (attr, ?u)"
    unfolding words_before [OF tables(3)] by (rule disj_forward) simp_all
  moreover have "p_is_op ?u = None" by (rule is_op_None) (use compare_op_hd [OF assms(2)] in simp_all)
  ultimately have opt: "r_maintainer_attr_optional (attr @ ?u) = NoMatch"
    by (auto simp: r_maintainer_attr_optional_def r_act_def r_bind_def r_of_def p_before_def p_then_def p_bind_def)
  have "p_words [''email'', ''name'', ''description'', ''type'', ''proxied''] (attr @ ?u) = Some (attr, ?u)"
    by (rule takesD [OF tables(1)]) (use assms(1) in simp)
  then have "p_compare [''email'', ''name'', ''description'', ''type'', ''proxied''] (attr @ ?u) = Some ((attr, opr, s), t)"
    by (rule p_compare_reads) (use assms in \<open>simp_all add: quoted_text_def\<close>)
  then have "r_maintainer_restrict vr (attr @ ?u) = Parsed (Var (the (map_of maintainer_table attr) (compare_value opr s))) t"
    unfolding r_maintainer_restrict_def
    by (rule r_compare_reads) (use assms in \<open>auto simp: maintainer_table_def simp del: compare_value.simps\<close>)
  then show ?thesis using opt by (simp add: r_maintainer_exprs_def r_alt_def)
qed

lemma maintainers_expression:
  assumes "u \<noteq> []" "\<not> is_blank (hd u)" "hd u \<noteq> CHR ''i''" "r_maintainers vr (''maintainers '' @ u) = Parsed x r"
  shows "r_expression dep sx vr (''maintainers '' @ u) = Parsed x r"
proof -
  have "r_expression dep sx vr (''maintainers'' @ CHR '' '' # u) = later_rules dep sx vr (''maintainers'' @ CHR '' '' # u)"
    by (rule later_expression) (use assms in \<open>simp_all add: later_attrs_def\<close>)
  moreover have "later_rules dep sx vr (''maintainers'' @ CHR '' '' # u) = r_maintainers vr (''maintainers'' @ CHR '' '' # u)"
    unfolding later_rules_def r_alt_def using assms(4)
    by (simp add: depset_dep_passes [of "''maintainers''", simplified] depset_str_passes [of "''maintainers''", simplified]
        orderedset_passes [of "''maintainers''", simplified])
  ultimately show ?thesis using assms(4) by simp
qed

lemma maintainer_has_reads:
  assumes "valid_atom vr (MaintainerHas kind attr opr s)"
  shows "r_expression dep sx vr (atom_text (MaintainerHas kind attr opr s) @ t) = Parsed (Var (atom_value sx (MaintainerHas kind attr opr s))) t"
proof -
  have v: "kind \<in> fst ` set ordered_table" "attr \<in> fst ` set maintainer_table" "opr \<in> set compare_ops" "s \<noteq> []" "CHR 0x22 \<notin> set s"
      "opr = ''=~'' \<or> opr = ''!~'' \<longrightarrow> vr s"
    using assms by auto
  let ?v = "attr @ CHR '' '' # opr @ CHR '' '' # quoted_text s @ t"
  let ?u = "kind @ CHR '' '' # ?v"
  have kind: "kind \<in> {''any'', ''all'', ''first'', ''last''}" using v(1) by (auto simp: ordered_table_def)
  have hd: "kind \<noteq> []" "\<not> is_blank (hd kind)" "hd kind \<noteq> CHR ''i''" using kind by (auto simp: is_blank_def)
  then have strip_u: "strip ?u = ?u" by (cases kind) simp_all
  have "attr \<noteq> []" "\<not> is_blank (hd attr)" using v(2) by (auto simp: maintainer_table_def is_blank_def)
  then have strip_v: "strip ?v = ?v" by (cases attr) simp_all
  have "takes [''any'', ''all'', ''first'', ''last''] [''any'', ''all'', ''first'', ''last'']" by code_simp
  then have "p_words [''any'', ''all'', ''first'', ''last''] ?u = Some (kind, CHR '' '' # ?v)"
    using kind by (intro takesD) auto
  then have "p_then p_blanks (p_before (p_words [''any'', ''all'', ''first'', ''last'']) p_blanks) (CHR '' '' # ?u) = Some (kind, ?v)"
    using strip_u strip_v by (simp add: p_then_def p_before_def p_bind_def p_return_def p_blanks_eq)
  moreover have "match_str [(''any'', OrdAny r), (''all'', OrdAll r), (''first'', OrdFirst r), (''last'', OrdLast r)] kind =
      Accept (the (map_of ordered_table kind) r)" for r
    using kind by (auto simp: ordered_table_def match_str_def)
  ultimately have "r_maintainers vr (''maintainers '' @ ?u) = Parsed (Var (atom_value sx (MaintainerHas kind attr opr s))) t"
    using maintainer_attr_reads [where vr = vr and s = s, OF v(2-6), of t]
    by (simp add: r_maintainers_def r_ordered_ops_def r_alt_def r_map_def r_bind_def r_of_def p_lit_def starts_with_def del: compare_value.simps)
  then have "r_expression dep sx vr (''maintainers '' @ ?u) = Parsed (Var (atom_value sx (MaintainerHas kind attr opr s))) t"
    by (intro maintainers_expression) (use hd in simp_all)
  then show ?thesis by simp
qed

lemma number_op_reads:
  assumes "opr \<in> fst ` set count_table" "is_digit d"
  shows "p_number_op (CHR '' '' # opr @ CHR '' '' # d # t) = Some (opr, d # t)"
proof -
  have "opr \<in> {''<'', ''<='', ''=='', ''!='', ''>='', ''>''}" using assms by (simp add: count_table_def)
  moreover have "\<not> is_blank (CHR ''<'')" "\<not> is_blank d" using assms(2) by (auto simp: is_blank_def is_digit_def)
  ultimately show ?thesis
    by (auto simp: p_number_op_def p_then_def p_before_def p_bind_def p_return_def p_ws_eq p_alt_def p_slice_def p_opt_def p_lit_def starts_with_def)
qed

definition no_digit :: "string \<Rightarrow> bool" where
  "no_digit t \<longleftrightarrow> t = [] \<or> \<not> is_digit (hd t)"

lemma digits_read: "ds \<noteq> [] \<Longrightarrow> list_all is_digit ds \<Longrightarrow> no_digit t \<Longrightarrow> p_plus (p_class is_digit) (ds @ t) = Some (ds, t)"
  by (cases ds; cases t)
    (auto simp: p_plus_def p_bind_def p_many_def p_return_def p_star_class no_digit_def takeWhile_tail dropWhile_append3 list_all_iff
      takeWhile_eq_all_conv [THEN iffD2] dropWhile_eq_Nil_conv [THEN iffD2])

lemma maintainer_count_reads:
  assumes "valid_atom vr (MaintainerCount opr ds)" "no_digit t"
  shows "r_expression dep sx vr (atom_text (MaintainerCount opr ds) @ t) = Parsed (Var (atom_value sx (MaintainerCount opr ds))) t"
proof -
  have v: "opr \<in> fst ` set count_table" "ds \<noteq> []" "list_all is_digit ds" "digits_value ds < 2 ^ 64" using assms(1) by simp_all
  obtain d ds' where ds: "ds = d # ds'" "is_digit d" using v(2,3) by (cases ds) auto
  have opr: "opr \<in> {''<'', ''<='', ''=='', ''!='', ''>='', ''>''}" using v(1) by (simp add: count_table_def)
  let ?u = "opr @ CHR '' '' # ds @ t"
  have hd: "?u \<noteq> []" "\<not> is_blank (hd ?u)" "hd ?u \<noteq> CHR ''i''" using opr by (auto simp: is_blank_def)
  have "p_words [''any'', ''all'', ''first'', ''last''] ?u = None" using opr by (auto simp: words_simps starts_with_def)
  moreover have "p_blanks (CHR '' '' # ?u) = Some ('' '', ?u)" using hd by (cases ?u) (simp_all add: p_blanks_eq)
  ultimately have ordered: "r_ordered_ops e (CHR '' '' # ?u) = NoMatch" for e :: "maintainer_restrict rule"
    by (simp add: r_ordered_ops_def r_bind_def r_of_def p_then_def p_before_def p_bind_def)
  have "number_cmps opr = Accept (the (map_of count_table opr))"
    using opr by (auto simp: count_table_def number_cmps_def match_str_def)
  then have "r_number_ops (CHR '' '' # ?u) = Parsed (the (map_of count_table opr)) (ds @ t)"
    using number_op_reads [OF v(1) ds(2)] by (simp add: ds r_number_ops_def r_act_def r_bind_def r_of_def)
  then have "r_count (CHR '' '' # ?u) = Parsed (OrdCount (the (map_of count_table opr)) (nat (digits_value ds)) :: maintainer_restrict ordered_restrict) t"
    using digits_read [OF v(2,3) assms(2)] v(4) by (simp add: r_count_def r_act_def r_bind_def r_of_def)
  then have "r_maintainers vr (''maintainers '' @ ?u) = Parsed (Var (atom_value sx (MaintainerCount opr ds))) t"
    using ordered by (simp add: r_maintainers_def r_alt_def r_map_def r_bind_def r_of_def p_lit_def starts_with_def)
  then have "r_expression dep sx vr (''maintainers '' @ ?u) = Parsed (Var (atom_value sx (MaintainerCount opr ds))) t"
    by (intro maintainers_expression) (use hd in simp_all)
  then show ?thesis by simp
qed

lemma atom_reads:
  assumes "valid_atom vr a" "no_digit t"
  shows "\<exists>t'. (t' = t \<or> t' = strip t) \<and> r_expression dep sx vr (atom_text a @ t) = Parsed (Var (atom_value sx a)) t'"
proof (cases a)
  case (Compare attr opr s)
  then show ?thesis using compare_reads [of attr opr s vr dep sx t] assms(1)
    by (intro exI [of _ t]) (simp del: compare_value.simps)
next
  case (Missing attr)
  then show ?thesis using missing_reads [of attr dep sx vr t] assms(1) by (intro exI [of _ t]) simp
next
  case (InSet attr opr vals)
  then show ?thesis using in_set_reads [OF assms(1) [unfolded InSet]] by blast
next
  case (DepsetHas attr kind opr s)
  then show ?thesis using depset_has_reads [OF assms(1) [unfolded DepsetHas]] by blast
next
  case (MaintainerHas kind attr opr s)
  then show ?thesis using maintainer_has_reads [OF assms(1) [unfolded MaintainerHas]] by blast
next
  case (MaintainerCount opr ds)
  then show ?thesis using maintainer_count_reads [OF assms(1) [unfolded MaintainerCount] assms(2)] by blast
qed

section \<open>Expressions are read\<close>

abbreviation op_name :: "nat \<Rightarrow> string" where
  "op_name i \<equiv> fst (infix_ops ! i)"

lemma strip_strip [simp]: "strip (strip t) = strip t"
  by (induction t) simp_all

lemma strip_blanks: "list_all is_blank ws \<Longrightarrow> strip (ws @ t) = strip t"
  by (induction ws) simp_all

lemma p_infix_eq: "p_infix w t = (if starts_with (strip t) w then Some ((), strip (drop (length w) (strip t))) else None)"
  by (simp add: p_infix_def p_then_def p_bind_def p_ws_eq p_lit_def)

definition stops :: "nat \<Rightarrow> string \<Rightarrow> bool" where
  "stops k t \<longleftrightarrow> (\<forall>i. k \<le> i \<and> i \<le> 2 \<longrightarrow> p_infix (op_name i) t = None)"

lemma stops_strip [simp]: "stops k (strip t) = stops k t"
  by (simp add: stops_def p_infix_eq)

lemma stops_mono: "stops k t \<Longrightarrow> k \<le> l \<Longrightarrow> stops l t"
  by (simp add: stops_def)

lemma stops_high: "2 < k \<Longrightarrow> stops k t"
  by (auto simp: stops_def)

lemma infix_le2: "i \<le> 2 \<Longrightarrow> i = 0 \<or> i = Suc 0 \<or> i = Suc (Suc 0)"
  by linarith

lemma stops_end:
  assumes "strip t = [] \<or> hd (strip t) = CHR '')''"
  shows "stops k t"
proof -
  have "\<not> starts_with u (op_name i)" if "i \<le> 2" "u = [] \<or> hd u = CHR '')''" for i u
    using that(2) infix_le2 [OF that(1)] by (cases u) (auto simp: infix_ops_def starts_with_def)
  with assms show ?thesis by (simp add: stops_def p_infix_eq)
qed

lemma stops_operators:
  assumes "shrinks e" "stops k t"
  shows "full_operators e k x t = Parsed x t"
proof -
  have "r_operator (full_query e) k x i t = NoMatch" if "i \<le> 2" for i
    using assms(2) that by (auto simp: r_operator_def stops_def r_bind_def r_of_def)
  then have "next_operator (full_query e) k x t = NoMatch" by (simp add: next_operator_def r_alt_def)
  then show ?thesis by (simp add: full_operators_eq [OF assms(1)])
qed

lemma infix_differs: "i \<le> 2 \<Longrightarrow> j \<le> 2 \<Longrightarrow> starts_with (op_name i @ t) (op_name j) \<longleftrightarrow> j = i"
  by (auto simp: infix_ops_def starts_with_def le_Suc_eq numeral_2_eq_2)

lemma infix_not_blank: "i \<le> 2 \<Longrightarrow> strip (op_name i @ t) = op_name i @ t"
  by (auto simp: infix_ops_def le_Suc_eq numeral_2_eq_2 is_blank_def)

text \<open>An operator and its right operand, after white space or none.\<close>

lemma operator_reads:
  assumes e: "shrinks e" and i: "i \<le> 2" "k \<le> i" and ws: "list_all is_blank ws"
    and t: "t' = ws @ op_name i @ ws @ t \<or> t' = strip (ws @ op_name i @ ws @ t)" "strip t = t"
    and q: "full_query e (Suc i) t = Parsed y r"
  shows "full_operators e k x t' = full_operators e k (snd (infix_ops ! i) x y) r"
proof -
  have st: "strip t' = op_name i @ ws @ t" using t(1) infix_not_blank [OF i(1)] by (auto simp: strip_blanks [OF ws])
  have other: "r_operator (full_query e) k x j t' = NoMatch" if "j \<le> 2" "j \<noteq> i" for j
    using infix_differs [OF i(1) that(1)] that by (simp add: r_operator_def r_bind_def r_of_def p_infix_eq st)
  have own: "r_operator (full_query e) k x i t' = Parsed (snd (infix_ops ! i) x y) r"
    using infix_differs [OF i(1) i(1)] i(2) q t(2)
    by (simp add: r_operator_def r_bind_def r_of_def p_infix_eq st strip_blanks [OF ws])
  have "next_operator (full_query e) k x t' = Parsed (snd (infix_ops ! i) x y) r"
  proof -
    consider "i = 0" | "i = 1" | "i = 2" using i(1) by linarith
    then show ?thesis using own other [of 0] other [of 1] by cases (simp_all add: next_operator_def r_alt_def)
  qed
  then show ?thesis by (simp add: full_operators_eq [OF e])
qed

lemma atom_hd:
  assumes "valid_atom vr a"
  shows "atom_text a \<noteq> [] \<and> \<not> is_blank (hd (atom_text a)) \<and> hd (atom_text a) \<noteq> CHR ''!'' \<and> hd (atom_text a) \<noteq> CHR ''(''"
proof -
  have known: "list_all (\<lambda>a. a \<noteq> [] \<and> \<not> is_blank (hd a) \<and> hd a \<noteq> CHR ''!'' \<and> hd a \<noteq> CHR ''('') (compared_attrs @ map fst missing_table @ later_attrs)"
    by code_simp
  have sub: "fst ` set set_attr_table \<subseteq> set later_attrs" "fst ` set depset_dep_table \<subseteq> set later_attrs"
      "fst ` set depset_str_table \<subseteq> set later_attrs" "''maintainers'' \<in> set later_attrs"
    by (simp_all add: later_attrs_def set_attr_table_def depset_dep_table_def depset_str_table_def)
  have "\<exists>attr. prefix attr (atom_text a) \<and> attr \<in> set (compared_attrs @ map fst missing_table @ later_attrs)"
  proof (cases a)
    case (InSet attr opr vals)
    then show ?thesis using assms subsetD [OF sub(1), of attr] by (intro exI [of _ attr]) simp
  next
    case (DepsetHas attr kind opr s)
    then show ?thesis using assms subsetD [OF sub(2), of attr] subsetD [OF sub(3), of attr] by (intro exI [of _ attr]) auto
  next
    case (MaintainerHas kind attr opr s)
    then show ?thesis using sub(4) by (intro exI [of _ "''maintainers''"]) simp
  next
    case (MaintainerCount opr ds)
    then show ?thesis using sub(4) by (intro exI [of _ "''maintainers''"]) simp
  next
    case (Compare attr opr s)
    then show ?thesis using assms by (intro exI [of _ attr]) simp
  next
    case (Missing attr)
    then show ?thesis using assms by (intro exI [of _ attr]) simp
  qed
  then obtain attr u where "atom_text a = attr @ u" "attr \<in> set (compared_attrs @ map fst missing_table @ later_attrs)"
    by (auto simp: prefix_def)
  then show ?thesis using known unfolding list_all_iff by (metis append_is_Nil_conv hd_append2)
qed

lemma query_text_hd: "valid_query vr q \<Longrightarrow> query_text ws k q \<noteq> [] \<and> \<not> is_blank (hd (query_text ws k q))"
proof (induction q arbitrary: k)
  case (QAtom a)
  then show ?case using atom_hd [of vr a] by simp
next
  case (QInfix i p q)
  then show ?case using QInfix.IH(1) [of i] by (auto simp: Let_def hd_append is_blank_def)
qed (simp add: is_blank_def)

lemma query_text_strip: "valid_query vr q \<Longrightarrow> strip (query_text ws k q @ t) = query_text ws k q @ t"
  using query_text_hd [of vr q ws k] by (cases "query_text ws k q") simp_all

lemma query_reads:
  assumes e: "shrinks e"
      "\<And>a t. valid_atom vr a \<Longrightarrow> no_digit t \<Longrightarrow> \<exists>t'. (t' = t \<or> t' = strip t) \<and> e (atom_text a @ t) = Parsed (Var (atom_value sx a)) t'"
    and ws: "list_all is_blank ws"
  shows "valid_query vr q \<Longrightarrow> k \<le> j \<Longrightarrow> stops (Suc j) t \<Longrightarrow> no_digit t \<Longrightarrow>
    \<exists>t'. (t' = t \<or> t' = strip t) \<and> full_query e k (query_text ws j q @ t) = full_operators e k (query_value sx q) t'"
proof (induction q arbitrary: k j t)
  case (QAtom a)
  then have "r_operand e (full_query e) (atom_text a @ t) = e (atom_text a @ t)"
    using atom_hd [of vr a]
    by (cases "atom_text a") (auto simp: r_operand_def r_parens_def r_alt_def r_bind_def r_of_def p_lit_Cons p_then_def p_bind_def p_ws_eq)
  moreover obtain t' where "t' = t \<or> t' = strip t" "e (atom_text a @ t) = Parsed (Var (atom_value sx a)) t'"
    using e(2) [of a t] QAtom by auto
  ultimately show ?case
    by (intro exI [of _ t']) (simp add: full_query_eq [OF e(1)] r_bind_def del: atom_text.simps atom_value.simps)
next
  case (QNot q)
  obtain t' where t': "t' = t \<or> t' = strip t"
      "full_query e 3 (query_text ws 3 q @ t) = full_operators e 3 (query_value sx q) t'"
    using QNot.IH [of 3 3 t] QNot.prems by (auto simp: stops_high)
  then have "r_operand e (full_query e) (CHR ''!'' # query_text ws 3 q @ t) = Parsed (RNot (query_value sx q)) t'"
    by (simp add: r_operand_def r_parens_def r_alt_def r_bind_def r_of_def p_lit_Cons stops_operators [OF e(1)] stops_high)
  with t'(1) show ?case by (auto simp: full_query_eq [OF e(1)] r_bind_def)
next
  case (QInfix i p q)
  then have i: "i \<le> 2" and v: "valid_query vr p" "valid_query vr q" by simp_all
  let ?body = "query_text ws i p @ ws @ op_name i @ ws @ query_text ws (Suc i) q"
  let ?x = "snd (infix_ops ! i) (query_value sx p) (query_value sx q)"
  have body: "\<exists>t'. (t' = t \<or> t' = strip t) \<and> full_query e k (?body @ t) = full_operators e k ?x t'"
    if k: "k \<le> i" and st: "stops (Suc i) t" and nd: "no_digit t" for k t
  proof -
    let ?w = "ws @ op_name i @ ws @ query_text ws (Suc i) q @ t"
    have "stops (Suc i) ?w"
      using infix_differs [OF i] infix_not_blank [OF i] by (auto simp: stops_def p_infix_eq strip_blanks [OF ws])
    moreover have "no_digit ?w"
    proof (cases ws)
      case Nil
      then show ?thesis using infix_le2 [OF i] by (auto simp: infix_ops_def no_digit_def is_digit_def)
    next
      case (Cons c cs)
      then show ?thesis using ws by (auto simp: no_digit_def is_digit_def is_blank_def)
    qed
    ultimately obtain w' where w': "w' = ?w \<or> w' = strip ?w" "full_query e k (query_text ws i p @ ?w) = full_operators e k (query_value sx p) w'"
      using QInfix.IH(1) [OF v(1) k, of ?w] by blast
    obtain t' where t': "t' = t \<or> t' = strip t"
        "full_query e (Suc i) (query_text ws (Suc i) q @ t) = full_operators e (Suc i) (query_value sx q) t'"
      using QInfix.IH(2) [OF v(2) order_refl, of "Suc i" t] stops_mono [OF st] nd by auto
    then have "full_query e (Suc i) (query_text ws (Suc i) q @ t) = Parsed (query_value sx q) t'"
      using st by (auto simp: stops_operators [OF e(1)])
    then have "full_operators e k (query_value sx p) w' = full_operators e k ?x t'"
      by (rule operator_reads [OF e(1) i k ws w'(1) query_text_strip [OF v(2)]])
    with w'(2) t'(1) show ?thesis by auto
  qed
  show ?case
  proof (cases "j \<le> i")
    case True
    then show ?thesis using body [of k t] QInfix.prems by (auto simp: Let_def intro: stops_mono)
  next
    case False
    have close: "stops n (CHR '')'' # t)" for n by (rule stops_end) (simp add: is_blank_def)
    have nd: "no_digit (CHR '')'' # t)" by (simp add: no_digit_def is_digit_def)
    have strip_b: "strip (?body @ CHR '')'' # t) = ?body @ CHR '')'' # t"
      using query_text_strip [OF v(1), of ws i "ws @ op_name i @ ws @ query_text ws (Suc i) q @ CHR '')'' # t"] by simp
    have "full_query e 0 (?body @ CHR '')'' # t) = Parsed ?x (CHR '')'' # t)"
      using body [OF le0 close nd] close by (auto simp: stops_operators [OF e(1)] is_blank_def)
    then have "r_operand e (full_query e) (CHR ''('' # ?body @ CHR '')'' # t) = Parsed ?x (strip t)"
      using strip_b by (simp add: r_operand_def r_parens_def r_alt_def r_bind_def r_of_def p_lit_Cons p_then_def p_bind_def p_ws_eq is_blank_def)
    then show ?thesis using False by (auto simp: Let_def full_query_eq [OF e(1)] r_bind_def)
  qed
qed

lemma parse_query_text:
  assumes "valid_query vr q" "list_all is_blank ws"
  shows "parse_pkg_query dep sx vr (query_text ws 0 q) = Some (Inr (query_value sx q))"
proof -
  let ?e = "r_expression dep sx vr"
  have nil: "stops n []" for n by (rule stops_end) simp
  obtain t' where "t' = [] \<or> t' = strip []" "full_query ?e 0 (query_text ws 0 q @ []) = full_operators ?e 0 (query_value sx q) t'"
    using query_reads [of ?e vr sx ws q 0 0 "[]", OF shrinks_expression atom_reads assms(2,1)] nil by (auto simp: no_digit_def)
  then have "full_query ?e 0 (query_text ws 0 q) = Parsed (query_value sx q) []"
    by (auto simp: stops_operators [OF shrinks_expression nil])
  then show ?thesis by (simp add: parse_pkg_query_def query_fuel_def full_query_def peg_result_def)
qed

section \<open>What they mean\<close>

fun is_xor_query :: "query \<Rightarrow> bool" where
  "is_xor_query (QInfix i p q) \<longleftrightarrow> i = 1"
| "is_xor_query q = False"

text \<open>Merged restrictions keep at least two members.\<close>

definition well_joined :: "base_restrict \<Rightarrow> bool" where
  "well_joined r \<longleftrightarrow> (\<forall>vals. r = RAnd vals \<or> r = ROr vals \<or> r = RXor vals \<longrightarrow> 2 \<le> length vals)"

definition xor_members :: "base_restrict \<Rightarrow> base_restrict list" where
  "xor_members r = (case r of RXor vals \<Rightarrow> vals | _ \<Rightarrow> [r])"

lemma joined_and: "well_joined x \<Longrightarrow> well_joined y \<Longrightarrow> \<exists>vals. restrict_and [x, y] = RAnd vals \<and> 2 \<le> length vals"
  by (cases x; cases y) (auto simp: restrict_and_def unwrap_single_def well_joined_def)

lemma joined_or: "well_joined x \<Longrightarrow> well_joined y \<Longrightarrow> \<exists>vals. restrict_or [x, y] = ROr vals \<and> 2 \<le> length vals"
  by (cases x; cases y) (auto simp: restrict_or_def unwrap_single_def well_joined_def)

lemma joined_xor: "well_joined x \<Longrightarrow> well_joined y \<Longrightarrow>
    restrict_xor [x, y] = RXor (xor_members x @ xor_members y) \<and> 2 \<le> length (xor_members x @ xor_members y)"
  by (cases x; cases y) (auto simp: restrict_xor_def xor_members_def unwrap_single_def well_joined_def)

lemma query_value_joined: "valid_query vr q \<Longrightarrow> well_joined (query_value sx q)"
proof (induction q)
  case (QInfix i p q)
  then have IH: "well_joined (query_value sx p)" "well_joined (query_value sx q)" by simp_all
  have "i = 0 \<or> i = Suc 0 \<or> i = Suc (Suc 0)" using QInfix.prems by (intro infix_le2) simp
  then show ?case
    using joined_or [OF IH] joined_and [OF IH] joined_xor [OF IH] by (auto simp: infix_ops_def well_joined_def)
qed (auto simp: well_joined_def)

lemma members_matches: "well_joined r \<Longrightarrow> boolean_matches m r = xor_result (map (boolean_matches m) (xor_members r))"
  by (cases r) (auto simp: xor_members_def xor_result_def xor_scan_None well_joined_def)

lemma query_value_members:
  "valid_query vr q \<Longrightarrow> map (boolean_matches m) (xor_members (query_value sx q)) = query_values (\<lambda>a. m (atom_value sx a)) q"
proof (induction q)
  case (QNot q)
  then show ?case using members_matches [OF query_value_joined [of vr q sx], of m] by (simp add: xor_members_def)
next
  case (QInfix i p q)
  then have v: "valid_query vr p" "valid_query vr q" by simp_all
  note IH = QInfix.IH(1) [OF v(1)] QInfix.IH(2) [OF v(2)]
  note joined = query_value_joined [OF v(1), of sx] query_value_joined [OF v(2), of sx]
  have m: "boolean_matches m (query_value sx p) = xor_result (query_values (\<lambda>a. m (atom_value sx a)) p)"
      "boolean_matches m (query_value sx q) = xor_result (query_values (\<lambda>a. m (atom_value sx a)) q)"
    using members_matches [OF joined(1), of m] members_matches [OF joined(2), of m] IH by simp_all
  have "i = 0 \<or> i = Suc 0 \<or> i = Suc (Suc 0)" using QInfix.prems by (intro infix_le2) simp
  then show ?case
  proof (elim disjE)
    assume i: "i = 0"
    obtain vals where "restrict_or [query_value sx p, query_value sx q] = ROr vals" using joined_or [OF joined] by blast
    then have "xor_members (restrict_or [query_value sx p, query_value sx q]) = [restrict_or [query_value sx p, query_value sx q]]"
      by (simp add: xor_members_def)
    with i m show ?thesis by (simp add: infix_ops_def)
  next
    assume "i = Suc 0"
    then show ?thesis using joined_xor [OF joined] IH by (simp add: infix_ops_def xor_members_def [of "RXor _"])
  next
    assume i: "i = Suc (Suc 0)"
    obtain vals where "restrict_and [query_value sx p, query_value sx q] = RAnd vals" using joined_and [OF joined] by blast
    then have "xor_members (restrict_and [query_value sx p, query_value sx q]) = [restrict_and [query_value sx p, query_value sx q]]"
      by (simp add: xor_members_def)
    with i m show ?thesis by (simp add: infix_ops_def)
  qed
qed (simp add: xor_members_def)

lemma query_value_meaning:
  assumes "valid_query vr q"
  shows "boolean_matches m (query_value sx q) = query_holds (\<lambda>a. m (atom_value sx a)) q"
  using members_matches [OF query_value_joined [OF assms], of m sx] query_value_members [OF assms, of m sx]
  by (simp add: query_holds_def)

text \<open>Where no exclusive disjunction is an operand of another it is the usual one.\<close>

lemma single_values: "\<not> is_xor_query q \<Longrightarrow> query_values m q = [query_holds m q]"
  by (cases q) (simp_all add: query_holds_def xor_result_def)

lemma query_holds_simps:
  "query_holds m (QAtom a) = m a"
  "query_holds m (QNot q) = (\<not> query_holds m q)"
  "i \<noteq> 1 \<Longrightarrow> query_holds m (QInfix i p q) = (if i = 0 then query_holds m p \<or> query_holds m q else query_holds m p \<and> query_holds m q)"
  by (simp_all add: query_holds_def xor_result_def)

lemma xor_apart_holds:
  assumes "\<not> is_xor_query p" "\<not> is_xor_query q"
  shows "query_holds m (QInfix 1 p q) = (query_holds m p \<noteq> query_holds m q)"
proof -
  have "query_values m (QInfix 1 p q) = [query_holds m p, query_holds m q]"
    using single_values [OF assms(1)] single_values [OF assms(2)] by simp
  then show ?thesis unfolding query_holds_def [of m "QInfix 1 p q"] by (auto simp: xor_result_def)
qed

end
