(* ===== verification/Query_Props.thy ===== *)
theory Query_Props
  imports Regex_Glob Restrict_Query_Round
begin

text \<open>
  The properties of the parsers of restrictions.
\<close>

section \<open>Globbed dependencies\<close>

text \<open>C38: the text of a globbed dependency is read as a restriction that matches the valid dependencies it
  describes: each glob matches its part, a version intersects, and a blocker, USE dependencies, a slot
  and a repository that the text names are there. Of the regular expressions it is assumed that they
  behave as documented (\<open>documented_regex\<close>) and that those of the globs are accepted.\<close>

theorem glob_restriction_matches:
  assumes "index_set (=) ix" "valid_dep_glob g"
    and "documented_regex esc vr re" "\<forall>x \<in> set (dep_globs g). vr (glob_regex esc x)"
  shows "\<exists>r. parse_dep_restrict ix esc vr (dep_glob_text g) = Inr r \<and>
    (\<forall>e d. valid_dep e d \<longrightarrow> matches_dep re ix r d = glob_describes g d)"
  using parse_glob_matches [OF assms(1,2)] glob_restricts_match [OF assms(1,2)] globs_documented [OF assms(3,4)] valid_one_line
  by (metis (no_types))

definition example_glob :: dep_glob where
  "example_glob = \<lparr>dg_blocker = None, dg_category = Some ''c*-t'', dg_package = ''pkg'', dg_version = Some (projr (version_try_new ''>=1.2'')),
     dg_slot = Some (''0'', None), dg_use_deps = None, dg_repo = None\<rparr>"

definition example_esc :: "string \<Rightarrow> string" where
  "example_esc s = concat (map rx_escape s)"

definition example_re :: "string \<Rightarrow> string \<Rightarrow> bool" where
  "example_re p = rx_search True (rx_read p)"

lemma example_glob_facts:
  "dep_glob_text example_glob = ''>=c*-t/pkg-1.2:0''"
  "glob_regex example_esc ''c*-t'' = concat [''^c.*'', [backslash], ''-t$'']"
  by code_simp+

lemma example_glob_valid: "valid_dep_glob example_glob"
  unfolding valid_dep_glob_def example_glob_def dep_glob.simps option.pred_inject
  by (intro conjI TrueI option.pred_inject(1)) code_simp+

lemma example_glob_describes:
  "glob_describes example_glob (parsed_dep ''=cat-t/pkg-2:0/3'')" "\<not> glob_describes example_glob (parsed_dep ''=cat-tx/pkg-2:0/3'')"
proof -
  show "glob_describes example_glob (parsed_dep ''=cat-t/pkg-2:0/3'')"
    unfolding glob_describes_def example_glob_def dep_glob.simps option.pred_inject split provides_def option.case
    by (intro conjI TrueI option.pred_inject(1)) code_simp+
  have "\<not> glob_matches ''c*-t'' (cpn_category (dep_cpn (parsed_dep ''=cat-tx/pkg-2:0/3'')))" by code_simp
  then show "\<not> glob_describes example_glob (parsed_dep ''=cat-tx/pkg-2:0/3'')"
    by (simp add: glob_describes_def example_glob_def)
qed

theorem glob_restriction_matches_witness:
  "\<exists>r. parse_dep_restrict ref_ix example_esc (\<lambda>_. True) ''>=c*-t/pkg-1.2:0'' = Inr r \<and>
    matches_dep example_re ref_ix r (parsed_dep ''=cat-t/pkg-2:0/3'') \<and> \<not> matches_dep example_re ref_ix r (parsed_dep ''=cat-tx/pkg-2:0/3'')"
proof -
  have "documented_regex example_esc (\<lambda>_. True) example_re"
    using documented_reader unfolding example_esc_def [abs_def] example_re_def [abs_def] .
  then obtain r where "parse_dep_restrict ref_ix example_esc (\<lambda>_. True) (dep_glob_text example_glob) = Inr r"
      "\<forall>e d. valid_dep e d \<longrightarrow> matches_dep example_re ref_ix r d = glob_describes example_glob d"
    using glob_restriction_matches [OF ref_set.index_set_axioms example_glob_valid] by blast
  moreover have "valid_dep ids_eapi (parsed_dep ''=cat-t/pkg-2:0/3'')" "valid_dep ids_eapi (parsed_dep ''=cat-tx/pkg-2:0/3'')"
    by (rule parse_dep_valid [where ix = ref_ix and s = "''=cat-t/pkg-2:0/3''"], rule ref_set.index_set_axioms, code_simp,
        rule parse_dep_valid [where ix = ref_ix and s = "''=cat-tx/pkg-2:0/3''"], rule ref_set.index_set_axioms, code_simp)
  ultimately show ?thesis using example_glob_facts example_glob_describes by auto
qed

text \<open>The text of a dependency names the repository before the USE dependencies. The grammar of
  restrictions has them the other way round and takes all that follows for the repository.\<close>

lemma repo_takes_uses:
  "parse_dep_restricts ref_ix esc vr ''a/b::r[u]'' = Inr [dep_restrict_category ''a'', dep_restrict_package ''b'', dep_restrict_repo (Some ''r[u]'')] \<and>
   dep_repo (parsed_dep ''a/b::r[u]'') = Some ''r'' \<and> dep_use_deps (parsed_dep ''a/b::r[u]'') \<noteq> None"
  by code_simp

section \<open>Package queries\<close>

text \<open>C39: the text of a query expression, with parentheses only where the precedence of its operators asks
  for them and any white space around the operators, is read as a restriction that matches the packages
  for which the expression holds. An exclusive disjunction of exclusive disjunctions counts as one over
  all of their operands, which holds where they do not all agree (\<open>query_holds\<close>, \<open>xor_apart_holds\<close>). The
  comparisons are those of \<open>query_atom\<close>: attributes with a string or a set, values of dependency sets and
  of maintainers with a string, the number of maintainers, and tests for missing attributes. Left out are
  \<open>any\<close> on package dependencies, lists of attributes with a prefix (\<open>&a|b\<close>), missing attributes and
  conjunctions of maintainers, and values in single quotes.\<close>

theorem query_meaning:
  assumes "valid_query vr q" "list_all is_blank ws"
  shows "\<exists>r. parse_pkg_query dep sx vr (query_text ws 0 q) = Some (Inr r) \<and>
    (\<forall>re ux ix p. matches_ebuild re ux ix r p = query_holds (\<lambda>a. matches_ebuild re ux ix (Var (atom_value sx a)) p) q)"
  using parse_query_text [OF assms] query_value_meaning [OF assms(1)]
  by (intro exI [of _ "query_value sx q"]) (simp add: matches_ebuild_def)

definition example_query :: query where
  "example_query = QInfix 0 (QInfix 2 (QNot (QAtom (Compare ''category'' ''=='' ''a''))) (QAtom (InSet ''iuse'' ''>='' [''x'', ''y''])))
     (QInfix 2 (QInfix 1 (QAtom (DepsetHas ''license'' ''any'' ''!='' ''0'')) (QAtom (MaintainerHas ''any'' ''email'' ''>='' ''x'')))
        (QAtom (MaintainerCount ''<'' ''2'')))"

theorem query_meaning_witness:
  "\<exists>r. parse_pkg_query (\<lambda>_. Inr []) (ref_index_set (=)) (\<lambda>_. True)
      (concat [''!category == '', quoted_text ''a'', '' && iuse >= {'', quoted_text ''x'', '', '', quoted_text ''y'', ''} || (license any != '',
         quoted_text ''0'', '' ^^ maintainers any email >= '', quoted_text ''x'', '') && maintainers < 2'']) = Some (Inr r)"
proof -
  have "valid_query (\<lambda>_. True) example_query" "list_all is_blank '' ''"
    by code_simp+
  moreover have "query_text '' '' 0 example_query = concat [''!category == '', quoted_text ''a'', '' && iuse >= {'', quoted_text ''x'', '', '',
      quoted_text ''y'', ''} || (license any != '', quoted_text ''0'', '' ^^ maintainers any email >= '', quoted_text ''x'', '') && maintainers < 2'']"
    by code_simp
  ultimately show ?thesis
    using query_meaning [of "\<lambda>_. True" example_query "'' ''" "\<lambda>_. Inr []" "ref_index_set (=)"] by auto
qed

text \<open>C40: a query that panics tests the attribute \<open>upstream\<close>.\<close>

theorem query_panics_upstream:
  assumes "parse_pkg_query dep sx vr s = None"
  shows "\<exists>u v. s = u @ ''upstream'' @ v"
  using query_panics [OF assms] by (simp add: sublist_def)

lemma upstream_panics: "parse_pkg_query (\<lambda>_. Inr []) (ref_index_set (=)) (\<lambda>_. True) ''upstream is none'' = None"
  by code_simp

theorem query_panics_upstream_witness: "\<exists>u v. ''upstream is none'' = u @ ''upstream'' @ v"
  by (rule query_panics_upstream [OF upstream_panics])

text \<open>A dependency that some dependency of the package has to match is taken apart, and each part may be
  matched by another one.\<close>

lemma any_parts_apart:
  assumes "pkg_depend p = [Enabled (parsed_dep ''cat/other''), Enabled (parsed_dep ''x/pkg'')]"
  shows "\<exists>r. parse_pkg_query (parse_dep_restricts ref_ix esc vr) (ref_index_set (=)) (\<lambda>_. True)
      (concat [''depend any '', [CHR 0x22], ''cat/pkg'', [CHR 0x22]]) = Some (Inr r) \<and> matches_ebuild re ux ix r p"
proof -
  have "parse_pkg_query (parse_dep_restricts ref_ix esc vr) (ref_index_set (=)) (\<lambda>_. True)
      (concat [''depend any '', [CHR 0x22], ''cat/pkg'', [CHR 0x22]]) =
    Some (Inr (RAnd [of_ebuild (EbuildDepend (Some (DepsetAny (DepCategory (Var (StrEqual ''cat'')))))),
      of_ebuild (EbuildDepend (Some (DepsetAny (DepPackage (Var (StrEqual ''pkg''))))))]))"
    by code_simp
  moreover have "cpn_category (dep_cpn (parsed_dep ''cat/other'')) = ''cat''" "cpn_package (dep_cpn (parsed_dep ''x/pkg'')) = ''pkg''"
    by code_simp+
  ultimately show ?thesis
    using assms by (simp add: matches_ebuild_def match_or_empty_def dep_depset_matches_def depset_matches_iff del: depset_matches.simps)
qed

end
