(* ===== verification/Spec2Isabelle.thy ===== *)
theory Spec2Isabelle
  imports Version_Props Eapi_Props Dep_Props Dependency_Props Restrict_Props Repo_Props Shell_Props Metadata_Props Manifest_Props Profile_Props Fetch_Props Query_Props
begin

text \<open>
  Pkgcraft (\<open>src/crates/pkgcraft\<close>) is a library and a set of tools for Gentoo ebuild
  repositories. File names below are relative to \<open>src/crates/pkgcraft/src\<close>.

  \<^bold>\<open>The program.\<close> A package is named by a category, a package name and a version
  (\<open>dep/version.rs\<close>, \<open>cpn.rs\<close>, \<open>cpv.rs\<close>); a dependency (\<open>dep/pkg.rs\<close>)
  constrains packages, and dependency expressions (\<open>dep/dependency.rs\<close>,
  \<open>dependency_set.rs\<close>, \<open>dependency_iter.rs\<close>) combine dependencies, URIs and strings
  with groups and conditions on USE flags. All of them are read by the grammars of
  \<open>dep/parse.rs\<close>. An EAPI (\<open>eapi.rs\<close>) is the version of the ebuild format: what its
  registration builds decides what the grammars accept and what the shell offers. Restrictions
  (\<open>restrict\<close>) are predicates on packages, made from names, versions and dependencies or read
  from queries (\<open>restrict/parse\<close>).
  Repositories (\<open>repo/ebuild.rs\<close>, \<open>repo/fake.rs\<close>) list and iterate over packages,
  all of them or those a restriction matches, and sets of repositories (\<open>repo/set.rs\<close>)
  combine them. The metadata of an ebuild package (\<open>pkg/ebuild\<close>) comes from sourcing the ebuild
  in a pool of processes (\<open>shell/pool.rs\<close>) or from a cache of such metadata
  (\<open>repo/ebuild/cache.rs\<close>); its files are fetched (\<open>fetch.rs\<close>) and recorded in manifests
  (\<open>pkg/ebuild/manifest.rs\<close>).

  \<^bold>\<open>Theories.\<close> Each component has a theory of definitions, named after it, in the
  order of its code, and theories of lemmas beside it; the properties stand in the theories
  \<open>*_Props\<close>, each with a witness at concrete values where it has hypotheses.

  \<^item> \<open>Prelude\<close>, \<open>Errors\<close>: three-way comparison and the operations on strings of the
    Rust library; the locale \<open>total_cmp\<close>, what an \<open>impl Ord\<close> owes to its callers;
    \<open>error.rs\<close>. Errors are values of \<open>error + 'a\<close>. A panic of the code is \<open>None\<close>, or
    a value of its own where it has to be told from other failures, and lemmas show where it does not happen.
  \<^item> \<open>Index_Set\<close>, \<open>Sorted_Set\<close>: the crate \<open>indexmap\<close> is not part of the sources.
    Its sets are lists of values in their order of iteration, its operations the fields of a
    record every definition takes as an argument, and the locale \<open>index_set\<close> states what
    its documentation promises; a reference implementation interprets the locale.
    \<open>types/sorted_set.rs\<close> and \<open>types/ordered_map.rs\<close> are modelled over it.
  \<^item> \<open>Peg\<close>: the operators of parsing expression grammars, in which the grammars of the
    code are written. A parser maps the rest of the input to a value and what it leaves.
  \<^item> \<open>Version\<close>, \<open>Version_Parse\<close>: \<open>dep/version.rs\<close> and the rules for versions. The
    cached value of a number is a word of 64 bits and a number keeps its text besides it, as in
    the code. \<open>Version_Order\<close>: comparison is a total order, for every choice of the flags of
    \<open>cmp\<close>. \<open>Version_Intersect\<close>: the match over pairs of operators covers them all, and
    without globs intersection is the existence of a common version, up to the approximations
    named in the property.
  \<^item> \<open>Shell_Scope\<close>, \<open>Eapi\<close>: phases, hooks, operations, scopes, commands and variables
    as data, and the registration of EAPIs as the sequence of builder steps of \<open>eapi.rs\<close>,
    each of which may panic; the properties evaluate it.
  \<^item> \<open>Dep\<close>, \<open>Dep_Parse\<close>, \<open>Dep_Ops\<close>: \<open>dep/cpn.rs\<close>, \<open>dep/cpv.rs\<close>,
    \<open>dep/use_dep.rs\<close>, \<open>dep/uri.rs\<close>, \<open>dep/pkg.rs\<close> and their rules; \<open>modify\<close>
    and what derives from it over a copy-on-write value. \<open>Dep_Laws\<close>: order, equality and
    intersection. \<open>Dep_Round\<close>, \<open>Dep_Text\<close>: printing is the inverse of parsing.
  \<^item> \<open>Dep_Candidates\<close>: a package as far as a dependency can ask about it, and when it meets one;
    intersection is the existence of a package that meets both.
  \<^item> \<open>Dependency\<close>, \<open>Dependency_Eval\<close>, \<open>Dependency_Parse\<close>: dependency expressions, the
    double-ended iterators over them as functions on their queues, evaluation, the operations of
    sets, and the recursive grammar. The locale \<open>dependency_sets\<close> holds what is shared by the
    kinds of expression. A rule of the grammar is an instance of \<open>dependency_leaf\<close>, its parser of
    values; \<open>dependency_rule\<close> shows the shape of what it reads and \<open>dependency_reader\<close> that it
    reads back what it printed in front of what may follow, and \<open>dependency_grammar\<close> gives both
    for values that end at white space. All are interpreted for licenses, USE flags and packages.
    \<open>Src_Uri\<close> interprets the first two for \<open>SRC_URI\<close>, whose values need not read back, and
    \<open>Text_Lines\<close> shows that what the grammars return prints on one line.
  \<^item> \<open>Restrict\<close>, \<open>Restrict_Laws\<close>: restrictions, what they match, and their scope.
    \<open>Restrict_Parse\<close> with \<open>Restrict_Parse_Laws\<close>: the grammar of globbed dependencies
    (\<open>restrict/parse/dep.rs\<close>), which builds regular expressions; \<open>Regex_Glob\<close> states what the
    documentation of the crate \<open>regex\<close> says of the part of its language that they use, and derives
    that they match what the glob does. \<open>Restrict_Query\<close>: the grammar of package queries
    (\<open>restrict/parse/pkg.rs\<close>) over rules that match, do not match, or panic, each \<open>panic!\<close> of the
    source being a value of an action; \<open>Restrict_Query_Laws\<close> shows which can be reached, and
    \<open>Restrict_Query_Round\<close> prints expressions with the parentheses their precedence needs.
  \<^item> \<open>Ebuild_Repo\<close> with \<open>Ebuild_Repo_Laws\<close> and \<open>Ebuild_Repo_Iter\<close>: an ebuild repository
    is its list of category files and a function from paths to what the file system holds;
    listing, the iterators with their fast paths, restrictions of paths. \<open>Fake_Repo\<close> with
    \<open>Fake_Repo_Laws\<close>: its state is a sorted list of \<open>Cpv\<close>s and the map derived from it.
    \<open>Repo_Set\<close> with \<open>Repo_Set_Laws\<close>: a repository is the record of the methods of its
    traits; the locale \<open>pkg_repo\<close> is the contract that the iterators of sets rely on, and the
    fake and ebuild repositories discharge it. \<open>Repo_Examples\<close> holds small repositories for
    the witnesses.
  \<^item> \<open>Repo_Metadata\<close> with \<open>Repo_Metadata_Laws\<close>: the configuration of a repository
    (\<open>metadata/layout.conf\<close>) and opening it; \<open>Repo_Profiles\<close> with \<open>Repo_Profiles_Laws\<close>: what is
    read from \<open>profiles\<close>, \<open>eclass\<close> and \<open>licenses\<close> (\<open>repo/ebuild/metadata.rs\<close>), the aliases of license
    groups and the file of local USE flags among it; \<open>Xml_Metadata\<close>: \<open>metadata.xml\<close>
    (\<open>pkg/ebuild/xml.rs\<close>).
  \<^item> \<open>Pkg_Metadata\<close> with \<open>Pkg_Metadata_Laws\<close>: keywords, IUSE, eclasses and the metadata of a package
    as read from text or from the environment that sourcing leaves (\<open>pkg/ebuild/metadata.rs\<close>,
    \<open>shell/metadata.rs\<close>). \<open>Md5_Dict\<close> with \<open>Md5_Dict_Laws\<close>: entries of the metadata cache
    (\<open>repo/ebuild/cache/md5_dict.rs\<close>), the locale \<open>metadata_sets\<close> collecting what they need of
    the sets. \<open>Cache_Regen\<close> with \<open>Cache_Regen_Laws\<close>: the files of the cache as a map, cleaning, the builder
    of a regeneration, and its tasks as a sequence and as the step relation of a pool
    (\<open>repo/ebuild/cache.rs\<close>, \<open>shell/pool.rs\<close>).
  \<^item> \<open>Manifest\<close> with \<open>Manifest_Laws\<close>: manifests (\<open>pkg/ebuild/manifest.rs\<close>), over a hash
    function and the files of a directory.
  \<^item> \<open>Ebuild_Pkg\<close> with \<open>Ebuild_Pkg_Laws\<close>: raw, plain and configured ebuild packages, and what
    restrictions see of them. \<open>Fetch\<close>: fetchables, their mirrors, and downloading with resumption
    against a server that answers as it likes (\<open>fetch.rs\<close>).
  \<^item> \<open>Shell_Commands\<close> with \<open>Shell_Commands_Laws\<close>: which commands an EAPI and a scope offer, and
    those that compute: \<open>ver_cut\<close>, \<open>ver_rs\<close>, \<open>ver_test\<close>, the commands on USE flags, \<open>has\<close> and
    the queries \<open>has_version\<close> and \<open>best_version\<close> (\<open>shell/commands\<close>).

  \<^bold>\<open>What the properties show.\<close> Orders are total and agree with equality and with hashes;
  intersection is symmetric, reflexive and tied to common versions and packages; every grammar
  accepts the printed form of what it returns, that of \<open>SRC_URI\<close> for plain URIs; \<open>modify\<close> keeps dependencies well
  formed; registering the EAPIs does not panic; evaluation leaves no condition and no empty group, and
  the iterators of expressions end and agree with their recursive specifications; restrictions match
  what they are made from, their combinators what they say, and the grammars of restrictions
  return what the text describes; the restricted iterators of repositories and of
  sets of them return what filtering returns, under conditions that lemmas show to be needed; fake repositories
  keep their state consistent; metadata survives the cache, every interleaving of a regeneration has the
  outcome of the sequence, and a forced one leaves exactly the entries it should; manifests read back,
  verify after an update, and are updated idempotently; license groups are resolved and local flags
  and configurations read back; fetching never leaves other than a part of the file. Where the code
  falls short a lemma shows it on a concrete input.

  \<^bold>\<open>Bounds.\<close> Loops and recursion that consume input or a queue are total functions with
  measures. The recursive rules of the grammar of dependencies take a bound on the nesting, one more than
  the length of the input: each level of nesting consumes a character, and the rules are shown to
  satisfy their own equations at that bound, so it is never met. The rules of queries take the same
  bound for operators and parentheses, and \<open>query_enough\<close> shows that a greater one changes
  nothing. Iterators that are driven by a caller are partial functions, shown to end.

  \<^bold>\<open>What is taken from outside.\<close> The operations of \<open>indexmap\<close>, the parsing and matching of
  regular expressions, the parsers of INI files, XML and URLs, hash functions, the HTTP server, the
  comparison of errors where sets hold them, the file system, and the environment that sourcing an ebuild leaves
  are arguments of the definitions that use them. Strings are lists of characters of one byte: the
  white space of other alphabets is not trimmed.

  \<^bold>\<open>Not modelled.\<close> Running bash and what ebuilds call to install files or run programs (\<open>shell\<close>
  apart from what is named above, \<open>bash.rs\<close>), the configuration of the tool and its repositories (\<open>config\<close>),
  configured and temporary repositories and reverse dependencies, archives, synchronisation, command lines, failing
  writes and the removal of directories, the positions and texts of parse errors, serialisation, and the other crates:
  the bindings, the tools, the scanner \<open>pkgcruft\<close> and its service, \<open>arcanist\<close> and the wrapper of bash
  \<open>scallop\<close>, but for its exit statuses. They are input and output, calls of other
  programs, glue, or programs of their own.
\<close>

end
